(* ===== verification/Marie_Prelude.thy ===== *)
theory Marie_Prelude
  imports Main "HOL-Library.AList" "HOL-Library.Word"
begin

text \<open>
  Shared vocabulary of the development: machine integers, hash maps, the outcome of a Rust
  function that may return an error or panic, state-passing programs with early exit, and the
  interface of a keyed store with the lemmas its clients use.

  A Rust \<^verbatim>\<open>HashMap\<close> (and a \<^verbatim>\<open>moka\<close> cache, whose content is the map of the
  entries it currently holds) is an association list with distinct keys. The order of the list
  stands for the iteration order, which Rust leaves unspecified: a lemma that holds for every
  list holds for every iteration order.
\<close>

section \<open>Machine integers\<close>

type_synonym u8 = "8 word"
type_synonym u32 = "32 word"
type_synonym u64 = "64 word"

section \<open>Hash maps\<close>

type_synonym ('k, 'v) hash_map = "('k \<times> 'v) list"

named_theorems hm_simps "reads of a hash map after a write"
named_theorems keeps_intro "composition rules for invariants of programs"
named_theorems prog_simps "evaluation of state-passing programs"

abbreviation hm_get :: "('k, 'v) hash_map \<Rightarrow> 'k \<Rightarrow> 'v option" where
  "hm_get m k \<equiv> map_of m k"

abbreviation hm_insert :: "'k \<Rightarrow> 'v \<Rightarrow> ('k, 'v) hash_map \<Rightarrow> ('k, 'v) hash_map" where
  "hm_insert k v m \<equiv> AList.update k v m"

abbreviation hm_remove :: "'k \<Rightarrow> ('k, 'v) hash_map \<Rightarrow> ('k, 'v) hash_map" where
  "hm_remove k m \<equiv> AList.delete k m"

abbreviation hm_values :: "('k, 'v) hash_map \<Rightarrow> 'v list" where
  "hm_values m \<equiv> map snd m"

definition hm_wf :: "('k, 'v) hash_map \<Rightarrow> bool" where
  "hm_wf m \<longleftrightarrow> distinct (map fst m)"

definition hm_contains :: "('k, 'v) hash_map \<Rightarrow> 'k \<Rightarrow> bool" where
  "hm_contains m k \<longleftrightarrow> hm_get m k \<noteq> None"

text \<open>\<^verbatim>\<open>HashMap::extend\<close>: the pairs are inserted in order, a later one overwrites.\<close>

fun hm_extend :: "('k, 'v) hash_map \<Rightarrow> ('k \<times> 'v) list \<Rightarrow> ('k, 'v) hash_map" where
  "hm_extend m [] = m"
| "hm_extend m (kv # kvs) = hm_extend (hm_insert (fst kv) (snd kv) m) kvs"

text \<open>\<^verbatim>\<open>HashMap::from_iter\<close> and \<^verbatim>\<open>HashMap::from\<close>.\<close>

abbreviation hm_from :: "('k \<times> 'v) list \<Rightarrow> ('k, 'v) hash_map" where
  "hm_from kvs \<equiv> hm_extend [] kvs"

text \<open>\<^verbatim>\<open>entry(k).or_default().push(v)\<close> on a map of vectors.\<close>

definition hm_push :: "'k \<Rightarrow> 'v \<Rightarrow> ('k, 'v list) hash_map \<Rightarrow> ('k, 'v list) hash_map" where
  "hm_push k v m = hm_insert k ((case hm_get m k of None \<Rightarrow> [] | Some vs \<Rightarrow> vs) @ [v]) m"

text \<open>\<^verbatim>\<open>iter_mut()\<close> with an in-place update of every value.\<close>

definition hm_map :: "('k \<Rightarrow> 'v \<Rightarrow> 'v) \<Rightarrow> ('k, 'v) hash_map \<Rightarrow> ('k, 'v) hash_map" where
  "hm_map f m = map (\<lambda>kv. (fst kv, f (fst kv) (snd kv))) m"

lemma hm_wf_empty [simp]: "hm_wf []"
  by (simp add: hm_wf_def)

lemma hm_wf_insert [simp]: "hm_wf m \<Longrightarrow> hm_wf (hm_insert k v m)"
  by (simp add: hm_wf_def distinct_update)

lemma hm_wf_remove [simp]: "hm_wf m \<Longrightarrow> hm_wf (hm_remove k m)"
  by (simp add: hm_wf_def distinct_delete)

lemma hm_wf_map [simp]: "hm_wf (hm_map f m) = hm_wf m"
  by (simp add: hm_wf_def hm_map_def comp_def)

lemma hm_wf_extend [simp]: "hm_wf m \<Longrightarrow> hm_wf (hm_extend m kvs)"
  by (induction kvs arbitrary: m) simp_all

lemma hm_get_insert [simp, hm_simps]:
  "hm_get (hm_insert k v m) k' = (if k' = k then Some v else hm_get m k')"
  by (simp add: update_conv')

lemma hm_get_remove [simp, hm_simps]:
  "hm_get (hm_remove k m) k' = (if k' = k then None else hm_get m k')"
  by (simp add: delete_conv')

lemma hm_get_map [simp, hm_simps]: "hm_get (hm_map f m) k = map_option (f k) (hm_get m k)"
  by (induction m) (auto simp: hm_map_def)

lemma hm_get_push [hm_simps]:
  "hm_get (hm_push k v m) k' =
     (if k' = k then Some ((case hm_get m k of None \<Rightarrow> [] | Some vs \<Rightarrow> vs) @ [v])
      else hm_get m k')"
  by (simp add: hm_push_def)

lemma hm_get_extend [hm_simps]:
  "hm_get (hm_extend m kvs) k =
     (case hm_get (rev kvs) k of Some v \<Rightarrow> Some v | None \<Rightarrow> hm_get m k)"
proof (induction kvs arbitrary: m)
  case Nil
  then show ?case by simp
next
  case (Cons kv kvs)
  then show ?case
    by (cases kv) (auto simp: map_add_def split: option.splits)
qed

lemma hm_get_in_set: "hm_wf m \<Longrightarrow> hm_get m k = Some v \<longleftrightarrow> (k, v) \<in> set m"
  by (simp add: hm_wf_def)

lemma hm_get_values: "hm_get m k = Some v \<Longrightarrow> v \<in> set (hm_values m)"
  by (metis map_of_SomeD image_eqI set_map snd_conv)

lemma hm_remove_insert: "hm_remove k (hm_insert k v m) = hm_remove k m"
  by (induction m) auto

lemma length_hm_insert_le: "length (hm_insert k v m) \<le> Suc (length m)"
  by (induction m) auto

lemma length_hm_remove_le: "length (hm_remove k m) \<le> length m"
  by (simp add: AList.delete_eq)

lemma length_hm_remove_less: "hm_get m k \<noteq> None \<Longrightarrow> length (hm_remove k m) < length m"
  by (induction m) (auto simp: AList.delete_eq less_Suc_eq_le split: if_splits)

section \<open>Outcomes: a value, an error, or a panic\<close>

datatype ('e, 'a) outcome = Ok 'a | Err 'e | Panic string

text \<open>
  A program reads and writes a state. When it returns an error or panics, the state it
  reached is kept: a write made before the failure is not rolled back.
\<close>

type_synonym ('s, 'e, 'a) prog = "'s \<Rightarrow> ('e, 'a) outcome \<times> 's"

definition ret :: "'a \<Rightarrow> ('s, 'e, 'a) prog" where
  "ret a = (\<lambda>s. (Ok a, s))"

definition throw :: "'e \<Rightarrow> ('s, 'e, 'a) prog" where
  "throw e = (\<lambda>s. (Err e, s))"

definition panic :: "string \<Rightarrow> ('s, 'e, 'a) prog" where
  "panic msg = (\<lambda>s. (Panic msg, s))"

definition gets :: "('s \<Rightarrow> 'a) \<Rightarrow> ('s, 'e, 'a) prog" where
  "gets f = (\<lambda>s. (Ok (f s), s))"

definition modify :: "('s \<Rightarrow> 's) \<Rightarrow> ('s, 'e, unit) prog" where
  "modify f = (\<lambda>s. (Ok (), f s))"

definition bind :: "('s, 'e, 'a) prog \<Rightarrow> ('a \<Rightarrow> ('s, 'e, 'b) prog) \<Rightarrow> ('s, 'e, 'b) prog" where
  "bind m k = (\<lambda>s. case m s of
      (Ok a, s') \<Rightarrow> k a s'
    | (Err e, s') \<Rightarrow> (Err e, s')
    | (Panic msg, s') \<Rightarrow> (Panic msg, s'))"

text \<open>Sequencing, and an awaited call whose \<^verbatim>\<open>Result\<close> the source drops.\<close>

definition seq :: "('s, 'e, 'a) prog \<Rightarrow> ('s, 'e, 'b) prog \<Rightarrow> ('s, 'e, 'b) prog" where
  "seq m k = bind m (\<lambda>_. k)"

definition ignore :: "('s, 'e, 'a) prog \<Rightarrow> ('s, 'e, unit) prog" where
  "ignore m = (\<lambda>s. case m s of
      (Ok a, s') \<Rightarrow> (Ok (), s')
    | (Err e, s') \<Rightarrow> (Ok (), s')
    | (Panic msg, s') \<Rightarrow> (Panic msg, s'))"

text \<open>\<^verbatim>\<open>try_for_each\<close> and a \<^verbatim>\<open>for\<close> loop with \<^verbatim>\<open>?\<close> in its body.\<close>

fun for_each :: "'a list \<Rightarrow> ('a \<Rightarrow> ('s, 'e, unit) prog) \<Rightarrow> ('s, 'e, unit) prog" where
  "for_each [] f = ret ()"
| "for_each (x # xs) f = seq (f x) (for_each xs f)"

text \<open>A loop that collects one result per element.\<close>

fun map_prog :: "('a \<Rightarrow> ('s, 'e, 'b) prog) \<Rightarrow> 'a list \<Rightarrow> ('s, 'e, 'b list) prog" where
  "map_prog f [] = ret []"
| "map_prog f (x # xs) = bind (f x) (\<lambda>y. bind (map_prog f xs) (\<lambda>ys. ret (y # ys)))"

definition of_sum :: "'e + 'a \<Rightarrow> ('s, 'e, 'a) prog" where
  "of_sum r = (case r of Inl e \<Rightarrow> throw e | Inr a \<Rightarrow> ret a)"

lemma ret_app [simp, prog_simps]: "ret a s = (Ok a, s)"
  by (simp add: ret_def)

lemma throw_app [simp, prog_simps]: "throw e s = (Err e, s)"
  by (simp add: throw_def)

lemma panic_app [simp, prog_simps]: "panic msg s = (Panic msg, s)"
  by (simp add: panic_def)

lemma gets_app [simp, prog_simps]: "gets f s = (Ok (f s), s)"
  by (simp add: gets_def)

lemma modify_app [simp, prog_simps]: "modify f s = (Ok (), f s)"
  by (simp add: modify_def)

lemma of_sum_app [simp, prog_simps]:
  "of_sum (Inl e) s = (Err e, s)" "of_sum (Inr a) s = (Ok a, s)"
  by (simp_all add: of_sum_def)

lemma bind_ok [prog_simps]: "m s = (Ok a, s') \<Longrightarrow> bind m k s = k a s'"
  by (simp add: bind_def)

lemma bind_err [prog_simps]: "m s = (Err e, s') \<Longrightarrow> bind m k s = (Err e, s')"
  by (simp add: bind_def)

lemma bind_panic [prog_simps]: "m s = (Panic msg, s') \<Longrightarrow> bind m k s = (Panic msg, s')"
  by (simp add: bind_def)

section \<open>Invariants of programs\<close>

definition keeps :: "('s \<Rightarrow> bool) \<Rightarrow> ('s, 'e, 'a) prog \<Rightarrow> bool" where
  "keeps I m \<longleftrightarrow> (\<forall>s. I s \<longrightarrow> I (snd (m s)))"

lemma keepsI [intro?]: "(\<And>s. I s \<Longrightarrow> I (snd (m s))) \<Longrightarrow> keeps I m"
  by (simp add: keeps_def)

lemma keepsD: "keeps I m \<Longrightarrow> I s \<Longrightarrow> I (snd (m s))"
  by (simp add: keeps_def)

lemma keeps_ret [keeps_intro]: "keeps I (ret a)"
  by (simp add: keeps_def)

lemma keeps_throw [keeps_intro]: "keeps I (throw e)"
  by (simp add: keeps_def)

lemma keeps_panic [keeps_intro]: "keeps I (panic msg)"
  by (simp add: keeps_def)

lemma keeps_gets [keeps_intro]: "keeps I (gets f)"
  by (simp add: keeps_def)

lemma keeps_modify [keeps_intro]: "(\<And>s. I s \<Longrightarrow> I (f s)) \<Longrightarrow> keeps I (modify f)"
  by (simp add: keeps_def)

lemma keeps_of_sum [keeps_intro]: "keeps I (of_sum r)"
  by (cases r) (simp_all add: keeps_def)

lemma keeps_bind [keeps_intro]:
  "keeps I m \<Longrightarrow> (\<And>a. keeps I (k a)) \<Longrightarrow> keeps I (bind m k)"
  by (fastforce simp: keeps_def bind_def split: prod.splits outcome.splits)

lemma keeps_seq [keeps_intro]: "keeps I m \<Longrightarrow> keeps I k \<Longrightarrow> keeps I (seq m k)"
  by (simp add: seq_def keeps_bind)

lemma keeps_ignore [keeps_intro]: "keeps I m \<Longrightarrow> keeps I (ignore m)"
  by (fastforce simp: keeps_def ignore_def split: prod.splits outcome.splits)

lemma keeps_for_each [keeps_intro]: "(\<And>x. keeps I (f x)) \<Longrightarrow> keeps I (for_each xs f)"
  by (induction xs) (simp_all add: keeps_ret keeps_seq)

lemma keeps_map_prog [keeps_intro]: "(\<And>x. keeps I (f x)) \<Longrightarrow> keeps I (map_prog f xs)"
  by (induction xs) (auto intro!: keeps_intro)

lemma keeps_if [keeps_intro]: "keeps I m \<Longrightarrow> keeps I k \<Longrightarrow> keeps I (if b then m else k)"
  by simp

lemma keeps_option [keeps_intro]:
  "keeps I m \<Longrightarrow> (\<And>x. keeps I (k x)) \<Longrightarrow> keeps I (case v of None \<Rightarrow> m | Some x \<Rightarrow> k x)"
  by (cases v) simp_all

section \<open>The interface of a keyed store\<close>

text \<open>
  Every store of the program (frames, snapshots, human-in-the-loop requests, sessions, secrets)
  is a table addressed by a key computed from the stored record: an upsert replaces the record
  with the same key and touches no other, a delete removes one key.
\<close>

locale keyed_store =
  fixes key :: "'v \<Rightarrow> 'k"
    and get :: "'s \<Rightarrow> 'k \<Rightarrow> 'v option"
    and upsert :: "'v \<Rightarrow> 's \<Rightarrow> 's"
    and del :: "'k \<Rightarrow> 's \<Rightarrow> 's"
  assumes get_upsert: "get (upsert v s) k = (if k = key v then Some v else get s k)"
    and get_del: "get (del k s) k' = (if k' = k then None else get s k')"
begin

lemma upsert_twice: "key v = key w \<Longrightarrow> get (upsert w (upsert v s)) = get (upsert w s)"
  by (rule ext) (simp add: get_upsert)

lemma upsert_commute:
  "key v \<noteq> key w \<Longrightarrow> get (upsert v (upsert w s)) = get (upsert w (upsert v s))"
  by (rule ext) (auto simp: get_upsert)

lemma del_upsert: "get (del (key v) (upsert v s)) = get (del (key v) s)"
  by (rule ext) (simp add: get_upsert get_del)

lemma fold_upsert_last:
  "get (fold upsert vs s) k =
     (case List.find (\<lambda>v. key v = k) (rev vs) of Some v \<Rightarrow> Some v | None \<Rightarrow> get s k)"
proof (induction vs arbitrary: s)
  case Nil
  then show ?case by simp
next
  case (Cons v vs)
  have "List.find P (xs @ [y]) =
      (case List.find P xs of Some x \<Rightarrow> Some x | None \<Rightarrow> if P y then Some y else None)"
    for P and xs :: "'v list" and y
    by (induction xs) auto
  then show ?case
    by (auto simp: Cons get_upsert split: option.splits)
qed

end

end
