(* ===== verification/Errors.thy ===== *)
theory Errors
  imports Marie_Prelude
begin

text \<open>
  The serialisable error of the program (\<^verbatim>\<open>marie-core/src/error.rs\<close>): the chain of messages
  of an error and its causes, outermost first. Constructors, context, accessors, the debug
  rendering and the generic conversion from a standard error.

  A Rust \<^verbatim>\<open>String\<close> is the list of its UTF-8 bytes. Message texts are written as in the source,
  accented letters replaced by the plain letter.
\<close>

datatype error = Error (chain: "string list")

definition err_msg :: "string \<Rightarrow> error" where
  "err_msg message = Error [message]"

definition err_context :: "error \<Rightarrow> string \<Rightarrow> error" where
  "err_context e ctx = Error (ctx # chain e)"

text \<open>\<^verbatim>\<open>&self.chain[0]\<close> and \<^verbatim>\<open>last().expect(..)\<close> panic on an empty chain.\<close>

definition err_message :: "error \<Rightarrow> ('e, string) outcome" where
  "err_message e = (case chain e of [] \<Rightarrow> Panic ''index out of bounds'' | m # _ \<Rightarrow> Ok m)"

definition err_root_cause :: "error \<Rightarrow> ('e, string) outcome" where
  "err_root_cause e =
     (if chain e = [] then Panic ''la chaine d'une `Error` ne peut pas etre vide''
      else Ok (last (chain e)))"

text \<open>
  A value of a type that implements \<^verbatim>\<open>std::error::Error\<close>: what \<^verbatim>\<open>Display\<close> prints and the
  optional \<^verbatim>\<open>source()\<close>.
\<close>

datatype std_error = Std_Error (display: string) (source: "std_error option")

fun causes :: "std_error option \<Rightarrow> string list" where
  "causes None = []"
| "causes (Some (Std_Error d s)) = d # causes s"

definition err_from :: "std_error \<Rightarrow> error" where
  "err_from e = Error (display e # causes (source e))"

text \<open>\<^verbatim>\<open>Context::context\<close> on a \<^verbatim>\<open>Result\<close>.\<close>

definition result_context :: "('e \<Rightarrow> error) \<Rightarrow> 'e + 'a \<Rightarrow> string \<Rightarrow> error + 'a" where
  "result_context into r ctx = (case r of Inl e \<Rightarrow> Inl (err_context (into e) ctx) | Inr a \<Rightarrow> Inr a)"

definition ensure_that :: "bool \<Rightarrow> string \<Rightarrow> error + unit" where
  "ensure_that cond message = (if cond then Inr () else Inl (err_msg message))"

section \<open>The debug rendering\<close>

definition digit_char :: "nat \<Rightarrow> char" where
  "digit_char n = char_of (48 + n)"

fun show_nat :: "nat \<Rightarrow> string" where
  "show_nat n = (if n < 10 then [digit_char n] else show_nat (n div 10) @ [digit_char (n mod 10)])"

declare show_nat.simps [simp del]

fun debug_causes :: "nat \<Rightarrow> string list \<Rightarrow> string" where
  "debug_causes i [] = []"
| "debug_causes i (c # cs) =
     [CHR 0x0A] @ ''    '' @ show_nat i @ '': '' @ c @ debug_causes (Suc i) cs"

definition err_debug :: "error \<Rightarrow> ('e, string) outcome" where
  "err_debug e = (case chain e of
      [] \<Rightarrow> Panic ''index out of bounds''
    | m # cs \<Rightarrow> Ok (if cs = [] then m
                    else m @ [CHR 0x0A, CHR 0x0A] @ ''Caused by:'' @ debug_causes 0 cs))"

section \<open>Facts\<close>

text \<open>The decimal rendering of a number determines it.\<close>

lemma digit_char_inj:
  assumes "m < 10" and "n < 10" and "digit_char m = digit_char n"
  shows "m = n"
proof -
  have "of_char (digit_char m) = (of_char (digit_char n) :: nat)" using assms(3) by simp
  with assms(1,2) show ?thesis by (simp add: digit_char_def)
qed

lemma show_nat_nonempty: "show_nat n \<noteq> []"
  by (simp add: show_nat.simps [of n])

lemma show_nat_inj: "show_nat m = show_nat n \<Longrightarrow> m = n"
proof (induction m arbitrary: n rule: show_nat.induct)
  case (1 m)
  have step: "show_nat k = (if k < 10 then [] else show_nat (k div 10)) @ [digit_char (k mod 10)]" for k
    by (simp add: show_nat.simps [of k])
  from 1(2) have "digit_char (m mod 10) = digit_char (n mod 10)"
    and pre: "(if m < 10 then [] else show_nat (m div 10)) = (if n < 10 then [] else show_nat (n div 10))"
    using step [of m] step [of n] by auto
  then have "m mod 10 = n mod 10" by (intro digit_char_inj) simp_all
  moreover have "m div 10 = n div 10"
    using pre show_nat_nonempty [of "m div 10"] show_nat_nonempty [of "n div 10"] 1(1)
    by (cases "m < 10"; cases "n < 10") simp_all
  ultimately show ?case by (metis div_mult_mod_eq)
qed

text \<open>The chain of every error built by the API is non-empty, so the accessors never panic.\<close>

inductive built :: "error \<Rightarrow> bool" where
  built_msg: "built (err_msg m)"
| built_context: "built e \<Longrightarrow> built (err_context e c)"
| built_from: "built (err_from s)"

lemma built_nonempty: "built e \<Longrightarrow> chain e \<noteq> []"
  by (induction rule: built.induct) (simp_all add: err_msg_def err_context_def err_from_def)

lemma built_no_panic:
  assumes "built e"
  shows "\<exists>m. err_message e = Ok m" and "\<exists>m. err_root_cause e = Ok m"
    and "\<exists>m. err_debug e = Ok m"
  using built_nonempty [OF assms]
  by (auto simp: err_message_def err_root_cause_def err_debug_def split: list.splits)

lemma message_context: "err_message (err_context e c) = Ok c"
  by (simp add: err_message_def err_context_def)

lemma root_cause_context: "built e \<Longrightarrow> err_root_cause (err_context e c) = err_root_cause e"
  using built_nonempty [of e] by (simp add: err_root_cause_def err_context_def)

end
