(* ===== verification/Ids.thy ===== *)
theory Ids
  imports Errors
begin

text \<open>
  Identifiers (\<^verbatim>\<open>marie-core/src/id.rs\<close>): the 128-bit \<^verbatim>\<open>ID\<close>, its 32-digit hexadecimal text
  form, its byte form, and the generator. The random source (\<^verbatim>\<open>Xoshiro256PlusPlus\<close>,
  \<^verbatim>\<open>getrandom\<close>) is a parameter. The new types over \<^verbatim>\<open>ID\<close> that the components use are
  declared here.
\<close>

datatype ID = ID u64 u64

datatype frame_id = FrameId ID
datatype session_id = SessionId ID
datatype hitl_id = HitlId ID

section \<open>Hexadecimal text\<close>

definition hex_digit :: "nat \<Rightarrow> char" where
  "hex_digit n = (if n < 10 then char_of (48 + n) else char_of (87 + n))"

text \<open>\<^verbatim>\<open>char::to_digit(16)\<close>.\<close>

definition to_digit :: "char \<Rightarrow> nat option" where
  "to_digit c = (let n = of_char c :: nat in
     if 48 \<le> n \<and> n \<le> 57 then Some (n - 48)
     else if 97 \<le> n \<and> n \<le> 102 then Some (n - 87)
     else if 65 \<le> n \<and> n \<le> 70 then Some (n - 55)
     else None)"

text \<open>\<^verbatim>\<open>{:x}\<close>, and \<^verbatim>\<open>{:016x}\<close>.\<close>

fun hex_nat :: "nat \<Rightarrow> string" where
  "hex_nat n = (if n < 16 then [hex_digit n] else hex_nat (n div 16) @ [hex_digit (n mod 16)])"

declare hex_nat.simps [simp del]

definition hex_pad16 :: "u64 \<Rightarrow> string" where
  "hex_pad16 w = (let s = hex_nat (unat w) in replicate (16 - length s) (CHR ''0'') @ s)"

text \<open>\<^verbatim>\<open>u64::from_str_radix(_, 16)\<close>, with its error kinds.\<close>

datatype parse_int_error = Empty | InvalidDigit | PosOverflow

fun parse_int_display :: "parse_int_error \<Rightarrow> string" where
  "parse_int_display Empty = ''cannot parse integer from empty string''"
| "parse_int_display InvalidDigit = ''invalid digit found in string''"
| "parse_int_display PosOverflow = ''number too large to fit in target type''"

fun radix_digits :: "nat \<Rightarrow> string \<Rightarrow> parse_int_error + nat" where
  "radix_digits acc [] = Inr acc"
| "radix_digits acc (c # cs) = (case to_digit c of
      None \<Rightarrow> Inl InvalidDigit
    | Some d \<Rightarrow> if 2 ^ 64 \<le> acc * 16 then Inl PosOverflow
                else if 2 ^ 64 \<le> acc * 16 + d then Inl PosOverflow
                else radix_digits (acc * 16 + d) cs)"

definition from_str_radix :: "string \<Rightarrow> parse_int_error + u64" where
  "from_str_radix s =
     (if s = [] then Inl Empty
      else if s = ''+'' \<or> s = ''-'' then Inl InvalidDigit
      else map_sum id word_of_nat (radix_digits 0 (if hd s = CHR ''+'' then tl s else s)))"

section \<open>Display and FromStr\<close>

fun id_display :: "ID \<Rightarrow> string" where
  "id_display (ID a b) = hex_pad16 a @ hex_pad16 b"

text \<open>Slicing a string at a byte that continues a UTF-8 sequence panics.\<close>

definition continuation_byte :: "char \<Rightarrow> bool" where
  "continuation_byte c \<longleftrightarrow> (128 \<le> (of_char c :: nat) \<and> (of_char c :: nat) < 192)"

definition id_from_str :: "string \<Rightarrow> (error, ID) outcome" where
  "id_from_str s =
     (if length s \<noteq> 32 then Err (err_msg ''ID parsing error : expecting a 32 long string'')
      else if continuation_byte (s ! 16) then Panic ''byte index 16 is not a char boundary''
      else case from_str_radix (take 16 s) of
          Inl e \<Rightarrow> Err (err_from (Std_Error (parse_int_display e) None))
        | Inr a \<Rightarrow> (case from_str_radix (drop 16 s) of
            Inl e \<Rightarrow> Err (err_from (Std_Error (parse_int_display e) None))
          | Inr b \<Rightarrow> Ok (ID a b)))"

text \<open>The text forms that \<^verbatim>\<open>Display\<close> produces.\<close>

definition lower_hex :: "char \<Rightarrow> bool" where
  "lower_hex c \<longleftrightarrow> c \<in> set ''0123456789abcdef''"

definition canonical_id_text :: "string \<Rightarrow> bool" where
  "canonical_id_text s \<longleftrightarrow> length s = 32 \<and> list_all lower_hex s"

section \<open>Bytes\<close>

fun le_bytes :: "nat \<Rightarrow> nat \<Rightarrow> u8 list" where
  "le_bytes 0 n = []"
| "le_bytes (Suc k) n = word_of_nat (n mod 256) # le_bytes k (n div 256)"

fun le_nat :: "u8 list \<Rightarrow> nat" where
  "le_nat [] = 0"
| "le_nat (b # bs) = unat b + 256 * le_nat bs"

text \<open>
  \<^verbatim>\<open>bytemuck::bytes_of\<close> on a \<^verbatim>\<open>repr(C)\<close> pair, on a little-endian target; the reverse
  conversion also fails when the slice is not aligned for \<^verbatim>\<open>u64\<close>.
\<close>

fun id_as_bytes :: "ID \<Rightarrow> u8 list" where
  "id_as_bytes (ID a b) = le_bytes 8 (unat a) @ le_bytes 8 (unat b)"

definition id_try_from :: "bool \<Rightarrow> u8 list \<Rightarrow> error + ID" where
  "id_try_from aligned bytes =
     (if length bytes \<noteq> 16 \<or> \<not> aligned
      then Inl (err_msg ''La slice d'octets n'a pas la bonne taille ou un mauvais alignement'')
      else Inr (ID (word_of_nat (le_nat (take 8 bytes))) (word_of_nat (le_nat (drop 8 bytes)))))"

section \<open>The generator\<close>

record 'r id_generator =
  rng :: 'r
  session_prefix :: u64

definition new_from_seed ::
  "(u8 list \<Rightarrow> 'r) \<Rightarrow> ('r \<Rightarrow> u64 \<times> 'r) \<Rightarrow> u8 list \<Rightarrow> 'r id_generator" where
  "new_from_seed from_seed next_u64 seed =
     (let (prefix, master) = next_u64 (from_seed seed) in \<lparr>rng = master, session_prefix = prefix\<rparr>)"

text \<open>
  \<^verbatim>\<open>construct\<close> hashes the node identity and the clock into the seed; \<^verbatim>\<open>default\<close> asks the
  system for it and falls back to a constant.
\<close>

definition construct_generator ::
  "(u8 list \<Rightarrow> u8 list) \<Rightarrow> (u8 list \<Rightarrow> 'r) \<Rightarrow> ('r \<Rightarrow> u64 \<times> 'r) \<Rightarrow> u8 list \<Rightarrow> nat \<Rightarrow> 'r id_generator"
  where "construct_generator sha256 from_seed next_u64 own micros =
     new_from_seed from_seed next_u64 (sha256 (own @ le_bytes 8 micros))"

definition default_generator ::
  "u8 list option \<Rightarrow> (u8 list \<Rightarrow> 'r) \<Rightarrow> ('r \<Rightarrow> u64 \<times> 'r) \<Rightarrow> 'r id_generator" where
  "default_generator getrandom from_seed next_u64 =
     new_from_seed from_seed next_u64
       (case getrandom of None \<Rightarrow> replicate 32 42 | Some seed \<Rightarrow> seed)"

definition next_id ::
  "('r \<Rightarrow> u64 \<times> 'r) \<Rightarrow> 'r id_generator \<Rightarrow> ID \<times> 'r id_generator" where
  "next_id next_u64 g =
     (let (local, r) = next_u64 (rng g) in (ID (session_prefix g) local, g\<lparr>rng := r\<rparr>))"

definition next_id_str ::
  "('r \<Rightarrow> u64 \<times> 'r) \<Rightarrow> 'r id_generator \<Rightarrow> string \<times> 'r id_generator" where
  "next_id_str next_u64 g =
     (let (local, r) = next_u64 (rng g)
      in (hex_nat (unat (session_prefix g)) @ hex_nat (unat local), g\<lparr>rng := r\<rparr>))"

definition generate_id :: "u8 list option \<Rightarrow> (u8 list \<Rightarrow> 'r) \<Rightarrow> ('r \<Rightarrow> u64 \<times> 'r) \<Rightarrow> ID" where
  "generate_id getrandom from_seed next_u64 =
     fst (next_id next_u64 (default_generator getrandom from_seed next_u64))"

text \<open>
  The components draw from a generator whose outputs are the sequence \<open>draw\<close>; the state of the
  random source is then the number of draws made.
\<close>

definition draw_id :: "(nat \<Rightarrow> u64) \<Rightarrow> nat id_generator \<Rightarrow> ID \<times> nat id_generator" where
  "draw_id draw g = next_id (\<lambda>n. (draw n, Suc n)) g"

fun session_id_display :: "session_id \<Rightarrow> string" where
  "session_id_display (SessionId i) = id_display i"

fun frame_id_display :: "frame_id \<Rightarrow> string" where
  "frame_id_display (FrameId i) = id_display i"

fun hitl_id_display :: "hitl_id \<Rightarrow> string" where
  "hitl_id_display (HitlId i) = id_display i"

lemma draw_id_eq:
  "draw_id draw g = (ID (session_prefix g) (draw (rng g)), g\<lparr>rng := Suc (rng g)\<rparr>)"
  by (simp add: draw_id_def next_id_def)

section \<open>Facts on hexadecimal text\<close>

lemma to_digit_hex_digit [simp]: "n < 16 \<Longrightarrow> to_digit (hex_digit n) = Some n"
  by (auto simp: to_digit_def hex_digit_def Let_def take_bit_eq_mod of_char_of)

lemma hex_nat_length: "n < 16 ^ k \<Longrightarrow> 0 < k \<Longrightarrow> length (hex_nat n) \<le> k"
proof (induction k arbitrary: n)
  case 0
  then show ?case by simp
next
  case (Suc k)
  show ?case
  proof (cases "n < 16")
    case True
    then show ?thesis by (simp add: hex_nat.simps)
  next
    case False
    with Suc.prems have "0 < k" by (cases k) auto
    moreover from Suc.prems have "n div 16 < 16 ^ k" by (simp add: less_mult_imp_div_less mult.commute)
    ultimately show ?thesis using Suc.IH [of "n div 16"] False by (simp add: hex_nat.simps [of n])
  qed
qed

lemma radix_digits_append:
  "radix_digits acc (xs @ ys) =
     (case radix_digits acc xs of Inl e \<Rightarrow> Inl e | Inr a \<Rightarrow> radix_digits a ys)"
  by (induction xs arbitrary: acc) (auto split: option.splits)

lemma radix_digits_zeros [simp]: "radix_digits 0 (replicate k (CHR ''0'')) = Inr 0"
  by (induction k) (auto simp: to_digit_def)

lemma radix_digits_hex_nat: "n < 2 ^ 64 \<Longrightarrow> radix_digits 0 (hex_nat n) = Inr n"
proof (induction n rule: hex_nat.induct)
  case (1 n)
  show ?case
  proof (cases "n < 16")
    case True
    then show ?thesis by (simp add: hex_nat.simps)
  next
    case False
    then have "radix_digits 0 (hex_nat (n div 16)) = Inr (n div 16)"
      using 1 by simp
    moreover have "n div 16 * 16 + n mod 16 = n" by simp
    moreover have "n div 16 * 16 < 2 ^ 64"
      using 1(2) by (metis div_times_less_eq_dividend le_less_trans)
    ultimately show ?thesis
      using False 1(2) by (simp add: hex_nat.simps [of n] radix_digits_append)
  qed
qed

lemma hex_nat_nonempty [simp]: "hex_nat n \<noteq> []"
  by (subst hex_nat.simps) simp

lemma lower_hex_digit [simp]: "n < 16 \<Longrightarrow> lower_hex (hex_digit n)"
proof -
  have "list_all (\<lambda>n. lower_hex (hex_digit n)) [0..<16]" by code_simp
  then show "n < 16 \<Longrightarrow> ?thesis" by (simp add: list_all_iff)
qed

lemma lower_hex_facts:
  "lower_hex c \<Longrightarrow> c \<noteq> CHR ''+'' \<and> \<not> continuation_byte c \<and> (\<exists>n < 16. c = hex_digit n)"
proof -
  have "list_all (\<lambda>c. c \<noteq> CHR ''+'' \<and> \<not> continuation_byte c \<and>
      list_ex (\<lambda>n. c = hex_digit n) [0..<16]) ''0123456789abcdef''"
    by code_simp
  then show "lower_hex c \<Longrightarrow> ?thesis"
    unfolding list_all_iff list_ex_iff lower_hex_def by (metis atLeastLessThan_iff set_upt)
qed

text \<open>The text of a number in exactly \<open>k\<close> digits.\<close>

fun hex_fixed :: "nat \<Rightarrow> nat \<Rightarrow> string" where
  "hex_fixed 0 n = []"
| "hex_fixed (Suc k) n = hex_fixed k (n div 16) @ [hex_digit (n mod 16)]"

lemma hex_fixed_zero: "hex_fixed k 0 = replicate k (CHR ''0'')"
proof -
  have "hex_digit 0 = CHR ''0''" by code_simp
  then show ?thesis by (induction k) (simp_all add: replicate_append_same)
qed

lemma hex_fixed_nat:
  "n < 16 ^ k \<Longrightarrow> 0 < k \<Longrightarrow> hex_fixed k n = replicate (k - length (hex_nat n)) (CHR ''0'') @ hex_nat n"
proof (induction k arbitrary: n)
  case 0
  then show ?case by simp
next
  case (Suc k)
  show ?case
  proof (cases "n < 16")
    case True
    then show ?thesis by (simp add: hex_nat.simps hex_fixed_zero)
  next
    case False
    with Suc.prems have "0 < k" by (cases k) auto
    moreover from Suc.prems have "n div 16 < 16 ^ k"
      by (simp add: less_mult_imp_div_less mult.commute)
    ultimately show ?thesis using Suc.IH [of "n div 16"] False by (simp add: hex_nat.simps [of n])
  qed
qed

lemma hex_pad16_fixed: "hex_pad16 w = hex_fixed 16 (unat w)"
  using hex_fixed_nat [of "unat w" 16] unsigned_less [of w, where ?'a = nat]
  by (simp add: hex_pad16_def Let_def)

lemma hex_fixed_length [simp]: "length (hex_fixed k n) = k"
  by (induction k arbitrary: n) simp_all

lemma hex_fixed_lower: "list_all lower_hex (hex_fixed k n)"
  by (induction k arbitrary: n) simp_all

lemma radix_digits_fixed:
  "list_all lower_hex s \<Longrightarrow> length s \<le> 16 \<Longrightarrow>
     \<exists>n < 16 ^ length s. radix_digits 0 s = Inr n \<and> hex_fixed (length s) n = s"
proof (induction s rule: rev_induct)
  case Nil
  then show ?case by simp
next
  case (snoc c s)
  then obtain n where n: "n < 16 ^ length s" "radix_digits 0 s = Inr n" "hex_fixed (length s) n = s"
    by auto
  obtain d where d: "d < 16" "c = hex_digit d"
    using snoc.prems lower_hex_facts by auto
  have "16 ^ Suc (length s) \<le> (16::nat) ^ 16"
    using snoc.prems by (intro power_increasing) auto
  then have "(16::nat) * 16 ^ length s \<le> 2 ^ 64" by simp
  moreover have "n * 16 + d < 16 * 16 ^ length s" using n(1) d(1) by simp
  ultimately have "n * 16 + d < 2 ^ 64" by (rule less_le_trans [rotated])
  then show ?case
    using n d \<open>n * 16 + d < 16 * 16 ^ length s\<close>
    by (intro exI [of _ "n * 16 + d"]) (simp add: radix_digits_append)
qed

lemma from_str_radix_lower:
  assumes "list_all lower_hex s" and "length s = 16"
  shows "\<exists>w. from_str_radix s = Inr w \<and> hex_pad16 w = s"
proof -
  obtain n where n: "n < 16 ^ 16" "radix_digits 0 s = Inr n" "hex_fixed 16 n = s"
    using radix_digits_fixed [of s] assms by auto
  from assms have "s \<noteq> []" "s \<noteq> ''+''" "s \<noteq> ''-''" by auto
  moreover from this assms have "hd s \<noteq> CHR ''+''"
    using lower_hex_facts by (cases s) auto
  ultimately have "from_str_radix s = Inr (word_of_nat n)"
    using n(2) by (simp add: from_str_radix_def)
  moreover have "hex_pad16 (word_of_nat n) = s"
    using n by (simp add: hex_pad16_fixed unsigned_of_nat take_bit_eq_mod)
  ultimately show ?thesis by blast
qed

lemma from_str_radix_pad16: "from_str_radix (hex_pad16 w) = Inr w"
proof -
  let ?s = "hex_pad16 w"
  have lower: "list_all lower_hex ?s" and len: "length ?s = 16"
    by (simp_all add: hex_pad16_fixed hex_fixed_lower)
  then have "?s \<noteq> []" "?s \<noteq> ''+''" "?s \<noteq> ''-''" by auto
  moreover from this lower have "hd ?s \<noteq> CHR ''+''"
    using lower_hex_facts by (cases ?s) auto
  moreover have "radix_digits 0 ?s = Inr (unat w)"
    using radix_digits_hex_nat [of "unat w"] unsigned_less [of w, where ?'a = nat]
    by (simp add: hex_pad16_def Let_def radix_digits_append)
  ultimately show ?thesis by (simp add: from_str_radix_def)
qed

lemma id_display_canonical: "canonical_id_text (id_display i)"
  by (cases i) (simp add: canonical_id_text_def hex_pad16_fixed hex_fixed_lower)

section \<open>Facts on bytes\<close>

lemma le_bytes_length [simp]: "length (le_bytes k n) = k"
  by (induction k arbitrary: n) simp_all

lemma le_nat_bytes: "le_nat (le_bytes k n) = n mod 256 ^ k"
  by (induction k arbitrary: n)
     (simp_all add: unsigned_of_nat take_bit_eq_mod mod_mult2_eq)

lemma id_bytes_roundtrip: "id_try_from True (id_as_bytes i) = Inr i"
proof -
  have "unat (w :: u64) mod 256 ^ 8 = unat w" for w
    using unsigned_less [of w, where ?'a = nat] by simp
  then show ?thesis by (cases i) (simp add: id_try_from_def le_nat_bytes)
qed

section \<open>Properties\<close>

text \<open>
  Parsing the text form of an identifier gives the identifier back, and every 32-digit
  lower-case hexadecimal text is the text form of the identifier it parses to.
\<close>

theorem id_text_roundtrip:
  "id_from_str (id_display i) = Ok i \<and>
   (canonical_id_text s \<longrightarrow> (\<exists>j. id_from_str s = Ok j \<and> id_display j = s))"
proof
  obtain a b where i: "i = ID a b" by (cases i)
  have len: "length (hex_pad16 a) = 16" "length (hex_pad16 b) = 16"
    by (simp_all add: hex_pad16_fixed)
  have "list_all lower_hex (hex_pad16 b)"
    by (simp add: hex_pad16_fixed hex_fixed_lower)
  then have "\<not> continuation_byte ((hex_pad16 a @ hex_pad16 b) ! 16)"
    using len lower_hex_facts by (simp add: nth_append list_all_length)
  then show "id_from_str (id_display i) = Ok i"
    using len by (simp add: i id_from_str_def from_str_radix_pad16)
next
  show "canonical_id_text s \<longrightarrow> (\<exists>j. id_from_str s = Ok j \<and> id_display j = s)"
  proof
    assume s: "canonical_id_text s"
    then have hex: "list_all lower_hex (take 16 s)" "list_all lower_hex (drop 16 s)"
      and len: "length s = 32"
      by (auto simp: canonical_id_text_def list_all_iff dest: in_set_takeD in_set_dropD)
    obtain a where a: "from_str_radix (take 16 s) = Inr a" "hex_pad16 a = take 16 s"
      using from_str_radix_lower hex len by fastforce
    obtain b where b: "from_str_radix (drop 16 s) = Inr b" "hex_pad16 b = drop 16 s"
      using from_str_radix_lower hex len by fastforce
    have "\<not> continuation_byte (s ! 16)"
      using s lower_hex_facts by (simp add: canonical_id_text_def list_all_length)
    then have "id_from_str s = Ok (ID a b)" using a b len by (simp add: id_from_str_def)
    then show "\<exists>j. id_from_str s = Ok j \<and> id_display j = s" using a b by auto
  qed
qed

lemma id_text_roundtrip_witness:
  "\<exists>j. id_from_str ''000000000000000a00000000000000ff'' = Ok j \<and>
       id_display j = ''000000000000000a00000000000000ff''"
proof -
  have "canonical_id_text ''000000000000000a00000000000000ff''" by code_simp
  then show ?thesis using id_text_roundtrip by blast
qed

end
