(* ===== verification/Channels.thy ===== *)
theory Channels
  imports Ids
begin

text \<open>
  JSON values and the channels of a frame (\<^verbatim>\<open>marie-core/src/session/channel.rs\<close>): channel
  names and specifications, the reducers, the updates a run proposes, the tracker a node writes
  through, and the map of channel values itself. A JSON number is one of the three forms of
  \<^verbatim>\<open>serde_json\<close>; a double is its IEEE-754 bit pattern.
\<close>

section \<open>Doubles\<close>

type_synonym f64 = u64

definition f64_sign :: "f64 \<Rightarrow> bool" where
  "f64_sign w \<longleftrightarrow> 2 ^ 63 \<le> unat w"

definition f64_magnitude :: "f64 \<Rightarrow> nat" where
  "f64_magnitude w = unat w mod 2 ^ 63"

definition f64_nan :: "f64 \<Rightarrow> bool" where
  "f64_nan w \<longleftrightarrow> 2047 * 2 ^ 52 < f64_magnitude w"

definition f64_finite :: "f64 \<Rightarrow> bool" where
  "f64_finite w \<longleftrightarrow> f64_magnitude w < 2047 * 2 ^ 52"

text \<open>The order of two doubles that are not NaN is the order of this integer.\<close>

definition f64_key :: "f64 \<Rightarrow> int" where
  "f64_key w = (if f64_sign w then - int (f64_magnitude w) else int (f64_magnitude w))"

text \<open>
  \<^verbatim>\<open>f64::max\<close>: the other argument when one is NaN. Between the two zeros, which compare equal,
  the standard library leaves the choice open; the first argument is taken here.
\<close>

definition f64_max :: "f64 \<Rightarrow> f64 \<Rightarrow> f64" where
  "f64_max a b =
     (if f64_nan a then b else if f64_nan b then a
      else if f64_key a < f64_key b then b else a)"

text \<open>\<^verbatim>\<open>as f64\<close> on an unsigned integer: rounding to nearest, ties to even.\<close>

fun log2 :: "nat \<Rightarrow> nat" where
  "log2 n = (if n < 2 then 0 else Suc (log2 (n div 2)))"

declare log2.simps [simp del]

definition round_shift :: "nat \<Rightarrow> nat \<Rightarrow> nat" where
  "round_shift n sh =
     (let q = n div 2 ^ sh; r = n mod 2 ^ sh; half = 2 ^ (sh - 1)
      in if half < r \<or> (r = half \<and> odd q) then Suc q else q)"

definition f64_bits_of_nat :: "nat \<Rightarrow> nat" where
  "f64_bits_of_nat n =
     (if n = 0 then 0
      else let e = log2 n;
               m = (if e \<le> 52 then n * 2 ^ (52 - e) else round_shift n (e - 52))
           in (e + 1023) * 2 ^ 52 + (m - 2 ^ 52))"

definition f64_of_u64 :: "u64 \<Rightarrow> f64" where
  "f64_of_u64 w = word_of_nat (f64_bits_of_nat (unat w))"

text \<open>\<^verbatim>\<open>as f64\<close> on a negative signed integer: the sign bit over the rounded magnitude.\<close>

definition f64_of_neg :: "u64 \<Rightarrow> f64" where
  "f64_of_neg w = word_of_nat (2 ^ 63 + f64_bits_of_nat (unat (- w)))"

section \<open>JSON values\<close>

datatype number = PosInt u64 | NegInt u64 | Float f64

datatype "value" =
    VNull
  | VBool bool
  | VNumber number
  | VString string
  | VArray "value list"
  | VObject "(string \<times> value) list"

fun number_as_f64 :: "number \<Rightarrow> f64" where
  "number_as_f64 (PosInt n) = f64_of_u64 n"
| "number_as_f64 (NegInt n) = f64_of_neg n"
| "number_as_f64 (Float x) = x"

fun as_f64 :: "value \<Rightarrow> f64 option" where
  "as_f64 (VNumber n) = Some (number_as_f64 n)"
| "as_f64 _ = None"

text \<open>\<^verbatim>\<open>json!(x)\<close> on a double: a number when finite, \<^verbatim>\<open>null\<close> otherwise.\<close>

definition json_f64 :: "f64 \<Rightarrow> value" where
  "json_f64 x = (if f64_finite x then VNumber (Float x) else VNull)"

text \<open>\<^verbatim>\<open>serde_json\<close> never builds a number from a double that is not finite.\<close>

fun number_ok :: "number \<Rightarrow> bool" where
  "number_ok (Float x) = f64_finite x"
| "number_ok (NegInt n) = (2 ^ 63 \<le> unat n)"
| "number_ok (PosInt n) = True"

fun number_value_ok :: "value \<Rightarrow> bool" where
  "number_value_ok (VNumber n) = number_ok n"
| "number_value_ok _ = True"

section \<open>Channel names, specifications and reducers\<close>

type_synonym channel_name = string

datatype reducer = LastWriteWins | Append | Max

record channel_spec =
  spec_name :: channel_name
  spec_reducer :: reducer

definition channel_spec_new :: "string \<Rightarrow> reducer \<Rightarrow> channel_spec" where
  "channel_spec_new name r = \<lparr>spec_name = name, spec_reducer = r\<rparr>"

fun reduce_max :: "f64 option \<Rightarrow> value list \<Rightarrow> f64 option" where
  "reduce_max best [] = best"
| "reduce_max best (c # cs) = (case as_f64 c of
      None \<Rightarrow> reduce_max best cs
    | Some n \<Rightarrow> reduce_max (Some (case best of None \<Rightarrow> n | Some b \<Rightarrow> f64_max b n)) cs)"

fun reduce :: "reducer \<Rightarrow> value option \<Rightarrow> value list \<Rightarrow> value" where
  "reduce LastWriteWins current cs =
     (if cs \<noteq> [] then last cs else case current of Some v \<Rightarrow> v | None \<Rightarrow> VNull)"
| "reduce Append current cs =
     VArray ((case current of Some (VArray vs) \<Rightarrow> vs | _ \<Rightarrow> []) @ cs)"
| "reduce Max current cs =
     (case reduce_max (Option.bind current as_f64) cs of Some n \<Rightarrow> json_f64 n | None \<Rightarrow> VNull)"

section \<open>Updates, channels and the tracker\<close>

record channel_update =
  upd_name :: channel_name
  upd_value :: "value"
  upd_contributor :: frame_id

type_synonym channels = "(channel_name, value) hash_map"

abbreviation channels_get :: "channels \<Rightarrow> channel_name \<Rightarrow> value option" where
  "channels_get cs name \<equiv> hm_get cs name"

definition channels_write ::
  "('v \<Rightarrow> error + value) \<Rightarrow> channel_name \<Rightarrow> 'v \<Rightarrow> channels \<Rightarrow> (error, channels) outcome" where
  "channels_write to_value name v cs = (case to_value v of
      Inl e \<Rightarrow> Panic ''called `Result::unwrap()` on an `Err` value''
    | Inr j \<Rightarrow> Ok (hm_insert name j cs))"

definition channels_extend :: "channels \<Rightarrow> (channel_name \<times> value) list \<Rightarrow> channels" where
  "channels_extend cs kvs = hm_extend cs kvs"

definition channels_from_iter :: "(channel_name \<times> value) list \<Rightarrow> channels" where
  "channels_from_iter kvs = hm_from kvs"

record channels_tracker =
  trk_frame_id :: frame_id
  trk_channels :: channels
  trk_updates :: "channel_update list"

definition tracker_new :: "frame_id \<Rightarrow> channels \<Rightarrow> channels_tracker" where
  "tracker_new fid cs = \<lparr>trk_frame_id = fid, trk_channels = cs, trk_updates = []\<rparr>"

definition tracker_into_updates :: "channels_tracker \<Rightarrow> channel_update list" where
  "tracker_into_updates t = trk_updates t"

definition tracker_write ::
  "('v \<Rightarrow> error + value) \<Rightarrow> channel_name \<Rightarrow> 'v \<Rightarrow> channels_tracker
     \<Rightarrow> (error, channels_tracker) outcome" where
  "tracker_write to_value name v t = (case to_value v of
      Inl e \<Rightarrow> Panic ''called `Result::unwrap()` on an `Err` value''
    | Inr j \<Rightarrow> Ok (t\<lparr>trk_updates := trk_updates t @
        [\<lparr>upd_name = name, upd_value = j, upd_contributor = trk_frame_id t\<rparr>]\<rparr>))"

definition tracker_read ::
  "(value \<Rightarrow> error + 'v) \<Rightarrow> channel_name \<Rightarrow> channels_tracker \<Rightarrow> error + 'v" where
  "tracker_read from_value name t =
     (case (case List.find (\<lambda>u. upd_name u = name) (rev (trk_updates t)) of
              Some u \<Rightarrow> Some (upd_value u)
            | None \<Rightarrow> channels_get (trk_channels t) name) of
        None \<Rightarrow> Inl (err_msg (''no channel '' @ name @ '' exists''))
      | Some j \<Rightarrow> from_value j)"

section \<open>Facts on doubles\<close>

lemma log2_bounds: "0 < n \<Longrightarrow> 2 ^ log2 n \<le> n \<and> n < 2 ^ Suc (log2 n)"
proof (induction n rule: log2.induct)
  case (1 n)
  show ?case
  proof (cases "n < 2")
    case True
    with 1 show ?thesis by (simp add: log2.simps)
  next
    case False
    then have "2 ^ log2 (n div 2) \<le> n div 2 \<and> n div 2 < 2 ^ Suc (log2 (n div 2))"
      using 1 by simp
    moreover have "n = 2 * (n div 2) + n mod 2" "n mod 2 < 2" by simp_all
    ultimately show ?thesis using False by (simp add: log2.simps [of n]) linarith
  qed
qed

lemma log2_less: "0 < n \<Longrightarrow> n < 2 ^ k \<Longrightarrow> log2 n < k"
  using log2_bounds [of n] by (meson le_less_trans one_less_numeral_iff power_strict_increasing_iff
      semiring_norm(76))

lemma f64_mantissa_le:
  assumes "0 < n"
  shows "(if log2 n \<le> 52 then n * 2 ^ (52 - log2 n) else round_shift n (log2 n - 52)) \<le> 2 ^ 53"
proof (cases "log2 n \<le> 52")
  case True
  have "n * 2 ^ (52 - log2 n) \<le> 2 ^ Suc (log2 n) * 2 ^ (52 - log2 n)"
    using log2_bounds [OF assms] by (intro mult_right_mono) auto
  also have "\<dots> = 2 ^ 53" using True by (simp flip: power_add power_Suc)
  finally show ?thesis using True by simp
next
  case False
  then have "2 ^ Suc (log2 n) = (2::nat) ^ 53 * 2 ^ (log2 n - 52)"
    by (subst power_add [symmetric]) simp
  then have "n div 2 ^ (log2 n - 52) < 2 ^ 53"
    using log2_bounds [OF assms] by (simp add: less_mult_imp_div_less)
  with False show ?thesis by (auto simp: round_shift_def Let_def)
qed

lemma f64_bits_of_nat_less:
  assumes "n < 2 ^ 64"
  shows "f64_bits_of_nat n < 2047 * 2 ^ 52"
proof (cases "n = 0")
  case True
  then show ?thesis by (simp add: f64_bits_of_nat_def)
next
  case False
  then have "log2 n \<le> 63" using log2_less [of n 64] assms by simp
  then have "(log2 n + 1023) * 2 ^ 52 \<le> (63 + 1023) * 2 ^ 52"
    by (intro mult_right_mono) auto
  then show ?thesis
    using False f64_mantissa_le [of n] by (simp add: f64_bits_of_nat_def Let_def)
qed

lemma f64_of_u64_finite [simp]: "f64_finite (f64_of_u64 w)"
  using f64_bits_of_nat_less [of "unat w"] unsigned_less [of w, where ?'a = nat]
  by (simp add: f64_finite_def f64_of_u64_def f64_magnitude_def unsigned_of_nat take_bit_eq_mod
      mod_mod_cancel)

lemma f64_of_neg_finite [simp]: "f64_finite (f64_of_neg w)"
proof -
  let ?b = "f64_bits_of_nat (unat (- w))"
  have less: "?b < 2047 * 2 ^ 52"
    using f64_bits_of_nat_less [of "unat (- w)"] unsigned_less [of "- w", where ?'a = nat] by simp
  then have "unat (word_of_nat (2 ^ 63 + ?b) :: u64) = 2 ^ 63 + ?b"
    by (simp only: unsigned_of_nat) (simp add: take_bit_eq_mod)
  with less show ?thesis by (simp only: f64_finite_def f64_of_neg_def f64_magnitude_def) simp
qed

lemma as_f64_finite: "number_value_ok v \<Longrightarrow> as_f64 v = Some x \<Longrightarrow> f64_finite x"
  by (erule number_value_ok.elims) (auto elim: number_ok.elims)

lemma f64_finite_not_nan: "f64_finite x \<Longrightarrow> \<not> f64_nan x"
  by (simp add: f64_finite_def f64_nan_def)

lemma f64_max_finite [simp]: "f64_finite a \<Longrightarrow> f64_finite b \<Longrightarrow> f64_finite (f64_max a b)"
  by (simp add: f64_max_def)

lemma f64_key_max:
  "f64_finite a \<Longrightarrow> f64_finite b \<Longrightarrow> f64_key (f64_max a b) = max (f64_key a) (f64_key b)"
  by (simp add: f64_max_def f64_finite_not_nan max_def)

section \<open>Facts on reducers\<close>

lemma reduce_max_append: "reduce_max best (xs @ ys) = reduce_max (reduce_max best xs) ys"
  by (induction xs arbitrary: best) (auto split: option.splits)

lemma reduce_max_finite:
  "list_all number_value_ok cs \<Longrightarrow> (\<And>b. best = Some b \<Longrightarrow> f64_finite b) \<Longrightarrow>
     reduce_max best cs = Some n \<Longrightarrow> f64_finite n"
proof (induction cs arbitrary: best)
  case Nil
  then show ?case by simp
next
  case (Cons c cs)
  show ?case
  proof (cases "as_f64 c")
    case None
    then show ?thesis using Cons.IH [OF _ Cons.prems(2)] Cons.prems(1,3) by simp
  next
    case (Some m)
    then have "f64_finite m" using Cons.prems(1) as_f64_finite by auto
    moreover have "reduce_max (Some (case best of None \<Rightarrow> m | Some b \<Rightarrow> f64_max b m)) cs = Some n"
      using Cons.prems(3) Some by simp
    ultimately show ?thesis
      using Cons.IH [of "Some (case best of None \<Rightarrow> m | Some b \<Rightarrow> f64_max b m)"] Cons.prems(1,2)
      by (auto split: option.splits)
  qed
qed

text \<open>The doubles a contribution list holds, and the order key \<open>reduce_max\<close> reaches.\<close>

definition contributed :: "value list \<Rightarrow> f64 list" where
  "contributed cs = List.map_filter as_f64 cs"

lemma reduce_max_key:
  "list_all number_value_ok cs \<Longrightarrow> f64_finite b \<Longrightarrow>
     \<exists>n. reduce_max (Some b) cs = Some n \<and>
       f64_key n = linorder_class.Max (insert (f64_key b) (f64_key ` set (contributed cs)))"
proof (induction cs arbitrary: b)
  case Nil
  then show ?case by (simp add: contributed_def map_filter_def)
next
  case (Cons c cs)
  show ?case
  proof (cases "as_f64 c")
    case None
    then show ?thesis using Cons by (simp add: contributed_def map_filter_def)
  next
    case (Some m)
    then have m: "f64_finite m" using Cons.prems as_f64_finite by auto
    have "linorder_class.Max (insert (max a m) K) = linorder_class.Max (insert a (insert m K))" if "finite K" for a m :: int and K
      using that by (cases "K = {}") (simp_all add: max.assoc)
    then show ?thesis
      using Cons.IH [of "f64_max b m"] Cons.prems Some m f64_key_max [of b m]
      by (simp add: contributed_def map_filter_def)
  qed
qed

lemma as_f64_json [simp]: "f64_finite n \<Longrightarrow> as_f64 (json_f64 n) = Some n"
  by (simp add: json_f64_def)

section \<open>Facts on the tracker\<close>

lemma tracker_read_own_write:
  "tracker_write Inr name v t = Ok t' \<Longrightarrow> tracker_read Inr name' t' =
     (if name' = name then Inr v else tracker_read Inr name' t)"
  by (auto simp: tracker_write_def tracker_read_def cong: option.case_cong)

lemma tracker_write_updates:
  "tracker_write to_value name v t = Ok t' \<Longrightarrow>
     \<exists>j. to_value v = Inr j \<and> tracker_into_updates t' = tracker_into_updates t @
       [\<lparr>upd_name = name, upd_value = j, upd_contributor = trk_frame_id t\<rparr>]"
  by (auto simp: tracker_write_def tracker_into_updates_def split: sum.splits)

section \<open>Properties\<close>

text \<open>
  Reducing in two batches is reducing the concatenation, for every reducer: contributions
  that a frame receives over several supersteps are never lost or counted twice.
\<close>

theorem reduce_batches:
  assumes "list_all number_value_ok (xs @ ys)" and "\<And>v. current = Some v \<Longrightarrow> number_value_ok v"
  shows "reduce r (Some (reduce r current xs)) ys = reduce r current (xs @ ys)"
proof (cases r)
  case LastWriteWins
  then show ?thesis by simp
next
  case Append
  then show ?thesis by simp
next
  case Max
  have "f64_finite n" if "reduce_max (Option.bind current as_f64) xs = Some n" for n
    using reduce_max_finite [OF _ _ that] assms as_f64_finite by (auto simp: bind_eq_Some_conv)
  then show ?thesis
    using Max by (auto simp: reduce_max_append split: option.splits)
qed

lemma reduce_batches_witness:
  "reduce Max (Some (reduce Max (Some (VNumber (PosInt 3))) [VNumber (PosInt 7)]))
     [VNumber (NegInt 18446744073709551615), VString ''x''] =
   reduce Max (Some (VNumber (PosInt 3)))
     ([VNumber (PosInt 7)] @ [VNumber (NegInt 18446744073709551615), VString ''x''])"
  by (rule reduce_batches) auto

text \<open>
  The \<^verbatim>\<open>Max\<close> reducer returns a finite number that is the greatest of the current value
  and every numeric contribution; contributions that are not numbers are skipped, and the
  order of the contributions does not matter.
\<close>

theorem reduce_max_greatest:
  assumes "list_all number_value_ok cs" and "number_ok n"
  shows "\<exists>x. reduce Max (Some (VNumber n)) cs = VNumber (Float x) \<and> f64_finite x \<and>
    f64_key x =
      linorder_class.Max (insert (f64_key (number_as_f64 n)) (f64_key ` set (contributed cs)))"
proof -
  have fin: "f64_finite (number_as_f64 n)"
    using as_f64_finite [of "VNumber n"] assms(2) by simp
  obtain x where x: "reduce_max (Some (number_as_f64 n)) cs = Some x"
    "f64_key x = linorder_class.Max (insert (f64_key (number_as_f64 n)) (f64_key ` set (contributed cs)))"
    using reduce_max_key [OF assms(1) fin] by blast
  moreover have "f64_finite x" using reduce_max_finite [OF assms(1) _ x(1)] fin by simp
  ultimately show ?thesis by (simp add: json_f64_def)
qed

lemma reduce_max_greatest_witness:
  "\<exists>x. reduce Max (Some (VNumber (PosInt 3))) [VNumber (PosInt 7), VNull] = VNumber (Float x) \<and>
    f64_finite x \<and> f64_key x = linorder_class.Max (insert (f64_key (number_as_f64 (PosInt 3)))
      (f64_key ` set (contributed [VNumber (PosInt 7), VNull])))"
  by (rule reduce_max_greatest) auto

end
