(* ===== verification/Hitl.thy ===== *)
theory Hitl
  imports Channels
begin

text \<open>
  Human-in-the-loop requests (\<^verbatim>\<open>marie-core/src/hitl\<close>): question forms and the validation of
  the answers (\<^verbatim>\<open>model.rs\<close>), the in-memory store (\<^verbatim>\<open>store/in_memory.rs\<close>), and the service
  that creates a request and records its reply (\<^verbatim>\<open>service.rs\<close>). The events the service emits
  are the list of those sent so far.

  Lower-casing and trimming act on ASCII text; a byte outside ASCII is left as it is.
\<close>

section \<open>Questions and answers\<close>

datatype question_kind =
    ShortText
  | LongText
  | Select "string list"
  | Radio "string list"
  | Checkboxes "string list"
  | FileUpload "string list"

record question =
  q_key :: string
  q_label :: string
  q_kind :: question_kind

datatype answer = Single string | Multiple "string list"

type_synonym answers = "(string, answer) hash_map"

definition question_short_text :: "string \<Rightarrow> string \<Rightarrow> question" where
  "question_short_text key label = \<lparr>q_key = key, q_label = label, q_kind = ShortText\<rparr>"

definition question_long_text :: "string \<Rightarrow> string \<Rightarrow> question" where
  "question_long_text key label = \<lparr>q_key = key, q_label = label, q_kind = LongText\<rparr>"

definition question_select :: "string \<Rightarrow> string \<Rightarrow> string list \<Rightarrow> question" where
  "question_select key label options = \<lparr>q_key = key, q_label = label, q_kind = Select options\<rparr>"

definition question_radio :: "string \<Rightarrow> string \<Rightarrow> string list \<Rightarrow> question" where
  "question_radio key label options = \<lparr>q_key = key, q_label = label, q_kind = Radio options\<rparr>"

definition question_checkboxes :: "string \<Rightarrow> string \<Rightarrow> string list \<Rightarrow> question" where
  "question_checkboxes key label options = \<lparr>q_key = key, q_label = label, q_kind = Checkboxes options\<rparr>"

definition question_file_upload :: "string \<Rightarrow> string \<Rightarrow> string list \<Rightarrow> question" where
  "question_file_upload key label accept = \<lparr>q_key = key, q_label = label, q_kind = FileUpload accept\<rparr>"

datatype hitl_error = StorageError error | ValidationError string

section \<open>Validation\<close>

definition to_lower :: "char \<Rightarrow> char" where
  "to_lower c = (let n = of_char c :: nat in if 65 \<le> n \<and> n \<le> 90 then char_of (n + 32) else c)"

definition to_lowercase :: "string \<Rightarrow> string" where
  "to_lowercase s = map to_lower s"

definition whitespace :: "char \<Rightarrow> bool" where
  "whitespace c \<longleftrightarrow> (let n = of_char c :: nat in n = 32 \<or> (9 \<le> n \<and> n \<le> 13))"

definition trim :: "string \<Rightarrow> string" where
  "trim s = rev (dropWhile whitespace (rev (dropWhile whitespace s)))"

definition ends_with :: "string \<Rightarrow> string \<Rightarrow> bool" where
  "ends_with s suf \<longleftrightarrow> length suf \<le> length s \<and> drop (length s - length suf) s = suf"

definition check_choice :: "string \<Rightarrow> string list \<Rightarrow> string \<Rightarrow> hitl_error + unit" where
  "check_choice key options choice =
     (if choice \<in> set options then Inr ()
      else Inl (ValidationError ([CHR 0x27] @ choice @ [CHR 0x27] @ '' n'est pas une option valide pour ''
             @ [CHR 0x27] @ key @ [CHR 0x27])))"

text \<open>One iteration of the loop, after the answer has been found.\<close>

fun check_answer :: "string \<Rightarrow> question_kind \<Rightarrow> answer \<Rightarrow> hitl_error + unit" where
  "check_answer key ShortText (Single _) = Inr ()"
| "check_answer key LongText (Single _) = Inr ()"
| "check_answer key (Select options) (Single choice) = check_choice key options choice"
| "check_answer key (Radio options) (Single choice) = check_choice key options choice"
| "check_answer key (Checkboxes options) (Multiple choices) =
     (case List.find (\<lambda>choice. choice \<notin> set options) choices of
        Some invalid \<Rightarrow> check_choice key options invalid
      | None \<Rightarrow> Inr ())"
| "check_answer key (FileUpload accept) (Single filename) =
     (if trim filename = [] then
        Inl (ValidationError (''nom de fichier manquant pour '' @ [CHR 0x27] @ key @ [CHR 0x27]))
      else if accept = [] \<or> list_ex (\<lambda>ext. ends_with (to_lowercase filename) (to_lowercase ext)) accept
      then Inr ()
      else Inl (ValidationError ([CHR 0x27] @ filename @ [CHR 0x27] @
             '' n'a pas une extension acceptee pour '' @ [CHR 0x27] @ key @ [CHR 0x27])))"
| "check_answer key _ _ =
     Inl (ValidationError (''type de reponse inattendu pour '' @ [CHR 0x27] @ key @ [CHR 0x27]))"

fun check_questions :: "question list \<Rightarrow> answers \<Rightarrow> hitl_error + unit" where
  "check_questions [] answers = Inr ()"
| "check_questions (q # qs) answers = (case hm_get answers (q_key q) of
      None \<Rightarrow> Inl (ValidationError (''reponse manquante pour '' @ [CHR 0x27] @ q_key q @ [CHR 0x27]))
    | Some a \<Rightarrow> (case check_answer (q_key q) (q_kind q) a of
        Inl e \<Rightarrow> Inl e
      | Inr _ \<Rightarrow> check_questions qs answers))"

definition validate_answers :: "question list \<Rightarrow> answers \<Rightarrow> hitl_error + answers" where
  "validate_answers qs answers = (case check_questions qs answers of
      Inl e \<Rightarrow> Inl e
    | Inr _ \<Rightarrow> Inr answers)"

section \<open>The store\<close>

datatype hitl = Questions "question list" | Text

record hitl_frame =
  hf_session :: session_id
  hf_id :: hitl_id
  hf_hitl :: hitl
  hf_answer :: "answers option"

record pending_hitl =
  ph_session :: session_id
  ph_id :: hitl_id
  ph_hitl :: hitl

type_synonym hitl_store = "(session_id \<times> hitl_id, hitl_frame) hash_map"

definition hitl_not_found :: "session_id \<Rightarrow> hitl_id \<Rightarrow> error" where
  "hitl_not_found sid hid = err_from (Std_Error (''hitl '' @ hitl_id_display hid @
     '' introuvable pour la session '' @ session_id_display sid) None)"

definition get_hitl_frame :: "hitl_store \<Rightarrow> session_id \<Rightarrow> hitl_id \<Rightarrow> error + hitl_frame" where
  "get_hitl_frame st sid hid = (case hm_get st (sid, hid) of
      None \<Rightarrow> Inl (hitl_not_found sid hid)
    | Some h \<Rightarrow> Inr h)"

definition get_hitl :: "hitl_store \<Rightarrow> session_id \<Rightarrow> hitl_id \<Rightarrow> error + hitl" where
  "get_hitl st sid hid = map_sum id hf_hitl (get_hitl_frame st sid hid)"

definition list_unanswered_hitls_frames :: "hitl_store \<Rightarrow> session_id \<Rightarrow> hitl_frame list" where
  "list_unanswered_hitls_frames st sid =
     filter (\<lambda>h. hf_session h = sid \<and> hf_answer h = None) (hm_values st)"

definition upsert_hitl_frame :: "hitl_frame \<Rightarrow> hitl_store \<Rightarrow> hitl_store" where
  "upsert_hitl_frame h st = hm_insert (hf_session h, hf_id h) h st"

definition write_hitl_response ::
  "session_id \<Rightarrow> hitl_id \<Rightarrow> answers \<Rightarrow> hitl_store \<Rightarrow> error + hitl_store" where
  "write_hitl_response sid hid answers st = (case get_hitl_frame st sid hid of
      Inl e \<Rightarrow> Inl e
    | Inr h \<Rightarrow> Inr (upsert_hitl_frame (h\<lparr>hf_answer := Some answers\<rparr>) st))"

definition list_pending_hitls :: "hitl_store \<Rightarrow> session_id \<Rightarrow> pending_hitl list" where
  "list_pending_hitls st sid =
     map (\<lambda>h. \<lparr>ph_session = hf_session h, ph_id = hf_id h, ph_hitl = hf_hitl h\<rparr>)
       (list_unanswered_hitls_frames st sid)"

section \<open>The service\<close>

datatype hitl_event =
    HitlRequested session_id hitl_id hitl
  | HitlAnswered session_id hitl_id answers

record session_hitls =
  sh_ids :: "nat id_generator"
  sh_store :: hitl_store
  sh_events :: "hitl_event list"
  sh_session :: session_id

definition sh_emit :: "hitl_event \<Rightarrow> session_hitls \<Rightarrow> session_hitls" where
  "sh_emit e s = s\<lparr>sh_events := sh_events s @ [e]\<rparr>"

definition reply :: "hitl_id \<Rightarrow> answers \<Rightarrow> (session_hitls, hitl_error, hitl_id) prog" where
  "reply hid answers = (\<lambda>s.
     case write_hitl_response (sh_session s) hid answers (sh_store s) of
       Inl e \<Rightarrow> (Err (StorageError e), s)
     | Inr st \<Rightarrow> (let s = s\<lparr>sh_store := st\<rparr> in
         case get_hitl (sh_store s) (sh_session s) hid of
           Inl e \<Rightarrow> (Err (StorageError e), s)
         | Inr h \<Rightarrow> (case (case h of
               Questions qs \<Rightarrow> validate_answers qs answers
             | Text \<Rightarrow> Inr answers) of
             Inl e \<Rightarrow> (Err e, s)
           | Inr answers \<Rightarrow> (Ok hid, sh_emit (HitlAnswered (sh_session s) hid answers) s))))"

definition request :: "(nat \<Rightarrow> u64) \<Rightarrow> hitl \<Rightarrow> (session_hitls, hitl_error, hitl_id) prog" where
  "request draw h = (\<lambda>s.
     let (i, g) = draw_id draw (sh_ids s);
         frame = \<lparr>hf_session = sh_session s, hf_id = HitlId i, hf_hitl = h, hf_answer = None\<rparr>;
         s = s\<lparr>sh_ids := g, sh_store := upsert_hitl_frame frame (sh_store s)\<rparr>
     in (Ok (HitlId i), sh_emit (HitlRequested (sh_session s) (HitlId i) h) s))"

text \<open>
  The cached container of a request: reading keeps the flag, every mutable access raises it,
  and a flush writes the request only when the flag is up. Dropping a dirty container writes it
  too.
\<close>

record hitl_container =
  hc_hitl :: hitl_frame
  hc_dirty :: bool

definition hitl_container_new ::
  "hitl_store \<Rightarrow> session_id \<Rightarrow> hitl_id \<Rightarrow> error + hitl_container" where
  "hitl_container_new st sid hid =
     map_sum id (\<lambda>h. \<lparr>hc_hitl = h, hc_dirty = False\<rparr>) (get_hitl_frame st sid hid)"

definition hitl_container_from :: "hitl_frame \<Rightarrow> hitl_container" where
  "hitl_container_from h = \<lparr>hc_hitl = h, hc_dirty = True\<rparr>"

definition hitl_container_update :: "(hitl_frame \<Rightarrow> hitl_frame) \<Rightarrow> hitl_container \<Rightarrow> hitl_container" where
  "hitl_container_update f c = \<lparr>hc_hitl = f (hc_hitl c), hc_dirty = True\<rparr>"

definition hitl_container_flush :: "hitl_container \<Rightarrow> hitl_store \<Rightarrow> hitl_container \<times> hitl_store" where
  "hitl_container_flush c st =
     (if hc_dirty c then (c\<lparr>hc_dirty := False\<rparr>, upsert_hitl_frame (hc_hitl c) st) else (c, st))"

definition hitl_container_drop :: "hitl_container \<Rightarrow> hitl_store \<Rightarrow> hitl_store" where
  "hitl_container_drop c st = (if hc_dirty c then upsert_hitl_frame (hc_hitl c) st else st)"

section \<open>Facts\<close>

text \<open>What each kind of question accepts.\<close>

fun accepts :: "question_kind \<Rightarrow> answer \<Rightarrow> bool" where
  "accepts ShortText a = (\<exists>t. a = Single t)"
| "accepts LongText a = (\<exists>t. a = Single t)"
| "accepts (Select options) a = (\<exists>t \<in> set options. a = Single t)"
| "accepts (Radio options) a = (\<exists>t \<in> set options. a = Single t)"
| "accepts (Checkboxes options) a = (\<exists>ts. a = Multiple ts \<and> set ts \<subseteq> set options)"
| "accepts (FileUpload accept) a = (\<exists>f. a = Single f \<and> trim f \<noteq> [] \<and>
     (accept = [] \<or> (\<exists>ext \<in> set accept. ends_with (to_lowercase f) (to_lowercase ext))))"

lemma check_answer_accepts: "check_answer key k a = Inr () \<longleftrightarrow> accepts k a"
  by (cases "(key, k, a)" rule: check_answer.cases)
     (auto simp: check_choice_def find_None_iff find_Some_iff list_ex_iff split: option.splits
       dest: nth_mem)

lemma check_questions_accepts:
  "check_questions qs answers = Inr () \<longleftrightarrow>
     (\<forall>q \<in> set qs. \<exists>a. hm_get answers (q_key q) = Some a \<and> accepts (q_kind q) a)"
proof (induction qs)
  case (Cons q qs)
  show ?case
  proof (cases "hm_get answers (q_key q)")
    case (Some a)
    with Cons check_answer_accepts [of "q_key q" "q_kind q" a] show ?thesis
      by (cases "check_answer (q_key q) (q_kind q) a") auto
  qed simp
qed simp

lemma check_questions_error: "check_questions qs answers = Inl e \<Longrightarrow> \<exists>m. e = ValidationError m"
proof (induction qs)
  case (Cons q qs)
  have "check_answer key k a = Inl e' \<Longrightarrow> \<exists>m. e' = ValidationError m" for key k a e'
    by (cases "(key, k, a)" rule: check_answer.cases)
       (auto simp: check_choice_def split: option.splits if_splits)
  with Cons show ?case by (auto split: option.splits sum.splits)
qed simp

interpretation hitls: keyed_store "\<lambda>h. (hf_session h, hf_id h)" "\<lambda>st k. hm_get st k"
  upsert_hitl_frame hm_remove
  by unfold_locales (simp_all add: upsert_hitl_frame_def)

text \<open>Every frame is stored under its own key.\<close>

definition hitl_store_wf :: "hitl_store \<Rightarrow> bool" where
  "hitl_store_wf st \<longleftrightarrow> hm_wf st \<and> (\<forall>k h. hm_get st k = Some h \<longrightarrow> k = (hf_session h, hf_id h))"

lemma hitl_store_wf_upsert: "hitl_store_wf st \<Longrightarrow> hitl_store_wf (upsert_hitl_frame h st)"
  by (auto simp: hitl_store_wf_def upsert_hitl_frame_def)

lemma pending_iff:
  "hitl_store_wf st \<Longrightarrow> h \<in> set (list_unanswered_hitls_frames st sid) \<longleftrightarrow>
     hm_get st (sid, hf_id h) = Some h \<and> hf_answer h = None"
proof -
  assume wf: "hitl_store_wf st"
  have "h \<in> set (hm_values st) \<longleftrightarrow> (\<exists>k. hm_get st k = Some h)"
    using wf by (force simp: hitl_store_wf_def hm_wf_def dest: map_of_SomeD)
  with wf show ?thesis
    by (auto simp: list_unanswered_hitls_frames_def hitl_store_wf_def)
qed

lemma reply_ok_state:
  assumes "hm_get (sh_store s) (sh_session s, hid) = Some h"
  shows "sh_store (snd (reply hid answers s)) =
      upsert_hitl_frame (h\<lparr>hf_answer := Some answers\<rparr>) (sh_store s)"
    and "hf_session h = sh_session s \<Longrightarrow> hf_id h = hid \<Longrightarrow> reply hid answers s =
      (case (case hf_hitl h of Questions qs \<Rightarrow> validate_answers qs answers | Text \<Rightarrow> Inr answers) of
         Inl e \<Rightarrow> (Err e, s\<lparr>sh_store := upsert_hitl_frame (h\<lparr>hf_answer := Some answers\<rparr>) (sh_store s)\<rparr>)
       | Inr _ \<Rightarrow> (Ok hid, sh_emit (HitlAnswered (sh_session s) hid answers)
           (s\<lparr>sh_store := upsert_hitl_frame (h\<lparr>hf_answer := Some answers\<rparr>) (sh_store s)\<rparr>)))"
  using assms
  by (auto simp: reply_def write_hitl_response_def get_hitl_frame_def get_hitl_def Let_def sh_emit_def
      upsert_hitl_frame_def validate_answers_def split: sum.splits hitl.splits)

section \<open>Properties\<close>

text \<open>
  C32: \<^verbatim>\<open>validate_answers\<close> returns the answers unchanged exactly when every question has an answer
  of the kind it accepts, and otherwise a validation error.
\<close>

theorem validate_answers_iff:
  "(validate_answers qs answers = Inr out \<longleftrightarrow> out = answers \<and>
      (\<forall>q \<in> set qs. \<exists>a. hm_get answers (q_key q) = Some a \<and> accepts (q_kind q) a)) \<and>
   (validate_answers qs answers = Inl e \<longrightarrow> (\<exists>m. e = ValidationError m))"
  using check_questions_accepts [of qs answers] check_questions_error [of qs answers]
  by (auto simp: validate_answers_def split: sum.splits)

lemma validate_answers_iff_witness:
  "validate_answers [question_select ''env'' ''?'' [''prod'', ''staging'']]
      [(''env'', Single ''prod'')] = Inr [(''env'', Single ''prod'')]"
  using validate_answers_iff by (fastforce simp: question_select_def)

text \<open>
  A request that was made is pending until its reply: right after \<^verbatim>\<open>request\<close> the new
  identifier is among the pending requests of the session with the question asked, and the
  event announcing it is the last one emitted.
\<close>

theorem request_pending:
  assumes "hitl_store_wf (sh_store s)" and "request draw h s = (Ok hid, s')"
  shows "hitl_store_wf (sh_store s') \<and>
    \<lparr>ph_session = sh_session s, ph_id = hid, ph_hitl = h\<rparr>
      \<in> set (list_pending_hitls (sh_store s') (sh_session s')) \<and>
    sh_events s' = sh_events s @ [HitlRequested (sh_session s) hid h]"
proof -
  let ?f = "\<lparr>hf_session = sh_session s, hf_id = hid, hf_hitl = h, hf_answer = None\<rparr>"
  have s': "sh_store s' = upsert_hitl_frame ?f (sh_store s)" "sh_session s' = sh_session s"
    "sh_events s' = sh_events s @ [HitlRequested (sh_session s) hid h]"
    using assms(2) by (auto simp: request_def draw_id_eq Let_def sh_emit_def)
  have wf: "hitl_store_wf (sh_store s')" using s'(1) hitl_store_wf_upsert [OF assms(1)] by simp
  have "?f \<in> set (list_unanswered_hitls_frames (sh_store s') (sh_session s'))"
    unfolding pending_iff [OF wf] using s' by (simp add: hitls.get_upsert)
  then show ?thesis using wf s' by (force simp: list_pending_hitls_def)
qed

definition example_hitls :: session_hitls where
  "example_hitls = \<lparr>sh_ids = \<lparr>rng = 0, session_prefix = 5\<rparr>, sh_store = [], sh_events = [],
     sh_session = SessionId (ID 1 1)\<rparr>"

lemma request_pending_witness:
  "\<lparr>ph_session = SessionId (ID 1 1), ph_id = HitlId (ID 5 9), ph_hitl = Text\<rparr>
     \<in> set (list_pending_hitls (sh_store (snd (request (\<lambda>n. 9) Text example_hitls)))
          (SessionId (ID 1 1)))"
proof -
  obtain s' where s': "request (\<lambda>n. 9) Text example_hitls = (Ok (HitlId (ID 5 9)), s')"
    by (simp add: request_def draw_id_eq example_hitls_def Let_def)
  moreover from s' have "sh_session s' = SessionId (ID 1 1)"
    by (auto simp: request_def draw_id_eq example_hitls_def Let_def sh_emit_def)
  ultimately show ?thesis
    using request_pending [OF _ s'] by (simp add: example_hitls_def hitl_store_wf_def)
qed

text \<open>
  \<^verbatim>\<open>reply\<close> stores the answers before it validates them: a reply with invalid answers
  returns a validation error and emits nothing, but the invalid answers stay recorded and the
  request is no longer pending.
\<close>

theorem reply_invalid_is_recorded:
  assumes "hitl_store_wf (sh_store s)"
    and "hm_get (sh_store s) (sh_session s, hid) = Some h"
    and "hf_hitl h = Questions qs" and "validate_answers qs answers = Inl e"
  shows "\<exists>s'. reply hid answers s = (Err e, s') \<and> sh_events s' = sh_events s \<and>
    hm_get (sh_store s') (sh_session s, hid) = Some (h\<lparr>hf_answer := Some answers\<rparr>) \<and>
    hid \<notin> ph_id ` set (list_pending_hitls (sh_store s') (sh_session s))"
proof -
  have key: "hf_session h = sh_session s" "hf_id h = hid"
    using assms(1,2) by (auto simp: hitl_store_wf_def)
  let ?st = "upsert_hitl_frame (h\<lparr>hf_answer := Some answers\<rparr>) (sh_store s)"
  have wf: "hitl_store_wf ?st" by (rule hitl_store_wf_upsert [OF assms(1)])
  have get: "hm_get ?st (sh_session s, hid) = Some (h\<lparr>hf_answer := Some answers\<rparr>)"
    using key by (simp add: hitls.get_upsert)
  have "hid \<notin> ph_id ` set (list_pending_hitls ?st (sh_session s))"
    using get by (auto simp: list_pending_hitls_def pending_iff [OF wf])
  then show ?thesis using reply_ok_state(2) [OF assms(2) key, of answers] assms(3,4) get by simp
qed

definition answered_hitls :: session_hitls where
  "answered_hitls = example_hitls\<lparr>sh_store :=
     [((SessionId (ID 1 1), HitlId (ID 5 9)),
       \<lparr>hf_session = SessionId (ID 1 1), hf_id = HitlId (ID 5 9),
        hf_hitl = Questions [question_short_text ''name'' ''?''], hf_answer = None\<rparr>)]\<rparr>"

lemma reply_invalid_is_recorded_witness:
  "\<exists>e s'. reply (HitlId (ID 5 9)) [] answered_hitls = (Err e, s') \<and>
     HitlId (ID 5 9) \<notin> ph_id ` set (list_pending_hitls (sh_store s') (SessionId (ID 1 1)))"
proof -
  have s: "hitl_store_wf (sh_store answered_hitls)"
    by (simp add: answered_hitls_def hitl_store_wf_def hm_wf_def)
  have "\<exists>e. validate_answers [question_short_text ''name'' ''?''] [] = Inl e"
    by (simp add: validate_answers_def)
  then obtain e where e: "validate_answers [question_short_text ''name'' ''?''] [] = Inl e" by blast
  show ?thesis
    using reply_invalid_is_recorded [OF s, of "HitlId (ID 5 9)", OF _ _ e]
    by (auto simp: answered_hitls_def example_hitls_def)
qed

end
