(* ===== verification/Catalog.thy ===== *)
theory Catalog
  imports Errors
begin

text \<open>
  The versioned catalogue (\<^verbatim>\<open>marie-core/src/catalog\<close>): the in-memory store, the typed facade
  \<^verbatim>\<open>Catalog\<close>, and the three directories built on it in the same way, \<^verbatim>\<open>Graphs\<close>, \<^verbatim>\<open>Experts\<close>
  and \<^verbatim>\<open>Tools\<close>. How an item is turned into bytes and back (\<^verbatim>\<open>serde_json\<close>) is a parameter of
  the facade.

  A version is the value of the \<^verbatim>\<open>u64\<close>; it is the length of a vector, which is always below
  \<^verbatim>\<open>isize::MAX\<close>, so the cast never wraps.
\<close>

datatype catalog_error =
    StoreError error
  | NotFound string string
  | Deserialize string

record catalog_item_ref =
  ref_kind :: string
  ref_id :: string
  ref_version :: nat

record insert_catalog_item_args =
  ins_id :: string
  ins_kind :: string
  ins_data :: "u8 list"

section \<open>The in-memory store\<close>

record stored_item =
  item_data :: "u8 list"
  item_deprecated :: bool
  item_deleted :: bool

type_synonym catalog_store = "(string \<times> string, stored_item list) hash_map"

definition versions_of :: "catalog_store \<Rightarrow> string \<Rightarrow> string \<Rightarrow> stored_item list" where
  "versions_of st kind i = (case hm_get st (kind, i) of None \<Rightarrow> [] | Some vs \<Rightarrow> vs)"

definition insert_catalog_item ::
  "insert_catalog_item_args \<Rightarrow> catalog_store \<Rightarrow> catalog_item_ref \<times> catalog_store" where
  "insert_catalog_item args st =
     (let version = length (versions_of st (ins_kind args) (ins_id args));
          item = \<lparr>item_data = ins_data args, item_deprecated = False, item_deleted = False\<rparr>
      in (\<lparr>ref_kind = ins_kind args, ref_id = ins_id args, ref_version = version\<rparr>,
          hm_push (ins_kind args, ins_id args) item st))"

definition get_catalog_item :: "catalog_store \<Rightarrow> string \<Rightarrow> string \<Rightarrow> nat \<Rightarrow> u8 list option" where
  "get_catalog_item st kind i version =
     (let vs = versions_of st kind i in
      if version < length vs \<and> \<not> item_deleted (vs ! version) then Some (item_data (vs ! version))
      else None)"

definition item_active :: "stored_item \<Rightarrow> bool" where
  "item_active it \<longleftrightarrow> \<not> item_deprecated it \<and> \<not> item_deleted it"

text \<open>\<^verbatim>\<open>iter().enumerate().rev().find(..)\<close>.\<close>

definition last_active :: "stored_item list \<Rightarrow> nat option" where
  "last_active vs = map_option fst (List.find (\<lambda>p. item_active (snd p)) (rev (enumerate 0 vs)))"

definition last_catalog_ref :: "catalog_store \<Rightarrow> string \<Rightarrow> string \<Rightarrow> catalog_item_ref option" where
  "last_catalog_ref st kind i =
     map_option (\<lambda>v. \<lparr>ref_kind = kind, ref_id = i, ref_version = v\<rparr>)
       (Option.bind (hm_get st (kind, i)) last_active)"

definition list_catalog_refs :: "catalog_store \<Rightarrow> string \<Rightarrow> catalog_item_ref list" where
  "list_catalog_refs st kind =
     List.map_filter
       (\<lambda>e. map_option (\<lambda>v. \<lparr>ref_kind = kind, ref_id = snd (fst e), ref_version = v\<rparr>) (last_active (snd e)))
       (filter (\<lambda>e. fst (fst e) = kind) st)"

text \<open>Both marks are put on every version of the item.\<close>

definition mark_versions ::
  "(stored_item \<Rightarrow> stored_item) \<Rightarrow> string \<Rightarrow> string \<Rightarrow> catalog_store \<Rightarrow> catalog_store" where
  "mark_versions f kind i st = (case hm_get st (kind, i) of
      None \<Rightarrow> st
    | Some vs \<Rightarrow> hm_insert (kind, i) (map f vs) st)"

definition deprecate_catalog_item :: "string \<Rightarrow> string \<Rightarrow> catalog_store \<Rightarrow> catalog_store" where
  "deprecate_catalog_item kind i st = mark_versions (\<lambda>it. it\<lparr>item_deprecated := True\<rparr>) kind i st"

definition delete_catalog_item :: "string \<Rightarrow> string \<Rightarrow> catalog_store \<Rightarrow> catalog_store" where
  "delete_catalog_item kind i st = mark_versions (\<lambda>it. it\<lparr>item_deleted := True\<rparr>) kind i st"

section \<open>The typed facade\<close>

text \<open>The trait \<^verbatim>\<open>Catalogable\<close>, with the serialisation its supertraits provide.\<close>

record 'c catalogable =
  cat_kind :: string
  cat_id :: "'c \<Rightarrow> string"
  to_vec :: "'c \<Rightarrow> string + u8 list"
  from_slice :: "u8 list \<Rightarrow> string + 'c"

type_synonym 'a catalog_prog = "(catalog_store, catalog_error, 'a) prog"

definition catalog_publish :: "'c catalogable \<Rightarrow> 'c \<Rightarrow> catalog_item_ref catalog_prog" where
  "catalog_publish C item = (case to_vec C item of
      Inl e \<Rightarrow> throw (Deserialize e)
    | Inr data \<Rightarrow> (\<lambda>st.
        let (r, st') = insert_catalog_item \<lparr>ins_id = cat_id C item, ins_kind = cat_kind C, ins_data = data\<rparr> st
        in (Ok r, st')))"

definition catalog_deref :: "'c catalogable \<Rightarrow> catalog_item_ref \<Rightarrow> 'c catalog_prog" where
  "catalog_deref C r =
     bind (gets (\<lambda>st. get_catalog_item st (ref_kind r) (ref_id r) (ref_version r))) (\<lambda>d. case d of
         None \<Rightarrow> throw (NotFound (ref_kind r) (ref_id r))
       | Some data \<Rightarrow> of_sum (map_sum Deserialize id (from_slice C data)))"

definition catalog_latest_ref :: "'c catalogable \<Rightarrow> string \<Rightarrow> catalog_item_ref catalog_prog" where
  "catalog_latest_ref C i =
     bind (gets (\<lambda>st. last_catalog_ref st (cat_kind C) i)) (\<lambda>r. case r of
         None \<Rightarrow> throw (NotFound (cat_kind C) i)
       | Some r \<Rightarrow> ret r)"

definition catalog_latest :: "'c catalogable \<Rightarrow> string \<Rightarrow> 'c catalog_prog" where
  "catalog_latest C i = bind (catalog_latest_ref C i) (catalog_deref C)"

definition catalog_list :: "'c catalogable \<Rightarrow> catalog_item_ref list catalog_prog" where
  "catalog_list C = gets (\<lambda>st. list_catalog_refs st (cat_kind C))"

definition catalog_deprecate :: "catalog_item_ref \<Rightarrow> unit catalog_prog" where
  "catalog_deprecate r = modify (deprecate_catalog_item (ref_kind r) (ref_id r))"

definition catalog_delete :: "catalog_item_ref \<Rightarrow> unit catalog_prog" where
  "catalog_delete r = modify (delete_catalog_item (ref_kind r) (ref_id r))"

section \<open>Directories over the catalogue\<close>

text \<open>\<^verbatim>\<open>replace\<close>, \<^verbatim>\<open>delete\<close>, \<^verbatim>\<open>latest\<close>, \<^verbatim>\<open>get\<close> and \<^verbatim>\<open>list\<close> of \<^verbatim>\<open>Graphs\<close>, \<^verbatim>\<open>Experts\<close> and \<^verbatim>\<open>Tools\<close>.\<close>

definition directory_replace :: "'c catalogable \<Rightarrow> 'c \<Rightarrow> catalog_item_ref catalog_prog" where
  "directory_replace C item = seq (catalog_latest_ref C (cat_id C item)) (catalog_publish C item)"

definition directory_delete :: "'c catalogable \<Rightarrow> string \<Rightarrow> unit catalog_prog" where
  "directory_delete C i = bind (catalog_latest_ref C i) catalog_delete"

text \<open>\<^verbatim>\<open>Err(NotFound) => Ok(None)\<close>; every other error is passed on.\<close>

definition not_found_as_none :: "'a catalog_prog \<Rightarrow> 'a option catalog_prog" where
  "not_found_as_none m = (\<lambda>st. case m st of
      (Ok a, st') \<Rightarrow> (Ok (Some a), st')
    | (Err (NotFound k i), st') \<Rightarrow> (Ok None, st')
    | (Err e, st') \<Rightarrow> (Err e, st')
    | (Panic msg, st') \<Rightarrow> (Panic msg, st'))"

definition graphs_latest :: "'c catalogable \<Rightarrow> string \<Rightarrow> catalog_item_ref option catalog_prog" where
  "graphs_latest C i = not_found_as_none (catalog_latest_ref C i)"

definition experts_get :: "'c catalogable \<Rightarrow> string \<Rightarrow> 'c option catalog_prog" where
  "experts_get C i = not_found_as_none (catalog_latest C i)"

definition directory_list :: "'c catalogable \<Rightarrow> 'c list catalog_prog" where
  "directory_list C = bind (catalog_list C) (map_prog (catalog_deref C))"

text \<open>
  A tool is native, known only to the process that registered it, or published. A native tool
  takes precedence.
\<close>

datatype tool_ref = CatalogTool catalog_item_ref | NativeTool string

definition tools_register :: "string \<Rightarrow> 'c \<Rightarrow> (string, 'c) hash_map \<Rightarrow> (string, 'c) hash_map" where
  "tools_register name def native = hm_insert name def native"

definition tools_latest ::
  "'c catalogable \<Rightarrow> (string, 'c) hash_map \<Rightarrow> string \<Rightarrow> tool_ref option catalog_prog" where
  "tools_latest C native i =
     (if hm_contains native i then ret (Some (NativeTool i))
      else bind (not_found_as_none (catalog_latest_ref C i)) (\<lambda>r. ret (map_option CatalogTool r)))"

definition tools_get ::
  "'c catalogable \<Rightarrow> (string, 'c) hash_map \<Rightarrow> string \<Rightarrow> 'c option catalog_prog" where
  "tools_get C native i = (case hm_get native i of
      Some t \<Rightarrow> ret (Some t)
    | None \<Rightarrow> not_found_as_none (catalog_latest C i))"

fun tools_deref ::
  "'c catalogable \<Rightarrow> (string, 'c) hash_map \<Rightarrow> tool_ref \<Rightarrow> 'c option catalog_prog" where
  "tools_deref C native (NativeTool i) = ret (hm_get native i)"
| "tools_deref C native (CatalogTool r) = not_found_as_none (catalog_deref C r)"

definition tools_list :: "'c catalogable \<Rightarrow> (string, 'c) hash_map \<Rightarrow> 'c list catalog_prog" where
  "tools_list C native = bind (directory_list C) (\<lambda>ts. ret (hm_values native @ ts))"

section \<open>Facts on versions\<close>

lemma versions_of_push:
  "versions_of (hm_push (kind, i) it st) kind' i' =
     (if kind' = kind \<and> i' = i then versions_of st kind i @ [it] else versions_of st kind' i')"
  by (simp add: versions_of_def hm_get_push)

lemma versions_of_mark:
  "versions_of (mark_versions f kind i st) kind' i' =
     (if kind' = kind \<and> i' = i then map f (versions_of st kind i) else versions_of st kind' i')"
  by (auto simp: versions_of_def mark_versions_def split: option.splits)

lemma last_active_Nil [simp]: "last_active [] = None"
  by (simp add: last_active_def)

lemma last_active_snoc:
  "last_active (vs @ [it]) = (if item_active it then Some (length vs) else last_active vs)"
  by (simp add: last_active_def enumerate_append_eq)

lemma last_active_None: "last_active vs = None \<longleftrightarrow> list_all (\<lambda>it. \<not> item_active it) vs"
  by (induction vs rule: rev_induct) (simp_all add: last_active_snoc)

lemma last_active_Some:
  "last_active vs = Some v \<Longrightarrow> v < length vs \<and> item_active (vs ! v) \<and>
     (\<forall>w. v < w \<longrightarrow> w < length vs \<longrightarrow> \<not> item_active (vs ! w))"
proof (induction vs rule: rev_induct)
  case (snoc it vs)
  then show ?case
    by (cases "item_active it") (auto simp: last_active_snoc nth_append less_Suc_eq)
qed simp

lemma last_catalog_ref_eq:
  "last_catalog_ref st kind i =
     map_option (\<lambda>v. \<lparr>ref_kind = kind, ref_id = i, ref_version = v\<rparr>) (last_active (versions_of st kind i))"
  by (simp add: last_catalog_ref_def versions_of_def split: option.splits)

section \<open>The interface of a versioned store\<close>

text \<open>
  What the directories rely on: an insert appends the next version of one item, marks reach
  every version of one item, nothing else changes, and reads see the versions.
\<close>

locale versioned_store =
  fixes versions :: "'s \<Rightarrow> 'k \<Rightarrow> 'd list"
    and publish :: "'k \<Rightarrow> 'd \<Rightarrow> 's \<Rightarrow> 's"
    and mark :: "('d \<Rightarrow> 'd) \<Rightarrow> 'k \<Rightarrow> 's \<Rightarrow> 's"
  assumes versions_publish:
      "versions (publish k d s) k' = (if k' = k then versions s k @ [d] else versions s k')"
    and versions_mark:
      "versions (mark f k s) k' = (if k' = k then map f (versions s k) else versions s k')"
begin

lemma publish_keeps_old:
  "n < length (versions s k') \<Longrightarrow>
     n < length (versions (publish k d s) k') \<and> versions (publish k d s) k' ! n = versions s k' ! n"
  by (auto simp: versions_publish nth_append)

lemma publish_last: "versions (publish k d s) k ! length (versions s k) = d"
  by (simp add: versions_publish)

lemma mark_invisible:
  "(\<And>d. \<not> P (f d)) \<Longrightarrow> filter P (versions (mark f k s) k) = []"
  by (auto simp: versions_mark)

lemma mark_publish_other:
  "k \<noteq> k' \<Longrightarrow> versions (mark f k (publish k' d s)) = versions (publish k' d (mark f k s))"
  by (rule ext) (simp add: versions_mark versions_publish)

end

interpretation catalogue: versioned_store "\<lambda>st k. versions_of st (fst k) (snd k)" hm_push
  "\<lambda>f k. mark_versions f (fst k) (snd k)"
  by unfold_locales (auto simp: versions_of_push versions_of_mark prod_eq_iff)

lemma publish_state:
  "catalog_publish C item st = (Ok r, st') \<Longrightarrow> \<exists>d. to_vec C item = Inr d \<and>
     r = \<lparr>ref_kind = cat_kind C, ref_id = cat_id C item,
          ref_version = length (versions_of st (cat_kind C) (cat_id C item))\<rparr> \<and>
     st' = hm_push (cat_kind C, cat_id C item)
       \<lparr>item_data = d, item_deprecated = False, item_deleted = False\<rparr> st"
  by (auto simp: catalog_publish_def insert_catalog_item_def Let_def split: sum.splits)

lemma latest_after_publish:
  "catalog_publish C item st = (Ok r, st') \<Longrightarrow>
     catalog_latest_ref C (cat_id C item) st' = (Ok r, st')"
  by (auto dest!: publish_state
      simp: catalog_latest_ref_def last_catalog_ref_eq versions_of_push last_active_snoc
        item_active_def bind_def)

lemma publish_latest:
  assumes "to_vec C item = Inr d" and "from_slice C d = Inr item"
  shows "\<exists>r st'. catalog_publish C item st = (Ok r, st') \<and> catalog_latest C (cat_id C item) st' = (Ok item, st')"
proof -
  obtain r st' where pub: "catalog_publish C item st = (Ok r, st')"
    using assms(1) by (simp add: catalog_publish_def insert_catalog_item_def)
  then show ?thesis
    using publish_state [OF pub] assms latest_after_publish [OF pub]
    by (auto simp: catalog_latest_def catalog_deref_def bind_def get_catalog_item_def versions_of_push Let_def)
qed

section \<open>Properties\<close>

text \<open>
  Publishing an item gives a reference that reads the item back, makes it the latest
  version of its identifier, and leaves every older reference reading what it read before.
\<close>

theorem publish_then_read:
  assumes roundtrip: "\<And>d. to_vec C item = Inr d \<Longrightarrow> from_slice C d = Inr item"
    and pub: "catalog_publish C item st = (Ok r, st')"
  shows "catalog_deref C r st' = (Ok item, st') \<and>
    catalog_latest C (cat_id C item) st' = (Ok item, st') \<and>
    (\<forall>kind i v d. get_catalog_item st kind i v = Some d \<longrightarrow> get_catalog_item st' kind i v = Some d)"
proof -
  obtain d where d: "to_vec C item = Inr d"
    and r: "r = \<lparr>ref_kind = cat_kind C, ref_id = cat_id C item,
          ref_version = length (versions_of st (cat_kind C) (cat_id C item))\<rparr>"
    and st': "st' = hm_push (cat_kind C, cat_id C item)
       \<lparr>item_data = d, item_deprecated = False, item_deleted = False\<rparr> st"
    using publish_state [OF pub] by blast
  have deref: "catalog_deref C r st' = (Ok item, st')"
    using roundtrip [OF d] unfolding r st'
    by (simp add: catalog_deref_def bind_def get_catalog_item_def versions_of_push Let_def)
  moreover have "catalog_latest C (cat_id C item) st' = (Ok item, st')"
    using latest_after_publish [OF pub] deref by (simp add: catalog_latest_def bind_def)
  moreover have "get_catalog_item st' kind i v = Some d'"
    if "get_catalog_item st kind i v = Some d'" for kind i v d'
    using that by (auto simp: st' get_catalog_item_def versions_of_push Let_def nth_append
        split: if_splits)
  ultimately show ?thesis by blast
qed

text \<open>A catalogue of byte strings, the identifier being the content.\<close>

definition bytes_catalogable :: "u8 list catalogable" where
  "bytes_catalogable = \<lparr>cat_kind = ''k'', cat_id = (\<lambda>_. ''i''), to_vec = Inr, from_slice = Inr\<rparr>"

lemma publish_then_read_witness:
  "catalog_latest bytes_catalogable ''i'' (snd (catalog_publish bytes_catalogable [7] [])) =
     (Ok [7], snd (catalog_publish bytes_catalogable [7] []))"
proof -
  have "catalog_publish bytes_catalogable [7] [] =
      (Ok \<lparr>ref_kind = ''k'', ref_id = ''i'', ref_version = 0\<rparr>,
       snd (catalog_publish bytes_catalogable [7] []))"
    by (simp add: catalog_publish_def bytes_catalogable_def insert_catalog_item_def versions_of_def)
  from publish_then_read [OF _ this] show ?thesis by (simp add: bytes_catalogable_def)
qed

text \<open>
  Deleting through a reference hides every version of the item from every read and from
  the latest lookup; deprecating hides it from the latest lookup only and keeps exact
  references readable; neither touches another item, and a later publication is again the
  latest while the deleted versions stay hidden.
\<close>

theorem delete_and_deprecate:
  shows "get_catalog_item (delete_catalog_item kind i st) kind i v = None \<and>
    last_catalog_ref (delete_catalog_item kind i st) kind i = None \<and>
    get_catalog_item (deprecate_catalog_item kind i st) kind' i' v = get_catalog_item st kind' i' v \<and>
    last_catalog_ref (deprecate_catalog_item kind i st) kind i = None \<and>
    ((kind', i') \<noteq> (kind, i) \<longrightarrow>
      get_catalog_item (delete_catalog_item kind i st) kind' i' v = get_catalog_item st kind' i' v \<and>
      last_catalog_ref (delete_catalog_item kind i st) kind' i' = last_catalog_ref st kind' i' \<and>
      last_catalog_ref (deprecate_catalog_item kind i st) kind' i' = last_catalog_ref st kind' i') \<and>
    (\<forall>data r st'. insert_catalog_item \<lparr>ins_id = i, ins_kind = kind, ins_data = data\<rparr>
        (delete_catalog_item kind i st) = (r, st') \<longrightarrow>
      last_catalog_ref st' kind i = Some r \<and>
      (get_catalog_item st' kind i v \<noteq> None \<longleftrightarrow> v = ref_version r))"
proof -
  have hidden: "list_all (\<lambda>it. \<not> item_active it) (map f vs)"
    if "f = (\<lambda>it. it\<lparr>item_deleted := True\<rparr>) \<or> f = (\<lambda>it. it\<lparr>item_deprecated := True\<rparr>)"
    for f and vs :: "stored_item list"
    using that by (auto simp: list_all_iff item_active_def)
  have "last_active (map (\<lambda>it. it\<lparr>item_deleted := True\<rparr>) vs) = None"
    "last_active (map (\<lambda>it. it\<lparr>item_deprecated := True\<rparr>) vs) = None" for vs :: "stored_item list"
    by (simp_all add: last_active_None hidden)
  then show ?thesis
    by (auto simp: get_catalog_item_def last_catalog_ref_eq delete_catalog_item_def
        deprecate_catalog_item_def versions_of_mark insert_catalog_item_def versions_of_push Let_def
        last_active_snoc item_active_def nth_append)
qed

lemma delete_and_deprecate_witness:
  "get_catalog_item (delete_catalog_item ''k'' ''i''
     (snd (insert_catalog_item \<lparr>ins_id = ''j'', ins_kind = ''k'', ins_data = [3]\<rparr> []))) ''k'' ''j'' 0 =
   Some [3]"
proof -
  have "get_catalog_item (snd (insert_catalog_item
      \<lparr>ins_id = ''j'', ins_kind = ''k'', ins_data = [3]\<rparr> [])) ''k'' ''j'' 0 = Some [3]"
    by code_simp
  then show ?thesis using delete_and_deprecate [where kind' = "''k''" and i' = "''j''"] by simp
qed

end
