(* ===== verification/Spec.thy ===== *)
theory Spec
  imports Channels
begin

text \<open>
  Frame specifications (\<^verbatim>\<open>marie-core/src/session/spec.rs\<close>) and the part of
  \<^verbatim>\<open>marie-macros/src/lib.rs\<close> that builds them: the field loops of \<^verbatim>\<open>spec!\<close> /
  \<^verbatim>\<open>core_spec!\<close>, the expression they expand to, the specifications of the built-in frame
  kinds, and the merge of two specifications.
\<close>

record budget =
  max_step :: "u32 option"
  max_tokens :: "u32 option"

record common_spec =
  spec_budget :: budget
  spec_channels :: "channel_spec list"
  inherited_channels :: "channel_name list"
  exported_channels :: "channel_name list"
  default_values :: "(channel_name, value) hash_map"
  overrides_channels :: "(channel_name, value) hash_map"
  imported_channels :: "channel_name list"

definition budget_default :: budget where
  "budget_default = \<lparr>max_step = None, max_tokens = None\<rparr>"

definition common_spec_default :: common_spec where
  "common_spec_default =
     \<lparr>spec_budget = budget_default, spec_channels = [], inherited_channels = [],
      exported_channels = [], default_values = [], overrides_channels = [],
      imported_channels = []\<rparr>"

definition spec_overrides :: "channel_name \<Rightarrow> value \<Rightarrow> common_spec \<Rightarrow> common_spec" where
  "spec_overrides name v s = s\<lparr>overrides_channels := hm_insert name v (overrides_channels s)\<rparr>"

section \<open>The specification macros\<close>

text \<open>
  A field of a macro block is its key and the expression written for it. An expression is
  represented by its value; the compiler rejects a field whose expression has another type.
\<close>

datatype spec_expr = EBool bool | EReducer reducer | EJson "value" | EU32 u32

record spec_channel =
  chan_name :: channel_name
  chan_reducer :: reducer
  chan_inherited :: bool
  chan_exported :: bool
  chan_imported :: bool
  chan_default :: "value option"
  chan_overrides :: "value option"

record spec_block =
  block_budget :: "budget option"
  block_channels :: "spec_channel list"

record channel_fields =
  fld_reducer :: "reducer option"
  fld_inherited :: bool
  fld_exported :: bool
  fld_imported :: bool
  fld_default :: "value option"
  fld_overrides :: "value option"

definition duplicate_field :: "string \<Rightarrow> error" where
  "duplicate_field key = err_msg (''champ `'' @ key @ ''` deja defini'')"

definition mismatched :: error where
  "mismatched = err_msg ''mismatched types''"

definition set_channel_field ::
  "string \<Rightarrow> spec_expr \<Rightarrow> channel_fields \<Rightarrow> error + channel_fields" where
  "set_channel_field key e f =
     (if key = ''reducer'' then
        (case e of EReducer r \<Rightarrow> Inr (f\<lparr>fld_reducer := Some r\<rparr>) | _ \<Rightarrow> Inl mismatched)
      else if key = ''inherited'' then
        (case e of EBool b \<Rightarrow> Inr (f\<lparr>fld_inherited := b\<rparr>) | _ \<Rightarrow> Inl mismatched)
      else if key = ''exported'' then
        (case e of EBool b \<Rightarrow> Inr (f\<lparr>fld_exported := b\<rparr>) | _ \<Rightarrow> Inl mismatched)
      else if key = ''imported'' then
        (case e of EBool b \<Rightarrow> Inr (f\<lparr>fld_imported := b\<rparr>) | _ \<Rightarrow> Inl mismatched)
      else if key = ''default'' then
        (case e of EJson v \<Rightarrow> Inr (f\<lparr>fld_default := Some v\<rparr>) | _ \<Rightarrow> Inl mismatched)
      else if key = ''overrides'' then
        (case e of EJson v \<Rightarrow> Inr (f\<lparr>fld_overrides := Some v\<rparr>) | _ \<Rightarrow> Inl mismatched)
      else Inl (err_msg (''champ `'' @ key @ ''` inconnu pour un canal, attendu `reducer`/`inherited`/`exported`/`imported`/`default`/`overrides`'')))"

fun channel_field_loop ::
  "(string \<times> spec_expr) list \<Rightarrow> string list \<Rightarrow> channel_fields \<Rightarrow> error + channel_fields" where
  "channel_field_loop [] seen f = Inr f"
| "channel_field_loop ((key, e) # rest) seen f =
     (if key \<in> set seen then Inl (duplicate_field key)
      else case set_channel_field key e f of
          Inl err \<Rightarrow> Inl err
        | Inr f' \<Rightarrow> channel_field_loop rest (key # seen) f')"

definition no_fields :: channel_fields where
  "no_fields = \<lparr>fld_reducer = None, fld_inherited = False, fld_exported = False,
     fld_imported = False, fld_default = None, fld_overrides = None\<rparr>"

definition parse_spec_channel ::
  "channel_name \<Rightarrow> (string \<times> spec_expr) list \<Rightarrow> error + spec_channel" where
  "parse_spec_channel name flds = (case channel_field_loop flds [] no_fields of
      Inl err \<Rightarrow> Inl err
    | Inr f \<Rightarrow> (case fld_reducer f of
        None \<Rightarrow> Inl (err_msg ''le champ `reducer` est requis pour chaque canal'')
      | Some r \<Rightarrow> Inr \<lparr>chan_name = name, chan_reducer = r, chan_inherited = fld_inherited f,
          chan_exported = fld_exported f, chan_imported = fld_imported f,
          chan_default = fld_default f, chan_overrides = fld_overrides f\<rparr>))"

fun parse_spec_budget ::
  "(string \<times> spec_expr) list \<Rightarrow> string list \<Rightarrow> budget \<Rightarrow> error + budget" where
  "parse_spec_budget [] seen b = Inr b"
| "parse_spec_budget ((key, e) # rest) seen b =
     (if key \<in> set seen then Inl (duplicate_field key)
      else if key = ''max_step'' then
        (case e of EU32 n \<Rightarrow> parse_spec_budget rest (key # seen) (b\<lparr>max_step := Some n\<rparr>)
          | _ \<Rightarrow> Inl mismatched)
      else if key = ''max_tokens'' then
        (case e of EU32 n \<Rightarrow> parse_spec_budget rest (key # seen) (b\<lparr>max_tokens := Some n\<rparr>)
          | _ \<Rightarrow> Inl mismatched)
      else Inl (err_msg (''champ `'' @ key @ ''` inconnu pour `budget`, attendu `max_step`/`max_tokens`'')))"

text \<open>A top-level entry of the block: a braced group of fields or of channel declarations.\<close>

datatype spec_entry =
    EBudget "(string \<times> spec_expr) list"
  | EChannels "(channel_name \<times> (string \<times> spec_expr) list) list"

fun parse_channels ::
  "(channel_name \<times> (string \<times> spec_expr) list) list \<Rightarrow> error + spec_channel list" where
  "parse_channels [] = Inr []"
| "parse_channels ((name, flds) # rest) = (case parse_spec_channel name flds of
      Inl err \<Rightarrow> Inl err
    | Inr c \<Rightarrow> (case parse_channels rest of Inl err \<Rightarrow> Inl err | Inr cs \<Rightarrow> Inr (c # cs)))"

fun parse_spec_block ::
  "(string \<times> spec_entry) list \<Rightarrow> string list \<Rightarrow> spec_block \<Rightarrow> error + spec_block" where
  "parse_spec_block [] seen b = Inr b"
| "parse_spec_block ((key, e) # rest) seen b =
     (if key \<in> set seen then Inl (duplicate_field key)
      else if key = ''budget'' then
        (case e of
          EBudget flds \<Rightarrow> (case parse_spec_budget flds [] budget_default of
              Inl err \<Rightarrow> Inl err
            | Inr bu \<Rightarrow> parse_spec_block rest (key # seen) (b\<lparr>block_budget := Some bu\<rparr>))
        | EChannels _ \<Rightarrow> Inl (err_msg ''expected identifier''))
      else if key = ''channels'' then
        (case e of
          EChannels decls \<Rightarrow> (case parse_channels decls of
              Inl err \<Rightarrow> Inl err
            | Inr cs \<Rightarrow> parse_spec_block rest (key # seen) (b\<lparr>block_channels := cs\<rparr>))
        | EBudget _ \<Rightarrow> Inl (err_msg ''expected string literal''))
      else Inl (err_msg (''champ `'' @ key @ ''` inconnu dans `spec`, attendu `budget`/`channels`'')))"

text \<open>The expression \<^verbatim>\<open>CommonSpec { .. }\<close> the block expands to.\<close>

definition build_common_spec :: "spec_block \<Rightarrow> common_spec" where
  "build_common_spec b =
     \<lparr>spec_budget = (case block_budget b of None \<Rightarrow> budget_default | Some bu \<Rightarrow> bu),
      spec_channels = map (\<lambda>c. channel_spec_new (chan_name c) (chan_reducer c)) (block_channels b),
      inherited_channels = map chan_name (filter chan_inherited (block_channels b)),
      exported_channels = map chan_name (filter chan_exported (block_channels b)),
      default_values = hm_from (List.map_filter
        (\<lambda>c. map_option (\<lambda>v. (chan_name c, v)) (chan_default c)) (block_channels b)),
      overrides_channels = hm_from (List.map_filter
        (\<lambda>c. map_option (\<lambda>v. (chan_name c, v)) (chan_overrides c)) (block_channels b)),
      imported_channels = map chan_name (filter chan_imported (block_channels b))\<rparr>"

definition expand_spec :: "(string \<times> spec_entry) list \<Rightarrow> error + common_spec" where
  "expand_spec entries = (case parse_spec_block entries [] \<lparr>block_budget = None, block_channels = []\<rparr> of
      Inl err \<Rightarrow> Inl err
    | Inr b \<Rightarrow> Inr (build_common_spec b))"

section \<open>Specifications of the built-in frame kinds\<close>

definition channel_decl :: "channel_name \<Rightarrow> reducer \<Rightarrow> spec_channel" where
  "channel_decl name r = \<lparr>chan_name = name, chan_reducer = r, chan_inherited = False,
     chan_exported = False, chan_imported = False, chan_default = None, chan_overrides = None\<rparr>"

definition core_spec :: "spec_channel list \<Rightarrow> common_spec" where
  "core_spec cs = build_common_spec \<lparr>block_budget = None, block_channels = cs\<rparr>"

definition spec_shell :: common_spec where
  "spec_shell = core_spec
     [channel_decl ''tool_result'' LastWriteWins\<lparr>chan_imported := True\<rparr>,
      channel_decl ''expert_answer'' LastWriteWins\<lparr>chan_imported := True\<rparr>,
      channel_decl ''hitl_answer'' LastWriteWins\<lparr>chan_imported := True\<rparr>]"

definition spec_graph :: common_spec where
  "spec_graph = core_spec [channel_decl ''graph_result'' LastWriteWins\<lparr>chan_exported := True\<rparr>]"

definition spec_tool :: common_spec where
  "spec_tool = core_spec [channel_decl ''tool_result'' LastWriteWins\<lparr>chan_exported := True\<rparr>]"

definition spec_tool_aggregator :: common_spec where
  "spec_tool_aggregator = core_spec
     [channel_decl ''tool_result'' Append\<lparr>chan_imported := True, chan_exported := True\<rparr>]"

text \<open>\<^verbatim>\<open>Context::default()\<close> and an empty vector both serialise to the empty array.\<close>

definition spec_expert :: common_spec where
  "spec_expert = core_spec
     [channel_decl ''expert_task'' LastWriteWins\<lparr>chan_inherited := True\<rparr>,
      channel_decl ''expert_answer'' LastWriteWins\<lparr>chan_exported := True, chan_imported := True\<rparr>,
      channel_decl ''expert_context'' LastWriteWins\<lparr>chan_default := Some (VArray [])\<rparr>,
      channel_decl ''tool_result'' LastWriteWins
        \<lparr>chan_default := Some (VArray []), chan_inherited := True, chan_imported := True\<rparr>]"

definition spec_expert_aggregator :: common_spec where
  "spec_expert_aggregator = core_spec
     [channel_decl ''expert_task'' LastWriteWins\<lparr>chan_inherited := True\<rparr>,
      channel_decl ''expert_answer'' Append
        \<lparr>chan_inherited := True, chan_imported := True, chan_exported := True\<rparr>]"

definition spec_hitl :: common_spec where
  "spec_hitl = common_spec_default
     \<lparr>spec_channels := [channel_spec_new ''hitl_answer'' LastWriteWins],
      inherited_channels := [], exported_channels := [''hitl_answer'']\<rparr>"

section \<open>Merging two specifications\<close>

fun union :: "channel_name list \<Rightarrow> channel_name list \<Rightarrow> channel_name list" where
  "union a [] = a"
| "union a (name # b) = union (if name \<in> set a then a else a @ [name]) b"

text \<open>\<^verbatim>\<open>iter_mut().find(..)\<close>: the first entry of the same name is replaced in place.\<close>

fun replace_channel :: "channel_spec \<Rightarrow> channel_spec list \<Rightarrow> channel_spec list option" where
  "replace_channel c [] = None"
| "replace_channel c (d # ds) =
     (if spec_name d = spec_name c then Some (c # ds)
      else map_option (Cons d) (replace_channel c ds))"

fun merge_channels :: "channel_spec list \<Rightarrow> channel_spec list \<Rightarrow> channel_spec list" where
  "merge_channels a [] = a"
| "merge_channels a (c # b) =
     merge_channels (case replace_channel c a of Some a' \<Rightarrow> a' | None \<Rightarrow> a @ [c]) b"

definition option_or :: "'a option \<Rightarrow> 'a option \<Rightarrow> 'a option" where
  "option_or x y = (case x of Some v \<Rightarrow> Some v | None \<Rightarrow> y)"

definition spec_merge :: "common_spec \<Rightarrow> common_spec \<Rightarrow> common_spec" where
  "spec_merge a b =
     \<lparr>spec_budget =
        \<lparr>max_step = option_or (max_step (spec_budget b)) (max_step (spec_budget a)),
         max_tokens = option_or (max_tokens (spec_budget b)) (max_tokens (spec_budget a))\<rparr>,
      spec_channels = merge_channels (spec_channels a) (spec_channels b),
      inherited_channels = union (inherited_channels a) (inherited_channels b),
      exported_channels = union (exported_channels a) (exported_channels b),
      default_values = hm_extend (default_values a) (default_values b),
      overrides_channels = hm_extend (overrides_channels a) (overrides_channels b),
      imported_channels = union (imported_channels a) (imported_channels b)\<rparr>"

section \<open>Reading a specification\<close>

definition find_channel :: "channel_spec list \<Rightarrow> channel_name \<Rightarrow> channel_spec option" where
  "find_channel cs name = List.find (\<lambda>c. spec_name c = name) cs"

definition spec_wf :: "common_spec \<Rightarrow> bool" where
  "spec_wf s \<longleftrightarrow> distinct (map spec_name (spec_channels s)) \<and> distinct (inherited_channels s) \<and>
     distinct (exported_channels s) \<and> distinct (imported_channels s) \<and>
     hm_wf (default_values s) \<and> hm_wf (overrides_channels s)"

lemma union_set [simp]: "set (union a b) = set a \<union> set b"
  by (induction b arbitrary: a) auto

lemma union_distinct: "distinct a \<Longrightarrow> distinct (union a b)"
  by (induction b arbitrary: a) auto

lemma union_absorb: "set b \<subseteq> set a \<Longrightarrow> union a b = a"
  by (induction b arbitrary: a) auto

lemma replace_channel_None:
  "replace_channel c cs = None \<longleftrightarrow> spec_name c \<notin> set (map spec_name cs)"
  by (induction cs) auto

lemma replace_channel_names:
  "replace_channel c cs = Some cs' \<Longrightarrow> map spec_name cs' = map spec_name cs"
  by (induction cs arbitrary: cs') (auto split: if_splits)

lemma find_channel_replace:
  "replace_channel c cs = Some cs' \<Longrightarrow>
     find_channel cs' n = (if n = spec_name c then Some c else find_channel cs n)"
  by (induction cs arbitrary: cs') (auto simp: find_channel_def split: if_splits)

lemma find_channel_append:
  "find_channel (cs @ [c]) n = (case find_channel cs n of
      Some d \<Rightarrow> Some d | None \<Rightarrow> if spec_name c = n then Some c else None)"
  by (induction cs) (auto simp: find_channel_def)

lemma find_channel_Cons:
  "find_channel (c # cs) n = (if spec_name c = n then Some c else find_channel cs n)"
  by (simp add: find_channel_def)

lemma find_channel_None: "find_channel cs n = None \<longleftrightarrow> n \<notin> set (map spec_name cs)"
  by (induction cs) (auto simp: find_channel_def)

lemma find_channel_add:
  "find_channel (case replace_channel c a of Some a' \<Rightarrow> a' | None \<Rightarrow> a @ [c]) n =
     (if n = spec_name c then Some c else find_channel a n)"
  using replace_channel_None [of c a] find_channel_None [of a n]
  by (auto simp: find_channel_replace find_channel_append split: option.splits)

lemma add_channel_distinct:
  "distinct (map spec_name a) \<Longrightarrow>
     distinct (map spec_name (case replace_channel c a of Some a' \<Rightarrow> a' | None \<Rightarrow> a @ [c]))"
  using replace_channel_None [of c a] replace_channel_names [of c a] by (auto split: option.splits)

lemma merge_channels_distinct:
  "distinct (map spec_name a) \<Longrightarrow> distinct (map spec_name (merge_channels a b))"
  by (induction b arbitrary: a) (simp_all add: add_channel_distinct)

lemma find_merge_channels:
  "distinct (map spec_name b) \<Longrightarrow>
     find_channel (merge_channels a b) n =
       (case find_channel b n of Some c \<Rightarrow> Some c | None \<Rightarrow> find_channel a n)"
proof (induction b arbitrary: a)
  case Nil
  then show ?case by (simp add: find_channel_def)
next
  case (Cons c b)
  then have "spec_name c \<notin> set (map spec_name b)" by simp
  then have "find_channel b (spec_name c) = None" using find_channel_None by blast
  with Cons show ?case
    by (auto simp: find_channel_add find_channel_Cons split: option.splits)
qed

lemma hm_get_extend_wf:
  "hm_wf b \<Longrightarrow> hm_get (hm_extend a b) k = (case hm_get b k of Some v \<Rightarrow> Some v | None \<Rightarrow> hm_get a k)"
  using map_of_inject_set [of "rev b" b] by (simp add: hm_get_extend hm_wf_def rev_map [symmetric])

lemma spec_merge_wf: "spec_wf a \<Longrightarrow> spec_wf (spec_merge a b)"
  by (simp add: spec_wf_def spec_merge_def merge_channels_distinct union_distinct)

section \<open>Facts on the macro parser\<close>

lemma set_channel_field_ok:
  "set_channel_field key e f = Inr g \<Longrightarrow>
     key \<in> {''reducer'', ''inherited'', ''exported'', ''imported'', ''default'', ''overrides''} \<and>
     map_option EReducer (fld_reducer g) =
       (if key = ''reducer'' then Some e else map_option EReducer (fld_reducer f)) \<and>
     EBool (fld_inherited g) = (if key = ''inherited'' then e else EBool (fld_inherited f)) \<and>
     EBool (fld_exported g) = (if key = ''exported'' then e else EBool (fld_exported f)) \<and>
     EBool (fld_imported g) = (if key = ''imported'' then e else EBool (fld_imported f)) \<and>
     map_option EJson (fld_default g) =
       (if key = ''default'' then Some e else map_option EJson (fld_default f)) \<and>
     map_option EJson (fld_overrides g) =
       (if key = ''overrides'' then Some e else map_option EJson (fld_overrides f))"
  unfolding set_channel_field_def by (cases e) (auto split: if_splits)

lemma channel_field_loop_keys:
  "channel_field_loop flds seen f = Inr g \<Longrightarrow>
     distinct (map fst flds) \<and> set (map fst flds) \<inter> set seen = {} \<and> set (map fst flds) \<subseteq>
       {''reducer'', ''inherited'', ''exported'', ''imported'', ''default'', ''overrides''}"
proof (induction flds seen f rule: channel_field_loop.induct)
  case (2 key e rest seen f)
  from "2.prems" obtain f' where f': "set_channel_field key e f = Inr f'" "key \<notin> set seen"
    and rest: "channel_field_loop rest (key # seen) f' = Inr g"
    by (auto split: if_splits sum.splits)
  show ?case
    using "2.IH" [OF f'(2,1) rest] set_channel_field_ok [OF f'(1)] f'(2) by (simp del: insert_iff)
qed simp

lemma channel_field_loop_values:
  "channel_field_loop flds seen f = Inr g \<Longrightarrow>
     map_option EReducer (fld_reducer g) =
       option_or (map_of flds ''reducer'') (map_option EReducer (fld_reducer f)) \<and>
     Some (EBool (fld_inherited g)) =
       option_or (map_of flds ''inherited'') (Some (EBool (fld_inherited f))) \<and>
     Some (EBool (fld_exported g)) =
       option_or (map_of flds ''exported'') (Some (EBool (fld_exported f))) \<and>
     Some (EBool (fld_imported g)) =
       option_or (map_of flds ''imported'') (Some (EBool (fld_imported f))) \<and>
     map_option EJson (fld_default g) =
       option_or (map_of flds ''default'') (map_option EJson (fld_default f)) \<and>
     map_option EJson (fld_overrides g) =
       option_or (map_of flds ''overrides'') (map_option EJson (fld_overrides f))"
proof (induction flds seen f rule: channel_field_loop.induct)
  case (1 seen f)
  then show ?case by (simp add: option_or_def)
next
  case (2 key e rest seen f)
  from "2.prems" obtain f' where f': "set_channel_field key e f = Inr f'" "key \<notin> set seen"
    and rest: "channel_field_loop rest (key # seen) f' = Inr g"
    by (auto split: if_splits sum.splits)
  have "map_of rest key = None"
    using channel_field_loop_keys [OF rest] by (auto simp: map_of_eq_None_iff)
  with "2.IH" [OF f'(2,1) rest] set_channel_field_ok [OF f'(1)] show ?case
    by (auto simp: option_or_def split: option.splits if_splits)
qed

section \<open>Properties\<close>

text \<open>
  Merging \<open>b\<close> over \<open>a\<close> gives every keyed entry of \<open>b\<close>, and the entry of \<open>a\<close> where \<open>b\<close> has
  none (channels, default values, overrides, budget); the channel-name lists are the
  deduplicated unions; and the merge of well-formed specifications is well formed.
\<close>

theorem spec_merge_b_over_a:
  assumes "spec_wf a" and "spec_wf b"
  shows "spec_wf (spec_merge a b) \<and>
    find_channel (spec_channels (spec_merge a b)) n =
      option_or (find_channel (spec_channels b) n) (find_channel (spec_channels a) n) \<and>
    hm_get (default_values (spec_merge a b)) n =
      option_or (hm_get (default_values b) n) (hm_get (default_values a) n) \<and>
    hm_get (overrides_channels (spec_merge a b)) n =
      option_or (hm_get (overrides_channels b) n) (hm_get (overrides_channels a) n) \<and>
    max_step (spec_budget (spec_merge a b)) =
      option_or (max_step (spec_budget b)) (max_step (spec_budget a)) \<and>
    set (inherited_channels (spec_merge a b)) = set (inherited_channels a) \<union> set (inherited_channels b) \<and>
    set (exported_channels (spec_merge a b)) = set (exported_channels a) \<union> set (exported_channels b) \<and>
    set (imported_channels (spec_merge a b)) = set (imported_channels a) \<union> set (imported_channels b)"
  using assms spec_merge_wf [of a b]
  by (simp add: spec_merge_def spec_wf_def find_merge_channels hm_get_extend_wf option_or_def)

lemma spec_merge_b_over_a_witness:
  "find_channel (spec_channels (spec_merge spec_tool spec_tool_aggregator)) ''tool_result'' =
     Some (channel_spec_new ''tool_result'' Append)"
proof -
  have wf: "spec_wf spec_tool" "spec_wf spec_tool_aggregator" by code_simp+
  have "option_or (find_channel (spec_channels spec_tool_aggregator) ''tool_result'')
      (find_channel (spec_channels spec_tool) ''tool_result'') =
      Some (channel_spec_new ''tool_result'' Append)"
    by code_simp
  then show ?thesis using spec_merge_b_over_a [OF wf, of "''tool_result''"] by simp
qed

text \<open>
  The aggregators and the experts import what the frames below them export, so that a
  child's result is not silently dropped: tools into tool aggregators, experts into expert
  aggregators, aggregators of tools into experts.
\<close>

theorem aggregators_import_exports:
  "set (exported_channels spec_tool) \<subseteq> set (imported_channels spec_tool_aggregator) \<and>
   set (exported_channels spec_tool_aggregator) \<subseteq> set (imported_channels spec_expert) \<and>
   set (exported_channels spec_expert) \<subseteq> set (imported_channels spec_expert_aggregator) \<and>
   set (exported_channels spec_expert_aggregator) \<subseteq> set (imported_channels spec_shell) \<and>
   set (exported_channels spec_hitl) \<subseteq> set (imported_channels spec_shell) \<and>
   list_all spec_wf [spec_shell, spec_graph, spec_tool, spec_tool_aggregator, spec_expert,
     spec_expert_aggregator, spec_hitl]"
  by code_simp

text \<open>
  A channel declaration that the macro accepts declares every field at most once, only
  known fields, and a reducer; the channel it builds carries exactly the declared values, and
  an undeclared flag is false, an undeclared default or override absent.
\<close>

theorem parse_spec_channel_sound:
  assumes "parse_spec_channel name flds = Inr c"
  shows "distinct (map fst flds) \<and> chan_name c = name \<and>
    map_of flds ''reducer'' = Some (EReducer (chan_reducer c)) \<and>
    option_or (map_of flds ''inherited'') (Some (EBool False)) = Some (EBool (chan_inherited c)) \<and>
    option_or (map_of flds ''exported'') (Some (EBool False)) = Some (EBool (chan_exported c)) \<and>
    option_or (map_of flds ''imported'') (Some (EBool False)) = Some (EBool (chan_imported c)) \<and>
    map_of flds ''default'' = map_option EJson (chan_default c) \<and>
    map_of flds ''overrides'' = map_option EJson (chan_overrides c)"
proof -
  obtain g r where g: "channel_field_loop flds [] no_fields = Inr g" "fld_reducer g = Some r"
    using assms by (auto simp: parse_spec_channel_def split: sum.splits option.splits)
  then have "c = \<lparr>chan_name = name, chan_reducer = r, chan_inherited = fld_inherited g,
      chan_exported = fld_exported g, chan_imported = fld_imported g,
      chan_default = fld_default g, chan_overrides = fld_overrides g\<rparr>"
    using assms by (simp add: parse_spec_channel_def)
  then show ?thesis
    using channel_field_loop_values [OF g(1)] channel_field_loop_keys [OF g(1)] g(2)
    by (auto simp: no_fields_def option_or_def split: option.splits)
qed

lemma parse_spec_channel_sound_witness:
  "map_of [(''reducer'', EReducer Append), (''exported'', EBool True)] ''reducer'' =
     Some (EReducer Append)"
proof -
  let ?flds = "[(''reducer'', EReducer Append), (''exported'', EBool True)]"
  have "parse_spec_channel ''answer'' ?flds =
      Inr (channel_decl ''answer'' Append\<lparr>chan_exported := True\<rparr>)"
    by code_simp
  from parse_spec_channel_sound [OF this] show ?thesis by (simp add: channel_decl_def)
qed

end
