(* ===== verification/Nodes.thy ===== *)
theory Nodes
  imports Ids
begin

text \<open>
  Node identities and capabilities (\<^verbatim>\<open>marie-core/src/node.rs\<close>,
  \<^verbatim>\<open>annuary/capabilities.rs\<close>). A capability is one bit of a byte; a set of capabilities is
  the byte.
\<close>

datatype node_id = NodeId "u8 list"

fun node_id_bytes :: "node_id \<Rightarrow> u8 list" where
  "node_id_bytes (NodeId bs) = bs"

definition node_id_default :: node_id where
  "node_id_default = NodeId []"

text \<open>\<^verbatim>\<open>OwnNodeId\<close> wraps the identity of the local node.\<close>

datatype own_node_id = OwnNodeId node_id

definition own_node_id_local :: own_node_id where
  "own_node_id_local = OwnNodeId node_id_default"

fun own_to_node_id :: "own_node_id \<Rightarrow> node_id" where
  "own_to_node_id (OwnNodeId n) = n"

text \<open>The debug form of a byte vector, which \<^verbatim>\<open>Display\<close> prints.\<close>

fun show_bytes :: "u8 list \<Rightarrow> string" where
  "show_bytes [] = []"
| "show_bytes [b] = show_nat (unat b)"
| "show_bytes (b # bs) = show_nat (unat b) @ '', '' @ show_bytes bs"

definition node_id_display :: "node_id \<Rightarrow> string" where
  "node_id_display n = ''['' @ show_bytes (node_id_bytes n) @ '']''"

section \<open>Capabilities\<close>

unbundle bit_operations_syntax

datatype capability = Gateway | SessionOrchestrator | CapWorker | State | Lease

fun capability_bit :: "capability \<Rightarrow> u8" where
  "capability_bit Gateway = 1"
| "capability_bit SessionOrchestrator = 2"
| "capability_bit CapWorker = 4"
| "capability_bit State = 8"
| "capability_bit Lease = 16"

datatype capabilities = Capabilities u8

definition capabilities_default :: capabilities where
  "capabilities_default = Capabilities 0"

definition capabilities_from :: "capability \<Rightarrow> capabilities" where
  "capabilities_from c = Capabilities (capability_bit c)"

definition capabilities_all :: capabilities where
  "capabilities_all = Capabilities (- 1)"

fun cap_includes :: "capabilities \<Rightarrow> capabilities \<Rightarrow> bool" where
  "cap_includes (Capabilities a) (Capabilities b) \<longleftrightarrow> a AND b = b"

text \<open>\<^verbatim>\<open>gateway()\<close>, \<^verbatim>\<open>orchestrator()\<close>, \<^verbatim>\<open>worker()\<close>, \<^verbatim>\<open>state()\<close> and \<^verbatim>\<open>lease()\<close>.\<close>

fun has_capability :: "capability \<Rightarrow> capabilities \<Rightarrow> bool" where
  "has_capability c (Capabilities a) \<longleftrightarrow> 0 < a AND capability_bit c"

text \<open>\<^verbatim>\<open>set_gateway()\<close> and the other setters.\<close>

fun set_capability :: "capability \<Rightarrow> capabilities \<Rightarrow> capabilities" where
  "set_capability c (Capabilities a) = Capabilities (a OR capability_bit c)"

lemma capability_bit_eq: "capability_bit c = push_bit (case c of Gateway \<Rightarrow> 0
    | SessionOrchestrator \<Rightarrow> 1 | CapWorker \<Rightarrow> 2 | State \<Rightarrow> 3 | Lease \<Rightarrow> 4) 1"
  by (cases c) simp_all

lemma includes_refl [simp]: "cap_includes a a"
  by (cases a) simp

lemma includes_trans: "cap_includes a b \<Longrightarrow> cap_includes b c \<Longrightarrow> cap_includes a c"
  by (cases a; cases b; cases c) (metis cap_includes.simps and.assoc)

lemma includes_all [simp]: "cap_includes capabilities_all c"
  by (cases c) (simp add: capabilities_all_def)

lemma includes_default [simp]: "cap_includes c capabilities_default"
  by (cases c) (simp add: capabilities_default_def)

lemma capability_bit_pos: "0 < capability_bit c"
  by (cases c) simp_all

lemma and_bit: "a AND capability_bit c = 0 \<or> a AND capability_bit c = capability_bit c"
proof -
  obtain n where n: "capability_bit c = push_bit n 1" using capability_bit_eq by blast
  show ?thesis
    by (cases "bit a n") (auto simp: n intro!: bit_word_eqI simp: bit_simps)
qed

text \<open>A capability is included exactly when its accessor answers true.\<close>

lemma includes_from: "cap_includes a (capabilities_from c) \<longleftrightarrow> has_capability c a"
proof (cases a)
  case (Capabilities w)
  then show ?thesis
    using and_bit [of w c] capability_bit_pos [of c] by (auto simp: capabilities_from_def)
qed

lemma has_set_capability: "has_capability d (set_capability c a) \<longleftrightarrow> d = c \<or> has_capability d a"
proof (cases a)
  case (Capabilities w)
  have "(w OR capability_bit c) AND capability_bit d =
      (w AND capability_bit d) OR (capability_bit c AND capability_bit d)"
    by (rule bit_word_eqI) (auto simp: bit_simps)
  moreover have "capability_bit c AND capability_bit d = (if c = d then capability_bit c else 0)"
    by (cases c; cases d) simp_all
  ultimately show ?thesis
    using and_bit [of w d] capability_bit_pos [of d]
    by (auto simp: Capabilities)
qed

end
