(* ===== verification/Protocol.thy ===== *)
theory Protocol
  imports Hitl Catalog Spec Nodes
begin

text \<open>
  The messages the session components exchange: the requests a node body makes, the replay log
  entries, the result and response of a frame run (\<^verbatim>\<open>session/protocol.rs\<close>,
  \<^verbatim>\<open>session/run_log.rs\<close>), job states (\<^verbatim>\<open>job/mod.rs\<close>), the session journal entries and the
  public and internal session events.
\<close>

type_synonym graph_id = string
type_synonym graph_node_id = string
type_synonym node_kind_id = string
type_synonym expert_id = string
type_synonym tool_name = string
type_synonym worker_node = node_id

type_synonym timestamp = nat

datatype log_id = SessionLogId ID

text \<open>A graph reference is the catalogue reference of the published graph.\<close>

type_synonym graph_ref = catalog_item_ref

record request_ask_expert =
  ask_task :: string
  ask_expert_id :: expert_id

record request_tool_call =
  call_name :: tool_name
  call_parameters :: "value"

section \<open>Replay log entries and run results\<close>

datatype run_log_content =
    ConsultExpertsLog "request_ask_expert list"
  | CallToolsLog "request_tool_call list"
  | GraphLog graph_id
  | HitlLog hitl

record run_log =
  log_index :: u32
  log_content :: run_log_content
  log_value :: "value option"

record branch =
  br_start :: graph_node_id
  br_overrides :: "(channel_name, value) hash_map"

datatype frame_result =
    RequestHitl hitl
  | ConsultExperts "request_ask_expert list"
  | CallTools "request_tool_call list"
  | ExecuteGraph graph_id
  | Continue
  | GoTo graph_node_id
  | Fork "branch list" graph_node_id
  | Completed
  | Failed string

record frame_response =
  resp_frame_id :: frame_id
  resp_updates :: "channel_update list"
  resp_new_logs :: "run_log list"
  resp_result :: frame_result

section \<open>Job states\<close>

datatype job_id = JobId ID

datatype worker_error =
    NoJobExecutorFound string
  | NoJobFound job_id
  | Panicked string
  | ExecutionError error
  | NoWorkerAvailable
  | ProbingTimeOut
  | AckTimeOut
  | ScheduledError string
  | RpcError string
  | SerdeError string

record job_instance =
  ji_id :: job_id
  ji_name :: string
  ji_args :: "value"

datatype 'r job_state =
    Unknown
  | PendingScheduling job_instance worker_node
  | PendingAck worker_node
  | Probing worker_node
  | Scheduled worker_node
  | Running worker_node
  | JobCompleted 'r
  | JobFailed worker_error

fun job_deserialize ::
  "(value \<Rightarrow> string + 'r) \<Rightarrow> value job_state \<Rightarrow> worker_error + 'r job_state" where
  "job_deserialize from_value Unknown = Inr Unknown"
| "job_deserialize from_value (PendingScheduling i w) = Inr (PendingScheduling i w)"
| "job_deserialize from_value (PendingAck w) = Inr (PendingAck w)"
| "job_deserialize from_value (Probing w) = Inr (Probing w)"
| "job_deserialize from_value (Scheduled w) = Inr (Scheduled w)"
| "job_deserialize from_value (Running w) = Inr (Running w)"
| "job_deserialize from_value (JobCompleted v) =
     (case from_value v of Inl e \<Rightarrow> Inl (SerdeError e) | Inr r \<Rightarrow> Inr (JobCompleted r))"
| "job_deserialize from_value (JobFailed e) = Inr (JobFailed e)"

fun has_terminated :: "'r job_state \<Rightarrow> bool" where
  "has_terminated (JobCompleted _) = True"
| "has_terminated (JobFailed _) = True"
| "has_terminated _ = False"

fun is_probing :: "'r job_state \<Rightarrow> bool" where
  "is_probing (Probing _) = True"
| "is_probing _ = False"

fun is_pending_ack :: "'r job_state \<Rightarrow> bool" where
  "is_pending_ack (PendingAck _) = True"
| "is_pending_ack _ = False"

section \<open>Sessions, the journal and events\<close>

datatype session_status = SessionPending | Archived | Ongoing | SessionFailed string

record session =
  s_id :: session_id
  s_root_frame :: "frame_id option"
  s_status :: session_status
  s_created_at :: timestamp
  s_last_updated_at :: timestamp

definition session_new :: "timestamp \<Rightarrow> timestamp \<Rightarrow> session_id \<Rightarrow> session" where
  "session_new now1 now2 sid = \<lparr>s_id = sid, s_root_frame = None, s_status = SessionPending,
     s_created_at = now1, s_last_updated_at = now2\<rparr>"

datatype session_log_content =
    Plain string
  | ToolLog string "value" "value"
  | AgentLog string "value"

record session_log =
  sl_id :: log_id
  sl_session :: session_id
  sl_content :: session_log_content
  sl_created_at :: timestamp
  sl_last_updated_at :: timestamp

datatype session_event =
    HitlEvent hitl_event
  | LogCreated session_log
  | LogUpdated session_log
  | SessionStatusUpdated session_id session_status

fun hitl_event_session :: "hitl_event \<Rightarrow> session_id" where
  "hitl_event_session (HitlRequested sid _ _) = sid"
| "hitl_event_session (HitlAnswered sid _ _) = sid"

fun event_session_id :: "session_event \<Rightarrow> session_id" where
  "event_session_id (HitlEvent e) = hitl_event_session e"
| "event_session_id (LogCreated l) = sl_session l"
| "event_session_id (LogUpdated l) = sl_session l"
| "event_session_id (SessionStatusUpdated sid _) = sid"

definition session_topic :: string where
  "session_topic = ''/marie/events/sessions''"

definition session_scope_topic :: "session_id \<Rightarrow> string" where
  "session_scope_topic sid = ''/marie/events/sessions/'' @ session_id_display sid"

fun log_id_display :: "log_id \<Rightarrow> string" where
  "log_id_display (SessionLogId i) = id_display i"

text \<open>The message identifier of an answer is the session, not the request.\<close>

fun event_id :: "session_event \<Rightarrow> string" where
  "event_id (HitlEvent (HitlRequested sid hid h)) = hitl_id_display hid"
| "event_id (HitlEvent (HitlAnswered sid hid a)) = session_id_display sid"
| "event_id (LogCreated l) = log_id_display (sl_id l)"
| "event_id (LogUpdated l) = log_id_display (sl_id l)"
| "event_id (SessionStatusUpdated sid _) = session_id_display sid"

definition event_topics :: "session_event \<Rightarrow> string list" where
  "event_topics e = [session_topic, session_scope_topic (event_session_id e)]"

datatype checkpoint_event =
    SessionCreated session_id
  | HitlAnsweredEv session_id hitl_id answers
  | FrameCreated session_id frame_id
  | FrameRunJobStateUpdate session_id frame_id "frame_response job_state"
  | FrameReady session_id frame_id
  | FrameRunTerminated session_id frame_id
  | ChildFrameTerminated session_id frame_id frame_id
  | FrameTerminated session_id frame_id

fun checkpoint_session_id :: "checkpoint_event \<Rightarrow> session_id" where
  "checkpoint_session_id (SessionCreated sid) = sid"
| "checkpoint_session_id (HitlAnsweredEv sid _ _) = sid"
| "checkpoint_session_id (FrameCreated sid _) = sid"
| "checkpoint_session_id (FrameRunJobStateUpdate sid _ _) = sid"
| "checkpoint_session_id (FrameReady sid _) = sid"
| "checkpoint_session_id (FrameRunTerminated sid _) = sid"
| "checkpoint_session_id (ChildFrameTerminated sid _ _) = sid"
| "checkpoint_session_id (FrameTerminated sid _) = sid"

end
