(* ===== verification/Frames.thy ===== *)
theory Frames
  imports Protocol
begin

text \<open>
  Frames of a session (\<^verbatim>\<open>marie-core/src/session/frames\<close>): kinds, status, policies, the node
  record, the in-memory store and the cached container with its dirty flag. The tree that links
  the nodes is the theory \<^verbatim>\<open>Frame_Tree\<close>.
\<close>

datatype tool_call_id = ToolCallId ID

datatype shell_mode =
    LoopModel string string "string list"
  | ShellExpert expert_id

datatype new_session_args =
    ShellSession shell_mode
  | GraphSession graph_id "(channel_name, value) hash_map"

section \<open>Kinds, specification references, status and policies\<close>

datatype frame_kind =
    Void
  | Shell shell_mode
  | HitlFrame hitl_id
  | ExpertConsultation
  | ToolCall tool_call_id tool_name "value"
  | Graph graph_ref
  | GraphNode graph_ref graph_node_id
  | GraphThread graph_ref
  | GraphSpan graph_ref graph_node_id

datatype frame_spec_ref =
    GraphSpec graph_ref
  | ToolAggregatorSpec
  | ToolCallSpec
  | ExpertSpec
  | ExpertAggregatorSpec
  | HitlSpec

fun into_graph_ref :: "frame_spec_ref \<Rightarrow> ('e, graph_ref) outcome" where
  "into_graph_ref (GraphSpec r) = Ok r"
| "into_graph_ref _ = Panic ''not a graph ref''"

datatype frame_status =
    FPending
  | FRunCompleted frame_response
  | FRunFailed string
  | FFailed string
  | FCompleted
  | FReady
  | FRunning "value job_state"
  | FRunExhausted
  | FWaitingChildren

fun status_terminated :: "frame_status \<Rightarrow> bool" where
  "status_terminated (FFailed _) = True"
| "status_terminated FCompleted = True"
| "status_terminated _ = False"

fun status_completed :: "frame_status \<Rightarrow> bool" where
  "status_completed FCompleted = True"
| "status_completed _ = False"

fun status_failed :: "frame_status \<Rightarrow> bool" where
  "status_failed (FFailed _) = True"
| "status_failed _ = False"

datatype child_failure_policy = FailIfAtLeastHasFailed nat | DontFail
datatype resume_policy = Sequential | HitlResume | FanIn
datatype reduce_policy = DontReduce | Reduce
datatype on_resume_policy = ResumeRunFrame | MarkComplete
datatype on_start_policy =
    StartRunFrame
  | AppendGraphThread graph_ref graph_node_id
  | AppendGraphSpan graph_ref graph_node_id "branch list"
  | AppendGraphNode graph_ref graph_node_id

record frame_policy =
  on_child_failed :: child_failure_policy
  resume_pol :: resume_policy
  reduce_pol :: reduce_policy
  on_resume_pol :: on_resume_policy
  on_start_pol :: on_start_policy

definition policy_default :: frame_policy where
  "policy_default = \<lparr>on_child_failed = DontFail, resume_pol = Sequential, reduce_pol = DontReduce,
     on_resume_pol = ResumeRunFrame, on_start_pol = StartRunFrame\<rparr>"

section \<open>Nodes\<close>

record snapshot_ref =
  sr_session :: session_id
  sr_frame :: frame_id
  sr_superstep :: u32

record new_frame_node_args =
  na_session :: session_id
  na_spec_ref :: frame_spec_ref
  na_data :: frame_kind
  na_inherited :: channels
  na_forked_from :: "snapshot_ref option"
  na_policy :: frame_policy
  na_barrier :: bool
  na_superstep :: u32

text \<open>The builder with its defaults.\<close>

definition new_frame_args :: "session_id \<Rightarrow> frame_spec_ref \<Rightarrow> frame_kind \<Rightarrow> new_frame_node_args" where
  "new_frame_args sid sp k = \<lparr>na_session = sid, na_spec_ref = sp, na_data = k, na_inherited = [],
     na_forked_from = None, na_policy = policy_default, na_barrier = False, na_superstep = 0\<rparr>"

record frame_node =
  fn_session :: session_id
  fn_id :: frame_id
  fn_status :: frame_status
  fn_policy :: frame_policy
  fn_superstep :: u32
  fn_barrier :: bool
  fn_forked_from :: "snapshot_ref option"
  fn_inherited :: channels
  fn_spec_ref :: frame_spec_ref
  fn_data :: frame_kind
  fn_logs :: "run_log list"
  fn_hitl_aliases :: "(u32, hitl_id) hash_map"
  fn_is_root :: bool
  fn_parent :: "frame_id option"
  fn_next_sibling :: "frame_id option"
  fn_prev_sibling :: "frame_id option"
  fn_children :: "frame_id list"

definition frame_node_new :: "frame_id \<Rightarrow> new_frame_node_args \<Rightarrow> frame_node" where
  "frame_node_new i args =
     \<lparr>fn_session = na_session args, fn_id = i, fn_status = FPending, fn_policy = na_policy args,
      fn_superstep = na_superstep args, fn_barrier = na_barrier args,
      fn_forked_from = na_forked_from args, fn_inherited = na_inherited args,
      fn_spec_ref = na_spec_ref args, fn_data = na_data args, fn_logs = [], fn_hitl_aliases = [],
      fn_is_root = False, fn_parent = None, fn_next_sibling = None, fn_prev_sibling = None,
      fn_children = []\<rparr>"

definition node_is_waiting_children :: "frame_node \<Rightarrow> bool" where
  "node_is_waiting_children n \<longleftrightarrow> fn_status n = FWaitingChildren"

definition node_has_terminated :: "frame_node \<Rightarrow> bool" where
  "node_has_terminated n \<longleftrightarrow> status_terminated (fn_status n)"

definition node_bind_hitl_to_log :: "u32 \<Rightarrow> hitl_id \<Rightarrow> frame_node \<Rightarrow> frame_node" where
  "node_bind_hitl_to_log index hid n = n\<lparr>fn_hitl_aliases := hm_insert index hid (fn_hitl_aliases n)\<rparr>"

definition node_hitl_id_of_log :: "frame_node \<Rightarrow> u32 \<Rightarrow> hitl_id option" where
  "node_hitl_id_of_log n index = hm_get (fn_hitl_aliases n) index"

definition node_log_index_of_hitl :: "frame_node \<Rightarrow> hitl_id \<Rightarrow> u32 option" where
  "node_log_index_of_hitl n hid =
     map_option fst (List.find (\<lambda>e. snd e = hid) (fn_hitl_aliases n))"

section \<open>The in-memory store\<close>

type_synonym frame_store = "(session_id \<times> frame_id, frame_node) hash_map"

definition frame_not_found :: "session_id \<Rightarrow> frame_id \<Rightarrow> error" where
  "frame_not_found sid fid = err_from (Std_Error (''frame '' @ frame_id_display fid @
     '' introuvable pour la session '' @ session_id_display sid) None)"

definition no_root_frame :: "session_id \<Rightarrow> error" where
  "no_root_frame sid = err_from (Std_Error (''la session '' @ session_id_display sid @
     '' n'a pas encore de frame racine'') None)"

definition get_root_frame_id :: "frame_store \<Rightarrow> session_id \<Rightarrow> error + frame_id" where
  "get_root_frame_id st sid =
     (case List.find (\<lambda>f. fn_session f = sid \<and> fn_is_root f) (hm_values st) of
        None \<Rightarrow> Inl (no_root_frame sid)
      | Some f \<Rightarrow> Inr (fn_id f))"

definition set_root_frame_id ::
  "session_id \<Rightarrow> frame_id \<Rightarrow> frame_store \<Rightarrow> error + (frame_id \<times> frame_store)" where
  "set_root_frame_id sid fid st =
     (if \<not> hm_contains st (sid, fid) then Inl (frame_not_found sid fid)
      else Inr (fid, hm_map (\<lambda>key f. if fst key = sid then f\<lparr>fn_is_root := (snd key = fid)\<rparr> else f) st))"

definition store_get_frame :: "frame_store \<Rightarrow> session_id \<Rightarrow> frame_id \<Rightarrow> error + frame_node" where
  "store_get_frame st sid fid = (case hm_get st (sid, fid) of
      None \<Rightarrow> Inl (frame_not_found sid fid)
    | Some f \<Rightarrow> Inr f)"

definition bind_hitl_to_frame ::
  "session_id \<Rightarrow> frame_id \<Rightarrow> hitl_id \<Rightarrow> frame_store \<Rightarrow> error + frame_store" where
  "bind_hitl_to_frame sid fid hid st = (case hm_get st (sid, fid) of
      None \<Rightarrow> Inl (frame_not_found sid fid)
    | Some f \<Rightarrow> Inr (hm_insert (sid, fid) (f\<lparr>fn_data := HitlFrame hid\<rparr>) st))"

definition get_frame_id_by_hitl_id :: "frame_store \<Rightarrow> session_id \<Rightarrow> hitl_id \<Rightarrow> frame_id option" where
  "get_frame_id_by_hitl_id st sid hid =
     map_option fn_id
       (List.find (\<lambda>f. fn_session f = sid \<and> fn_data f = HitlFrame hid) (hm_values st))"

definition upsert_frame :: "frame_node \<Rightarrow> frame_store \<Rightarrow> frame_store" where
  "upsert_frame f st = hm_insert (fn_session f, fn_id f) f st"

definition delete_frame ::
  "session_id \<Rightarrow> frame_id \<Rightarrow> frame_store \<Rightarrow> error + (frame_node \<times> frame_store)" where
  "delete_frame sid fid st = (case hm_get st (sid, fid) of
      None \<Rightarrow> Inl (frame_not_found sid fid)
    | Some f \<Rightarrow> Inr (f, hm_remove (sid, fid) st))"

section \<open>The container\<close>

record frame_container =
  ct_node :: frame_node
  ct_dirty :: bool
  ct_deleted :: bool

definition frame_container_new ::
  "frame_store \<Rightarrow> session_id \<Rightarrow> frame_id \<Rightarrow> error + frame_container" where
  "frame_container_new st sid fid =
     map_sum id (\<lambda>n. \<lparr>ct_node = n, ct_dirty = False, ct_deleted = False\<rparr>) (store_get_frame st sid fid)"

definition from_new_node :: "frame_node \<Rightarrow> frame_container" where
  "from_new_node n = \<lparr>ct_node = n, ct_dirty = True, ct_deleted = False\<rparr>"

text \<open>A mutable access through the lock: the flag goes up.\<close>

definition container_update :: "(frame_node \<Rightarrow> frame_node) \<Rightarrow> frame_container \<Rightarrow> frame_container" where
  "container_update f c = c\<lparr>ct_node := f (ct_node c), ct_dirty := True\<rparr>"

definition container_flush :: "frame_container \<Rightarrow> frame_store \<Rightarrow> frame_container \<times> frame_store" where
  "container_flush c st =
     (if ct_dirty c then (c\<lparr>ct_dirty := False\<rparr>, upsert_frame (ct_node c) st) else (c, st))"

definition container_delete ::
  "frame_container \<Rightarrow> frame_store \<Rightarrow> error + (frame_container \<times> frame_store)" where
  "container_delete c st =
     (case delete_frame (fn_session (ct_node c)) (fn_id (ct_node c)) st of
        Inl e \<Rightarrow> Inl e
      | Inr (_, st') \<Rightarrow> Inr (c\<lparr>ct_dirty := False\<rparr>, st'))"

definition container_drop :: "frame_container \<Rightarrow> frame_store \<Rightarrow> frame_store" where
  "container_drop c st = (if ct_dirty c then upsert_frame (ct_node c) st else st)"

section \<open>Facts on the store\<close>

text \<open>The delete that ignores the removed row, for the interface.\<close>

definition drop_frame :: "session_id \<times> frame_id \<Rightarrow> frame_store \<Rightarrow> frame_store" where
  "drop_frame k st = hm_remove k st"

interpretation frames: keyed_store "\<lambda>f. (fn_session f, fn_id f)" "\<lambda>st k. hm_get st k"
  upsert_frame drop_frame
  by unfold_locales (simp_all add: upsert_frame_def drop_frame_def)

lemma delete_frame_eq:
  "delete_frame sid fid st = Inr (f, st') \<longleftrightarrow>
     hm_get st (sid, fid) = Some f \<and> st' = drop_frame (sid, fid) st"
  by (auto simp: delete_frame_def drop_frame_def split: option.splits)

definition frame_store_wf :: "frame_store \<Rightarrow> bool" where
  "frame_store_wf st \<longleftrightarrow> hm_wf st \<and> (\<forall>k f. hm_get st k = Some f \<longrightarrow> k = (fn_session f, fn_id f))"

lemma frame_store_wf_upsert: "frame_store_wf st \<Longrightarrow> frame_store_wf (upsert_frame f st)"
  by (auto simp: frame_store_wf_def upsert_frame_def)

lemma frame_store_values:
  "frame_store_wf st \<Longrightarrow> f \<in> set (hm_values st) \<longleftrightarrow> hm_get st (fn_session f, fn_id f) = Some f"
proof -
  assume wf: "frame_store_wf st"
  show ?thesis
  proof
    assume "f \<in> set (hm_values st)"
    then obtain k where "(k, f) \<in> set st" by auto
    then have "hm_get st k = Some f" using wf hm_get_in_set [of st k f] by (simp add: frame_store_wf_def)
    moreover from this have "k = (fn_session f, fn_id f)" using wf unfolding frame_store_wf_def by blast
    ultimately show "hm_get st (fn_session f, fn_id f) = Some f" by simp
  next
    assume "hm_get st (fn_session f, fn_id f) = Some f"
    then show "f \<in> set (hm_values st)" by (rule hm_get_values)
  qed
qed

text \<open>The roots of a session.\<close>

definition roots_of :: "frame_store \<Rightarrow> session_id \<Rightarrow> frame_id set" where
  "roots_of st sid = {fid. \<exists>f. hm_get st (sid, fid) = Some f \<and> fn_is_root f}"

lemma get_root_in_roots:
  assumes "frame_store_wf st" and "get_root_frame_id st sid = Inr fid"
  shows "fid \<in> roots_of st sid"
proof -
  obtain f where f: "List.find (\<lambda>f. fn_session f = sid \<and> fn_is_root f) (hm_values st) = Some f"
    "fid = fn_id f"
    using assms(2) by (auto simp: get_root_frame_id_def split: option.splits)
  then have "f \<in> set (hm_values st)" "fn_session f = sid" "fn_is_root f"
    unfolding find_Some_iff by (metis nth_mem)+
  then show ?thesis using frame_store_values [OF assms(1)] f(2) by (auto simp: roots_of_def)
qed

lemma get_root_none:
  assumes "get_root_frame_id st sid = Inl e" and "frame_store_wf st"
  shows "roots_of st sid = {}"
proof -
  have none: "\<not> (fn_session f = sid \<and> fn_is_root f)" if "f \<in> set (hm_values st)" for f
    using assms(1) that by (auto simp: get_root_frame_id_def find_None_iff split: option.splits)
  have "\<not> fn_is_root f" if "hm_get st (sid, fid) = Some f" for fid f
    using none [OF hm_get_values [OF that]] assms(2) that by (auto simp: frame_store_wf_def)
  then show ?thesis by (auto simp: roots_of_def)
qed

lemma roots_of_set_root:
  "set_root_frame_id sid fid st = Inr (r, st') \<Longrightarrow>
     roots_of st' sid = {fid} \<and> (sid' \<noteq> sid \<longrightarrow> roots_of st' sid' = roots_of st sid')"
  by (auto simp: set_root_frame_id_def hm_contains_def roots_of_def split: if_splits)

lemma frame_store_wf_set_root:
  assumes "frame_store_wf st" and "set_root_frame_id sid fid st = Inr (r, st')"
  shows "frame_store_wf st'"
proof -
  let ?f = "\<lambda>key f. if fst key = sid then f\<lparr>fn_is_root := (snd key = fid)\<rparr> else f"
  have st': "st' = hm_map ?f st"
    using assms(2) by (auto simp: set_root_frame_id_def split: if_splits)
  have "k = (fn_session g, fn_id g)" if get: "hm_get st' k = Some g" for k g
  proof -
    obtain f where f: "hm_get st k = Some f" "g = ?f k f" using get by (auto simp: st')
    then have "k = (fn_session f, fn_id f)" using assms(1) unfolding frame_store_wf_def by blast
    then show ?thesis using f(2) by (simp split: if_splits)
  qed
  moreover have "hm_wf st'" using assms(1) by (simp add: frame_store_wf_def st')
  ultimately show ?thesis unfolding frame_store_wf_def by blast
qed

section \<open>Properties\<close>

text \<open>
  Designating a root succeeds exactly for a frame that is stored, leaves that frame as the
  one root of its session, which is then the root the store returns, and changes no other
  session's roots.
\<close>

theorem set_root_unique:
  assumes "frame_store_wf st"
  shows "((\<exists>r. set_root_frame_id sid fid st = Inr r) \<longleftrightarrow> hm_get st (sid, fid) \<noteq> None) \<and>
    (\<forall>r st'. set_root_frame_id sid fid st = Inr (r, st') \<longrightarrow>
      r = fid \<and> roots_of st' sid = {fid} \<and> get_root_frame_id st' sid = Inr fid \<and>
      (\<forall>sid'. sid' \<noteq> sid \<longrightarrow> roots_of st' sid' = roots_of st sid'))"
proof (intro conjI allI impI)
  show "(\<exists>r. set_root_frame_id sid fid st = Inr r) \<longleftrightarrow> hm_get st (sid, fid) \<noteq> None"
    by (auto simp: set_root_frame_id_def hm_contains_def)
next
  fix r st'
  assume ok: "set_root_frame_id sid fid st = Inr (r, st')"
  show "r = fid" using ok by (auto simp: set_root_frame_id_def split: if_splits)
  show roots: "roots_of st' sid = {fid}" using roots_of_set_root [OF ok] by blast
  have wf: "frame_store_wf st'" by (rule frame_store_wf_set_root [OF assms ok])
  show "get_root_frame_id st' sid = Inr fid"
    using get_root_none [OF _ wf, of sid] get_root_in_roots [OF wf, of sid] roots
    by (cases "get_root_frame_id st' sid") auto
next
  fix r st' sid'
  assume "set_root_frame_id sid fid st = Inr (r, st')" and "sid' \<noteq> sid"
  then show "roots_of st' sid' = roots_of st sid'" using roots_of_set_root by blast
qed

definition example_frames :: frame_store where
  "example_frames =
     (let sid = SessionId (ID 1 1);
          args = new_frame_args sid ExpertSpec Void
      in upsert_frame (frame_node_new (FrameId (ID 0 2)) args\<lparr>fn_is_root := True\<rparr>)
           (upsert_frame (frame_node_new (FrameId (ID 0 3)) args) []))"

lemma set_root_unique_witness:
  "\<exists>st'. set_root_frame_id (SessionId (ID 1 1)) (FrameId (ID 0 3)) example_frames =
       Inr (FrameId (ID 0 3), st') \<and>
     get_root_frame_id st' (SessionId (ID 1 1)) = Inr (FrameId (ID 0 3))"
proof -
  have wf: "frame_store_wf example_frames"
    by (simp add: example_frames_def Let_def frame_store_wf_upsert frame_store_wf_def [of "[]"])
  have "hm_get example_frames (SessionId (ID 1 1), FrameId (ID 0 3)) \<noteq> None"
    by (simp add: example_frames_def Let_def frames.get_upsert frame_node_new_def new_frame_args_def)
  then show ?thesis
    using set_root_unique [OF wf, of "SessionId (ID 1 1)" "FrameId (ID 0 3)"]
    by (metis surj_pair)
qed

end
