(* ===== verification/Run_Log.thy ===== *)
theory Run_Log
  imports Protocol
begin

text \<open>
  The deterministic replay log of a node run (\<^verbatim>\<open>marie-core/src/session/run_log.rs\<close>) and the
  four macros node bodies call it through (\<^verbatim>\<open>graph/run_log_macros.rs\<close>): each reserves the next
  entry, returns the value when the entry is resolved, and otherwise leaves the body with the
  request as its result.
\<close>

section \<open>The log\<close>

record run_logs =
  entries :: "run_log list"
  persisted_len :: nat
  cursor :: nat

definition run_logs_new :: "run_log list \<Rightarrow> run_logs" where
  "run_logs_new persisted = \<lparr>entries = persisted, persisted_len = length persisted, cursor = 0\<rparr>"

definition reserve_log :: "run_log_content \<Rightarrow> run_logs \<Rightarrow> nat \<times> run_logs" where
  "reserve_log content l =
     (let index = cursor l; l = l\<lparr>cursor := cursor l + 1\<rparr> in
      if length (entries l) \<le> index
      then (index, l\<lparr>entries := entries l @
             [\<lparr>log_index = word_of_nat index, log_content = content, log_value = None\<rparr>]\<rparr>)
      else (index, l))"

definition log_check :: "nat \<Rightarrow> run_logs \<Rightarrow> (error, value option) outcome" where
  "log_check r l = (if r < length (entries l) then Ok (log_value (entries l ! r))
     else Panic ''index out of bounds'')"

definition into_new_logs :: "run_logs \<Rightarrow> run_log list" where
  "into_new_logs l = drop (persisted_len l) (entries l)"

section \<open>The macros\<close>

text \<open>What a macro call does to the body: a value to go on with, or the result to return.\<close>

datatype 'a yield = Resolved 'a | Return frame_result

text \<open>
  \<^verbatim>\<open>from_value\<close> of the answer types is a parameter; \<^verbatim>\<open>expect\<close> turns its failure into a panic.
  An answer array longer than the request is read from its start.
\<close>

fun expect_each ::
  "(value \<Rightarrow> error + 'a) \<Rightarrow> string \<Rightarrow> string \<Rightarrow> 'r list \<Rightarrow> value list \<Rightarrow> (error, 'a list) outcome" where
  "expect_each from_value short bad [] vs = Ok []"
| "expect_each from_value short bad (r # rs) [] = Panic short"
| "expect_each from_value short bad (r # rs) (v # vs) = (case from_value v of
      Inl e \<Rightarrow> Panic bad
    | Inr a \<Rightarrow> (case expect_each from_value short bad rs vs of
        Ok as \<Rightarrow> Ok (a # as) | Err e \<Rightarrow> Err e | Panic m \<Rightarrow> Panic m))"

definition ask_experts ::
  "(value \<Rightarrow> error + 'a) \<Rightarrow> request_ask_expert list \<Rightarrow> run_logs \<Rightarrow> (error, 'a list yield) outcome \<times> run_logs"
  where "ask_experts from_value requests l =
     (let (r, l) = reserve_log (ConsultExpertsLog requests) l in
      case log_check r l of
        Ok (Some (VArray vs)) \<Rightarrow>
          (case expect_each from_value ''RunLogs: arite resolue insuffisante pour ConsultExpertsLog''
                  ''RunLogs: reponse d'expert non deserialisable'' requests vs of
             Ok as \<Rightarrow> Ok (Resolved as) | Err e \<Rightarrow> Err e | Panic m \<Rightarrow> Panic m, l)
      | Ok (Some _) \<Rightarrow> (Panic ''RunLogs: ConsultExpertsLog resolu n'est pas un tableau'', l)
      | Ok None \<Rightarrow> (Ok (Return (ConsultExperts requests)), l)
      | Err e \<Rightarrow> (Err e, l)
      | Panic m \<Rightarrow> (Panic m, l))"

definition call_tools ::
  "(value \<Rightarrow> error + 'a) \<Rightarrow> request_tool_call list \<Rightarrow> run_logs \<Rightarrow> (error, 'a list yield) outcome \<times> run_logs"
  where "call_tools from_value requests l =
     (let (r, l) = reserve_log (CallToolsLog requests) l in
      case log_check r l of
        Ok (Some (VArray vs)) \<Rightarrow>
          (case expect_each from_value ''RunLogs: arite resolue insuffisante pour CallToolsLog''
                  ''RunLogs: resultat d'outil non deserialisable'' requests vs of
             Ok as \<Rightarrow> Ok (Resolved as) | Err e \<Rightarrow> Err e | Panic m \<Rightarrow> Panic m, l)
      | Ok (Some _) \<Rightarrow> (Panic ''RunLogs: CallToolsLog resolu n'est pas un tableau'', l)
      | Ok None \<Rightarrow> (Ok (Return (CallTools requests)), l)
      | Err e \<Rightarrow> (Err e, l)
      | Panic m \<Rightarrow> (Panic m, l))"

definition hitl_call ::
  "(value \<Rightarrow> error + 'a) \<Rightarrow> hitl \<Rightarrow> run_logs \<Rightarrow> (error, 'a yield) outcome \<times> run_logs" where
  "hitl_call from_value req l =
     (let (r, l) = reserve_log (HitlLog req) l in
      case log_check r l of
        Ok (Some v) \<Rightarrow> (case from_value v of
            Inl e \<Rightarrow> Panic ''RunLogs: reponse HITL non deserialisable'' | Inr a \<Rightarrow> Ok (Resolved a), l)
      | Ok None \<Rightarrow> (Ok (Return (RequestHitl req)), l)
      | Err e \<Rightarrow> (Err e, l)
      | Panic m \<Rightarrow> (Panic m, l))"

definition graph_call ::
  "graph_id \<Rightarrow> run_logs \<Rightarrow> (error, (channel_name, value) hash_map yield) outcome \<times> run_logs" where
  "graph_call gid l =
     (let (r, l) = reserve_log (GraphLog gid) l in
      case log_check r l of
        Ok (Some (VObject kvs)) \<Rightarrow> (Ok (Resolved (hm_from kvs)), l)
      | Ok (Some _) \<Rightarrow> (Panic ''RunLogs: sortie de sous-graphe non deserialisable'', l)
      | Ok None \<Rightarrow> (Ok (Return (ExecuteGraph gid)), l)
      | Err e \<Rightarrow> (Err e, l)
      | Panic m \<Rightarrow> (Panic m, l))"

text \<open>The common shape of the four macros.\<close>

fun yield_result :: "run_log_content \<Rightarrow> frame_result" where
  "yield_result (ConsultExpertsLog rs) = ConsultExperts rs"
| "yield_result (CallToolsLog rs) = CallTools rs"
| "yield_result (GraphLog g) = ExecuteGraph g"
| "yield_result (HitlLog h) = RequestHitl h"

definition log_call :: "run_log_content \<Rightarrow> run_logs \<Rightarrow> (error, value yield) outcome \<times> run_logs" where
  "log_call content l =
     (let (r, l) = reserve_log content l in
      case log_check r l of
        Ok (Some v) \<Rightarrow> (Ok (Resolved v), l)
      | Ok None \<Rightarrow> (Ok (Return (yield_result content)), l)
      | Err e \<Rightarrow> (Err e, l)
      | Panic m \<Rightarrow> (Panic m, l))"

text \<open>
  A node body that reaches the outside only through the macros: it ends with a result, or makes
  a call and goes on with the value the call returns.
\<close>

datatype node_body = Done frame_result | Call run_log_content "value \<Rightarrow> node_body"

primrec run_body :: "node_body \<Rightarrow> run_logs \<Rightarrow> (error, frame_result) outcome \<times> run_logs" where
  "run_body (Done r) = (\<lambda>l. (Ok r, l))"
| "run_body (Call c k) = (\<lambda>l. case log_call c l of
      (Ok (Resolved v), l') \<Rightarrow> run_body (k v) l'
    | (Ok (Return r), l') \<Rightarrow> (Ok r, l')
    | (Err e, l') \<Rightarrow> (Err e, l')
    | (Panic m, l') \<Rightarrow> (Panic m, l'))"

text \<open>One run: the result, and the entries it adds to the frame's persisted log.\<close>

definition run_once :: "node_body \<Rightarrow> run_log list \<Rightarrow> (error, frame_result) outcome \<times> run_log list" where
  "run_once body persisted =
     (let (r, l) = run_body body (run_logs_new persisted) in (r, into_new_logs l))"

section \<open>What a body asks when its calls are answered\<close>

text \<open>
  \<open>answer i c\<close> is the value the session resolves call number \<open>i\<close> with; \<open>calls\<close> are the requests
  the body then makes, in order, and \<open>final\<close> is its result.
\<close>

primrec calls :: "(nat \<Rightarrow> run_log_content \<Rightarrow> value) \<Rightarrow> node_body \<Rightarrow> nat \<Rightarrow> run_log_content list" where
  "calls answer (Done r) = (\<lambda>i. [])"
| "calls answer (Call c k) = (\<lambda>i. c # calls answer (k (answer i c)) (Suc i))"

primrec final :: "(nat \<Rightarrow> run_log_content \<Rightarrow> value) \<Rightarrow> node_body \<Rightarrow> nat \<Rightarrow> frame_result" where
  "final answer (Done r) = (\<lambda>i. r)"
| "final answer (Call c k) = (\<lambda>i. final answer (k (answer i c)) (Suc i))"

fun resolved_from ::
  "(nat \<Rightarrow> run_log_content \<Rightarrow> value) \<Rightarrow> nat \<Rightarrow> run_log_content list \<Rightarrow> run_log list" where
  "resolved_from answer i [] = []"
| "resolved_from answer i (c # cs) =
     \<lparr>log_index = word_of_nat i, log_content = c, log_value = Some (answer i c)\<rparr> #
     resolved_from answer (Suc i) cs"

definition pending_entry :: "nat \<Rightarrow> run_log_content \<Rightarrow> run_log" where
  "pending_entry i c = \<lparr>log_index = word_of_nat i, log_content = c, log_value = None\<rparr>"

section \<open>Facts\<close>

lemma reserve_new:
  "cursor l = length (entries l) \<Longrightarrow> reserve_log c l =
     (cursor l, l\<lparr>cursor := cursor l + 1, entries := entries l @ [pending_entry (cursor l) c]\<rparr>)"
  by (simp add: reserve_log_def pending_entry_def Let_def)

lemma reserve_old:
  "cursor l < length (entries l) \<Longrightarrow> reserve_log c l = (cursor l, l\<lparr>cursor := cursor l + 1\<rparr>)"
  by (simp add: reserve_log_def Let_def)

lemma log_call_new:
  "cursor l = length (entries l) \<Longrightarrow> log_call c l =
     (Ok (Return (yield_result c)),
      l\<lparr>cursor := cursor l + 1, entries := entries l @ [pending_entry (cursor l) c]\<rparr>)"
  by (simp add: log_call_def reserve_new log_check_def pending_entry_def)

lemma log_call_old:
  "cursor l < length (entries l) \<Longrightarrow> log_call c l =
     (Ok (case log_value (entries l ! cursor l) of
            Some v \<Rightarrow> Resolved v | None \<Rightarrow> Return (yield_result c)), l\<lparr>cursor := cursor l + 1\<rparr>)"
  by (simp add: log_call_def reserve_old log_check_def split: option.splits)

text \<open>Each macro is the common shape followed by the reading of the value.\<close>

lemma hitl_call_eq:
  "hitl_call from_value h l = (case log_call (HitlLog h) l of
      (Ok (Resolved v), l') \<Rightarrow> (case from_value v of
          Inl e \<Rightarrow> Panic ''RunLogs: reponse HITL non deserialisable'' | Inr a \<Rightarrow> Ok (Resolved a), l')
    | (Ok (Return r), l') \<Rightarrow> (Ok (Return r), l')
    | (Err e, l') \<Rightarrow> (Err e, l')
    | (Panic m, l') \<Rightarrow> (Panic m, l'))"
  by (simp add: hitl_call_def log_call_def Let_def split: prod.splits outcome.splits option.splits)

lemma graph_call_eq:
  "graph_call g l = (case log_call (GraphLog g) l of
      (Ok (Resolved v), l') \<Rightarrow> (case v of
          VObject kvs \<Rightarrow> Ok (Resolved (hm_from kvs))
        | _ \<Rightarrow> Panic ''RunLogs: sortie de sous-graphe non deserialisable'', l')
    | (Ok (Return r), l') \<Rightarrow> (Ok (Return r), l')
    | (Err e, l') \<Rightarrow> (Err e, l')
    | (Panic m, l') \<Rightarrow> (Panic m, l'))"
  by (simp add: graph_call_def log_call_def Let_def
      split: prod.splits outcome.splits option.splits "value.splits")

lemma expect_each_ok:
  "length rs \<le> length vs \<Longrightarrow> list_all (\<lambda>v. \<exists>a. from_value v = Inr a) vs \<Longrightarrow>
     \<exists>as. expect_each from_value short bad rs vs = Ok as \<and> length as = length rs"
  by (induction from_value short bad rs vs rule: expect_each.induct) (auto split: sum.splits)

lemma run_body_shape:
  "cursor l \<le> length (entries l) \<Longrightarrow> \<exists>r l'. run_body b l = (Ok r, l') \<and>
     persisted_len l' = persisted_len l \<and>
     (entries l' = entries l \<or>
      (\<exists>c. entries l' = entries l @ [pending_entry (length (entries l)) c] \<and> r = yield_result c))"
proof (induction b arbitrary: l)
  case (Done r)
  then show ?case by simp
next
  case (Call c k)
  show ?case
  proof (cases "cursor l = length (entries l)")
    case True
    then show ?thesis by (auto simp: log_call_new)
  next
    case False
    with Call.prems have less: "cursor l < length (entries l)" by simp
    then show ?thesis
      using Call.IH [OF rangeI, of "l\<lparr>cursor := cursor l + 1\<rparr>"]
      by (cases "log_value (entries l ! cursor l)") (fastforce simp: log_call_old)+
  qed
qed

lemma run_body_progress:
  assumes "cursor l = length pre"
    and "entries l = pre @ resolved_from answer (length pre) (take n (calls answer b (length pre)))"
  shows "run_body b l =
     (if n < length (calls answer b (length pre))
      then (Ok (yield_result (calls answer b (length pre) ! n)),
            l\<lparr>cursor := cursor l + n + 1, entries := entries l @
               [pending_entry (length pre + n) (calls answer b (length pre) ! n)]\<rparr>)
      else (Ok (final answer b (length pre)),
            l\<lparr>cursor := cursor l + length (calls answer b (length pre))\<rparr>))"
  using assms
proof (induction b arbitrary: n pre l)
  case (Done r)
  then show ?case by simp
next
  case (Call c k)
  let ?i = "length pre"
  show ?case
  proof (cases n)
    case 0
    then show ?thesis using Call.prems by (simp add: log_call_new)
  next
    case (Suc m)
    let ?e = "\<lparr>log_index = word_of_nat ?i, log_content = c, log_value = Some (answer ?i c)\<rparr>"
    let ?l = "l\<lparr>cursor := cursor l + 1\<rparr>"
    have es: "entries l = (pre @ [?e]) @ resolved_from answer (length (pre @ [?e]))
        (take m (calls answer (k (answer ?i c)) (length (pre @ [?e]))))"
      using Call.prems(2) Suc by simp
    then have "log_call c l = (Ok (Resolved (answer ?i c)), ?l)"
      using Call.prems(1) by (simp add: log_call_old nth_append)
    then have "run_body (Call c k) l = run_body (k (answer ?i c)) ?l" by simp
    moreover have "run_body (k (answer ?i c)) ?l =
      (if m < length (calls answer (k (answer ?i c)) (length (pre @ [?e])))
       then (Ok (yield_result (calls answer (k (answer ?i c)) (length (pre @ [?e])) ! m)),
             ?l\<lparr>cursor := cursor ?l + m + 1, entries := entries ?l @
                [pending_entry (length (pre @ [?e]) + m)
                  (calls answer (k (answer ?i c)) (length (pre @ [?e])) ! m)]\<rparr>)
       else (Ok (final answer (k (answer ?i c)) (length (pre @ [?e]))),
             ?l\<lparr>cursor := cursor ?l + length (calls answer (k (answer ?i c)) (length (pre @ [?e])))\<rparr>))"
      using Call.prems(1) es by (intro Call.IH) (auto simp del: append_assoc)
    ultimately show ?thesis using Suc by simp
  qed
qed

section \<open>Properties\<close>

text \<open>
  A run never fails inside the log, leaves the persisted entries as they are and adds at
  most one entry; the entry it adds is unresolved, carries its position as index, and the run
  then returned exactly the request of that entry.
\<close>

theorem run_adds_at_most_one_pending:
  "\<exists>r new. run_once b persisted = (Ok r, new) \<and>
     (new = [] \<or> (\<exists>c. new = [pending_entry (length persisted) c] \<and> r = yield_result c))"
proof -
  obtain r l' where "run_body b (run_logs_new persisted) = (Ok r, l')"
    "persisted_len l' = length persisted"
    "entries l' = persisted \<or>
      (\<exists>c. entries l' = persisted @ [pending_entry (length persisted) c] \<and> r = yield_result c)"
    using run_body_shape [of "run_logs_new persisted" b] by (auto simp: run_logs_new_def)
  then show ?thesis by (auto simp: run_once_def into_new_logs_def)
qed

text \<open>
  C9: replay is deterministic and makes progress. With the first \<open>n\<close> calls of the body
  resolved, a run repeats those calls from the log, asks exactly call number \<open>n\<close>, and adds the
  unresolved entry for it; once every call is resolved it adds nothing and returns the final
  result. The body therefore completes after as many resolutions as it makes calls.
\<close>

theorem replay_progress:
  "run_once b (resolved_from answer 0 (take n (calls answer b 0))) =
     (if n < length (calls answer b 0)
      then (Ok (yield_result (calls answer b 0 ! n)), [pending_entry n (calls answer b 0 ! n)])
      else (Ok (final answer b 0), []))"
proof -
  have len: "length (resolved_from answer i cs) = length cs" for i cs
    by (induction cs arbitrary: i) simp_all
  show ?thesis
    using run_body_progress [of "run_logs_new (resolved_from answer 0 (take n (calls answer b 0)))"
        "[]" answer n b]
    by (simp add: run_once_def run_logs_new_def into_new_logs_def len split: if_splits)
qed

end
