(* ===== verification/Graph.thy ===== *)
theory Graph
  imports Run_Log
begin

text \<open>
  Graph declarations and native nodes (\<^verbatim>\<open>marie-core/src/graph\<close>): the declared graph, the node
  specification, the context a node body runs in, the registry of native nodes and executors,
  and the built-in nodes. The script engine is a parameter.
\<close>

section \<open>Declarations\<close>

record node_spec =
  ns_kind :: node_kind_id
  ns_common :: common_spec

record graph_spec =
  g_id :: graph_id
  g_nodes :: "(graph_node_id, node_spec) hash_map"
  g_edges :: "(graph_node_id, graph_node_id) hash_map"
  g_entry :: graph_node_id
  g_common :: common_spec

definition graph_spec_new :: "graph_id \<Rightarrow> graph_node_id \<Rightarrow> common_spec \<Rightarrow> graph_spec" where
  "graph_spec_new i entry common =
     \<lparr>g_id = i, g_nodes = [], g_edges = [], g_entry = entry, g_common = common\<rparr>"

definition add_node :: "graph_node_id \<Rightarrow> node_spec \<Rightarrow> graph_spec \<Rightarrow> graph_spec" where
  "add_node i params g = g\<lparr>g_nodes := hm_insert i params (g_nodes g)\<rparr>"

definition add_edge :: "graph_node_id \<Rightarrow> graph_node_id \<Rightarrow> graph_spec \<Rightarrow> graph_spec" where
  "add_edge src dest g = g\<lparr>g_edges := hm_insert src dest (g_edges g)\<rparr>"

definition graph_catalogable ::
  "(graph_spec \<Rightarrow> string + u8 list) \<Rightarrow> (u8 list \<Rightarrow> string + graph_spec) \<Rightarrow> graph_spec catalogable" where
  "graph_catalogable ser de =
     \<lparr>cat_kind = ''/marie/catalog/graphs'', cat_id = g_id, to_vec = ser, from_slice = de\<rparr>"

section \<open>Node contexts\<close>

record node_context =
  nc_session :: session_id
  nc_frame :: frame_id
  nc_channels :: channels_tracker
  nc_logs :: run_logs

definition node_context_new ::
  "session_id \<Rightarrow> frame_id \<Rightarrow> channels_tracker \<Rightarrow> run_logs \<Rightarrow> node_context" where
  "node_context_new sid fid chs logs =
     \<lparr>nc_session = sid, nc_frame = fid, nc_channels = chs, nc_logs = logs\<rparr>"

definition ctx_write ::
  "('v \<Rightarrow> error + value) \<Rightarrow> channel_name \<Rightarrow> 'v \<Rightarrow> node_context \<Rightarrow> (error, node_context) outcome" where
  "ctx_write to_value name v ctx = (case tracker_write to_value name v (nc_channels ctx) of
      Ok t \<Rightarrow> Ok (ctx\<lparr>nc_channels := t\<rparr>)
    | Err e \<Rightarrow> Err e
    | Panic m \<Rightarrow> Panic m)"

definition ctx_read :: "(value \<Rightarrow> error + 'v) \<Rightarrow> channel_name \<Rightarrow> node_context \<Rightarrow> error + 'v" where
  "ctx_read from_value name ctx = tracker_read from_value name (nc_channels ctx)"

section \<open>The registry of native nodes\<close>

text \<open>An executor takes the context and gives it back with the result of the node.\<close>

type_synonym node_executor = "node_context \<Rightarrow> (error, node_context \<times> frame_result) outcome"

record graphs =
  gr_native_nodes :: "(node_kind_id, common_spec) hash_map"
  gr_executors :: "(node_kind_id, node_executor) hash_map"

definition graphs_register ::
  "node_kind_id \<Rightarrow> common_spec \<Rightarrow> node_executor \<Rightarrow> graphs \<Rightarrow> graphs" where
  "graphs_register i spec ex g =
     g\<lparr>gr_native_nodes := hm_insert i spec (gr_native_nodes g),
       gr_executors := hm_insert i ex (gr_executors g)\<rparr>"

definition no_executor :: "node_kind_id \<Rightarrow> error" where
  "no_executor k = err_msg (''aucun executeur enregistre pour la node NodeKindId('' @ [CHR 0x22] @ k @
     [CHR 0x22] @ '')'')"

definition graphs_execute ::
  "graphs \<Rightarrow> node_spec \<Rightarrow> node_context \<Rightarrow> (error, node_context \<times> frame_result) outcome" where
  "graphs_execute g spec ctx = (case hm_get (gr_executors g) (ns_kind spec) of
      None \<Rightarrow> Err (no_executor (ns_kind spec))
    | Some ex \<Rightarrow> ex ctx)"

section \<open>Built-in nodes\<close>

fun string_from_value :: "value \<Rightarrow> error + string" where
  "string_from_value (VString s) = Inr s"
| "string_from_value _ = Inl (err_msg ''invalid type: expected a string'')"

definition execute_script_spec :: common_spec where
  "execute_script_spec = core_spec
     [channel_decl ''script'' LastWriteWins\<lparr>chan_inherited := True\<rparr>,
      channel_decl ''result'' LastWriteWins\<lparr>chan_exported := True\<rparr>]"

definition execute_script ::
  "(string \<Rightarrow> node_context \<Rightarrow> (error, node_context \<times> frame_result) outcome) \<Rightarrow> node_executor" where
  "execute_script engine ctx = (case ctx_read string_from_value ''script'' ctx of
      Inl e \<Rightarrow> Err e
    | Inr script \<Rightarrow> engine script ctx)"

text \<open>The name the node macro derives from the function: underscores become dashes.\<close>

definition kind_id_of :: "string \<Rightarrow> node_kind_id" where
  "kind_id_of fn_name = map (\<lambda>c. if c = CHR ''_'' then CHR ''-'' else c) fn_name"

definition node_execute_script :: "string \<Rightarrow> node_spec" where
  "node_execute_script script =
     \<lparr>ns_kind = kind_id_of ''execute_script'', ns_common = spec_overrides ''script'' (VString script) execute_script_spec\<rparr>"

definition ask_expert_spec :: common_spec where
  "ask_expert_spec = core_spec
     [channel_decl ''task'' LastWriteWins\<lparr>chan_inherited := True\<rparr>,
      channel_decl ''expert_id'' LastWriteWins\<lparr>chan_inherited := True\<rparr>,
      channel_decl ''answer'' LastWriteWins\<lparr>chan_exported := True\<rparr>]"

definition ask_expert :: node_executor where
  "ask_expert ctx = (case ctx_read string_from_value ''expert_id'' ctx of
      Inl e \<Rightarrow> Err e
    | Inr expert \<Rightarrow> (case ctx_read string_from_value ''task'' ctx of
        Inl e \<Rightarrow> Err e
      | Inr task \<Rightarrow>
          (case ask_experts string_from_value [\<lparr>ask_task = task, ask_expert_id = expert\<rparr>] (nc_logs ctx) of
            (Ok (Return r), l) \<Rightarrow> Ok (ctx\<lparr>nc_logs := l\<rparr>, r)
          | (Ok (Resolved as), l) \<Rightarrow>
              (case ctx_write (\<lambda>s. Inr (VString s)) ''answer'' (hd as) (ctx\<lparr>nc_logs := l\<rparr>) of
                 Ok ctx' \<Rightarrow> Ok (ctx', Completed)
               | Err e \<Rightarrow> Err e
               | Panic m \<Rightarrow> Panic m)
          | (Err e, l) \<Rightarrow> Err e
          | (Panic m, l) \<Rightarrow> Panic m)))"

definition node_ask_expert :: "expert_id \<Rightarrow> string \<Rightarrow> node_spec" where
  "node_ask_expert expert task =
     \<lparr>ns_kind = kind_id_of ''ask_expert'', ns_common = spec_overrides ''task'' (VString task)
        (spec_overrides ''expert_id'' (VString expert) ask_expert_spec)\<rparr>"

section \<open>Properties\<close>

text \<open>
  The built-in \<^verbatim>\<open>ask-expert\<close> node asks once and completes once. With its two channels
  set, the first run returns the consultation request and adds one unresolved entry; replayed
  with that entry resolved by the expert's answer, it writes the answer to its \<^verbatim>\<open>answer\<close> channel
  as its only update, adds no entry and completes.
\<close>

theorem ask_expert_two_runs:
  assumes "channels_get chs ''expert_id'' = Some (VString expert)"
    and "channels_get chs ''task'' = Some (VString task)"
  defines "req \<equiv> [\<lparr>ask_task = task, ask_expert_id = expert\<rparr>]"
  shows "\<exists>ctx. ask_expert (node_context_new sid fid (tracker_new fid chs) (run_logs_new [])) =
      Ok (ctx, ConsultExperts req) \<and>
    into_new_logs (nc_logs ctx) = [pending_entry 0 (ConsultExpertsLog req)] \<and>
    tracker_into_updates (nc_channels ctx) = [] \<and>
    (\<exists>ctx'. ask_expert (node_context_new sid fid (tracker_new fid chs)
        (run_logs_new [(pending_entry 0 (ConsultExpertsLog req))\<lparr>log_value := Some (VArray [VString answer])\<rparr>])) =
      Ok (ctx', Completed) \<and> into_new_logs (nc_logs ctx') = [] \<and>
      tracker_into_updates (nc_channels ctx') =
        [\<lparr>upd_name = ''answer'', upd_value = VString answer, upd_contributor = fid\<rparr>])"
  using assms(1,2)
  by (simp add: req_def ask_expert_def ctx_read_def tracker_read_def node_context_new_def
      tracker_new_def ask_experts_def reserve_log_def run_logs_new_def log_check_def pending_entry_def
      into_new_logs_def tracker_into_updates_def ctx_write_def tracker_write_def Let_def)

lemma ask_expert_two_runs_witness:
  "\<exists>ctx. ask_expert (node_context_new (SessionId (ID 0 0)) (FrameId (ID 0 1))
      (tracker_new (FrameId (ID 0 1)) [(''expert_id'', VString ''e''), (''task'', VString ''t'')])
      (run_logs_new [])) =
    Ok (ctx, ConsultExperts [\<lparr>ask_task = ''t'', ask_expert_id = ''e''\<rparr>])"
  using ask_expert_two_runs [of "[(''expert_id'', VString ''e''), (''task'', VString ''t'')]" "''e''" "''t''"]
  by fastforce

end
