(* ===== verification/Frame_Tree.thy ===== *)
theory Frame_Tree
  imports Frames Graph
begin

text \<open>
  The tree of the frames of a session (\<^verbatim>\<open>marie-core/src/session/frames/tree.rs\<close>): an arena of
  cached containers backed by the frame store, with parent, sibling and child links kept in
  the nodes. The arena is a cache built without a capacity, so nothing leaves it unless it is
  removed. \<^verbatim>\<open>FrameId::new\<close> draws a random identifier; the sequence of the draws is the
  parameter \<open>fresh\<close>.

  Calling an asynchronous function without awaiting it runs none of its body: the three policy
  setters read the policy and drop the write.
\<close>

datatype session_error =
    StorageFailure error
  | StaleSuperstep u32 u32
  | CatalogFailure catalog_error
  | GraphNotFound graph_id
  | WorkerFailure worker_error
  | HitlFailure hitl_error

record frame_tree =
  ft_store :: frame_store
  ft_session :: session_id
  ft_arena :: "(frame_id, frame_container) hash_map"
  ft_drawn :: nat

type_synonym 'a tree_prog = "(frame_tree, session_error, 'a) prog"

definition frame_tree_new :: "frame_store \<Rightarrow> session_id \<Rightarrow> frame_tree" where
  "frame_tree_new st sid = \<lparr>ft_store = st, ft_session = sid, ft_arena = [], ft_drawn = 0\<rparr>"

text \<open>The node the arena holds, and a mutable access to it.\<close>

definition node_of :: "frame_tree \<Rightarrow> frame_id \<Rightarrow> frame_node option" where
  "node_of t i = map_option ct_node (hm_get (ft_arena t) i)"

definition update_node :: "frame_id \<Rightarrow> (frame_node \<Rightarrow> frame_node) \<Rightarrow> frame_tree \<Rightarrow> frame_tree" where
  "update_node i f t = (case hm_get (ft_arena t) i of
      None \<Rightarrow> t
    | Some c \<Rightarrow> t\<lparr>ft_arena := hm_insert i (container_update f c) (ft_arena t)\<rparr>)"

section \<open>Reading and writing one node\<close>

definition try_get :: "frame_id \<Rightarrow> frame_node tree_prog" where
  "try_get i = (\<lambda>t. case hm_get (ft_arena t) i of
      Some c \<Rightarrow> (Ok (ct_node c), t)
    | None \<Rightarrow> (case frame_container_new (ft_store t) (ft_session t) i of
        Inl e \<Rightarrow> (Err (StorageFailure e), t)
      | Inr c \<Rightarrow> (Ok (ct_node c), t\<lparr>ft_arena := hm_insert i c (ft_arena t)\<rparr>)))"

definition tree_get :: "frame_id \<Rightarrow> frame_node tree_prog" where
  "tree_get i = (\<lambda>t. case try_get i t of
      (Err e, t') \<Rightarrow> (Panic ''frame introuvable ou erreur de stockage'', t')
    | r \<Rightarrow> r)"

text \<open>\<^verbatim>\<open>self.get(id).await.lock().field = ..\<close>.\<close>

definition tree_write :: "frame_id \<Rightarrow> (frame_node \<Rightarrow> frame_node) \<Rightarrow> unit tree_prog" where
  "tree_write i f = seq (tree_get i) (modify (update_node i f))"

definition tree_read :: "frame_id \<Rightarrow> (frame_node \<Rightarrow> 'a) \<Rightarrow> 'a tree_prog" where
  "tree_read i f = bind (tree_get i) (\<lambda>n. ret (f n))"

definition frame_id_bound_to_hitl_id :: "hitl_id \<Rightarrow> frame_id option tree_prog" where
  "frame_id_bound_to_hitl_id hid =
     gets (\<lambda>t. get_frame_id_by_hitl_id (ft_store t) (ft_session t) hid)"

definition common_spec_of ::
  "(graph_ref \<Rightarrow> catalog_error + graph_spec) \<Rightarrow> frame_id \<Rightarrow> common_spec tree_prog" where
  "common_spec_of get_graph i = bind (tree_get i) (\<lambda>n. case fn_spec_ref n of
      GraphSpec r \<Rightarrow> (case get_graph r of
          Inl e \<Rightarrow> panic ''called `Result::unwrap()` on an `Err` value''
        | Inr g \<Rightarrow> ret (g_common g))
    | HitlSpec \<Rightarrow> ret spec_hitl
    | ToolCallSpec \<Rightarrow> ret spec_tool
    | ToolAggregatorSpec \<Rightarrow> ret spec_tool_aggregator
    | ExpertSpec \<Rightarrow> ret spec_expert
    | ExpertAggregatorSpec \<Rightarrow> ret spec_expert_aggregator)"

definition spec_ref_of :: "frame_id \<Rightarrow> frame_spec_ref tree_prog" where
  "spec_ref_of i = tree_read i fn_spec_ref"

definition status_of :: "frame_id \<Rightarrow> frame_status tree_prog" where
  "status_of i = tree_read i fn_status"

definition data_of :: "frame_id \<Rightarrow> frame_kind tree_prog" where
  "data_of i = tree_read i fn_data"

definition policy_of :: "frame_id \<Rightarrow> frame_policy tree_prog" where
  "policy_of i = tree_read i fn_policy"

definition set_policy_of :: "frame_id \<Rightarrow> frame_policy \<Rightarrow> unit tree_prog" where
  "set_policy_of i p = tree_write i (\<lambda>n. n\<lparr>fn_policy := p\<rparr>)"

definition set_resume_policy :: "frame_id \<Rightarrow> resume_policy \<Rightarrow> unit tree_prog" where
  "set_resume_policy i rp = seq (policy_of i) (ret ())"

definition set_on_resume_policy :: "frame_id \<Rightarrow> on_resume_policy \<Rightarrow> unit tree_prog" where
  "set_on_resume_policy i rp = seq (policy_of i) (ret ())"

definition get_on_resume_policy :: "frame_id \<Rightarrow> on_resume_policy tree_prog" where
  "get_on_resume_policy i = bind (policy_of i) (\<lambda>p. ret (on_resume_pol p))"

definition set_reduce_policy :: "frame_id \<Rightarrow> reduce_policy \<Rightarrow> unit tree_prog" where
  "set_reduce_policy i rp = seq (policy_of i) (ret ())"

definition logs_of :: "frame_id \<Rightarrow> run_log list tree_prog" where
  "logs_of i = tree_read i fn_logs"

definition pending_log_of :: "frame_id \<Rightarrow> run_log option tree_prog" where
  "pending_log_of i = tree_read i (\<lambda>n. List.find (\<lambda>l. log_value l = None) (rev (fn_logs n)))"

definition append_logs :: "frame_id \<Rightarrow> run_log list \<Rightarrow> unit tree_prog" where
  "append_logs i new_logs =
     (if new_logs = [] then ret () else tree_write i (\<lambda>n. n\<lparr>fn_logs := fn_logs n @ new_logs\<rparr>))"

fun resolve_entry :: "u32 \<Rightarrow> value \<Rightarrow> run_log list \<Rightarrow> run_log list" where
  "resolve_entry index v [] = []"
| "resolve_entry index v (l # ls) =
     (if log_index l = index then l\<lparr>log_value := Some v\<rparr> # ls else l # resolve_entry index v ls)"

text \<open>
  \<^verbatim>\<open>guard.logs.iter_mut()\<close> is a mutable access: the flag goes up even when no entry matches.
\<close>

definition resolve_log :: "frame_id \<Rightarrow> u32 \<Rightarrow> value \<Rightarrow> unit tree_prog" where
  "resolve_log i index v = tree_write i (\<lambda>n. n\<lparr>fn_logs := resolve_entry index v (fn_logs n)\<rparr>)"

definition set_status :: "frame_id \<Rightarrow> frame_status \<Rightarrow> unit tree_prog" where
  "set_status i s = tree_write i (\<lambda>n. n\<lparr>fn_status := s\<rparr>)"

definition bind_hitl_to_log :: "frame_id \<Rightarrow> u32 \<Rightarrow> hitl_id \<Rightarrow> unit tree_prog" where
  "bind_hitl_to_log i index hid = tree_write i (node_bind_hitl_to_log index hid)"

definition hitl_id_bound_to_log :: "frame_id \<Rightarrow> u32 \<Rightarrow> hitl_id option tree_prog" where
  "hitl_id_bound_to_log i index = tree_read i (\<lambda>n. node_hitl_id_of_log n index)"

definition log_index_bound_to_hitl_id :: "frame_id \<Rightarrow> hitl_id \<Rightarrow> u32 option tree_prog" where
  "log_index_bound_to_hitl_id i hid = tree_read i (\<lambda>n. node_log_index_of_hitl n hid)"

section \<open>Links\<close>

definition parent_of :: "frame_tree \<Rightarrow> frame_id \<Rightarrow> frame_id option" where
  "parent_of t i = Option.bind (node_of t i) fn_parent"

definition next_sibling_of :: "frame_tree \<Rightarrow> frame_id \<Rightarrow> frame_id option" where
  "next_sibling_of t i = Option.bind (node_of t i) fn_next_sibling"

definition prev_sibling_of :: "frame_tree \<Rightarrow> frame_id \<Rightarrow> frame_id option" where
  "prev_sibling_of t i = Option.bind (node_of t i) fn_prev_sibling"

definition iter_children_of :: "frame_tree \<Rightarrow> frame_id \<Rightarrow> frame_id list" where
  "iter_children_of t i = (case node_of t i of None \<Rightarrow> [] | Some n \<Rightarrow> fn_children n)"

definition last_child_of :: "frame_id \<Rightarrow> frame_id option tree_prog" where
  "last_child_of i =
     tree_read i (\<lambda>n. if fn_children n = [] then None else Some (last (fn_children n)))"

text \<open>The sibling walks; \<open>None\<close> when the walk does not end.\<close>

partial_function (option) iter_from ::
  "(frame_id \<Rightarrow> frame_id option) \<Rightarrow> frame_id option \<Rightarrow> frame_id list \<Rightarrow> frame_id list option" where
  "iter_from step current acc = (case current of
      None \<Rightarrow> Some acc
    | Some c \<Rightarrow> iter_from step (step c) (acc @ [c]))"

definition iter_next_siblings :: "frame_tree \<Rightarrow> frame_id \<Rightarrow> frame_id list option" where
  "iter_next_siblings t i = iter_from (next_sibling_of t) (next_sibling_of t i) []"

definition iter_prev_siblings :: "frame_tree \<Rightarrow> frame_id \<Rightarrow> frame_id list option" where
  "iter_prev_siblings t i = iter_from (prev_sibling_of t) (prev_sibling_of t i) []"

section \<open>Changing the tree\<close>

definition detach_from_siblings :: "frame_id \<Rightarrow> frame_tree \<Rightarrow> frame_tree" where
  "detach_from_siblings i t = (case node_of t i of
      None \<Rightarrow> t
    | Some n \<Rightarrow>
        let prev = fn_prev_sibling n; next = fn_next_sibling n;
            t = (case prev of None \<Rightarrow> t | Some p \<Rightarrow> update_node p (\<lambda>m. m\<lparr>fn_next_sibling := next\<rparr>) t);
            t = (case next of None \<Rightarrow> t | Some q \<Rightarrow> update_node q (\<lambda>m. m\<lparr>fn_prev_sibling := prev\<rparr>) t)
        in update_node i (\<lambda>m. m\<lparr>fn_prev_sibling := None, fn_next_sibling := None\<rparr>) t)"

definition detach_from_parent :: "frame_id \<Rightarrow> frame_tree \<Rightarrow> frame_tree" where
  "detach_from_parent i t = (case parent_of t i of
      None \<Rightarrow> t
    | Some p \<Rightarrow>
        let t = update_node p (\<lambda>m. m\<lparr>fn_children := filter (\<lambda>c. c \<noteq> i) (fn_children m)\<rparr>) t
        in update_node i (\<lambda>m. m\<lparr>fn_parent := None\<rparr>) t)"

definition detach :: "frame_id \<Rightarrow> frame_tree \<Rightarrow> frame_tree" where
  "detach i t = detach_from_parent i (detach_from_siblings i t)"

definition link_siblings :: "frame_id \<Rightarrow> frame_id \<Rightarrow> frame_tree \<Rightarrow> frame_tree" where
  "link_siblings p q t =
     update_node q (\<lambda>m. m\<lparr>fn_prev_sibling := Some p\<rparr>) (update_node p (\<lambda>m. m\<lparr>fn_next_sibling := Some q\<rparr>) t)"

text \<open>\<^verbatim>\<open>Vec::insert\<close>, for an index that is not beyond the end.\<close>

definition insert_at :: "nat \<Rightarrow> 'a \<Rightarrow> 'a list \<Rightarrow> 'a list" where
  "insert_at k x xs = take k xs @ [x] @ drop k xs"

definition insert_child :: "frame_id \<Rightarrow> frame_id \<Rightarrow> nat \<Rightarrow> frame_tree \<Rightarrow> frame_tree" where
  "insert_child parent child index t =
     (let t = detach child t in
      case node_of t parent of
        None \<Rightarrow> t
      | Some pn \<Rightarrow>
          let ch = fn_children pn;
              index = min index (length ch);
              prev = (if index = 0 then None else Some (ch ! (index - 1)));
              next = (if index < length ch then Some (ch ! index) else None);
              t = (case prev of
                     Some p \<Rightarrow> link_siblings p child t
                   | None \<Rightarrow> update_node child (\<lambda>m. m\<lparr>fn_prev_sibling := None\<rparr>) t);
              t = (case next of
                     Some q \<Rightarrow> link_siblings child q t
                   | None \<Rightarrow> update_node child (\<lambda>m. m\<lparr>fn_next_sibling := None\<rparr>) t);
              t = update_node parent (\<lambda>m. m\<lparr>fn_children := insert_at index child (fn_children m)\<rparr>) t
          in update_node child (\<lambda>m. m\<lparr>fn_parent := Some parent\<rparr>) t)"

definition create_node ::
  "(nat \<Rightarrow> ID) \<Rightarrow> new_frame_node_args \<Rightarrow> frame_tree \<Rightarrow> frame_id \<times> frame_tree" where
  "create_node fresh args t =
     (let i = FrameId (fresh (ft_drawn t)) in
      (i, t\<lparr>ft_drawn := Suc (ft_drawn t),
            ft_arena := hm_insert i (from_new_node (frame_node_new i args)) (ft_arena t)\<rparr>))"

definition tree_set_root ::
  "(nat \<Rightarrow> ID) \<Rightarrow> new_frame_node_args \<Rightarrow> frame_tree \<Rightarrow> frame_id \<times> frame_tree" where
  "tree_set_root fresh args t =
     (let (i, t) = create_node fresh args t in (i, update_node i (\<lambda>n. n\<lparr>fn_is_root := True\<rparr>) t))"

definition tree_insert ::
  "(nat \<Rightarrow> ID) \<Rightarrow> frame_id \<Rightarrow> new_frame_node_args \<Rightarrow> nat \<Rightarrow> frame_tree \<Rightarrow> frame_id \<times> frame_tree" where
  "tree_insert fresh parent args position t =
     (let (i, t) = create_node fresh args t in (i, insert_child parent i position t))"

definition tree_append ::
  "(nat \<Rightarrow> ID) \<Rightarrow> frame_id \<Rightarrow> new_frame_node_args \<Rightarrow> frame_tree \<Rightarrow> frame_id \<times> frame_tree" where
  "tree_append fresh parent args t =
     tree_insert fresh parent args (length (iter_children_of t parent)) t"

text \<open>
  Removing a subtree: a stack of the nodes still to remove, popped from its end. The loop ends
  because each round either takes a node out of the arena or shortens the stack.
\<close>

lemma length_hm_insert_known: "hm_get m k = Some w \<Longrightarrow> length (hm_insert k v m) = length m"
  by (induction m) (auto split: if_splits)

lemma length_update_node [simp]: "length (ft_arena (update_node i f t)) = length (ft_arena t)"
  by (auto simp: update_node_def length_hm_insert_known split: option.splits)

lemma length_detach [simp]: "length (ft_arena (detach i t)) = length (ft_arena t)"
  by (simp add: detach_def detach_from_parent_def detach_from_siblings_def Let_def
      split: option.splits)

function remove_loop :: "frame_id list \<Rightarrow> frame_tree \<Rightarrow> (error, unit) outcome \<times> frame_tree" where
  "remove_loop stack t =
     (if stack = [] then (Ok (), t)
      else let current = last stack; stack = butlast stack; t = detach current t in
        case hm_get (ft_arena t) current of
          None \<Rightarrow> remove_loop stack (t\<lparr>ft_arena := hm_remove current (ft_arena t)\<rparr>)
        | Some c \<Rightarrow>
            let stack = stack @ fn_children (ct_node c) in
            case container_delete c (ft_store t) of
              Inl e \<Rightarrow> (Err e, t)
            | Inr (c', st) \<Rightarrow>
                remove_loop stack (t\<lparr>ft_store := st, ft_arena := hm_remove current (ft_arena t)\<rparr>))"
  by pat_completeness auto

termination
proof (relation "measures [\<lambda>(stack, t). length (ft_arena t), \<lambda>(stack, t). length stack]", goal_cases)
  case 1
  then show ?case by simp
next
  case (2 stack t current stack' t')
  have "length (hm_remove current (ft_arena t')) \<le> length (ft_arena t')"
    by (rule length_hm_remove_le)
  then show ?case using 2 by (auto simp: less_Suc_eq_le le_less)
next
  case (3 stack t current stack' t' c stack'' p c' st)
  then have "length (hm_remove current (ft_arena t')) < length (ft_arena t')"
    by (intro length_hm_remove_less) simp
  then show ?case using 3 by simp
qed

declare remove_loop.simps [simp del]

definition tree_remove :: "frame_id \<Rightarrow> frame_tree \<Rightarrow> (error, unit) outcome \<times> frame_tree" where
  "tree_remove i t = remove_loop [i] t"

section \<open>The shape of a tree\<close>

text \<open>
  A well-formed arena: every node is held under its own identifier; the children of a node are
  distinct, present, name it as their parent and are chained by their sibling links in the
  order of the list; the parent of a node is present and lists it; a node without parent has no
  sibling; and no node is its own ancestor, because some rank grows from parent to child.
\<close>

definition child_at :: "(frame_id \<Rightarrow> frame_node option) \<Rightarrow> frame_id \<Rightarrow> frame_id list \<Rightarrow> nat \<Rightarrow> bool" where
  "child_at A p ch k \<longleftrightarrow> (\<exists>c. A (ch ! k) = Some c \<and> fn_parent c = Some p \<and>
     fn_prev_sibling c = (if k = 0 then None else Some (ch ! (k - 1))) \<and>
     fn_next_sibling c = (if Suc k < length ch then Some (ch ! Suc k) else None))"

definition children_ok :: "(frame_id \<Rightarrow> frame_node option) \<Rightarrow> frame_id \<Rightarrow> frame_node \<Rightarrow> bool" where
  "children_ok A p n \<longleftrightarrow> distinct (fn_children n) \<and> (\<forall>k < length (fn_children n). child_at A p (fn_children n) k)"

definition links_ok :: "(frame_id \<Rightarrow> frame_node option) \<Rightarrow> frame_node \<Rightarrow> bool" where
  "links_ok A n \<longleftrightarrow> (case fn_parent n of
      None \<Rightarrow> fn_prev_sibling n = None \<and> fn_next_sibling n = None
    | Some p \<Rightarrow> (\<exists>m. A p = Some m \<and> fn_id n \<in> set (fn_children m)))"

definition ranked :: "(frame_id \<Rightarrow> frame_node option) \<Rightarrow> (frame_id \<Rightarrow> nat) \<Rightarrow> bool" where
  "ranked A rank \<longleftrightarrow> (\<forall>p n. A p = Some n \<longrightarrow> (\<forall>c \<in> set (fn_children n). rank p < rank c))"

definition tree_ok :: "(frame_id \<Rightarrow> frame_node option) \<Rightarrow> bool" where
  "tree_ok A \<longleftrightarrow> (\<forall>i n. A i = Some n \<longrightarrow> fn_id n = i \<and> children_ok A i n \<and> links_ok A n) \<and>
     (\<exists>rank. ranked A rank)"

definition tree_wf :: "frame_tree \<Rightarrow> bool" where
  "tree_wf t \<longleftrightarrow> tree_ok (node_of t)"

section \<open>Updates as functions\<close>

lemma node_of_update:
  "node_of (update_node i f t) = (node_of t)(i := map_option f (node_of t i))"
  by (rule ext) (auto simp: node_of_def update_node_def container_update_def split: option.splits)

lemma update_node_frame [simp]:
  "ft_drawn (update_node i f t) = ft_drawn t" "ft_store (update_node i f t) = ft_store t"
  "ft_session (update_node i f t) = ft_session t"
  by (simp_all add: update_node_def split: option.splits)

lemma create_node_arena:
  "create_node fresh args t = (i, t') \<Longrightarrow>
     i = FrameId (fresh (ft_drawn t)) \<and> node_of t' = (node_of t)(i \<mapsto> frame_node_new i args)"
  by (auto simp: create_node_def node_of_def from_new_node_def Let_def intro!: ext)

lemma tree_okD:
  assumes "tree_ok A" and "A i = Some n"
  shows "fn_id n = i" and "children_ok A i n" and "links_ok A n"
  using assms by (auto simp: tree_ok_def)

text \<open>Facts that hold of every child of a well-formed node.\<close>

lemma child_facts:
  assumes ok: "tree_ok A" and p: "A p = Some n" and c: "c \<in> set (fn_children n)"
  shows "\<exists>m. A c = Some m \<and> fn_parent m = Some p" and "c \<noteq> p"
proof -
  obtain k where k: "k < length (fn_children n)" "fn_children n ! k = c"
    using c by (auto simp: in_set_conv_nth)
  have "child_at A p (fn_children n) k"
    using tree_okD(2) [OF ok p] k(1) by (simp add: children_ok_def)
  then show "\<exists>m. A c = Some m \<and> fn_parent m = Some p" using k(2) by (auto simp: child_at_def)
  obtain rank where "ranked A rank" using ok by (auto simp: tree_ok_def)
  then show "c \<noteq> p" using p c by (fastforce simp: ranked_def)
qed

lemma orphan_not_child:
  assumes "tree_ok A" and "A p = Some n" and "\<And>m. A c = Some m \<Longrightarrow> fn_parent m = None"
  shows "c \<notin> set (fn_children n)"
proof
  assume "c \<in> set (fn_children n)"
  then obtain m where "A c = Some m" "fn_parent m = Some p" using child_facts(1) [OF assms(1,2)] by blast
  then show False using assms(3) by simp
qed

text \<open>A node without links is added to the arena.\<close>

lemma tree_ok_add:
  assumes ok: "tree_ok A" and fresh: "A i = None"
  shows "tree_ok (A(i \<mapsto> frame_node_new i args))"
proof -
  let ?A = "A(i \<mapsto> frame_node_new i args)"
  have "fn_id n = j \<and> children_ok ?A j n \<and> links_ok ?A n" if j: "?A j = Some n" for j n
  proof (cases "j = i")
    case True
    then show ?thesis using j by (auto simp: frame_node_new_def children_ok_def links_ok_def)
  next
    case False
    then have An: "A j = Some n" using j by simp
    have "fn_children n ! k \<noteq> i" if "k < length (fn_children n)" for k
      using orphan_not_child [OF ok An, of i] fresh that by (metis nth_mem option.distinct(1))
    then have "children_ok ?A j n"
      using tree_okD(2) [OF ok An] by (simp add: children_ok_def child_at_def)
    moreover have "links_ok ?A n"
      using tree_okD(3) [OF ok An] fresh by (fastforce simp: links_ok_def split: option.splits)
    ultimately show ?thesis using tree_okD(1) [OF ok An] by simp
  qed
  moreover obtain rank where "ranked A rank" using ok by (auto simp: tree_ok_def)
  then have "ranked ?A rank" by (simp add: ranked_def frame_node_new_def)
  ultimately show ?thesis by (auto simp: tree_ok_def)
qed

text \<open>A node without links becomes child number \<open>k\<close> of \<open>p\<close>.\<close>

definition attached ::
  "(frame_id \<Rightarrow> frame_node option) \<Rightarrow> frame_id \<Rightarrow> frame_id \<Rightarrow> nat \<Rightarrow> frame_id list \<Rightarrow> frame_id \<Rightarrow> frame_node option" where
  "attached A p c k ch j =
     (if j = c then map_option (\<lambda>n. n\<lparr>fn_parent := Some p,
          fn_prev_sibling := (if k = 0 then None else Some (ch ! (k - 1))),
          fn_next_sibling := (if k < length ch then Some (ch ! k) else None)\<rparr>) (A j)
      else if j = p then map_option (\<lambda>n. n\<lparr>fn_children := insert_at k c ch\<rparr>) (A j)
      else if 0 < k \<and> j = ch ! (k - 1) then map_option (\<lambda>n. n\<lparr>fn_next_sibling := Some c\<rparr>) (A j)
      else if k < length ch \<and> j = ch ! k then map_option (\<lambda>n. n\<lparr>fn_prev_sibling := Some c\<rparr>) (A j)
      else A j)"

lemma insert_at_nth:
  assumes "k \<le> length ch" and "m \<le> length ch"
  shows "insert_at k c ch ! m = (if m < k then ch ! m else if m = k then c else ch ! (m - 1))"
proof -
  have "m - k = Suc q \<Longrightarrow> k + q = m - 1" for q by linarith
  then show ?thesis
    using assms by (auto simp: insert_at_def nth_append nth_Cons min_def split: nat.splits)
qed

lemma insert_at_length [simp]: "k \<le> length ch \<Longrightarrow> length (insert_at k c ch) = Suc (length ch)"
  by (simp add: insert_at_def)

lemma insert_at_set [simp]: "set (insert_at k c ch) = insert c (set ch)"
proof -
  have "set ch = set (take k ch) \<union> set (drop k ch)"
    by (metis append_take_drop_id set_append)
  then show ?thesis by (auto simp: insert_at_def)
qed

lemma insert_at_distinct: "distinct ch \<Longrightarrow> c \<notin> set ch \<Longrightarrow> distinct (insert_at k c ch)"
  by (auto simp: insert_at_def set_take_disj_set_drop_if_distinct dest: in_set_takeD in_set_dropD)

lemma attached_child:
  assumes ok: "children_ok A p pn" and ch: "fn_children pn = ch" and k: "k \<le> length ch"
    and c: "c \<notin> set ch" and p: "p \<notin> set ch" "p \<noteq> c"
    and cn: "A c = Some cn"
    and m: "m < length (insert_at k c ch)"
  shows "child_at (attached A p c k ch) p (insert_at k c ch) m"
proof -
  let ?ch = "insert_at k c ch"
  have dist: "distinct ch" and at: "\<And>j. j < length ch \<Longrightarrow> child_at A p ch j"
    using ok ch by (auto simp: children_ok_def)
  have len: "length ?ch = Suc (length ch)" using k by simp
  have neq: "ch ! j \<noteq> c" "ch ! j \<noteq> p" if "j < length ch" for j
    using that c p by (metis nth_mem)+
  have eq: "ch ! i = ch ! j \<longleftrightarrow> i = j" if "i < length ch" "j < length ch" for i j
    using that dist by (simp add: nth_eq_iff_index_eq)
  consider "m < k" | "m = k" | "k < m" by linarith
  then show ?thesis
  proof cases
    case 1
    then have m': "m < length ch" using k by simp
    obtain x where x: "A (ch ! m) = Some x" "fn_parent x = Some p"
      "fn_prev_sibling x = (if m = 0 then None else Some (ch ! (m - 1)))"
      "fn_next_sibling x = (if Suc m < length ch then Some (ch ! Suc m) else None)"
      using at [OF m'] by (auto simp: child_at_def)
    show ?thesis
      using 1 m' k x neq [OF m'] eq [of m "k - 1"] eq [of m k]
      by (cases "Suc m = k") (auto simp: child_at_def insert_at_nth attached_def len)
  next
    case 2
    then show ?thesis
      using k cn p(2) by (auto simp: child_at_def insert_at_nth attached_def len)
  next
    case 3
    then obtain q where q: "m = Suc q" by (cases m) auto
    then have q': "q < length ch" "k \<le> q" using 3 m len by auto
    obtain x where x: "A (ch ! q) = Some x" "fn_parent x = Some p"
      "fn_prev_sibling x = (if q = 0 then None else Some (ch ! (q - 1)))"
      "fn_next_sibling x = (if Suc q < length ch then Some (ch ! Suc q) else None)"
      using at [OF q'(1)] by (auto simp: child_at_def)
    show ?thesis
      using q q' k x neq [OF q'(1)] eq [of q "k - 1"] eq [of q k]
      by (cases "q = k") (auto simp: child_at_def insert_at_nth attached_def len)
  qed
qed

lemma attached_other:
  assumes ok: "tree_ok A" and p: "A p = Some pn" "fn_children pn = ch" and k: "k \<le> length ch"
    and q: "A q = Some qn" "fn_parent qn \<noteq> Some p" "q \<noteq> c"
  shows "\<exists>n. attached A p c k ch q = Some n \<and> fn_parent n = fn_parent qn \<and>
    fn_prev_sibling n = fn_prev_sibling qn \<and> fn_next_sibling n = fn_next_sibling qn"
proof -
  have out: "q \<notin> set ch" using child_facts(1) [OF ok p(1), of q] p(2) q by auto
  have n1: "(k < length ch \<and> q = ch ! k) = False" using out by auto
  have n2: "(0 < k \<and> q = ch ! (k - 1)) = False" using out nth_mem [of "k - 1" ch] k by auto
  have "attached A p c k ch q =
      (if q = p then map_option (\<lambda>n. n\<lparr>fn_children := insert_at k c ch\<rparr>) (A q) else A q)"
    unfolding attached_def n1 n2 using q(3) by simp
  then show ?thesis using q(1) by (cases "q = p") simp_all
qed

lemma attached_children:
  assumes "A q = Some m" and "q \<noteq> c"
  shows "\<exists>m'. attached A p c k ch q = Some m' \<and>
    (q \<noteq> p \<longrightarrow> fn_children m' = fn_children m) \<and> (q = p \<longrightarrow> fn_children m' = insert_at k c ch)"
  using assms by (cases "q = p"; cases "0 < k \<and> q = ch ! (k - 1)"; cases "k < length ch \<and> q = ch ! k")
    (simp_all only: attached_def if_True if_False, simp_all)

lemma attached_keeps:
  assumes "attached A p c k ch j = Some n'" and "j \<noteq> c" and "j \<noteq> p"
  shows "\<exists>n. A j = Some n \<and> fn_id n' = fn_id n \<and> fn_children n' = fn_children n \<and>
    fn_parent n' = fn_parent n"
  using assms by (auto simp: attached_def split: if_splits)

lemma tree_ok_attached:
  assumes ok: "tree_ok A" and p: "A p = Some pn" "fn_children pn = ch" and k: "k \<le> length ch"
    and c: "A c = Some cn" "fn_parent cn = None" "fn_children cn = []" "c \<noteq> p"
  shows "tree_ok (attached A p c k ch)"
proof -
  let ?A = "attached A p c k ch"
  have c_not: "c \<notin> set (fn_children m)" if "A j = Some m" for j m
    using orphan_not_child [OF ok that, of c] c by simp
  have p_not: "p \<notin> set ch" using child_facts(2) [OF ok p(1)] p(2) by blast
  have Ac: "?A c = Some (cn\<lparr>fn_parent := Some p,
      fn_prev_sibling := (if k = 0 then None else Some (ch ! (k - 1))),
      fn_next_sibling := (if k < length ch then Some (ch ! k) else None)\<rparr>)"
    using c by (simp add: attached_def)
  have Ap: "?A p = Some (pn\<lparr>fn_children := insert_at k c ch\<rparr>)"
    using p c(4) by (simp add: attached_def)
  have "fn_id n = j \<and> children_ok ?A j n \<and> links_ok ?A n" if j: "?A j = Some n" for j n
  proof -
    consider "j = c" | "j = p" | "j \<noteq> c" "j \<noteq> p" by blast
    then show ?thesis
    proof cases
      case 1
      have n: "n = cn\<lparr>fn_parent := Some p,
          fn_prev_sibling := (if k = 0 then None else Some (ch ! (k - 1))),
          fn_next_sibling := (if k < length ch then Some (ch ! k) else None)\<rparr>"
        using j Ac 1 by simp
      show ?thesis
        unfolding n using 1 Ap c(3) tree_okD(1) [OF ok c(1)] by (simp add: children_ok_def links_ok_def)
    next
      case 2
      have n: "n = pn\<lparr>fn_children := insert_at k c ch\<rparr>" using j Ap 2 by simp
      have "children_ok ?A p n"
        using tree_okD(2) [OF ok p(1)] p c c_not [OF p(1)] p_not k
        by (auto simp: n children_ok_def insert_at_distinct intro!: attached_child)
      moreover have "links_ok ?A n"
      proof (cases "fn_parent pn")
        case None
        then show ?thesis using tree_okD(3) [OF ok p(1)] by (simp add: n links_ok_def)
      next
        case (Some q)
        then obtain m where m: "A q = Some m" "fn_id pn \<in> set (fn_children m)"
          using tree_okD(3) [OF ok p(1)] by (auto simp: links_ok_def)
        moreover have "q \<noteq> p" using child_facts(2) [OF ok m(1)] m(2) tree_okD(1) [OF ok p(1)] by blast
        moreover have "q \<noteq> c" using m c by auto
        ultimately show ?thesis
          using Some m attached_children [of A q m c p k ch] by (auto simp: n links_ok_def)
      qed
      ultimately show ?thesis using 2 n tree_okD(1) [OF ok p(1)] by simp
    next
      case 3
      obtain m where m: "A j = Some m" "fn_id n = fn_id m" "fn_children n = fn_children m"
        "fn_parent n = fn_parent m"
        using attached_keeps [OF j 3] by blast
      have at: "child_at ?A j (fn_children m) i" if i: "i < length (fn_children m)" for i
      proof -
        obtain x where x: "A (fn_children m ! i) = Some x" "fn_parent x = Some j"
          "fn_prev_sibling x = (if i = 0 then None else Some (fn_children m ! (i - 1)))"
          "fn_next_sibling x = (if Suc i < length (fn_children m) then Some (fn_children m ! Suc i) else None)"
          using tree_okD(2) [OF ok m(1)] i by (auto simp: children_ok_def child_at_def)
        moreover have "fn_children m ! i \<noteq> c" using c_not [OF m(1)] i by auto
        ultimately show ?thesis
          using attached_other [OF ok p k, of "fn_children m ! i" x c] 3 by (auto simp: child_at_def)
      qed
      moreover have "links_ok ?A n"
      proof (cases "fn_parent m")
        case None
        then have "?A j = Some m" using attached_other [OF ok p k m(1), of c] 3 m j
          by (auto simp: attached_def split: if_splits dest: child_facts(1) [OF ok p(1)])
        then show ?thesis using None tree_okD(3) [OF ok m(1)] j by (simp add: links_ok_def)
      next
        case (Some q)
        then obtain y where y: "A q = Some y" "fn_id m \<in> set (fn_children y)"
          using tree_okD(3) [OF ok m(1)] by (auto simp: links_ok_def)
        have "q \<noteq> c" using y c by auto
        then obtain y' where "?A q = Some y'" "fn_id m \<in> set (fn_children y')"
          using y p attached_children [of A q y c p k ch] by (cases "q = p") auto
        then show ?thesis using Some m by (simp add: links_ok_def)
      qed
      ultimately show ?thesis
        using m tree_okD(1,2) [OF ok m(1)] by (simp add: children_ok_def)
    qed
  qed
  moreover obtain rank where rank: "ranked A rank" using ok by (auto simp: tree_ok_def)
  have "ranked ?A (rank(c := Suc (rank p)))"
  proof (unfold ranked_def, intro allI impI ballI)
    fix j n x
    assume j: "?A j = Some n" and x: "x \<in> set (fn_children n)"
    show "(rank(c := Suc (rank p))) j < (rank(c := Suc (rank p))) x"
    proof (cases "j = c \<or> j = p")
      case True
      then show ?thesis using j x Ac Ap c rank p c_not [OF p(1)] by (auto simp: ranked_def)
    next
      case False
      then obtain m where m: "A j = Some m" "fn_children n = fn_children m"
        using attached_keeps [OF j] by blast
      then have "x \<noteq> c" using c_not x by auto
      then show ?thesis using False m x rank by (auto simp: ranked_def)
    qed
  qed
  ultimately show ?thesis by (auto simp: tree_ok_def)
qed

lemma node_of_detach_isolated:
  assumes "node_of t c = Some cn" and "fn_parent cn = None" and "fn_prev_sibling cn = None"
    and "fn_next_sibling cn = None"
  shows "node_of (detach c t) = node_of t"
proof -
  have "cn\<lparr>fn_prev_sibling := None, fn_next_sibling := None\<rparr> = cn"
    using assms by (cases cn) simp
  then have "node_of (detach_from_siblings c t) = node_of t"
    using assms by (auto simp: detach_from_siblings_def Let_def node_of_update)
  then show ?thesis using assms by (simp add: detach_def detach_from_parent_def parent_of_def)
qed

lemma node_of_insert_child:
  assumes c: "node_of t c = Some cn" "fn_parent cn = None" "fn_prev_sibling cn = None"
      "fn_next_sibling cn = None"
    and p: "node_of t p = Some pn" "fn_children pn = ch" "p \<notin> set ch"
    and ne: "c \<noteq> p" "c \<notin> set ch" "distinct ch"
  shows "node_of (insert_child p c idx t) = attached (node_of t) p c (min idx (length ch)) ch"
proof -
  define k where "k = min idx (length ch)"
  have det: "node_of (detach c t) = node_of t" by (rule node_of_detach_isolated [OF c])
  have le: "k \<le> length ch" by (simp add: k_def)
  then have prev: "0 < k \<Longrightarrow> ch ! (k - 1) \<in> set ch"
    "0 < k \<Longrightarrow> k < length ch \<Longrightarrow> ch ! (k - 1) \<noteq> ch ! k"
    using ne(3) by (simp_all add: nth_eq_iff_index_eq)
  have next_ch: "k < length ch \<Longrightarrow> ch ! k \<in> set ch" by simp
  have neq: "0 < k \<Longrightarrow> ch ! (k - 1) \<noteq> c" "0 < k \<Longrightarrow> ch ! (k - 1) \<noteq> p"
    "k < length ch \<Longrightarrow> ch ! k \<noteq> c" "k < length ch \<Longrightarrow> ch ! k \<noteq> p"
    using prev(1) next_ch p(3) ne(2) by auto
  have "node_of (insert_child p c idx t) j = attached (node_of t) p c k ch j" for j
    using c p ne(1) prev(2) neq
    by (cases "k = 0"; cases "k < length ch")
       (auto simp: insert_child_def Let_def det node_of_update link_siblings_def attached_def
         simp flip: k_def)
  then show ?thesis unfolding k_def by blast
qed

section \<open>Creating and attaching nodes keeps the tree well formed\<close>

text \<open>Identifiers drawn later are not in the arena.\<close>

definition ids_drawn :: "(nat \<Rightarrow> ID) \<Rightarrow> frame_tree \<Rightarrow> bool" where
  "ids_drawn fresh t \<longleftrightarrow> (\<forall>i n. node_of t i = Some n \<longrightarrow> (\<exists>k < ft_drawn t. i = FrameId (fresh k)))"

definition tree_inv :: "(nat \<Rightarrow> ID) \<Rightarrow> frame_tree \<Rightarrow> bool" where
  "tree_inv fresh t \<longleftrightarrow> tree_wf t \<and> ids_drawn fresh t"

lemma node_of_set_same: "node_of (t\<lparr>ft_drawn := d\<rparr>) = node_of t"
  by (rule ext) (simp add: node_of_def)

lemma create_node_inv:
  assumes "tree_inv fresh t" and "inj_on fresh {..ft_drawn t}" and "create_node fresh args t = (i, t')"
  shows "tree_inv fresh t'" and "node_of t i = None" and "node_of t' i = Some (frame_node_new i args)"
    and "node_of t' = (node_of t)(i \<mapsto> frame_node_new i args)" and "ft_drawn t' = Suc (ft_drawn t)"
proof -
  have i: "i = FrameId (fresh (ft_drawn t))"
    and A: "node_of t' = (node_of t)(i \<mapsto> frame_node_new i args)"
    using create_node_arena [OF assms(3)] by auto
  have d: "ft_drawn t' = Suc (ft_drawn t)" using assms(3) by (auto simp: create_node_def Let_def)
  show new: "node_of t i = None"
  proof (cases "node_of t i")
    case (Some n)
    then obtain k where "k < ft_drawn t" "i = FrameId (fresh k)"
      using assms(1) by (auto simp: tree_inv_def ids_drawn_def)
    then show ?thesis using i inj_onD [OF assms(2), of k "ft_drawn t"] by auto
  qed simp
  show "node_of t' i = Some (frame_node_new i args)" using A by simp
  show "node_of t' = (node_of t)(i \<mapsto> frame_node_new i args)" by (rule A)
  show "ft_drawn t' = Suc (ft_drawn t)" by (rule d)
  have "tree_wf t'" using tree_ok_add [of "node_of t" i args] new assms(1) A by (simp add: tree_inv_def tree_wf_def)
  moreover have "ids_drawn fresh t'"
    using assms(1) A d i by (fastforce simp: tree_inv_def ids_drawn_def less_Suc_eq)
  ultimately show "tree_inv fresh t'" by (simp add: tree_inv_def)
qed

lemma insert_child_drawn [simp]: "ft_drawn (insert_child p c idx t) = ft_drawn t"
  by (simp add: insert_child_def detach_def detach_from_parent_def detach_from_siblings_def
      link_siblings_def Let_def split: option.splits)

lemma tree_insert_new:
  assumes inv: "tree_inv fresh t" and inj: "inj_on fresh {..ft_drawn t}"
    and ins: "tree_insert fresh p args idx t = (i, t')"
    and p: "node_of t p = Some pn"
  shows "tree_inv fresh t' \<and> node_of t i = None \<and>
    node_of t' = attached ((node_of t)(i \<mapsto> frame_node_new i args)) p i
      (min idx (length (fn_children pn))) (fn_children pn)"
proof -
  obtain s where s: "create_node fresh args t = (i, s)" and t': "t' = insert_child p i idx s"
    using ins by (auto simp: tree_insert_def split: prod.splits)
  note new = create_node_inv [OF inv inj s]
  have ip: "i \<noteq> p" using new(2) p by auto
  have ok: "tree_ok (node_of s)" using new(1) by (simp add: tree_inv_def tree_wf_def)
  have ps: "node_of s p = Some pn" using p ip new(4) by simp
  have isolated: "fn_parent (frame_node_new i args) = None" "fn_prev_sibling (frame_node_new i args) = None"
    "fn_next_sibling (frame_node_new i args) = None" "fn_children (frame_node_new i args) = []"
    by (simp_all add: frame_node_new_def)
  have p_not: "p \<notin> set (fn_children pn)" using child_facts(2) [OF ok ps] by blast
  have i_not: "i \<notin> set (fn_children pn)"
    using orphan_not_child [OF ok ps, of i] new(3) isolated(1) by simp
  have dist: "distinct (fn_children pn)"
    using tree_okD(2) [OF ok ps] by (simp add: children_ok_def)
  have A: "node_of t' = attached (node_of s) p i (min idx (length (fn_children pn))) (fn_children pn)"
    unfolding t' by (rule node_of_insert_child [OF new(3) isolated(1-3) ps refl p_not ip i_not dist])
  have "tree_wf t'"
    unfolding tree_wf_def A
    by (rule tree_ok_attached [OF ok ps refl _ new(3) isolated(1,4) ip]) simp
  moreover have "ids_drawn fresh t'"
  proof -
    have "node_of s j \<noteq> None" if "node_of t' j = Some n" for j n
      using that unfolding A attached_def by (auto split: if_splits)
    then show ?thesis using new(1) unfolding t' tree_inv_def ids_drawn_def by fastforce
  qed
  ultimately show ?thesis using new(2,4) A by (simp add: tree_inv_def)
qed

lemma tree_insert_orphan:
  assumes inv: "tree_inv fresh t" and inj: "inj_on fresh {..ft_drawn t}"
    and ins: "tree_insert fresh p args idx t = (i, t')" and p: "node_of t p = None" "i \<noteq> p"
  shows "tree_inv fresh t' \<and> node_of t' = (node_of t)(i \<mapsto> frame_node_new i args)"
proof -
  obtain s where s: "create_node fresh args t = (i, s)" and t': "t' = insert_child p i idx s"
    using ins by (auto simp: tree_insert_def split: prod.splits)
  note new = create_node_inv [OF inv inj s]
  have "node_of (detach i s) = node_of s"
    by (rule node_of_detach_isolated [OF new(3)]) (simp_all add: frame_node_new_def)
  then have "node_of t' = node_of s" using p new(4) by (simp add: t' insert_child_def)
  moreover have "ft_drawn t' = ft_drawn s" by (simp add: t')
  ultimately show ?thesis using new by (simp add: tree_inv_def tree_wf_def ids_drawn_def)
qed

lemma sibling_walk:
  assumes len: "k < length ch"
    and nxt: "\<And>j. j < length ch \<Longrightarrow> step (ch ! j) = (if Suc j < length ch then Some (ch ! Suc j) else None)"
  shows "iter_from step (step (ch ! k)) acc = Some (acc @ drop (Suc k) ch)"
  using len
proof (induction "length ch - k" arbitrary: k acc)
  case 0
  then show ?case by simp
next
  case (Suc d)
  show ?case
  proof (cases "Suc k < length ch")
    case True
    then have "iter_from step (step (ch ! Suc k)) (acc @ [ch ! Suc k]) =
        Some ((acc @ [ch ! Suc k]) @ drop (Suc (Suc k)) ch)"
      using Suc by (intro Suc.hyps(1)) auto
    then show ?thesis
      using True nxt [of k] Suc.prems iter_from.simps [of step "Some (ch ! Suc k)" acc]
      by (simp add: Cons_nth_drop_Suc)
  next
    case False
    then show ?thesis
      using nxt [of k] Suc.prems iter_from.simps [of step None acc] by simp
  qed
qed

section \<open>Properties\<close>

text \<open>
  C8: appending a frame keeps the tree well formed, whatever the state of the tree: the new
  frame is the last child of its parent, linked to the previous last child both ways, and
  no other frame gains or loses a child.
\<close>

theorem tree_append_child:
  assumes inv: "tree_inv fresh t" and inj: "inj_on fresh {..ft_drawn t}" and p: "node_of t p = Some pn"
    and app: "tree_append fresh p args t = (i, t')"
  shows "tree_inv fresh t' \<and> node_of t i = None \<and>
    iter_children_of t' p = iter_children_of t p @ [i] \<and>
    parent_of t' i = Some p \<and> next_sibling_of t' i = None \<and>
    prev_sibling_of t' i =
      (if iter_children_of t p = [] then None else Some (last (iter_children_of t p))) \<and>
    (iter_children_of t p \<noteq> [] \<longrightarrow> next_sibling_of t' (last (iter_children_of t p)) = Some i) \<and>
    (\<forall>q. q \<noteq> p \<longrightarrow> iter_children_of t' q = iter_children_of t q)"
proof -
  let ?ch = "fn_children pn"
  have ch: "iter_children_of t p = ?ch" using p by (simp add: iter_children_of_def)
  have ins: "tree_insert fresh p args (length ?ch) t = (i, t')"
    using app ch by (simp add: tree_append_def)
  have inv': "tree_inv fresh t'" and new: "node_of t i = None"
    and A: "node_of t' = attached ((node_of t)(i \<mapsto> frame_node_new i args)) p i (length ?ch) ?ch"
    using tree_insert_new [OF inv inj ins p] by simp_all
  have ip: "i \<noteq> p" using new p by auto
  have ok: "tree_ok (node_of t)" using inv by (simp add: tree_inv_def tree_wf_def)
  have p_not: "p \<notin> set ?ch" using child_facts(2) [OF ok p] by blast
  have i_not: "i \<notin> set ?ch" using orphan_not_child [OF ok p, of i] new by simp
  have "prev_sibling_of t' i = (if ?ch = [] then None else Some (last ?ch))"
    using A by (simp add: prev_sibling_of_def attached_def last_conv_nth)
  moreover have "next_sibling_of t' (last ?ch) = Some i" if ne: "?ch \<noteq> []"
  proof -
    have mem: "last ?ch \<in> set ?ch" using ne by simp
    then obtain m where "node_of t (last ?ch) = Some m" using child_facts(1) [OF ok p] by blast
    moreover have "last ?ch \<noteq> i" "last ?ch \<noteq> p" using mem i_not p_not by metis+
    ultimately show ?thesis
      using ne by (simp add: next_sibling_of_def A attached_def last_conv_nth)
  qed
  moreover have "iter_children_of t' q = iter_children_of t q" if q: "q \<noteq> p" for q
  proof (cases "node_of t q")
    case None
    have "q = i \<or> node_of t' q = None" using None q by (auto simp: A attached_def)
    then show ?thesis
      using None q by (auto simp: iter_children_of_def A attached_def frame_node_new_def)
  next
    case (Some m)
    then have "q \<noteq> i" using new by auto
    then show ?thesis
      using Some q attached_children [of "(node_of t)(i \<mapsto> frame_node_new i args)" q m i p "length ?ch" ?ch]
      by (auto simp: iter_children_of_def A)
  qed
  ultimately show ?thesis
    using inv' new ip ch p
    by (simp add: A iter_children_of_def parent_of_def next_sibling_of_def attached_def insert_at_def)
qed

text \<open>
  In a well-formed tree the sibling walks end and give the siblings after, and before, a
  frame in the order of its parent's children.
\<close>

theorem sibling_walks:
  assumes "tree_wf t" and "node_of t p = Some pn" and "k < length (fn_children pn)"
  shows "iter_next_siblings t (fn_children pn ! k) = Some (drop (Suc k) (fn_children pn)) \<and>
    iter_prev_siblings t (fn_children pn ! k) = Some (rev (take k (fn_children pn)))"
proof -
  let ?ch = "fn_children pn" and ?n = "length (fn_children pn)"
  have at: "child_at (node_of t) p ?ch j" if "j < ?n" for j
    using tree_okD(2) [of "node_of t" p pn] assms(1,2) that by (simp add: tree_wf_def children_ok_def)
  have nxt: "next_sibling_of t (?ch ! j) = (if Suc j < ?n then Some (?ch ! Suc j) else None)"
    if "j < ?n" for j
    using at [OF that] by (auto simp: child_at_def next_sibling_of_def)
  have prv: "prev_sibling_of t (rev ?ch ! j) = (if Suc j < ?n then Some (rev ?ch ! Suc j) else None)"
    if j: "j < ?n" for j
  proof -
    have "?n - Suc j < ?n" using j by simp
    then obtain c where "node_of t (?ch ! (?n - Suc j)) = Some c"
      "fn_prev_sibling c = (if ?n - Suc j = 0 then None else Some (?ch ! (?n - Suc j - 1)))"
      using at unfolding child_at_def by blast
    then show ?thesis using j by (auto simp: prev_sibling_of_def rev_nth)
  qed
  have "iter_next_siblings t (?ch ! k) = Some (drop (Suc k) ?ch)"
    using sibling_walk [of k ?ch "next_sibling_of t" "[]"] nxt assms(3)
    by (simp add: iter_next_siblings_def)
  moreover have "iter_prev_siblings t (rev ?ch ! (?n - Suc k)) = Some (drop (Suc (?n - Suc k)) (rev ?ch))"
    using sibling_walk [of "?n - Suc k" "rev ?ch" "prev_sibling_of t" "[]"] prv assms(3)
    by (simp add: iter_prev_siblings_def)
  moreover have "rev ?ch ! (?n - Suc k) = ?ch ! k" using assms(3) by (simp add: rev_nth)
  moreover have "Suc (?n - Suc k) = ?n - k" using assms(3) by simp
  moreover have "drop (?n - k) (rev ?ch) = rev (take k ?ch)"
    using assms(3) by (simp add: rev_take)
  ultimately show ?thesis by simp
qed

section \<open>Witnesses\<close>

text \<open>A root with one child, built by the operations.\<close>

definition example_draws :: "nat \<Rightarrow> ID" where
  "example_draws n = ID 0 (word_of_nat n)"

definition example_args :: new_frame_node_args where
  "example_args = new_frame_args (SessionId (ID 1 1)) ExpertSpec Void"

definition example_root :: "frame_id \<times> frame_tree" where
  "example_root = tree_set_root example_draws example_args (frame_tree_new [] (SessionId (ID 1 1)))"

lemma tree_ok_single:
  assumes "fn_id n = i" and "fn_children n = []" and "fn_parent n = None"
    and "fn_prev_sibling n = None" and "fn_next_sibling n = None"
  shows "tree_ok [i \<mapsto> n]"
  using assms by (auto simp: tree_ok_def children_ok_def links_ok_def ranked_def)

lemma example_root_node:
  "node_of (snd example_root) =
     [FrameId (ID 0 0) \<mapsto> (frame_node_new (FrameId (ID 0 0)) example_args)\<lparr>fn_is_root := True\<rparr>]"
  by (simp add: example_root_def tree_set_root_def create_node_def frame_tree_new_def Let_def
      example_draws_def node_of_update) (rule ext, simp add: node_of_def from_new_node_def)

lemma example_root_drawn: "ft_drawn (snd example_root) = 1"
  by (simp add: example_root_def tree_set_root_def create_node_def frame_tree_new_def Let_def)

lemma example_root_inv: "tree_inv example_draws (snd example_root)"
proof -
  have "tree_wf (snd example_root)"
    unfolding tree_wf_def example_root_node by (rule tree_ok_single) (simp_all add: frame_node_new_def)
  then show ?thesis
    by (simp add: tree_inv_def ids_drawn_def example_root_node example_root_drawn example_draws_def)
qed

lemma example_draws_inj: "inj_on example_draws {..ft_drawn (snd example_root)}"
  by (auto simp: example_root_drawn inj_on_def example_draws_def le_Suc_eq)

definition example_tree :: frame_tree where
  "example_tree = snd (tree_append example_draws (FrameId (ID 0 0)) example_args (snd example_root))"

lemma example_tree_eq:
  "tree_append example_draws (FrameId (ID 0 0)) example_args (snd example_root) =
     (FrameId (ID 0 1), example_tree)"
  by (simp add: example_tree_def tree_append_def tree_insert_def create_node_def Let_def
      example_root_drawn example_draws_def split: prod.splits)

lemma example_tree_shape:
  "tree_wf example_tree" "\<exists>pn. node_of example_tree (FrameId (ID 0 0)) = Some pn \<and>
     fn_children pn = [FrameId (ID 0 1)]"
  using tree_insert_new [OF example_root_inv example_draws_inj
      example_tree_eq [unfolded tree_append_def]]
  by (simp_all add: example_root_node attached_def tree_inv_def frame_node_new_def insert_at_def)

lemma tree_append_child_witness:
  "iter_children_of example_tree (FrameId (ID 0 0)) = [FrameId (ID 0 1)]"
proof -
  have "iter_children_of (snd example_root) (FrameId (ID 0 0)) = []"
    by (simp add: iter_children_of_def example_root_node frame_node_new_def)
  then show ?thesis
    using tree_append_child [OF example_root_inv example_draws_inj _ example_tree_eq]
    by (simp add: example_root_node)
qed

lemma sibling_walks_witness: "iter_next_siblings example_tree (FrameId (ID 0 1)) = Some []"
proof -
  obtain pn where pn: "node_of example_tree (FrameId (ID 0 0)) = Some pn"
    "fn_children pn = [FrameId (ID 0 1)]"
    using example_tree_shape(2) by blast
  show ?thesis using sibling_walks [OF example_tree_shape(1) pn(1), of 0] pn(2) by simp
qed

end
