(* ===== verification/Snapshots.thy ===== *)
theory Snapshots
  imports Frame_Tree
begin

text \<open>
  Snapshots of the channels of a frame (\<^verbatim>\<open>marie-core/src/session/snapshot\<close>): the record, the
  in-memory store keyed by session, frame and superstep, and the cache of containers in front of
  it. The cache is built without a capacity, so a container leaves it only when another one is
  inserted under its key; dropping a dirty container hands its snapshot to a detached task, and
  \<open>sn_spawned\<close> is the list of the writes those tasks still have to make.
\<close>

record snapshot =
  ss_session :: session_id
  ss_frame :: frame_id
  ss_superstep :: u32
  ss_channels :: channels
  ss_join_sources :: "snapshot_ref list"
  ss_created_at :: timestamp
  ss_pin_count :: u32

definition snapshot_new ::
  "timestamp \<Rightarrow> session_id \<Rightarrow> frame_id \<Rightarrow> u32 \<Rightarrow> channels \<Rightarrow> snapshot_ref list \<Rightarrow> snapshot" where
  "snapshot_new now sid fid superstep chans join_sources =
     \<lparr>ss_session = sid, ss_frame = fid, ss_superstep = superstep, ss_channels = chans,
      ss_join_sources = join_sources, ss_created_at = now, ss_pin_count = 0\<rparr>"

definition snapshot_to_ref :: "snapshot \<Rightarrow> snapshot_ref" where
  "snapshot_to_ref s = \<lparr>sr_session = ss_session s, sr_frame = ss_frame s, sr_superstep = ss_superstep s\<rparr>"

section \<open>The in-memory store\<close>

type_synonym snapshot_key = "session_id \<times> frame_id \<times> u32"
type_synonym snapshot_store = "(snapshot_key, snapshot) hash_map"

definition snapshot_key :: "snapshot \<Rightarrow> snapshot_key" where
  "snapshot_key s = (ss_session s, ss_frame s, ss_superstep s)"

definition snapshot_not_found :: "session_id \<Rightarrow> frame_id \<Rightarrow> u32 \<Rightarrow> error" where
  "snapshot_not_found sid fid superstep = err_from (Std_Error (''cliche ('' @ session_id_display sid @
     '', '' @ frame_id_display fid @ '', superstep '' @ show_nat (unat superstep) @ '') introuvable'') None)"

text \<open>\<^verbatim>\<open>max_by_key\<close>: the last of the greatest elements.\<close>

fun max_by_superstep :: "snapshot option \<Rightarrow> snapshot list \<Rightarrow> snapshot option" where
  "max_by_superstep best [] = best"
| "max_by_superstep best (s # ss) = max_by_superstep (case best of
      None \<Rightarrow> Some s
    | Some b \<Rightarrow> if ss_superstep b \<le> ss_superstep s then Some s else Some b) ss"

definition latest_snapshot :: "snapshot_store \<Rightarrow> session_id \<Rightarrow> frame_id \<Rightarrow> error + snapshot" where
  "latest_snapshot st sid fid =
     (case max_by_superstep None
        (filter (\<lambda>s. ss_session s = sid \<and> ss_frame s = fid) (hm_values st)) of
        None \<Rightarrow> Inl (snapshot_not_found sid fid 0)
      | Some s \<Rightarrow> Inr s)"

definition snapshot_at :: "snapshot_store \<Rightarrow> session_id \<Rightarrow> frame_id \<Rightarrow> u32 \<Rightarrow> error + snapshot" where
  "snapshot_at st sid fid superstep = (case hm_get st (sid, fid, superstep) of
      None \<Rightarrow> Inl (snapshot_not_found sid fid superstep)
    | Some s \<Rightarrow> Inr s)"

definition upsert_snapshot :: "snapshot \<Rightarrow> snapshot_store \<Rightarrow> snapshot_store" where
  "upsert_snapshot s st = hm_insert (snapshot_key s) s st"

section \<open>Containers and the cache\<close>

record snapshot_container =
  sc_snapshot :: snapshot
  sc_dirty :: bool

definition snapshot_from_loaded :: "snapshot \<Rightarrow> snapshot_container" where
  "snapshot_from_loaded s = \<lparr>sc_snapshot = s, sc_dirty = False\<rparr>"

definition snapshot_from_snapshot :: "snapshot \<Rightarrow> snapshot_container" where
  "snapshot_from_snapshot s = \<lparr>sc_snapshot = s, sc_dirty = True\<rparr>"

definition snapshot_container_new ::
  "snapshot_store \<Rightarrow> session_id \<Rightarrow> frame_id \<Rightarrow> u32 \<Rightarrow> error + snapshot_container" where
  "snapshot_container_new st sid fid superstep =
     map_sum id snapshot_from_loaded (snapshot_at st sid fid superstep)"

definition snapshot_container_flush ::
  "snapshot_container \<Rightarrow> snapshot_store \<Rightarrow> snapshot_container \<times> snapshot_store" where
  "snapshot_container_flush c st =
     (if sc_dirty c then (c\<lparr>sc_dirty := False\<rparr>, upsert_snapshot (sc_snapshot c) st) else (c, st))"

definition snapshot_container_drop :: "snapshot_container \<Rightarrow> snapshot list" where
  "snapshot_container_drop c = (if sc_dirty c then [sc_snapshot c] else [])"

record session_snapshots =
  sn_store :: snapshot_store
  sn_session :: session_id
  sn_cache :: "(snapshot_ref, snapshot_container) hash_map"
  sn_spawned :: "snapshot list"

type_synonym 'a snapshot_prog = "(session_snapshots, session_error, 'a) prog"

definition session_snapshots_new :: "snapshot_store \<Rightarrow> session_id \<Rightarrow> session_snapshots" where
  "session_snapshots_new st sid = \<lparr>sn_store = st, sn_session = sid, sn_cache = [], sn_spawned = []\<rparr>"

text \<open>\<^verbatim>\<open>Cache::insert\<close>: the container it replaces is dropped.\<close>

definition snapshot_cache_insert ::
  "snapshot_ref \<Rightarrow> snapshot_container \<Rightarrow> session_snapshots \<Rightarrow> session_snapshots" where
  "snapshot_cache_insert r c s =
     s\<lparr>sn_cache := hm_insert r c (sn_cache s),
       sn_spawned := sn_spawned s @
         (case hm_get (sn_cache s) r of None \<Rightarrow> [] | Some old \<Rightarrow> snapshot_container_drop old)\<rparr>"

text \<open>One detached task runs: its write reaches the store.\<close>

definition snapshot_task :: "session_snapshots \<Rightarrow> session_snapshots" where
  "snapshot_task s = (case sn_spawned s of
      [] \<Rightarrow> s
    | x # xs \<Rightarrow> s\<lparr>sn_store := upsert_snapshot x (sn_store s), sn_spawned := xs\<rparr>)"

definition snapshots_push :: "snapshot \<Rightarrow> snapshot_ref snapshot_prog" where
  "snapshots_push x = (\<lambda>s.
     (Ok (snapshot_to_ref x), snapshot_cache_insert (snapshot_to_ref x) (snapshot_from_snapshot x) s))"

definition snapshots_try_get :: "frame_id \<Rightarrow> u32 \<Rightarrow> snapshot snapshot_prog" where
  "snapshots_try_get fid superstep = (\<lambda>s.
     let r = \<lparr>sr_session = sn_session s, sr_frame = fid, sr_superstep = superstep\<rparr> in
     case hm_get (sn_cache s) r of
       Some c \<Rightarrow> (Ok (sc_snapshot c), s)
     | None \<Rightarrow> (case snapshot_container_new (sn_store s) (sn_session s) fid superstep of
         Inl e \<Rightarrow> (Err (StorageFailure e), s)
       | Inr c \<Rightarrow> (Ok (sc_snapshot c), snapshot_cache_insert r c s)))"

definition snapshots_get :: "frame_id \<Rightarrow> u32 \<Rightarrow> snapshot snapshot_prog" where
  "snapshots_get fid superstep = (\<lambda>s. case snapshots_try_get fid superstep s of
      (Err e, s') \<Rightarrow> (Panic ''cliche introuvable ou erreur de stockage'', s')
    | r \<Rightarrow> r)"

definition snapshots_latest :: "frame_id \<Rightarrow> snapshot snapshot_prog" where
  "snapshots_latest fid = (\<lambda>s. case latest_snapshot (sn_store s) (sn_session s) fid of
      Inl e \<Rightarrow> (Err (StorageFailure e), s)
    | Inr x \<Rightarrow> (Ok x, snapshot_cache_insert (snapshot_to_ref x) (snapshot_from_loaded x) s))"

text \<open>Flushing a container held by the cache.\<close>

definition snapshots_flush :: "snapshot_ref \<Rightarrow> unit snapshot_prog" where
  "snapshots_flush r = modify (\<lambda>s. case hm_get (sn_cache s) r of
      None \<Rightarrow> s
    | Some c \<Rightarrow> (let (c', st) = snapshot_container_flush c (sn_store s) in
        s\<lparr>sn_cache := hm_insert r c' (sn_cache s), sn_store := st\<rparr>))"

section \<open>Facts\<close>

interpretation snapshots: keyed_store snapshot_key "\<lambda>st k. hm_get st k" upsert_snapshot hm_remove
  by unfold_locales (simp_all add: upsert_snapshot_def)

definition snapshot_store_wf :: "snapshot_store \<Rightarrow> bool" where
  "snapshot_store_wf st \<longleftrightarrow> hm_wf st \<and> (\<forall>k s. hm_get st k = Some s \<longrightarrow> k = snapshot_key s)"

lemma snapshot_store_wf_upsert: "snapshot_store_wf st \<Longrightarrow> snapshot_store_wf (upsert_snapshot s st)"
  by (auto simp: snapshot_store_wf_def upsert_snapshot_def)

lemma max_by_superstep_None [simp]: "max_by_superstep b ss = None \<longleftrightarrow> b = None \<and> ss = []"
  by (induction ss arbitrary: b) (auto split: option.splits)

lemma max_by_superstep_Some:
  "max_by_superstep b ss = Some m \<Longrightarrow>
     (m \<in> set ss \<or> b = Some m) \<and> (\<forall>s \<in> set ss. ss_superstep s \<le> ss_superstep m) \<and>
     (\<forall>s. b = Some s \<longrightarrow> ss_superstep s \<le> ss_superstep m)"
proof (induction ss arbitrary: b)
  case (Cons s ss)
  let ?b = "case b of None \<Rightarrow> Some s | Some b \<Rightarrow> if ss_superstep b \<le> ss_superstep s then Some s else Some b"
  have IH: "(m \<in> set ss \<or> ?b = Some m) \<and> (\<forall>s \<in> set ss. ss_superstep s \<le> ss_superstep m) \<and>
      (\<forall>s. ?b = Some s \<longrightarrow> ss_superstep s \<le> ss_superstep m)"
    using Cons.IH [of ?b] Cons.prems by simp
  then show ?case by (auto split: option.splits if_splits)
qed simp

lemma snapshot_store_values:
  assumes "snapshot_store_wf st"
  shows "s \<in> set (hm_values st) \<longleftrightarrow> hm_get st (snapshot_key s) = Some s"
proof
  assume "s \<in> set (hm_values st)"
  then obtain k where "(k, s) \<in> set st" by auto
  then have "hm_get st k = Some s" using assms hm_get_in_set [of st k s] by (simp add: snapshot_store_wf_def)
  moreover from this have "k = snapshot_key s" using assms unfolding snapshot_store_wf_def by blast
  ultimately show "hm_get st (snapshot_key s) = Some s" by simp
qed (rule hm_get_values)

lemma stored_snapshots_of:
  assumes "snapshot_store_wf st"
  shows "s \<in> set (filter (\<lambda>s. ss_session s = sid \<and> ss_frame s = fid) (hm_values st)) \<longleftrightarrow>
    ss_session s = sid \<and> ss_frame s = fid \<and> hm_get st (sid, fid, ss_superstep s) = Some s"
  using snapshot_store_values [OF assms, of s] by (auto simp: snapshot_key_def)

lemma latest_snapshot_Inr:
  assumes "snapshot_store_wf st" and "latest_snapshot st sid fid = Inr s"
  shows "ss_session s = sid" and "ss_frame s = fid" and "hm_get st (sid, fid, ss_superstep s) = Some s"
    and "hm_get st (sid, fid, k) = Some x \<Longrightarrow> k \<le> ss_superstep s"
proof -
  let ?xs = "filter (\<lambda>s. ss_session s = sid \<and> ss_frame s = fid) (hm_values st)"
  have m: "max_by_superstep None ?xs = Some s"
    using assms(2) by (auto simp: latest_snapshot_def split: option.splits)
  then have mem: "s \<in> set ?xs" and le: "\<And>y. y \<in> set ?xs \<Longrightarrow> ss_superstep y \<le> ss_superstep s"
    using max_by_superstep_Some [OF m] by auto
  show "ss_session s = sid" "ss_frame s = fid" "hm_get st (sid, fid, ss_superstep s) = Some s"
    using mem stored_snapshots_of [OF assms(1)] by auto
  assume x: "hm_get st (sid, fid, k) = Some x"
  then have "(sid, fid, k) = snapshot_key x" using assms(1) unfolding snapshot_store_wf_def by blast
  then show "k \<le> ss_superstep s"
    using le [of x] x stored_snapshots_of [OF assms(1), of x sid fid] by (simp add: snapshot_key_def)
qed

lemma latest_snapshot_Inl:
  assumes "snapshot_store_wf st" and "latest_snapshot st sid fid = Inl e"
  shows "e = snapshot_not_found sid fid 0" and "hm_get st (sid, fid, k) = None"
proof -
  let ?xs = "filter (\<lambda>s. ss_session s = sid \<and> ss_frame s = fid) (hm_values st)"
  show "e = snapshot_not_found sid fid 0"
    using assms(2) by (auto simp: latest_snapshot_def split: option.splits)
  have empty: "?xs = []" using assms(2) by (auto simp: latest_snapshot_def split: option.splits)
  show "hm_get st (sid, fid, k) = None"
  proof (cases "hm_get st (sid, fid, k)")
    case (Some x)
    then have "(sid, fid, k) = snapshot_key x" using assms(1) unfolding snapshot_store_wf_def by blast
    then have "x \<in> set ?xs"
      using Some stored_snapshots_of [OF assms(1), of x sid fid] by (simp add: snapshot_key_def)
    then show ?thesis by (simp add: empty)
  qed
qed

lemma latest_snapshot_upsert:
  assumes wf: "snapshot_store_wf st" and new: "\<And>k y. hm_get st (ss_session x, ss_frame x, k) = Some y \<Longrightarrow> k \<le> ss_superstep x"
  shows "latest_snapshot (upsert_snapshot x st) (ss_session x) (ss_frame x) = Inr x"
proof (cases "latest_snapshot (upsert_snapshot x st) (ss_session x) (ss_frame x)")
  case (Inl e)
  then show ?thesis
    using latest_snapshot_Inl(2) [OF snapshot_store_wf_upsert [OF wf] Inl, of "ss_superstep x"]
    by (simp add: snapshots.get_upsert snapshot_key_def)
next
  case (Inr s)
  note l = latest_snapshot_Inr [OF snapshot_store_wf_upsert [OF wf, of x] Inr]
  have ge: "ss_superstep x \<le> ss_superstep s"
    by (rule l(4)) (simp add: snapshots.get_upsert snapshot_key_def)
  have "ss_superstep s = ss_superstep x"
    using l(3) new [of "ss_superstep s" s] ge by (auto simp: snapshots.get_upsert snapshot_key_def split: if_splits)
  then show ?thesis using l(3) Inr by (simp add: snapshots.get_upsert snapshot_key_def)
qed

section \<open>Properties\<close>

text \<open>
  The store returns as latest snapshot of a frame a stored one whose superstep no stored
  snapshot of the frame exceeds, whatever the iteration order of the table, and fails with a
  not-found error exactly when the frame has none.
\<close>

theorem latest_snapshot_greatest:
  assumes "snapshot_store_wf st"
  shows "case latest_snapshot st sid fid of
      Inl e \<Rightarrow> e = snapshot_not_found sid fid 0 \<and> (\<forall>k. hm_get st (sid, fid, k) = None)
    | Inr s \<Rightarrow> snapshot_at st sid fid (ss_superstep s) = Inr s \<and>
        (\<forall>k x. snapshot_at st sid fid k = Inr x \<longrightarrow> k \<le> ss_superstep s)"
  using latest_snapshot_Inl [OF assms] latest_snapshot_Inr [OF assms]
  by (auto simp: snapshot_at_def split: sum.splits option.splits)

text \<open>
  A snapshot just pushed is what \<^verbatim>\<open>get\<close> returns for its superstep, but \<^verbatim>\<open>latest\<close> does not
  see it: it answers for every frame what it answered before the push. Only once the container
  is flushed is the pushed snapshot, when its superstep is not below a stored one, the latest of
  its frame.
\<close>

theorem push_visible_after_flush:
  assumes "snapshot_store_wf (sn_store s)" and "ss_session x = sn_session s"
    and "snapshots_push x s = (Ok r, s')"
  shows "fst (snapshots_try_get (ss_frame x) (ss_superstep x) s') = Ok x \<and>
    (\<forall>fid. fst (snapshots_latest fid s') = fst (snapshots_latest fid s)) \<and>
    ((\<forall>k y. hm_get (sn_store s) (ss_session x, ss_frame x, k) = Some y \<longrightarrow> k \<le> ss_superstep x) \<longrightarrow>
      fst (snapshots_latest (ss_frame x) (snd (snapshots_flush r s'))) = Ok x)"
proof -
  have r: "r = snapshot_to_ref x" and s': "s' = snapshot_cache_insert r (snapshot_from_snapshot x) s"
    using assms(3) by (auto simp: snapshots_push_def)
  have flush: "sn_store (snd (snapshots_flush r s')) = upsert_snapshot x (sn_store s)"
    "sn_session (snd (snapshots_flush r s')) = sn_session s"
    by (simp_all add: snapshots_flush_def s' snapshot_cache_insert_def snapshot_container_flush_def
        snapshot_from_snapshot_def)
  have "fst (snapshots_try_get (ss_frame x) (ss_superstep x) s') = Ok x"
    using assms(2) by (simp add: snapshots_try_get_def s' r snapshot_cache_insert_def
        snapshot_from_snapshot_def snapshot_to_ref_def Let_def)
  moreover have "fst (snapshots_latest fid s') = fst (snapshots_latest fid s)" for fid
    by (simp add: snapshots_latest_def s' snapshot_cache_insert_def split: sum.splits)
  moreover have "fst (snapshots_latest (ss_frame x) (snd (snapshots_flush r s'))) = Ok x"
    if "\<forall>k y. hm_get (sn_store s) (ss_session x, ss_frame x, k) = Some y \<longrightarrow> k \<le> ss_superstep x"
    using latest_snapshot_upsert [OF assms(1), of x] that assms(2)
    by (simp add: snapshots_latest_def flush)
  ultimately show ?thesis by blast
qed

section \<open>Witnesses\<close>

definition example_snapshot :: "u32 \<Rightarrow> snapshot" where
  "example_snapshot k = snapshot_new 0 (SessionId (ID 1 1)) (FrameId (ID 0 0)) k [] []"

definition example_snapshots :: session_snapshots where
  "example_snapshots =
     session_snapshots_new (upsert_snapshot (example_snapshot 3) []) (SessionId (ID 1 1))"

lemma example_snapshots_wf: "snapshot_store_wf (sn_store example_snapshots)"
  by (simp add: example_snapshots_def session_snapshots_new_def snapshot_store_wf_upsert
      snapshot_store_wf_def [of "[]"])

lemma latest_snapshot_greatest_witness:
  "\<exists>s. latest_snapshot (sn_store example_snapshots) (SessionId (ID 1 1)) (FrameId (ID 0 0)) = Inr s \<and>
     3 \<le> ss_superstep s"
proof -
  have "hm_get (sn_store example_snapshots) (SessionId (ID 1 1), FrameId (ID 0 0), 3) = Some (example_snapshot 3)"
    by (simp add: example_snapshots_def session_snapshots_new_def snapshots.get_upsert snapshot_key_def
        example_snapshot_def snapshot_new_def)
  then show ?thesis
    using latest_snapshot_greatest [OF example_snapshots_wf, of "SessionId (ID 1 1)" "FrameId (ID 0 0)"]
    by (auto simp: snapshot_at_def split: sum.splits)
qed

lemma push_visible_after_flush_witness:
  "\<exists>r s'. snapshots_push (example_snapshot 4) example_snapshots = (Ok r, s') \<and>
     fst (snapshots_latest (FrameId (ID 0 0)) s') = Ok (example_snapshot 3)"
proof -
  obtain r s' where push: "snapshots_push (example_snapshot 4) example_snapshots = (Ok r, s')"
    by (simp add: snapshots_push_def)
  have "fst (snapshots_latest (FrameId (ID 0 0)) example_snapshots) = Ok (example_snapshot 3)"
    by (simp add: example_snapshots_def session_snapshots_new_def snapshots_latest_def
        latest_snapshot_def upsert_snapshot_def example_snapshot_def snapshot_new_def)
  then show ?thesis
    using push_visible_after_flush [OF example_snapshots_wf _ push] push
    by (auto simp: example_snapshot_def snapshot_new_def example_snapshots_def session_snapshots_new_def)
qed

end
