(* ===== verification/Session_Store.thy ===== *)
theory Session_Store
  imports Snapshots
begin

text \<open>
  The rows of the sessions, their journal and the unit of work around a session
  (\<^verbatim>\<open>marie-core/src/session/store/mod.rs\<close>, \<^verbatim>\<open>session/logs\<close>, \<^verbatim>\<open>entity.rs\<close>).
\<close>

section \<open>The in-memory session store\<close>

type_synonym sessions_table = "(session_id, session) hash_map"

definition session_not_found :: "session_id \<Rightarrow> error" where
  "session_not_found sid =
     err_from (Std_Error (''session '' @ session_id_display sid @ '' introuvable'') None)"

definition get_session :: "sessions_table \<Rightarrow> session_id \<Rightarrow> error + session" where
  "get_session st sid = (case hm_get st sid of
      None \<Rightarrow> Inl (session_not_found sid)
    | Some s \<Rightarrow> Inr s)"

definition session_exists :: "sessions_table \<Rightarrow> session_id \<Rightarrow> bool" where
  "session_exists st sid = hm_contains st sid"

definition upsert_session :: "session \<Rightarrow> sessions_table \<Rightarrow> sessions_table" where
  "upsert_session s st = hm_insert (s_id s) s st"

definition delete_session ::
  "session_id \<Rightarrow> sessions_table \<Rightarrow> error + (session \<times> sessions_table)" where
  "delete_session sid st = (case hm_get st sid of
      None \<Rightarrow> Inl (session_not_found sid)
    | Some s \<Rightarrow> Inr (s, hm_remove sid st))"

definition list_sessions :: "sessions_table \<Rightarrow> session list" where
  "list_sessions st = hm_values st"

section \<open>The journal\<close>

type_synonym log_store = "(session_id \<times> log_id, session_log) hash_map"

record search_log_query =
  q_after :: "timestamp option"
  q_before :: "timestamp option"

definition insert_log :: "session_log \<Rightarrow> log_store \<Rightarrow> log_store" where
  "insert_log l st = (case hm_get st (sl_session l, sl_id l) of
      Some old \<Rightarrow> hm_insert (sl_session l, sl_id l)
        (old\<lparr>sl_content := sl_content l, sl_last_updated_at := sl_last_updated_at l\<rparr>) st
    | None \<Rightarrow> hm_insert (sl_session l, sl_id l) l st)"

text \<open>\<^verbatim>\<open>sort_by_key\<close> is stable, as \<open>sort_key\<close> is.\<close>

definition list_log :: "log_store \<Rightarrow> session_id \<Rightarrow> session_log list" where
  "list_log st sid = sort_key sl_created_at (filter (\<lambda>l. sl_session l = sid) (hm_values st))"

definition list_log_after :: "log_store \<Rightarrow> session_id \<Rightarrow> search_log_query \<Rightarrow> session_log list" where
  "list_log_after st sid q = sort_key sl_created_at
     (filter (\<lambda>l. case q_before q of None \<Rightarrow> True | Some before \<Rightarrow> sl_created_at l < before)
       (filter (\<lambda>l. case q_after q of None \<Rightarrow> True | Some after \<Rightarrow> after < sl_created_at l)
         (filter (\<lambda>l. sl_session l = sid) (hm_values st))))"

record session_logs =
  lg_session :: session_id
  lg_store :: log_store
  lg_ids :: "nat id_generator"
  lg_events :: "session_event list"

definition session_log_entry :: "session_id \<Rightarrow> timestamp \<Rightarrow> log_id \<Rightarrow> session_log_content \<Rightarrow> session_log" where
  "session_log_entry sid now i content = \<lparr>sl_id = i, sl_session = sid, sl_content = content,
     sl_created_at = now, sl_last_updated_at = now\<rparr>"

definition log_content_new ::
  "(nat \<Rightarrow> u64) \<Rightarrow> timestamp \<Rightarrow> session_log_content \<Rightarrow> (session_logs, error, log_id) prog" where
  "log_content_new draw now content = (\<lambda>s.
     let (i, g) = draw_id draw (lg_ids s);
         l = session_log_entry (lg_session s) now (SessionLogId i) content
     in (Ok (SessionLogId i), s\<lparr>lg_ids := g, lg_store := insert_log l (lg_store s),
          lg_events := lg_events s @ [LogCreated l]\<rparr>))"

definition replace_log ::
  "timestamp \<Rightarrow> log_id \<Rightarrow> session_log_content \<Rightarrow> (session_logs, error, unit) prog" where
  "replace_log now i content = (\<lambda>s.
     let l = session_log_entry (lg_session s) now i content
     in (Ok (), s\<lparr>lg_store := insert_log l (lg_store s), lg_events := lg_events s @ [LogUpdated l]\<rparr>))"

section \<open>The view of a session\<close>

record session_view =
  v_id :: session_id
  v_status :: session_status
  v_logs :: "session_log list"
  v_pendings :: "pending_hitl list"

definition get_session_view ::
  "sessions_table \<Rightarrow> log_store \<Rightarrow> hitl_store \<Rightarrow> session_id \<Rightarrow> error + session_view" where
  "get_session_view st logs hitls sid = (case get_session st sid of
      Inl e \<Rightarrow> Inl e
    | Inr s \<Rightarrow> Inr \<lparr>v_id = s_id s, v_status = s_status s, v_logs = list_log logs sid,
        v_pendings = list_pending_hitls hitls sid\<rparr>)"

section \<open>The unit of work\<close>

text \<open>
  An entity with three flags over an executor. The executor is a parameter: its three
  operations act on a state of their own and may fail.
\<close>

record ('s, 'e) uow_executor =
  ex_insert :: "'e \<Rightarrow> ('s, error, unit) prog"
  ex_replace :: "'e \<Rightarrow> ('s, error, unit) prog"
  ex_delete :: "'e \<Rightarrow> ('s, error, unit) prog"

record 'e unit_of_work =
  uw_entity :: 'e
  uw_dirty :: bool
  uw_create :: bool
  uw_deleted :: bool

definition unit_of_work_new :: "'e \<Rightarrow> 'e unit_of_work" where
  "unit_of_work_new e = \<lparr>uw_entity = e, uw_dirty = False, uw_create = False, uw_deleted = False\<rparr>"

definition uow_deref :: "'e unit_of_work \<Rightarrow> (error, 'e) outcome" where
  "uow_deref u = (if uw_deleted u then Panic ''entity has been deleted'' else Ok (uw_entity u))"

definition uow_update :: "('e \<Rightarrow> 'e) \<Rightarrow> 'e unit_of_work \<Rightarrow> (error, 'e unit_of_work) outcome" where
  "uow_update f u = (if uw_deleted u then Panic ''entity has been deleted''
     else Ok (u\<lparr>uw_entity := f (uw_entity u), uw_dirty := True\<rparr>))"

definition uow_flush :: "('s, 'e) uow_executor \<Rightarrow> ('e unit_of_work \<times> 's, error, unit) prog" where
  "uow_flush ex = (\<lambda>(u, s).
     if \<not> uw_dirty u then (Ok (), u, s)
     else case (case (uw_create u, uw_deleted u) of
           (True, True) \<Rightarrow> ret ()
         | (True, False) \<Rightarrow> ex_insert ex (uw_entity u)
         | (False, True) \<Rightarrow> ex_delete ex (uw_entity u)
         | (False, False) \<Rightarrow> ex_replace ex (uw_entity u)) s of
        (Ok _, s) \<Rightarrow> (Ok (), u\<lparr>uw_dirty := False\<rparr>, s)
      | (Err e, s) \<Rightarrow> (Err e, u, s)
      | (Panic m, s) \<Rightarrow> (Panic m, u, s))"

text \<open>The session store as the executor of a unit of work; a failed delete is dropped.\<close>

definition session_executor :: "(sessions_table, session) uow_executor" where
  "session_executor =
     \<lparr>ex_insert = \<lambda>s. modify (upsert_session s),
      ex_replace = \<lambda>s. modify (upsert_session s),
      ex_delete = \<lambda>s. modify (\<lambda>st. case delete_session (s_id s) st of
          Inl _ \<Rightarrow> st | Inr (_, st') \<Rightarrow> st')\<rparr>"

section \<open>Facts\<close>

interpretation sessions: keyed_store s_id "\<lambda>st k. hm_get st k" upsert_session hm_remove
  by unfold_locales (simp_all add: upsert_session_def)

definition log_store_wf :: "log_store \<Rightarrow> bool" where
  "log_store_wf st \<longleftrightarrow> hm_wf st \<and> (\<forall>k l. hm_get st k = Some l \<longrightarrow> k = (sl_session l, sl_id l))"

lemma log_store_wf_insert: "log_store_wf st \<Longrightarrow> log_store_wf (insert_log l st)"
  by (auto simp: log_store_wf_def insert_log_def split: option.splits)

lemma list_log_set:
  assumes "log_store_wf st"
  shows "l \<in> set (list_log st sid) \<longleftrightarrow> sl_session l = sid \<and> hm_get st (sid, sl_id l) = Some l"
proof -
  have "l \<in> set (hm_values st) \<longleftrightarrow> hm_get st (sl_session l, sl_id l) = Some l"
  proof
    assume "l \<in> set (hm_values st)"
    then obtain k where "(k, l) \<in> set st" by auto
    then have "hm_get st k = Some l" using assms hm_get_in_set [of st k l] by (simp add: log_store_wf_def)
    moreover from this have "k = (sl_session l, sl_id l)" using assms unfolding log_store_wf_def by blast
    ultimately show "hm_get st (sl_session l, sl_id l) = Some l" by simp
  qed (rule hm_get_values)
  then show ?thesis by (auto simp: list_log_def)
qed

section \<open>Properties\<close>

text \<open>
  The journal of a session is listed in the order of creation. Writing an entry under a
  known identifier changes its content and its update date and keeps its creation date, so the
  replaced entry stays at its date; writing under a new identifier adds the entry; every
  other entry is listed as before.
\<close>

theorem journal_write:
  assumes "log_store_wf st" and "st' = insert_log l st"
  shows "sorted (map sl_created_at (list_log st' (sl_session l))) \<and>
    (\<exists>m \<in> set (list_log st' (sl_session l)). sl_id m = sl_id l \<and> sl_content m = sl_content l \<and>
       sl_last_updated_at m = sl_last_updated_at l \<and>
       sl_created_at m = (case hm_get st (sl_session l, sl_id l) of
          Some old \<Rightarrow> sl_created_at old | None \<Rightarrow> sl_created_at l)) \<and>
    (\<forall>sid m. (sid, sl_id m) \<noteq> (sl_session l, sl_id l) \<longrightarrow>
       (m \<in> set (list_log st' sid) \<longleftrightarrow> m \<in> set (list_log st sid)))"
proof (intro conjI allI impI)
  have wf: "log_store_wf st'" using log_store_wf_insert [OF assms(1)] assms(2) by simp
  show "sorted (map sl_created_at (list_log st' (sl_session l)))" by (simp add: list_log_def)
  let ?m = "case hm_get st (sl_session l, sl_id l) of
      Some old \<Rightarrow> old\<lparr>sl_content := sl_content l, sl_last_updated_at := sl_last_updated_at l\<rparr>
    | None \<Rightarrow> l"
  have key: "sl_session ?m = sl_session l \<and> sl_id ?m = sl_id l"
    using assms(1) by (auto simp: log_store_wf_def split: option.splits)
  have "hm_get st' (sl_session l, sl_id l) = Some ?m"
    by (simp add: assms(2) insert_log_def split: option.splits)
  then have "?m \<in> set (list_log st' (sl_session l))" using list_log_set [OF wf] key by simp
  moreover have "sl_content ?m = sl_content l \<and> sl_last_updated_at ?m = sl_last_updated_at l \<and>
      sl_created_at ?m = (case hm_get st (sl_session l, sl_id l) of
          Some old \<Rightarrow> sl_created_at old | None \<Rightarrow> sl_created_at l)"
    by (simp split: option.splits)
  ultimately show "\<exists>m \<in> set (list_log st' (sl_session l)). sl_id m = sl_id l \<and>
       sl_content m = sl_content l \<and> sl_last_updated_at m = sl_last_updated_at l \<and>
       sl_created_at m = (case hm_get st (sl_session l, sl_id l) of
          Some old \<Rightarrow> sl_created_at old | None \<Rightarrow> sl_created_at l)"
    using key by blast
  fix sid and m :: session_log
  assume ne: "(sid, sl_id m) \<noteq> (sl_session l, sl_id l)"
  have "hm_get st' (sid, sl_id m) = hm_get st (sid, sl_id m)"
    using ne by (auto simp: assms(2) insert_log_def split: option.splits)
  then show "m \<in> set (list_log st' sid) \<longleftrightarrow> m \<in> set (list_log st sid)"
    using list_log_set [OF wf] list_log_set [OF assms(1)] by simp
qed

text \<open>
  A session changed through its unit of work reaches the store at the next flush, alone,
  and the flush lowers the flag, so that a second flush writes nothing; a session marked
  deleted is removed, and one created and deleted in the same unit touches nothing.
\<close>

theorem session_flush:
  assumes "uow_flush session_executor (u, st) = (r, u', st')" and "uw_dirty u"
  shows "r = Ok () \<and> \<not> uw_dirty u' \<and> uw_entity u' = uw_entity u \<and>
    (\<forall>sid. hm_get st' sid =
       (if sid \<noteq> s_id (uw_entity u) \<or> uw_create u \<and> uw_deleted u then hm_get st sid
        else if uw_deleted u then None else Some (uw_entity u))) \<and>
    uow_flush session_executor (u', st') = (Ok (), u', st')"
  using assms
  by (cases "uw_create u"; cases "uw_deleted u")
     (auto simp: uow_flush_def session_executor_def upsert_session_def delete_session_def
       split: option.splits)

section \<open>Witnesses\<close>

lemma journal_write_witness:
  "let sid = SessionId (ID 1 1); i = SessionLogId (ID 0 7);
       st = insert_log (session_log_entry sid 5 i (Plain ''a'')) [];
       st' = insert_log (session_log_entry sid 9 i (Plain ''b'')) st
   in log_store_wf st \<and> (\<exists>m \<in> set (list_log st' sid). sl_content m = Plain ''b'' \<and> sl_created_at m = 5)"
proof -
  let ?l = "session_log_entry (SessionId (ID 1 1)) 9 (SessionLogId (ID 0 7)) (Plain ''b'')"
  let ?st = "insert_log (session_log_entry (SessionId (ID 1 1)) 5 (SessionLogId (ID 0 7)) (Plain ''a'')) []"
  have wf: "log_store_wf ?st" by (rule log_store_wf_insert) (simp add: log_store_wf_def)
  show ?thesis
    using journal_write [OF wf refl, of ?l] wf
    by (auto simp: Let_def session_log_entry_def insert_log_def)
qed

lemma session_flush_witness:
  "let s = session_new 1 1 (SessionId (ID 1 1));
       u = (unit_of_work_new s)\<lparr>uw_dirty := True\<rparr>
   in hm_get (snd (snd (uow_flush session_executor (u, [])))) (SessionId (ID 1 1)) = Some s"
proof -
  let ?s = "session_new 1 1 (SessionId (ID 1 1))"
  let ?u = "(unit_of_work_new ?s)\<lparr>uw_dirty := True\<rparr>"
  obtain r u' st' where run: "uow_flush session_executor (?u, []) = (r, u', st')" by (rule prod_cases3)
  show ?thesis
    using session_flush [OF run] run by (simp add: unit_of_work_new_def session_new_def)
qed

end
