(* ===== verification/Session_Worker.thy ===== *)
theory Session_Worker
  imports Session_Store
begin

text \<open>
  The job that runs one frame (\<^verbatim>\<open>marie-core/src/session/worker.rs\<close>) with the records it uses
  (\<^verbatim>\<open>expert/model.rs\<close>, \<^verbatim>\<open>tools/mod.rs\<close>, \<^verbatim>\<open>tools/executor.rs\<close>, \<^verbatim>\<open>agent/context.rs\<close>). The catalogue
  is read as the worker sees it; the client of the model service is a parameter, which gives
  either the text of an error or the events of its stream.
\<close>

section \<open>Experts, tools and contexts\<close>

record expert =
  e_id :: expert_id
  e_prompt :: string
  e_model_id :: string
  e_allowed_tools :: "string list"

datatype tool_execution = Native

record tool =
  t_name :: string
  t_description :: string
  t_parameters_schema :: "value"
  t_execution :: tool_execution

datatype role = System | User | Assistant

record context_entry =
  ce_role :: role
  ce_content :: string

definition context_to_string :: "context_entry list \<Rightarrow> string" where
  "context_to_string ctx = concat (map ce_content ctx)"

definition expert_catalogable ::
  "(expert \<Rightarrow> string + u8 list) \<Rightarrow> (u8 list \<Rightarrow> string + expert) \<Rightarrow> expert catalogable" where
  "expert_catalogable ser de =
     \<lparr>cat_kind = ''/marie/catalog/experts'', cat_id = e_id, to_vec = ser, from_slice = de\<rparr>"

definition tool_catalogable ::
  "(tool \<Rightarrow> string + u8 list) \<Rightarrow> (u8 list \<Rightarrow> string + tool) \<Rightarrow> tool catalogable" where
  "tool_catalogable ser de =
     \<lparr>cat_kind = ''/marie/catalog/tools'', cat_id = t_name, to_vec = ser, from_slice = de\<rparr>"

text \<open>
  A tool executor on JSON values, from a typed one: the arguments are read, the result or the
  error of the execution is wrapped.
\<close>

type_synonym tool_executor = "session_id \<Rightarrow> value \<Rightarrow> (error, value) outcome"

definition wrap_tool ::
  "(value \<Rightarrow> string + 'a) \<Rightarrow> ('r \<Rightarrow> string + value) \<Rightarrow> (session_id \<Rightarrow> 'a \<Rightarrow> (error, 'r) outcome)
     \<Rightarrow> tool_executor" where
  "wrap_tool from_value to_value ex sid args = (case from_value args of
      Inl e \<Rightarrow> Err (err_msg (''echec lors de l'amorcage de l'execution de l'outil: '' @ e))
    | Inr a \<Rightarrow> (case ex sid a of
        Panic m \<Rightarrow> Panic m
      | Err e \<Rightarrow> (case err_message e of
            Ok m \<Rightarrow> Err (err_msg (''echec lors de l'execution de l'outil: '' @ m))
          | Err e' \<Rightarrow> Err e' | Panic m \<Rightarrow> Panic m)
      | Ok r \<Rightarrow> (case to_value r of
            Inl e \<Rightarrow> Err (err_msg (''echec lors de la serialization du retour de l'outil: '' @ e))
          | Inr v \<Rightarrow> Ok v)))"

definition tools_execute ::
  "(string, tool_executor) hash_map \<Rightarrow> session_id \<Rightarrow> string \<Rightarrow> value \<Rightarrow> (error, value) outcome" where
  "tools_execute executors sid i args = (case hm_get executors i of
      None \<Rightarrow> Err (err_msg (''aucun executeur enregistre pour le tool ToolId('' @ [CHR 0x22] @ i @
        [CHR 0x22] @ '')''))
    | Some ex \<Rightarrow> ex sid args)"

section \<open>The job\<close>

record run_frame_args =
  rf_session :: session_id
  rf_frame :: frame_id
  rf_channels :: channels
  rf_logs :: "run_log list"
  rf_data :: frame_kind

datatype model_stream_event =
    TextDelta string
  | ModelCompleted "string option" "request_tool_call list"
  | ModelFailed string

text \<open>What the job sees of the process it runs in.\<close>

record worker_env =
  we_store :: catalog_store
  we_graph_codec :: "graph_spec catalogable"
  we_expert_codec :: "expert catalogable"
  we_tool_codec :: "tool catalogable"
  we_native_tools :: "(string, tool) hash_map"
  we_tool_executors :: "(string, tool_executor) hash_map"
  we_graphs :: graphs
  we_model :: "string \<Rightarrow> context_entry list \<Rightarrow> tool list \<Rightarrow> string + model_stream_event list"

fun catalog_error_text :: "catalog_error \<Rightarrow> (error, string) outcome" where
  "catalog_error_text (StoreError e) = (case err_message e of
      Ok m \<Rightarrow> Ok (''erreur lors des operations de stockage du catalogue: '' @ m)
    | Err e' \<Rightarrow> Err e' | Panic m \<Rightarrow> Panic m)"
| "catalog_error_text (NotFound kind i) =
     Ok (''element de catalogue introuvable: '' @ kind @ ''/'' @ i)"
| "catalog_error_text (Deserialize e) =
     Ok (''erreur de (de)serialisation d'un element de catalogue: '' @ e)"

definition failed_response :: "frame_id \<Rightarrow> string \<Rightarrow> frame_response" where
  "failed_response fid e =
     \<lparr>resp_frame_id = fid, resp_updates = [], resp_new_logs = [], resp_result = Failed e\<rparr>"

text \<open>\<^verbatim>\<open>FrameResult::Failed(error.to_string())\<close>.\<close>

definition fail_with :: "frame_id \<Rightarrow> (error, string) outcome \<Rightarrow> (error, frame_response) outcome" where
  "fail_with fid text = (case text of
      Ok m \<Rightarrow> Ok (failed_response fid m) | Err e \<Rightarrow> Err e | Panic m \<Rightarrow> Panic m)"

text \<open>The tools an expert may call, or the response that ends the run.\<close>

fun resolve_tools ::
  "worker_env \<Rightarrow> frame_id \<Rightarrow> expert_id \<Rightarrow> string list \<Rightarrow> (error, frame_response) outcome + tool list" where
  "resolve_tools env fid eid [] = Inr []"
| "resolve_tools env fid eid (i # is) =
     (case fst (tools_get (we_tool_codec env) (we_native_tools env) i (we_store env)) of
        Ok (Some t) \<Rightarrow> map_sum id (\<lambda>ts. t # ts) (resolve_tools env fid eid is)
      | Ok None \<Rightarrow> Inl (Ok (failed_response fid (''tool '' @ i @ '' introuvable pour l'expert '' @ eid)))
      | Err e \<Rightarrow> Inl (fail_with fid (catalog_error_text e))
      | Panic m \<Rightarrow> Inl (Panic m))"

text \<open>The last text and the last failure of the stream.\<close>

fun drain_stream ::
  "string option \<Rightarrow> string option \<Rightarrow> model_stream_event list \<Rightarrow> string option \<times> string option" where
  "drain_stream answer failure [] = (answer, failure)"
| "drain_stream answer failure (ModelCompleted text tool_calls # es) = drain_stream text failure es"
| "drain_stream answer failure (ModelFailed m # es) = drain_stream answer (Some m) es"
| "drain_stream answer failure (TextDelta t # es) = drain_stream answer failure es"

definition option_string_value :: "string option \<Rightarrow> error + value" where
  "option_string_value s = Inr (case s of None \<Rightarrow> VNull | Some t \<Rightarrow> VString t)"

definition run_expert_consultation :: "worker_env \<Rightarrow> run_frame_args \<Rightarrow> (error, frame_response) outcome" where
  "run_expert_consultation env args =
     (let fid = rf_frame args; chs = tracker_new fid (rf_channels args) in
      case tracker_read string_from_value ''expert_id'' chs of
        Inl e \<Rightarrow> Err e
      | Inr eid \<Rightarrow> (case tracker_read string_from_value ''expert_consultation_task'' chs of
        Inl e \<Rightarrow> Err e
      | Inr task \<Rightarrow> (case fst (experts_get (we_expert_codec env) eid (we_store env)) of
        Panic m \<Rightarrow> Panic m
      | Err e \<Rightarrow> fail_with fid (catalog_error_text e)
      | Ok None \<Rightarrow> Ok (failed_response fid (''expert '' @ eid @ '' introuvable''))
      | Ok (Some ex) \<Rightarrow> (case resolve_tools env fid eid (e_allowed_tools ex) of
        Inl r \<Rightarrow> r
      | Inr tools \<Rightarrow> (case we_model env (e_model_id ex)
            [\<lparr>ce_role = System, ce_content = e_prompt ex\<rparr>, \<lparr>ce_role = User, ce_content = task\<rparr>] tools of
        Inl m \<Rightarrow> Ok (failed_response fid m)
      | Inr events \<Rightarrow> (case drain_stream None None events of
          (answer, Some m) \<Rightarrow> Ok \<lparr>resp_frame_id = fid, resp_updates = tracker_into_updates chs,
              resp_new_logs = [], resp_result = Failed m\<rparr>
        | (answer, None) \<Rightarrow>
            (case tracker_write option_string_value ''expert_consultation_answer'' answer chs of
              Ok chs \<Rightarrow> Ok \<lparr>resp_frame_id = fid, resp_updates = tracker_into_updates chs,
                  resp_new_logs = [], resp_result = Completed\<rparr>
            | Err e \<Rightarrow> Err e
            | Panic m \<Rightarrow> Panic m)))))))"

definition run_tool_call ::
  "worker_env \<Rightarrow> run_frame_args \<Rightarrow> tool_name \<Rightarrow> value \<Rightarrow> (error, frame_response) outcome" where
  "run_tool_call env args name parameters =
     (case tools_execute (we_tool_executors env) (rf_session args) name parameters of
        Ok v \<Rightarrow> Ok \<lparr>resp_frame_id = rf_frame args,
            resp_updates = [\<lparr>upd_name = ''tool_result'', upd_value = v, upd_contributor = rf_frame args\<rparr>],
            resp_new_logs = [], resp_result = Completed\<rparr>
      | Err e \<Rightarrow> fail_with (rf_frame args) (err_message e)
      | Panic m \<Rightarrow> Panic m)"

text \<open>The message of a missing node; \<^verbatim>\<open>Debug\<close> escapes inside the quotes are not rendered.\<close>

definition node_not_found :: "graph_node_id \<Rightarrow> graph_ref \<Rightarrow> string" where
  "node_not_found nid r = ''noeud NodeId('' @ [CHR 0x22] @ nid @ [CHR 0x22] @
     '') introuvable dans le graphe GraphRef(CatalogItemRef { kind: '' @ [CHR 0x22] @ ref_kind r @
     [CHR 0x22] @ '', id: '' @ [CHR 0x22] @ ref_id r @ [CHR 0x22] @ '', version: '' @
     show_nat (ref_version r) @ '' })''"

definition run_graph_node ::
  "worker_env \<Rightarrow> run_frame_args \<Rightarrow> graph_ref \<Rightarrow> graph_node_id \<Rightarrow> (error, frame_response) outcome" where
  "run_graph_node env args r nid =
     (let fid = rf_frame args in
      case fst (catalog_deref (we_graph_codec env) r (we_store env)) of
        Panic m \<Rightarrow> Panic m
      | Err e \<Rightarrow> fail_with fid (catalog_error_text e)
      | Ok g \<Rightarrow> (case hm_get (g_nodes g) nid of
          None \<Rightarrow> Ok (failed_response fid (node_not_found nid r))
        | Some spec \<Rightarrow>
            (case graphs_execute (we_graphs env) spec
                (node_context_new (rf_session args) fid (tracker_new fid (rf_channels args))
                  (run_logs_new (rf_logs args))) of
               Ok (ctx, result) \<Rightarrow> Ok \<lparr>resp_frame_id = fid,
                   resp_updates = tracker_into_updates (nc_channels ctx),
                   resp_new_logs = into_new_logs (nc_logs ctx), resp_result = result\<rparr>
             | Err e \<Rightarrow> fail_with fid (err_message e)
             | Panic m \<Rightarrow> Panic m)))"

definition run_frame :: "worker_env \<Rightarrow> run_frame_args \<Rightarrow> (error, frame_response) outcome" where
  "run_frame env args = (case rf_data args of
      ExpertConsultation \<Rightarrow> run_expert_consultation env args
    | ToolCall _ name parameters \<Rightarrow> run_tool_call env args name parameters
    | GraphNode r nid \<Rightarrow> run_graph_node env args r nid
    | _ \<Rightarrow> Panic ''not yet implemented: ...'')"

section \<open>Facts\<close>

lemma resolve_tools_no_updates:
  "resolve_tools env fid eid is = Inl (Ok resp) \<Longrightarrow> resp_updates resp = []"
proof (induction "is")
  case (Cons i "is")
  then show ?case
    by (cases "resolve_tools env fid eid is")
       (auto simp: failed_response_def fail_with_def split: outcome.splits option.splits)
qed simp

lemma expert_updates:
  assumes "run_expert_consultation env args = Ok resp" and "u \<in> set (resp_updates resp)"
  shows "upd_name u = ''expert_consultation_answer''"
  using assms resolve_tools_no_updates
  by (fastforce simp: run_expert_consultation_def Let_def failed_response_def fail_with_def
      tracker_into_updates_def tracker_new_def tracker_write_def option_string_value_def
      split: sum.splits outcome.splits option.splits prod.splits)

section \<open>Properties\<close>

text \<open>
  The run of a tool frame ends the frame in every case where the tool does not panic. A
  returned value is the one update, on the channel the tool specification exports and its
  aggregator imports; an error of the tool, or the absence of an executor, gives a failed
  result with its message and no update.
\<close>

theorem tool_frame_run:
  assumes "rf_data args = ToolCall i name parameters"
  shows "case hm_get (we_tool_executors env) name of
      None \<Rightarrow> \<exists>m. run_frame env args = Ok (failed_response (rf_frame args) m)
    | Some ex \<Rightarrow> (case ex (rf_session args) parameters of
        Ok v \<Rightarrow> \<exists>resp u. run_frame env args = Ok resp \<and> resp_result resp = Completed \<and>
          resp_updates resp = [u] \<and> upd_value u = v \<and> upd_contributor u = rf_frame args \<and>
          upd_name u \<in> set (exported_channels spec_tool) \<inter> set (imported_channels spec_tool_aggregator)
      | Err e \<Rightarrow> built e \<longrightarrow>
          run_frame env args = Ok (failed_response (rf_frame args) (hd (chain e)))
      | Panic m \<Rightarrow> run_frame env args = Panic m)"
proof -
  have chan: "''tool_result'' \<in> set (exported_channels spec_tool) \<inter> set (imported_channels spec_tool_aggregator)"
    by code_simp
  have msg: "err_message e = Ok (hd (chain e))" if "built e" for e
    using built_nonempty [OF that] by (cases "chain e") (simp_all add: err_message_def)
  have run: "run_frame env args = run_tool_call env args name parameters"
    using assms by (simp add: run_frame_def)
  show ?thesis
  proof (cases "hm_get (we_tool_executors env) name")
    case None
    then show ?thesis by (simp add: run run_tool_call_def tools_execute_def fail_with_def msg built_msg) blast
  next
    case (Some ex)
    then show ?thesis
      using chan
      by (cases "ex (rf_session args) parameters")
         (simp_all add: run run_tool_call_def tools_execute_def fail_with_def msg)
  qed
qed

text \<open>
  An expert frame cannot do its work through the channels its specification declares. Run
  with channels that all belong to the expert specification, the job returns an error, because
  it reads \<^verbatim>\<open>expert_id\<close> and \<^verbatim>\<open>expert_consultation_task\<close>; and whatever it is run with, the channel
  it writes is not one the specification exports.
\<close>

theorem expert_frame_channels:
  assumes "rf_data args = ExpertConsultation"
  shows "(fst ` set (rf_channels args) \<subseteq> set (map spec_name (spec_channels spec_expert)) \<longrightarrow>
      (\<exists>e. run_frame env args = Err e)) \<and>
    (\<forall>resp. run_frame env args = Ok resp \<longrightarrow>
      (\<forall>u \<in> set (resp_updates resp). upd_name u \<notin> set (exported_channels spec_expert)))"
proof -
  have run: "run_frame env args = run_expert_consultation env args"
    using assms by (simp add: run_frame_def)
  have names: "''expert_id'' \<notin> set (map spec_name (spec_channels spec_expert))"
    "''expert_consultation_answer'' \<notin> set (exported_channels spec_expert)"
    by code_simp+
  have "\<exists>e. run_frame env args = Err e"
    if "fst ` set (rf_channels args) \<subseteq> set (map spec_name (spec_channels spec_expert))"
  proof -
    have "hm_get (rf_channels args) ''expert_id'' = None"
      using that names(1) by (auto simp: map_of_eq_None_iff)
    then show ?thesis
      by (simp add: run run_expert_consultation_def Let_def tracker_read_def tracker_new_def)
  qed
  then show ?thesis using expert_updates names(2) run by metis
qed

section \<open>Witnesses\<close>

definition example_env :: worker_env where
  "example_env = \<lparr>we_store = [], we_graph_codec = graph_catalogable (\<lambda>_. Inl []) (\<lambda>_. Inl []),
     we_expert_codec = expert_catalogable (\<lambda>_. Inl []) (\<lambda>_. Inl []),
     we_tool_codec = tool_catalogable (\<lambda>_. Inl []) (\<lambda>_. Inl []), we_native_tools = [],
     we_tool_executors = [(''echo'', \<lambda>sid v. Ok v)],
     we_graphs = \<lparr>gr_native_nodes = [], gr_executors = []\<rparr>, we_model = \<lambda>_ _ _. Inr []\<rparr>"

definition example_run :: "frame_kind \<Rightarrow> run_frame_args" where
  "example_run k = \<lparr>rf_session = SessionId (ID 1 1), rf_frame = FrameId (ID 0 0),
     rf_channels = [(''expert_task'', VString ''t'')], rf_logs = [], rf_data = k\<rparr>"

lemma tool_frame_run_witness:
  "\<exists>resp u. run_frame example_env (example_run (ToolCall (ToolCallId (ID 0 1)) ''echo'' VNull)) = Ok resp \<and>
     resp_updates resp = [u] \<and> upd_value u = VNull"
  using tool_frame_run [of "example_run (ToolCall (ToolCallId (ID 0 1)) ''echo'' VNull)" _ _ _ example_env]
  by (auto simp: example_run_def example_env_def)

lemma expert_frame_channels_witness:
  "\<exists>e. run_frame example_env (example_run ExpertConsultation) = Err e"
proof -
  have "fst ` set (rf_channels (example_run ExpertConsultation))
      \<subseteq> set (map spec_name (spec_channels spec_expert))"
    by code_simp
  then show ?thesis
    using expert_frame_channels [of "example_run ExpertConsultation" example_env]
    by (simp add: example_run_def)
qed

end
