(* ===== verification/Checkpointer.thy ===== *)
theory Checkpointer
  imports Session_Worker
begin

text \<open>
  The checkpointer of a session (\<^verbatim>\<open>marie-core/src/session/checkpointer/mod.rs\<close>): it receives the
  events of the session one at a time, drives the status of the frames, commits the channels of
  a frame to a new snapshot, creates the frames that answer the requests of a run, and emits the
  events that make the session progress.

  A handler is a state-passing program over the record \<open>checkpointer\<close>; what it wrote before an
  error or a panic stays written. Calling an asynchronous function without awaiting it runs
  nothing but the evaluation of its arguments: the places where the source drops a future are
  marked. The draws of identifiers, the clock, the content of the catalogue and the answer of
  the worker client to a submission are the record \<open>ckp_env\<close>.
\<close>

record ckp_env =
  ev_fresh :: "nat \<Rightarrow> ID"
  ev_draw :: "nat \<Rightarrow> u64"
  ev_clock :: "nat \<Rightarrow> timestamp"
  ev_catalog :: catalog_store
  ev_graph_codec :: "graph_spec catalogable"
  ev_spawn :: "run_frame_args \<Rightarrow> worker_error + job_id"

record checkpointer =
  ck_session_id :: session_id
  ck_frames :: frame_tree
  ck_snapshots :: session_snapshots
  ck_hitls :: session_hitls
  ck_ids :: "nat id_generator"
  ck_ticks :: nat
  ck_jobs :: "run_frame_args list"
  ck_emitted :: "checkpoint_event list"
  ck_session :: "session unit_of_work"
  ck_table :: sessions_table
  ck_bus :: "session_event list"

type_synonym 'a ckp_prog = "(checkpointer, session_error, 'a) prog"

section \<open>Calls into the components\<close>

definition in_tree :: "'a tree_prog \<Rightarrow> 'a ckp_prog" where
  "in_tree m = (\<lambda>s. let (r, t) = m (ck_frames s) in (r, s\<lparr>ck_frames := t\<rparr>))"

definition in_snapshots :: "'a snapshot_prog \<Rightarrow> 'a ckp_prog" where
  "in_snapshots m = (\<lambda>s. let (r, t) = m (ck_snapshots s) in (r, s\<lparr>ck_snapshots := t\<rparr>))"

definition in_hitls :: "(session_hitls, hitl_error, 'a) prog \<Rightarrow> 'a ckp_prog" where
  "in_hitls m = (\<lambda>s. let (r, t) = m (ck_hitls s) in
     (case r of Ok a \<Rightarrow> Ok a | Err e \<Rightarrow> Err (HitlFailure e) | Panic p \<Rightarrow> Panic p, s\<lparr>ck_hitls := t\<rparr>))"

definition from_outcome :: "('e, 'a) outcome \<Rightarrow> ('s, 'e, 'a) prog" where
  "from_outcome r = (\<lambda>s. (r, s))"

definition graphs_get :: "ckp_env \<Rightarrow> graph_ref \<Rightarrow> catalog_error + graph_spec" where
  "graphs_get env r =
     (case get_catalog_item (ev_catalog env) (ref_kind r) (ref_id r) (ref_version r) of
        None \<Rightarrow> Inl (NotFound (ref_kind r) (ref_id r))
      | Some data \<Rightarrow> map_sum Deserialize id (from_slice (ev_graph_codec env) data))"

definition get_graph :: "ckp_env \<Rightarrow> graph_ref \<Rightarrow> graph_spec ckp_prog" where
  "get_graph env r = of_sum (map_sum CatalogFailure id (graphs_get env r))"

definition latest_graph :: "ckp_env \<Rightarrow> graph_id \<Rightarrow> graph_ref option ckp_prog" where
  "latest_graph env i = (\<lambda>s. (case fst (graphs_latest (ev_graph_codec env) i (ev_catalog env)) of
      Ok r \<Rightarrow> Ok r | Err e \<Rightarrow> Err (CatalogFailure e) | Panic p \<Rightarrow> Panic p, s))"

definition spec_of :: "ckp_env \<Rightarrow> frame_id \<Rightarrow> common_spec ckp_prog" where
  "spec_of env i = in_tree (common_spec_of (graphs_get env) i)"

definition latest_of :: "frame_id \<Rightarrow> snapshot ckp_prog" where
  "latest_of i = in_snapshots (snapshots_latest i)"

definition now :: "ckp_env \<Rightarrow> timestamp ckp_prog" where
  "now env = (\<lambda>s. (Ok (ev_clock env (ck_ticks s)), s\<lparr>ck_ticks := Suc (ck_ticks s)\<rparr>))"

definition emit :: "(session_id \<Rightarrow> checkpoint_event) \<Rightarrow> unit ckp_prog" where
  "emit e = modify (\<lambda>s. s\<lparr>ck_emitted := ck_emitted s @ [e (ck_session_id s)]\<rparr>)"

section \<open>Error texts\<close>

fun prefixed :: "string \<Rightarrow> ('e, string) outcome \<Rightarrow> ('e, string) outcome" where
  "prefixed p (Ok m) = Ok (p @ m)"
| "prefixed p (Err e) = Err e"
| "prefixed p (Panic m) = Panic m"

fun job_id_display :: "job_id \<Rightarrow> string" where
  "job_id_display (JobId i) = id_display i"

fun worker_error_text :: "worker_error \<Rightarrow> (session_error, string) outcome" where
  "worker_error_text (NoJobExecutorFound n) = Ok (''aucun executeur de travail trouve pour '' @ n)"
| "worker_error_text (NoJobFound i) = Ok (''le job '' @ job_id_display i @ '' n'a pas ete trouve'')"
| "worker_error_text (Panicked m) = Ok (''l'execution du travail a panique : '' @ m)"
| "worker_error_text (ExecutionError e) = prefixed ''l'execution a echoue : '' (err_message e)"
| "worker_error_text NoWorkerAvailable = Ok ''aucun travailleur disponible''"
| "worker_error_text ProbingTimeOut = Ok ''le sondage a expire sans reponse''"
| "worker_error_text AckTimeOut = Ok ''le travailleur n'a pas reconnu la tache dans les temps''"
| "worker_error_text (ScheduledError m) =
     Ok (''une erreur est survenue pendant la programmation de la tache: '' @ m)"
| "worker_error_text (RpcError m) = Ok (''erreur lors de l'appel RPC : '' @ m)"
| "worker_error_text (SerdeError m) = Ok (''erreur lors des operations serde: '' @ m)"

fun hitl_error_text :: "hitl_error \<Rightarrow> (session_error, string) outcome" where
  "hitl_error_text (StorageError e) =
     prefixed ''erreur lors des operations de stockage: '' (err_message e)"
| "hitl_error_text (ValidationError m) = Ok (''erreur de validation: '' @ m)"

fun catalog_text :: "catalog_error \<Rightarrow> (session_error, string) outcome" where
  "catalog_text (StoreError e) =
     prefixed ''erreur lors des operations de stockage du catalogue: '' (err_message e)"
| "catalog_text (NotFound kind i) =
     Ok (''element de catalogue introuvable: '' @ kind @ ''/'' @ i)"
| "catalog_text (Deserialize e) =
     Ok (''erreur de (de)serialisation d'un element de catalogue: '' @ e)"

fun session_error_text :: "session_error \<Rightarrow> (session_error, string) outcome" where
  "session_error_text (StorageFailure e) =
     prefixed ''erreur lors des operations de stockage: '' (err_message e)"
| "session_error_text (StaleSuperstep expected got) =
     Ok (''superstep perime: attendu '' @ show_nat (unat expected) @ '', trouve '' @ show_nat (unat got))"
| "session_error_text (CatalogFailure e) = prefixed ''erreur de catalogue: '' (catalog_text e)"
| "session_error_text (GraphNotFound g) = Ok (''graphe introuvable: '' @ g)"
| "session_error_text (WorkerFailure e) = prefixed ''erreur du worker: '' (worker_error_text e)"
| "session_error_text (HitlFailure e) = prefixed ''erreur hitl: '' (hitl_error_text e)"

section \<open>Marking frames\<close>

definition mark_as_waiting_children :: "frame_id \<Rightarrow> unit ckp_prog" where
  "mark_as_waiting_children i = in_tree (set_status i FWaitingChildren)"

definition mark_frame_run_completed :: "frame_id \<Rightarrow> frame_response \<Rightarrow> unit ckp_prog" where
  "mark_frame_run_completed i response =
     seq (in_tree (set_status i (FRunCompleted response))) (emit (\<lambda>sid. FrameRunTerminated sid i))"

definition mark_frame_run_failed :: "frame_id \<Rightarrow> (session_error, string) outcome \<Rightarrow> unit ckp_prog" where
  "mark_frame_run_failed i text = bind (from_outcome text) (\<lambda>m.
     seq (in_tree (set_status i (FRunFailed m))) (emit (\<lambda>sid. FrameRunTerminated sid i)))"

definition mark_ready_to_run_frame :: "frame_id \<Rightarrow> unit ckp_prog" where
  "mark_ready_to_run_frame i =
     seq (in_tree (set_status i FReady)) (emit (\<lambda>sid. FrameReady sid i))"

definition mark_failed_frame :: "string \<Rightarrow> frame_id \<Rightarrow> unit ckp_prog" where
  "mark_failed_frame err i =
     seq (in_tree (set_status i (FFailed err))) (emit (\<lambda>sid. FrameTerminated sid i))"

definition parent_frame :: "frame_id \<Rightarrow> frame_id option ckp_prog" where
  "parent_frame i = gets (\<lambda>s. parent_of (ck_frames s) i)"

definition notify_parent :: "frame_id \<Rightarrow> unit ckp_prog" where
  "notify_parent i = bind (parent_frame i) (\<lambda>p. case p of
      None \<Rightarrow> ret ()
    | Some p \<Rightarrow> emit (\<lambda>sid. ChildFrameTerminated sid p i))"

definition mark_completed_frame :: "frame_id \<Rightarrow> unit ckp_prog" where
  "mark_completed_frame i = seq (in_tree (set_status i FCompleted))
     (seq (emit (\<lambda>sid. FrameTerminated sid i)) (notify_parent i))"

text \<open>The failure of a handler: the session is marked, flushed, and the bus is told.\<close>

definition update_session :: "(session \<Rightarrow> session) \<Rightarrow> unit ckp_prog" where
  "update_session f = (\<lambda>s. case uow_update f (ck_session s) of
      Ok u \<Rightarrow> (Ok (), s\<lparr>ck_session := u\<rparr>)
    | Err e \<Rightarrow> (Err (StorageFailure e), s)
    | Panic m \<Rightarrow> (Panic m, s))"

definition flush_session :: "unit ckp_prog" where
  "flush_session = (\<lambda>s. case uow_flush session_executor (ck_session s, ck_table s) of
      (r, u, st) \<Rightarrow> (case r of Ok _ \<Rightarrow> Ok () | Err e \<Rightarrow> Err (StorageFailure e) | Panic m \<Rightarrow> Panic m,
        s\<lparr>ck_session := u, ck_table := st\<rparr>))"

definition fail :: "session_error \<Rightarrow> unit ckp_prog" where
  "fail err = bind (from_outcome (session_error_text err)) (\<lambda>m.
     seq (update_session (\<lambda>x. x\<lparr>s_status := SessionFailed m\<rparr>))
     (seq (ignore flush_session)
       (modify (\<lambda>s. s\<lparr>ck_bus := ck_bus s @
          [SessionStatusUpdated (ck_session_id s) (s_status (uw_entity (ck_session s)))]\<rparr>))))"

section \<open>Running a frame, creating frames\<close>

definition ckp_run_frame :: "ckp_env \<Rightarrow> frame_id \<Rightarrow> unit ckp_prog" where
  "ckp_run_frame env i =
     bind (latest_of i) (\<lambda>snap.
     bind (in_tree (logs_of i)) (\<lambda>logs.
     bind (in_tree (data_of i)) (\<lambda>data.
     bind (gets ck_session_id) (\<lambda>sid.
       let args = \<lparr>rf_session = sid, rf_frame = i, rf_channels = ss_channels snap, rf_logs = logs, rf_data = data\<rparr>
       in seq (of_sum (map_sum WorkerFailure id (ev_spawn env args)))
            (modify (\<lambda>s. s\<lparr>ck_jobs := ck_jobs s @ [args]\<rparr>))))))"

text \<open>The detached task of a run relays one state of its job.\<close>

definition relay_job_state :: "frame_id \<Rightarrow> frame_response job_state \<Rightarrow> unit ckp_prog" where
  "relay_job_state i st = emit (\<lambda>sid. FrameRunJobStateUpdate sid i st)"

definition in_tree_id :: "(frame_tree \<Rightarrow> frame_id \<times> frame_tree) \<Rightarrow> frame_id ckp_prog" where
  "in_tree_id f = (\<lambda>s. let (i, t) = f (ck_frames s) in (Ok i, s\<lparr>ck_frames := t\<rparr>))"

definition extend_inherited :: "(channel_name \<times> value) list \<Rightarrow> frame_node \<Rightarrow> frame_node" where
  "extend_inherited kvs n = n\<lparr>fn_inherited := channels_extend (fn_inherited n) kvs\<rparr>"

definition set_root :: "ckp_env \<Rightarrow> new_frame_node_args \<Rightarrow> (channel_name, value) hash_map \<Rightarrow> frame_id ckp_prog" where
  "set_root env args initial = bind (in_tree_id (tree_set_root (ev_fresh env) args)) (\<lambda>i.
     seq (in_tree (tree_write i (extend_inherited initial))) (ret i))"

text \<open>\<^verbatim>\<open>flat_map\<close> of the named channels over a lookup.\<close>

definition pick_channels ::
  "channel_name list \<Rightarrow> (channel_name, value) hash_map \<Rightarrow> (channel_name \<times> value) list" where
  "pick_channels names chans =
     List.map_filter (\<lambda>n. map_option (\<lambda>v. (n, v)) (hm_get chans n)) names"

definition write_to_inherited_channels ::
  "ckp_env \<Rightarrow> frame_id \<Rightarrow> (channel_name \<times> value) list \<Rightarrow> unit ckp_prog" where
  "write_to_inherited_channels env i kvs = bind (spec_of env i) (\<lambda>spec.
     seq (in_tree (try_get i))
       (in_tree (modify (update_node i
         (extend_inherited (pick_channels (inherited_channels spec) (hm_from kvs)))))))"

definition inherit_snapshot :: "ckp_env \<Rightarrow> frame_id \<Rightarrow> frame_id \<Rightarrow> unit ckp_prog" where
  "inherit_snapshot env src i = bind (latest_of src) (\<lambda>snap. bind (spec_of env i) (\<lambda>spec.
     in_tree (tree_write i (\<lambda>n. (extend_inherited
       (pick_channels (inherited_channels spec) (ss_channels snap)) n)\<lparr>fn_superstep := ss_superstep snap\<rparr>))))"

definition inherit_from_parent :: "ckp_env \<Rightarrow> frame_id \<Rightarrow> unit ckp_prog" where
  "inherit_from_parent env i = bind (parent_frame i) (\<lambda>p. case p of
      None \<Rightarrow> ret () | Some p \<Rightarrow> inherit_snapshot env p i)"

definition inherit_from_prev_sibling :: "ckp_env \<Rightarrow> frame_id \<Rightarrow> unit ckp_prog" where
  "inherit_from_prev_sibling env i = bind (gets (\<lambda>s. prev_sibling_of (ck_frames s) i)) (\<lambda>q. case q of
      None \<Rightarrow> ret () | Some q \<Rightarrow> inherit_snapshot env q i)"

definition append_frame :: "ckp_env \<Rightarrow> frame_id \<Rightarrow> new_frame_node_args \<Rightarrow> frame_id ckp_prog" where
  "append_frame env parent args =
     bind (in_tree_id (tree_append (ev_fresh env) parent args)) (\<lambda>i.
     bind (in_tree (policy_of parent)) (\<lambda>policy.
     bind (spec_of env i) (\<lambda>spec.
     seq (in_tree (tree_write i (extend_inherited (default_values spec))))
     (seq (if resume_pol policy = Sequential
           then bind (gets (\<lambda>s. iter_children_of (ck_frames s) parent)) (\<lambda>ch.
             if ch \<noteq> [] then inherit_from_prev_sibling env i else inherit_from_parent env i)
           else inherit_from_parent env i)
     (seq (emit (\<lambda>sid. FrameCreated sid i)) (ret i))))))"

section \<open>Committing channels\<close>

text \<open>The exported and imported values of one child, pushed on the contributions per channel.\<close>

fun collect_exports ::
  "channel_name list \<Rightarrow> channels \<Rightarrow> channel_name list \<Rightarrow> (channel_name, value list) hash_map
     \<Rightarrow> (channel_name, value list) hash_map" where
  "collect_exports imported chans [] acc = acc"
| "collect_exports imported chans (n # ns) acc =
     collect_exports imported chans ns
       (if n \<notin> set imported then acc
        else case hm_get chans n of None \<Rightarrow> acc | Some v \<Rightarrow> hm_push n v acc)"

fun drain_children ::
  "ckp_env \<Rightarrow> channel_name list \<Rightarrow> frame_id list \<Rightarrow> (channel_name, value list) hash_map
     \<Rightarrow> (channel_name, value list) hash_map ckp_prog" where
  "drain_children env imported [] acc = ret acc"
| "drain_children env imported (c # cs) acc =
     bind (spec_of env c) (\<lambda>child_spec. bind (latest_of c) (\<lambda>snap.
       drain_children env imported cs
         (collect_exports imported (ss_channels snap) (exported_channels child_spec) acc)))"

definition drain_pending_accumulators ::
  "ckp_env \<Rightarrow> frame_id \<Rightarrow> frame_id list \<Rightarrow> channel_update list ckp_prog" where
  "drain_pending_accumulators env i relevants =
     bind (spec_of env i) (\<lambda>parent_spec.
     bind (drain_children env (imported_channels parent_spec) relevants []) (\<lambda>per_channel.
       ret (concat (map (\<lambda>(name, values).
         map (\<lambda>v. \<lparr>upd_name = name, upd_value = v, upd_contributor = i\<rparr>) values) per_channel))))"

definition resolved_by ::
  "ckp_env \<Rightarrow> run_log_content \<Rightarrow> frame_id \<Rightarrow> frame_spec_ref \<Rightarrow> channels \<Rightarrow> value option ckp_prog" where
  "resolved_by env content child spec_ref chans = (case (content, spec_ref) of
      (HitlLog _, HitlSpec) \<Rightarrow> ret (hm_get chans ''hitl_answer'')
    | (ConsultExpertsLog _, ExpertAggregatorSpec) \<Rightarrow> ret (hm_get chans ''expert_consultation_answer'')
    | (CallToolsLog _, ToolAggregatorSpec) \<Rightarrow> ret (hm_get chans ''tool_result'')
    | (GraphLog _, GraphSpec _) \<Rightarrow> bind (spec_of env child) (\<lambda>sub_spec.
        ret (Some (VObject (hm_from (pick_channels (exported_channels sub_spec) chans)))))
    | _ \<Rightarrow> ret None)"

fun resolve_from :: "ckp_env \<Rightarrow> frame_id \<Rightarrow> run_log \<Rightarrow> frame_id list \<Rightarrow> unit ckp_prog" where
  "resolve_from env i pending [] = ret ()"
| "resolve_from env i pending (c # cs) =
     bind (in_tree (spec_ref_of c)) (\<lambda>spec_ref. bind (latest_of c) (\<lambda>snap.
     bind (resolved_by env (log_content pending) c spec_ref (ss_channels snap)) (\<lambda>r. case r of
         Some v \<Rightarrow> in_tree (resolve_log i (log_index pending) v)
       | None \<Rightarrow> resolve_from env i pending cs)))"

definition resolve_pending_log :: "ckp_env \<Rightarrow> frame_id \<Rightarrow> frame_id list \<Rightarrow> unit ckp_prog" where
  "resolve_pending_log env i relevants = bind (in_tree (pending_log_of i)) (\<lambda>p. case p of
      None \<Rightarrow> ret () | Some pending \<Rightarrow> resolve_from env i pending relevants)"

fun group_updates ::
  "channel_update list \<Rightarrow> (channel_name, value list) hash_map \<Rightarrow> (channel_name, value list) hash_map" where
  "group_updates [] acc = acc"
| "group_updates (u # us) acc = group_updates us (hm_push (upd_name u) (upd_value u) acc)"

definition reducer_of :: "common_spec \<Rightarrow> channel_name \<Rightarrow> reducer" where
  "reducer_of spec name = (case List.find (\<lambda>c. spec_name c = name) (spec_channels spec) of
      Some c \<Rightarrow> spec_reducer c | None \<Rightarrow> LastWriteWins)"

fun apply_contributions ::
  "common_spec \<Rightarrow> (channel_name \<times> value list) list \<Rightarrow> channels \<Rightarrow> channels" where
  "apply_contributions spec [] chans = chans"
| "apply_contributions spec ((name, vs) # rest) chans =
     apply_contributions spec rest (hm_insert name (reduce (reducer_of spec name) (hm_get chans name) vs) chans)"

definition commit_snapshot ::
  "ckp_env \<Rightarrow> frame_id \<Rightarrow> u32 \<Rightarrow> channel_update list \<Rightarrow> snapshot_ref list \<Rightarrow> snapshot_ref ckp_prog" where
  "commit_snapshot env i expected updates join_sources =
     bind (latest_of i) (\<lambda>last.
       if ss_superstep last \<noteq> expected then throw (StaleSuperstep expected (ss_superstep last))
       else let per_channel = group_updates updates [] in
         bind (if per_channel = [] then ret (ss_channels last)
               else bind (spec_of env i) (\<lambda>spec. ret (apply_contributions spec per_channel (ss_channels last))))
         (\<lambda>chans. bind (gets ck_session_id) (\<lambda>sid. bind (now env) (\<lambda>t.
           in_snapshots (snapshots_push (snapshot_new t sid i (expected + 1) chans join_sources))))))"

section \<open>Frames for graphs\<close>

definition append_graph_node :: "ckp_env \<Rightarrow> frame_id \<Rightarrow> graph_ref \<Rightarrow> graph_node_id \<Rightarrow> unit ckp_prog" where
  "append_graph_node env parent r nid = bind (gets ck_session_id) (\<lambda>sid.
     seq (append_frame env parent (new_frame_args sid (GraphSpec r) (GraphNode r nid))) (ret ()))"

definition append_graph_thread ::
  "ckp_env \<Rightarrow> frame_id \<Rightarrow> graph_ref \<Rightarrow> graph_node_id \<Rightarrow> frame_id ckp_prog" where
  "append_graph_thread env parent r start = bind (gets ck_session_id) (\<lambda>sid.
     let policy = policy_default\<lparr>on_child_failed := FailIfAtLeastHasFailed 1, resume_pol := Sequential\<rparr>
     in bind (append_frame env parent
           ((new_frame_args sid (GraphSpec r) (GraphThread r))\<lparr>na_policy := policy\<rparr>)) (\<lambda>thread_id.
        seq (mark_as_waiting_children thread_id)
        (seq (append_graph_node env thread_id r start) (ret thread_id))))"

definition append_graph_span ::
  "ckp_env \<Rightarrow> frame_id \<Rightarrow> graph_ref \<Rightarrow> branch list \<Rightarrow> graph_node_id \<Rightarrow> unit ckp_prog" where
  "append_graph_span env parent r branches join = bind (gets ck_session_id) (\<lambda>sid.
     let policy = policy_default\<lparr>on_child_failed := FailIfAtLeastHasFailed 1, resume_pol := FanIn\<rparr>
     in bind (append_frame env parent
           ((new_frame_args sid (GraphSpec r) (GraphSpan r join))\<lparr>na_policy := policy\<rparr>)) (\<lambda>span_id.
        seq (mark_as_waiting_children span_id)
        (for_each branches (\<lambda>b. bind (append_graph_thread env span_id r (br_start b)) (\<lambda>i.
          if br_overrides b \<noteq> [] then write_to_inherited_channels env i (br_overrides b) else ret ())))))"

definition append_graph :: "ckp_env \<Rightarrow> frame_id \<Rightarrow> graph_id \<Rightarrow> unit ckp_prog" where
  "append_graph env parent gid = bind (latest_graph env gid) (\<lambda>r. case r of
      None \<Rightarrow> throw (GraphNotFound gid)
    | Some r \<Rightarrow> bind (get_graph env r) (\<lambda>g. bind (gets ck_session_id) (\<lambda>sid.
        let policy = policy_default\<lparr>on_child_failed := FailIfAtLeastHasFailed 1, resume_pol := Sequential,
              on_start_pol := AppendGraphThread r (g_entry g)\<rparr>
        in bind (append_frame env parent
              ((new_frame_args sid (GraphSpec r) (Graph r))\<lparr>na_policy := policy\<rparr>)) (\<lambda>i.
           mark_as_waiting_children i))))"

section \<open>Frames for requests\<close>

definition request_hitl :: "ckp_env \<Rightarrow> hitl \<Rightarrow> hitl_id ckp_prog" where
  "request_hitl env h = in_hitls (request (ev_draw env) h)"

definition append_hitl :: "ckp_env \<Rightarrow> frame_id \<Rightarrow> hitl \<Rightarrow> frame_id ckp_prog" where
  "append_hitl env i h = bind (request_hitl env h) (\<lambda>hid. bind (gets ck_session_id) (\<lambda>sid.
     append_frame env i (new_frame_args sid HitlSpec (HitlFrame hid))))"

text \<open>The write of the two inherited channels is not awaited, so it is not made.\<close>

definition append_expert_consultation :: "ckp_env \<Rightarrow> frame_id \<Rightarrow> request_ask_expert \<Rightarrow> frame_id ckp_prog" where
  "append_expert_consultation env parent req = bind (gets ck_session_id) (\<lambda>sid.
     append_frame env parent (new_frame_args sid ExpertSpec ExpertConsultation))"

definition append_experts_consultations ::
  "ckp_env \<Rightarrow> frame_id \<Rightarrow> request_ask_expert list \<Rightarrow> unit ckp_prog" where
  "append_experts_consultations env callee requests =
     for_each requests (\<lambda>req. seq (append_expert_consultation env callee req) (ret ()))"

definition next_tool_call_id :: "ckp_env \<Rightarrow> tool_call_id ckp_prog" where
  "next_tool_call_id env = (\<lambda>s. let (i, g) = draw_id (ev_draw env) (ck_ids s) in
     (Ok (ToolCallId i), s\<lparr>ck_ids := g\<rparr>))"

definition append_tool_call :: "ckp_env \<Rightarrow> frame_id \<Rightarrow> request_tool_call \<Rightarrow> frame_id ckp_prog" where
  "append_tool_call env parent req = bind (gets ck_session_id) (\<lambda>sid. bind (next_tool_call_id env) (\<lambda>i.
     append_frame env parent
       (new_frame_args sid ToolCallSpec (ToolCall i (call_name req) (call_parameters req)))))"

definition append_tool_aggregator :: "ckp_env \<Rightarrow> frame_id \<Rightarrow> frame_id ckp_prog" where
  "append_tool_aggregator env callee = bind (gets ck_session_id) (\<lambda>sid.
     let policy = policy_default\<lparr>on_child_failed := FailIfAtLeastHasFailed 1, resume_pol := FanIn\<rparr>
     in bind (append_frame env callee
           ((new_frame_args sid ToolAggregatorSpec Void)\<lparr>na_policy := policy\<rparr>)) (\<lambda>agg.
        seq (mark_as_waiting_children agg) (ret agg)))"

definition append_tool_calls :: "ckp_env \<Rightarrow> frame_id \<Rightarrow> request_tool_call list \<Rightarrow> frame_id ckp_prog" where
  "append_tool_calls env callee requests = bind (append_tool_aggregator env callee) (\<lambda>agg.
     seq (for_each requests (\<lambda>req. seq (append_tool_call env agg req) (ret ()))) (ret agg))"

section \<open>Handlers\<close>

definition on_session_created :: "unit ckp_prog" where
  "on_session_created = ret ()"

fun answer_value :: "answer \<Rightarrow> value" where
  "answer_value (Single t) = VString t"
| "answer_value (Multiple ts) = VArray (map VString ts)"

definition answers_value :: "answers \<Rightarrow> value" where
  "answers_value as = VObject (map (\<lambda>(k, a). (k, answer_value a)) as)"

definition on_hitl_response :: "hitl_id \<Rightarrow> answers \<Rightarrow> unit ckp_prog" where
  "on_hitl_response hid as = bind (in_tree (frame_id_bound_to_hitl_id hid)) (\<lambda>f. case f of
      None \<Rightarrow> ret ()
    | Some i \<Rightarrow> bind (in_tree (log_index_bound_to_hitl_id i hid)) (\<lambda>index. case index of
        None \<Rightarrow> panic ''called `Option::unwrap()` on a `None` value''
      | Some k \<Rightarrow> seq (in_tree (resolve_log i k (answers_value as)))
          (seq (mark_ready_to_run_frame i) (panic ''not yet implemented''))))"

definition on_frame_created :: "ckp_env \<Rightarrow> frame_id \<Rightarrow> unit ckp_prog" where
  "on_frame_created env i = bind (in_tree (status_of i)) (\<lambda>st.
     if st \<noteq> FPending then ret ()
     else bind (in_tree (policy_of i)) (\<lambda>policy. case on_start_pol policy of
         StartRunFrame \<Rightarrow> mark_ready_to_run_frame i
       | AppendGraphThread r start \<Rightarrow>
           seq (ignore (append_graph_thread env i r start)) (mark_as_waiting_children i)
       | AppendGraphSpan r join branches \<Rightarrow>
           seq (ignore (append_graph_span env i r branches join)) (mark_as_waiting_children i)
       | AppendGraphNode r start \<Rightarrow>
           seq (ignore (append_graph_node env i r start))
           (seq (in_tree (set_resume_policy i Sequential)) (mark_as_waiting_children i))))"

definition on_frame_ready :: "ckp_env \<Rightarrow> frame_id \<Rightarrow> unit ckp_prog" where
  "on_frame_ready env i = ckp_run_frame env i"

definition on_frame_run_update :: "frame_id \<Rightarrow> frame_response job_state \<Rightarrow> unit ckp_prog" where
  "on_frame_run_update i st = (case st of
      JobCompleted response \<Rightarrow>
        seq (mark_frame_run_completed i response) (emit (\<lambda>sid. FrameRunTerminated sid i))
    | JobFailed e \<Rightarrow>
        seq (mark_frame_run_failed i (worker_error_text e)) (emit (\<lambda>sid. FrameRunTerminated sid i))
    | _ \<Rightarrow> ret ())"

text \<open>
  The calls whose future is dropped (the binding of a human request to the log, the resume
  policies, and after a fork the reduce policy) leave only the evaluation of their arguments.
\<close>

definition on_run_result :: "ckp_env \<Rightarrow> frame_id \<Rightarrow> frame_result \<Rightarrow> unit ckp_prog" where
  "on_run_result env i result = (case result of
      RequestHitl h \<Rightarrow>
        seq (request_hitl env h) (seq (in_tree (logs_of i)) (mark_as_waiting_children i))
    | ConsultExperts requests \<Rightarrow>
        seq (append_experts_consultations env i requests)
        (seq (in_tree (set_reduce_policy i Reduce)) (mark_as_waiting_children i))
    | CallTools requests \<Rightarrow>
        seq (append_tool_calls env i requests)
        (seq (in_tree (set_reduce_policy i Reduce)) (mark_as_waiting_children i))
    | ExecuteGraph gid \<Rightarrow> seq (append_graph env i gid) (mark_as_waiting_children i)
    | Continue \<Rightarrow> bind (parent_frame i) (\<lambda>p. case p of None \<Rightarrow> ret ()
        | Some parent \<Rightarrow> bind (in_tree (data_of i)) (\<lambda>d. case d of
            GraphNode r nid \<Rightarrow> bind (get_graph env r) (\<lambda>g. case hm_get (g_edges g) nid of
                None \<Rightarrow> ret ()
              | Some next \<Rightarrow> seq (append_graph_node env parent r next) (mark_completed_frame i))
          | _ \<Rightarrow> ret ()))
    | GoTo nid \<Rightarrow> bind (parent_frame i) (\<lambda>p. case p of None \<Rightarrow> ret ()
        | Some parent \<Rightarrow> bind (in_tree (data_of i)) (\<lambda>d. case d of
            GraphNode r _ \<Rightarrow> seq (append_graph_node env parent r nid) (mark_completed_frame i)
          | _ \<Rightarrow> ret ()))
    | Fork branches join \<Rightarrow> bind (parent_frame i) (\<lambda>p. case p of None \<Rightarrow> ret ()
        | Some parent \<Rightarrow> bind (in_tree (spec_ref_of parent)) (\<lambda>sr.
            bind (from_outcome (into_graph_ref sr)) (\<lambda>r.
            seq (append_graph_span env parent r branches join)
            (seq (mark_as_waiting_children parent) (mark_completed_frame i)))))
    | Completed \<Rightarrow> mark_completed_frame i
    | Failed err \<Rightarrow> mark_failed_frame err i)"

definition on_frame_run_terminated :: "ckp_env \<Rightarrow> frame_id \<Rightarrow> unit ckp_prog" where
  "on_frame_run_terminated env i = bind (in_tree (status_of i)) (\<lambda>st. case st of
      FRunCompleted response \<Rightarrow>
        seq (if resp_updates response \<noteq> []
             then bind (latest_of i) (\<lambda>snap.
               seq (commit_snapshot env i (ss_superstep snap) (resp_updates response) []) (ret ()))
             else ret ())
        (seq (in_tree (append_logs i (resp_new_logs response)))
          (on_run_result env i (resp_result response)))
    | _ \<Rightarrow> ret ())"

definition on_frame_terminated :: "frame_id \<Rightarrow> unit ckp_prog" where
  "on_frame_terminated i = notify_parent i"

definition statuses_of :: "frame_id list \<Rightarrow> frame_status list ckp_prog" where
  "statuses_of is = map_prog (\<lambda>c. in_tree (status_of c)) is"

definition children_of :: "frame_id \<Rightarrow> frame_id list ckp_prog" where
  "children_of i = gets (\<lambda>s. iter_children_of (ck_frames s) i)"

text \<open>\<^verbatim>\<open>all\<close> stops at the first frame that has not terminated.\<close>

fun all_have_terminated :: "frame_id list \<Rightarrow> bool ckp_prog" where
  "all_have_terminated [] = ret True"
| "all_have_terminated (c # cs) = bind (in_tree (status_of c)) (\<lambda>st.
     if status_terminated st then all_have_terminated cs else ret False)"

definition all_children_have_terminated :: "frame_id \<Rightarrow> bool ckp_prog" where
  "all_children_have_terminated i = bind (children_of i) all_have_terminated"

definition count_failed_frame_child :: "frame_id \<Rightarrow> nat ckp_prog" where
  "count_failed_frame_child i = bind (children_of i) (\<lambda>cs. bind (statuses_of cs) (\<lambda>sts.
     ret (length (filter status_failed sts))))"

definition resume_frame :: "frame_id \<Rightarrow> unit ckp_prog" where
  "resume_frame i = bind (in_tree (get_on_resume_policy i)) (\<lambda>p. case p of
      ResumeRunFrame \<Rightarrow> mark_ready_to_run_frame i
    | MarkComplete \<Rightarrow> mark_completed_frame i)"

text \<open>The two aggregation policies. A sequential parent looks at its last child.\<close>

definition resume_sequential :: "ckp_env \<Rightarrow> frame_id \<Rightarrow> unit ckp_prog" where
  "resume_sequential env i = bind (in_tree (last_child_of i)) (\<lambda>l. case l of
      None \<Rightarrow> mark_ready_to_run_frame i
    | Some last_child \<Rightarrow> bind (in_tree (status_of last_child)) (\<lambda>st.
        seq (if st = FCompleted
             then bind (latest_of i) (\<lambda>snap. bind (latest_of i) (\<lambda>source_snap.
               bind (drain_pending_accumulators env i [last_child]) (\<lambda>updates.
               seq (commit_snapshot env i (ss_superstep snap) updates [snapshot_to_ref source_snap])
                 (resolve_pending_log env i [last_child]))))
             else ret ())
        (resume_frame i)))"

definition completed_children :: "frame_id \<Rightarrow> frame_id list ckp_prog" where
  "completed_children i = bind (children_of i) (\<lambda>cs. bind (statuses_of cs) (\<lambda>sts.
     ret (map fst (filter (\<lambda>(c, st). status_completed st) (zip cs sts)))))"

definition resume_fan_in :: "ckp_env \<Rightarrow> frame_id \<Rightarrow> unit ckp_prog" where
  "resume_fan_in env i =
     bind (latest_of i) (\<lambda>snap.
     bind (completed_children i) (\<lambda>relevant.
     bind (map_prog (\<lambda>c. bind (latest_of c) (\<lambda>x. ret (snapshot_to_ref x))) relevant) (\<lambda>join_sources.
     bind (drain_pending_accumulators env i relevant) (\<lambda>updates.
     seq (commit_snapshot env i (ss_superstep snap) updates join_sources)
     (seq (resolve_pending_log env i relevant) (resume_frame i))))))"

text \<open>Whether the failure policy ends the parent.\<close>

definition child_failure :: "frame_id \<Rightarrow> frame_status \<Rightarrow> frame_policy \<Rightarrow> nat option ckp_prog" where
  "child_failure i child_status policy = (case (child_status, on_child_failed policy) of
      (FFailed _, FailIfAtLeastHasFailed count) \<Rightarrow>
        bind (count_failed_frame_child i) (\<lambda>k. ret (if count \<le> k then Some count else None))
    | _ \<Rightarrow> ret None)"

definition on_child_frame_terminated :: "ckp_env \<Rightarrow> frame_id \<Rightarrow> frame_id \<Rightarrow> unit ckp_prog" where
  "on_child_frame_terminated env i child =
     bind (in_tree (status_of child)) (\<lambda>child_status.
     bind (in_tree (policy_of i)) (\<lambda>policy.
     bind (child_failure i child_status policy) (\<lambda>failed. case failed of
         Some count \<Rightarrow> mark_failed_frame (''au moins '' @ show_nat count @ '' enfants ont echoue'') i
       | None \<Rightarrow> (case resume_pol policy of
             Sequential \<Rightarrow> resume_sequential env i
           | FanIn \<Rightarrow> bind (all_children_have_terminated i) (\<lambda>all.
               if all then resume_fan_in env i else ret ())
           | HitlResume \<Rightarrow> ret ()))))"

section \<open>The loop\<close>

fun handle_event :: "ckp_env \<Rightarrow> checkpoint_event \<Rightarrow> unit ckp_prog" where
  "handle_event env (SessionCreated _) = on_session_created"
| "handle_event env (FrameCreated _ i) = on_frame_created env i"
| "handle_event env (HitlAnsweredEv _ hid as) = on_hitl_response hid as"
| "handle_event env (FrameRunJobStateUpdate _ i st) = on_frame_run_update i st"
| "handle_event env (FrameReady _ i) = on_frame_ready env i"
| "handle_event env (FrameRunTerminated _ i) = on_frame_run_terminated env i"
| "handle_event env (ChildFrameTerminated _ p c) = on_child_frame_terminated env p c"
| "handle_event env (FrameTerminated _ i) = on_frame_terminated i"

definition process_event :: "ckp_env \<Rightarrow> checkpoint_event \<Rightarrow> unit ckp_prog" where
  "process_event env ev = (\<lambda>s. case handle_event env ev s of
      (Err e, s') \<Rightarrow> seq (fail e) (throw e) s'
    | r \<Rightarrow> r)"

text \<open>
  The running loop drops the result of each event; a panic ends the task. How the loop starts,
  closes and ends is in \<^verbatim>\<open>Session_Controller\<close>.
\<close>

fun ckp_run :: "ckp_env \<Rightarrow> checkpoint_event list \<Rightarrow> unit ckp_prog" where
  "ckp_run env [] = ret ()"
| "ckp_run env (ev # evs) = seq (ignore (process_event env ev)) (ckp_run env evs)"

definition checkpointer_new ::
  "session \<Rightarrow> frame_tree \<Rightarrow> session_snapshots \<Rightarrow> session_hitls \<Rightarrow> nat id_generator \<Rightarrow> sessions_table
     \<Rightarrow> checkpointer" where
  "checkpointer_new sess frames snaps hitls ids table =
     \<lparr>ck_session_id = s_id sess, ck_frames = frames, ck_snapshots = snaps,
      ck_hitls = hitls, ck_ids = ids, ck_ticks = 0, ck_jobs = [], ck_emitted = [],
      ck_session = unit_of_work_new sess, ck_table = table, ck_bus = []\<rparr>"

end
