(* ===== verification/Checkpointer_Tree.thy ===== *)
theory Checkpointer_Tree
  imports Checkpointer
begin

text \<open>
  The checkpointer keeps the frame tree well formed. The invariant carries a set of frames known
  to be in the arena, so that a handler that has read a frame may use it as a parent; a step
  that returns a frame adds it to the set. The invariant speaks of the states in which at most
  \<open>N\<close> identifiers were drawn, where \<open>N\<close> bounds the draws known to be distinct.
\<close>

section \<open>Programs that establish a fact about their result\<close>

definition ensures ::
  "('s \<Rightarrow> bool) \<Rightarrow> ('s, 'e, 'a) prog \<Rightarrow> ('a \<Rightarrow> 's \<Rightarrow> bool) \<Rightarrow> bool" where
  "ensures I m J \<longleftrightarrow> (\<forall>s. I s \<longrightarrow> I (snd (m s)) \<and> (\<forall>a. fst (m s) = Ok a \<longrightarrow> J a (snd (m s))))"

lemma ensuresI:
  "(\<And>s. I s \<Longrightarrow> I (snd (m s)) \<and> (\<forall>a. fst (m s) = Ok a \<longrightarrow> J a (snd (m s)))) \<Longrightarrow> ensures I m J"
  by (simp add: ensures_def)

lemma ensures_keeps: "ensures I m J \<Longrightarrow> keeps I m"
  by (simp add: ensures_def keeps_def)

lemma keeps_ensures: "keeps I m \<Longrightarrow> ensures I m (\<lambda>_. I)"
  by (simp add: ensures_def keeps_def)

lemma ensures_ret: "(\<And>s. I s \<Longrightarrow> J a s) \<Longrightarrow> ensures I (ret a) J"
  by (simp add: ensures_def)

lemma ensures_bind:
  assumes m: "ensures I m J" and k: "\<And>a. ensures (J a) (k a) K" and weak: "\<And>a s. J a s \<Longrightarrow> I s"
  shows "ensures I (bind m k) K"
proof (rule ensuresI)
  fix s
  assume s: "I s"
  obtain r s' where run: "m s = (r, s')" by (rule prod.exhaust)
  have m': "I s'" "\<And>a. r = Ok a \<Longrightarrow> J a s'" using m s run by (auto simp: ensures_def dest: spec [of _ s])
  show "I (snd (bind m k s)) \<and> (\<forall>b. fst (bind m k s) = Ok b \<longrightarrow> K b (snd (bind m k s)))"
  proof (cases r)
    case (Ok a)
    then have "J a s'" using m'(2) by simp
    then have "J a (snd (k a s'))" "\<forall>b. fst (k a s') = Ok b \<longrightarrow> K b (snd (k a s'))"
      using k [of a] unfolding ensures_def by blast+
    then show ?thesis using Ok run weak by (simp add: bind_def)
  qed (use run m'(1) in \<open>simp_all add: bind_def\<close>)
qed

lemma ensures_seq: "keeps I m \<Longrightarrow> ensures I k K \<Longrightarrow> ensures I (seq m k) K"
  unfolding seq_def by (rule ensures_bind [OF keeps_ensures]) auto

lemma ensures_bind_keeps: "keeps I m \<Longrightarrow> (\<And>a. ensures I (k a) K) \<Longrightarrow> ensures I (bind m k) K"
  by (rule ensures_bind [OF keeps_ensures]) auto

lemma keeps_bind_ensures:
  "ensures I m J \<Longrightarrow> (\<And>a. keeps (J a) (k a)) \<Longrightarrow> (\<And>a s. J a s \<Longrightarrow> I s) \<Longrightarrow> keeps I (bind m k)"
  by (fastforce simp: keeps_def ensures_def bind_def split: prod.splits outcome.splits)

section \<open>The invariant\<close>

text \<open>Every stored frame of the session is in the arena, so that nothing is loaded any more.\<close>

definition resident :: "frame_tree \<Rightarrow> bool" where
  "resident t \<longleftrightarrow> (\<forall>i. node_of t i = None \<longrightarrow> hm_get (ft_store t) (ft_session t, i) = None)"

definition tree_state :: "(nat \<Rightarrow> ID) \<Rightarrow> nat \<Rightarrow> frame_id set \<Rightarrow> frame_tree \<Rightarrow> bool" where
  "tree_state fresh N P t \<longleftrightarrow> (ft_drawn t \<le> N \<longrightarrow>
     tree_inv fresh t \<and> resident t \<and> (\<forall>i \<in> P. node_of t i \<noteq> None))"

abbreviation ckp_inv :: "(nat \<Rightarrow> ID) \<Rightarrow> nat \<Rightarrow> frame_id set \<Rightarrow> checkpointer \<Rightarrow> bool" where
  "ckp_inv fresh N P s \<equiv> tree_state fresh N P (ck_frames s)"

lemma tree_state_mono: "tree_state fresh N P t \<Longrightarrow> Q \<subseteq> P \<Longrightarrow> tree_state fresh N Q t"
  by (auto simp: tree_state_def)

lemma tree_state_drop: "tree_state fresh N (insert i P) t \<Longrightarrow> tree_state fresh N P t"
  by (erule tree_state_mono) blast

lemma try_get_state:
  assumes "tree_state fresh N P t" and "try_get i t = (r, t')"
  shows "tree_state fresh N P t'" and "r = Ok n \<Longrightarrow> tree_state fresh N (insert i P) t'"
    and "r = Ok n \<Longrightarrow> ft_drawn t \<le> N \<Longrightarrow> t' = t \<and> node_of t i = Some n"
proof -
  have d: "ft_drawn t' = ft_drawn t"
    using assms(2) by (auto simp: try_get_def split: option.splits sum.splits)
  have same: "t' = t \<and> (\<forall>n. r = Ok n \<longrightarrow> node_of t i = Some n)" if "ft_drawn t \<le> N"
  proof (cases "hm_get (ft_arena t) i")
    case (Some c)
    then show ?thesis using assms(2) by (auto simp: try_get_def node_of_def)
  next
    case None
    then have "hm_get (ft_store t) (ft_session t, i) = None"
      using assms(1) that by (auto simp: tree_state_def resident_def node_of_def)
    then show ?thesis
      using assms(2) None by (auto simp: try_get_def frame_container_new_def store_get_frame_def)
  qed
  show "tree_state fresh N P t'" using assms(1) same d by (auto simp: tree_state_def)
  show "r = Ok n \<Longrightarrow> tree_state fresh N (insert i P) t'"
    using assms(1) same d by (auto simp: tree_state_def)
  show "r = Ok n \<Longrightarrow> ft_drawn t \<le> N \<Longrightarrow> t' = t \<and> node_of t i = Some n" using same by blast
qed

lemma ensures_try_get: "ensures (tree_state fresh N P) (try_get i) (\<lambda>_. tree_state fresh N (insert i P))"
  by (rule ensuresI) (metis try_get_state(1,2) prod.collapse)

lemma ensures_tree_get: "ensures (tree_state fresh N P) (tree_get i) (\<lambda>_. tree_state fresh N (insert i P))"
proof (rule ensuresI)
  fix t
  assume t: "tree_state fresh N P t"
  obtain r t' where run: "try_get i t = (r, t')" by (rule prod.exhaust)
  show "tree_state fresh N P (snd (tree_get i t)) \<and>
    (\<forall>a. fst (tree_get i t) = Ok a \<longrightarrow> tree_state fresh N (insert i P) (snd (tree_get i t)))"
    using try_get_state(1,2) [OF t run] run by (cases r) (auto simp: tree_get_def)
qed

lemma ensures_tree_read:
  "ensures (tree_state fresh N P) (tree_read i f) (\<lambda>_. tree_state fresh N (insert i P))"
  unfolding tree_read_def
  by (rule ensures_bind [OF ensures_tree_get]) (auto intro: ensures_ret tree_state_drop)

text \<open>An update of a node that leaves its identifier and its links.\<close>

definition same_links :: "(frame_node \<Rightarrow> frame_node) \<Rightarrow> bool" where
  "same_links f \<longleftrightarrow> (\<forall>n. fn_id (f n) = fn_id n \<and> fn_parent (f n) = fn_parent n \<and>
     fn_prev_sibling (f n) = fn_prev_sibling n \<and> fn_next_sibling (f n) = fn_next_sibling n \<and>
     fn_children (f n) = fn_children n)"

lemma tree_ok_same_links:
  assumes ok: "tree_ok A" and f: "same_links f"
  shows "tree_ok (A(i := map_option f (A i)))"
proof -
  let ?A = "A(i := map_option f (A i))"
  have old: "\<exists>n. A j = Some n \<and> fn_id m = fn_id n \<and> fn_parent m = fn_parent n \<and>
      fn_prev_sibling m = fn_prev_sibling n \<and> fn_next_sibling m = fn_next_sibling n \<and>
      fn_children m = fn_children n" if "?A j = Some m" for j m
    using that f by (auto simp: same_links_def split: if_splits)
  have forth: "\<exists>m. ?A j = Some m \<and> fn_id m = fn_id n \<and> fn_parent m = fn_parent n \<and>
      fn_prev_sibling m = fn_prev_sibling n \<and> fn_next_sibling m = fn_next_sibling n \<and>
      fn_children m = fn_children n" if "A j = Some n" for j n
    using that f by (auto simp: same_links_def)
  have child: "child_at ?A p ch k" if at: "child_at A p ch k" for p ch k
  proof -
    obtain c where c: "A (ch ! k) = Some c" "fn_parent c = Some p"
      "fn_prev_sibling c = (if k = 0 then None else Some (ch ! (k - 1)))"
      "fn_next_sibling c = (if Suc k < length ch then Some (ch ! Suc k) else None)"
      using at unfolding child_at_def by blast
    show ?thesis using forth [OF c(1)] c(2-4) unfolding child_at_def by metis
  qed
  have "fn_id m = j \<and> children_ok ?A j m \<and> links_ok ?A m" if j: "?A j = Some m" for j m
  proof -
    obtain n where n: "A j = Some n" and eq: "fn_id m = fn_id n" "fn_parent m = fn_parent n"
      "fn_prev_sibling m = fn_prev_sibling n" "fn_next_sibling m = fn_next_sibling n"
      "fn_children m = fn_children n"
      using old [OF j] by blast
    note good = tree_okD [OF ok n]
    have "links_ok ?A m"
    proof (cases "fn_parent n")
      case None
      then show ?thesis using good(3) eq by (simp add: links_ok_def)
    next
      case (Some p)
      then obtain q where q: "A p = Some q" "fn_id n \<in> set (fn_children q)"
        using good(3) by (auto simp: links_ok_def)
      then show ?thesis using forth [OF q(1)] Some eq unfolding links_ok_def by fastforce
    qed
    moreover have "children_ok ?A j m" using good(2) eq(5) child by (simp add: children_ok_def)
    ultimately show ?thesis using good(1) eq(1) by simp
  qed
  moreover have "\<exists>rank. ranked ?A rank"
    using ok old unfolding tree_ok_def ranked_def by (metis (lifting))
  ultimately show ?thesis unfolding tree_ok_def by blast
qed

lemma update_node_state:
  assumes "tree_state fresh N P t" and "same_links f"
  shows "tree_state fresh N P (update_node i f t)"
proof -
  have "tree_wf t \<Longrightarrow> tree_wf (update_node i f t)"
    using tree_ok_same_links [OF _ assms(2), of "node_of t" i] by (simp add: tree_wf_def node_of_update)
  moreover have same: "node_of (update_node i f t) j = None \<longleftrightarrow> node_of t j = None" for j
    by (simp add: node_of_update)
  have "ids_drawn fresh t \<Longrightarrow> ids_drawn fresh (update_node i f t)"
    unfolding ids_drawn_def using same by (metis option.exhaust option.distinct(1) update_node_frame(1))
  moreover have "resident t \<Longrightarrow> resident (update_node i f t)"
    by (simp add: resident_def same)
  ultimately show ?thesis
    using assms(1) same by (simp add: tree_state_def tree_inv_def)
qed

lemma ensures_tree_write:
  "same_links f \<Longrightarrow> ensures (tree_state fresh N P) (tree_write i f) (\<lambda>_. tree_state fresh N (insert i P))"
  unfolding tree_write_def seq_def
  by (rule ensures_bind [OF ensures_tree_get])
     (simp_all add: ensures_def update_node_state tree_state_drop)

section \<open>Adding a frame\<close>

lemma attached_present: "attached A p c k ch j = None \<longleftrightarrow> A j = None"
  unfolding attached_def by (simp only: option.map_disc_iff split: if_split) simp

lemma insert_child_store [simp]:
  "ft_store (insert_child p c idx t) = ft_store t" "ft_session (insert_child p c idx t) = ft_session t"
  by (simp_all add: insert_child_def detach_def detach_from_parent_def detach_from_siblings_def
      link_siblings_def Let_def split: option.splits)

lemma tree_append_frame:
  assumes "tree_append fresh p args t = (i, t')"
  shows "ft_drawn t' = Suc (ft_drawn t)" and "ft_store t' = ft_store t" and "ft_session t' = ft_session t"
  using assms by (auto simp: tree_append_def tree_insert_def create_node_def Let_def)

lemma tree_append_state:
  assumes inj: "inj_on fresh {..<N}" and t: "tree_state fresh N P t" and p: "p \<in> P"
    and app: "tree_append fresh p args t = (i, t')"
  shows "tree_state fresh N (insert i P) t'"
proof (cases "ft_drawn t < N")
  case False
  then show ?thesis using tree_append_frame(1) [OF app] by (simp add: tree_state_def)
next
  case True
  then have inv: "tree_inv fresh t" "resident t" and P: "\<And>j. j \<in> P \<Longrightarrow> node_of t j \<noteq> None"
    using t by (auto simp: tree_state_def)
  obtain pn where pn: "node_of t p = Some pn" using P p by blast
  have inj': "inj_on fresh {..ft_drawn t}" using True by (intro inj_on_subset [OF inj]) auto
  have new: "tree_inv fresh t'" "node_of t' = attached ((node_of t)(i \<mapsto> frame_node_new i args)) p i
      (min (length (iter_children_of t p)) (length (fn_children pn))) (fn_children pn)"
    using tree_insert_new [OF inv(1) inj' app [unfolded tree_append_def] pn] by simp_all
  have present: "node_of t' j = None \<longleftrightarrow> node_of t j = None \<and> j \<noteq> i" for j
    unfolding new(2) attached_present by auto
  have "resident t'"
    using inv(2) tree_append_frame(2,3) [OF app] by (simp add: resident_def present)
  then show ?thesis using new(1) P present by (auto simp: tree_state_def)
qed

section \<open>Lifting to the checkpointer\<close>

lemma ensures_in_tree:
  "ensures (tree_state fresh N P) m J \<Longrightarrow> ensures (ckp_inv fresh N P) (in_tree m) (\<lambda>a s. J a (ck_frames s))"
  by (fastforce simp: ensures_def in_tree_def split: prod.splits)

lemmas ensures_read = ensures_in_tree [OF ensures_tree_read]
lemmas ensures_write = ensures_in_tree [OF ensures_tree_write]

lemma keeps_read [keeps_intro]: "keeps (ckp_inv fresh N P) (in_tree (tree_read i f))"
  by (rule ensures_keeps [OF ensures_read])

lemma keeps_write [keeps_intro]: "same_links f \<Longrightarrow> keeps (ckp_inv fresh N P) (in_tree (tree_write i f))"
  by (rule ensures_keeps [OF ensures_write])

lemma keeps_frames: "(\<And>s. ck_frames (snd (m s)) = ck_frames s) \<Longrightarrow> keeps (ckp_inv fresh N P) m"
  by (simp add: keeps_def)

lemma keeps_in_snapshots [keeps_intro]: "keeps (ckp_inv fresh N P) (in_snapshots m)"
  by (rule keeps_frames) (simp add: in_snapshots_def split: prod.splits)

lemma keeps_latest [keeps_intro]: "keeps (ckp_inv fresh N P) (latest_of i)"
  by (simp add: latest_of_def keeps_in_snapshots)

lemma keeps_in_hitls [keeps_intro]: "keeps (ckp_inv fresh N P) (in_hitls m)"
  by (rule keeps_frames) (simp add: in_hitls_def split: prod.splits)

lemma keeps_emit [keeps_intro]: "keeps (ckp_inv fresh N P) (emit e)"
  by (rule keeps_frames) (simp add: emit_def)

lemma keeps_now [keeps_intro]: "keeps (ckp_inv fresh N P) (now env)"
  by (rule keeps_frames) (simp add: now_def)

lemma keeps_Pair [keeps_intro]: "keeps I (Pair r)"
  by (simp add: keeps_def)

lemma keeps_from_outcome [keeps_intro]: "keeps I (from_outcome r)"
  by (simp add: keeps_def from_outcome_def)

lemma keeps_get_graph [keeps_intro]: "keeps I (get_graph env r)"
  by (simp add: get_graph_def keeps_of_sum)

lemma keeps_latest_graph [keeps_intro]: "keeps I (latest_graph env i)"
  by (simp add: keeps_def latest_graph_def)

lemma keeps_next_tool_call_id [keeps_intro]: "keeps (ckp_inv fresh N P) (next_tool_call_id env)"
  by (rule keeps_frames) (simp add: next_tool_call_id_def split: prod.splits)

section \<open>Every operation keeps the invariant\<close>

lemmas read_defs = status_of_def data_of_def policy_of_def spec_ref_of_def logs_of_def
  pending_log_of_def last_child_of_def log_index_bound_to_hitl_id_def

lemma keeps_reads [keeps_intro]:
  "keeps (ckp_inv fresh N P) (in_tree (status_of i))" "keeps (ckp_inv fresh N P) (in_tree (data_of i))"
  "keeps (ckp_inv fresh N P) (in_tree (policy_of i))" "keeps (ckp_inv fresh N P) (in_tree (spec_ref_of i))"
  "keeps (ckp_inv fresh N P) (in_tree (logs_of i))" "keeps (ckp_inv fresh N P) (in_tree (pending_log_of i))"
  "keeps (ckp_inv fresh N P) (in_tree (last_child_of i))"
  "keeps (ckp_inv fresh N P) (in_tree (log_index_bound_to_hitl_id i hid))"
  by (simp_all add: read_defs keeps_read)

lemma ensures_status:
  "ensures (ckp_inv fresh N P) (in_tree (status_of i)) (\<lambda>_. ckp_inv fresh N (insert i P))"
  by (simp add: status_of_def ensures_read)

lemma in_tree_seq: "in_tree (seq m k) = seq (in_tree m) (in_tree k)"
  by (rule ext) (simp add: in_tree_def seq_def bind_def split: prod.splits outcome.splits)

lemma in_tree_bind: "in_tree (bind m k) = bind (in_tree m) (\<lambda>a. in_tree (k a))"
  by (rule ext) (simp add: in_tree_def bind_def split: prod.splits outcome.splits)

lemma in_tree_basic [simp]: "in_tree (ret a) = ret a" "in_tree (panic msg) = panic msg"
  by (rule ext, simp add: in_tree_def)+

lemma keeps_policies [keeps_intro]:
  "keeps (ckp_inv fresh N P) (in_tree (set_resume_policy i rp))"
  "keeps (ckp_inv fresh N P) (in_tree (set_reduce_policy i dp))"
  "keeps (ckp_inv fresh N P) (in_tree (get_on_resume_policy i))"
  by (auto simp: set_resume_policy_def set_reduce_policy_def get_on_resume_policy_def in_tree_seq
      in_tree_bind intro!: keeps_intro)

lemma keeps_writes [keeps_intro]:
  "keeps (ckp_inv fresh N P) (in_tree (set_status i st))"
  "keeps (ckp_inv fresh N P) (in_tree (append_logs i ls))"
  "keeps (ckp_inv fresh N P) (in_tree (resolve_log i k v))"
  by (auto simp: set_status_def append_logs_def resolve_log_def same_links_def intro!: keeps_write keeps_ret)

lemma keeps_extend [keeps_intro]:
  "keeps (ckp_inv fresh N P) (in_tree (tree_write i (extend_inherited kvs)))"
  by (rule keeps_write) (simp add: same_links_def extend_inherited_def)

lemma keeps_tree_get: "keeps (ckp_inv fresh N P) (in_tree (tree_get i))"
  by (rule ensures_keeps [OF ensures_in_tree [OF ensures_tree_get]])

lemma keeps_spec_of [keeps_intro]: "keeps (ckp_inv fresh N P) (spec_of env i)"
  unfolding spec_of_def common_spec_of_def in_tree_bind
  by (rule keeps_bind [OF keeps_tree_get]) (auto split: frame_spec_ref.splits sum.splits intro!: keeps_intro)

lemma keeps_bound_frame [keeps_intro]: "keeps (ckp_inv fresh N P) (in_tree (frame_id_bound_to_hitl_id hid))"
  by (rule keeps_frames) (simp add: in_tree_def frame_id_bound_to_hitl_id_def)

lemma keeps_parent_frame [keeps_intro]: "keeps (ckp_inv fresh N P) (parent_frame i)"
  by (simp add: parent_frame_def keeps_gets)

lemma ensures_parent_frame:
  "ensures (ckp_inv fresh N P) (parent_frame i)
     (\<lambda>p s. case p of None \<Rightarrow> ckp_inv fresh N P s | Some q \<Rightarrow> ckp_inv fresh N (insert q P) s)"
proof -
  have "node_of t q \<noteq> None" if inv: "tree_inv fresh t" and par: "parent_of t i = Some q" for t q
  proof -
    obtain n where n: "node_of t i = Some n" "fn_parent n = Some q"
      using par by (auto simp: parent_of_def bind_eq_Some_conv)
    have ok: "tree_ok (node_of t)" using inv by (simp add: tree_inv_def tree_wf_def)
    show ?thesis using tree_okD(3) [OF ok n(1)] n(2) by (auto simp: links_ok_def)
  qed
  then show ?thesis
    by (auto simp: ensures_def parent_frame_def tree_state_def split: option.splits)
qed

lemma keeps_bind_parent:
  assumes "keeps (ckp_inv fresh N P) (k None)" and "\<And>p. keeps (ckp_inv fresh N (insert p P)) (k (Some p))"
  shows "keeps (ckp_inv fresh N P) (bind (parent_frame i) k)"
proof (rule keeps_bind_ensures [OF ensures_parent_frame])
  show "keeps (\<lambda>s. case p of None \<Rightarrow> ckp_inv fresh N P s | Some q \<Rightarrow> ckp_inv fresh N (insert q P) s) (k p)" for p
    using assms by (cases p) simp_all
qed (auto split: option.splits intro: tree_state_drop)

lemma keeps_marks [keeps_intro]:
  "keeps (ckp_inv fresh N P) (mark_as_waiting_children i)"
  "keeps (ckp_inv fresh N P) (mark_frame_run_completed i resp)"
  "keeps (ckp_inv fresh N P) (mark_frame_run_failed i txt)"
  "keeps (ckp_inv fresh N P) (mark_ready_to_run_frame i)"
  "keeps (ckp_inv fresh N P) (mark_failed_frame err i)"
  "keeps (ckp_inv fresh N P) (notify_parent i)"
  "keeps (ckp_inv fresh N P) (mark_completed_frame i)"
  by (auto simp: mark_as_waiting_children_def mark_frame_run_completed_def mark_frame_run_failed_def
      mark_ready_to_run_frame_def mark_failed_frame_def mark_completed_frame_def notify_parent_def
      split: option.splits intro!: keeps_intro)

lemma keeps_inherit_snapshot [keeps_intro]: "keeps (ckp_inv fresh N P) (inherit_snapshot env src i)"
  unfolding inherit_snapshot_def
  by (auto simp: same_links_def extend_inherited_def intro!: keeps_intro)

lemma keeps_inherit [keeps_intro]:
  "keeps (ckp_inv fresh N P) (inherit_from_parent env i)"
  "keeps (ckp_inv fresh N P) (inherit_from_prev_sibling env i)"
  by (auto simp: inherit_from_parent_def inherit_from_prev_sibling_def split: option.splits intro!: keeps_intro)

lemma keeps_write_inherited [keeps_intro]:
  "keeps (ckp_inv fresh N P) (write_to_inherited_channels env i kvs)"
proof -
  have "keeps (ckp_inv fresh N P) (in_tree (try_get i))"
    by (rule ensures_keeps [OF ensures_in_tree [OF ensures_try_get]])
  moreover have "keeps (ckp_inv fresh N P) (in_tree (modify (update_node i (extend_inherited xs))))" for xs
    by (auto simp: keeps_def in_tree_def same_links_def extend_inherited_def intro: update_node_state)
  ultimately show ?thesis
    unfolding write_to_inherited_channels_def by (auto intro!: keeps_intro)
qed

lemma ensures_in_tree_append:
  assumes "inj_on (ev_fresh env) {..<N}" and "p \<in> P"
  shows "ensures (ckp_inv (ev_fresh env) N P) (in_tree_id (tree_append (ev_fresh env) p args))
    (\<lambda>i. ckp_inv (ev_fresh env) N (insert i P))"
proof (rule ensuresI)
  fix s
  assume s: "ckp_inv (ev_fresh env) N P s"
  obtain i t' where app: "tree_append (ev_fresh env) p args (ck_frames s) = (i, t')" by (rule prod.exhaust)
  have "tree_state (ev_fresh env) N (insert i P) t'"
    by (rule tree_append_state [OF assms(1) s assms(2) app])
  then show "ckp_inv (ev_fresh env) N P (snd (in_tree_id (tree_append (ev_fresh env) p args) s)) \<and>
      (\<forall>a. fst (in_tree_id (tree_append (ev_fresh env) p args) s) = Ok a \<longrightarrow>
        ckp_inv (ev_fresh env) N (insert a P) (snd (in_tree_id (tree_append (ev_fresh env) p args) s)))"
    using tree_state_drop by (auto simp: in_tree_id_def app)
qed

lemma ensures_append_frame:
  assumes "inj_on (ev_fresh env) {..<N}" and "p \<in> P"
  shows "ensures (ckp_inv (ev_fresh env) N P) (append_frame env p args)
    (\<lambda>i. ckp_inv (ev_fresh env) N (insert i P))"
  unfolding append_frame_def
  by (rule ensures_bind [OF ensures_in_tree_append [OF assms]])
     (auto intro!: ensures_bind_keeps ensures_seq ensures_ret keeps_intro intro: tree_state_drop)

section \<open>Every handler keeps the invariant\<close>

lemma keeps_append_graph_node:
  assumes "inj_on (ev_fresh env) {..<N}" and "p \<in> P"
  shows "keeps (ckp_inv (ev_fresh env) N P) (append_graph_node env p r nid)"
  unfolding append_graph_node_def
  by (auto intro!: keeps_intro ensures_keeps [OF ensures_append_frame [OF assms]])

lemma ensures_append_graph_thread:
  assumes "inj_on (ev_fresh env) {..<N}" and "p \<in> P"
  shows "ensures (ckp_inv (ev_fresh env) N P) (append_graph_thread env p r start)
    (\<lambda>i. ckp_inv (ev_fresh env) N (insert i P))"
  unfolding append_graph_thread_def Let_def
  by (rule ensures_bind_keeps [OF keeps_gets], rule ensures_bind [OF ensures_append_frame [OF assms]])
     (auto intro!: ensures_seq ensures_ret keeps_intro keeps_append_graph_node assms(1) intro: tree_state_drop)

lemma keeps_append_graph_span:
  assumes "inj_on (ev_fresh env) {..<N}" and "p \<in> P"
  shows "keeps (ckp_inv (ev_fresh env) N P) (append_graph_span env p r branches join)"
  unfolding append_graph_span_def Let_def
  by (rule keeps_bind [OF keeps_gets], rule keeps_bind_ensures [OF ensures_append_frame [OF assms]])
     (auto intro!: keeps_intro ensures_keeps [OF ensures_append_graph_thread] assms(1) intro: tree_state_drop)

lemma keeps_append_graph:
  assumes "inj_on (ev_fresh env) {..<N}" and "p \<in> P"
  shows "keeps (ckp_inv (ev_fresh env) N P) (append_graph env p gid)"
  unfolding append_graph_def Let_def
  by (auto intro!: keeps_intro ensures_keeps [OF ensures_append_frame [OF assms]])

lemma keeps_append_experts:
  assumes "inj_on (ev_fresh env) {..<N}" and "p \<in> P"
  shows "keeps (ckp_inv (ev_fresh env) N P) (append_experts_consultations env p requests)"
  unfolding append_experts_consultations_def append_expert_consultation_def
  by (auto intro!: keeps_intro ensures_keeps [OF ensures_append_frame [OF assms]])

lemma keeps_append_tool_calls:
  assumes "inj_on (ev_fresh env) {..<N}" and "p \<in> P"
  shows "keeps (ckp_inv (ev_fresh env) N P) (append_tool_calls env p requests)"
proof -
  have "ensures (ckp_inv (ev_fresh env) N P) (append_tool_aggregator env p)
      (\<lambda>i. ckp_inv (ev_fresh env) N (insert i P))"
    unfolding append_tool_aggregator_def Let_def
    by (rule ensures_bind_keeps [OF keeps_gets], rule ensures_bind [OF ensures_append_frame [OF assms]])
       (auto intro!: ensures_seq ensures_ret keeps_intro intro: tree_state_drop)
  moreover have "keeps (ckp_inv (ev_fresh env) N Q) (append_tool_call env q req)" if "q \<in> Q" for q Q req
    unfolding append_tool_call_def
    by (auto intro!: keeps_intro ensures_keeps [OF ensures_append_frame [OF assms(1) that]])
  ultimately show ?thesis
    unfolding append_tool_calls_def
    by (intro keeps_bind_ensures [where J = "\<lambda>i. ckp_inv (ev_fresh env) N (insert i P)"])
       (auto intro!: keeps_intro intro: tree_state_drop)
qed

lemma keeps_on_frame_created:
  assumes "inj_on (ev_fresh env) {..<N}"
  shows "keeps (ckp_inv (ev_fresh env) N P) (on_frame_created env i)"
  unfolding on_frame_created_def
  by (rule keeps_bind_ensures [OF ensures_status])
     (auto split: on_start_policy.splits intro!: keeps_intro keeps_append_graph_node keeps_append_graph_span
       ensures_keeps [OF ensures_append_graph_thread] assms intro: tree_state_drop)

lemma keeps_request_hitl [keeps_intro]: "keeps (ckp_inv fresh N P) (request_hitl env h)"
  by (simp add: request_hitl_def keeps_in_hitls)

lemma keeps_commit [keeps_intro]: "keeps (ckp_inv fresh N P) (commit_snapshot env i k us js)"
  unfolding commit_snapshot_def Let_def by (auto intro!: keeps_intro)

lemma keeps_continue:
  assumes "inj_on (ev_fresh env) {..<N}" and "p \<in> P"
  shows "keeps (ckp_inv (ev_fresh env) N P) (bind (in_tree (data_of i)) (\<lambda>d. case d of
            GraphNode r nid \<Rightarrow> bind (get_graph env r) (\<lambda>g. case hm_get (g_edges g) nid of
                None \<Rightarrow> ret ()
              | Some next \<Rightarrow> seq (append_graph_node env p r next) (mark_completed_frame i))
          | _ \<Rightarrow> ret ()))"
    and "keeps (ckp_inv (ev_fresh env) N P) (bind (in_tree (data_of i)) (\<lambda>d. case d of
            GraphNode r _ \<Rightarrow> seq (append_graph_node env p r nid) (mark_completed_frame i)
          | _ \<Rightarrow> ret ()))"
    and "keeps (ckp_inv (ev_fresh env) N P) (bind (in_tree (spec_ref_of p)) (\<lambda>sr.
            bind (from_outcome (into_graph_ref sr)) (\<lambda>r.
            seq (append_graph_span env p r branches join)
            (seq (mark_as_waiting_children p) (mark_completed_frame i)))))"
  by (auto split: frame_kind.splits option.splits
      intro!: keeps_intro keeps_append_graph_node [OF assms] keeps_append_graph_span [OF assms])

lemma keeps_on_run_result:
  assumes "inj_on (ev_fresh env) {..<N}" and "i \<in> P"
  shows "keeps (ckp_inv (ev_fresh env) N P) (on_run_result env i result)"
proof (cases result)
  case Continue
  then show ?thesis
    by (auto simp: on_run_result_def intro!: keeps_bind_parent keeps_ret keeps_continue(1) assms(1))
next
  case (GoTo nid)
  then show ?thesis
    by (auto simp: on_run_result_def intro!: keeps_bind_parent keeps_ret keeps_continue(2) assms(1))
next
  case (Fork branches join)
  then show ?thesis
    by (auto simp: on_run_result_def intro!: keeps_bind_parent keeps_ret keeps_continue(3) assms(1))
qed (auto simp: on_run_result_def intro!: keeps_intro keeps_append_graph [OF assms]
       keeps_append_experts [OF assms] keeps_append_tool_calls [OF assms])

lemma keeps_on_frame_run_terminated:
  assumes "inj_on (ev_fresh env) {..<N}"
  shows "keeps (ckp_inv (ev_fresh env) N P) (on_frame_run_terminated env i)"
  unfolding on_frame_run_terminated_def
  by (rule keeps_bind_ensures [OF ensures_status])
     (auto split: frame_status.splits intro!: keeps_intro keeps_on_run_result assms intro: tree_state_drop)

lemma keeps_drain_children [keeps_intro]: "keeps (ckp_inv fresh N P) (drain_children env imported cs acc)"
  by (induction cs arbitrary: acc) (auto intro!: keeps_intro)

lemma keeps_drain [keeps_intro]: "keeps (ckp_inv fresh N P) (drain_pending_accumulators env i cs)"
  unfolding drain_pending_accumulators_def by (auto intro!: keeps_intro)

lemma keeps_resolved_by [keeps_intro]: "keeps (ckp_inv fresh N P) (resolved_by env c i sr chans)"
  unfolding resolved_by_def
  by (auto split: run_log_content.splits frame_spec_ref.splits intro!: keeps_intro)

lemma keeps_resolve_from [keeps_intro]: "keeps (ckp_inv fresh N P) (resolve_from env i l cs)"
  by (induction cs) (auto intro!: keeps_intro)

lemma keeps_resolve_pending [keeps_intro]: "keeps (ckp_inv fresh N P) (resolve_pending_log env i cs)"
  unfolding resolve_pending_log_def by (auto intro!: keeps_intro)

lemma keeps_resume_frame [keeps_intro]: "keeps (ckp_inv fresh N P) (resume_frame i)"
  unfolding resume_frame_def by (auto split: on_resume_policy.splits intro!: keeps_intro)

lemma keeps_statuses [keeps_intro]:
  "keeps (ckp_inv fresh N P) (statuses_of cs)" "keeps (ckp_inv fresh N P) (children_of i)"
  "keeps (ckp_inv fresh N P) (all_have_terminated cs)"
  subgoal unfolding statuses_of_def by (auto intro!: keeps_intro)
  subgoal unfolding children_of_def by (rule keeps_gets)
  subgoal by (induction cs) (auto intro!: keeps_intro)
  done

lemma keeps_child_failure [keeps_intro]: "keeps (ckp_inv fresh N P) (child_failure i st pol)"
  unfolding child_failure_def count_failed_frame_child_def
  by (auto split: frame_status.splits child_failure_policy.splits intro!: keeps_intro)

lemma keeps_on_child_frame_terminated [keeps_intro]:
  "keeps (ckp_inv fresh N P) (on_child_frame_terminated env i c)"
proof -
  have "keeps (ckp_inv fresh N P) (resume_sequential env i)"
    unfolding resume_sequential_def by (auto split: option.splits intro!: keeps_intro)
  moreover have "keeps (ckp_inv fresh N P) (resume_fan_in env i)"
    unfolding resume_fan_in_def completed_children_def by (auto intro!: keeps_intro)
  ultimately show ?thesis
    unfolding on_child_frame_terminated_def all_children_have_terminated_def
    by (auto split: option.splits resume_policy.splits intro!: keeps_intro)
qed

lemma keeps_on_hitl_response [keeps_intro]: "keeps (ckp_inv fresh N P) (on_hitl_response hid as)"
  unfolding on_hitl_response_def by (auto split: option.splits intro!: keeps_intro)

lemma keeps_on_frame_run_update [keeps_intro]: "keeps (ckp_inv fresh N P) (on_frame_run_update i st)"
  unfolding on_frame_run_update_def by (auto split: job_state.splits intro!: keeps_intro)

lemma keeps_on_frame_ready [keeps_intro]: "keeps (ckp_inv fresh N P) (on_frame_ready env i)"
proof -
  have "keeps (ckp_inv fresh N P) (modify (\<lambda>s. s\<lparr>ck_jobs := ck_jobs s @ [a]\<rparr>))" for a
    by (rule keeps_frames) simp
  then show ?thesis
    unfolding on_frame_ready_def ckp_run_frame_def Let_def by (auto intro!: keeps_intro)
qed

lemma keeps_fail [keeps_intro]: "keeps (ckp_inv fresh N P) (fail e)"
proof -
  have "keeps (ckp_inv fresh N P) (update_session f)" for f
    by (rule keeps_frames) (simp add: update_session_def split: outcome.splits)
  moreover have "keeps (ckp_inv fresh N P) flush_session"
    by (rule keeps_frames) (simp add: flush_session_def split: prod.splits)
  moreover have "keeps (ckp_inv fresh N P) (modify (\<lambda>s. s\<lparr>ck_bus := f s\<rparr>))" for f
    by (rule keeps_frames) simp
  ultimately show ?thesis unfolding fail_def by (auto intro!: keeps_intro)
qed

lemma keeps_handle_event:
  "inj_on (ev_fresh env) {..<N} \<Longrightarrow> keeps (ckp_inv (ev_fresh env) N P) (handle_event env ev)"
  by (cases ev) (auto simp: on_session_created_def on_frame_terminated_def
      intro!: keeps_intro keeps_on_frame_created keeps_on_frame_run_terminated)

lemma keeps_process_event:
  assumes "inj_on (ev_fresh env) {..<N}"
  shows "keeps (ckp_inv (ev_fresh env) N P) (process_event env ev)"
proof (rule keepsI)
  fix s
  assume s: "ckp_inv (ev_fresh env) N P s"
  have handled: "ckp_inv (ev_fresh env) N P (snd (handle_event env ev s))"
    by (rule keepsD [OF keeps_handle_event [OF assms] s])
  have fails: "keeps (ckp_inv (ev_fresh env) N P) (seq (fail e) (throw e))" for e
    by (auto intro!: keeps_intro)
  have "ckp_inv (ev_fresh env) N P (snd (seq (fail e) (throw e) x))" if x: "ckp_inv (ev_fresh env) N P x" for e x
    by (rule keepsD [OF fails x])
  then show "ckp_inv (ev_fresh env) N P (snd (process_event env ev s))"
    using handled by (auto simp: process_event_def split: prod.splits outcome.splits)
qed

lemma keeps_ckp_run:
  "inj_on (ev_fresh env) {..<N} \<Longrightarrow> keeps (ckp_inv (ev_fresh env) N P) (ckp_run env evs)"
  by (induction evs) (auto intro!: keeps_intro keeps_process_event)

section \<open>The tree of a new session\<close>

lemma new_session_tree:
  assumes "\<And>i. hm_get st (sid, i) = None"
  shows "tree_inv fresh (frame_tree_new st sid) \<and> resident (frame_tree_new st sid) \<and>
    (let t = snd (tree_set_root fresh args (frame_tree_new st sid)) in tree_inv fresh t \<and> resident t)"
proof -
  let ?t = "snd (tree_set_root fresh args (frame_tree_new st sid))"
  let ?i = "FrameId (fresh 0)"
  have empty: "node_of (frame_tree_new st sid) = Map.empty" "ft_drawn (frame_tree_new st sid) = 0"
    "ft_store (frame_tree_new st sid) = st" "ft_session (frame_tree_new st sid) = sid"
    by (simp_all add: frame_tree_new_def) (rule ext, simp add: node_of_def)
  have root: "node_of ?t = [?i \<mapsto> (frame_node_new ?i args)\<lparr>fn_is_root := True\<rparr>]" "ft_drawn ?t = 1"
    "ft_store ?t = st" "ft_session ?t = sid"
    by (simp_all add: tree_set_root_def create_node_def frame_tree_new_def Let_def node_of_update)
       (rule ext, simp add: node_of_def from_new_node_def)
  have "tree_ok (node_of ?t)"
    unfolding root(1) by (rule tree_ok_single) (simp_all add: frame_node_new_def)
  moreover have "tree_ok Map.empty" by (simp add: tree_ok_def ranked_def)
  ultimately show ?thesis
    using assms root by (simp add: tree_inv_def tree_wf_def ids_drawn_def resident_def empty Let_def)
qed

section \<open>Property\<close>

text \<open>
  C1: take a checkpointer whose arena holds a well-formed tree of frames drawn so far
  (\<open>tree_inv\<close>) and every frame of the session that the store holds (\<open>resident\<close>), so that
  nothing is loaded from the store: both hold when the session is new, with or without its root
  (lemma \<open>new_session_tree\<close>). Then whatever events it processes, in whatever order and whether
  the handlers succeed, fail or panic, as long as the identifiers drawn for the frames are
  distinct, the tree stays well formed, the arena still holds every stored frame and no frame is
  lost. A session reloaded from the store is not covered, because frames enter the arena one by
  one there and an append does not load the siblings: lemma \<open>reload_breaks_siblings\<close> shows
  the broken chain.
\<close>

theorem events_keep_tree:
  assumes "inj_on (ev_fresh env) {..<N}"
    and "tree_inv (ev_fresh env) (ck_frames s)" and "resident (ck_frames s)"
    and "ckp_run env evs s = (r, s')" and "ft_drawn (ck_frames s') \<le> N"
  shows "tree_inv (ev_fresh env) (ck_frames s') \<and> resident (ck_frames s') \<and>
    (\<forall>i. node_of (ck_frames s) i \<noteq> None \<longrightarrow> node_of (ck_frames s') i \<noteq> None)"
proof -
  let ?P = "{i. node_of (ck_frames s) i \<noteq> None}"
  have "ckp_inv (ev_fresh env) N ?P s" using assms(2,3) by (simp add: tree_state_def)
  then have "ckp_inv (ev_fresh env) N ?P s'"
    using keepsD [OF keeps_ckp_run [OF assms(1)], of ?P s evs] assms(4) by simp
  then show ?thesis using assms(5) by (simp add: tree_state_def)
qed

section \<open>Witnesses\<close>

text \<open>A fan-in root with one completed tool child, built by the operations.\<close>

definition join_args :: new_frame_node_args where
  "join_args = (new_frame_args (SessionId (ID 1 1)) ToolAggregatorSpec Void)
     \<lparr>na_policy := policy_default\<lparr>resume_pol := FanIn\<rparr>\<rparr>"

definition tool_args :: new_frame_node_args where
  "tool_args = new_frame_args (SessionId (ID 1 1)) ToolCallSpec (ToolCall (ToolCallId (ID 0 9)) ''echo'' VNull)"

definition join_root :: frame_tree where
  "join_root = snd (tree_set_root example_draws join_args (frame_tree_new [] (SessionId (ID 1 1))))"

definition join_tree :: frame_tree where
  "join_tree = update_node (FrameId (ID 0 1)) (\<lambda>n. n\<lparr>fn_status := FCompleted\<rparr>)
     (snd (tree_append example_draws (FrameId (ID 0 0)) tool_args join_root))"

definition join_parent :: frame_node where
  "join_parent = (frame_node_new (FrameId (ID 0 0)) join_args)
     \<lparr>fn_is_root := True, fn_children := [FrameId (ID 0 1)]\<rparr>"

definition join_child :: frame_node where
  "join_child = (frame_node_new (FrameId (ID 0 1)) tool_args)
     \<lparr>fn_status := FCompleted, fn_parent := Some (FrameId (ID 0 0))\<rparr>"

lemma join_nodes:
  "node_of join_tree (FrameId (ID 0 0)) = Some join_parent"
  "node_of join_tree (FrameId (ID 0 1)) = Some join_child"
  by code_simp+

lemma example_draws_inj_small: "inj_on example_draws {..<5}"
proof -
  have "{..<5} = {0, 1, 2, 3, 4 :: nat}" by auto
  then show ?thesis by (simp add: inj_on_def example_draws_def)
qed

lemma join_root_node:
  "node_of join_root = [FrameId (ID 0 0) \<mapsto> (frame_node_new (FrameId (ID 0 0)) join_args)\<lparr>fn_is_root := True\<rparr>]"
  by (simp add: join_root_def tree_set_root_def create_node_def frame_tree_new_def Let_def
      example_draws_def node_of_update) (rule ext, simp add: node_of_def from_new_node_def)

lemma join_root_state: "tree_state example_draws 5 {FrameId (ID 0 0)} join_root"
proof -
  have drawn: "ft_drawn join_root = 1" "ft_store join_root = []" by code_simp+
  have "tree_wf join_root"
    unfolding tree_wf_def join_root_node by (rule tree_ok_single) (simp_all add: frame_node_new_def)
  then show ?thesis
    by (simp add: tree_state_def tree_inv_def ids_drawn_def resident_def drawn join_root_node example_draws_def)
qed

lemma join_tree_state: "tree_state example_draws 5 {FrameId (ID 0 0)} join_tree"
proof -
  obtain i t where app: "tree_append example_draws (FrameId (ID 0 0)) tool_args join_root = (i, t)"
    by (rule prod.exhaust)
  have "tree_state example_draws 5 (insert i {FrameId (ID 0 0)}) t"
    by (rule tree_append_state [OF example_draws_inj_small join_root_state _ app]) simp
  then have "tree_state example_draws 5 {FrameId (ID 0 0)} t" by (rule tree_state_drop)
  then show ?thesis
    unfolding join_tree_def app by (simp add: update_node_state same_links_def)
qed

lemma join_tree_drawn: "ft_drawn join_tree = 2"
  by code_simp

text \<open>
  A session reloaded from the store. The stored frames form a well-formed tree: a root and its
  child. The tree loads the root alone and appends a second child, whose link from the first
  is written only if the first is in the arena; the first is loaded afterwards, without it.
\<close>

definition reload_store :: frame_store where
  "reload_store = upsert_frame join_parent (upsert_frame join_child [])"

definition reload_draws :: "nat \<Rightarrow> ID" where
  "reload_draws n = ID 2 (word_of_nat n)"

definition reload_tree :: frame_tree where
  "reload_tree = (let t = snd (try_get (FrameId (ID 0 0)) (frame_tree_new reload_store (SessionId (ID 1 1))));
       t = snd (tree_append reload_draws (FrameId (ID 0 0)) tool_args t)
     in snd (try_get (FrameId (ID 0 1)) t))"

lemma reload_nodes:
  "map_option fn_children (node_of reload_tree (FrameId (ID 0 0))) = Some [FrameId (ID 0 1), FrameId (ID 2 0)]"
  "map_option fn_next_sibling (node_of reload_tree (FrameId (ID 0 1))) = Some None"
  "map_option fn_prev_sibling (node_of reload_tree (FrameId (ID 2 0))) = Some (Some (FrameId (ID 0 1)))"
  by code_simp+

lemma reload_breaks_siblings:
  "tree_wf join_tree \<and> map (\<lambda>i. hm_get reload_store (SessionId (ID 1 1), i)) [FrameId (ID 0 0), FrameId (ID 0 1)] =
     map (node_of join_tree) [FrameId (ID 0 0), FrameId (ID 0 1)] \<and>
   resident reload_tree \<and> \<not> tree_wf reload_tree"
proof -
  have store: "hm_get reload_store (SessionId (ID 1 1), i) = None"
    if "i \<noteq> FrameId (ID 0 0)" "i \<noteq> FrameId (ID 0 1)" for i
    using that by (simp add: reload_store_def upsert_frame_def join_parent_def join_child_def frame_node_new_def)
  have in_arena: "node_of reload_tree (FrameId (ID 0 0)) \<noteq> None" "node_of reload_tree (FrameId (ID 0 1)) \<noteq> None"
    using reload_nodes(1,2) by auto
  have t: "ft_store reload_tree = reload_store" "ft_session reload_tree = SessionId (ID 1 1)"
    by code_simp+
  have "resident reload_tree" unfolding resident_def t using store in_arena by metis
  moreover have "\<not> tree_wf reload_tree"
  proof
    assume wf: "tree_wf reload_tree"
    obtain n where n: "node_of reload_tree (FrameId (ID 0 0)) = Some n"
        "fn_children n = [FrameId (ID 0 1), FrameId (ID 2 0)]"
      using reload_nodes(1) by auto
    have "child_at (node_of reload_tree) (FrameId (ID 0 0)) (fn_children n) 0"
      using tree_okD(2) [OF wf [unfolded tree_wf_def] n(1)] n(2) by (simp add: children_ok_def)
    then show False using reload_nodes(2) n(2) by (auto simp: child_at_def)
  qed
  moreover have "tree_wf join_tree" using join_tree_state by (simp add: tree_state_def join_tree_drawn tree_inv_def)
  moreover have "map (\<lambda>i. hm_get reload_store (SessionId (ID 1 1), i)) [FrameId (ID 0 0), FrameId (ID 0 1)] =
      [Some join_parent, Some join_child]" by code_simp
  ultimately show ?thesis by (simp add: join_nodes)
qed

definition join_env :: ckp_env where
  "join_env = \<lparr>ev_fresh = example_draws, ev_draw = \<lambda>n. word_of_nat n, ev_clock = \<lambda>n. n, ev_catalog = [],
     ev_graph_codec = graph_catalogable (\<lambda>_. Inl []) (\<lambda>_. Inl []), ev_spawn = \<lambda>_. Inr (JobId (ID 0 0))\<rparr>"

definition join_snapshots :: session_snapshots where
  "join_snapshots = session_snapshots_new
     (upsert_snapshot (snapshot_new 0 (SessionId (ID 1 1)) (FrameId (ID 0 0)) 0 [] [])
       (upsert_snapshot (snapshot_new 0 (SessionId (ID 1 1)) (FrameId (ID 0 1)) 2
         [(''tool_result'', VString ''ok'')] []) []))
     (SessionId (ID 1 1))"

definition join_ckp :: checkpointer where
  "join_ckp = checkpointer_new (session_new 0 0 (SessionId (ID 1 1))) join_tree join_snapshots
     \<lparr>sh_ids = \<lparr>rng = 0, session_prefix = 0\<rparr>, sh_store = [], sh_events = [], sh_session = SessionId (ID 1 1)\<rparr>
     \<lparr>rng = 0, session_prefix = 0\<rparr> []"

lemma events_keep_tree_witness:
  "let evs = [ChildFrameTerminated (SessionId (ID 1 1)) (FrameId (ID 0 0)) (FrameId (ID 0 1)),
       FrameReady (SessionId (ID 1 1)) (FrameId (ID 0 0))];
       s' = snd (ckp_run join_env evs join_ckp)
   in tree_inv example_draws (ck_frames s') \<and> node_of (ck_frames s') (FrameId (ID 0 1)) \<noteq> None"
proof -
  let ?evs = "[ChildFrameTerminated (SessionId (ID 1 1)) (FrameId (ID 0 0)) (FrameId (ID 0 1)),
       FrameReady (SessionId (ID 1 1)) (FrameId (ID 0 0))]"
  obtain r s' where run: "ckp_run join_env ?evs join_ckp = (r, s')" by (rule prod.exhaust)
  have drawn: "ft_drawn (ck_frames (snd (ckp_run join_env ?evs join_ckp))) \<le> 5" by code_simp
  have env: "ev_fresh join_env = example_draws" by (simp add: join_env_def)
  have frames: "ck_frames join_ckp = join_tree" by (simp add: join_ckp_def checkpointer_new_def)
  have inv: "tree_inv example_draws join_tree" "resident join_tree"
    using join_tree_state by (simp_all add: tree_state_def join_tree_drawn)
  show ?thesis
    using events_keep_tree [of join_env 5 join_ckp ?evs r s'] example_draws_inj_small inv run drawn
    by (simp add: env frames join_nodes)
qed

end
