(* ===== verification/Checkpointer_Steps.thy ===== *)
theory Checkpointer_Steps
  imports Checkpointer_Tree
begin

text \<open>
  What the handlers of the checkpointer do on the states they meet: the commit of channel
  updates, the aggregation of children, and the events a step emits. The evaluation lemmas
  compute one access to a frame of the arena or to the latest snapshot; the properties compose
  them.
\<close>

section \<open>Evaluation of single accesses\<close>

lemma tree_get_node: "node_of t i = Some n \<Longrightarrow> tree_get i t = (Ok n, t)"
  by (auto simp: tree_get_def try_get_def node_of_def split: option.splits)

lemma tree_read_node: "node_of t i = Some n \<Longrightarrow> tree_read i f t = (Ok (f n), t)"
  by (simp add: tree_read_def bind_def tree_get_node)

lemma tree_write_node: "node_of t i = Some n \<Longrightarrow> tree_write i f t = (Ok (), update_node i f t)"
  by (simp add: tree_write_def seq_def bind_def tree_get_node)

text \<open>Reading a field of a present frame changes nothing.\<close>

lemma read_present:
  assumes "node_of (ck_frames s) i = Some n"
  shows "in_tree (tree_read i f) s = (Ok (f n), s)"
  by (simp add: in_tree_def tree_read_node [OF assms])

lemmas reads_present =
  read_present [where f = fn_status, folded status_of_def]
  read_present [where f = fn_policy, folded policy_of_def]
  read_present [where f = fn_data, folded data_of_def]
  read_present [where f = fn_spec_ref, folded spec_ref_of_def]
  read_present [where f = fn_logs, folded logs_of_def]

lemma set_status_present:
  assumes "node_of (ck_frames s) i = Some n"
  shows "in_tree (set_status i st) s =
    (Ok (), s\<lparr>ck_frames := update_node i (\<lambda>n. n\<lparr>fn_status := st\<rparr>) (ck_frames s)\<rparr>)"
  by (simp add: in_tree_def set_status_def tree_write_node [OF assms])

lemma bind_run: "m s = (Ok a, s') \<Longrightarrow> bind m k s = k a s'"
  by (simp add: bind_def)

lemma seq_run: "m s = (Ok a, s') \<Longrightarrow> seq m k s = k s'"
  by (simp add: seq_def bind_def)

lemma emit_run: "emit e s = (Ok (), s\<lparr>ck_emitted := ck_emitted s @ [e (ck_session_id s)]\<rparr>)"
  by (simp add: emit_def)

text \<open>The specification a reference stands for.\<close>

fun spec_for :: "ckp_env \<Rightarrow> frame_spec_ref \<Rightarrow> common_spec option" where
  "spec_for env (GraphSpec r) = (case graphs_get env r of Inl _ \<Rightarrow> None | Inr g \<Rightarrow> Some (g_common g))"
| "spec_for env HitlSpec = Some spec_hitl"
| "spec_for env ToolCallSpec = Some spec_tool"
| "spec_for env ToolAggregatorSpec = Some spec_tool_aggregator"
| "spec_for env ExpertSpec = Some spec_expert"
| "spec_for env ExpertAggregatorSpec = Some spec_expert_aggregator"

lemma spec_of_present:
  assumes "node_of (ck_frames s) i = Some n" and "spec_for env (fn_spec_ref n) = Some spec"
  shows "spec_of env i s = (Ok spec, s)"
  using assms
  by (cases "fn_spec_ref n")
     (auto simp: spec_of_def in_tree_def common_spec_of_def bind_def tree_get_node split: sum.splits)

text \<open>The latest stored snapshot of a frame, as a handler reads it.\<close>

definition stored_latest :: "checkpointer \<Rightarrow> frame_id \<Rightarrow> error + snapshot" where
  "stored_latest s i = latest_snapshot (sn_store (ck_snapshots s)) (sn_session (ck_snapshots s)) i"

definition loaded :: "snapshot \<Rightarrow> checkpointer \<Rightarrow> checkpointer" where
  "loaded x s = s\<lparr>ck_snapshots :=
     snapshot_cache_insert (snapshot_to_ref x) (snapshot_from_loaded x) (ck_snapshots s)\<rparr>"

lemma latest_of_run:
  "latest_of i s = (case stored_latest s i of
      Inl e \<Rightarrow> (Err (StorageFailure e), s) | Inr x \<Rightarrow> (Ok x, loaded x s))"
  by (simp add: latest_of_def in_snapshots_def snapshots_latest_def stored_latest_def loaded_def
      split: sum.splits)

lemma loaded_frame [simp]:
  "ck_frames (loaded x s) = ck_frames s" "ck_session_id (loaded x s) = ck_session_id s"
  "stored_latest (loaded x s) j = stored_latest s j" "ck_emitted (loaded x s) = ck_emitted s"
  by (simp_all add: loaded_def stored_latest_def snapshot_cache_insert_def)

section \<open>Grouping and applying contributions\<close>

definition contributions :: "channel_update list \<Rightarrow> channel_name \<Rightarrow> value list" where
  "contributions us name = map upd_value (filter (\<lambda>u. upd_name u = name) us)"

lemma group_updates_get:
  "hm_get (group_updates us acc) name =
     (let old = (case hm_get acc name of None \<Rightarrow> [] | Some vs \<Rightarrow> vs) in
      if hm_get acc name = None \<and> contributions us name = [] then None
      else Some (old @ contributions us name))"
  by (induction us arbitrary: acc) (auto simp: hm_get_push contributions_def Let_def split: option.splits)

lemma group_updates_wf: "hm_wf acc \<Longrightarrow> hm_wf (group_updates us acc)"
  by (induction us arbitrary: acc) (simp_all add: hm_push_def)

lemma group_updates_empty: "group_updates us [] = [] \<longleftrightarrow> us = []"
proof -
  have "hm_get (group_updates (u # us) []) (upd_name u) \<noteq> None" for u us
    unfolding group_updates_get by (simp add: contributions_def)
  then have "group_updates (u # us) [] \<noteq> []" for u us by (metis map_of.simps(1))
  then show ?thesis by (cases us) (simp_all del: group_updates.simps(2))
qed

lemma apply_contributions_get:
  "hm_wf pc \<Longrightarrow> hm_get (apply_contributions spec pc chans) name = (case hm_get pc name of
      None \<Rightarrow> hm_get chans name
    | Some vs \<Rightarrow> Some (reduce (reducer_of spec name) (hm_get chans name) vs))"
proof (induction spec pc chans rule: apply_contributions.induct)
  case (2 spec n vs rest chans)
  then have "hm_wf rest" "hm_get rest n = None"
    by (auto simp: hm_wf_def map_of_eq_None_iff)
  then show ?case using 2 by (auto split: option.splits)
qed simp

text \<open>The channels a commit of \<open>us\<close> gives, from the channels of the latest snapshot.\<close>

definition committed :: "common_spec \<Rightarrow> channel_update list \<Rightarrow> channels \<Rightarrow> channels" where
  "committed spec us chans =
     (if us = [] then chans else apply_contributions spec (group_updates us []) chans)"

lemma committed_get:
  "hm_get (committed spec us chans) name =
     (if contributions us name = [] then hm_get chans name
      else Some (reduce (reducer_of spec name) (hm_get chans name) (contributions us name)))"
  by (cases "us = []")
     (auto simp: committed_def apply_contributions_get group_updates_wf group_updates_get contributions_def)

definition pushed :: "ckp_env \<Rightarrow> snapshot \<Rightarrow> checkpointer \<Rightarrow> checkpointer" where
  "pushed env x s = s\<lparr>ck_ticks := Suc (ck_ticks s), ck_snapshots :=
     snapshot_cache_insert (snapshot_to_ref x) (snapshot_from_snapshot x) (ck_snapshots s)\<rparr>"

lemma pushed_frame [simp]:
  "ck_frames (pushed env x s) = ck_frames s" "ck_session_id (pushed env x s) = ck_session_id s"
  "stored_latest (pushed env x s) j = stored_latest s j" "ck_emitted (pushed env x s) = ck_emitted s"
  by (simp_all add: pushed_def stored_latest_def snapshot_cache_insert_def)

lemma commit_run:
  assumes base: "stored_latest s i = Inr base" and node: "node_of (ck_frames s) i = Some n"
    and spec: "spec_for env (fn_spec_ref n) = Some spec"
  shows "commit_snapshot env i expected us js s =
    (if ss_superstep base \<noteq> expected
     then (Err (StaleSuperstep expected (ss_superstep base)), loaded base s)
     else let x = snapshot_new (ev_clock env (ck_ticks s)) (ck_session_id s) i (expected + 1)
                    (committed spec us (ss_channels base)) js
       in (Ok (snapshot_to_ref x), pushed env x (loaded base s)))"
proof -
  have "ck_ticks (loaded base s) = ck_ticks s" by (simp add: loaded_def)
  moreover have "spec_of env i (loaded base s) = (Ok spec, loaded base s)"
    by (rule spec_of_present) (use node spec in simp_all)
  ultimately show ?thesis
    by (simp add: commit_snapshot_def bind_def latest_of_run base Let_def group_updates_empty
        committed_def now_def in_snapshots_def snapshots_push_def pushed_def)
qed

section \<open>Properties of a commit\<close>

text \<open>
  C4: a commit with the superstep of the latest stored snapshot creates, in the cache, the
  snapshot of the next superstep, whose channels are those of the latest one with, for each
  channel that received contributions, the value its declared reducer gives for the current
  value and these contributions in their order; a commit with another superstep fails as stale
  and creates nothing. The frames are not touched.
\<close>

theorem commit_reduces:
  assumes "stored_latest s i = Inr base" and "node_of (ck_frames s) i = Some n"
    and "spec_for env (fn_spec_ref n) = Some spec"
  shows "(ss_superstep base \<noteq> expected \<longrightarrow>
      commit_snapshot env i expected us js s =
        (Err (StaleSuperstep expected (ss_superstep base)), loaded base s)) \<and>
    (ss_superstep base = expected \<longrightarrow> (\<exists>x s'.
      commit_snapshot env i expected us js s = (Ok (snapshot_to_ref x), s') \<and>
      hm_get (sn_cache (ck_snapshots s')) (snapshot_to_ref x) = Some (snapshot_from_snapshot x) \<and>
      ss_session x = ck_session_id s \<and> ss_frame x = i \<and> ss_superstep x = expected + 1 \<and>
      ss_join_sources x = js \<and> ck_frames s' = ck_frames s \<and>
      (\<forall>name. hm_get (ss_channels x) name =
         (if contributions us name = [] then hm_get (ss_channels base) name
          else Some (reduce (reducer_of spec name) (hm_get (ss_channels base) name)
                 (contributions us name))))))"
proof (intro conjI impI)
  show "commit_snapshot env i expected us js s =
      (Err (StaleSuperstep expected (ss_superstep base)), loaded base s)"
    if "ss_superstep base \<noteq> expected"
    using that by (simp add: commit_run [OF assms])
  assume eq: "ss_superstep base = expected"
  let ?x = "snapshot_new (ev_clock env (ck_ticks s)) (ck_session_id s) i (expected + 1)
      (committed spec us (ss_channels base)) js"
  have run: "commit_snapshot env i expected us js s =
      (Ok (snapshot_to_ref ?x), pushed env ?x (loaded base s))"
    using eq by (simp add: commit_run [OF assms] Let_def)
  show "\<exists>x s'. commit_snapshot env i expected us js s = (Ok (snapshot_to_ref x), s') \<and>
      hm_get (sn_cache (ck_snapshots s')) (snapshot_to_ref x) = Some (snapshot_from_snapshot x) \<and>
      ss_session x = ck_session_id s \<and> ss_frame x = i \<and> ss_superstep x = expected + 1 \<and>
      ss_join_sources x = js \<and> ck_frames s' = ck_frames s \<and>
      (\<forall>name. hm_get (ss_channels x) name =
         (if contributions us name = [] then hm_get (ss_channels base) name
          else Some (reduce (reducer_of spec name) (hm_get (ss_channels base) name)
                 (contributions us name))))"
    by (rule exI [of _ ?x], rule exI [of _ "pushed env ?x (loaded base s)"])
       (simp add: run committed_get snapshot_new_def pushed_def snapshot_cache_insert_def)
qed

text \<open>
  The check of the superstep does not detect an earlier commit that is still in the cache.
  A second commit with the same expected superstep succeeds with the same reference, and the
  snapshot then held under it carries the second updates only: a channel to which only the first
  commit contributed has the value it had before both.
\<close>

theorem second_commit_forgets_first:
  assumes "stored_latest s i = Inr base" and "node_of (ck_frames s) i = Some n"
    and "spec_for env (fn_spec_ref n) = Some spec"
    and first: "commit_snapshot env i (ss_superstep base) us1 js1 s = (r1, s1)"
    and second: "commit_snapshot env i (ss_superstep base) us2 js2 s1 = (r2, s2)"
  shows "\<exists>ref c. r1 = Ok ref \<and> r2 = Ok ref \<and>
    hm_get (sn_cache (ck_snapshots s2)) ref = Some c \<and>
    (\<forall>name. hm_get (ss_channels (sc_snapshot c)) name =
       (if contributions us2 name = [] then hm_get (ss_channels base) name
        else Some (reduce (reducer_of spec name) (hm_get (ss_channels base) name)
               (contributions us2 name))))"
proof -
  let ?x1 = "snapshot_new (ev_clock env (ck_ticks s)) (ck_session_id s) i (ss_superstep base + 1)
      (committed spec us1 (ss_channels base)) js1"
  have s1: "s1 = pushed env ?x1 (loaded base s)" "r1 = Ok (snapshot_to_ref ?x1)"
    using first by (auto simp: commit_run [OF assms(1-3)] Let_def)
  have again: "stored_latest s1 i = Inr base" "node_of (ck_frames s1) i = Some n"
    using assms(1,2) by (simp_all add: s1)
  let ?x2 = "snapshot_new (ev_clock env (ck_ticks s1)) (ck_session_id s1) i (ss_superstep base + 1)
      (committed spec us2 (ss_channels base)) js2"
  have s2: "s2 = pushed env ?x2 (loaded base s1)" "r2 = Ok (snapshot_to_ref ?x2)"
    using second by (auto simp: commit_run [OF again assms(3)] Let_def)
  have "snapshot_to_ref ?x2 = snapshot_to_ref ?x1"
    by (simp add: snapshot_to_ref_def snapshot_new_def s1)
  moreover have "hm_get (sn_cache (ck_snapshots s2)) (snapshot_to_ref ?x2) = Some (snapshot_from_snapshot ?x2)"
    by (simp add: s2 pushed_def snapshot_cache_insert_def)
  moreover have "ss_channels (sc_snapshot (snapshot_from_snapshot ?x2)) = committed spec us2 (ss_channels base)"
    by (simp add: snapshot_from_snapshot_def snapshot_new_def)
  ultimately show ?thesis using s1(2) s2(2) committed_get [of spec us2 "ss_channels base"] by metis
qed

section \<open>Reading children\<close>

text \<open>Two states that differ at most in the snapshot cache, the jobs and the clock.\<close>

definition reads :: "checkpointer \<Rightarrow> checkpointer \<Rightarrow> bool" where
  "reads s s' \<longleftrightarrow> ck_frames s' = ck_frames s \<and> ck_session_id s' = ck_session_id s \<and>
     ck_emitted s' = ck_emitted s \<and> (\<forall>j. stored_latest s' j = stored_latest s j)"

lemma reads_refl [simp]: "reads s s"
  by (simp add: reads_def)

lemma reads_loaded: "reads s s' \<Longrightarrow> reads s (loaded x s')"
  by (simp add: reads_def)

lemma reads_pushed: "reads s s' \<Longrightarrow> reads s (pushed env x s')"
  by (simp add: reads_def)

lemma reads_trans: "reads s s' \<Longrightarrow> reads s' s'' \<Longrightarrow> reads s s''"
  by (simp add: reads_def)

definition status_at :: "checkpointer \<Rightarrow> frame_id \<Rightarrow> frame_status" where
  "status_at s i = fn_status (the (node_of (ck_frames s) i))"

lemma statuses_present:
  "(\<And>c. c \<in> set cs \<Longrightarrow> node_of (ck_frames s) c \<noteq> None) \<Longrightarrow>
     statuses_of cs s = (Ok (map (status_at s) cs), s)"
proof (induction cs)
  case (Cons c cs)
  obtain n where n: "node_of (ck_frames s) c = Some n" using Cons.prems [of c] by auto
  have tail: "map_prog (\<lambda>c. in_tree (status_of c)) cs s = (Ok (map (status_at s) cs), s)"
    using Cons by (simp add: statuses_of_def)
  show ?case
    by (simp add: statuses_of_def bind_run reads_present(1) [OF n] bind_run tail)
       (simp add: status_at_def n)
qed (simp add: statuses_of_def)

lemma all_terminated_present:
  "(\<And>c. c \<in> set cs \<Longrightarrow> node_of (ck_frames s) c \<noteq> None) \<Longrightarrow>
     all_have_terminated cs s = (Ok (list_all (\<lambda>c. status_terminated (status_at s c)) cs), s)"
proof (induction cs)
  case (Cons c cs)
  obtain n where n: "node_of (ck_frames s) c = Some n" using Cons.prems [of c] by auto
  show ?case
    using Cons by (simp add: bind_run reads_present(1) [OF n]) (simp add: status_at_def n)
qed simp

lemma children_present:
  assumes "tree_wf (ck_frames s)" and "node_of (ck_frames s) i = Some n" and "c \<in> set (fn_children n)"
  shows "node_of (ck_frames s) c \<noteq> None"
  using child_facts(1) [of "node_of (ck_frames s)" i n c] assms by (auto simp: tree_wf_def)

lemma iter_children_present:
  "node_of t i = Some n \<Longrightarrow> iter_children_of t i = fn_children n"
  by (simp add: iter_children_of_def)

text \<open>How many children of a frame have failed.\<close>

definition failed_children :: "checkpointer \<Rightarrow> frame_node \<Rightarrow> nat" where
  "failed_children s n = length (filter (\<lambda>c. status_failed (status_at s c)) (fn_children n))"

lemma count_failed_run:
  assumes "tree_wf (ck_frames s)" and "node_of (ck_frames s) i = Some n"
  shows "count_failed_frame_child i s = (Ok (failed_children s n), s)"
proof -
  have st: "statuses_of (fn_children n) s = (Ok (map (status_at s) (fn_children n)), s)"
    by (rule statuses_present) (rule children_present [OF assms])
  have "children_of i s = (Ok (fn_children n), s)"
    by (simp add: children_of_def iter_children_present [OF assms(2)])
  then show ?thesis
    by (simp add: count_failed_frame_child_def bind_run st bind_def [of "children_of i"])
       (simp add: failed_children_def filter_map comp_def)
qed

definition failure_reached :: "checkpointer \<Rightarrow> frame_node \<Rightarrow> frame_node \<Rightarrow> nat option" where
  "failure_reached s pn cn = (case on_child_failed (fn_policy pn) of
      FailIfAtLeastHasFailed k \<Rightarrow>
        if status_failed (fn_status cn) \<and> k \<le> failed_children s pn then Some k else None
    | DontFail \<Rightarrow> None)"

lemma child_failure_run:
  assumes "tree_wf (ck_frames s)" and "node_of (ck_frames s) i = Some pn"
  shows "child_failure i (fn_status cn) (fn_policy pn) s = (Ok (failure_reached s pn cn), s)"
  by (cases "fn_status cn"; cases "on_child_failed (fn_policy pn)")
     (simp_all add: child_failure_def failure_reached_def bind_run count_failed_run [OF assms])

lemma on_child_run:
  assumes "tree_wf (ck_frames s)" and "node_of (ck_frames s) i = Some pn"
    and "node_of (ck_frames s) c = Some cn"
  shows "on_child_frame_terminated env i c s = (case failure_reached s pn cn of
      Some count \<Rightarrow> mark_failed_frame (''au moins '' @ show_nat count @ '' enfants ont echoue'') i s
    | None \<Rightarrow> (case resume_pol (fn_policy pn) of
          Sequential \<Rightarrow> resume_sequential env i s
        | FanIn \<Rightarrow> (if list_all (\<lambda>c. status_terminated (status_at s c)) (fn_children pn)
            then resume_fan_in env i s else (Ok (), s))
        | HitlResume \<Rightarrow> (Ok (), s)))"
proof -
  have all: "all_have_terminated (fn_children pn) s =
      (Ok (list_all (\<lambda>c. status_terminated (status_at s c)) (fn_children pn)), s)"
    by (rule all_terminated_present) (rule children_present [OF assms(1,2)])
  have "children_of i s = (Ok (fn_children pn), s)"
    by (simp add: children_of_def iter_children_present [OF assms(2)])
  then have ended: "all_children_have_terminated i s =
      (Ok (list_all (\<lambda>c. status_terminated (status_at s c)) (fn_children pn)), s)"
    by (simp add: all_children_have_terminated_def bind_def all)
  show ?thesis
    by (simp add: on_child_frame_terminated_def bind_run reads_present(1) [OF assms(3)]
        bind_run reads_present(2) [OF assms(2)] bind_run child_failure_run [OF assms(1,2)]
        bind_run ended split: option.splits resume_policy.splits)
qed

text \<open>
  Whether a frame of the arena has not failed. Nothing that resumes a parent fails a frame.
\<close>

definition unfailed :: "frame_id \<Rightarrow> frame_tree \<Rightarrow> bool" where
  "unfailed i t \<longleftrightarrow> (\<exists>n. node_of t i = Some n \<and> \<not> status_failed (fn_status n))"

abbreviation ckp_unfailed :: "frame_id \<Rightarrow> checkpointer \<Rightarrow> bool" where
  "ckp_unfailed i s \<equiv> unfailed i (ck_frames s)"

lemma unfailed_frames: "(\<And>s. ck_frames (snd (m s)) = ck_frames s) \<Longrightarrow> keeps (ckp_unfailed i) m"
  by (simp add: keeps_def)

lemma unfailed_in_tree: "keeps (unfailed i) m \<Longrightarrow> keeps (ckp_unfailed i) (in_tree m)"
  by (fastforce simp: keeps_def in_tree_def split: prod.splits)

lemma unfailed_try_get: "keeps (unfailed i) (try_get j)"
  by (auto simp: keeps_def try_get_def unfailed_def node_of_def split: option.splits sum.splits)

lemma unfailed_tree_get: "keeps (unfailed i) (tree_get j)"
  using unfailed_try_get [of i j] by (fastforce simp: keeps_def tree_get_def split: prod.splits outcome.splits)

lemma unfailed_tree_read: "keeps (unfailed i) (tree_read j f)"
  unfolding tree_read_def by (auto intro!: keeps_intro unfailed_tree_get)

lemma unfailed_tree_write:
  "(\<And>n. \<not> status_failed (fn_status n) \<Longrightarrow> \<not> status_failed (fn_status (f n))) \<Longrightarrow> keeps (unfailed i) (tree_write j f)"
  unfolding tree_write_def by (auto intro!: keeps_intro unfailed_tree_get simp: unfailed_def node_of_update)

lemma unfailed_reads:
  "keeps (ckp_unfailed i) (in_tree (status_of j))" "keeps (ckp_unfailed i) (in_tree (last_child_of j))"
  "keeps (ckp_unfailed i) (in_tree (pending_log_of j))" "keeps (ckp_unfailed i) (in_tree (spec_ref_of j))"
  "keeps (ckp_unfailed i) (in_tree (get_on_resume_policy j))"
  by (auto simp: read_defs get_on_resume_policy_def intro!: unfailed_in_tree unfailed_tree_read keeps_intro)

lemma unfailed_writes:
  "\<not> status_failed st \<Longrightarrow> keeps (ckp_unfailed i) (in_tree (set_status j st))"
  "keeps (ckp_unfailed i) (in_tree (resolve_log j k v))"
  by (auto simp: set_status_def resolve_log_def intro!: unfailed_in_tree unfailed_tree_write)

lemma unfailed_others:
  "keeps (ckp_unfailed i) (in_snapshots m)" "keeps (ckp_unfailed i) (latest_of j)"
  "keeps (ckp_unfailed i) (emit e)" "keeps (ckp_unfailed i) (now env)"
  by (auto simp: in_snapshots_def latest_of_def emit_def now_def split: prod.splits intro!: unfailed_frames)

lemma unfailed_spec_of: "keeps (ckp_unfailed i) (spec_of env j)"
  unfolding spec_of_def common_spec_of_def
  by (auto split: frame_spec_ref.splits sum.splits intro!: unfailed_in_tree unfailed_tree_get keeps_intro)

lemmas unfailed_intro = unfailed_reads unfailed_writes unfailed_others unfailed_spec_of keeps_intro

lemma unfailed_resume_frame: "keeps (ckp_unfailed i) (resume_frame j)"
  unfolding resume_frame_def mark_ready_to_run_frame_def mark_completed_frame_def notify_parent_def parent_frame_def
  by (auto split: on_resume_policy.splits option.splits intro!: unfailed_intro)

lemma unfailed_drain: "keeps (ckp_unfailed i) (drain_pending_accumulators env j cs)"
proof -
  have "keeps (ckp_unfailed i) (drain_children env imported cs acc)" for imported acc
    by (induction cs arbitrary: acc) (auto intro!: unfailed_intro)
  then show ?thesis unfolding drain_pending_accumulators_def by (auto intro!: unfailed_intro)
qed

lemma unfailed_commit: "keeps (ckp_unfailed i) (commit_snapshot env j k us js)"
  unfolding commit_snapshot_def Let_def by (auto intro!: unfailed_intro)

lemma unfailed_resolve: "keeps (ckp_unfailed i) (resolve_pending_log env j cs)"
proof -
  have "keeps (ckp_unfailed i) (resolved_by env l c sr chans)" for l c sr chans
    unfolding resolved_by_def by (auto split: run_log_content.splits frame_spec_ref.splits intro!: unfailed_intro)
  then have "keeps (ckp_unfailed i) (resolve_from env j l cs)" for l
    by (induction cs) (auto intro!: unfailed_intro)
  then show ?thesis unfolding resolve_pending_log_def by (auto intro!: unfailed_intro)
qed

lemma unfailed_resume:
  "keeps (ckp_unfailed i) (resume_sequential env j)" "keeps (ckp_unfailed i) (resume_fan_in env j)"
proof -
  note rules = unfailed_intro unfailed_drain unfailed_commit unfailed_resolve unfailed_resume_frame
  have "keeps (ckp_unfailed i) (mark_ready_to_run_frame j)"
    unfolding mark_ready_to_run_frame_def by (auto intro!: unfailed_intro)
  then show "keeps (ckp_unfailed i) (resume_sequential env j)"
    unfolding resume_sequential_def by (auto split: option.splits intro!: rules)
  have "keeps (ckp_unfailed i) (children_of j)" "keeps (ckp_unfailed i) (statuses_of cs)" for cs
    unfolding children_of_def statuses_of_def by (auto intro!: unfailed_intro)
  then have "keeps (ckp_unfailed i) (completed_children j)"
    unfolding completed_children_def by (auto intro!: unfailed_intro)
  then show "keeps (ckp_unfailed i) (resume_fan_in env j)"
    unfolding resume_fan_in_def by (auto intro!: rules)
qed

text \<open>
  C14: the end of a child of a frame that has not failed itself, both in a well-formed tree. The
  parent ends up failed if and only if the child failed and the number of failed children has
  reached the threshold of the parent's policy; then exactly its termination is emitted. In
  every other case, a failed child below the threshold included, a fan-in parent of which one
  child has not terminated is left unchanged.
\<close>

theorem child_end_policy:
  assumes "tree_wf (ck_frames s)" and "node_of (ck_frames s) i = Some pn"
    and "node_of (ck_frames s) c = Some cn" and "\<not> status_failed (fn_status pn)"
    and "on_child_frame_terminated env i c s = (r, s')"
  shows "(status_failed (status_at s' i) \<longleftrightarrow> status_failed (fn_status cn) \<and>
      (\<exists>k. on_child_failed (fn_policy pn) = FailIfAtLeastHasFailed k \<and> k \<le> failed_children s pn)) \<and>
    (status_failed (status_at s' i) \<longrightarrow>
      r = Ok () \<and> ck_emitted s' = ck_emitted s @ [FrameTerminated (ck_session_id s) i]) \<and>
    (\<not> status_failed (status_at s' i) \<and> resume_pol (fn_policy pn) = FanIn \<and>
        (\<exists>d \<in> set (fn_children pn). \<not> status_terminated (status_at s d)) \<longrightarrow>
      r = Ok () \<and> s' = s)"
proof (cases "failure_reached s pn cn")
  case (Some k)
  then have "on_child_failed (fn_policy pn) = FailIfAtLeastHasFailed k" "status_failed (fn_status cn)"
    "k \<le> failed_children s pn"
    by (auto simp: failure_reached_def split: child_failure_policy.splits if_splits)
  moreover have "r = Ok () \<and> status_failed (status_at s' i) \<and>
      ck_emitted s' = ck_emitted s @ [FrameTerminated (ck_session_id s) i]"
    using assms(5) Some
    by (auto simp: on_child_run [OF assms(1-3)] mark_failed_frame_def seq_run set_status_present [OF assms(2)]
        emit_run status_at_def node_of_update assms(2))
  ultimately show ?thesis by auto
next
  case None
  then have no: "\<not> (status_failed (fn_status cn) \<and>
      (\<exists>k. on_child_failed (fn_policy pn) = FailIfAtLeastHasFailed k \<and> k \<le> failed_children s pn))"
    by (auto simp: failure_reached_def split: child_failure_policy.splits if_splits)
  have "ckp_unfailed i s" using assms(2,4) by (simp add: unfailed_def)
  then have "ckp_unfailed i s'"
    using assms(5) None keepsD [OF unfailed_resume(1) [of i env i], of s] keepsD [OF unfailed_resume(2) [of i env i], of s]
    by (auto simp: on_child_run [OF assms(1-3)] split: resume_policy.splits if_splits)
  then have "\<not> status_failed (status_at s' i)" by (auto simp: unfailed_def status_at_def)
  then show ?thesis using no assms(5) None by (auto simp: on_child_run [OF assms(1-3)] list_all_iff split: if_splits)
qed

section \<open>Joining children\<close>

text \<open>What a child contributes to a channel of its parent.\<close>

definition exported_values :: "channel_name list \<Rightarrow> channels \<Rightarrow> channel_name list \<Rightarrow> channel_name \<Rightarrow> value list" where
  "exported_values imported chans exported name =
     (if name \<in> set imported then case hm_get chans name of
        None \<Rightarrow> [] | Some v \<Rightarrow> replicate (count_list exported name) v else [])"

definition extends :: "(channel_name, value list) hash_map \<Rightarrow> (channel_name \<Rightarrow> value list)
    \<Rightarrow> (channel_name, value list) hash_map \<Rightarrow> bool" where
  "extends acc added acc' \<longleftrightarrow> (\<forall>name. hm_get acc' name =
     (if hm_get acc name = None \<and> added name = [] then None
      else Some ((case hm_get acc name of None \<Rightarrow> [] | Some vs \<Rightarrow> vs) @ added name)))"

lemma extends_trans:
  "extends a f b \<Longrightarrow> extends b g c \<Longrightarrow> extends a (\<lambda>name. f name @ g name) c"
  by (auto simp: extends_def split: option.splits)

lemma collect_exports_extends:
  "extends acc (exported_values imported chans ns) (collect_exports imported chans ns acc)"
proof (induction imported chans ns acc rule: collect_exports.induct)
  case (1 imported chans acc)
  then show ?case by (auto simp: extends_def exported_values_def split: option.splits)
next
  case (2 imported chans n ns acc)
  show ?case
  proof (cases "n \<in> set imported \<and> hm_get chans n \<noteq> None")
    case False
    then have "exported_values imported chans (n # ns) = exported_values imported chans ns"
      by (intro ext) (auto simp: exported_values_def split: option.splits)
    then show ?thesis using False 2 by (auto split: option.splits)
  next
    case True
    then obtain v where v: "n \<in> set imported" "hm_get chans n = Some v" by auto
    have push: "extends acc (\<lambda>name. if name = n then [v] else []) (hm_push n v acc)"
      by (auto simp: extends_def hm_get_push)
    have rest: "extends (hm_push n v acc) (exported_values imported chans ns)
        (collect_exports imported chans (n # ns) acc)"
      using 2 v by simp
    have "exported_values imported chans (n # ns) =
        (\<lambda>name. (if name = n then [v] else []) @ exported_values imported chans ns name)"
      using v by (intro ext) (auto simp: exported_values_def split: option.splits)
    then show ?thesis using extends_trans [OF push rest] by simp
  qed
qed

lemma collect_exports_wf: "hm_wf acc \<Longrightarrow> hm_wf (collect_exports imported chans ns acc)"
  by (induction imported chans ns acc rule: collect_exports.induct)
     (auto simp: hm_push_def split: option.splits)

lemma latest_present: "stored_latest s i = Inr x \<Longrightarrow> latest_of i s = (Ok x, loaded x s)"
  by (simp add: latest_of_run)

text \<open>The children a join reads: their nodes, specifications and latest snapshots.\<close>

definition readable ::
  "ckp_env \<Rightarrow> checkpointer \<Rightarrow> (frame_id \<Rightarrow> common_spec) \<Rightarrow> (frame_id \<Rightarrow> snapshot) \<Rightarrow> frame_id \<Rightarrow> bool" where
  "readable env s sp snap c \<longleftrightarrow> stored_latest s c = Inr (snap c) \<and>
     (\<exists>n. node_of (ck_frames s) c = Some n \<and> spec_for env (fn_spec_ref n) = Some (sp c))"

lemma readable_reads: "reads s s' \<Longrightarrow> readable env s' sp snap c = readable env s sp snap c"
  by (simp add: readable_def reads_def)

lemma drain_children_run:
  "(\<And>c. c \<in> set cs \<Longrightarrow> readable env s sp snap c) \<Longrightarrow> hm_wf acc \<Longrightarrow>
     \<exists>acc' s'. drain_children env imported cs acc s = (Ok acc', s') \<and> reads s s' \<and> hm_wf acc' \<and>
       extends acc (\<lambda>name. concat (map (\<lambda>c. exported_values imported (ss_channels (snap c))
         (exported_channels (sp c)) name) cs)) acc'"
proof (induction cs arbitrary: acc s)
  case Nil
  then show ?case by (auto simp: extends_def split: option.splits)
next
  case (Cons c cs)
  obtain n where n: "node_of (ck_frames s) c = Some n" "spec_for env (fn_spec_ref n) = Some (sp c)"
    and x: "stored_latest s c = Inr (snap c)"
    using Cons.prems(1) [of c] by (auto simp: readable_def)
  let ?s = "loaded (snap c) s"
  let ?acc = "collect_exports imported (ss_channels (snap c)) (exported_channels (sp c)) acc"
  have rd: "reads s ?s" by (simp add: reads_loaded)
  obtain acc' s' where IH: "drain_children env imported cs ?acc ?s = (Ok acc', s')" "reads ?s s'" "hm_wf acc'"
    "extends ?acc (\<lambda>name. concat (map (\<lambda>c. exported_values imported (ss_channels (snap c))
         (exported_channels (sp c)) name) cs)) acc'"
    using Cons.IH [of ?s ?acc] Cons.prems collect_exports_wf [of acc] readable_reads [OF rd] by auto
  have "drain_children env imported (c # cs) acc s = (Ok acc', s')"
    by (simp add: bind_run spec_of_present [OF n] latest_present [OF x] IH(1))
  then show ?case
    using IH(2-4) reads_trans [OF rd] extends_trans [OF collect_exports_extends IH(4)] by auto
qed

lemma contributions_concat:
  assumes "hm_wf pc"
  shows "contributions (concat (map (\<lambda>(name, vs).
      map (\<lambda>v. \<lparr>upd_name = name, upd_value = v, upd_contributor = i\<rparr>) vs) pc)) name =
    (case hm_get pc name of None \<Rightarrow> [] | Some vs \<Rightarrow> vs)"
  using assms
proof (induction pc)
  case Nil
  then show ?case by (simp add: contributions_def)
next
  case (Cons kv pc)
  obtain k vs where kv: "kv = (k, vs)" by (rule prod.exhaust)
  have "hm_wf pc" "hm_get pc k = None" using Cons.prems kv by (auto simp: hm_wf_def map_of_eq_None_iff)
  moreover have "filter (\<lambda>u. upd_name u = name)
      (map (\<lambda>v. \<lparr>upd_name = k, upd_value = v, upd_contributor = i\<rparr>) vs) =
      (if k = name then map (\<lambda>v. \<lparr>upd_name = k, upd_value = v, upd_contributor = i\<rparr>) vs else [])"
    by (simp add: filter_map comp_def)
  ultimately show ?case
    using Cons.IH kv by (auto simp: contributions_def comp_def)
qed

lemma drain_run:
  assumes "node_of (ck_frames s) i = Some pn" and "spec_for env (fn_spec_ref pn) = Some psp"
    and "\<And>c. c \<in> set cs \<Longrightarrow> readable env s sp snap c"
  shows "\<exists>us s'. drain_pending_accumulators env i cs s = (Ok us, s') \<and> reads s s' \<and>
    (\<forall>name. contributions us name = concat (map (\<lambda>c. exported_values (imported_channels psp)
       (ss_channels (snap c)) (exported_channels (sp c)) name) cs))"
proof -
  obtain acc' s' where run: "drain_children env (imported_channels psp) cs [] s = (Ok acc', s')"
    and rd: "reads s s'" and wf: "hm_wf acc'"
    and ext: "extends [] (\<lambda>name. concat (map (\<lambda>c. exported_values (imported_channels psp)
       (ss_channels (snap c)) (exported_channels (sp c)) name) cs)) acc'"
    using drain_children_run [of cs env s sp snap "[]" "imported_channels psp"] assms(3) by auto
  have "(case hm_get acc' name of None \<Rightarrow> [] | Some vs \<Rightarrow> vs) = concat (map (\<lambda>c. exported_values
      (imported_channels psp) (ss_channels (snap c)) (exported_channels (sp c)) name) cs)" for name
    using ext by (auto simp: extends_def)
  then show ?thesis
    using rd contributions_concat [OF wf]
    by (simp add: drain_pending_accumulators_def bind_run spec_of_present [OF assms(1,2)] run)
qed

lemma completed_children_run:
  assumes "tree_wf (ck_frames s)" and "node_of (ck_frames s) i = Some n"
  shows "completed_children i s =
    (Ok (filter (\<lambda>c. status_completed (status_at s c)) (fn_children n)), s)"
proof -
  have st: "statuses_of (fn_children n) s = (Ok (map (status_at s) (fn_children n)), s)"
    by (rule statuses_present) (rule children_present [OF assms])
  have ch: "children_of i s = (Ok (fn_children n), s)"
    by (simp add: children_of_def iter_children_present [OF assms(2)])
  have "map fst (filter (\<lambda>(c, st). status_completed st) (zip cs (map f cs))) =
      filter (\<lambda>c. status_completed (f c)) cs" for f and cs :: "frame_id list"
    by (induction cs) auto
  then show ?thesis by (simp add: completed_children_def bind_run ch st)
qed

lemma map_prog_reads:
  "(\<And>c s'. c \<in> set cs \<Longrightarrow> reads s s' \<Longrightarrow> \<exists>s''. f c s' = (Ok (g c), s'') \<and> reads s' s'') \<Longrightarrow>
     \<exists>s'. map_prog f cs s = (Ok (map g cs), s') \<and> reads s s'"
proof (induction cs arbitrary: s)
  case (Cons c cs)
  obtain s1 where s1: "f c s = (Ok (g c), s1)" "reads s s1" using Cons.prems [of c s] by auto
  have "\<exists>s'. map_prog f cs s1 = (Ok (map g cs), s') \<and> reads s1 s'"
    by (rule Cons.IH) (use Cons.prems reads_trans [OF s1(2)] in auto)
  then obtain s2 where "map_prog f cs s1 = (Ok (map g cs), s2)" "reads s1 s2" by blast
  then show ?case using s1 reads_trans [OF s1(2)] by (auto simp: bind_def)
qed simp

lemma join_sources_run:
  assumes "\<And>c. c \<in> set cs \<Longrightarrow> readable env s sp snap c"
  shows "\<exists>s'. map_prog (\<lambda>c. bind (latest_of c) (\<lambda>x. ret (snapshot_to_ref x))) cs s =
    (Ok (map (\<lambda>c. snapshot_to_ref (snap c)) cs), s') \<and> reads s s'"
proof (rule map_prog_reads)
  fix c s'
  assume "c \<in> set cs" and "reads s s'"
  then have "stored_latest s' c = Inr (snap c)" using assms by (simp add: readable_def reads_def)
  then show "\<exists>s''. bind (latest_of c) (\<lambda>x. ret (snapshot_to_ref x)) s' =
      (Ok (snapshot_to_ref (snap c)), s'') \<and> reads s' s''"
    by (simp add: bind_def latest_present reads_loaded)
qed

text \<open>A frame whose replay log is fully resolved, resumed by running it again.\<close>

lemma resume_ready_run:
  assumes "node_of (ck_frames s) i = Some n" and "on_resume_pol (fn_policy n) = ResumeRunFrame"
  shows "resume_frame i s = (Ok (), s\<lparr>ck_frames := update_node i (\<lambda>n. n\<lparr>fn_status := FReady\<rparr>) (ck_frames s),
    ck_emitted := ck_emitted s @ [FrameReady (ck_session_id s) i]\<rparr>)"
proof -
  have "in_tree (get_on_resume_policy i) s = (Ok ResumeRunFrame, s)"
    using assms by (simp add: get_on_resume_policy_def policy_of_def in_tree_def bind_def tree_read_node)
  then show ?thesis
    by (simp add: resume_frame_def bind_def mark_ready_to_run_frame_def seq_run set_status_present [OF assms(1)]
        emit_run)
qed

lemma resolve_none_run:
  assumes "node_of (ck_frames s) i = Some n" and "list_all (\<lambda>l. log_value l \<noteq> None) (fn_logs n)"
  shows "resolve_pending_log env i cs s = (Ok (), s)"
proof -
  have "List.find (\<lambda>l. log_value l = None) (rev (fn_logs n)) = None"
    using assms(2) by (auto simp: find_None_iff list_all_iff)
  then have "in_tree (pending_log_of i) s = (Ok None, s)"
    by (simp add: pending_log_of_def in_tree_def tree_read_node [OF assms(1)])
  then show ?thesis by (simp add: resolve_pending_log_def bind_def)
qed

lemma fan_in_run:
  assumes wf: "tree_wf (ck_frames s)" and node: "node_of (ck_frames s) i = Some n"
    and spec: "spec_for env (fn_spec_ref n) = Some psp" and base: "stored_latest s i = Inr base"
    and cs: "cs = filter (\<lambda>c. status_completed (status_at s c)) (fn_children n)"
    and rd: "\<And>c. c \<in> set cs \<Longrightarrow> readable env s sp snap c"
    and logs: "list_all (\<lambda>l. log_value l \<noteq> None) (fn_logs n)"
    and pol: "on_resume_pol (fn_policy n) = ResumeRunFrame"
  shows "\<exists>us x s1 s'. resume_fan_in env i s = (Ok (), s') \<and> reads s s1 \<and>
    (\<forall>name. contributions us name = concat (map (\<lambda>c. exported_values (imported_channels psp)
       (ss_channels (snap c)) (exported_channels (sp c)) name) cs)) \<and>
    x = snapshot_new (ev_clock env (ck_ticks s1)) (ck_session_id s) i (ss_superstep base + 1)
       (committed psp us (ss_channels base)) (map (\<lambda>c. snapshot_to_ref (snap c)) cs) \<and>
    s' = (pushed env x (loaded base s1))\<lparr>
       ck_frames := update_node i (\<lambda>n. n\<lparr>fn_status := FReady\<rparr>) (ck_frames s),
       ck_emitted := ck_emitted s @ [FrameReady (ck_session_id s) i]\<rparr>"
proof -
  let ?s0 = "loaded base s"
  have r0: "reads s ?s0" by (simp add: reads_loaded)
  have cc: "completed_children i ?s0 = (Ok cs, ?s0)"
    using completed_children_run [of ?s0 i n] wf node by (simp add: cs status_at_def)
  have rd0: "\<And>c. c \<in> set cs \<Longrightarrow> readable env ?s0 sp snap c" using rd readable_reads [OF r0] by blast
  obtain s1 where js: "map_prog (\<lambda>c. bind (latest_of c) (\<lambda>x. ret (snapshot_to_ref x))) cs ?s0 =
      (Ok (map (\<lambda>c. snapshot_to_ref (snap c)) cs), s1)" "reads ?s0 s1"
    using join_sources_run [OF rd0] by blast
  have r1: "reads s s1" by (rule reads_trans [OF r0 js(2)])
  have node1: "node_of (ck_frames s1) i = Some n" using node r1 by (simp add: reads_def)
  have rd1: "\<And>c. c \<in> set cs \<Longrightarrow> readable env s1 sp snap c" using rd readable_reads [OF r1] by blast
  obtain us s2 where dr: "drain_pending_accumulators env i cs s1 = (Ok us, s2)" "reads s1 s2"
    and con: "\<forall>name. contributions us name = concat (map (\<lambda>c. exported_values (imported_channels psp)
       (ss_channels (snap c)) (exported_channels (sp c)) name) cs)"
    using drain_run [OF node1 spec rd1] by blast
  have r2: "reads s s2" by (rule reads_trans [OF r1 dr(2)])
  have s2: "stored_latest s2 i = Inr base" "node_of (ck_frames s2) i = Some n" "ck_session_id s2 = ck_session_id s"
    "ck_frames s2 = ck_frames s" "ck_emitted s2 = ck_emitted s"
    using base node r2 by (simp_all add: reads_def)
  let ?x = "snapshot_new (ev_clock env (ck_ticks s2)) (ck_session_id s) i (ss_superstep base + 1)
       (committed psp us (ss_channels base)) (map (\<lambda>c. snapshot_to_ref (snap c)) cs)"
  let ?s3 = "pushed env ?x (loaded base s2)"
  have cm: "commit_snapshot env i (ss_superstep base) us (map (\<lambda>c. snapshot_to_ref (snap c)) cs) s2 =
      (Ok (snapshot_to_ref ?x), ?s3)"
    by (simp add: commit_run [OF s2(1,2) spec] Let_def s2(3))
  have node3: "node_of (ck_frames ?s3) i = Some n" using s2(2) by simp
  have "resume_fan_in env i s = resume_frame i ?s3"
    by (simp add: resume_fan_in_def bind_def latest_present [OF base] cc js(1) [unfolded bind_def] dr(1) seq_run cm
        resolve_none_run [OF node3 logs])
  then show ?thesis
    using resume_ready_run [OF node3 pol] con r2 s2 by auto
qed

text \<open>
  C3: a fan-in parent whose children have all terminated joins them. Its next snapshot names the
  snapshots of the completed children as its sources; each channel that the parent imports and
  a completed child exports with a value receives these values, in the order of the children,
  through its reducer, and every other channel is unchanged. The parent is then ready and exactly
  that is emitted.
\<close>

theorem fan_in_joins:
  assumes "tree_wf (ck_frames s)" and "node_of (ck_frames s) i = Some pn"
    and "node_of (ck_frames s) c = Some cn" and "failure_reached s pn cn = None"
    and "resume_pol (fn_policy pn) = FanIn" and "on_resume_pol (fn_policy pn) = ResumeRunFrame"
    and "list_all (\<lambda>d. status_terminated (status_at s d)) (fn_children pn)"
    and "list_all (\<lambda>l. log_value l \<noteq> None) (fn_logs pn)"
    and "spec_for env (fn_spec_ref pn) = Some psp" and "stored_latest s i = Inr base"
    and cs: "cs = filter (\<lambda>d. status_completed (status_at s d)) (fn_children pn)"
    and "list_all (readable env s sp snap) cs"
  shows "\<exists>x s'. on_child_frame_terminated env i c s = (Ok (), s') \<and>
    status_at s' i = FReady \<and> ck_emitted s' = ck_emitted s @ [FrameReady (ck_session_id s) i] \<and>
    hm_get (sn_cache (ck_snapshots s')) (snapshot_to_ref x) = Some (snapshot_from_snapshot x) \<and>
    ss_frame x = i \<and> ss_superstep x = ss_superstep base + 1 \<and>
    ss_join_sources x = map (\<lambda>d. snapshot_to_ref (snap d)) cs \<and>
    (\<forall>name. let vs = concat (map (\<lambda>d. exported_values (imported_channels psp)
          (ss_channels (snap d)) (exported_channels (sp d)) name) cs) in
       hm_get (ss_channels x) name = (if vs = [] then hm_get (ss_channels base) name
         else Some (reduce (reducer_of psp name) (hm_get (ss_channels base) name) vs)))"
proof -
  have rd: "\<And>d. d \<in> set cs \<Longrightarrow> readable env s sp snap d" using assms(12) by (auto simp: list_all_iff)
  have run: "on_child_frame_terminated env i c s = resume_fan_in env i s"
    using assms(4,5,7) by (simp add: on_child_run [OF assms(1-3)])
  obtain us x s1 s' where r: "resume_fan_in env i s = (Ok (), s')"
    and con: "\<forall>name. contributions us name = concat (map (\<lambda>d. exported_values (imported_channels psp)
       (ss_channels (snap d)) (exported_channels (sp d)) name) cs)"
    and x: "x = snapshot_new (ev_clock env (ck_ticks s1)) (ck_session_id s) i (ss_superstep base + 1)
       (committed psp us (ss_channels base)) (map (\<lambda>d. snapshot_to_ref (snap d)) cs)"
    and s': "s' = (pushed env x (loaded base s1))\<lparr>
       ck_frames := update_node i (\<lambda>n. n\<lparr>fn_status := FReady\<rparr>) (ck_frames s),
       ck_emitted := ck_emitted s @ [FrameReady (ck_session_id s) i]\<rparr>"
    using fan_in_run [OF assms(1,2,9,10) cs rd assms(8,6)] by blast
  have "status_at s' i = FReady" by (simp add: s' status_at_def node_of_update assms(2))
  moreover have "hm_get (sn_cache (ck_snapshots s')) (snapshot_to_ref x) = Some (snapshot_from_snapshot x)"
    by (simp add: s' pushed_def snapshot_cache_insert_def)
  moreover have "\<forall>name. let vs = concat (map (\<lambda>d. exported_values (imported_channels psp)
          (ss_channels (snap d)) (exported_channels (sp d)) name) cs) in
       hm_get (ss_channels x) name = (if vs = [] then hm_get (ss_channels base) name
         else Some (reduce (reducer_of psp name) (hm_get (ss_channels base) name) vs))"
    by (simp only: con [rule_format, symmetric] Let_def x snapshot_new_def committed_get snapshot.simps) simp
  moreover have "ss_frame x = i" "ss_superstep x = ss_superstep base + 1"
    "ss_join_sources x = map (\<lambda>d. snapshot_to_ref (snap d)) cs"
    by (simp_all add: x snapshot_new_def)
  moreover have "ck_emitted s' = ck_emitted s @ [FrameReady (ck_session_id s) i]" by (simp add: s')
  ultimately show ?thesis
    unfolding run r by (intro exI [of _ x] exI [of _ s'] conjI refl)
qed

section \<open>Creating a frame\<close>

text \<open>The frame whose snapshot a new child of \<open>p\<close> reads.\<close>

definition inheritance_source :: "frame_id \<Rightarrow> frame_node \<Rightarrow> frame_id option" where
  "inheritance_source p pn = (if resume_pol (fn_policy pn) = Sequential
     then (if fn_children pn = [] then None else Some (last (fn_children pn))) else Some p)"

definition linked_child :: "frame_id \<Rightarrow> frame_id \<Rightarrow> frame_node \<Rightarrow> new_frame_node_args \<Rightarrow> frame_node" where
  "linked_child i p pn args = (frame_node_new i args)\<lparr>fn_parent := Some p,
     fn_prev_sibling := (if fn_children pn = [] then None else Some (last (fn_children pn)))\<rparr>"

lemma append_nodes:
  assumes inv: "tree_inv fresh t" and inj: "inj_on fresh {..ft_drawn t}" and p: "node_of t p = Some pn"
    and app: "tree_append fresh p args t = (i, t1)"
  shows "node_of t1 i = Some (linked_child i p pn args)" and "i \<noteq> p"
    and "node_of t1 p = Some (pn\<lparr>fn_children := fn_children pn @ [i]\<rparr>)"
proof -
  have A: "node_of t1 = attached ((node_of t)(i \<mapsto> frame_node_new i args)) p i
      (length (fn_children pn)) (fn_children pn)" and new: "node_of t i = None"
    using tree_insert_new [OF inv inj app [unfolded tree_append_def] p]
    by (simp_all add: iter_children_present [OF p])
  show ip: "i \<noteq> p" using new p by auto
  show "node_of t1 i = Some (linked_child i p pn args)"
    by (simp add: A attached_def linked_child_def last_conv_nth frame_node_new_def)
  show "node_of t1 p = Some (pn\<lparr>fn_children := fn_children pn @ [i]\<rparr>)"
    using ip p by (simp add: A attached_def insert_at_def)
qed

lemma write_run:
  "node_of (ck_frames s) i = Some n \<Longrightarrow>
     in_tree (tree_write i f) s = (Ok (), s\<lparr>ck_frames := update_node i f (ck_frames s)\<rparr>)"
  by (simp add: in_tree_def tree_write_node)

lemma inherit_run:
  assumes "stored_latest s q = Inr snap" and "node_of (ck_frames s) i = Some n"
    and "spec_for env (fn_spec_ref n) = Some spec"
  shows "inherit_snapshot env q i s = (Ok (), (loaded snap s)\<lparr>ck_frames := update_node i (\<lambda>n.
    (extend_inherited (pick_channels (inherited_channels spec) (ss_channels snap)) n)
      \<lparr>fn_superstep := ss_superstep snap\<rparr>) (ck_frames s)\<rparr>)"
proof -
  have n: "node_of (ck_frames (loaded snap s)) i = Some n" using assms(2) by simp
  show ?thesis
    by (simp add: inherit_snapshot_def bind_run latest_present [OF assms(1)] spec_of_present [OF n assms(3)]
        write_run [OF n])
qed

text \<open>
  C7: a frame appended to a parent becomes its last child and its creation is emitted. Its
  channels are the given ones, overwritten by the defaults of its specification, overwritten by
  the channels its specification inherits, read from the latest snapshot of its source. The
  source is the parent, except under a sequential parent, where it is the previous sibling:
  the first child of a sequential parent therefore inherits from no snapshot.
\<close>

theorem append_frame_inherits:
  assumes inv: "tree_inv (ev_fresh env) (ck_frames s)" and inj: "inj_on (ev_fresh env) {..ft_drawn (ck_frames s)}"
    and p: "node_of (ck_frames s) p = Some pn" and spec: "spec_for env (na_spec_ref args) = Some spec"
    and src: "\<And>q. inheritance_source p pn = Some q \<Longrightarrow> stored_latest s q = Inr snap"
  shows "\<exists>i n s'. append_frame env p args s = (Ok i, s') \<and>
    iter_children_of (ck_frames s') p = fn_children pn @ [i] \<and>
    ck_emitted s' = ck_emitted s @ [FrameCreated (ck_session_id s) i] \<and>
    node_of (ck_frames s') i = Some n \<and> fn_status n = FPending \<and> fn_data n = na_data args \<and>
    fn_inherited n = (let own = channels_extend (na_inherited args) (default_values spec) in
      case inheritance_source p pn of None \<Rightarrow> own
      | Some q \<Rightarrow> channels_extend own (pick_channels (inherited_channels spec) (ss_channels snap)))"
proof -
  obtain i t1 where app: "tree_append (ev_fresh env) p args (ck_frames s) = (i, t1)" by (rule prod.exhaust)
  note nodes = append_nodes [OF inv inj p app]
  let ?s1 = "s\<lparr>ck_frames := t1\<rparr>" and ?c = "linked_child i p pn args"
  let ?s2 = "s\<lparr>ck_frames := update_node i (extend_inherited (default_values spec)) t1\<rparr>"
  let ?c2 = "extend_inherited (default_values spec) ?c"
  have n1: "node_of (ck_frames ?s1) i = Some ?c" "node_of (ck_frames ?s1) p = Some (pn\<lparr>fn_children := fn_children pn @ [i]\<rparr>)"
    using nodes by simp_all
  have n2: "node_of (ck_frames ?s2) i = Some ?c2"
    "node_of (ck_frames ?s2) p = Some (pn\<lparr>fn_children := fn_children pn @ [i]\<rparr>)"
    using nodes by (simp_all add: node_of_update)
  have sp: "spec_for env (fn_spec_ref ?c) = Some spec" "spec_for env (fn_spec_ref ?c2) = Some spec"
    using spec by (simp_all add: linked_child_def frame_node_new_def extend_inherited_def)
  have links: "parent_of (ck_frames ?s2) i = Some p"
    "prev_sibling_of (ck_frames ?s2) i = (if fn_children pn = [] then None else Some (last (fn_children pn)))"
    "iter_children_of (ck_frames ?s2) p = fn_children pn @ [i]"
    using n2 by (simp_all add: parent_of_def prev_sibling_of_def iter_children_of_def linked_child_def
        extend_inherited_def)
  let ?src = "inheritance_source p pn"
  define inh where "inh = (if resume_pol (fn_policy pn) = Sequential
      then inherit_from_prev_sibling env i else inherit_from_parent env i)"
  have inh: "inh ?s2 = (case ?src of None \<Rightarrow> (Ok (), ?s2) | Some q \<Rightarrow> inherit_snapshot env q i ?s2)"
    using links by (simp add: inh_def inherit_from_prev_sibling_def inherit_from_parent_def parent_frame_def
        bind_def inheritance_source_def)
  have start: "append_frame env p args s = seq inh (seq (emit (\<lambda>sid. FrameCreated sid i)) (ret i)) ?s2"
    using app links(3)
    by (simp add: append_frame_def in_tree_id_def bind_def [of "in_tree_id _"] bind_run
        reads_present(2) [OF n1(2)] spec_of_present [OF n1(1) sp(1)] seq_run write_run [OF n1(1)])
       (simp add: seq_def bind_def inh_def)
  have own: "fn_inherited ?c2 = channels_extend (na_inherited args) (default_values spec)"
    "fn_status ?c2 = FPending" "fn_data ?c2 = na_data args"
    by (simp_all add: extend_inherited_def linked_child_def frame_node_new_def)
  show ?thesis
  proof (cases ?src)
    case None
    then have "append_frame env p args s = (Ok i, ?s2\<lparr>ck_emitted := ck_emitted s @ [FrameCreated (ck_session_id s) i]\<rparr>)"
      by (simp add: start seq_run inh emit_run)
    then show ?thesis using None n2 own links(3) by simp
  next
    case (Some q)
    have "stored_latest ?s2 q = Inr snap" using src [OF Some] by (simp add: stored_latest_def)
    note ir = inherit_run [OF this n2(1) sp(2)]
    let ?f = "\<lambda>n. (extend_inherited (pick_channels (inherited_channels spec) (ss_channels snap)) n)
      \<lparr>fn_superstep := ss_superstep snap\<rparr>"
    let ?s3 = "(loaded snap ?s2)\<lparr>ck_frames := update_node i ?f (ck_frames ?s2)\<rparr>"
    have "append_frame env p args s = (Ok i, ?s3\<lparr>ck_emitted := ck_emitted s @ [FrameCreated (ck_session_id s) i]\<rparr>)"
      using Some by (simp add: start seq_run inh emit_run ir loaded_def)
    moreover have "iter_children_of (ck_frames ?s3) p = fn_children pn @ [i]"
      using n2(2) nodes(2) by (simp add: iter_children_of_def node_of_update)
    moreover have "node_of (ck_frames ?s3) i = Some (?f ?c2)" using nodes(1) by (simp add: node_of_update)
    ultimately show ?thesis using Some own by (simp add: extend_inherited_def)
  qed
qed

section \<open>Witnesses\<close>

lemma join_ckp_parts [simp]: "ck_frames join_ckp = join_tree" "ck_session_id join_ckp = SessionId (ID 1 1)"
  by (simp_all add: join_ckp_def checkpointer_new_def session_new_def)

lemma join_latest:
  "stored_latest join_ckp (FrameId (ID 0 0)) =
     Inr (snapshot_new 0 (SessionId (ID 1 1)) (FrameId (ID 0 0)) 0 [] [])"
  "stored_latest join_ckp (FrameId (ID 0 1)) =
     Inr (snapshot_new 0 (SessionId (ID 1 1)) (FrameId (ID 0 1)) 2 [(''tool_result'', VString ''ok'')] [])"
  by code_simp+

lemma join_specs:
  "spec_for join_env (fn_spec_ref join_parent) = Some spec_tool_aggregator"
  "spec_for join_env (fn_spec_ref join_child) = Some spec_tool"
  by code_simp+

lemma join_wf: "tree_wf join_tree" "tree_inv example_draws join_tree"
  using join_tree_state by (simp_all add: tree_state_def join_tree_drawn tree_inv_def)

lemma join_env_fresh [simp]: "ev_fresh join_env = example_draws"
  by (simp add: join_env_def)

lemma commit_reduces_witness:
  "\<exists>x s'. commit_snapshot join_env (FrameId (ID 0 0)) 0
       [\<lparr>upd_name = ''tool_result'', upd_value = VString ''a'', upd_contributor = FrameId (ID 0 1)\<rparr>] [] join_ckp =
       (Ok (snapshot_to_ref x), s') \<and> ss_superstep x = 1 \<and>
     hm_get (ss_channels x) ''other'' = None"
proof -
  let ?base = "snapshot_new 0 (SessionId (ID 1 1)) (FrameId (ID 0 0)) 0 [] []"
  have "ss_superstep ?base = 0" "hm_get (ss_channels ?base) ''other'' = None" by (simp_all add: snapshot_new_def)
  then show ?thesis
    using commit_reduces [of join_ckp "FrameId (ID 0 0)" ?base join_parent join_env spec_tool_aggregator 0
        "[\<lparr>upd_name = ''tool_result'', upd_value = VString ''a'', upd_contributor = FrameId (ID 0 1)\<rparr>]" "[]"]
      join_latest(1) join_nodes(1) join_specs(1)
    by (auto simp: contributions_def)
qed

lemma second_commit_forgets_first_witness:
  "\<exists>ref c s1 s2. commit_snapshot join_env (FrameId (ID 0 0)) 0
       [\<lparr>upd_name = ''a'', upd_value = VNull, upd_contributor = FrameId (ID 0 1)\<rparr>] [] join_ckp = (Ok ref, s1) \<and>
     commit_snapshot join_env (FrameId (ID 0 0)) 0 [] [] s1 = (Ok ref, s2) \<and>
     hm_get (sn_cache (ck_snapshots s2)) ref = Some c \<and> hm_get (ss_channels (sc_snapshot c)) ''a'' = None"
proof -
  let ?base = "snapshot_new 0 (SessionId (ID 1 1)) (FrameId (ID 0 0)) 0 [] []"
  let ?us = "[\<lparr>upd_name = ''a'', upd_value = VNull, upd_contributor = FrameId (ID 0 1)\<rparr>]"
  have base: "ss_superstep ?base = 0" "hm_get (ss_channels ?base) ''a'' = None" by (simp_all add: snapshot_new_def)
  have none: "contributions [] ''a'' = []" by (simp add: contributions_def)
  obtain r1 s1 where first: "commit_snapshot join_env (FrameId (ID 0 0)) (ss_superstep ?base) ?us [] join_ckp = (r1, s1)"
    by (rule prod.exhaust)
  obtain r2 s2 where second: "commit_snapshot join_env (FrameId (ID 0 0)) (ss_superstep ?base) [] [] s1 = (r2, s2)"
    by (rule prod.exhaust)
  have node: "node_of (ck_frames join_ckp) (FrameId (ID 0 0)) = Some join_parent" using join_nodes(1) by simp
  obtain ref c where "r1 = Ok ref" "r2 = Ok ref" "hm_get (sn_cache (ck_snapshots s2)) ref = Some c"
    "hm_get (ss_channels (sc_snapshot c)) ''a'' = None"
    using second_commit_forgets_first [OF join_latest(1) node join_specs(1) first second] none base(2) by auto
  then show ?thesis using first second by (auto simp: base(1))
qed

lemma child_end_policy_witness:
  "let t = update_node (FrameId (ID 0 1)) (\<lambda>n. n\<lparr>fn_status := FFailed ''no''\<rparr>) join_tree;
       s = join_ckp\<lparr>ck_frames := t\<rparr>;
       (r, s') = on_child_frame_terminated join_env (FrameId (ID 0 0)) (FrameId (ID 0 1)) s
   in status_failed (status_at s' (FrameId (ID 0 0))) \<longleftrightarrow>
     (\<exists>k. on_child_failed (fn_policy join_parent) = FailIfAtLeastHasFailed k \<and> k \<le> 1)"
proof -
  let ?t = "update_node (FrameId (ID 0 1)) (\<lambda>n. n\<lparr>fn_status := FFailed ''no''\<rparr>) join_tree"
  let ?s = "join_ckp\<lparr>ck_frames := ?t\<rparr>"
  have nodes: "node_of ?t (FrameId (ID 0 0)) = Some join_parent"
    "node_of ?t (FrameId (ID 0 1)) = Some (join_child\<lparr>fn_status := FFailed ''no''\<rparr>)"
    by code_simp+
  have wf: "tree_wf (ck_frames ?s)"
    using update_node_state [OF join_tree_state, of "\<lambda>n. n\<lparr>fn_status := FFailed ''no''\<rparr>" "FrameId (ID 0 1)"]
    by (simp add: tree_state_def join_tree_drawn tree_inv_def same_links_def)
  have parent: "\<not> status_failed (fn_status join_parent)" by code_simp
  have one: "failed_children ?s join_parent = 1" by code_simp
  obtain r s' where run: "on_child_frame_terminated join_env (FrameId (ID 0 0)) (FrameId (ID 0 1)) ?s = (r, s')"
    by (rule prod.exhaust)
  show ?thesis
    using child_end_policy [OF wf _ _ parent run, of "join_child\<lparr>fn_status := FFailed ''no''\<rparr>"] nodes run one
    by (simp add: Let_def)
qed

lemma fan_in_joins_witness:
  "\<exists>x s'. on_child_frame_terminated join_env (FrameId (ID 0 0)) (FrameId (ID 0 1)) join_ckp = (Ok (), s') \<and>
     status_at s' (FrameId (ID 0 0)) = FReady \<and>
     ss_join_sources x = [\<lparr>sr_session = SessionId (ID 1 1), sr_frame = FrameId (ID 0 1), sr_superstep = 2\<rparr>] \<and>
     hm_get (sn_cache (ck_snapshots s')) (snapshot_to_ref x) = Some (snapshot_from_snapshot x)"
proof -
  let ?snap = "\<lambda>d. if d = FrameId (ID 0 1)
      then snapshot_new 0 (SessionId (ID 1 1)) (FrameId (ID 0 1)) 2 [(''tool_result'', VString ''ok'')] []
      else snapshot_new 0 (SessionId (ID 1 1)) (FrameId (ID 0 0)) 0 [] []"
  have facts: "failure_reached join_ckp join_parent join_child = None"
    "resume_pol (fn_policy join_parent) = FanIn" "on_resume_pol (fn_policy join_parent) = ResumeRunFrame"
    "list_all (\<lambda>d. status_terminated (status_at join_ckp d)) (fn_children join_parent)"
    "list_all (\<lambda>l. log_value l \<noteq> None) (fn_logs join_parent)"
    "[FrameId (ID 0 1)] = filter (\<lambda>d. status_completed (status_at join_ckp d)) (fn_children join_parent)"
    by code_simp+
  have wf: "tree_wf (ck_frames join_ckp)" using join_wf by simp
  have nodes: "node_of (ck_frames join_ckp) (FrameId (ID 0 0)) = Some join_parent"
    "node_of (ck_frames join_ckp) (FrameId (ID 0 1)) = Some join_child"
    using join_nodes by simp_all
  have "list_all (readable join_env join_ckp (\<lambda>_. spec_tool) ?snap) [FrameId (ID 0 1)]"
    using join_latest(2) nodes(2) join_specs(2) by (simp add: readable_def)
  from fan_in_joins [OF wf nodes facts(1-5) join_specs(1) join_latest(1) facts(6) this]
  obtain x s' where "on_child_frame_terminated join_env (FrameId (ID 0 0)) (FrameId (ID 0 1)) join_ckp = (Ok (), s')"
    "status_at s' (FrameId (ID 0 0)) = FReady"
    "hm_get (sn_cache (ck_snapshots s')) (snapshot_to_ref x) = Some (snapshot_from_snapshot x)"
    "ss_join_sources x = map (\<lambda>d. snapshot_to_ref (?snap d)) [FrameId (ID 0 1)]"
    by blast
  then show ?thesis
    by (intro exI [of _ x] exI [of _ s']) (simp add: snapshot_to_ref_def snapshot_new_def)
qed

lemma append_frame_inherits_witness:
  "\<exists>i n s'. append_frame join_env (FrameId (ID 0 0)) tool_args join_ckp = (Ok i, s') \<and>
     iter_children_of (ck_frames s') (FrameId (ID 0 0)) = [FrameId (ID 0 1), i] \<and>
     node_of (ck_frames s') i = Some n \<and> fn_status n = FPending"
proof -
  have p: "node_of (ck_frames join_ckp) (FrameId (ID 0 0)) = Some join_parent" using join_nodes by simp
  have inv: "tree_inv (ev_fresh join_env) (ck_frames join_ckp)" using join_wf by simp
  have inj: "inj_on (ev_fresh join_env) {..ft_drawn (ck_frames join_ckp)}"
    by (rule inj_on_subset [of _ "{..<5}"]) (use example_draws_inj_small join_tree_drawn in auto)
  have spec: "spec_for join_env (na_spec_ref tool_args) = Some spec_tool" by code_simp
  have "inheritance_source (FrameId (ID 0 0)) join_parent = Some (FrameId (ID 0 0))" by code_simp
  moreover have "fn_children join_parent = [FrameId (ID 0 1)]" by code_simp
  ultimately show ?thesis
    using append_frame_inherits [OF inv inj p spec, of "snapshot_new 0 (SessionId (ID 1 1)) (FrameId (ID 0 0)) 0 [] []"]
      join_latest(1) by auto
qed

end
