(* ===== verification/Checkpointer_Events.thy ===== *)
theory Checkpointer_Events
  imports Checkpointer_Steps
begin

text \<open>
  What the checkpointer emits and where a session stops progressing: the failure of a handler
  fails the session, completions are announced more than once, and several results of a run
  lead to a state that no event leaves.
\<close>

section \<open>Failing handlers\<close>

text \<open>
  C15: an error of a handler fails the session. The status carries the text of the error, it is
  in the store when the event has been processed, and the bus is told once; the error is
  returned and the frames are left as the handler left them.
\<close>

theorem error_fails_session:
  assumes "handle_event env ev s = (Err e, s1)" and "session_error_text e = Ok m"
    and "\<not> uw_deleted (ck_session s1)"
  shows "\<exists>s'. process_event env ev s = (Err e, s') \<and>
    s_status (uw_entity (ck_session s')) = SessionFailed m \<and>
    get_session (ck_table s') (s_id (uw_entity (ck_session s1))) = Inr (uw_entity (ck_session s')) \<and>
    \<not> uw_dirty (ck_session s') \<and> ck_frames s' = ck_frames s1 \<and>
    ck_bus s' = ck_bus s1 @ [SessionStatusUpdated (ck_session_id s1) (SessionFailed m)]"
proof -
  let ?x = "(uw_entity (ck_session s1))\<lparr>s_status := SessionFailed m\<rparr>"
  let ?u = "(ck_session s1)\<lparr>uw_entity := ?x, uw_dirty := True\<rparr>"
  have "update_session (\<lambda>x. x\<lparr>s_status := SessionFailed m\<rparr>) s1 = (Ok (), s1\<lparr>ck_session := ?u\<rparr>)"
    using assms(3) by (simp add: update_session_def uow_update_def)
  moreover have "uow_flush session_executor (?u, ck_table s1) =
      (Ok (), ?u\<lparr>uw_dirty := False\<rparr>, upsert_session ?x (ck_table s1))"
    using assms(3) by (cases "uw_create (ck_session s1)") (simp_all add: uow_flush_def session_executor_def)
  ultimately show ?thesis
    by (simp add: process_event_def assms(1,2) fail_def bind_def seq_def from_outcome_def ignore_def
        flush_session_def upsert_session_def get_session_def)
qed

section \<open>Announcements\<close>

lemma notify_parent_run:
  "node_of (ck_frames s) i = Some n \<Longrightarrow> notify_parent i s = (case fn_parent n of
      None \<Rightarrow> (Ok (), s)
    | Some p \<Rightarrow> (Ok (), s\<lparr>ck_emitted := ck_emitted s @ [ChildFrameTerminated (ck_session_id s) p i]\<rparr>))"
  by (simp add: notify_parent_def parent_frame_def bind_def parent_of_def emit_run split: option.splits)

lemma mark_completed_run:
  assumes "node_of (ck_frames s) i = Some n" and "fn_parent n = Some p"
  shows "mark_completed_frame i s = (Ok (), s\<lparr>
    ck_frames := update_node i (\<lambda>n. n\<lparr>fn_status := FCompleted\<rparr>) (ck_frames s),
    ck_emitted := ck_emitted s @ [FrameTerminated (ck_session_id s) i, ChildFrameTerminated (ck_session_id s) p i]\<rparr>)"
proof -
  let ?t = "update_node i (\<lambda>n. n\<lparr>fn_status := FCompleted\<rparr>) (ck_frames s)"
  let ?s = "s\<lparr>ck_frames := ?t, ck_emitted := ck_emitted s @ [FrameTerminated (ck_session_id s) i]\<rparr>"
  have n: "node_of (ck_frames ?s) i = Some (n\<lparr>fn_status := FCompleted\<rparr>)"
    using assms(1) by (simp add: node_of_update)
  show ?thesis
    using notify_parent_run [OF n] assms(2)
    by (simp add: mark_completed_frame_def seq_def bind_def set_status_present [OF assms(1)] emit_run)
qed

text \<open>
  The parent of a completed frame is told of it twice, once when the frame is marked and
  again when the termination emitted by the mark is handled.
\<close>

theorem completion_announced_twice:
  assumes "node_of (ck_frames s) i = Some n" and "fn_parent n = Some p"
  shows "\<exists>s1 s2. mark_completed_frame i s = (Ok (), s1) \<and>
    FrameTerminated (ck_session_id s) i \<in> set (ck_emitted s1) \<and>
    handle_event env (FrameTerminated (ck_session_id s) i) s1 = (Ok (), s2) \<and>
    ck_emitted s2 = ck_emitted s @ [FrameTerminated (ck_session_id s) i,
      ChildFrameTerminated (ck_session_id s) p i, ChildFrameTerminated (ck_session_id s) p i]"
proof -
  let ?t = "update_node i (\<lambda>n. n\<lparr>fn_status := FCompleted\<rparr>) (ck_frames s)"
  let ?s = "s\<lparr>ck_frames := ?t, ck_emitted := ck_emitted s @
      [FrameTerminated (ck_session_id s) i, ChildFrameTerminated (ck_session_id s) p i]\<rparr>"
  have n: "node_of (ck_frames ?s) i = Some (n\<lparr>fn_status := FCompleted\<rparr>)"
    using assms(1) by (simp add: node_of_update)
  show ?thesis
    using notify_parent_run [OF n] assms(2)
    by (simp add: mark_completed_run [OF assms] on_frame_terminated_def)
qed

text \<open>
  The end of a run is announced twice, and handling the announcement of a failed run
  changes nothing: the frame stays failed-to-run and its parent is never told.
\<close>

theorem failed_run_stalls:
  assumes "node_of (ck_frames s) i = Some n" and "worker_error_text e = Ok m"
  shows "\<exists>s'. handle_event env (FrameRunJobStateUpdate (ck_session_id s) i (JobFailed e)) s = (Ok (), s') \<and>
    status_at s' i = FRunFailed m \<and>
    ck_emitted s' = ck_emitted s @ [FrameRunTerminated (ck_session_id s) i, FrameRunTerminated (ck_session_id s) i] \<and>
    handle_event env (FrameRunTerminated (ck_session_id s) i) s' = (Ok (), s')"
proof -
  let ?t = "update_node i (\<lambda>n. n\<lparr>fn_status := FRunFailed m\<rparr>) (ck_frames s)"
  let ?s = "s\<lparr>ck_frames := ?t, ck_emitted := ck_emitted s @
      [FrameRunTerminated (ck_session_id s) i, FrameRunTerminated (ck_session_id s) i]\<rparr>"
  have n: "node_of (ck_frames ?s) i = Some (n\<lparr>fn_status := FRunFailed m\<rparr>)"
    using assms(1) by (simp add: node_of_update)
  have "handle_event env (FrameRunJobStateUpdate (ck_session_id s) i (JobFailed e)) s = (Ok (), ?s)"
    by (simp add: on_frame_run_update_def mark_frame_run_failed_def assms(2) from_outcome_def seq_def bind_def
        set_status_present [OF assms(1)] emit_run)
  moreover have "handle_event env (FrameRunTerminated (ck_session_id s) i) ?s = (Ok (), ?s)"
    by (simp add: on_frame_run_terminated_def bind_def reads_present(1) [OF n])
  moreover have "status_at ?s i = FRunFailed m" using n by (simp add: status_at_def)
  ultimately show ?thesis by auto
qed

section \<open>Results that lead nowhere\<close>

text \<open>
  A node that asks to continue and has no outgoing edge in its graph stops its branch: the
  handler returns without terminating the frame, so neither the frame nor its parent progresses.
\<close>

theorem continue_without_edge_stalls:
  assumes "node_of (ck_frames s) i = Some n" and "fn_parent n = Some p"
    and "fn_data n = GraphNode r nid" and "graphs_get env r = Inr g" and "hm_get (g_edges g) nid = None"
    and "fn_status n = FRunCompleted resp" and "resp_updates resp = []" and "resp_new_logs resp = []"
    and "resp_result resp = Continue"
  shows "process_event env (FrameRunTerminated sid i) s = (Ok (), s)"
proof -
  have "parent_frame i s = (Ok (Some p), s)"
    using assms(1,2) by (simp add: parent_frame_def parent_of_def)
  then have "on_run_result env i Continue s = (Ok (), s)"
    using assms(3-5) by (simp add: on_run_result_def bind_def reads_present(3) [OF assms(1)] get_graph_def)
  then show ?thesis
    using assms(6-9) reads_present(1) [OF assms(1)]
    by (simp add: process_event_def on_frame_run_terminated_def bind_def seq_def append_logs_def)
qed

text \<open>
  The structural frames (aggregators, graphs, threads, spans) are created with a policy that
  resumes them by running them, and the job panics on every one of them.
\<close>

theorem containers_are_run:
  assumes "node_of (ck_frames s) i = Some n" and "on_resume_pol (fn_policy n) = on_resume_pol policy_default"
    and "rf_data args \<in> {Void, Graph r, GraphThread r, GraphSpan r nid, HitlFrame hid}"
  shows "(\<exists>s'. resume_frame i s = (Ok (), s') \<and> status_at s' i = FReady \<and>
      ck_emitted s' = ck_emitted s @ [FrameReady (ck_session_id s) i]) \<and>
    (\<exists>msg. run_frame wenv args = Panic msg)"
proof (rule conjI)
  have "on_resume_pol (fn_policy n) = ResumeRunFrame" using assms(2) by (simp add: policy_default_def)
  then show "\<exists>s'. resume_frame i s = (Ok (), s') \<and> status_at s' i = FReady \<and>
      ck_emitted s' = ck_emitted s @ [FrameReady (ck_session_id s) i]"
    using resume_ready_run [OF assms(1)] by (simp add: status_at_def node_of_update assms(1))
  show "\<exists>msg. run_frame wenv args = Panic msg" using assms(3) by (auto simp: run_frame_def)
qed

lemma bind_Ok_iff: "bind m k s = (Ok b, s') \<longleftrightarrow> (\<exists>a s1. m s = (Ok a, s1) \<and> k a s1 = (Ok b, s'))"
  by (auto simp: bind_def split: prod.splits outcome.splits)

lemma set_status_Ok:
  assumes "in_tree (set_status i st) s = (Ok u, s')"
  shows "\<exists>n. node_of (ck_frames s') i = Some n \<and> fn_status n = st" and "ck_emitted s' = ck_emitted s"
proof -
  obtain t' where t': "tree_write i (\<lambda>n. n\<lparr>fn_status := st\<rparr>) (ck_frames s) = (Ok u, t')" "s' = s\<lparr>ck_frames := t'\<rparr>"
    using assms by (auto simp: in_tree_def set_status_def split: prod.splits)
  obtain n t1 where g: "tree_get i (ck_frames s) = (Ok n, t1)" "t' = update_node i (\<lambda>n. n\<lparr>fn_status := st\<rparr>) t1"
    using t'(1) by (auto simp: tree_write_def seq_def bind_Ok_iff)
  then have "node_of t1 i = Some n"
    by (auto simp: tree_get_def try_get_def node_of_def split: prod.splits outcome.splits option.splits sum.splits)
  then show "\<exists>n. node_of (ck_frames s') i = Some n \<and> fn_status n = st" by (simp add: t'(2) g(2) node_of_update)
  show "ck_emitted s' = ck_emitted s" by (simp add: t'(2))
qed

lemma append_frame_emits:
  "append_frame env p args s = (Ok i, s') \<Longrightarrow> \<exists>sid. FrameCreated sid i \<in> set (ck_emitted s')"
  by (auto simp: append_frame_def bind_Ok_iff seq_def emit_run)

text \<open>
  A sub-graph never starts. The frame created for it is put in the waiting status before the
  event of its creation is handled, and handling that event then changes nothing, so the start
  policy that would append the thread of the entry node is not applied.
\<close>

theorem graph_frame_not_started:
  assumes "append_graph env p gid s = (Ok (), s')"
  shows "\<exists>i sid. FrameCreated sid i \<in> set (ck_emitted s') \<and> status_at s' i = FWaitingChildren \<and>
    process_event env (FrameCreated sid i) s' = (Ok (), s')"
proof -
  obtain i args s0 s1 where created: "append_frame env p args s0 = (Ok i, s1)"
    and mark: "in_tree (set_status i FWaitingChildren) s1 = (Ok (), s')"
    using assms by (auto simp: append_graph_def bind_Ok_iff Let_def mark_as_waiting_children_def split: option.splits)
  obtain n where n: "node_of (ck_frames s') i = Some n" "fn_status n = FWaitingChildren"
    using set_status_Ok(1) [OF mark] by blast
  have quiet: "process_event env (FrameCreated sid i) s' = (Ok (), s')" for sid
    using n by (simp add: process_event_def on_frame_created_def bind_def reads_present(1) [OF n(1)])
  obtain sid where "FrameCreated sid i \<in> set (ck_emitted s')"
    using append_frame_emits [OF created] set_status_Ok(2) [OF mark] by auto
  then show ?thesis
    using quiet n by (intro exI [of _ i] exI [of _ sid]) (simp add: status_at_def)
qed

text \<open>
  C40: a run that asks a human waits for ever. After its request the frame waits for children it
  does not have; since the request is not bound to the frame, the answer, whatever it is, is
  dropped without a trace, unless some stored frame is of the human-request kind, which no
  handler creates.
\<close>

theorem hitl_answer_dropped:
  assumes "node_of (ck_frames s) i = Some n"
    and "list_all (\<lambda>f. \<forall>h. fn_data f \<noteq> HitlFrame h) (hm_values (ft_store (ck_frames s)))"
  shows "\<exists>s'. on_run_result env i (RequestHitl h) s = (Ok (), s') \<and> status_at s' i = FWaitingChildren \<and>
    ck_emitted s' = ck_emitted s \<and>
    (\<forall>sid hid as. process_event env (HitlAnsweredEv sid hid as) s' = (Ok (), s'))"
proof -
  obtain hid hs where req: "request_hitl env h s = (Ok hid, s\<lparr>ck_hitls := hs\<rparr>)"
    by (cases "draw_id (ev_draw env) (sh_ids (ck_hitls s))")
       (simp add: request_hitl_def in_hitls_def request_def Let_def)
  let ?s1 = "s\<lparr>ck_hitls := hs\<rparr>"
  let ?s' = "?s1\<lparr>ck_frames := update_node i (\<lambda>n. n\<lparr>fn_status := FWaitingChildren\<rparr>) (ck_frames s)\<rparr>"
  have n1: "node_of (ck_frames ?s1) i = Some n" using assms(1) by simp
  have run: "on_run_result env i (RequestHitl h) s = (Ok (), ?s')"
    by (simp add: on_run_result_def seq_run req reads_present(5) [OF n1] mark_as_waiting_children_def
        set_status_present [OF n1])
  have "get_frame_id_by_hitl_id (ft_store (ck_frames s)) sess x = None" for sess x
    using assms(2) by (auto simp: get_frame_id_by_hitl_id_def find_None_iff list_all_iff)
  then have "process_event env (HitlAnsweredEv sid x as) ?s' = (Ok (), ?s')" for sid x as
    by (simp add: process_event_def on_hitl_response_def bind_def in_tree_def frame_id_bound_to_hitl_id_def)
  then show ?thesis using run by (auto simp: status_at_def node_of_update assms(1))
qed

section \<open>Witnesses\<close>

lemma join_ckp_nodes:
  "node_of (ck_frames join_ckp) (FrameId (ID 0 0)) = Some join_parent"
  "node_of (ck_frames join_ckp) (FrameId (ID 0 1)) = Some join_child"
  using join_nodes by simp_all

lemma error_fails_session_witness:
  "\<exists>s' m. process_event join_env (FrameReady (SessionId (ID 1 1)) (FrameId (ID 0 7))) join_ckp =
      (Err (StorageFailure (snapshot_not_found (SessionId (ID 1 1)) (FrameId (ID 0 7)) 0)), s') \<and>
    s_status (uw_entity (ck_session s')) = SessionFailed m"
proof -
  let ?ev = "FrameReady (SessionId (ID 1 1)) (FrameId (ID 0 7))"
  let ?e = "StorageFailure (snapshot_not_found (SessionId (ID 1 1)) (FrameId (ID 0 7)) 0)"
  have none: "stored_latest join_ckp (FrameId (ID 0 7)) = Inl (snapshot_not_found (SessionId (ID 1 1)) (FrameId (ID 0 7)) 0)"
    by code_simp
  have "handle_event join_env ?ev join_ckp = (Err ?e, join_ckp)"
    by (simp add: on_frame_ready_def ckp_run_frame_def bind_def latest_of_run none)
  moreover obtain m where "session_error_text ?e = Ok m"
    by (simp add: snapshot_not_found_def err_from_def err_message_def)
  moreover have "\<not> uw_deleted (ck_session join_ckp)" by code_simp
  ultimately show ?thesis using error_fails_session [of join_env ?ev join_ckp ?e join_ckp m] by auto
qed

lemma completion_announced_twice_witness:
  "\<exists>s1 s2. mark_completed_frame (FrameId (ID 0 1)) join_ckp = (Ok (), s1) \<and>
     handle_event join_env (FrameTerminated (SessionId (ID 1 1)) (FrameId (ID 0 1))) s1 = (Ok (), s2) \<and>
     length (ck_emitted s2) = 3"
proof -
  have "fn_parent join_child = Some (FrameId (ID 0 0))" by (simp add: join_child_def)
  moreover have "ck_emitted join_ckp = []" by (simp add: join_ckp_def checkpointer_new_def)
  ultimately show ?thesis
    using completion_announced_twice [OF join_ckp_nodes(2), of "FrameId (ID 0 0)" join_env] by auto
qed

lemma failed_run_stalls_witness:
  "\<exists>s'. handle_event join_env (FrameRunJobStateUpdate (SessionId (ID 1 1)) (FrameId (ID 0 1)) (JobFailed AckTimeOut))
      join_ckp = (Ok (), s') \<and>
    handle_event join_env (FrameRunTerminated (SessionId (ID 1 1)) (FrameId (ID 0 1))) s' = (Ok (), s')"
proof -
  obtain m where m: "worker_error_text AckTimeOut = Ok m" by simp
  show ?thesis using failed_run_stalls [OF join_ckp_nodes(2) m, of join_env] by auto
qed

text \<open>A graph of one node without edge, published in version 0.\<close>

definition lone_graph :: graph_spec where
  "lone_graph = add_node ''a'' (node_ask_expert ''e'' ''t'') (graph_spec_new ''g'' ''a'' spec_graph)"

definition lone_env :: ckp_env where
  "lone_env = join_env\<lparr>ev_catalog := [((''/marie/catalog/graphs'', ''g''),
     [\<lparr>item_data = [], item_deprecated = False, item_deleted = False\<rparr>])],
     ev_graph_codec := graph_catalogable (\<lambda>_. Inr []) (\<lambda>_. Inr lone_graph)\<rparr>"

definition lone_ref :: graph_ref where
  "lone_ref = \<lparr>ref_kind = ''/marie/catalog/graphs'', ref_id = ''g'', ref_version = 0\<rparr>"

definition lone_ckp :: checkpointer where
  "lone_ckp = join_ckp\<lparr>ck_frames := update_node (FrameId (ID 0 1)) (\<lambda>n. n\<lparr>fn_data := GraphNode lone_ref ''a'',
     fn_status := FRunCompleted \<lparr>resp_frame_id = FrameId (ID 0 1), resp_updates = [], resp_new_logs = [],
       resp_result = Continue\<rparr>\<rparr>) join_tree\<rparr>"

lemma continue_without_edge_stalls_witness:
  "process_event lone_env (FrameRunTerminated (SessionId (ID 1 1)) (FrameId (ID 0 1))) lone_ckp = (Ok (), lone_ckp)"
proof -
  have n: "node_of (ck_frames lone_ckp) (FrameId (ID 0 1)) = Some (join_child\<lparr>fn_data := GraphNode lone_ref ''a'',
     fn_status := FRunCompleted \<lparr>resp_frame_id = FrameId (ID 0 1), resp_updates = [], resp_new_logs = [],
       resp_result = Continue\<rparr>\<rparr>)"
    by (simp add: lone_ckp_def node_of_update join_nodes)
  have "graphs_get lone_env lone_ref = Inr lone_graph" by code_simp
  moreover have "hm_get (g_edges lone_graph) ''a'' = None" by code_simp
  ultimately show ?thesis
    using continue_without_edge_stalls [OF n, of "FrameId (ID 0 0)" lone_ref "''a''" lone_env lone_graph]
    by (simp add: join_child_def)
qed

lemma containers_are_run_witness:
  "\<exists>s' msg. resume_frame (FrameId (ID 0 0)) join_ckp = (Ok (), s') \<and>
     run_frame example_env (example_run (fn_data join_parent)) = Panic msg"
proof -
  have "on_resume_pol (fn_policy join_parent) = on_resume_pol policy_default" by code_simp
  moreover have "rf_data (example_run (fn_data join_parent)) \<in>
      {Void, Graph lone_ref, GraphThread lone_ref, GraphSpan lone_ref [], HitlFrame (HitlId (ID 0 0))}"
    by (simp add: example_run_def join_parent_def frame_node_new_def join_args_def new_frame_args_def)
  ultimately show ?thesis
    using containers_are_run [OF join_ckp_nodes(1), of "example_run (fn_data join_parent)"] by blast
qed

lemma graph_frame_not_started_witness:
  "\<exists>i sid. process_event lone_env (FrameCreated sid i)
     (snd (append_graph lone_env (FrameId (ID 0 0)) ''g'' join_ckp)) =
     (Ok (), snd (append_graph lone_env (FrameId (ID 0 0)) ''g'' join_ckp))"
proof -
  have ok: "fst (append_graph lone_env (FrameId (ID 0 0)) ''g'' join_ckp) = Ok ()" by code_simp
  obtain r s' where run: "append_graph lone_env (FrameId (ID 0 0)) ''g'' join_ckp = (r, s')" by (rule prod.exhaust)
  then have "append_graph lone_env (FrameId (ID 0 0)) ''g'' join_ckp = (Ok (), s')" using ok by simp
  then show ?thesis using graph_frame_not_started by fastforce
qed

lemma hitl_answer_dropped_witness:
  "\<exists>s'. on_run_result join_env (FrameId (ID 0 1)) (RequestHitl Text) join_ckp = (Ok (), s') \<and>
     process_event join_env (HitlAnsweredEv (SessionId (ID 1 1)) (HitlId (ID 0 0)) []) s' = (Ok (), s')"
proof -
  have "ft_store (ck_frames join_ckp) = []" by code_simp
  then show ?thesis using hitl_answer_dropped [OF join_ckp_nodes(2), of join_env Text] by auto
qed

end
