(* ===== verification/Selection.thy ===== *)
theory Selection
  imports Nodes Channels "HOL-Library.Multiset"
begin

text \<open>
  Rendezvous hashing (\<^verbatim>\<open>marie-core/src/hrw.rs\<close>) and the directory of nodes that selects peers
  with it (\<^verbatim>\<open>annuary/mod.rs\<close>, \<^verbatim>\<open>annuary/protocol.rs\<close>). Hashes are computed on 64-bit words and
  scores on IEEE doubles; the natural logarithm, whose precision the standard library leaves
  open, is a parameter.
\<close>

section \<open>Arithmetic on doubles\<close>

unbundle bit_operations_syntax

text \<open>Division of naturals rounded to nearest, ties to even.\<close>

definition round_div :: "nat \<Rightarrow> nat \<Rightarrow> nat" where
  "round_div a b = (let q = a div b; r = a mod b in if b < 2 * r \<or> (2 * r = b \<and> odd q) then Suc q else q)"

text \<open>The magnitude bits of the double nearest to the fraction \<open>n / d\<close>.\<close>

definition round_ratio :: "nat \<Rightarrow> nat \<Rightarrow> nat" where
  "round_ratio n d =
     (if n = 0 then 0
      else min (2047 * 2 ^ 52)
       (if d \<le> n then
          let e = log2 (n div d) in
          (1022 + e) * 2 ^ 52 +
          (if e \<le> 52 then round_div (n * 2 ^ (52 - e)) d else round_div n (d * 2 ^ (e - 52)))
        else
          let k = min 1022 (Suc (log2 ((d + n - 1) div n - 1))) in
          (1022 - k) * 2 ^ 52 + round_div (n * 2 ^ (52 + k)) d))"

text \<open>A finite double as a fraction of naturals, its sign left aside.\<close>

definition f64_ratio :: "f64 \<Rightarrow> nat \<times> nat" where
  "f64_ratio w = (let e = f64_magnitude w div 2 ^ 52; m = f64_magnitude w mod 2 ^ 52 in
     if e = 0 then (m, 2 ^ 1074)
     else if e \<le> 1075 then (2 ^ 52 + m, 2 ^ (1075 - e))
     else ((2 ^ 52 + m) * 2 ^ (e - 1075), 1))"

definition f64_infinite :: "f64 \<Rightarrow> bool" where
  "f64_infinite w \<longleftrightarrow> f64_magnitude w = 2047 * 2 ^ 52"

definition f64_make :: "bool \<Rightarrow> nat \<Rightarrow> f64" where
  "f64_make neg mag = word_of_nat ((if neg then 2 ^ 63 else 0) + mag)"

definition f64_neg :: "f64 \<Rightarrow> f64" where
  "f64_neg w = f64_make (\<not> f64_sign w) (f64_magnitude w)"

text \<open>Addition of finite non-negative doubles, and division.\<close>

definition f64_add :: "f64 \<Rightarrow> f64 \<Rightarrow> f64" where
  "f64_add a b = (let (n, d) = f64_ratio a; (n', d') = f64_ratio b in
     f64_make False (round_ratio (n * d' + n' * d) (d * d')))"

definition f64_div :: "f64 \<Rightarrow> f64 \<Rightarrow> f64" where
  "f64_div a b = (let neg = (f64_sign a \<noteq> f64_sign b) in
     if f64_nan a \<or> f64_nan b \<or> (f64_infinite a \<and> f64_infinite b) \<or>
        (f64_magnitude a = 0 \<and> f64_magnitude b = 0) then f64_make False (4095 * 2 ^ 51)
     else if f64_infinite a \<or> f64_magnitude b = 0 then f64_make neg (2047 * 2 ^ 52)
     else if f64_infinite b then f64_make neg 0
     else let (n, d) = f64_ratio a; (n', d') = f64_ratio b in f64_make neg (round_ratio (n * d') (d * n')))"

definition f64_one :: f64 where "f64_one = f64_of_u64 1"
definition f64_two :: f64 where "f64_two = f64_of_u64 2"

text \<open>\<^verbatim>\<open>a.partial_cmp(b)\<close> gives \<^verbatim>\<open>Greater\<close>; a comparison with NaN counts as \<^verbatim>\<open>Equal\<close>.\<close>

definition f64_greater :: "f64 \<Rightarrow> f64 \<Rightarrow> bool" where
  "f64_greater a b \<longleftrightarrow> \<not> f64_nan a \<and> \<not> f64_nan b \<and> f64_key b < f64_key a"

section \<open>Hashes\<close>

definition FNV_OFFSET :: u64 where "FNV_OFFSET = 0xcbf29ce484222325"
definition FNV_PRIME :: u64 where "FNV_PRIME = 0x100000001b3"

definition fnv1a :: "u8 list \<Rightarrow> u64" where
  "fnv1a bytes = fold (\<lambda>b hash. (hash XOR ucast b) * FNV_PRIME) bytes FNV_OFFSET"

definition fmix64 :: "u64 \<Rightarrow> u64" where
  "fmix64 k =
     (let k = k XOR drop_bit 33 k;
          k = k * 0xff51afd7ed558ccd;
          k = k XOR drop_bit 33 k;
          k = k * 0xc4ceb9fe1a85ec53
      in k XOR drop_bit 33 k)"

definition combined_hash :: "u8 list \<Rightarrow> u8 list \<Rightarrow> u64" where
  "combined_hash key node_id = fmix64 ((fnv1a key * FNV_PRIME) XOR fnv1a node_id)"

definition score :: "u8 list \<Rightarrow> u8 list \<Rightarrow> u64" where
  "score key node_id = combined_hash key node_id"

section \<open>Scores and picks\<close>

text \<open>The hash scaled to the unit interval, and the score it gives under a weight.\<close>

definition hash_unit :: "u64 \<Rightarrow> f64" where
  "hash_unit h = f64_div (f64_add (f64_of_u64 h) f64_one) (f64_add (f64_of_u64 (- 1)) f64_two)"

definition hash_score :: "(f64 \<Rightarrow> f64) \<Rightarrow> u64 \<Rightarrow> f64 \<Rightarrow> f64" where
  "hash_score ln h weight = f64_div (f64_neg weight) (ln (hash_unit h))"

definition weighted_score :: "(f64 \<Rightarrow> f64) \<Rightarrow> u8 list \<Rightarrow> u8 list \<Rightarrow> f64 \<Rightarrow> f64" where
  "weighted_score ln key node_id weight = hash_score ln (combined_hash key node_id) weight"

text \<open>
  The trait \<^verbatim>\<open>Pickable\<close> gives the bytes of the identity and a weight. \<^verbatim>\<open>max_by\<close> keeps the later of
  two elements unless the earlier is greater; \<^verbatim>\<open>sort_by\<close> is stable.
\<close>

record 'n pickable =
  id_bytes :: "'n \<Rightarrow> u8 list"
  weight :: "'n \<Rightarrow> f64"

definition node_score :: "(f64 \<Rightarrow> f64) \<Rightarrow> 'n pickable \<Rightarrow> u8 list \<Rightarrow> 'n \<Rightarrow> f64" where
  "node_score ln P key n = weighted_score ln key (id_bytes P n) (weight P n)"

fun max_by :: "('n \<Rightarrow> 'n \<Rightarrow> bool) \<Rightarrow> 'n list \<Rightarrow> 'n option" where
  "max_by gt [] = None"
| "max_by gt (x # xs) = Some (fold (\<lambda>y best. if gt best y then best else y) xs x)"

definition pick :: "(f64 \<Rightarrow> f64) \<Rightarrow> 'n pickable \<Rightarrow> u8 list \<Rightarrow> 'n list \<Rightarrow> 'n option" where
  "pick ln P key nodes =
     max_by (\<lambda>a b. f64_greater (node_score ln P key a) (node_score ln P key b)) nodes"

definition pick_top_n :: "(f64 \<Rightarrow> f64) \<Rightarrow> 'n pickable \<Rightarrow> u8 list \<Rightarrow> 'n list \<Rightarrow> nat \<Rightarrow> 'n list" where
  "pick_top_n ln P key nodes n = take n (sort_key (\<lambda>m. - f64_key (node_score ln P key m)) nodes)"

definition node_pickable :: "node_id pickable" where
  "node_pickable = \<lparr>id_bytes = node_id_bytes, weight = (\<lambda>_. f64_one)\<rparr>"

section \<open>The directory of nodes\<close>

datatype peer_status = Unidentified | Alive | Zombie | Dead

record peer_tracker =
  pt_status :: peer_status
  pt_capabilities :: capabilities
  pt_expires_at :: nat

datatype annuary_event = NodeConnected node_id | NodeDisconnected node_id

text \<open>
  \<open>an_probing\<close> lists the tasks spawned by \<^verbatim>\<open>on_node_connected\<close> that wait for the answer to their
  call. The time is in seconds.
\<close>

record annuary =
  an_capabilities :: capabilities
  an_local :: own_node_id
  an_peers :: "(node_id, peer_tracker) hash_map"
  an_probing :: "node_id list"

definition annuary_new :: "capabilities \<Rightarrow> own_node_id \<Rightarrow> annuary" where
  "annuary_new caps own = \<lparr>an_capabilities = caps, an_local = own, an_peers = [], an_probing = []\<rparr>"

definition nodes_with :: "annuary \<Rightarrow> capabilities \<Rightarrow> node_id list" where
  "nodes_with a caps =
     map fst (filter (\<lambda>(_, t). cap_includes (pt_capabilities t) caps) (an_peers a)) @
     (if cap_includes (an_capabilities a) caps then [own_to_node_id (an_local a)] else [])"

definition annuary_pick_top_n ::
  "(f64 \<Rightarrow> f64) \<Rightarrow> annuary \<Rightarrow> u8 list \<Rightarrow> capabilities \<Rightarrow> nat \<Rightarrow> node_id list" where
  "annuary_pick_top_n ln a key caps n =
     (let candidates = map fst (filter (\<lambda>(_, t). cap_includes (pt_capabilities t) caps) (an_peers a));
          candidates = candidates @
            (if cap_includes (an_capabilities a) caps then [own_to_node_id (an_local a)] else [])
      in pick_top_n ln node_pickable key candidates n)"

definition on_node_connected :: "node_id \<Rightarrow> annuary \<Rightarrow> annuary" where
  "on_node_connected n a = a\<lparr>an_probing := an_probing a @ [n]\<rparr>"

definition on_node_disconnected :: "node_id \<Rightarrow> annuary \<Rightarrow> annuary" where
  "on_node_disconnected n a = a\<lparr>an_peers := hm_remove n (an_peers a)\<rparr>"

fun annuary_handle_event :: "annuary_event \<Rightarrow> annuary \<Rightarrow> annuary" where
  "annuary_handle_event (NodeConnected n) a = on_node_connected n a"
| "annuary_handle_event (NodeDisconnected n) a = on_node_disconnected n a"

text \<open>
  \<^verbatim>\<open>handle_peer_connection\<close> from the answer of the call on: the peer is inserted unless it is
  there already; an error of the call is dropped with the task.
\<close>

definition handle_peer_connection :: "nat \<Rightarrow> node_id \<Rightarrow> capabilities option \<Rightarrow> annuary \<Rightarrow> annuary" where
  "handle_peer_connection now n answer a =
     (let a = a\<lparr>an_probing := remove1 n (an_probing a)\<rparr> in
      case answer of
        None \<Rightarrow> a
      | Some caps \<Rightarrow>
          (case hm_get (an_peers a) n of
             Some _ \<Rightarrow> a
           | None \<Rightarrow> a\<lparr>an_peers := hm_insert n
               \<lparr>pt_status = Alive, pt_capabilities = caps, pt_expires_at = now + 2 * 3600\<rparr> (an_peers a)\<rparr>))"

text \<open>The steps of a directory: an event of the stream, or the end of a probing task.\<close>

datatype annuary_input = Observed annuary_event | Answered nat node_id "capabilities option"

inductive annuary_step :: "annuary \<Rightarrow> annuary_input \<Rightarrow> annuary \<Rightarrow> bool" where
  observe: "annuary_step a (Observed ev) (annuary_handle_event ev a)"
| answer: "n \<in> set (an_probing a) \<Longrightarrow>
     annuary_step a (Answered now n r) (handle_peer_connection now n r a)"

inductive annuary_run :: "annuary \<Rightarrow> annuary_input list \<Rightarrow> annuary \<Rightarrow> bool" where
  stop: "annuary_run a [] a"
| step: "annuary_step a i b \<Longrightarrow> annuary_run b is c \<Longrightarrow> annuary_run a (i # is) c"

inductive_cases annuary_runE: "annuary_run a [] b" "annuary_run a (i # is) b"
inductive_simps annuary_step_simps: "annuary_step a (Observed ev) b" "annuary_step a (Answered now n r) b"

section \<open>Evaluation of doubles\<close>

lemma log2_numeral:
  "log2 1 = 0" "log2 (Suc 0) = 0"
  "log2 (numeral (Num.Bit0 n)) = Suc (log2 (numeral n))"
  "log2 (numeral (Num.Bit1 n)) = Suc (log2 (numeral n))"
  by (subst log2.simps, simp)+

lemma log2_range: "2 ^ k \<le> n \<Longrightarrow> n < 2 ^ Suc k \<Longrightarrow> log2 n = k"
proof (induction k arbitrary: n)
  case 0
  then show ?case by (subst log2.simps) simp
next
  case (Suc k)
  have "log2 (n div 2) = k" by (rule Suc.IH) (use Suc.prems in auto)
  moreover have "2 \<le> n" using Suc.prems(1) le_trans [of 2 "2 * 2 ^ k" n] by simp
  ultimately show ?case by (subst log2.simps) simp
qed

lemma f64_add_ratio:
  "f64_add a b = f64_make False (round_ratio
     (fst (f64_ratio a) * snd (f64_ratio b) + fst (f64_ratio b) * snd (f64_ratio a))
     (snd (f64_ratio a) * snd (f64_ratio b)))"
  by (simp add: f64_add_def split: prod.splits)

lemma f64_div_ratio:
  "f64_finite a \<Longrightarrow> f64_finite b \<Longrightarrow> f64_magnitude b \<noteq> 0 \<Longrightarrow>
   f64_div a b = f64_make (f64_sign a \<noteq> f64_sign b) (round_ratio
     (fst (f64_ratio a) * snd (f64_ratio b)) (snd (f64_ratio a) * fst (f64_ratio b)))"
  by (simp add: f64_div_def f64_finite_def f64_nan_def f64_infinite_def Let_def split: prod.splits)

lemmas f64_eval = f64_of_u64_def f64_bits_of_nat_def round_shift_def f64_add_ratio f64_div_ratio
  f64_neg_def f64_ratio_def f64_magnitude_def f64_sign_def f64_finite_def f64_nan_def f64_make_def
  f64_key_def round_ratio_def round_div_def log2_numeral

lemma f64_constants: "f64_one = 0x3ff0000000000000" "f64_two = 0x4000000000000000"
  by (simp_all add: f64_one_def f64_two_def f64_eval)

text \<open>The largest 1024 hashes are rounded up to \<open>2 ^ 64\<close>.\<close>

lemma f64_of_top_hash:
  assumes "2 ^ 64 - 1024 \<le> unat (h :: u64)"
  shows "f64_of_u64 h = 0x43f0000000000000"
proof -
  have bound: "unat h < 2 ^ 64" using unsigned_less [of h] by simp
  then have l: "log2 (unat h) = 63" using assms by (intro log2_range) simp_all
  obtain r where r: "unat h = (2 ^ 53 - 1) * 2048 + r" "1024 \<le> r" "r < 2048"
    using assms bound by (intro that [of "unat h - (2 ^ 53 - 1) * 2048"]) simp_all
  then have "unat h div 2 ^ 11 = 2 ^ 53 - 1" "unat h mod 2 ^ 11 = r"
    using mod_mult_self3 [of "2 ^ 53 - 1 :: nat" 2048 r] by simp_all
  then have "round_shift (unat h) 11 = 2 ^ 53" using r(2) by (simp add: round_shift_def)
  moreover have "unat h \<noteq> 0" using assms by auto
  ultimately show ?thesis by (simp add: f64_of_u64_def f64_bits_of_nat_def l)
qed

lemma max_u64: "(- 1 :: u64) = 0xffffffffffffffff"
  by simp

lemma f64_of_max: "f64_of_u64 (- 1) = 0x43f0000000000000"
  unfolding max_u64 by (rule f64_of_top_hash) simp

lemma hash_unit_top: "2 ^ 64 - 1024 \<le> unat (h :: u64) \<Longrightarrow> hash_unit h = f64_one"
  unfolding hash_unit_def f64_of_max
  by (subst f64_of_top_hash, assumption) (simp only: f64_constants, simp add: f64_eval)

text \<open>
  The 1024 highest hashes get the lowest score there is, so the node that should win for such
  a key is ranked last.
\<close>

theorem highest_hashes_rank_last:
  assumes "2 ^ 64 - 1024 \<le> unat h" and "ln f64_one = 0"
  shows "f64_infinite (hash_score ln h f64_one) \<and> f64_sign (hash_score ln h f64_one) \<and>
    (\<forall>x. \<not> f64_nan x \<longrightarrow> f64_key (hash_score ln h f64_one) \<le> f64_key x)"
proof -
  have "hash_score ln h f64_one = 0xfff0000000000000"
    using assms(2) by (simp add: hash_score_def hash_unit_top [OF assms(1)] f64_constants f64_div_def
        f64_eval f64_infinite_def)
  moreover have "f64_key 0xfff0000000000000 \<le> f64_key x" if "\<not> f64_nan x" for x
    using that by (simp add: f64_key_def f64_nan_def) (simp add: f64_eval)
  ultimately show ?thesis by (simp add: f64_infinite_def) (simp add: f64_eval)
qed

theorem highest_hashes_rank_last_witness:
  "f64_infinite (hash_score (\<lambda>_. 0) (- 1) f64_one) \<and> f64_sign (hash_score (\<lambda>_. 0) (- 1) f64_one) \<and>
    (\<forall>x. \<not> f64_nan x \<longrightarrow> f64_key (hash_score (\<lambda>_. 0) (- 1) f64_one) \<le> f64_key x)"
  unfolding max_u64 by (rule highest_hashes_rank_last) simp_all

text \<open>Scores of the default weight are never NaN where the logarithm is not.\<close>

lemma round_ratio_le: "round_ratio n d \<le> 2047 * 2 ^ 52"
  by (simp add: round_ratio_def)

lemma magnitude_make:
  assumes "m < 2 ^ 63"
  shows "f64_magnitude (f64_make s m) = m"
proof -
  have "unat (word_of_nat k :: u64) = k" if "k < 2 ^ 64" for k
    using that by (simp add: unsigned_of_nat take_bit_nat_eq_self)
  from this [of m] this [of "2 ^ 63 + m"] assms show ?thesis
    unfolding f64_magnitude_def f64_make_def by (cases s) simp_all
qed

lemma hash_score_not_nan:
  assumes "\<not> f64_nan (ln (hash_unit h))"
  shows "\<not> f64_nan (hash_score ln h f64_one)"
proof -
  have "f64_magnitude (f64_neg f64_one) = 0x3ff0000000000000" 
    by (simp add: f64_neg_def f64_constants f64_eval)
  moreover have "round_ratio n d < 2 ^ 63" for n d
    by (rule le_less_trans [OF round_ratio_le]) simp
  ultimately show ?thesis
    using assms round_ratio_le
    by (auto simp: hash_score_def f64_div_def f64_nan_def f64_infinite_def magnitude_make not_less Let_def
        split: prod.splits)
qed

section \<open>The finalizer is a bijection\<close>

definition xorshift :: "u64 \<Rightarrow> u64" where
  "xorshift k = k XOR drop_bit 33 k"

lemma xorshift_twice [simp]: "xorshift (xorshift k) = k"
  unfolding xorshift_def by (rule bit_word_eqI) (auto simp: bit_simps dest: bit_imp_le_length)

lemma mul_inverse:
  fixes a b c :: u64
  assumes "b * c = 1"
  shows "a * b * c = a" "a * c * b = a"
proof -
  show "a * b * c = a" by (simp only: mult.assoc assms mult_1_right)
  then show "a * c * b = a" by (simp only: mult.assoc mult.commute [of c b])
qed

lemma mul_constants:
  "(0xff51afd7ed558ccd :: u64) * 0x4f74430c22a54005 = 1"
  "(0xc4ceb9fe1a85ec53 :: u64) * 0x9cb4b2f8129337db = 1"
  by simp_all

lemmas mul_back = mul_inverse [OF mul_constants(1)] mul_inverse [OF mul_constants(2)]

definition fmix64_inverse :: "u64 \<Rightarrow> u64" where
  "fmix64_inverse k =
     xorshift (xorshift (xorshift k * 0x9cb4b2f8129337db) * 0x4f74430c22a54005)"

lemma fmix64_xorshift:
  "fmix64 k = xorshift (xorshift (xorshift k * 0xff51afd7ed558ccd) * 0xc4ceb9fe1a85ec53)"
  by (simp add: fmix64_def xorshift_def Let_def)

lemma fmix64_inverse_left: "fmix64_inverse (fmix64 k) = k"
  by (simp only: fmix64_xorshift fmix64_inverse_def xorshift_twice mul_back)

lemma fmix64_inverse_right: "fmix64 (fmix64_inverse k) = k"
  by (simp only: fmix64_xorshift fmix64_inverse_def xorshift_twice mul_back)

lemma fmix64_inj: "fmix64 a = fmix64 b \<longleftrightarrow> a = b"
  by (metis fmix64_inverse_left)

section \<open>Rankings\<close>

text \<open>The ranking is a stable sort, so restricting the nodes restricts the ranking.\<close>

lemma pick_top_n_filter:
  "pick_top_n ln P key (filter Q nodes) n =
     take n (filter Q (pick_top_n ln P key nodes (length nodes)))"
  by (simp add: pick_top_n_def filter_sort)

lemma take_filter_prefix:
  assumes "\<forall>x \<in> set (take n xs). Q x"
  shows "take n (filter Q xs) = take n xs"
proof -
  have "filter Q xs = take n xs @ filter Q (drop n xs)"
    using assms by (metis append_take_drop_id filter_True filter_append)
  then show ?thesis by (cases "n \<le> length xs") simp_all
qed

lemma sort_key_unique:
  assumes "mset xs = mset ys" and "inj_on f (set xs)"
  shows "sort_key f xs = sort_key f ys"
proof (rule properties_for_sort_key)
  show "mset (sort_key f ys) = mset xs" using assms(1) by simp
  show "sorted (map f (sort_key f ys))" by simp
  fix k assume "k \<in> set (sort_key f ys)"
  then have k: "k \<in> set xs" using assms(1) by (metis set_mset_mset set_sort)
  have same: "filter (\<lambda>x. f k = f x) zs = replicate (count (mset zs) k) k"
    if "set zs = set xs" for zs
  proof -
    have "filter (\<lambda>x. f k = f x) zs = filter (\<lambda>x. k = x) zs"
      using that k assms(2) by (auto intro!: filter_cong dest: inj_onD)
    also have "\<dots> = replicate (count (mset zs) k) k" by (induction zs) auto
    finally show ?thesis .
  qed
  show "filter (\<lambda>x. f k = f x) (sort_key f ys) = filter (\<lambda>x. f k = f x) xs"
    using same [of xs] same [of "sort_key f ys"] assms(1)
    by (metis mset_sort set_mset_mset)
qed

definition distinct_scores :: "(f64 \<Rightarrow> f64) \<Rightarrow> 'n pickable \<Rightarrow> u8 list \<Rightarrow> 'n set \<Rightarrow> bool" where
  "distinct_scores ln P key N \<longleftrightarrow> inj_on (\<lambda>n. f64_key (node_score ln P key n)) N"

lemma pick_top_n_mset:
  assumes "mset nodes = mset nodes'" and "distinct_scores ln P key (set nodes)"
  shows "pick_top_n ln P key nodes n = pick_top_n ln P key nodes' n"
proof -
  have "inj_on (\<lambda>m. - f64_key (node_score ln P key m)) (set nodes)"
    using assms(2) by (simp add: distinct_scores_def inj_on_def)
  then show ?thesis
    unfolding pick_top_n_def using sort_key_unique [OF assms(1)] by metis
qed

lemma annuary_pick_nodes_with:
  "annuary_pick_top_n ln a key caps n = pick_top_n ln node_pickable key (nodes_with a caps) n"
  by (simp add: annuary_pick_top_n_def nodes_with_def)

text \<open>A directory does not list the local node among its peers.\<close>

definition annuary_wf :: "annuary \<Rightarrow> bool" where
  "annuary_wf a \<longleftrightarrow> hm_wf (an_peers a) \<and> hm_get (an_peers a) (own_to_node_id (an_local a)) = None"

lemma distinct_nodes_with: "annuary_wf a \<Longrightarrow> distinct (nodes_with a caps)"
  by (auto simp: annuary_wf_def hm_wf_def nodes_with_def map_of_eq_None_iff
      intro!: distinct_map_filter)

lemma fold_max:
  fixes g :: "'n \<Rightarrow> int"
  assumes "\<And>a b. a \<in> set (x # xs) \<Longrightarrow> b \<in> set (x # xs) \<Longrightarrow> gt a b \<longleftrightarrow> g b < g a"
  shows "fold (\<lambda>y best. if gt best y then best else y) xs x \<in> set (x # xs) \<and>
    (\<forall>z \<in> set (x # xs). g z \<le> g (fold (\<lambda>y best. if gt best y then best else y) xs x))"
  using assms
proof (induction xs arbitrary: x)
  case Nil
  then show ?case by simp
next
  case (Cons y ys)
  let ?x = "if gt x y then x else y"
  have "gt a b \<longleftrightarrow> g b < g a" if "a \<in> set (?x # ys)" "b \<in> set (?x # ys)" for a b
    using that Cons.prems [of a b] by (auto split: if_splits)
  note IH = Cons.IH [of ?x, OF this]
  have "g x \<le> g ?x" "g y \<le> g ?x" using Cons.prems [of x y] by auto
  with IH show ?case by fastforce
qed

lemma sort_key_hd_least:
  assumes "xs \<noteq> []" and "z \<in> set xs"
  shows "f (hd (sort_key f xs)) \<le> (f z :: int)" and "hd (sort_key f xs) \<in> set xs"
proof -
  have ne: "sort_key f xs \<noteq> []" using assms(1) by (metis length_sort length_greater_0_conv)
  then show "hd (sort_key f xs) \<in> set xs" by (metis hd_in_set set_sort)
  have "sorted (map f (sort_key f xs))" "z \<in> set (sort_key f xs)" using assms(2) by simp_all
  with ne show "f (hd (sort_key f xs)) \<le> f z"
    by (cases "sort_key f xs") auto
qed

lemma scores_greater:
  assumes "\<forall>n \<in> N. \<not> f64_nan (node_score ln P key n)" and "a \<in> N" and "b \<in> N"
  shows "f64_greater (node_score ln P key a) (node_score ln P key b) \<longleftrightarrow>
    f64_key (node_score ln P key b) < f64_key (node_score ln P key a)"
  using assms by (simp add: f64_greater_def)

text \<open>
  Picking one node is picking the first of the ranking, when no score is NaN and no two nodes
  have the same score.
\<close>

theorem pick_is_top:
  assumes "\<forall>n \<in> set nodes. \<not> f64_nan (node_score ln P key n)"
    and "distinct_scores ln P key (set nodes)"
  shows "pick ln P key nodes = (case pick_top_n ln P key nodes 1 of [] \<Rightarrow> None | m # _ \<Rightarrow> Some m)"
proof (cases nodes)
  case Nil
  then show ?thesis by (simp add: pick_def pick_top_n_def)
next
  case (Cons x xs)
  let ?g = "\<lambda>m. f64_key (node_score ln P key m)"
  let ?srt = "sort_key (\<lambda>m. - ?g m) nodes"
  obtain p where p: "pick ln P key nodes = Some p" by (simp add: pick_def Cons)
  have best: "p \<in> set nodes \<and> (\<forall>z \<in> set nodes. ?g z \<le> ?g p)"
    using fold_max [where g = ?g and x = x and xs = xs, OF scores_greater [OF assms(1)]] p
    by (simp add: pick_def Cons)
  have top: "hd ?srt \<in> set nodes" "?g p \<le> ?g (hd ?srt)"
    using sort_key_hd_least [of nodes p "\<lambda>m. - ?g m"] best by (auto simp: Cons)
  then have "p = hd ?srt"
    using best assms(2) unfolding distinct_scores_def by (meson inj_onD order.antisym)
  moreover have "?srt \<noteq> []" using Cons by (metis length_sort length_greater_0_conv list.distinct(1))
  ultimately show ?thesis by (cases ?srt) (simp_all add: p pick_top_n_def)
qed

text \<open>A ranking is strictly decreasing, and what it leaves out is below what it takes.\<close>

lemma pick_top_n_ranked:
  fixes ln :: "f64 \<Rightarrow> f64" and P :: "'n pickable" and key :: "u8 list"
  defines "g \<equiv> \<lambda>m. f64_key (node_score ln P key m)"
  assumes "distinct nodes" and "distinct_scores ln P key (set nodes)"
  shows "sorted_wrt (\<lambda>x y. g y < g x) (pick_top_n ln P key nodes n)"
    and "x \<in> set (pick_top_n ln P key nodes n) \<Longrightarrow> y \<in> set nodes - set (pick_top_n ln P key nodes n) \<Longrightarrow> g y < g x"
    and "set (pick_top_n ln P key nodes n) \<subseteq> set nodes" and "length (pick_top_n ln P key nodes n) = min n (length nodes)"
proof -
  let ?srt = "sort_key (\<lambda>m. - g m) nodes"
  have pick: "pick_top_n ln P key nodes n = take n ?srt" by (simp add: pick_top_n_def g_def)
  have inj: "inj_on (\<lambda>m. - g m) (set nodes)" using assms(3) by (simp add: distinct_scores_def inj_on_def g_def)
  have "distinct (map (\<lambda>m. - g m) ?srt)" using assms(2) inj by (simp add: distinct_map)
  then have "sorted_wrt (<) (map (\<lambda>m. - g m) ?srt)" by (simp add: strict_sorted_iff)
  then have srt: "sorted_wrt (\<lambda>x y. g y < g x) ?srt" by (simp add: sorted_wrt_map)
  then show "sorted_wrt (\<lambda>x y. g y < g x) (pick_top_n ln P key nodes n)" unfolding pick by (rule sorted_wrt_take)
  show "set (pick_top_n ln P key nodes n) \<subseteq> set nodes" unfolding pick by (metis set_sort set_take_subset)
  show "length (pick_top_n ln P key nodes n) = min n (length nodes)" unfolding pick by (simp add: min.commute)
  assume x: "x \<in> set (pick_top_n ln P key nodes n)" and y: "y \<in> set nodes - set (pick_top_n ln P key nodes n)"
  have "set ?srt = set (take n ?srt) \<union> set (drop n ?srt)" by (metis append_take_drop_id set_append)
  then have "y \<in> set (drop n ?srt)" using y unfolding pick by auto
  moreover have "sorted_wrt (\<lambda>x y. g y < g x) (take n ?srt @ drop n ?srt)" using srt by simp
  ultimately show "g y < g x" using x unfolding pick sorted_wrt_append by blast
qed

text \<open>The score of a node, written out down to the hash of the key and of the node.\<close>

lemma node_score_formula:
  "node_score ln node_pickable key m = f64_div (f64_neg f64_one)
     (ln (hash_unit (fmix64 ((fnv1a key * FNV_PRIME) XOR fnv1a (node_id_bytes m)))))"
  by (simp add: node_score_def weighted_score_def hash_score_def combined_hash_def node_pickable_def)

text \<open>
  C16: take two directories, neither of which lists its own node among its peers, that know the
  same capable nodes, and a key for which no candidate scores NaN and no two candidates have the
  same score. Then, whatever the order of their tables, they select the same nodes in the same
  order, and these are the best: as many as asked for or all there are, in strictly decreasing
  order of the score, each above every candidate left out, where the score is minus one divided
  by the logarithm of the scaled hash of the key and of the node. (No score is NaN when the
  logarithm is not: lemma \<open>hash_score_not_nan\<close>. So the comparisons of the source that meet NaN
  and answer \<^verbatim>\<open>Equal\<close> are left aside here.)
\<close>

theorem directories_agree:
  assumes "annuary_wf a" and "annuary_wf b"
    and "set (nodes_with a caps) = set (nodes_with b caps)"
    and "distinct_scores ln node_pickable key (set (nodes_with a caps))"
    and "\<forall>m \<in> set (nodes_with a caps). \<not> f64_nan (node_score ln node_pickable key m)"
  shows "let picked = annuary_pick_top_n ln a key caps n;
      rank = (\<lambda>m. f64_div (f64_neg f64_one)
        (ln (hash_unit (fmix64 ((fnv1a key * FNV_PRIME) XOR fnv1a (node_id_bytes m))))))
    in annuary_pick_top_n ln b key caps n = picked \<and>
      set picked \<subseteq> set (nodes_with a caps) \<and> length picked = min n (card (set (nodes_with a caps))) \<and>
      sorted_wrt (\<lambda>x y. f64_greater (rank x) (rank y)) picked \<and>
      (\<forall>x \<in> set picked. \<forall>y \<in> set (nodes_with a caps) - set picked. f64_greater (rank x) (rank y))"
proof -
  let ?cands = "nodes_with a caps"
  let ?picked = "pick_top_n ln node_pickable key ?cands n"
  have distinct: "distinct ?cands" by (rule distinct_nodes_with [OF assms(1)])
  have "mset ?cands = mset (nodes_with b caps)"
    using assms(3) distinct distinct_nodes_with [OF assms(2)] by (simp add: set_eq_iff_mset_eq_distinct)
  then have same: "annuary_pick_top_n ln b key caps n = annuary_pick_top_n ln a key caps n"
    unfolding annuary_pick_nodes_with by (rule pick_top_n_mset [OF _ assms(4), symmetric])
  note ranked = pick_top_n_ranked [OF distinct assms(4), where n = n]
  have greater: "f64_greater (node_score ln node_pickable key x) (node_score ln node_pickable key y)"
    if "x \<in> set ?cands" "y \<in> set ?cands"
      "f64_key (node_score ln node_pickable key y) < f64_key (node_score ln node_pickable key x)" for x y
    using that scores_greater [OF assms(5)] by blast
  have "sorted_wrt (\<lambda>x y. f64_greater (node_score ln node_pickable key x) (node_score ln node_pickable key y)) ?picked"
    by (rule sorted_wrt_mono_rel [OF _ ranked(1)]) (use ranked(3) greater in blast)
  moreover have "f64_greater (node_score ln node_pickable key x) (node_score ln node_pickable key y)"
    if "x \<in> set ?picked" "y \<in> set ?cands - set ?picked" for x y
    using that ranked(3) greater [OF _ _ ranked(2) [OF that]] by blast
  ultimately show ?thesis
    using same ranked(3,4) distinct
    by (simp add: Let_def annuary_pick_nodes_with node_score_formula distinct_card)
qed

text \<open>
  A selection survives the departure of nodes that were not selected, and the selection
  after any departure is the first part of what is left of the full ranking.
\<close>

theorem selection_survives_departures:
  "pick_top_n ln P key (filter Q nodes) n =
     take n (filter Q (pick_top_n ln P key nodes (length nodes))) \<and>
   ((\<forall>m \<in> set (pick_top_n ln P key nodes n). Q m) \<longrightarrow>
     pick_top_n ln P key (filter Q nodes) n = pick_top_n ln P key nodes n)"
proof (intro conjI impI)
  assume "\<forall>m \<in> set (pick_top_n ln P key nodes n). Q m"
  then show "pick_top_n ln P key (filter Q nodes) n = pick_top_n ln P key nodes n"
    using take_filter_prefix unfolding pick_top_n_def filter_sort [symmetric] by blast
qed (rule pick_top_n_filter)

section \<open>Examples\<close>

definition example_node :: "u8 \<Rightarrow> node_id" where
  "example_node b = NodeId [b]"

definition example_peer :: peer_tracker where
  "example_peer = \<lparr>pt_status = Alive, pt_capabilities = capabilities_all, pt_expires_at = 7200\<rparr>"

definition example_annuary :: "u8 \<Rightarrow> u8 list \<Rightarrow> annuary" where
  "example_annuary own peers = \<lparr>an_capabilities = capabilities_all, an_local = OwnNodeId (example_node own),
     an_peers = map (\<lambda>b. (example_node b, example_peer)) peers, an_probing = []\<rparr>"

lemma example_hashes:
  "combined_hash [7] [1] = 12969026025025604371" "combined_hash [7] [2] = 6592794939989086520"
  by code_simp+
lemma example_scores:
  "node_score f64_neg node_pickable [7] (example_node 1) = 0x3ff6c20647775a72"
  "node_score f64_neg node_pickable [7] (example_node 2) = 0x4006625614c6013a"
proof -
  have "hash_unit 12969026025025604371 = 0x3fe67f678e9f0e51" "hash_unit 6592794939989086520 = 0x3fd6df940456c2b4"
    by (simp add: hash_unit_def f64_constants f64_of_max, simp add: f64_eval)+
  then show "node_score f64_neg node_pickable [7] (example_node 1) = 0x3ff6c20647775a72"
    "node_score f64_neg node_pickable [7] (example_node 2) = 0x4006625614c6013a"
    by (simp_all add: node_score_def weighted_score_def hash_score_def node_pickable_def example_node_def
        example_hashes f64_constants) (simp_all add: f64_eval)
qed

lemmas example_simps = example_scores example_annuary_def example_peer_def nodes_with_def
  annuary_wf_def hm_wf_def distinct_scores_def

theorem pick_is_top_witness:
  "pick f64_neg node_pickable [7] [example_node 1, example_node 2] =
    (case pick_top_n f64_neg node_pickable [7] [example_node 1, example_node 2] 1 of [] \<Rightarrow> None | m # _ \<Rightarrow> Some m)"
  by (rule pick_is_top) (simp_all add: example_simps, auto simp: f64_eval)

theorem directories_agree_witness:
  "annuary_pick_top_n f64_neg (example_annuary 1 [2]) [7] capabilities_all 1 = [example_node 2] \<and>
   annuary_pick_top_n f64_neg (example_annuary 2 [1]) [7] capabilities_all 1 = [example_node 2]"
proof -
  let ?cands = "nodes_with (example_annuary 1 [2]) capabilities_all"
  have nodes: "?cands = [example_node 2, example_node 1]" by (simp add: example_simps)
  have wf: "annuary_wf (example_annuary 1 [2])" "annuary_wf (example_annuary 2 [1])"
    "set ?cands = set (nodes_with (example_annuary 2 [1]) capabilities_all)"
    by (auto simp: example_simps example_node_def)
  have "distinct_scores f64_neg node_pickable [7] (set ?cands)"
    by (simp add: example_simps) (auto simp: f64_eval)
  moreover have "\<forall>m \<in> set ?cands. \<not> f64_nan (node_score f64_neg node_pickable [7] m)"
    unfolding nodes by (simp add: example_scores f64_eval)
  ultimately have "annuary_pick_top_n f64_neg (example_annuary 2 [1]) [7] capabilities_all 1 =
      annuary_pick_top_n f64_neg (example_annuary 1 [2]) [7] capabilities_all 1"
    using directories_agree [OF wf, of f64_neg "[7]" 1] by (metis (no_types, lifting))
  moreover have "annuary_pick_top_n f64_neg (example_annuary 1 [2]) [7] capabilities_all 1 = [example_node 2]"
    unfolding annuary_pick_nodes_with nodes by (simp add: pick_top_n_def example_scores) (simp add: f64_eval)
  ultimately show ?thesis by simp
qed

theorem selection_survives_departures_witness:
  "pick_top_n f64_neg node_pickable [7] (filter (\<lambda>n. n \<noteq> example_node 1) [example_node 1, example_node 2]) 1 =
   pick_top_n f64_neg node_pickable [7] [example_node 1, example_node 2] 1"
proof -
  have "pick_top_n f64_neg node_pickable [7] [example_node 1, example_node 2] 1 = [example_node 2]"
    by (simp add: pick_top_n_def example_scores) (simp add: f64_eval)
  then have "\<forall>m \<in> set (pick_top_n f64_neg node_pickable [7] [example_node 1, example_node 2] 1). m \<noteq> example_node 1"
    by (simp add: example_node_def)
  then show ?thesis
    by (rule mp [OF selection_survives_departures [THEN conjunct2]])
qed

text \<open>
  A node that leaves while it is probed is listed when the answer comes, and stays until another
  departure of the same node is observed.
\<close>

lemma departed_node_listed:
  assumes "hm_get (an_peers a) n = None" and "cap_includes caps req"
  shows "\<exists>b. annuary_run a [Observed (NodeConnected n), Observed (NodeDisconnected n), Answered now n (Some caps)] b \<and>
    n \<in> set (nodes_with b req)"
proof -
  let ?b = "handle_peer_connection now n (Some caps) (on_node_disconnected n (on_node_connected n a))"
  have "annuary_run a [Observed (NodeConnected n), Observed (NodeDisconnected n), Answered now n (Some caps)] ?b"
    by (intro annuary_run.step annuary_run.stop)
      (auto simp: annuary_step_simps on_node_connected_def on_node_disconnected_def intro: annuary_run.stop)
  moreover have "hm_get (an_peers ?b) n = Some \<lparr>pt_status = Alive, pt_capabilities = caps, pt_expires_at = now + 2 * 3600\<rparr>"
    using assms(1) by (simp add: handle_peer_connection_def on_node_disconnected_def on_node_connected_def)
  from map_of_SomeD [OF this] have "n \<in> set (nodes_with ?b req)"
    using assms(2) by (force simp: nodes_with_def)
  ultimately show ?thesis by blast
qed

end
