(* ===== verification/Messaging.thy ===== *)
theory Messaging
  imports Nodes Channels
begin

text \<open>
  Messages between nodes: the post office and its routers (\<^verbatim>\<open>marie-core/src/post\<close>), the commands
  of the network actor (\<^verbatim>\<open>network/protocol.rs\<close>, \<^verbatim>\<open>network/swarm.rs\<close>), the event bus
  (\<^verbatim>\<open>events\<close>) and remote procedure calls (\<^verbatim>\<open>rpc\<close>). Serialisation is a parameter. A broadcast
  channel is the list of what its sender was given; what a lagging receiver loses is the
  business of the channel library.
\<close>

section \<open>Envelopes and codecs\<close>

record 'p message_envelope =
  mv_channel :: string
  mv_destination :: node_id
  mv_source :: node_id
  mv_payload :: 'p

datatype post_error = SerializerError string | PostDeserializeError string

record 'm codec =
  enc :: "'m \<Rightarrow> string + u8 list"
  dec :: "u8 list \<Rightarrow> string + 'm"

definition envelope_serialize ::
  "'p codec \<Rightarrow> 'p message_envelope \<Rightarrow> post_error + u8 list message_envelope" where
  "envelope_serialize c env = (case enc c (mv_payload env) of
      Inl e \<Rightarrow> Inl (SerializerError e)
    | Inr data \<Rightarrow> Inr \<lparr>mv_channel = mv_channel env, mv_destination = mv_destination env,
        mv_source = mv_source env, mv_payload = data\<rparr>)"

definition envelope_deserialize ::
  "'p codec \<Rightarrow> u8 list message_envelope \<Rightarrow> post_error + 'p message_envelope" where
  "envelope_deserialize c env = (case dec c (mv_payload env) of
      Inl e \<Rightarrow> Inl (PostDeserializeError e)
    | Inr p \<Rightarrow> Inr \<lparr>mv_channel = mv_channel env, mv_destination = mv_destination env,
        mv_source = mv_source env, mv_payload = p\<rparr>)"

section \<open>Routers\<close>

text \<open>One broadcast channel per name, with the messages given to its sender.\<close>

type_synonym local_router = "(string, u8 list message_envelope list) hash_map"

definition local_channel :: "string \<Rightarrow> local_router \<Rightarrow> local_router" where
  "local_channel name r = (case hm_get r name of None \<Rightarrow> hm_insert name [] r | Some _ \<Rightarrow> r)"

definition local_send :: "u8 list message_envelope \<Rightarrow> local_router \<Rightarrow> local_router" where
  "local_send msg r = (case hm_get r (mv_channel msg) of
      None \<Rightarrow> r
    | Some sent \<Rightarrow> hm_insert (mv_channel msg) (sent @ [msg]) r)"

datatype network_command =
    NetListen nat
  | NetSend "u8 list" node_id
  | NetSubscribe string
  | NetUnsubscribe string
  | NetPublish string "u8 list"
  | NetShutdown

record network_router =
  nr_local_id :: node_id
  nr_local :: local_router
  nr_commands :: "network_command list"

definition network_send ::
  "u8 list message_envelope codec \<Rightarrow> u8 list message_envelope \<Rightarrow> (network_router, post_error, unit) prog" where
  "network_send ec msg r =
     (if mv_destination msg = nr_local_id r then (Ok (), r\<lparr>nr_local := local_send msg (nr_local r)\<rparr>)
      else case enc ec msg of
          Inl e \<Rightarrow> (Err (SerializerError e), r)
        | Inr data \<Rightarrow> (Ok (), r\<lparr>nr_commands := nr_commands r @ [NetSend data (mv_destination msg)]\<rparr>))"

text \<open>What \<^verbatim>\<open>stream_messages\<close> makes of a message received from the network.\<close>

definition network_receive ::
  "u8 list message_envelope codec \<Rightarrow> string \<Rightarrow> u8 list \<Rightarrow> u8 list message_envelope option" where
  "network_receive ec channel data = (case dec ec data of
      Inl _ \<Rightarrow> None
    | Inr env \<Rightarrow> if mv_channel env = channel then Some env else None)"

datatype post_router = LocalRouter local_router | NetworkRouter network_router

fun post_router_send ::
  "u8 list message_envelope codec \<Rightarrow> u8 list message_envelope \<Rightarrow> (post_router, post_error, unit) prog" where
  "post_router_send ec msg (LocalRouter r) = (Ok (), LocalRouter (local_send msg r))"
| "post_router_send ec msg (NetworkRouter r) = (case network_send ec msg r of (res, r') \<Rightarrow> (res, NetworkRouter r'))"

text \<open>\<^verbatim>\<open>PostOffice::send\<close>: the source is the default identity.\<close>

definition post_send ::
  "u8 list message_envelope codec \<Rightarrow> 'm codec \<Rightarrow> string \<Rightarrow> 'm \<Rightarrow> node_id \<Rightarrow> (post_router, post_error, unit) prog" where
  "post_send ec c channel msg destination r =
     (case envelope_serialize c \<lparr>mv_channel = channel, mv_destination = destination,
          mv_source = node_id_default, mv_payload = msg\<rparr> of
        Inl e \<Rightarrow> (Err e, r)
      | Inr env \<Rightarrow> post_router_send ec env r)"

text \<open>
  The network actor executes a command: the identity of the destination becomes a peer identity,
  and bytes that are none panic. The result is the request handed to the transport, if any.
\<close>

definition network_execute ::
  "(u8 list \<Rightarrow> 'peer option) \<Rightarrow> network_command \<Rightarrow> (error, ('peer \<times> u8 list) option) outcome" where
  "network_execute peer_from_bytes cmd = (case cmd of
      NetSend data dest \<Rightarrow> (case peer_from_bytes (node_id_bytes dest) of
          None \<Rightarrow> Panic ''called `Result::unwrap()` on an `Err` value''
        | Some peer \<Rightarrow> Ok (Some (peer, data)))
    | _ \<Rightarrow> Ok None)"

section \<open>The event bus\<close>

record 'p event_envelope =
  ee_id :: string
  ee_topic :: string
  ee_payload :: 'p

record event_bus =
  eb_topics :: "(string, u8 list event_envelope list) hash_map"
  eb_network :: "network_command list option"
  eb_counter :: "(string, u32) hash_map"

definition event_bus_local :: event_bus where
  "event_bus_local = \<lparr>eb_topics = [], eb_network = None, eb_counter = []\<rparr>"

definition event_bus_network :: event_bus where
  "event_bus_network = \<lparr>eb_topics = [], eb_network = Some [], eb_counter = []\<rparr>"

definition net_push :: "network_command \<Rightarrow> event_bus \<Rightarrow> event_bus" where
  "net_push cmd b = b\<lparr>eb_network := map_option (\<lambda>cs. cs @ [cmd]) (eb_network b)\<rparr>"

definition topic_channel :: "string \<Rightarrow> event_bus \<Rightarrow> event_bus" where
  "topic_channel topic b = (case hm_get (eb_topics b) topic of
      None \<Rightarrow> b\<lparr>eb_topics := hm_insert topic [] (eb_topics b)\<rparr>
    | Some _ \<Rightarrow> b)"

definition router_emit :: "u8 list event_envelope \<Rightarrow> event_bus \<Rightarrow> event_bus" where
  "router_emit ev b =
     net_push (NetPublish (ee_topic ev) (ee_payload ev))
       (case hm_get (eb_topics b) (ee_topic ev) of
          None \<Rightarrow> b
        | Some sent \<Rightarrow> b\<lparr>eb_topics := hm_insert (ee_topic ev) (sent @ [ev]) (eb_topics b)\<rparr>)"

definition router_subscribe :: "string \<Rightarrow> event_bus \<Rightarrow> event_bus" where
  "router_subscribe topic b = net_push (NetSubscribe topic) (topic_channel topic b)"

definition router_unsubscribe :: "string \<Rightarrow> event_bus \<Rightarrow> event_bus" where
  "router_unsubscribe topic b =
     net_push (NetUnsubscribe topic) (b\<lparr>eb_topics := hm_remove topic (eb_topics b)\<rparr>)"

text \<open>\<^verbatim>\<open>emit\<close>: one envelope per topic of the event; a failed serialisation panics.\<close>

definition bus_emit ::
  "('e \<Rightarrow> string + u8 list) \<Rightarrow> ('e \<Rightarrow> string) \<Rightarrow> ('e \<Rightarrow> string list) \<Rightarrow> 'e \<Rightarrow> (event_bus, error, unit) prog" where
  "bus_emit to_vec event_id topics ev =
     for_each (topics ev) (\<lambda>topic b. case to_vec ev of
        Inl _ \<Rightarrow> (Panic ''called `Result::unwrap()` on an `Err` value'', b)
      | Inr data \<Rightarrow> (Ok (), router_emit \<lparr>ee_id = event_id ev, ee_topic = topic, ee_payload = data\<rparr> b))"

definition inc_sub :: "string \<Rightarrow> event_bus \<Rightarrow> event_bus" where
  "inc_sub topic b =
     (let counter = (case hm_get (eb_counter b) topic of None \<Rightarrow> 0 | Some n \<Rightarrow> n) + 1;
          b = b\<lparr>eb_counter := hm_insert topic counter (eb_counter b)\<rparr>
      in if counter = 1 then router_subscribe topic b else b)"

text \<open>\<^verbatim>\<open>dec_sub\<close> computes the decremented counter and does not store it.\<close>

definition dec_sub :: "string \<Rightarrow> event_bus \<Rightarrow> event_bus" where
  "dec_sub topic b =
     (let counter = (case hm_get (eb_counter b) topic of None \<Rightarrow> 0 | Some n \<Rightarrow> n);
          b = b\<lparr>eb_counter := hm_insert topic counter (eb_counter b)\<rparr>
      in if counter = 0 \<or> counter - 1 = 0 then router_unsubscribe topic b else b)"

text \<open>\<^verbatim>\<open>stream_events\<close>: the channel is created by the stream, then the subscription is counted.\<close>

definition bus_stream_events :: "string \<Rightarrow> event_bus \<Rightarrow> event_bus" where
  "bus_stream_events topic b = inc_sub topic (topic_channel topic b)"

text \<open>
  What a subscription to a topic yields of the envelopes of its channel. Its items are envelopes,
  so the payload of an envelope of the channel is itself decoded as an envelope.
\<close>

definition subscription_filter ::
  "(u8 list \<Rightarrow> string + 'e event_envelope) \<Rightarrow> string \<Rightarrow> u8 list event_envelope list \<Rightarrow> 'e event_envelope list" where
  "subscription_filter from_slice topic envs =
     List.map_filter (\<lambda>env. if ee_topic env \<noteq> topic then None
       else case from_slice (ee_payload env) of Inl _ \<Rightarrow> None | Inr p \<Rightarrow> Some p) envs"

text \<open>
  The derived decoder of an envelope from JSON: an object with its three fields, or an array of
  them.
\<close>

definition envelope_fields ::
  "(value \<Rightarrow> string + 'e) \<Rightarrow> value option \<Rightarrow> value option \<Rightarrow> value option \<Rightarrow> string + 'e event_envelope" where
  "envelope_fields from_value i t p = (case (i, t, p) of
      (Some (VString i), Some (VString t), Some p) \<Rightarrow>
        (case from_value p of Inl e \<Rightarrow> Inl e | Inr ev \<Rightarrow> Inr \<lparr>ee_id = i, ee_topic = t, ee_payload = ev\<rparr>)
    | _ \<Rightarrow> Inl ''missing or invalid field'')"

definition envelope_from_value :: "(value \<Rightarrow> string + 'e) \<Rightarrow> value \<Rightarrow> string + 'e event_envelope" where
  "envelope_from_value from_value v = (case v of
      VObject kvs \<Rightarrow> envelope_fields from_value (map_of kvs ''id'') (map_of kvs ''topic'') (map_of kvs ''payload'')
    | VArray [i, t, p] \<Rightarrow> envelope_fields from_value (Some i) (Some t) (Some p)
    | _ \<Rightarrow> Inl ''invalid type'')"

section \<open>Remote procedure calls\<close>

datatype rpc_id = RpcId ID

datatype rpc_error =
    RpcDeserializeError string
  | RpcPostError post_error
  | RpcTimeOut
  | NoExecutorFound string
  | RpcShutdown

record rpc_call =
  rc_id :: rpc_id
  rc_name :: string
  rc_args :: "value"

record rpc_reply =
  rr_id :: rpc_id
  rr_result :: "rpc_error + value"

record rpc_ack =
  ra_id :: rpc_id

datatype rpc_message = Call rpc_call | Ack rpc_ack | Reply rpc_reply

abbreviation RPC_CHANNEL :: string where "RPC_CHANNEL \<equiv> ''/marie/rpc''"

text \<open>
  An executor decodes its arguments, runs the procedure and encodes the result; a failed
  conversion panics. The procedure may panic as well.
\<close>

type_synonym rpc_executor = "value \<Rightarrow> node_id \<Rightarrow> (unit, value) outcome"

definition rpc_executor_new ::
  "(value \<Rightarrow> string + 'a) \<Rightarrow> ('r \<Rightarrow> string + value) \<Rightarrow> ('a \<Rightarrow> node_id \<Rightarrow> (unit, 'r) outcome) \<Rightarrow> rpc_executor" where
  "rpc_executor_new from_value to_value f args caller = (case from_value args of
      Inl _ \<Rightarrow> Panic ''called `Result::unwrap()` on an `Err` value''
    | Inr a \<Rightarrow> (case f a caller of
          Ok r \<Rightarrow> (case to_value r of
              Inl _ \<Rightarrow> Panic ''called `Result::unwrap()` on an `Err` value''
            | Inr v \<Rightarrow> Ok v)
        | Err e \<Rightarrow> Err e
        | Panic p \<Rightarrow> Panic p))"

type_synonym rpc_executors = "(string, rpc_executor) hash_map"

definition rpc_register :: "string \<Rightarrow> rpc_executor \<Rightarrow> rpc_executors \<Rightarrow> rpc_executors" where
  "rpc_register name ex exs = hm_insert name ex exs"

definition execute_call :: "rpc_executors \<Rightarrow> rpc_call \<Rightarrow> node_id \<Rightarrow> (unit, rpc_error + value) outcome" where
  "execute_call exs call callee = (case hm_get exs (rc_name call) of
      None \<Rightarrow> Ok (Inl (NoExecutorFound (rc_name call)))
    | Some ex \<Rightarrow> (case ex (rc_args call) callee of
          Ok v \<Rightarrow> Ok (Inr v)
        | Err e \<Rightarrow> Err e
        | Panic p \<Rightarrow> Panic p))"

text \<open>The task of one call: a panic ends the task, and the reply is never sent.\<close>

definition handle_call ::
  "u8 list message_envelope codec \<Rightarrow> rpc_message codec \<Rightarrow> rpc_executors \<Rightarrow> rpc_call \<Rightarrow> node_id \<Rightarrow>
     (post_router, unit, unit) prog" where
  "handle_call ec c exs call callee r = (case execute_call exs call callee of
      Ok result \<Rightarrow> (Ok (), snd (post_send ec c RPC_CHANNEL (Reply \<lparr>rr_id = rc_id call, rr_result = result\<rparr>) callee r))
    | Err e \<Rightarrow> (Err e, r)
    | Panic p \<Rightarrow> (Panic p, r))"

text \<open>The loop of the server, on one message of its stream.\<close>

definition server_receive ::
  "u8 list message_envelope codec \<Rightarrow> rpc_message codec \<Rightarrow> rpc_executors \<Rightarrow> u8 list message_envelope \<Rightarrow>
     (post_router, unit, unit) prog" where
  "server_receive ec c exs env r = (case envelope_deserialize c env of
      Inr env' \<Rightarrow> (case mv_payload env' of
          Call call \<Rightarrow> handle_call ec c exs call (mv_source env') r
        | _ \<Rightarrow> (Ok (), r))
    | Inl _ \<Rightarrow> (Ok (), r))"

record rpc_client =
  cl_tracked :: "(rpc_id, nat) hash_map"
  cl_resolved :: "(rpc_id \<times> (rpc_error + value)) list"

definition handle_reply :: "rpc_reply \<Rightarrow> rpc_client \<Rightarrow> rpc_client" where
  "handle_reply reply cl = (case hm_get (cl_tracked cl) (rr_id reply) of
      None \<Rightarrow> cl
    | Some _ \<Rightarrow> cl\<lparr>cl_tracked := hm_remove (rr_id reply) (cl_tracked cl),
        cl_resolved := cl_resolved cl @ [(rr_id reply, rr_result reply)]\<rparr>)"

definition client_receive :: "rpc_message codec \<Rightarrow> u8 list message_envelope \<Rightarrow> rpc_client \<Rightarrow> rpc_client" where
  "client_receive c env cl = (case envelope_deserialize c env of
      Inr env' \<Rightarrow> (case mv_payload env' of Reply reply \<Rightarrow> handle_reply reply cl | _ \<Rightarrow> cl)
    | Inl _ \<Rightarrow> cl)"

text \<open>
  \<^verbatim>\<open>call\<close> up to the point where it waits: the call is tracked first and then sent. A failed send
  returns its error and leaves the tracker.
\<close>

definition client_call ::
  "u8 list message_envelope codec \<Rightarrow> rpc_message codec \<Rightarrow> nat \<Rightarrow> rpc_id \<Rightarrow> string \<Rightarrow> value \<Rightarrow> node_id \<Rightarrow>
     (rpc_client \<times> post_router, rpc_error, unit) prog" where
  "client_call ec c now i name args destination = (\<lambda>(cl, r).
     let cl = cl\<lparr>cl_tracked := hm_insert i now (cl_tracked cl)\<rparr> in
     case post_send ec c RPC_CHANNEL (Call \<lparr>rc_id = i, rc_name = name, rc_args = args\<rparr>) destination r of
       (Ok _, r') \<Rightarrow> (Ok (), (cl, r'))
     | (Err e, r') \<Rightarrow> (Err (RpcPostError e), (cl, r'))
     | (Panic p, r') \<Rightarrow> (Panic p, (cl, r')))"

text \<open>What the caller makes of the result once it is resolved.\<close>

definition call_result :: "(value \<Rightarrow> string + 'r) \<Rightarrow> rpc_error + value \<Rightarrow> rpc_error + 'r" where
  "call_result from_value res = (case res of
      Inl e \<Rightarrow> Inl e
    | Inr v \<Rightarrow> (case from_value v of Inl e \<Rightarrow> Inl (RpcDeserializeError e) | Inr a \<Rightarrow> Inr a))"

text \<open>\<^verbatim>\<open>invoke\<close> calls the first destination and panics when there is none.\<close>

definition client_invoke ::
  "u8 list message_envelope codec \<Rightarrow> rpc_message codec \<Rightarrow> nat \<Rightarrow> rpc_id \<Rightarrow> string \<Rightarrow> value \<Rightarrow> node_id list \<Rightarrow>
     (rpc_client \<times> post_router, rpc_error, unit) prog" where
  "client_invoke ec c now i name args destinations = (case destinations of
      [] \<Rightarrow> panic ''called `Option::unwrap()` on a `None` value''
    | d # _ \<Rightarrow> client_call ec c now i name args d)"

section \<open>Calls on one node\<close>

text \<open>The codec carries a message when it decodes what it encoded.\<close>

definition carries :: "'m codec \<Rightarrow> 'm \<Rightarrow> bool" where
  "carries c m \<longleftrightarrow> (\<exists>d. enc c m = Inr d \<and> dec c d = Inr m)"

text \<open>The envelope \<^verbatim>\<open>PostOffice::send\<close> builds around an encodable message.\<close>

definition sealed :: "rpc_message codec \<Rightarrow> rpc_message \<Rightarrow> node_id \<Rightarrow> u8 list message_envelope" where
  "sealed c msg destination = \<lparr>mv_channel = RPC_CHANNEL, mv_destination = destination,
     mv_source = node_id_default, mv_payload = (case enc c msg of Inr d \<Rightarrow> d | Inl _ \<Rightarrow> [])\<rparr>"

lemma post_send_sealed: "carries c msg \<Longrightarrow> post_send ec c RPC_CHANNEL msg dest r = post_router_send ec (sealed c msg dest) r"
  by (auto simp: carries_def post_send_def envelope_serialize_def sealed_def)

lemma open_sealed:
  "carries c msg \<Longrightarrow> envelope_deserialize c (sealed c msg dest) =
     Inr \<lparr>mv_channel = RPC_CHANNEL, mv_destination = dest, mv_source = node_id_default, mv_payload = msg\<rparr>"
  by (auto simp: carries_def envelope_deserialize_def sealed_def)

lemma sealed_simps [simp]: "mv_channel (sealed c msg d) = RPC_CHANNEL" "mv_destination (sealed c msg d) = d"
  by (simp_all add: sealed_def)

lemma handle_call_sealed:
  "carries c (Reply \<lparr>rr_id = rc_id call, rr_result = result\<rparr>) \<Longrightarrow> execute_call exs call callee = Ok result \<Longrightarrow>
   handle_call ec c exs call callee r =
     (Ok (), snd (post_router_send ec (sealed c (Reply \<lparr>rr_id = rc_id call, rr_result = result\<rparr>) callee) r))"
  by (simp add: handle_call_def post_send_sealed)

lemma server_receive_sealed:
  "carries c (Call call) \<Longrightarrow> server_receive ec c exs (sealed c (Call call) dest) r = handle_call ec c exs call node_id_default r"
  by (simp add: server_receive_def open_sealed)

lemma client_receive_sealed:
  "carries c (Reply reply) \<Longrightarrow> client_receive c (sealed c (Reply reply) dest) cl = handle_reply reply cl"
  by (simp add: client_receive_def open_sealed)

text \<open>
  On the local router a call comes back: the call is put on the channel, the server that
  receives it puts one reply behind it, and the client that receives the reply resolves the call
  with the result of the executor, or with the error that names the missing procedure. No other
  call of the client is touched.
\<close>

theorem local_call_returns:
  assumes "carries c (Call \<lparr>rc_id = i, rc_name = name, rc_args = args\<rparr>)"
    and "carries c (Reply \<lparr>rr_id = i, rr_result = result\<rparr>)"
    and "hm_get r RPC_CHANNEL = Some sent"
    and "execute_call exs \<lparr>rc_id = i, rc_name = name, rc_args = args\<rparr> node_id_default = Ok result"
  shows "\<exists>call reply cl1 r1 r2.
    client_call ec c now i name args dest (cl, LocalRouter r) = (Ok (), (cl1, LocalRouter r1)) \<and>
    hm_get r1 RPC_CHANNEL = Some (sent @ [call]) \<and>
    server_receive ec c exs call (LocalRouter r1) = (Ok (), LocalRouter r2) \<and>
    hm_get r2 RPC_CHANNEL = Some (sent @ [call, reply]) \<and>
    cl_resolved (client_receive c reply cl1) = cl_resolved cl @ [(i, result)] \<and>
    (\<forall>j. hm_get (cl_tracked (client_receive c reply cl1)) j =
      (if j = i then None else hm_get (cl_tracked cl) j))"
proof -
  let ?call = "sealed c (Call \<lparr>rc_id = i, rc_name = name, rc_args = args\<rparr>) dest"
  let ?reply = "sealed c (Reply \<lparr>rr_id = i, rr_result = result\<rparr>) node_id_default"
  let ?cl1 = "cl\<lparr>cl_tracked := hm_insert i now (cl_tracked cl)\<rparr>"
  let ?r1 = "local_send ?call r"
  have r1: "hm_get ?r1 RPC_CHANNEL = Some (sent @ [?call])" using assms(3) by (simp add: local_send_def)
  have "client_call ec c now i name args dest (cl, LocalRouter r) = (Ok (), (?cl1, LocalRouter ?r1))"
    by (simp add: client_call_def post_send_sealed [OF assms(1)])
  moreover have "server_receive ec c exs ?call (LocalRouter ?r1) = (Ok (), LocalRouter (local_send ?reply ?r1))"
    using assms(2) handle_call_sealed [OF _ assms(4)] by (simp add: server_receive_sealed [OF assms(1)])
  moreover have "hm_get (local_send ?reply ?r1) RPC_CHANNEL = Some (sent @ [?call, ?reply])"
    using r1 by (simp add: local_send_def [of ?reply])
  ultimately show ?thesis
    using r1 client_receive_sealed [OF assms(2)]
    by (intro exI [of _ ?call] exI [of _ ?reply] exI [of _ ?cl1] exI [of _ ?r1] exI [of _ "local_send ?reply ?r1"])
      (simp add: handle_reply_def)
qed

text \<open>
  Across the network a call never comes back. The envelope of every call carries the default
  identity as its source, so the server addresses the reply to that identity, whoever called;
  the bytes of that identity are no peer identity, and the network task of the server panics on
  the command.
\<close>

theorem network_call_never_returns:
  assumes "carries c (Call call)" and "carries c (Reply \<lparr>rr_id = rc_id call, rr_result = result\<rparr>)"
    and "nr_local_id r \<noteq> node_id_default"
    and "enc ec (sealed c (Reply \<lparr>rr_id = rc_id call, rr_result = result\<rparr>) node_id_default) = Inr data"
    and "execute_call exs call node_id_default = Ok result" and "peer_from_bytes [] = None"
  shows "\<exists>msg. server_receive ec c exs (sealed c (Call call) dest) (NetworkRouter r) =
      (Ok (), NetworkRouter (r\<lparr>nr_commands := nr_commands r @ [NetSend data node_id_default]\<rparr>)) \<and>
    network_execute peer_from_bytes (NetSend data node_id_default) = Panic msg"
  using handle_call_sealed [OF assms(2,5)] assms(3,4,6)
  by (simp add: server_receive_sealed [OF assms(1)] network_send_def network_execute_def node_id_default_def)

section \<open>Correlation of calls and replies\<close>

text \<open>The inputs of a client: a call it makes, and a message of its stream.\<close>

datatype client_input = Calls nat rpc_id string "value" node_id | Receives rpc_message

definition client_step ::
  "u8 list message_envelope codec \<Rightarrow> rpc_message codec \<Rightarrow> client_input \<Rightarrow> rpc_client \<times> post_router \<Rightarrow> rpc_client \<times> post_router" where
  "client_step ec c inp st = (case inp of
      Calls now i name args dest \<Rightarrow> snd (client_call ec c now i name args dest st)
    | Receives msg \<Rightarrow> (client_receive c (sealed c msg node_id_default) (fst st), snd st))"

fun called :: "client_input list \<Rightarrow> rpc_id list" where
  "called [] = []"
| "called (Calls _ i _ _ _ # is) = i # called is"
| "called (Receives _ # is) = called is"

lemma client_call_tracks:
  "fst (snd (client_call ec c now i name args dest (cl, r))) = cl\<lparr>cl_tracked := hm_insert i now (cl_tracked cl)\<rparr>"
  by (auto simp: client_call_def Let_def split: prod.splits outcome.splits)

definition client_inv :: "rpc_id set \<Rightarrow> client_input list \<Rightarrow> rpc_client \<Rightarrow> bool" where
  "client_inv ids seen cl \<longleftrightarrow>
     distinct (map fst (cl_resolved cl)) \<and>
     (\<forall>i. hm_get (cl_tracked cl) i \<noteq> None \<longrightarrow> i \<in> ids \<and> i \<notin> fst ` set (cl_resolved cl)) \<and>
     (\<forall>(i, res) \<in> set (cl_resolved cl). i \<in> ids \<and> Receives (Reply \<lparr>rr_id = i, rr_result = res\<rparr>) \<in> set seen)"

lemma client_inv_call:
  assumes "client_inv ids seen cl" and "i \<notin> ids"
  shows "client_inv (insert i ids) (seen @ [Calls now i name args dest]) (cl\<lparr>cl_tracked := hm_insert i now (cl_tracked cl)\<rparr>)"
  using assms by (fastforce simp: client_inv_def)

lemma client_inv_reply:
  assumes "client_inv ids seen cl"
  shows "client_inv ids (seen @ [Receives (Reply reply)]) (handle_reply reply cl)"
proof (cases "hm_get (cl_tracked cl) (rr_id reply)")
  case None
  then show ?thesis using assms by (fastforce simp: client_inv_def handle_reply_def)
next
  case (Some t)
  have "reply = \<lparr>rr_id = rr_id reply, rr_result = rr_result reply\<rparr>" by simp
  with Some show ?thesis using assms by (fastforce simp: client_inv_def handle_reply_def)
qed

lemma client_inv_weaken: "client_inv ids seen cl \<Longrightarrow> client_inv ids (seen @ [inp]) cl"
  by (fastforce simp: client_inv_def)

lemma client_inv_step:
  assumes "\<forall>msg. inp = Receives msg \<longrightarrow> carries c msg" and "client_inv ids seen (fst st)"
    and "ids \<inter> set (called [inp]) = {}"
  shows "client_inv (ids \<union> set (called [inp])) (seen @ [inp]) (fst (client_step ec c inp st))"
proof (cases inp)
  case (Calls now i name args dest)
  then show ?thesis
    using assms client_inv_call [of ids seen "fst st" i now name args dest]
    by (cases st) (simp add: client_step_def client_call_tracks)
next
  case (Receives msg)
  then show ?thesis
    using assms(2) client_inv_reply [of ids seen "fst st"] client_inv_weaken [of ids seen "fst st" inp]
      assms(1)
    by (cases msg) (simp_all add: client_step_def client_receive_def open_sealed)
qed

lemma called_append: "called (xs @ ys) = called xs @ called ys"
  by (induction xs rule: called.induct) simp_all

lemma client_inv_run:
  assumes "\<forall>msg. Receives msg \<in> set inps \<longrightarrow> carries c msg"
    and "client_inv ids seen (fst st)" and "distinct (called inps)" and "ids \<inter> set (called inps) = {}"
  shows "client_inv (ids \<union> set (called inps)) (seen @ inps) (fst (fold (client_step ec c) inps st))"
  using assms
proof (induction inps arbitrary: ids seen st)
  case Nil
  then show ?case by simp
next
  case (Cons inp inps)
  have split: "called (inp # inps) = called [inp] @ called inps" using called_append [of "[inp]" inps] by simp
  have fresh: "ids \<inter> set (called [inp]) = {}" using Cons.prems(4) unfolding split by auto
  have "client_inv (ids \<union> set (called [inp]) \<union> set (called inps)) ((seen @ [inp]) @ inps)
      (fst (fold (client_step ec c) inps (client_step ec c inp st)))"
    by (rule Cons.IH [OF _ client_inv_step [OF _ Cons.prems(2) fresh]])
      (use Cons.prems(1,3,4) in \<open>auto simp: split\<close>)
  then show ?case by (simp add: split Un_assoc)
qed

text \<open>
  C11: whatever replies and acknowledgements reach a client, in whatever order and however often,
  each call is resolved at most once, only a call that was made is resolved, and it is resolved
  with the result of a reply that carries its identifier.
\<close>

theorem calls_resolved_once:
  assumes "\<forall>msg. Receives msg \<in> set inps \<longrightarrow> carries c msg" and "distinct (called inps)"
  shows "let cl = fst (fold (client_step ec c) inps (\<lparr>cl_tracked = [], cl_resolved = []\<rparr>, r)) in
    distinct (map fst (cl_resolved cl)) \<and>
    (\<forall>(i, res) \<in> set (cl_resolved cl). i \<in> set (called inps) \<and>
      Receives (Reply \<lparr>rr_id = i, rr_result = res\<rparr>) \<in> set inps)"
  using client_inv_run [OF assms(1) _ assms(2), of "{}" "[]" "(\<lparr>cl_tracked = [], cl_resolved = []\<rparr>, r)"]
  by (simp add: client_inv_def Let_def)

section \<open>Subscriptions\<close>

text \<open>An event reaches the channel of each of its topics that is subscribed, and no other.\<close>

lemma emit_reaches_topics:
  assumes "to_vec ev = Inr data" and "hm_get (eb_topics b) t = Some sent"
  shows "hm_get (eb_topics (snd (bus_emit to_vec event_id topics ev b))) t =
    Some (sent @ replicate (count_list (topics ev) t) \<lparr>ee_id = event_id ev, ee_topic = t, ee_payload = data\<rparr>)"
proof -
  define body where "body = (\<lambda>topic (b :: event_bus). case to_vec ev of
        Inl _ \<Rightarrow> (Panic ''called `Result::unwrap()` on an `Err` value'' :: (error, unit) outcome, b)
      | Inr data \<Rightarrow> (Ok (), router_emit \<lparr>ee_id = event_id ev, ee_topic = topic, ee_payload = data\<rparr> b))"
  have "hm_get (eb_topics (snd (for_each ts body b))) t =
      Some (sent @ replicate (count_list ts t) \<lparr>ee_id = event_id ev, ee_topic = t, ee_payload = data\<rparr>)" for ts
    using assms(2)
  proof (induction ts arbitrary: b sent)
    case (Cons u us)
    have step: "body u b = (Ok (), router_emit \<lparr>ee_id = event_id ev, ee_topic = u, ee_payload = data\<rparr> b)" for b
      by (simp add: body_def assms(1))
    have "hm_get (eb_topics (router_emit \<lparr>ee_id = event_id ev, ee_topic = u, ee_payload = data\<rparr> b)) t =
        Some (if u = t then sent @ [\<lparr>ee_id = event_id ev, ee_topic = t, ee_payload = data\<rparr>] else sent)"
      using Cons.prems by (auto simp: router_emit_def net_push_def split: option.splits)
    from Cons.IH [OF this] show ?case by (simp add: seq_def bind_def step)
  qed simp
  then show ?thesis by (simp add: bus_emit_def body_def)
qed

text \<open>
  No subscriber receives an event. An event reaches the channel of each of its topics that is
  subscribed, but its payload is the JSON of the event, an object with the name of the variant as
  its only field, and a subscription decodes the payload as an envelope with three fields. The only
  hypotheses are that the event is encoded, that parsing the text of a JSON value gives the value
  back and that the topic has a channel.
\<close>

theorem emitted_events_dropped:
  assumes json: "\<And>v bytes. render v = Inr bytes \<Longrightarrow> parse bytes = Inr v"
    and encoded: "render (VObject [(variant, content)]) = Inr data"
    and channel: "hm_get (eb_topics b) t = Some sent"
  shows "let b' = snd (bus_emit (\<lambda>_. render (VObject [(variant, content)])) event_id topics ev b);
      from_slice = (\<lambda>bytes. case parse bytes of Inl e \<Rightarrow> Inl e | Inr v \<Rightarrow> envelope_from_value from_value v)
    in \<exists>news. hm_get (eb_topics b') t = Some (sent @ news) \<and>
      length news = count_list (topics ev) t \<and>
      subscription_filter from_slice t news = []"
proof -
  have "parse data = Inr (VObject [(variant, content)])" by (rule json [OF encoded])
  then have "(case parse data of Inl e \<Rightarrow> Inl e | Inr v \<Rightarrow> envelope_from_value from_value v) =
      Inl ''missing or invalid field''"
    by (cases content) (auto simp: envelope_from_value_def envelope_fields_def)
  then have "subscription_filter (\<lambda>bytes. case parse bytes of Inl e \<Rightarrow> Inl e | Inr v \<Rightarrow> envelope_from_value from_value v)
      t (replicate n \<lparr>ee_id = event_id ev, ee_topic = t, ee_payload = data\<rparr>) = []" for n
    by (induction n) (simp_all add: subscription_filter_def List.map_filter_def)
  then show ?thesis
    using emit_reaches_topics [where to_vec = "\<lambda>_. render (VObject [(variant, content)])" and
        ev = ev and topics = topics and event_id = event_id, OF encoded channel]
    by (simp add: Let_def)
qed

text \<open>A topic with two subscriptions is never released, however many of them end.\<close>

lemma dec_sub_never_releases:
  assumes "hm_get (eb_counter b) t = Some n" and "2 \<le> n"
  shows "eb_topics ((dec_sub t ^^ k) b) = eb_topics b \<and> hm_get (eb_counter ((dec_sub t ^^ k) b)) t = Some n"
proof (induction k)
  case (Suc k)
  have "n \<noteq> 0" "n - 1 \<noteq> 0" using assms(2) by (auto simp: word_le_nat_alt)
  then show ?case using Suc by (simp add: dec_sub_def Let_def)
qed (use assms in simp)

section \<open>Examples\<close>

definition example_call :: rpc_call where
  "example_call = \<lparr>rc_id = RpcId (ID 0 1), rc_name = ''echo'', rc_args = VString ''hello''\<rparr>"

definition example_reply :: rpc_reply where
  "example_reply = \<lparr>rr_id = RpcId (ID 0 1), rr_result = Inr (VString ''hello'')\<rparr>"

definition example_codec :: "rpc_message codec" where
  "example_codec =
     \<lparr>enc = (\<lambda>m. if m = Call example_call then Inr [1] else if m = Reply example_reply then Inr [2] else Inl ''unsupported''),
      dec = (\<lambda>d. if d = [1] then Inr (Call example_call) else if d = [2] then Inr (Reply example_reply) else Inl ''invalid'')\<rparr>"

definition raw_codec :: "u8 list message_envelope codec" where
  "raw_codec = \<lparr>enc = (\<lambda>env. Inr (mv_payload env)), dec = (\<lambda>d. Inl ''unused'')\<rparr>"

definition example_executors :: rpc_executors where
  "example_executors = [(''echo'', \<lambda>v _. Ok v)]"

lemma example_carries: "carries example_codec (Call example_call)" "carries example_codec (Reply example_reply)"
  by (simp_all add: carries_def example_codec_def)

lemma example_executes: "execute_call example_executors example_call n = Ok (Inr (VString ''hello''))"
  by (simp add: execute_call_def example_executors_def example_call_def)

theorem local_call_returns_witness:
  "\<exists>call reply cl1 r1 r2.
    client_call raw_codec example_codec 0 (RpcId (ID 0 1)) ''echo'' (VString ''hello'') (NodeId [1])
      (\<lparr>cl_tracked = [], cl_resolved = []\<rparr>, LocalRouter [(RPC_CHANNEL, [])]) = (Ok (), (cl1, LocalRouter r1)) \<and>
    hm_get r1 RPC_CHANNEL = Some [call] \<and>
    server_receive raw_codec example_codec example_executors call (LocalRouter r1) = (Ok (), LocalRouter r2) \<and>
    cl_resolved (client_receive example_codec reply cl1) = [(RpcId (ID 0 1), Inr (VString ''hello''))]"
  using local_call_returns [OF example_carries [unfolded example_call_def example_reply_def], of "[(RPC_CHANNEL, [])]" "[]"
      example_executors raw_codec 0 "NodeId [1]" "\<lparr>cl_tracked = [], cl_resolved = []\<rparr>"]
    example_executes [unfolded example_call_def]
  by simp blast

theorem network_call_never_returns_witness:
  "\<exists>msg. server_receive raw_codec example_codec example_executors (sealed example_codec (Call example_call) (NodeId [1]))
      (NetworkRouter \<lparr>nr_local_id = NodeId [1], nr_local = [], nr_commands = []\<rparr>) =
      (Ok (), NetworkRouter \<lparr>nr_local_id = NodeId [1], nr_local = [], nr_commands = [NetSend [2] node_id_default]\<rparr>) \<and>
    network_execute (\<lambda>bs. if bs = [] then None else Some bs) (NetSend [2] node_id_default) = Panic msg"
proof -
  have reply: "\<lparr>rr_id = rc_id example_call, rr_result = Inr (VString ''hello'')\<rparr> = example_reply"
    by (simp add: example_call_def example_reply_def)
  show ?thesis
    using network_call_never_returns [of example_codec example_call "Inr (VString ''hello'')"
        "\<lparr>nr_local_id = NodeId [1], nr_local = [], nr_commands = []\<rparr>" raw_codec "[2]" example_executors
        "\<lambda>bs. if bs = [] then None else Some bs" "NodeId [1]"]
      example_carries example_executes
    by (simp add: reply raw_codec_def sealed_def example_codec_def node_id_default_def)
qed

theorem calls_resolved_once_witness:
  "let inps = [Calls 0 (RpcId (ID 0 1)) ''echo'' VNull (NodeId [1]), Receives (Reply example_reply), Receives (Reply example_reply)];
     cl = fst (fold (client_step raw_codec example_codec) inps (\<lparr>cl_tracked = [], cl_resolved = []\<rparr>, LocalRouter [])) in
   cl_resolved cl = [(RpcId (ID 0 1), Inr (VString ''hello''))] \<and> distinct (map fst (cl_resolved cl))"
proof -
  let ?inps = "[Calls 0 (RpcId (ID 0 1)) ''echo'' VNull (NodeId [1]), Receives (Reply example_reply), Receives (Reply example_reply)]"
  have "cl_resolved (fst (fold (client_step raw_codec example_codec) ?inps (\<lparr>cl_tracked = [], cl_resolved = []\<rparr>, LocalRouter []))) =
      [(RpcId (ID 0 1), Inr (VString ''hello''))]"
    by code_simp
  then show ?thesis
    using calls_resolved_once [of ?inps example_codec raw_codec "LocalRouter []"] example_carries
    by (simp add: Let_def)
qed

definition example_render :: "value \<Rightarrow> string + u8 list" where
  "example_render v = (if v = VObject [(''JobUpdate'', VNull)] then Inr [1] else Inl ''unsupported'')"

definition example_parse :: "u8 list \<Rightarrow> string + value" where
  "example_parse bytes = (if bytes = [1] then Inr (VObject [(''JobUpdate'', VNull)]) else Inl ''invalid'')"

theorem emitted_events_dropped_witness:
  "let b' = snd (bus_emit (\<lambda>_. example_render (VObject [(''JobUpdate'', VNull)])) (\<lambda>_. ''1'') (\<lambda>_. [''t'']) ()
        (bus_stream_events ''t'' event_bus_local));
      from_slice = (\<lambda>bytes. case example_parse bytes of Inl e \<Rightarrow> Inl e | Inr v \<Rightarrow> envelope_from_value Inr v)
    in \<exists>news. hm_get (eb_topics b') ''t'' = Some ([] @ news) \<and>
      length news = count_list [''t''] ''t'' \<and>
      subscription_filter from_slice ''t'' news = []"
proof (rule emitted_events_dropped)
  show "example_render v = Inr bytes \<Longrightarrow> example_parse bytes = Inr v" for v bytes
    by (auto simp: example_render_def example_parse_def split: if_splits)
  show "example_render (VObject [(''JobUpdate'', VNull)]) = Inr [1]" by (simp add: example_render_def)
  show "hm_get (eb_topics (bus_stream_events ''t'' event_bus_local)) ''t'' = Some []"
    by (simp add: bus_stream_events_def event_bus_local_def topic_channel_def inc_sub_def router_subscribe_def
        net_push_def Let_def)
qed

end
