(* ===== verification/Session_Controller.thy ===== *)
theory Session_Controller
  imports Checkpointer Selection Messaging
begin

text \<open>
  The task of a checkpointer (\<^verbatim>\<open>new\<close>, \<^verbatim>\<open>run\<close>, \<^verbatim>\<open>close\<close> and \<^verbatim>\<open>send_ckp_event\<close> of
  \<^verbatim>\<open>marie-core/src/session/checkpointer/mod.rs\<close>), the controller that caches checkpointers and routes
  the events of the sessions to them (\<^verbatim>\<open>session/controller.rs\<close>, \<^verbatim>\<open>checkpointer/factory.rs\<close>) and the
  client of a session (\<^verbatim>\<open>session/client.rs\<close>).

  Tasks interleave: a step of the system is one step of one task, or one call on the controller.
  The processing of an event is one step.
\<close>

section \<open>The task of a checkpointer\<close>

datatype ckp_status = Initialising | CkpRunning | Closing | Closed

text \<open>
  Where the task is: not started, in a round of its \<^verbatim>\<open>select!\<close>, processing what is left of the
  queue, done, or ended by a panic. In a round the flag tells whether the status is still waited
  for: when the status stream yields anything but \<^verbatim>\<open>Closing\<close> its branch is disabled until the next
  round, which only an event starts.
\<close>

datatype ckp_phase = Spawned | Looping bool | Draining | Finished | Aborted

text \<open>
  A checkpointer with its task: the queue of its events, the watched status and whether the task
  has seen it, and the number of handles held outside the task.
\<close>

record ckp_cell =
  cc_ckp :: checkpointer
  cc_status :: ckp_status
  cc_seen :: bool
  cc_queue :: "checkpoint_event list"
  cc_phase :: ckp_phase
  cc_handles :: nat

definition cell_new :: "checkpointer \<Rightarrow> ckp_cell" where
  "cell_new k = \<lparr>cc_ckp = k, cc_status = Initialising, cc_seen = False, cc_queue = [], cc_phase = Spawned,
     cc_handles = 1\<rparr>"

definition task_ended :: "ckp_cell \<Rightarrow> bool" where
  "task_ended c \<longleftrightarrow> cc_phase c = Finished \<or> cc_phase c = Aborted"

text \<open>Every handle holds a sender of the queue, and so does the task, which owns a clone.\<close>

definition cc_senders :: "ckp_cell \<Rightarrow> nat" where
  "cc_senders c = cc_handles c + (if task_ended c then 0 else 1)"

definition set_ckp_status :: "ckp_status \<Rightarrow> ckp_cell \<Rightarrow> ckp_cell" where
  "set_ckp_status st c = c\<lparr>cc_status := st, cc_seen := False\<rparr>"

definition send_ckp_event :: "checkpoint_event \<Rightarrow> ckp_cell \<Rightarrow> ckp_cell" where
  "send_ckp_event ev c = (if task_ended c then c else c\<lparr>cc_queue := cc_queue c @ [ev]\<rparr>)"

definition close_request :: "ckp_cell \<Rightarrow> ckp_cell" where
  "close_request c = set_ckp_status Closing c"

text \<open>The end of the task: the session is flushed, the result is dropped, the status is closed.\<close>

definition end_task :: "ckp_cell \<Rightarrow> ckp_cell" where
  "end_task c = (case ignore flush_session (cc_ckp c) of
      (Panic p, k) \<Rightarrow> c\<lparr>cc_ckp := k, cc_phase := Aborted\<rparr>
    | (_, k) \<Rightarrow> set_ckp_status Closed (c\<lparr>cc_ckp := k, cc_phase := Finished\<rparr>))"

definition is_panic :: "('e, 'a) outcome \<Rightarrow> bool" where
  "is_panic r = (case r of Panic _ \<Rightarrow> True | _ \<Rightarrow> False)"

datatype ckp_action =
    Start
  | SeeStatus
  | SeeClosing
  | Receive checkpoint_event "(session_error, unit) outcome"
  | Drain checkpoint_event "(session_error, unit) outcome"
  | QueueClosed
  | SendEvent checkpoint_event
  | RequestClose
  | CloneHandle
  | DropHandle

inductive ckp_step :: "ckp_env \<Rightarrow> ckp_cell \<Rightarrow> ckp_action \<Rightarrow> ckp_cell \<Rightarrow> bool" for env where
  start: "cc_phase c = Spawned \<Longrightarrow>
    ckp_step env c Start (set_ckp_status CkpRunning (c\<lparr>cc_phase := Looping True\<rparr>))"
| see_status: "cc_phase c = Looping True \<Longrightarrow> \<not> cc_seen c \<Longrightarrow> cc_status c \<noteq> Closing \<Longrightarrow>
    ckp_step env c SeeStatus (c\<lparr>cc_phase := Looping False, cc_seen := True\<rparr>)"
| see_closing: "cc_phase c = Looping True \<Longrightarrow> \<not> cc_seen c \<Longrightarrow> cc_status c = Closing \<Longrightarrow>
    ckp_step env c SeeClosing (c\<lparr>cc_phase := Draining, cc_seen := True\<rparr>)"
| receive: "cc_phase c = Looping b \<Longrightarrow> cc_queue c = ev # q \<Longrightarrow> process_event env ev (cc_ckp c) = (r, k) \<Longrightarrow>
    ckp_step env c (Receive ev r)
      (c\<lparr>cc_queue := q, cc_ckp := k, cc_phase := (if is_panic r then Aborted else Looping True)\<rparr>)"
| drain: "cc_phase c = Draining \<Longrightarrow> cc_queue c = ev # q \<Longrightarrow> process_event env ev (cc_ckp c) = (Ok (), k) \<Longrightarrow>
    ckp_step env c (Drain ev (Ok ())) (c\<lparr>cc_queue := q, cc_ckp := k\<rparr>)"
| drain_error: "cc_phase c = Draining \<Longrightarrow> cc_queue c = ev # q \<Longrightarrow>
    process_event env ev (cc_ckp c) = (Err e, k) \<Longrightarrow>
    ckp_step env c (Drain ev (Err e)) (end_task (c\<lparr>cc_queue := q, cc_ckp := k\<rparr>))"
| drain_panic: "cc_phase c = Draining \<Longrightarrow> cc_queue c = ev # q \<Longrightarrow>
    process_event env ev (cc_ckp c) = (Panic p, k) \<Longrightarrow>
    ckp_step env c (Drain ev (Panic p)) (c\<lparr>cc_queue := q, cc_ckp := k, cc_phase := Aborted\<rparr>)"
| queue_closed: "cc_phase c = Draining \<Longrightarrow> cc_queue c = [] \<Longrightarrow> cc_senders c = 0 \<Longrightarrow>
    ckp_step env c QueueClosed (end_task c)"
| send: "0 < cc_handles c \<Longrightarrow> ckp_step env c (SendEvent ev) (send_ckp_event ev c)"
| close: "0 < cc_handles c \<Longrightarrow> ckp_step env c RequestClose (close_request c)"
| clone: "0 < cc_handles c \<Longrightarrow> ckp_step env c CloneHandle (c\<lparr>cc_handles := Suc (cc_handles c)\<rparr>)"
| drop: "cc_handles c = Suc n \<Longrightarrow> ckp_step env c DropHandle (c\<lparr>cc_handles := n\<rparr>)"

inductive ckp_runs :: "ckp_env \<Rightarrow> ckp_cell \<Rightarrow> ckp_action list \<Rightarrow> ckp_cell \<Rightarrow> bool" for env c where
  run_none: "ckp_runs env c [] c"
| run_step: "ckp_runs env c as c' \<Longrightarrow> ckp_step env c' a c'' \<Longrightarrow> ckp_runs env c (as @ [a]) c''"

fun task_action :: "ckp_action \<Rightarrow> bool" where
  "task_action (SendEvent ev) \<longleftrightarrow> False"
| "task_action RequestClose \<longleftrightarrow> False"
| "task_action CloneHandle \<longleftrightarrow> False"
| "task_action DropHandle \<longleftrightarrow> False"
| "task_action _ \<longleftrightarrow> True"

lemmas cell_defs = set_ckp_status_def send_ckp_event_def close_request_def

lemma senders_positive: "\<not> task_ended c \<Longrightarrow> 0 < cc_senders c"
  by (simp add: cc_senders_def)

lemma end_task_status: "cc_status (end_task c) = Closed \<or> cc_status (end_task c) = cc_status c"
  by (simp add: end_task_def set_ckp_status_def split: outcome.split prod.split)

lemma closed_step:
  assumes "ckp_step env c a c'" and "cc_status c' = Closed" and "cc_status c \<noteq> Closed"
  shows "\<exists>ev e. a = Drain ev (Err e)"
  using assms by (cases rule: ckp_step.cases) (auto simp: cell_defs cc_senders_def task_ended_def split: if_splits)

text \<open>
  C30: the task of a checkpointer closes only through an error: whatever was sent to it and however
  often it was asked to close, its status becomes closed only when an event processed while
  closing failed. A close with nothing left to process waits for ever, because the task holds a
  sender of the queue it drains.
\<close>

theorem closed_only_after_error:
  assumes "ckp_runs env (cell_new k) as c" and "cc_status c = Closed"
  shows "\<exists>ev e. Drain ev (Err e) \<in> set as"
  using assms
proof (induction rule: ckp_runs.induct)
  case run_none
  then show ?case by (simp add: cell_new_def)
next
  case (run_step as c' a c'')
  then show ?case
    using closed_step [of env c' a c''] by (cases "cc_status c' = Closed") auto
qed


section \<open>The controller\<close>

text \<open>
  The stores are shared by the controller and every checkpointer. Each spawned checkpointer is a
  cell; the cache maps a session to its cell. A deletion that waits for a cell to close is listed
  until it does.
\<close>

record controller =
  sc_table :: sessions_table
  sc_frames :: frame_store
  sc_snapshots :: snapshot_store
  sc_hitls :: hitl_store
  sc_ids :: "nat id_generator"
  sc_queue :: "checkpoint_event list"
  sc_bus :: "session_event list"
  sc_cells :: "ckp_cell list"
  sc_cache :: "(session_id, nat) hash_map"
  sc_deleting :: "(session_id \<times> nat) list"

type_synonym 'a controller_prog = "(controller, session_error, 'a) prog"

definition controller_new ::
  "sessions_table \<Rightarrow> frame_store \<Rightarrow> snapshot_store \<Rightarrow> hitl_store \<Rightarrow> nat id_generator \<Rightarrow> controller" where
  "controller_new table frames snaps hitls ids =
     \<lparr>sc_table = table, sc_frames = frames, sc_snapshots = snaps, sc_hitls = hitls, sc_ids = ids, sc_queue = [],
      sc_bus = [], sc_cells = [], sc_cache = [], sc_deleting = []\<rparr>"

definition factory_create :: "nat id_generator \<Rightarrow> controller \<Rightarrow> session \<Rightarrow> ckp_cell" where
  "factory_create ids k sess = cell_new (checkpointer_new sess
     (frame_tree_new (sc_frames k) (s_id sess)) (session_snapshots_new (sc_snapshots k) (s_id sess))
     \<lparr>sh_ids = ids, sh_store = sc_hitls k, sh_events = [], sh_session = s_id sess\<rparr> ids (sc_table k))"

text \<open>The body of \<^verbatim>\<open>initialise_as_new\<close> is empty.\<close>

definition initialise_as_new :: "new_session_args \<Rightarrow> (session_error, unit) outcome" where
  "initialise_as_new args = Ok ()"

definition controller_reply_hitl :: "session_id \<Rightarrow> hitl_id \<Rightarrow> answers \<Rightarrow> unit controller_prog" where
  "controller_reply_hitl sid hid as =
     modify (\<lambda>k. k\<lparr>sc_queue := sc_queue k @ [HitlAnsweredEv sid hid as]\<rparr>)"

text \<open>The new checkpointer is not put in the cache; its only outside handle is dropped on return.\<close>

definition controller_create_session ::
  "nat id_generator \<Rightarrow> (nat \<Rightarrow> u64) \<Rightarrow> timestamp \<Rightarrow> timestamp \<Rightarrow> new_session_args \<Rightarrow> session_id controller_prog" where
  "controller_create_session ids draw now1 now2 args k =
     (let (i, g) = draw_id draw (sc_ids k);
          sid = SessionId i;
          cell = factory_create ids k (session_new now1 now2 sid)
      in (case initialise_as_new args of Ok _ \<Rightarrow> Ok sid | Err e \<Rightarrow> Err e | Panic p \<Rightarrow> Panic p,
          k\<lparr>sc_ids := g, sc_cells := sc_cells k @ [cell\<lparr>cc_handles := 0\<rparr>]\<rparr>))"

definition controller_list_sessions :: "session list controller_prog" where
  "controller_list_sessions = gets (\<lambda>k. list_sessions (sc_table k))"

definition instantiate_session_ckp :: "nat id_generator \<Rightarrow> session_id \<Rightarrow> controller \<Rightarrow> error + ckp_cell" where
  "instantiate_session_ckp ids sid k = map_sum id (factory_create ids k) (get_session (sc_table k) sid)"

definition controller_get :: "nat id_generator \<Rightarrow> session_id \<Rightarrow> nat controller_prog" where
  "controller_get ids sid k = (case hm_get (sc_cache k) sid of
      Some i \<Rightarrow> (Ok i, k)
    | None \<Rightarrow> (case instantiate_session_ckp ids sid k of
          Inl e \<Rightarrow> (Err (StorageFailure e), k)
        | Inr cell \<Rightarrow> (Ok (length (sc_cells k)),
            k\<lparr>sc_cells := sc_cells k @ [cell], sc_cache := hm_insert sid (length (sc_cells k)) (sc_cache k)\<rparr>)))"

text \<open>The future of \<^verbatim>\<open>send_ckp_event\<close> is not awaited: only the lookup takes place.\<close>

definition process_checkpoint_event :: "nat id_generator \<Rightarrow> checkpoint_event \<Rightarrow> unit controller_prog" where
  "process_checkpoint_event ids ev k = (case controller_get ids (checkpoint_session_id ev) k of
      (Ok i, k') \<Rightarrow> (Ok (), k')
    | (Err e, k') \<Rightarrow> (Ok (), k')
    | (Panic p, k') \<Rightarrow> (Panic p, k'))"

definition process_session_event :: "nat id_generator \<Rightarrow> session_event \<Rightarrow> unit controller_prog" where
  "process_session_event ids ev = (case ev of
      HitlEvent (HitlAnswered sid hid as) \<Rightarrow> process_checkpoint_event ids (HitlAnsweredEv sid hid as)
    | _ \<Rightarrow> ret ())"

text \<open>A session that leaves the cache is asked to close; the listener keeps its handle meanwhile.\<close>

definition evict_session :: "session_id \<Rightarrow> nat \<Rightarrow> controller \<Rightarrow> controller" where
  "evict_session sid i k = k\<lparr>sc_cache := hm_remove sid (sc_cache k),
     sc_cells := (sc_cells k)[i := close_request (sc_cells k ! i)]\<rparr>"

definition delete_session_row :: "session_id \<Rightarrow> unit controller_prog" where
  "delete_session_row sid k = (case delete_session sid (sc_table k) of
      Inl e \<Rightarrow> (Err (StorageFailure e), k)
    | Inr (s, table) \<Rightarrow> (Ok (), k\<lparr>sc_table := table\<rparr>))"

text \<open>\<^verbatim>\<open>invalidate\<close> waits for the listener, so the row of a cached session is deleted once it closed.\<close>

definition controller_delete_session :: "session_id \<Rightarrow> controller \<Rightarrow> controller" where
  "controller_delete_session sid k = (case hm_get (sc_cache k) sid of
      None \<Rightarrow> snd (delete_session_row sid k)
    | Some i \<Rightarrow> (evict_session sid i k)\<lparr>sc_deleting := sc_deleting k @ [(sid, i)]\<rparr>)"

section \<open>The system\<close>

definition lend :: "controller \<Rightarrow> ckp_cell \<Rightarrow> ckp_cell" where
  "lend k c = c\<lparr>cc_ckp := (cc_ckp c)\<lparr>ck_table := sc_table k,
     ck_frames := (ck_frames (cc_ckp c))\<lparr>ft_store := sc_frames k\<rparr>,
     ck_snapshots := (ck_snapshots (cc_ckp c))\<lparr>sn_store := sc_snapshots k\<rparr>,
     ck_hitls := (ck_hitls (cc_ckp c))\<lparr>sh_store := sc_hitls k\<rparr>\<rparr>\<rparr>"

text \<open>After a step of its task a checkpointer has written the stores and sent what it emitted.\<close>

definition reclaim :: "nat \<Rightarrow> ckp_cell \<Rightarrow> controller \<Rightarrow> controller" where
  "reclaim i c k = (let ck = cc_ckp c in
     k\<lparr>sc_table := ck_table ck, sc_frames := ft_store (ck_frames ck), sc_snapshots := sn_store (ck_snapshots ck),
       sc_hitls := sh_store (ck_hitls ck), sc_queue := sc_queue k @ ck_emitted ck, sc_bus := sc_bus k @ ck_bus ck,
       sc_cells := (sc_cells k)[i := c\<lparr>cc_ckp := ck\<lparr>ck_emitted := [], ck_bus := []\<rparr>\<rparr>]\<rparr>)"

inductive ctl_step :: "ckp_env \<Rightarrow> nat id_generator \<Rightarrow> controller \<Rightarrow> controller \<Rightarrow> bool" for env ids where
  create: "controller_create_session ids (ev_draw env) now1 now2 args k = (r, k') \<Longrightarrow> ctl_step env ids k k'"
| reply: "controller_reply_hitl sid hid as k = (r, k') \<Longrightarrow> ctl_step env ids k k'"
| from_bus: "process_session_event ids ev k = (r, k') \<Longrightarrow> ctl_step env ids k k'"
| from_queue: "sc_queue k = ev # q \<Longrightarrow> process_checkpoint_event ids ev (k\<lparr>sc_queue := q\<rparr>) = (r, k') \<Longrightarrow>
    ctl_step env ids k k'"
| evict: "hm_get (sc_cache k) sid = Some i \<Longrightarrow> ctl_step env ids k (evict_session sid i k)"
| delete: "ctl_step env ids k (controller_delete_session sid k)"
| deleted: "(sid, i) \<in> set (sc_deleting k) \<Longrightarrow> i < length (sc_cells k) \<Longrightarrow> cc_status (sc_cells k ! i) = Closed \<Longrightarrow>
    delete_session_row sid (k\<lparr>sc_deleting := remove1 (sid, i) (sc_deleting k)\<rparr>) = (r, k') \<Longrightarrow> ctl_step env ids k k'"
| task: "i < length (sc_cells k) \<Longrightarrow> ckp_step env (lend k (sc_cells k ! i)) a c \<Longrightarrow> task_action a \<Longrightarrow>
    ctl_step env ids k (reclaim i c k)"

inductive ctl_reachable :: "ckp_env \<Rightarrow> nat id_generator \<Rightarrow> controller \<Rightarrow> controller \<Rightarrow> bool" for env ids k where
  reach_init: "ctl_reachable env ids k k"
| reach_step: "ctl_reachable env ids k k' \<Longrightarrow> ctl_step env ids k' k'' \<Longrightarrow> ctl_reachable env ids k k''"

section \<open>Remote procedures and the client of a session\<close>

text \<open>Both procedures turn an error of the controller into its text.\<close>

definition error_text :: "(session_error, 'a) outcome \<Rightarrow> (session_error, string + 'a) outcome" where
  "error_text r = (case r of
      Ok a \<Rightarrow> Ok (Inr a)
    | Err e \<Rightarrow> (case session_error_text e of Ok m \<Rightarrow> Ok (Inl m) | Err e' \<Rightarrow> Err e' | Panic p \<Rightarrow> Panic p)
    | Panic p \<Rightarrow> Panic p)"

definition rpc_create_session ::
  "nat id_generator \<Rightarrow> (nat \<Rightarrow> u64) \<Rightarrow> timestamp \<Rightarrow> timestamp \<Rightarrow> new_session_args \<Rightarrow> (string + session_id) controller_prog" where
  "rpc_create_session ids draw now1 now2 args k =
     (case controller_create_session ids draw now1 now2 args k of (r, k') \<Rightarrow> (error_text r, k'))"

definition rpc_reply_hitl :: "session_id \<Rightarrow> hitl_id \<Rightarrow> answers \<Rightarrow> (string + unit) controller_prog" where
  "rpc_reply_hitl sid hid as k = (case controller_reply_hitl sid hid as k of (r, k') \<Rightarrow> (error_text r, k'))"

datatype session_client_error = RpcCallFailed rpc_error | NoControllerFound

record session_client =
  se_session_id :: session_id
  se_annuary :: annuary
  se_table :: sessions_table
  se_logs :: log_store
  se_hitls :: hitl_store

fun session_id_bytes :: "session_id \<Rightarrow> u8 list" where
  "session_id_bytes (SessionId i) = id_as_bytes i"

text \<open>
  The remote call acts on the cluster, of type \<open>'n\<close>. The answer of the procedure itself is dropped:
  only a failure of the call is reported.
\<close>

type_synonym 'n hitl_invoke =
  "session_id \<Rightarrow> hitl_id \<Rightarrow> answers \<Rightarrow> node_id list \<Rightarrow> 'n \<Rightarrow> (rpc_error + (string + unit)) \<times> 'n"

definition hitl_reply ::
  "(f64 \<Rightarrow> f64) \<Rightarrow> 'n hitl_invoke \<Rightarrow> session_client \<Rightarrow> hitl_id \<Rightarrow> answers \<Rightarrow> ('n, session_client_error, unit) prog" where
  "hitl_reply ln invoke cl hid as = (\<lambda>cluster.
     case annuary_pick_top_n ln (se_annuary cl) (session_id_bytes (se_session_id cl))
             (capabilities_from SessionOrchestrator) 1 of
        [] \<Rightarrow> (Err NoControllerFound, cluster)
      | n # _ \<Rightarrow> (case invoke (se_session_id cl) hid as [n] cluster of
            (Inl e, cluster') \<Rightarrow> (Err (RpcCallFailed e), cluster')
          | (Inr _, cluster') \<Rightarrow> (Ok (), cluster')))"

definition client_get_session :: "session_client \<Rightarrow> (session_error, session_view) outcome" where
  "client_get_session cl =
     (case get_session_view (se_table cl) (se_logs cl) (se_hitls cl) (se_session_id cl) of
        Inl e \<Rightarrow> Err (StorageFailure e)
      | Inr v \<Rightarrow> Ok v)"

section \<open>What the system does\<close>

text \<open>A cell that was never given anything to do.\<close>

definition quiet :: "ckp_cell \<Rightarrow> bool" where
  "quiet c \<longleftrightarrow> cc_queue c = [] \<and> \<not> task_ended c \<and> cc_status c \<noteq> Closed \<and>
     ck_jobs (cc_ckp c) = [] \<and> ck_emitted (cc_ckp c) = [] \<and> ck_bus (cc_ckp c) = []"

lemma quiet_lend [simp]: "quiet (lend k c) \<longleftrightarrow> quiet c"
  by (simp add: quiet_def lend_def task_ended_def)

lemma quiet_close: "quiet c \<Longrightarrow> quiet (close_request c)"
  by (simp add: quiet_def cell_defs task_ended_def)

lemma quiet_create: "quiet (factory_create ids k s)" "quiet (factory_create ids k s\<lparr>cc_handles := 0\<rparr>)"
  by (simp_all add: quiet_def factory_create_def cell_new_def checkpointer_new_def task_ended_def)

lemma quiet_step:
  assumes "ckp_step env c a c'" and "quiet c" and "task_action a"
  shows "quiet c' \<and> cc_ckp c' = cc_ckp c"
  using assms by (cases rule: ckp_step.cases) (auto simp: quiet_def cell_defs task_ended_def cc_senders_def)

lemma reclaim_lend:
  assumes "cc_ckp c = cc_ckp (lend k d)" and "quiet d"
  shows "reclaim i c k = k\<lparr>sc_cells := (sc_cells k)[i := c]\<rparr>"
proof -
  have ck: "ck_emitted (cc_ckp c) = []" "ck_bus (cc_ckp c) = []" "ck_table (cc_ckp c) = sc_table k"
    "ft_store (ck_frames (cc_ckp c)) = sc_frames k" "sn_store (ck_snapshots (cc_ckp c)) = sc_snapshots k"
    "sh_store (ck_hitls (cc_ckp c)) = sc_hitls k"
    using assms by (simp_all add: lend_def quiet_def)
  have eq: "(cc_ckp c)\<lparr>ck_emitted := [], ck_bus := []\<rparr> = cc_ckp c"
    by (intro checkpointer.equality) (simp_all add: ck)
  show ?thesis
    unfolding reclaim_def Let_def eq by (simp add: ck)
qed

text \<open>
  What holds of every reachable state: the stores are those of the start, rows apart that were
  deleted, every cell is quiet, and the cache maps a session to a cell of that session.
\<close>

definition sessions_keyed :: "sessions_table \<Rightarrow> bool" where
  "sessions_keyed t \<longleftrightarrow> (\<forall>sid s. hm_get t sid = Some s \<longrightarrow> s_id s = sid)"

definition cache_coherent :: "controller \<Rightarrow> bool" where
  "cache_coherent k \<longleftrightarrow> (\<forall>sid i. hm_get (sc_cache k) sid = Some i \<longrightarrow>
     i < length (sc_cells k) \<and> ck_session_id (cc_ckp (sc_cells k ! i)) = sid)"

definition ctl_inv :: "controller \<Rightarrow> controller \<Rightarrow> bool" where
  "ctl_inv k0 k \<longleftrightarrow> list_all quiet (sc_cells k) \<and> cache_coherent k \<and>
     (\<forall>sid s. hm_get (sc_table k) sid = Some s \<longrightarrow> hm_get (sc_table k0) sid = Some s) \<and>
     sc_frames k = sc_frames k0 \<and> sc_snapshots k = sc_snapshots k0 \<and> sc_hitls k = sc_hitls k0 \<and>
     sc_bus k = sc_bus k0"


lemma cache_coherentD:
  "cache_coherent k \<Longrightarrow> hm_get (sc_cache k) sid = Some i \<Longrightarrow>
     i < length (sc_cells k) \<and> ck_session_id (cc_ckp (sc_cells k ! i)) = sid"
  by (simp add: cache_coherent_def)

lemma list_all_update: "list_all P xs \<Longrightarrow> P x \<Longrightarrow> list_all P (xs[i := x])"
  by (auto simp: list_all_iff dest!: subsetD [OF set_update_subset_insert])

lemma inv_evict:
  assumes "ctl_inv k0 k" and "hm_get (sc_cache k) sid = Some i"
  shows "ctl_inv k0 (evict_session sid i k)"
proof -
  have i: "i < length (sc_cells k)"
    using assms by (auto simp: ctl_inv_def dest: cache_coherentD)
  have "quiet (close_request (sc_cells k ! i))"
    using assms i by (auto simp: ctl_inv_def list_all_length intro: quiet_close)
  moreover have "cache_coherent (evict_session sid i k)"
    using assms(1) i
    by (auto simp: ctl_inv_def cache_coherent_def evict_session_def cell_defs nth_list_update)
  ultimately show ?thesis
    using assms(1) by (auto simp: ctl_inv_def evict_session_def intro: list_all_update)
qed

lemma inv_delete_row: "ctl_inv k0 k \<Longrightarrow> ctl_inv k0 (snd (delete_session_row sid k))"
  by (auto simp: ctl_inv_def cache_coherent_def delete_session_row_def delete_session_def
      split: option.splits if_splits)

lemma inv_get:
  assumes "ctl_inv k0 k" and "sessions_keyed (sc_table k0)"
  shows "ctl_inv k0 (snd (controller_get ids sid k))"
proof -
  have sid: "hm_get (sc_table k) sid = Some s \<Longrightarrow> s_id s = sid" for s
    using assms by (auto simp: ctl_inv_def sessions_keyed_def)
  have new: "ck_session_id (cc_ckp (factory_create ids k s)) = s_id s" for s
    by (simp add: factory_create_def cell_new_def checkpointer_new_def)
  show ?thesis
    using assms(1) sid
    by (auto simp: controller_get_def instantiate_session_ckp_def get_session_def ctl_inv_def quiet_create
        cache_coherent_def nth_append new less_SucI split: option.splits if_splits)
qed

lemma inv_checkpoint_event:
  assumes "ctl_inv k0 k" and "sessions_keyed (sc_table k0)"
  shows "ctl_inv k0 (snd (process_checkpoint_event ids ev k))"
  using inv_get [OF assms, of ids "checkpoint_session_id ev"]
  by (auto simp: process_checkpoint_event_def split: outcome.split prod.split)

lemma inv_task:
  assumes "ctl_inv k0 k" and "i < length (sc_cells k)" and "ckp_step env (lend k (sc_cells k ! i)) a c"
    and "task_action a"
  shows "ctl_inv k0 (reclaim i c k)"
proof -
  have q: "quiet (sc_cells k ! i)"
    using assms(1,2) by (simp add: ctl_inv_def list_all_length)
  then have c: "quiet c" "cc_ckp c = cc_ckp (lend k (sc_cells k ! i))"
    using quiet_step [OF assms(3) _ assms(4)] by simp_all
  have "ck_session_id (cc_ckp c) = ck_session_id (cc_ckp (sc_cells k ! i))"
    by (simp add: c(2) lend_def)
  then show ?thesis
    using assms(1,2) c(1) unfolding reclaim_lend [OF c(2) q]
    by (auto simp: ctl_inv_def cache_coherent_def nth_list_update intro: list_all_update)
qed

lemma inv_step:
  assumes "ctl_step env ids k k'" and "ctl_inv k0 k" and "sessions_keyed (sc_table k0)"
  shows "ctl_inv k0 k'"
  using assms
proof (cases rule: ctl_step.cases)
  case (create now1 now2 args r)
  then show ?thesis
    using assms(2)
    by (auto simp: controller_create_session_def draw_id_eq ctl_inv_def quiet_create cache_coherent_def nth_append
        less_SucI Let_def)
next
  case (reply sid hid as r)
  then show ?thesis
    using assms(2) by (auto simp: controller_reply_hitl_def ctl_inv_def cache_coherent_def modify_def)
next
  case (from_bus ev r)
  then have "k' = k \<or> (\<exists>ev'. k' = snd (process_checkpoint_event ids ev' k))"
    by (auto simp: process_session_event_def ret_def split: session_event.splits hitl_event.splits) (metis snd_conv)
  then show ?thesis
    using assms(2) inv_checkpoint_event [OF assms(2,3)] by auto
next
  case (from_queue ev q r)
  have "ctl_inv k0 (k\<lparr>sc_queue := q\<rparr>)"
    using assms(2) by (simp add: ctl_inv_def cache_coherent_def)
  from inv_checkpoint_event [OF this assms(3), of ids ev] show ?thesis
    using from_queue by simp
next
  case (evict sid i)
  then show ?thesis using inv_evict [OF assms(2)] by simp
next
  case (delete sid)
  have "ctl_inv k0 (k\<lparr>sc_deleting := d\<rparr>) \<longleftrightarrow> ctl_inv k0 k" for k d
    by (simp add: ctl_inv_def cache_coherent_def)
  then show ?thesis
    using delete inv_delete_row [OF assms(2), of sid] inv_evict [OF assms(2), of sid]
    by (auto simp: controller_delete_session_def split: option.splits)
next
  case (deleted sid i r)
  then show ?thesis
    using assms(2) by (auto simp: ctl_inv_def list_all_length quiet_def)
next
  case (task i a c)
  then show ?thesis using inv_task [OF assms(2)] by simp
qed

text \<open>
  C31: the controller caches coherently and delivers nothing: whatever is created, answered, evicted
  and deleted, in whatever order the tasks run, the cache maps each session to a checkpointer of
  that session, and no checkpointer ever has an event to process. No job is submitted, no session
  is added or changed in the store, nothing is published, and no checkpointer closes, so the
  deletion of a cached session never ends.
\<close>

theorem controller_delivers_nothing:
  assumes "ctl_reachable env ids (controller_new table frames snaps hitls g) k" and "sessions_keyed table"
  shows "cache_coherent k \<and> sc_bus k = [] \<and> sc_frames k = frames \<and> sc_snapshots k = snaps \<and>
    (\<forall>sid s. hm_get (sc_table k) sid = Some s \<longrightarrow> hm_get table sid = Some s) \<and>
    (\<forall>c \<in> set (sc_cells k). cc_queue c = [] \<and> ck_jobs (cc_ckp c) = [] \<and> cc_status c \<noteq> Closed)"
proof -
  let ?k0 = "controller_new table frames snaps hitls g"
  have "ctl_inv ?k0 k"
    using assms(1)
  proof (induction rule: ctl_reachable.induct)
    case reach_init
    then show ?case by (simp add: ctl_inv_def cache_coherent_def controller_new_def)
  next
    case (reach_step k' k'')
    then show ?case
      using inv_step assms(2) by (simp add: controller_new_def)
  qed
  then show ?thesis
    by (auto simp: ctl_inv_def controller_new_def list_all_iff quiet_def)
qed

text \<open>
  A created session is not stored: until some row of that name exists, no event about it finds a
  checkpointer.
\<close>

lemma created_session_unknown:
  assumes "controller_create_session ids draw now1 now2 args k = (Ok sid, k')" and "hm_get (sc_table k) sid = None"
    and "hm_get (sc_cache k) sid = None"
  shows "sc_table k' = sc_table k \<and> controller_get ids sid k' = (Err (StorageFailure (session_not_found sid)), k')"
  using assms
  by (auto simp: controller_create_session_def controller_get_def instantiate_session_ckp_def get_session_def
      draw_id_eq initialise_as_new_def Let_def)


text \<open>
  The clients that know the same capable nodes answer through the same controller, and no client
  reports an error of the controller itself.
\<close>

lemma hitl_reply_drops_answer:
  assumes "\<And>s h a ns c. fst (invoke s h a ns c) = Inr (r s h a ns)"
  shows "fst (hitl_reply ln invoke cl hid as c) = Ok () \<or> fst (hitl_reply ln invoke cl hid as c) = Err NoControllerFound"
  using assms by (auto simp: hitl_reply_def split: list.split prod.split sum.split) (metis fst_conv sum.distinct(1))

section \<open>Examples\<close>

definition idle_env :: ckp_env where
  "idle_env = \<lparr>ev_fresh = \<lambda>n. ID 0 (word_of_nat n), ev_draw = \<lambda>n. word_of_nat n, ev_clock = \<lambda>n. n, ev_catalog = [],
     ev_graph_codec = graph_catalogable (\<lambda>_. Inl []) (\<lambda>_. Inl []), ev_spawn = \<lambda>_. Inr (JobId (ID 0 0))\<rparr>"

definition idle_ids :: "nat id_generator" where
  "idle_ids = \<lparr>rng = 0, session_prefix = 0\<rparr>"

definition idle_session :: session where
  "idle_session = session_new 0 0 (SessionId (ID 1 1))"

definition idle_controller :: controller where
  "idle_controller = controller_new [(SessionId (ID 1 1), idle_session)] [] [] [] idle_ids"

definition idle_ckp :: checkpointer where
  "idle_ckp = cc_ckp (factory_create idle_ids idle_controller idle_session)"

text \<open>The event of a frame that has no snapshot fails.\<close>

definition bad_event :: checkpoint_event where
  "bad_event = FrameReady (SessionId (ID 1 1)) (FrameId (ID 0 7))"

lemma bad_event_fails:
  "\<exists>e k. process_event idle_env bad_event idle_ckp = (Err e, k) \<and> \<not> uw_dirty (ck_session k)"
  by (simp add: bad_event_def idle_ckp_def factory_create_def cell_new_def idle_controller_def controller_new_def
      checkpointer_new_def process_event_def on_frame_ready_def ckp_run_frame_def bind_def latest_of_def in_snapshots_def
      snapshots_latest_def session_snapshots_new_def latest_snapshot_def Let_def fail_def from_outcome_def
      snapshot_not_found_def err_from_def err_message_def seq_def update_session_def uow_update_def unit_of_work_new_def
      ignore_def flush_session_def uow_flush_def session_executor_def idle_session_def throw_def modify_def)


theorem closed_only_after_error_witness:
  "\<exists>as c. ckp_runs idle_env (cell_new idle_ckp) as c \<and> cc_status c = Closed \<and>
     (\<exists>ev e. Drain ev (Err e) \<in> set as)"
proof -
  obtain e k where fails: "process_event idle_env bad_event idle_ckp = (Err e, k)" "\<not> uw_dirty (ck_session k)"
    using bad_event_fails by blast
  define c1 where "c1 = set_ckp_status CkpRunning ((cell_new idle_ckp)\<lparr>cc_phase := Looping True\<rparr>)"
  define c2 where "c2 = send_ckp_event bad_event c1"
  define c3 where "c3 = close_request c2"
  define c4 where "c4 = c3\<lparr>cc_phase := Draining, cc_seen := True\<rparr>"
  note cs = c1_def c2_def c3_def c4_def cell_new_def cell_defs task_ended_def
  have "ckp_runs idle_env (cell_new idle_ckp) ([] @ [Start]) c1"
    unfolding c1_def by (rule run_step [OF run_none]) (rule start, simp add: cell_new_def)
  then have "ckp_runs idle_env (cell_new idle_ckp) (([] @ [Start]) @ [SendEvent bad_event]) c2"
    unfolding c2_def by (rule run_step) (rule send, simp add: cs)
  then have "ckp_runs idle_env (cell_new idle_ckp) ((([] @ [Start]) @ [SendEvent bad_event]) @ [RequestClose]) c3"
    unfolding c3_def by (rule run_step) (rule close, simp add: cs)
  then have "ckp_runs idle_env (cell_new idle_ckp)
      (((([] @ [Start]) @ [SendEvent bad_event]) @ [RequestClose]) @ [SeeClosing]) c4"
    unfolding c4_def by (rule run_step) (rule see_closing, simp_all add: cs)
  moreover have "ckp_step idle_env c4 (Drain bad_event (Err e)) (end_task (c4\<lparr>cc_queue := [], cc_ckp := k\<rparr>))"
    by (rule drain_error) (simp_all add: cs fails)
  ultimately have run: "ckp_runs idle_env (cell_new idle_ckp)
      ((((([] @ [Start]) @ [SendEvent bad_event]) @ [RequestClose]) @ [SeeClosing]) @ [Drain bad_event (Err e)])
      (end_task (c4\<lparr>cc_queue := [], cc_ckp := k\<rparr>))"
    by (rule run_step)
  moreover have closed: "cc_status (end_task (c4\<lparr>cc_queue := [], cc_ckp := k\<rparr>)) = Closed"
    using fails(2) by (simp add: end_task_def ignore_def flush_session_def uow_flush_def cell_defs)
  ultimately show ?thesis
    using closed_only_after_error [OF run closed] by blast
qed

theorem controller_delivers_nothing_witness:
  "let k = snd (process_checkpoint_event idle_ids bad_event idle_controller)
   in length (sc_cells k) = 1 \<and> cache_coherent k \<and> (\<forall>c \<in> set (sc_cells k). cc_queue c = [])"
proof -
  define ev where "ev = HitlEvent (HitlAnswered (SessionId (ID 1 1)) (HitlId (ID 2 2)) [])"
  let ?k = "snd (process_checkpoint_event idle_ids bad_event idle_controller)"
  have same: "process_session_event idle_ids ev idle_controller = process_checkpoint_event idle_ids bad_event idle_controller"
    by (simp add: ev_def process_session_event_def process_checkpoint_event_def bad_event_def)
  have "ctl_step idle_env idle_ids idle_controller ?k"
    by (rule from_bus [of _ ev _ "fst (process_checkpoint_event idle_ids bad_event idle_controller)"]) (simp add: same)
  then have reach: "ctl_reachable idle_env idle_ids
      (controller_new [(SessionId (ID 1 1), idle_session)] [] [] [] idle_ids) ?k"
    using reach_step [OF reach_init] by (simp add: idle_controller_def)
  have keyed: "sessions_keyed [(SessionId (ID 1 1), idle_session)]"
    by (simp add: sessions_keyed_def idle_session_def session_new_def)
  have "length (sc_cells ?k) = 1"
    by (simp add: process_checkpoint_event_def controller_get_def bad_event_def idle_controller_def controller_new_def
        instantiate_session_ckp_def get_session_def)
  then show ?thesis
    using controller_delivers_nothing [OF reach keyed] by (simp add: Let_def)
qed

end
