(* ===== verification/Ordered_Maps.thy ===== *)
theory Ordered_Maps
  imports Marie_Prelude
begin

text \<open>
  A Rust \<^verbatim>\<open>BTreeMap\<close> as an association list sorted by key. Reads and removals are those of
  association lists; insertion keeps the order.
\<close>

type_synonym ('k, 'v) btree_map = "('k \<times> 'v) list"

definition bt_wf :: "('k :: linorder, 'v) btree_map \<Rightarrow> bool" where
  "bt_wf m \<longleftrightarrow> sorted_wrt (<) (map fst m)"

fun bt_insert :: "'k :: linorder \<Rightarrow> 'v \<Rightarrow> ('k, 'v) btree_map \<Rightarrow> ('k, 'v) btree_map" where
  "bt_insert k v [] = [(k, v)]"
| "bt_insert k v ((k', v') # m) =
     (if k < k' then (k, v) # (k', v') # m
      else if k = k' then (k, v) # m
      else (k', v') # bt_insert k v m)"

text \<open>\<^verbatim>\<open>collect()\<close> inserts in order, a later pair overwrites.\<close>

definition bt_collect :: "('k :: linorder \<times> 'v) list \<Rightarrow> ('k, 'v) btree_map" where
  "bt_collect kvs = fold (\<lambda>(k, v). bt_insert k v) kvs []"

text \<open>\<^verbatim>\<open>retain\<close> on the keys; \<^verbatim>\<open>split_off(k)\<close> leaves the keys below \<open>k\<close>.\<close>

definition bt_retain :: "('k \<Rightarrow> bool) \<Rightarrow> ('k, 'v) btree_map \<Rightarrow> ('k, 'v) btree_map" where
  "bt_retain P m = filter (\<lambda>kv. P (fst kv)) m"

abbreviation bt_split_off :: "'k :: linorder \<Rightarrow> ('k, 'v) btree_map \<Rightarrow> ('k, 'v) btree_map" where
  "bt_split_off k m \<equiv> bt_retain (\<lambda>k'. k' < k) m"

lemma bt_wf_empty [simp]: "bt_wf []"
  by (simp add: bt_wf_def)

lemma bt_get_insert [simp, hm_simps]:
  "map_of (bt_insert k v m) k' = (if k' = k then Some v else map_of m k')"
  by (induction k v m rule: bt_insert.induct) auto

lemma keys_bt_insert [simp]: "fst ` set (bt_insert k v m) = insert k (fst ` set m)"
  by (induction k v m rule: bt_insert.induct) auto

lemma bt_wf_insert [simp]: "bt_wf m \<Longrightarrow> bt_wf (bt_insert k v m)"
proof (induction k v m rule: bt_insert.induct)
  case (2 k v k' v' m)
  then show ?case using keys_bt_insert [of k v m] by (auto simp: bt_wf_def)
qed (simp add: bt_wf_def)

lemma bt_wf_retain [simp]: "bt_wf m \<Longrightarrow> bt_wf (bt_retain P m)"
  by (simp add: bt_wf_def bt_retain_def sorted_wrt_map sorted_wrt_filter)

lemma bt_wf_remove [simp]: "bt_wf m \<Longrightarrow> bt_wf (hm_remove k m)"
  by (simp add: bt_wf_def AList.delete_eq sorted_wrt_map sorted_wrt_filter)

lemma bt_get_retain [simp, hm_simps]: "map_of (bt_retain P m) k = (if P k then map_of m k else None)"
  by (induction m) (auto simp: bt_retain_def)

lemma bt_wf_collect [simp]: "bt_wf (bt_collect kvs)"
proof -
  have "bt_wf m \<Longrightarrow> bt_wf (fold (\<lambda>(k, v). bt_insert k v) kvs m)" for m
    by (induction kvs arbitrary: m) auto
  then show ?thesis by (simp add: bt_collect_def)
qed

lemma bt_get_collect: "map_of (bt_collect kvs) k = map_of (rev kvs) k"
proof -
  have "map_of (fold (\<lambda>(k, v). bt_insert k v) kvs m) k =
      (case map_of (rev kvs) k of Some v \<Rightarrow> Some v | None \<Rightarrow> map_of m k)" for m
    by (induction kvs arbitrary: m) (auto simp: map_add_def split: option.splits)
  then show ?thesis by (simp add: bt_collect_def split: option.splits)
qed

lemma bt_sorted_keys: "bt_wf m \<Longrightarrow> sorted (map fst m) \<and> distinct (map fst m)"
  by (simp add: bt_wf_def strict_sorted_iff)

end
