(* ===== verification/Secrets.thy ===== *)
theory Secrets
  imports Nodes Ordered_Maps
begin

text \<open>
  Keys, encryption and the vault (\<^verbatim>\<open>marie-core/src/secret\<close>). The key derivation, the cipher and the
  message authentication code come from other crates and are the record \<open>crypto\<close>; nonces and
  identifiers drawn at random are arguments.
\<close>

type_synonym secret_key = "u8 list"
type_synonym key_epoch = u32

abbreviation DEFAULT_EPOCH :: key_epoch where "DEFAULT_EPOCH \<equiv> 0"

text \<open>
  \<open>hkdf_expand ikm info\<close> is HKDF-SHA256 expanded to 32 bytes, \<open>aead_encrypt key nonce plain\<close> and
  \<open>aead_decrypt key nonce cipher\<close> are ChaCha20-Poly1305, and \<open>hmac_sha256 key\<close> is the code under a
  key. Each may fail with the text of its error.
\<close>

record crypto =
  hkdf_expand :: "secret_key \<Rightarrow> u8 list \<Rightarrow> string + secret_key"
  aead_encrypt :: "secret_key \<Rightarrow> u8 list \<Rightarrow> u8 list \<Rightarrow> string + u8 list"
  aead_decrypt :: "secret_key \<Rightarrow> u8 list \<Rightarrow> u8 list \<Rightarrow> string + u8 list"
  hmac_sha256 :: "secret_key \<Rightarrow> string + (u8 list \<Rightarrow> u8 list)"

datatype secret_error =
    HkdfExpandFailed string
  | MacInitFailed string
  | EncryptionFailed string
  | DecryptionFailed string
  | Utf8DecodingFailed "u8 list"
  | UnknownEpoch key_epoch
  | CannotRetireCurrentEpoch key_epoch
  | LastEpoch
  | CurrentEpochNotProvided key_epoch
  | NoKeysProvided

type_synonym 'a secret_result = "(secret_error, 'a) outcome"

record encrypted_secret =
  es_key_epoch :: key_epoch
  es_ciphertext :: "u8 list"
  es_nonce :: "u8 list"
  es_algorithm :: string

section \<open>Texts\<close>

definition utf8_cont :: "u8 \<Rightarrow> bool" where
  "utf8_cont b \<longleftrightarrow> 0x80 \<le> b \<and> b \<le> 0xBF"

text \<open>The well-formed byte sequences of UTF-8, which \<^verbatim>\<open>String::from_utf8\<close> accepts.\<close>

fun utf8_valid :: "u8 list \<Rightarrow> bool" where
  "utf8_valid [] = True"
| "utf8_valid (b # bs) =
     (if b < 0x80 then utf8_valid bs
      else if 0xC2 \<le> b \<and> b \<le> 0xDF then
        (case bs of c # r \<Rightarrow> utf8_cont c \<and> utf8_valid r | _ \<Rightarrow> False)
      else if 0xE0 \<le> b \<and> b \<le> 0xEF then
        (case bs of c # d # r \<Rightarrow>
           (if b = 0xE0 then 0xA0 \<le> c \<and> c \<le> 0xBF else if b = 0xED then 0x80 \<le> c \<and> c \<le> 0x9F else utf8_cont c) \<and>
           utf8_cont d \<and> utf8_valid r
         | _ \<Rightarrow> False)
      else if 0xF0 \<le> b \<and> b \<le> 0xF4 then
        (case bs of c # d # e # r \<Rightarrow>
           (if b = 0xF0 then 0x90 \<le> c \<and> c \<le> 0xBF else if b = 0xF4 then 0x80 \<le> c \<and> c \<le> 0x8F else utf8_cont c) \<and>
           utf8_cont d \<and> utf8_cont e \<and> utf8_valid r
         | _ \<Rightarrow> False)
      else False)"

definition bytes_of :: "string \<Rightarrow> u8 list" where
  "bytes_of s = map (\<lambda>c. word_of_nat (of_char c)) s"

definition text_of :: "u8 list \<Rightarrow> string" where
  "text_of bs = map (\<lambda>b. char_of (unat b)) bs"

definition from_utf8 :: "u8 list \<Rightarrow> u8 list + string" where
  "from_utf8 bs = (if utf8_valid bs then Inr (text_of bs) else Inl bs)"

section \<open>Ciphers under one key\<close>

definition key_encrypt :: "crypto \<Rightarrow> u8 list \<Rightarrow> secret_key \<Rightarrow> u8 list \<Rightarrow> encrypted_secret secret_result" where
  "key_encrypt c nonce key secret = (case aead_encrypt c key nonce secret of
      Inl e \<Rightarrow> Err (EncryptionFailed e)
    | Inr ciphertext \<Rightarrow> Ok \<lparr>es_key_epoch = DEFAULT_EPOCH, es_ciphertext = ciphertext, es_nonce = nonce,
        es_algorithm = ''ChaCha20-Poly1305''\<rparr>)"

text \<open>\<^verbatim>\<open>Nonce::from_slice\<close> panics on a slice that is not 12 bytes long.\<close>

definition key_decrypt :: "crypto \<Rightarrow> secret_key \<Rightarrow> encrypted_secret \<Rightarrow> u8 list secret_result" where
  "key_decrypt c key enc =
     (if length (es_nonce enc) \<noteq> 12 then Panic ''assertion failed: slice length''
      else case aead_decrypt c key (es_nonce enc) (es_ciphertext enc) of
          Inl e \<Rightarrow> Err (DecryptionFailed e)
        | Inr plaintext \<Rightarrow> Ok plaintext)"

record epoch_secret_key =
  ek_epoch :: key_epoch
  ek_key :: secret_key

definition epoch_encrypt ::
  "crypto \<Rightarrow> u8 list \<Rightarrow> epoch_secret_key \<Rightarrow> u8 list \<Rightarrow> encrypted_secret secret_result" where
  "epoch_encrypt c nonce ek secret = (case key_encrypt c nonce (ek_key ek) secret of
      Ok enc \<Rightarrow> Ok (enc\<lparr>es_key_epoch := ek_epoch ek\<rparr>)
    | Err e \<Rightarrow> Err e
    | Panic m \<Rightarrow> Panic m)"

definition epoch_decrypt :: "crypto \<Rightarrow> epoch_secret_key \<Rightarrow> encrypted_secret \<Rightarrow> u8 list secret_result" where
  "epoch_decrypt c ek enc = key_decrypt c (ek_key ek) enc"

text \<open>The default methods of \<^verbatim>\<open>SecretCodec\<close>, over any codec.\<close>

definition encrypt_str :: "(u8 list \<Rightarrow> encrypted_secret secret_result) \<Rightarrow> string \<Rightarrow> encrypted_secret secret_result" where
  "encrypt_str encrypt s = encrypt (bytes_of s)"

definition decrypt_str ::
  "(encrypted_secret \<Rightarrow> u8 list secret_result) \<Rightarrow> encrypted_secret \<Rightarrow> string secret_result" where
  "decrypt_str decrypt enc = (case decrypt enc of
      Ok bytes \<Rightarrow> (case from_utf8 bytes of Inl b \<Rightarrow> Err (Utf8DecodingFailed b) | Inr s \<Rightarrow> Ok s)
    | Err e \<Rightarrow> Err e
    | Panic m \<Rightarrow> Panic m)"

section \<open>The manager of master keys\<close>

record secret_manager =
  sm_keys :: "(key_epoch, secret_key) btree_map"
  sm_current_epoch :: key_epoch

definition with_epochs ::
  "(key_epoch \<times> secret_key) list \<Rightarrow> key_epoch \<Rightarrow> secret_manager secret_result" where
  "with_epochs epochs current =
     (let keys = bt_collect epochs in
      if keys = [] then Err NoKeysProvided
      else if \<not> hm_contains keys current then Err (CurrentEpochNotProvided current)
      else Ok \<lparr>sm_keys = keys, sm_current_epoch = current\<rparr>)"

definition secret_manager_new :: "secret_key \<Rightarrow> secret_manager secret_result" where
  "secret_manager_new key = (case with_epochs [(DEFAULT_EPOCH, key)] DEFAULT_EPOCH of
      Ok m \<Rightarrow> Ok m
    | _ \<Rightarrow> Panic ''DEFAULT_EPOCH est a la fois fournie et courante'')"

definition add_epoch :: "key_epoch \<Rightarrow> secret_key \<Rightarrow> secret_manager \<Rightarrow> secret_manager" where
  "add_epoch epoch key m = m\<lparr>sm_keys := bt_insert epoch key (sm_keys m)\<rparr>"

definition set_current_epoch :: "key_epoch \<Rightarrow> (secret_manager, secret_error, unit) prog" where
  "set_current_epoch epoch m =
     (if \<not> hm_contains (sm_keys m) epoch then (Err (UnknownEpoch epoch), m)
      else (Ok (), m\<lparr>sm_current_epoch := epoch\<rparr>))"

definition retire_epoch :: "key_epoch \<Rightarrow> (secret_manager, secret_error, unit) prog" where
  "retire_epoch epoch m =
     (if sm_current_epoch m = epoch then (Err (CannotRetireCurrentEpoch epoch), m)
      else if length (sm_keys m) \<le> 1 then (Err LastEpoch, m)
      else (Ok (), m\<lparr>sm_keys := hm_remove epoch (sm_keys m)\<rparr>))"

definition has_epoch :: "secret_manager \<Rightarrow> key_epoch \<Rightarrow> bool" where
  "has_epoch m epoch = hm_contains (sm_keys m) epoch"

definition epochs :: "secret_manager \<Rightarrow> key_epoch list" where
  "epochs m = map fst (sm_keys m)"

definition derive_key :: "crypto \<Rightarrow> secret_manager \<Rightarrow> key_epoch \<Rightarrow> u8 list \<Rightarrow> secret_key secret_result" where
  "derive_key c m epoch namespace = (case hm_get (sm_keys m) epoch of
      None \<Rightarrow> Err (UnknownEpoch epoch)
    | Some ikm \<Rightarrow> (case hkdf_expand c ikm namespace of
          Inl e \<Rightarrow> Err (HkdfExpandFailed e)
        | Inr key \<Rightarrow> Ok key))"

definition derive_key_current :: "crypto \<Rightarrow> secret_manager \<Rightarrow> u8 list \<Rightarrow> secret_key secret_result" where
  "derive_key_current c m namespace = derive_key c m (sm_current_epoch m) namespace"

definition derive_node_key_for_epoch ::
  "crypto \<Rightarrow> secret_manager \<Rightarrow> key_epoch \<Rightarrow> node_id \<Rightarrow> secret_key secret_result" where
  "derive_node_key_for_epoch c m epoch n = derive_key c m epoch (node_id_bytes n)"

definition derive_node_key :: "crypto \<Rightarrow> secret_manager \<Rightarrow> node_id \<Rightarrow> secret_key secret_result" where
  "derive_node_key c m n = derive_node_key_for_epoch c m (sm_current_epoch m) n"

definition derive_storage_key_for_epoch ::
  "crypto \<Rightarrow> secret_manager \<Rightarrow> key_epoch \<Rightarrow> epoch_secret_key secret_result" where
  "derive_storage_key_for_epoch c m epoch =
     (case derive_key c m epoch (bytes_of ''marie/at-rest-storage/v1'') of
        Ok key \<Rightarrow> Ok \<lparr>ek_epoch = epoch, ek_key = key\<rparr>
      | Err e \<Rightarrow> Err e
      | Panic p \<Rightarrow> Panic p)"

definition derive_storage_key :: "crypto \<Rightarrow> secret_manager \<Rightarrow> epoch_secret_key secret_result" where
  "derive_storage_key c m = derive_storage_key_for_epoch c m (sm_current_epoch m)"

section \<open>Secrets for one node\<close>

record node_secret_manager =
  nm_global :: secret_manager
  nm_epoch :: key_epoch
  nm_peer_key :: secret_key

definition for_node_epoch ::
  "crypto \<Rightarrow> secret_manager \<Rightarrow> node_id \<Rightarrow> key_epoch \<Rightarrow> node_secret_manager secret_result" where
  "for_node_epoch c m n epoch = (case derive_node_key_for_epoch c m epoch n of
      Ok key \<Rightarrow> Ok \<lparr>nm_global = m, nm_epoch = epoch, nm_peer_key = key\<rparr>
    | Err e \<Rightarrow> Err e
    | Panic p \<Rightarrow> Panic p)"

definition for_node :: "crypto \<Rightarrow> secret_manager \<Rightarrow> node_id \<Rightarrow> node_secret_manager secret_result" where
  "for_node c m n = for_node_epoch c m n (sm_current_epoch m)"

definition node_encrypt ::
  "crypto \<Rightarrow> u8 list \<Rightarrow> node_secret_manager \<Rightarrow> u8 list \<Rightarrow> encrypted_secret secret_result" where
  "node_encrypt c nonce nm secret = (case aead_encrypt c (nm_peer_key nm) nonce secret of
      Inl e \<Rightarrow> Err (EncryptionFailed e)
    | Inr ciphertext \<Rightarrow> Ok \<lparr>es_key_epoch = nm_epoch nm, es_ciphertext = ciphertext, es_nonce = nonce,
        es_algorithm = ''ChaCha20-Poly1305''\<rparr>)"

definition node_decrypt ::
  "crypto \<Rightarrow> node_secret_manager \<Rightarrow> encrypted_secret \<Rightarrow> u8 list secret_result" where
  "node_decrypt c nm enc =
     (if length (es_nonce enc) \<noteq> 12 then Panic ''assertion failed: slice length''
      else case aead_decrypt c (nm_peer_key nm) (es_nonce enc) (es_ciphertext enc) of
          Inl e \<Rightarrow> Err (DecryptionFailed e)
        | Inr plaintext \<Rightarrow> Ok plaintext)"

section \<open>Membership of the cluster\<close>

definition prove_membership ::
  "crypto \<Rightarrow> secret_manager \<Rightarrow> node_id \<Rightarrow> u8 list \<Rightarrow> (key_epoch \<times> u8 list) secret_result" where
  "prove_membership c m n nonce =
     (let epoch = sm_current_epoch m in
      case derive_node_key_for_epoch c m epoch n of
        Ok node_key \<Rightarrow> (case hmac_sha256 c node_key of
            Inl e \<Rightarrow> Err (MacInitFailed e)
          | Inr mac \<Rightarrow> Ok (epoch, mac nonce))
      | Err e \<Rightarrow> Err e
      | Panic p \<Rightarrow> Panic p)"

definition verify_membership ::
  "crypto \<Rightarrow> secret_manager \<Rightarrow> node_id \<Rightarrow> u8 list \<Rightarrow> key_epoch \<Rightarrow> u8 list \<Rightarrow> bool secret_result" where
  "verify_membership c m n nonce epoch proof_bytes =
     (case derive_node_key_for_epoch c m epoch n of
        Ok node_key \<Rightarrow> (case hmac_sha256 c node_key of
            Inl e \<Rightarrow> Err (MacInitFailed e)
          | Inr mac \<Rightarrow> Ok (mac nonce = proof_bytes))
      | Err (UnknownEpoch _) \<Rightarrow> Ok False
      | Err other \<Rightarrow> Err other
      | Panic p \<Rightarrow> Panic p)"

section \<open>The vault\<close>

datatype secret_ref = SecretRef ID

fun secret_ref_display :: "secret_ref \<Rightarrow> string" where
  "secret_ref_display (SecretRef i) = id_display i"

record stored_secret =
  st_id :: secret_ref
  st_key_epoch :: key_epoch
  st_ciphertext :: "u8 list"
  st_nonce :: "u8 list"
  st_algorithm :: string

definition encrypted_from :: "stored_secret \<Rightarrow> encrypted_secret" where
  "encrypted_from s = \<lparr>es_key_epoch = st_key_epoch s, es_ciphertext = st_ciphertext s,
     es_nonce = st_nonce s, es_algorithm = st_algorithm s\<rparr>"

type_synonym secret_store = "(secret_ref, stored_secret) hash_map"

definition insert_secret :: "stored_secret \<Rightarrow> secret_store \<Rightarrow> secret_store" where
  "insert_secret s st = hm_insert (st_id s) s st"

definition replace_secret :: "stored_secret \<Rightarrow> secret_store \<Rightarrow> secret_store" where
  "replace_secret s st = hm_insert (st_id s) s st"

definition remove_secret :: "secret_ref \<Rightarrow> secret_store \<Rightarrow> secret_store" where
  "remove_secret r st = hm_remove r st"

definition get_secret :: "secret_store \<Rightarrow> secret_ref \<Rightarrow> stored_secret option" where
  "get_secret st r = hm_get st r"

datatype vault_error = StorageError error | VaultSecretError secret_error | UnknownSecret secret_ref

record vault =
  va_secrets :: secret_manager
  va_store :: secret_store

text \<open>The encryption that \<^verbatim>\<open>store\<close> and \<^verbatim>\<open>update\<close> share.\<close>

definition vault_seal ::
  "crypto \<Rightarrow> u8 list \<Rightarrow> secret_ref \<Rightarrow> string \<Rightarrow> u8 list \<Rightarrow> vault \<Rightarrow> (vault_error, stored_secret) outcome" where
  "vault_seal c nonce r namespace secret v =
     (case derive_key c (va_secrets v) (sm_current_epoch (va_secrets v)) (bytes_of namespace) of
        Err e \<Rightarrow> Err (VaultSecretError e)
      | Panic p \<Rightarrow> Panic p
      | Ok key \<Rightarrow> (case key_encrypt c nonce key secret of
            Err e \<Rightarrow> Err (VaultSecretError e)
          | Panic p \<Rightarrow> Panic p
          | Ok enc \<Rightarrow> Ok \<lparr>st_id = r, st_key_epoch = es_key_epoch enc, st_ciphertext = es_ciphertext enc,
              st_nonce = es_nonce enc, st_algorithm = es_algorithm enc\<rparr>))"

definition vault_store ::
  "crypto \<Rightarrow> ID \<Rightarrow> u8 list \<Rightarrow> string \<Rightarrow> u8 list \<Rightarrow> (vault, vault_error, secret_ref) prog" where
  "vault_store c i nonce namespace secret v =
     (case vault_seal c nonce (SecretRef i) namespace secret v of
        Ok s \<Rightarrow> (Ok (SecretRef i), v\<lparr>va_store := insert_secret s (va_store v)\<rparr>)
      | Err e \<Rightarrow> (Err e, v)
      | Panic p \<Rightarrow> (Panic p, v))"

definition vault_update ::
  "crypto \<Rightarrow> u8 list \<Rightarrow> secret_ref \<Rightarrow> string \<Rightarrow> u8 list \<Rightarrow> (vault, vault_error, unit) prog" where
  "vault_update c nonce r namespace secret v =
     (case vault_seal c nonce r namespace secret v of
        Ok s \<Rightarrow> (Ok (), v\<lparr>va_store := replace_secret s (va_store v)\<rparr>)
      | Err e \<Rightarrow> (Err e, v)
      | Panic p \<Rightarrow> (Panic p, v))"

definition vault_remove :: "secret_ref \<Rightarrow> (vault, vault_error, unit) prog" where
  "vault_remove r v = (Ok (), v\<lparr>va_store := remove_secret r (va_store v)\<rparr>)"

definition get_decrypted ::
  "crypto \<Rightarrow> vault \<Rightarrow> secret_ref \<Rightarrow> string \<Rightarrow> (vault_error, u8 list) outcome" where
  "get_decrypted c v r namespace = (case get_secret (va_store v) r of
      None \<Rightarrow> Err (UnknownSecret r)
    | Some s \<Rightarrow> (case derive_key c (va_secrets v) (st_key_epoch s) (bytes_of namespace) of
          Err e \<Rightarrow> Err (VaultSecretError e)
        | Panic p \<Rightarrow> Panic p
        | Ok key \<Rightarrow> (case key_decrypt c key (encrypted_from s) of
              Err e \<Rightarrow> Err (VaultSecretError e)
            | Panic p \<Rightarrow> Panic p
            | Ok bytes \<Rightarrow> Ok bytes)))"

definition get_decrypted_str ::
  "crypto \<Rightarrow> vault \<Rightarrow> secret_ref \<Rightarrow> string \<Rightarrow> (vault_error, string) outcome" where
  "get_decrypted_str c v r namespace = (case get_decrypted c v r namespace of
      Ok raw \<Rightarrow> (case from_utf8 raw of
          Inr s \<Rightarrow> Ok s
        | Inl _ \<Rightarrow> Panic ''called `Result::unwrap()` on an `Err` value'')
    | Err e \<Rightarrow> Err e
    | Panic p \<Rightarrow> Panic p)"

interpretation secrets: keyed_store st_id get_secret insert_secret remove_secret
  by unfold_locales (simp_all add: get_secret_def insert_secret_def remove_secret_def)

section \<open>The manager keeps a current key\<close>

definition manager_wf :: "secret_manager \<Rightarrow> bool" where
  "manager_wf m \<longleftrightarrow> bt_wf (sm_keys m) \<and> has_epoch m (sm_current_epoch m)"

lemma with_epochs_wf: "with_epochs es cur = Ok m \<Longrightarrow> manager_wf m"
  by (auto simp: with_epochs_def manager_wf_def has_epoch_def Let_def split: if_splits)

lemma secret_manager_new_ok:
  "secret_manager_new k = Ok \<lparr>sm_keys = [(0, k)], sm_current_epoch = 0\<rparr>"
  by (simp add: secret_manager_new_def with_epochs_def bt_collect_def hm_contains_def)

text \<open>The calls an operator makes during a rotation, with the errors dropped.\<close>

datatype rotation_op = AddEpoch key_epoch secret_key | SetCurrent key_epoch | Retire key_epoch

fun rotate :: "rotation_op \<Rightarrow> secret_manager \<Rightarrow> secret_manager" where
  "rotate (AddEpoch e k) m = add_epoch e k m"
| "rotate (SetCurrent e) m = snd (set_current_epoch e m)"
| "rotate (Retire e) m = snd (retire_epoch e m)"

fun touches :: "key_epoch \<Rightarrow> rotation_op \<Rightarrow> bool" where
  "touches e (AddEpoch e' k) \<longleftrightarrow> e = e'"
| "touches e (SetCurrent e') \<longleftrightarrow> False"
| "touches e (Retire e') \<longleftrightarrow> e = e'"

lemma rotate_wf: "manager_wf m \<Longrightarrow> manager_wf (rotate op m)"
  by (cases op) (auto simp: manager_wf_def has_epoch_def hm_contains_def add_epoch_def
      set_current_epoch_def retire_epoch_def)

lemma rotations_wf: "manager_wf m \<Longrightarrow> manager_wf (fold rotate ops m)"
  by (induction ops arbitrary: m) (simp_all add: rotate_wf)

lemma rotate_keeps_key: "\<not> touches e op \<Longrightarrow> hm_get (sm_keys (rotate op m)) e = hm_get (sm_keys m) e"
  by (cases op) (auto simp: add_epoch_def set_current_epoch_def retire_epoch_def)

lemma rotations_keep_key:
  "\<forall>op \<in> set ops. \<not> touches e op \<Longrightarrow> hm_get (sm_keys (fold rotate ops m)) e = hm_get (sm_keys m) e"
  by (induction ops arbitrary: m) (simp_all add: rotate_keeps_key)

lemma derive_key_cong: "hm_get (sm_keys m) e = hm_get (sm_keys m') e \<Longrightarrow> derive_key c m e ns = derive_key c m' e ns"
  by (simp add: derive_key_def)

lemmas derive_defs = derive_storage_key_for_epoch_def derive_storage_key_def
  derive_node_key_for_epoch_def derive_node_key_def

text \<open>
  The cipher opens what it sealed under the same key and nonce; this is the only assumption made
  on it.
\<close>

definition aead_law :: "crypto \<Rightarrow> bool" where
  "aead_law c \<longleftrightarrow> (\<forall>k n p x. aead_encrypt c k n p = Inr x \<longrightarrow> aead_decrypt c k n x = Inr p)"

lemma key_roundtrip:
  assumes "aead_law c" and "key_encrypt c nonce k p = Ok enc" and "length nonce = 12"
  shows "key_decrypt c k (enc\<lparr>es_key_epoch := e\<rparr>) = Ok p" and "es_key_epoch enc = 0"
    and "es_nonce enc = nonce"
  using assms by (auto simp: aead_law_def key_encrypt_def key_decrypt_def split: sum.splits)

text \<open>
  C10: a secret sealed at rest under the current epoch stays readable through any rotation that
  neither retires nor replaces that epoch: the key derived for the recorded epoch opens it. At
  every moment the manager holds a key for its current epoch.
\<close>

theorem rotation_keeps_secrets_readable:
  assumes "aead_law c" and "manager_wf m" and "derive_storage_key c m = Ok ek"
    and "epoch_encrypt c nonce ek secret = Ok enc" and "length nonce = 12"
    and "\<forall>op \<in> set ops. \<not> touches (sm_current_epoch m) op"
  shows "es_key_epoch enc = sm_current_epoch m \<and> manager_wf (fold rotate ops m) \<and>
    (\<exists>ek'. derive_storage_key_for_epoch c (fold rotate ops m) (es_key_epoch enc) = Ok ek' \<and>
      epoch_decrypt c ek' enc = Ok secret)"
proof -
  obtain enc0 where enc0: "key_encrypt c nonce (ek_key ek) secret = Ok enc0"
      "enc = enc0\<lparr>es_key_epoch := ek_epoch ek\<rparr>"
    using assms(4) by (auto simp: epoch_encrypt_def split: outcome.splits)
  have ek: "ek_epoch ek = sm_current_epoch m"
    using assms(3) by (auto simp: derive_defs split: outcome.splits)
  have "derive_storage_key_for_epoch c (fold rotate ops m) (sm_current_epoch m) = Ok ek"
    using assms(3) derive_key_cong [OF rotations_keep_key [OF assms(6)]] by (simp add: derive_defs)
  moreover have "epoch_decrypt c ek enc = Ok secret"
    using key_roundtrip(1) [OF assms(1) enc0(1) assms(5)] by (simp add: epoch_decrypt_def enc0(2))
  ultimately show ?thesis using ek rotations_wf [OF assms(2)] by (simp add: enc0(2))
qed

text \<open>
  Once an epoch is retired, nothing under it is accepted until it is loaded again: its keys
  cannot be derived, and a proof of membership made under it is refused without an error. The
  current epoch and the last one are never retired.
\<close>

theorem retired_epoch_refused:
  assumes "manager_wf m" and "retire_epoch e m = (Ok (), m')" and "\<forall>op \<in> set ops. \<not> touches e op"
  shows "e \<noteq> sm_current_epoch m \<and> manager_wf m' \<and>
    derive_key c (fold rotate ops m') e ns = Err (UnknownEpoch e) \<and>
    verify_membership c (fold rotate ops m') n nonce e p = Ok False"
proof -
  have ret: "e \<noteq> sm_current_epoch m" "m' = m\<lparr>sm_keys := hm_remove e (sm_keys m)\<rparr>"
    using assms(2) by (auto simp: retire_epoch_def split: if_splits)
  then have "hm_get (sm_keys (fold rotate ops m')) e = None"
    using rotations_keep_key [OF assms(3), of m'] by simp
  moreover have "manager_wf m'" using rotate_wf [OF assms(1), of "Retire e"] by (simp add: assms(2))
  ultimately show ?thesis using ret(1)
    by (simp add: derive_key_def verify_membership_def derive_defs)
qed

text \<open>
  A proof of membership is accepted by every manager that holds the same key for the epoch of the
  proof, whatever its own current epoch.
\<close>

lemma membership_accepted:
  assumes "prove_membership c m n nonce = Ok (e, p)"
    and "hm_get (sm_keys m') e = hm_get (sm_keys m) e"
  shows "verify_membership c m' n nonce e p = Ok True"
  using assms derive_key_cong [OF assms(2), of c]
  by (auto simp: prove_membership_def verify_membership_def derive_defs Let_def
      split: outcome.splits sum.splits)

lemma node_secret_roundtrip:
  assumes "aead_law c" and "for_node c m n = Ok nm" and "node_encrypt c nonce nm secret = Ok enc"
    and "length nonce = 12" and "hm_get (sm_keys m') (es_key_epoch enc) = hm_get (sm_keys m) (es_key_epoch enc)"
  shows "\<exists>nm'. for_node_epoch c m' n (es_key_epoch enc) = Ok nm' \<and> node_decrypt c nm' enc = Ok secret"
proof -
  have e: "es_key_epoch enc = sm_current_epoch m"
    using assms(2,3) by (auto simp: for_node_def for_node_epoch_def node_encrypt_def split: outcome.splits sum.splits)
  have "node_decrypt c nm' enc = Ok secret" if "nm_peer_key nm' = nm_peer_key nm" for nm'
    using assms(1,3,4) that by (auto simp: aead_law_def node_encrypt_def node_decrypt_def split: sum.splits)
  then show ?thesis
    using assms(2,5) derive_key_cong [of m' "es_key_epoch enc" m c] unfolding e
    by (auto simp: for_node_def for_node_epoch_def derive_defs split: outcome.splits)
qed

section \<open>The vault and its epochs\<close>

lemma vault_seal_epoch:
  assumes "vault_seal c nonce r ns secret v = Ok s"
  shows "st_id s = r" and "st_key_epoch s = 0"
  using assms by (auto simp: vault_seal_def key_encrypt_def split: outcome.splits sum.splits)

lemma vault_seal_opens:
  assumes "aead_law c" and "vault_seal c nonce r ns secret v = Ok s" and "length nonce = 12"
    and "sm_current_epoch (va_secrets v) = 0"
  shows "\<exists>k. derive_key c (va_secrets v) 0 (bytes_of ns) = Ok k \<and> key_decrypt c k (encrypted_from s) = Ok secret"
  using assms
  by (auto simp: aead_law_def vault_seal_def key_encrypt_def key_decrypt_def encrypted_from_def
      split: outcome.splits sum.splits)

lemma stored_secret_opens:
  assumes "aead_law c" and "vault_store c i nonce ns secret v = (Ok r, v')" and "length nonce = 12"
    and "sm_current_epoch (va_secrets v) = 0"
  shows "get_decrypted c v' r ns = Ok secret"
proof -
  obtain s where s: "vault_seal c nonce r ns secret v = Ok s" "v' = v\<lparr>va_store := insert_secret s (va_store v)\<rparr>"
    using assms(2) by (auto simp: vault_store_def split: outcome.splits)
  show ?thesis
    using vault_seal_opens [OF assms(1) s(1) assms(3,4)]
    by (auto simp: get_decrypted_def vault_seal_epoch [OF s(1)] s(2) secrets.get_upsert)
qed

text \<open>
  C28: a secret put in the vault is read back under its namespace while the current epoch is the
  default one. Under any other current epoch it is recorded with the default epoch all the same,
  and reading it back fails as soon as the default epoch is not loaded.
\<close>

theorem vault_roundtrip:
  assumes "aead_law c" and "vault_store c i nonce ns secret v = (Ok r, v')" and "length nonce = 12"
  shows "(sm_current_epoch (va_secrets v) = 0 \<longrightarrow> get_decrypted c v' r ns = Ok secret) \<and>
    (\<not> has_epoch (va_secrets v) 0 \<longrightarrow> get_decrypted c v' r ns = Err (VaultSecretError (UnknownEpoch 0))) \<and>
    (\<forall>r'. r' \<noteq> r \<longrightarrow> get_decrypted c v' r' = get_decrypted c v r') \<and>
    get_decrypted c (snd (vault_remove r v')) r ns = Err (UnknownSecret r)"
proof -
  obtain s where s: "vault_seal c nonce r ns secret v = Ok s" "v' = v\<lparr>va_store := insert_secret s (va_store v)\<rparr>"
    using assms(2) by (auto simp: vault_store_def split: outcome.splits)
  note sd = vault_seal_epoch [OF s(1)]
  have stored: "get_secret (va_store v') r = Some s"
    "r' \<noteq> r \<Longrightarrow> get_secret (va_store v') r' = get_secret (va_store v) r'" for r'
    by (simp_all add: s(2) secrets.get_upsert sd(1))
  have "get_decrypted c v' r ns = Ok secret" if "sm_current_epoch (va_secrets v) = 0"
    by (rule stored_secret_opens [OF assms that])
  moreover have "get_decrypted c v' r ns = Err (VaultSecretError (UnknownEpoch 0))" if "\<not> has_epoch (va_secrets v) 0"
    using that by (simp add: get_decrypted_def sd s(2) secrets.get_upsert derive_key_def has_epoch_def hm_contains_def)
  moreover have "get_decrypted c v' r' = get_decrypted c v r'" if "r' \<noteq> r" for r'
    using stored(2) [OF that] by (auto simp: get_decrypted_def s(2) fun_eq_iff split: option.split)
  moreover have "get_decrypted c (snd (vault_remove r v')) r ns = Err (UnknownSecret r)"
    by (simp add: get_decrypted_def vault_remove_def secrets.get_del)
  ultimately show ?thesis by blast
qed

section \<open>Examples\<close>

text \<open>A cipher that prefixes the key, and a derivation that appends the namespace.\<close>

definition example_crypto :: crypto where
  "example_crypto = \<lparr>hkdf_expand = (\<lambda>k ns. Inr (k @ ns)), aead_encrypt = (\<lambda>k n p. Inr (k @ p)),
     aead_decrypt = (\<lambda>k n x. if take (length k) x = k then Inr (drop (length k) x) else Inl ''aead::Error''),
     hmac_sha256 = (\<lambda>k. Inr (\<lambda>d. k @ d))\<rparr>"

definition example_nonce :: "u8 list" where
  "example_nonce = replicate 12 7"

definition example_manager :: secret_manager where
  "example_manager = \<lparr>sm_keys = [(0, [1]), (1, [2])], sm_current_epoch = 0\<rparr>"

lemma example_law: "aead_law example_crypto"
  by (simp add: aead_law_def example_crypto_def)

lemma example_manager_wf: "manager_wf example_manager"
  by (simp add: manager_wf_def bt_wf_def has_epoch_def hm_contains_def example_manager_def)

theorem rotation_keeps_secrets_readable_witness:
  "\<exists>ek enc ek'. derive_storage_key example_crypto example_manager = Ok ek \<and>
    epoch_encrypt example_crypto example_nonce ek [5] = Ok enc \<and>
    derive_storage_key_for_epoch example_crypto
      (fold rotate [AddEpoch 2 [9], SetCurrent 2, Retire 1] example_manager) (es_key_epoch enc) = Ok ek' \<and>
    epoch_decrypt example_crypto ek' enc = Ok [5]"
proof -
  let ?ek = "\<lparr>ek_epoch = 0, ek_key = [1] @ bytes_of ''marie/at-rest-storage/v1''\<rparr>"
  let ?enc = "\<lparr>es_key_epoch = 0, es_ciphertext = ek_key ?ek @ [5], es_nonce = example_nonce,
    es_algorithm = ''ChaCha20-Poly1305''\<rparr>"
  have ek: "derive_storage_key example_crypto example_manager = Ok ?ek"
    by (simp add: derive_defs derive_key_def example_crypto_def example_manager_def)
  have enc: "epoch_encrypt example_crypto example_nonce ?ek [5] = Ok ?enc"
    by (simp add: epoch_encrypt_def key_encrypt_def example_crypto_def)
  show ?thesis
    using rotation_keeps_secrets_readable [OF example_law example_manager_wf ek enc,
        of "[AddEpoch 2 [9], SetCurrent 2, Retire 1]"] ek enc
    by (simp add: example_nonce_def example_manager_def)
qed

theorem retired_epoch_refused_witness:
  "derive_key example_crypto (fold rotate [SetCurrent 0] (example_manager\<lparr>sm_keys := [(0, [1])]\<rparr>)) 1 [] =
     Err (UnknownEpoch 1)"
  by (rule retired_epoch_refused [OF example_manager_wf, THEN conjunct2, THEN conjunct2, THEN conjunct1])
    (simp_all add: retire_epoch_def example_manager_def)

theorem vault_roundtrip_witness:
  "get_decrypted example_crypto
     (snd (vault_store example_crypto (ID 1 2) example_nonce ''models'' [5] \<lparr>va_secrets = example_manager, va_store = []\<rparr>))
     (SecretRef (ID 1 2)) ''models'' = Ok [5]"
proof -
  let ?v = "\<lparr>va_secrets = example_manager, va_store = []\<rparr>"
  have "vault_store example_crypto (ID 1 2) example_nonce ''models'' [5] ?v =
      (Ok (SecretRef (ID 1 2)), snd (vault_store example_crypto (ID 1 2) example_nonce ''models'' [5] ?v))"
    by (simp add: vault_store_def vault_seal_def derive_key_def key_encrypt_def example_crypto_def example_manager_def)
  from vault_roundtrip [OF example_law this] show ?thesis
    by (simp add: example_nonce_def example_manager_def)
qed

end
