(* ===== verification/Leases.thy ===== *)
theory Leases
  imports Selection Ordered_Maps
begin

text \<open>
  Leases on sessions (\<^verbatim>\<open>marie-core/src/lease\<close>): the authority that grants them, the storage that
  the consensus library drives, the election of the node that starts the group, and the client.
  The consensus library is third-party code: the types of its log identifiers, votes and
  memberships are parameters, and so are the answers to the remote calls. Times are integers;
  the clock is an argument of each step that reads it.
\<close>

section \<open>The authority\<close>

datatype lease_op = Acquire node_id int | Renew node_id u64 int | Release node_id u64

record lease_request =
  lr_request_id :: ID
  lr_session_id :: session_id
  lr_op :: lease_op

datatype lease_result =
    Granted u64 int
  | Renewed int
  | Denied node_id u64
  | NotLeader "node_id option"

record lease_response =
  lp_request_id :: ID
  lp_result :: lease_result

record lease_entry =
  le_holder :: node_id
  le_epoch :: u64
  le_expires_at :: int

definition has_expired :: "lease_entry \<Rightarrow> int \<Rightarrow> bool" where
  "has_expired l t \<longleftrightarrow> le_expires_at l \<le> t"

record lease_authority =
  la_leases :: "(session_id, lease_entry) hash_map"
  la_epochs :: "(session_id, u64) hash_map"

definition authority_default :: lease_authority where
  "authority_default = \<lparr>la_leases = [], la_epochs = []\<rparr>"

definition release :: "session_id \<Rightarrow> node_id \<Rightarrow> u64 \<Rightarrow> lease_authority \<Rightarrow> lease_result \<times> lease_authority" where
  "release sid holder epoch a = (case hm_get (la_leases a) sid of
      Some l \<Rightarrow>
        if le_holder l = holder \<and> le_epoch l = epoch
        then (Renewed 0, a\<lparr>la_leases := hm_remove sid (la_leases a)\<rparr>)
        else (Denied (le_holder l) (le_epoch l), a)
    | None \<Rightarrow> (Denied holder 0, a))"

definition renew ::
  "int \<Rightarrow> session_id \<Rightarrow> node_id \<Rightarrow> u64 \<Rightarrow> int \<Rightarrow> lease_authority \<Rightarrow> lease_result \<times> lease_authority" where
  "renew now sid holder epoch ttl a = (case hm_get (la_leases a) sid of
      Some l \<Rightarrow>
        if le_holder l = holder \<and> le_epoch l = epoch
        then (Renewed (now + ttl),
              a\<lparr>la_leases := hm_insert sid (l\<lparr>le_expires_at := now + ttl\<rparr>) (la_leases a)\<rparr>)
        else (Denied (le_holder l) (le_epoch l), a)
    | None \<Rightarrow> (Denied holder 0, a))"

text \<open>\<^verbatim>\<open>*e += 1\<close> wraps at 64 bits, as in a release build.\<close>

definition acquire ::
  "int \<Rightarrow> session_id \<Rightarrow> node_id \<Rightarrow> int \<Rightarrow> lease_authority \<Rightarrow> lease_result \<times> lease_authority" where
  "acquire now sid holder ttl a =
     (let grant =
        (let epoch = (case hm_get (la_epochs a) sid of Some e \<Rightarrow> e + 1 | None \<Rightarrow> 1);
             expires_at = now + ttl
         in (Granted epoch expires_at,
             a\<lparr>la_epochs := hm_insert sid epoch (la_epochs a),
               la_leases := hm_insert sid
                 \<lparr>le_holder = holder, le_epoch = epoch, le_expires_at = expires_at\<rparr> (la_leases a)\<rparr>))
      in case hm_get (la_leases a) sid of
           Some l \<Rightarrow> if \<not> has_expired l now then (Denied (le_holder l) (le_epoch l), a) else grant
         | None \<Rightarrow> grant)"

definition handle_request :: "int \<Rightarrow> lease_request \<Rightarrow> lease_authority \<Rightarrow> lease_response \<times> lease_authority" where
  "handle_request now req a =
     (let (result, a') = (case lr_op req of
          Acquire holder ttl \<Rightarrow> acquire now (lr_session_id req) holder ttl a
        | Renew holder epoch ttl \<Rightarrow> renew now (lr_session_id req) holder epoch ttl a
        | Release holder epoch \<Rightarrow> release (lr_session_id req) holder epoch a)
      in (\<lparr>lp_request_id = lr_request_id req, lp_result = result\<rparr>, a'))"

record lease_snapshot =
  ls_leases :: "(session_id, lease_entry) hash_map"
  ls_epochs :: "(session_id, u64) hash_map"

definition snapshot_default :: lease_snapshot where
  "snapshot_default = \<lparr>ls_leases = [], ls_epochs = []\<rparr>"

definition authority_snapshot :: "lease_authority \<Rightarrow> lease_snapshot" where
  "authority_snapshot a = \<lparr>ls_leases = la_leases a, ls_epochs = la_epochs a\<rparr>"

definition authority_restore :: "lease_snapshot \<Rightarrow> lease_authority \<Rightarrow> lease_authority" where
  "authority_restore s a = a\<lparr>la_leases := ls_leases s, la_epochs := ls_epochs s\<rparr>"

section \<open>The replicated state machine\<close>

datatype 'm entry_payload = Blank | Normal lease_request | Membership 'm

record 'l raft_log_id =
  rl_leader :: 'l
  rl_index :: u64

record ('l, 'm) raft_entry =
  re_log_id :: "'l raft_log_id"
  re_payload :: "'m entry_payload"

record ('l, 'm) stored_membership =
  sb_log_id :: "'l raft_log_id option"
  sb_membership :: 'm

record ('l, 'm) snapshot_meta =
  me_last_log_id :: "'l raft_log_id option"
  me_last_membership :: "('l, 'm) stored_membership"
  me_snapshot_id :: string

record ('l, 'm) state_machine =
  sm_authority :: lease_authority
  sm_last_applied :: "'l raft_log_id option"
  sm_last_membership :: "('l, 'm) stored_membership"
  sm_snapshot :: "(('l, 'm) snapshot_meta \<times> u8 list) option"

text \<open>One entry, at the time its replica applies it, and a batch of entries.\<close>

definition apply_entry ::
  "int \<Rightarrow> ('l, 'm) raft_entry \<Rightarrow> ('l, 'm) state_machine \<Rightarrow> lease_result \<times> ('l, 'm) state_machine" where
  "apply_entry now e s =
     (let s = s\<lparr>sm_last_applied := Some (re_log_id e)\<rparr> in
      case re_payload e of
        Blank \<Rightarrow> (NotLeader None, s)
      | Membership m \<Rightarrow>
          (NotLeader None, s\<lparr>sm_last_membership := \<lparr>sb_log_id = Some (re_log_id e), sb_membership = m\<rparr>\<rparr>)
      | Normal req \<Rightarrow>
          (let (response, a) = handle_request now req (sm_authority s)
           in (lp_result response, s\<lparr>sm_authority := a\<rparr>)))"

fun apply_entries ::
  "(int \<times> ('l, 'm) raft_entry) list \<Rightarrow> ('l, 'm) state_machine \<Rightarrow> lease_result list \<times> ('l, 'm) state_machine" where
  "apply_entries [] s = ([], s)"
| "apply_entries ((now, e) # es) s =
     (let (r, s') = apply_entry now e s; (rs, s'') = apply_entries es s' in (r # rs, s''))"

text \<open>
  The snapshot is serialised with \<^verbatim>\<open>serde_json\<close>; a failure gives no bytes, and bytes that do not
  parse give the empty snapshot. \<open>nanos\<close> is the time in nanoseconds.
\<close>

definition build_snapshot ::
  "(lease_snapshot \<Rightarrow> u8 list option) \<Rightarrow> nat \<Rightarrow> ('l, 'm) state_machine \<Rightarrow>
     (('l, 'm) snapshot_meta \<times> u8 list) \<times> ('l, 'm) state_machine" where
  "build_snapshot to_vec nanos s =
     (let data = (case to_vec (authority_snapshot (sm_authority s)) of Some d \<Rightarrow> d | None \<Rightarrow> []);
          meta = \<lparr>me_last_log_id = sm_last_applied s, me_last_membership = sm_last_membership s,
            me_snapshot_id = show_nat (case sm_last_applied s of Some i \<Rightarrow> unat (rl_index i) | None \<Rightarrow> 0) @ ''-'' @ show_nat nanos\<rparr>
      in ((meta, data), s\<lparr>sm_snapshot := Some (meta, data)\<rparr>))"

definition install_snapshot ::
  "(u8 list \<Rightarrow> lease_snapshot option) \<Rightarrow> ('l, 'm) snapshot_meta \<Rightarrow> u8 list \<Rightarrow>
     ('l, 'm) state_machine \<Rightarrow> ('l, 'm) state_machine" where
  "install_snapshot from_slice meta data s =
     (let restored = (case from_slice data of Some r \<Rightarrow> r | None \<Rightarrow> snapshot_default) in
      s\<lparr>sm_authority := authority_restore restored (sm_authority s),
        sm_last_applied := me_last_log_id meta,
        sm_last_membership := me_last_membership meta,
        sm_snapshot := Some (meta, data)\<rparr>)"

section \<open>The log\<close>

record ('l, 'm, 'v) raft_log_store =
  lg_log :: "(u64, ('l, 'm) raft_entry) btree_map"
  lg_vote :: "'v option"
  lg_last_purged :: "'l raft_log_id option"

definition raft_log_store_default :: "('l, 'm, 'v) raft_log_store" where
  "raft_log_store_default = \<lparr>lg_log = [], lg_vote = None, lg_last_purged = None\<rparr>"

definition try_get_log_entries :: "(u64 \<Rightarrow> bool) \<Rightarrow> ('l, 'm, 'v) raft_log_store \<Rightarrow> ('l, 'm) raft_entry list" where
  "try_get_log_entries within s = map snd (filter (\<lambda>kv. within (fst kv)) (lg_log s))"

definition get_log_state ::
  "('l, 'm, 'v) raft_log_store \<Rightarrow> 'l raft_log_id option \<times> 'l raft_log_id option" where
  "get_log_state s =
     (lg_last_purged s,
      if lg_log s = [] then lg_last_purged s else Some (re_log_id (snd (last (lg_log s)))))"

definition save_vote :: "'v \<Rightarrow> ('l, 'm, 'v) raft_log_store \<Rightarrow> ('l, 'm, 'v) raft_log_store" where
  "save_vote v s = s\<lparr>lg_vote := Some v\<rparr>"

definition log_append :: "('l, 'm) raft_entry list \<Rightarrow> ('l, 'm, 'v) raft_log_store \<Rightarrow> ('l, 'm, 'v) raft_log_store" where
  "log_append es s = s\<lparr>lg_log := fold (\<lambda>e. bt_insert (rl_index (re_log_id e)) e) es (lg_log s)\<rparr>"

definition log_truncate :: "'l raft_log_id \<Rightarrow> ('l, 'm, 'v) raft_log_store \<Rightarrow> ('l, 'm, 'v) raft_log_store" where
  "log_truncate i s = s\<lparr>lg_log := bt_split_off (rl_index i) (lg_log s)\<rparr>"

definition log_purge :: "'l raft_log_id \<Rightarrow> ('l, 'm, 'v) raft_log_store \<Rightarrow> ('l, 'm, 'v) raft_log_store" where
  "log_purge i s = s\<lparr>lg_log := bt_retain (\<lambda>k. rl_index i < k) (lg_log s), lg_last_purged := Some i\<rparr>"

section \<open>Identities in the group and its start\<close>

unbundle bit_operations_syntax

datatype lease_node_id = LeaseNodeId u64

instantiation lease_node_id :: linorder
begin

fun less_eq_lease_node_id :: "lease_node_id \<Rightarrow> lease_node_id \<Rightarrow> bool" where
  "LeaseNodeId a \<le> LeaseNodeId b \<longleftrightarrow> a \<le> b"

fun less_lease_node_id :: "lease_node_id \<Rightarrow> lease_node_id \<Rightarrow> bool" where
  "LeaseNodeId a < LeaseNodeId b \<longleftrightarrow> a < b"

instance
proof
  fix x y z :: lease_node_id
  show "(x < y) = (x \<le> y \<and> \<not> y \<le> x)" by (cases x; cases y) auto
  show "x \<le> x" by (cases x) simp
  show "x \<le> y \<Longrightarrow> y \<le> z \<Longrightarrow> x \<le> z" by (cases x; cases y; cases z) auto
  show "x \<le> y \<Longrightarrow> y \<le> x \<Longrightarrow> x = y" by (cases x; cases y) auto
  show "x \<le> y \<or> y \<le> x" by (cases x; cases y) auto
qed

end

fun lease_node_id_display :: "lease_node_id \<Rightarrow> string" where
  "lease_node_id_display (LeaseNodeId w) = hex_pad16 w"

definition stable_hash :: "u8 list \<Rightarrow> u64" where
  "stable_hash bytes =
     (let hash = fold (\<lambda>b hash. (hash XOR ucast b) * 0x100000001b3) bytes 0xcbf29ce484222325;
          hash = hash XOR drop_bit 33 hash;
          hash = hash * 0xff51afd7ed558ccd;
          hash = hash XOR drop_bit 33 hash;
          hash = hash * 0xc4ceb9fe1a85ec53
      in hash XOR drop_bit 33 hash)"

definition lease_node_id_from :: "node_id \<Rightarrow> lease_node_id" where
  "lease_node_id_from n = LeaseNodeId (stable_hash (node_id_bytes n))"

text \<open>\<^verbatim>\<open>min_by_key\<close>: the first element with the least key.\<close>

fun min_by_key :: "('a \<Rightarrow> 'k :: linorder) \<Rightarrow> 'a list \<Rightarrow> 'a option" where
  "min_by_key f [] = None"
| "min_by_key f (x # xs) = Some (fold (\<lambda>y best. if f y < f best then y else best) xs x)"

text \<open>
  \<^verbatim>\<open>bootstrap\<close> from the end of its delay on: the members it initialises the group with, if it
  does. \<open>initialized\<close> is the answer of the consensus library, \<open>None\<close> on an error.
\<close>

definition bootstrap_peers :: "annuary \<Rightarrow> node_id \<Rightarrow> node_id list" where
  "bootstrap_peers a local =
     (let peers = nodes_with a (set_capability Lease capabilities_default) in
      if local \<in> set peers then peers else peers @ [local])"

definition bootstrap ::
  "annuary \<Rightarrow> node_id \<Rightarrow> bool option \<Rightarrow> (lease_node_id, node_id) btree_map option" where
  "bootstrap a local initialized =
     (let peers = bootstrap_peers a local in
      if min_by_key lease_node_id_from peers \<noteq> Some local then None
      else case initialized of
          Some False \<Rightarrow> Some (bt_collect (map (\<lambda>n. (lease_node_id_from n, n)) peers))
        | _ \<Rightarrow> None)"

section \<open>The client\<close>

text \<open>
  What a remote submission answers: a transport error, an error of the consensus library, which
  may name the leader, or the result.
\<close>

datatype raft_error = ForwardToLeader string "node_id option" | OtherRaftError string

fun raft_error_text :: "raft_error \<Rightarrow> string" where
  "raft_error_text (ForwardToLeader t _) = t"
| "raft_error_text (OtherRaftError t) = t"

type_synonym submit_answer = "error + (raft_error + lease_result)"

record lease_client =
  lc_annuary :: annuary
  lc_leader_hint :: "node_id option"

definition candidate :: "lease_client \<Rightarrow> node_id option" where
  "candidate c = (case lc_leader_hint c of
      Some hint \<Rightarrow> Some hint
    | None \<Rightarrow>
        (case nodes_with (lc_annuary c) (set_capability Lease capabilities_default) of
           [] \<Rightarrow> None
         | n # _ \<Rightarrow> Some n))"

definition retry_on_forward ::
  "(node_id \<Rightarrow> lease_request \<Rightarrow> submit_answer) \<Rightarrow> lease_request \<Rightarrow> raft_error \<Rightarrow> node_id \<Rightarrow>
     (lease_client, error, lease_result) prog" where
  "retry_on_forward invoke req e tried c =
     (case (case e of ForwardToLeader _ leader \<Rightarrow> leader | _ \<Rightarrow> None) of
        None \<Rightarrow> (Err (err_msg (''echec de la soumission de la requete de bail sur '' @
            node_id_display tried @ '' : '' @ raft_error_text e)), c)
      | Some target \<Rightarrow>
          (let c = c\<lparr>lc_leader_hint := Some target\<rparr> in
           case invoke target req of
             Inl err \<Rightarrow> (Err err, c)
           | Inr (Inl e') \<Rightarrow> (Err (err_msg (''echec de la soumission de la requete de bail sur le leader '' @
                node_id_display target @ '' : '' @ raft_error_text e')), c)
           | Inr (Inr r) \<Rightarrow> (Ok r, c)))"

definition submit ::
  "(node_id \<Rightarrow> lease_request \<Rightarrow> submit_answer) \<Rightarrow> ID \<Rightarrow> session_id \<Rightarrow> lease_op \<Rightarrow>
     (lease_client, error, lease_result) prog" where
  "submit invoke i sid op c =
     (let req = \<lparr>lr_request_id = i, lr_session_id = sid, lr_op = op\<rparr> in
      case candidate c of
        None \<Rightarrow> (Err (err_msg ''aucun pair Capability::Lease connu pour soumettre la requete de bail''), c)
      | Some target \<Rightarrow>
          (case invoke target req of
             Inl err \<Rightarrow> (Err err, c)
           | Inr (Inr r) \<Rightarrow> (Ok r, c)
           | Inr (Inl e) \<Rightarrow> retry_on_forward invoke req e target c))"

abbreviation client_acquire where "client_acquire invoke i sid holder ttl \<equiv> submit invoke i sid (Acquire holder ttl)"
abbreviation client_renew where "client_renew invoke i sid holder epoch ttl \<equiv> submit invoke i sid (Renew holder epoch ttl)"
abbreviation client_release where "client_release invoke i sid holder epoch \<equiv> submit invoke i sid (Release holder epoch)"

section \<open>The authority refines one slot per session\<close>

text \<open>
  The specification of one session: the number of grants made so far, and the current holder with
  the time its lease runs out. The authority keeps two tables with the epoch written in both.
\<close>

type_synonym slot = "u64 \<times> (node_id \<times> int) option"

fun slot_step :: "int \<Rightarrow> lease_op \<Rightarrow> slot \<Rightarrow> lease_result \<times> slot" where
  "slot_step now (Acquire h ttl) (e, held) = (case held of
      Some (h', x) \<Rightarrow>
        if now < x then (Denied h' e, (e, held)) else (Granted (e + 1) (now + ttl), (e + 1, Some (h, now + ttl)))
    | None \<Rightarrow> (Granted (e + 1) (now + ttl), (e + 1, Some (h, now + ttl))))"
| "slot_step now (Renew h ep ttl) (e, held) = (case held of
      Some (h', x) \<Rightarrow>
        if h' = h \<and> e = ep then (Renewed (now + ttl), (e, Some (h, now + ttl))) else (Denied h' e, (e, held))
    | None \<Rightarrow> (Denied h 0, (e, held)))"
| "slot_step now (Release h ep) (e, held) = (case held of
      Some (h', x) \<Rightarrow> if h' = h \<and> e = ep then (Renewed 0, (e, None)) else (Denied h' e, (e, held))
    | None \<Rightarrow> (Denied h 0, (e, held)))"

definition slot_of :: "lease_authority \<Rightarrow> session_id \<Rightarrow> slot" where
  "slot_of a sid =
     (case hm_get (la_epochs a) sid of None \<Rightarrow> 0 | Some e \<Rightarrow> e,
      map_option (\<lambda>l. (le_holder l, le_expires_at l)) (hm_get (la_leases a) sid))"

definition authority_wf :: "lease_authority \<Rightarrow> bool" where
  "authority_wf a \<longleftrightarrow>
     (\<forall>sid l. hm_get (la_leases a) sid = Some l \<longrightarrow> hm_get (la_epochs a) sid = Some (le_epoch l))"

lemma authority_default_wf [simp]: "authority_wf authority_default"
  by (simp add: authority_wf_def authority_default_def)

lemmas authority_defs = handle_request_def acquire_def renew_def release_def has_expired_def Let_def

lemma handle_request_wf: "authority_wf a \<Longrightarrow> authority_wf (snd (handle_request now req a))"
  by (cases "lr_op req") (auto simp: authority_wf_def authority_defs split: option.splits)

lemma handle_request_slot:
  assumes "authority_wf a" and "handle_request now req a = (resp, a')"
  shows "slot_step now (lr_op req) (slot_of a (lr_session_id req)) =
    (lp_result resp, slot_of a' (lr_session_id req))"
proof (cases "hm_get (la_leases a) (lr_session_id req)")
  case None
  then show ?thesis
    using assms(2) by (cases "lr_op req") (auto simp: authority_defs slot_of_def split: option.splits)
next
  case (Some l)
  with assms(1) have "hm_get (la_epochs a) (lr_session_id req) = Some (le_epoch l)"
    by (simp add: authority_wf_def)
  with Some show ?thesis
    using assms(2) by (cases "lr_op req") (auto simp: authority_defs slot_of_def split: if_splits)
qed

lemma handle_request_other:
  "handle_request now req a = (resp, a') \<Longrightarrow> sid \<noteq> lr_session_id req \<Longrightarrow> slot_of a' sid = slot_of a sid"
  by (cases "lr_op req") (auto simp: authority_defs slot_of_def split: option.splits if_splits)

text \<open>
  C2: the authority implements one slot per session: every request answers as the slot of its
  session does and moves that slot only, and the epochs in the two tables stay equal.
\<close>

theorem authority_refines_slots:
  assumes "authority_wf a" and "handle_request now req a = (resp, a')"
  shows "authority_wf a' \<and>
    slot_step now (lr_op req) (slot_of a (lr_session_id req)) =
      (lp_result resp, slot_of a' (lr_session_id req)) \<and>
    (\<forall>sid. sid \<noteq> lr_session_id req \<longrightarrow> slot_of a' sid = slot_of a sid) \<and>
    lp_request_id resp = lr_request_id req"
  using handle_request_wf [OF assms(1), of now req] handle_request_slot [OF assms] handle_request_other [OF assms(2)]
    assms(2)
  by (auto simp: handle_request_def Let_def split: prod.splits)

section \<open>Runs of the state machine\<close>

lemma apply_entry_slot:
  assumes "authority_wf (sm_authority s)" and "apply_entry now e s = (r, s')"
  shows "authority_wf (sm_authority s') \<and> sm_last_applied s' = Some (re_log_id e) \<and>
    slot_of (sm_authority s') sid =
      (case re_payload e of
         Normal req \<Rightarrow> if lr_session_id req = sid then snd (slot_step now (lr_op req) (slot_of (sm_authority s) sid))
           else slot_of (sm_authority s) sid
       | _ \<Rightarrow> slot_of (sm_authority s) sid) \<and>
    (\<forall>req. re_payload e = Normal req \<longrightarrow>
      r = fst (slot_step now (lr_op req) (slot_of (sm_authority s) (lr_session_id req))))"
proof (cases "re_payload e")
  case (Normal req)
  obtain resp a' where h: "handle_request now req (sm_authority s) = (resp, a')" by (rule prod.exhaust)
  note facts = handle_request_wf [OF assms(1), of now req] handle_request_slot [OF assms(1) h]
    handle_request_other [OF h, of sid]
  show ?thesis using facts assms(2) by (auto simp: apply_entry_def Normal h Let_def)
qed (use assms in \<open>auto simp: apply_entry_def Let_def\<close>)

text \<open>The epochs a run grants on one session.\<close>

fun granted :: "session_id \<Rightarrow> (int \<times> ('l, 'm) raft_entry) list \<Rightarrow> lease_result list \<Rightarrow> u64 list" where
  "granted sid ((now, e) # es) (r # rs) =
     (case re_payload e of
        Normal req \<Rightarrow> (case r of Granted ep _ \<Rightarrow> if lr_session_id req = sid then [ep] else [] | _ \<Rightarrow> [])
      | _ \<Rightarrow> []) @ granted sid es rs"
| "granted sid _ _ = []"

lemma slot_step_epoch:
  "slot_step now op (e, held) = (r, slot') \<Longrightarrow>
    (case r of Granted ep _ \<Rightarrow> ep = e + 1 \<and> fst slot' = e + 1 | _ \<Rightarrow> fst slot' = e)"
  by (cases op) (auto split: option.splits if_splits)

lemma granted_cons:
  assumes "authority_wf (sm_authority s)" and "apply_entry now e s = (r, s')"
  shows "(granted sid ((now, e) # es) (r # rs) = granted sid es rs \<and>
      fst (slot_of (sm_authority s') sid) = fst (slot_of (sm_authority s) sid)) \<or>
    (granted sid ((now, e) # es) (r # rs) = (fst (slot_of (sm_authority s) sid) + 1) # granted sid es rs \<and>
      fst (slot_of (sm_authority s') sid) = fst (slot_of (sm_authority s) sid) + 1)"
proof (cases "\<exists>req. re_payload e = Normal req \<and> lr_session_id req = sid")
  case True
  then obtain req where req: "re_payload e = Normal req" "lr_session_id req = sid" by blast
  obtain ep held where slot: "slot_of (sm_authority s) sid = (ep, held)" by (rule prod.exhaust)
  obtain r' slot' where st: "slot_step now (lr_op req) (ep, held) = (r', slot')" by (rule prod.exhaust)
  show ?thesis
    using apply_entry_slot [OF assms, of sid] slot_step_epoch [OF st]
    by (cases r') (auto simp: req slot st)
next
  case False
  then show ?thesis
    using apply_entry_slot [OF assms, of sid] by (auto split: entry_payload.splits lease_result.splits)
qed

lemma granted_counts:
  assumes "authority_wf (sm_authority s)" and "apply_entries es s = (rs, s')"
  shows "\<exists>n. granted sid es rs = map (\<lambda>k. fst (slot_of (sm_authority s) sid) + word_of_nat k) [1..<Suc n] \<and>
    fst (slot_of (sm_authority s') sid) = fst (slot_of (sm_authority s) sid) + word_of_nat n"
  using assms
proof (induction es s arbitrary: rs rule: apply_entries.induct)
  case (1 s)
  then show ?case by (intro exI [of _ 0]) auto
next
  case (2 now e es s)
  obtain r s1 where one: "apply_entry now e s = (r, s1)" by (rule prod.exhaust)
  obtain rs' where rest: "apply_entries es s1 = (rs', s')" "rs = r # rs'"
    using 2(3) by (auto simp: one split: prod.splits)
  have wf: "authority_wf (sm_authority s1)" using apply_entry_slot [OF 2(2) one] by blast
  obtain n where n: "granted sid es rs' = map (\<lambda>k. fst (slot_of (sm_authority s1) sid) + word_of_nat k) [1..<Suc n]"
      "fst (slot_of (sm_authority s') sid) = fst (slot_of (sm_authority s1) sid) + word_of_nat n"
    using "2.IH" [OF one [symmetric] refl wf rest(1)] by blast
  have shift: "map (\<lambda>k. c + 1 + word_of_nat k) [1..<Suc n] = map (\<lambda>k. c + word_of_nat k) [2..<Suc (Suc n)]" for c :: u64
    by (simp add: numeral_2_eq_2 map_Suc_upt [symmetric] comp_def ac_simps del: upt_Suc)
  have split: "[1..<Suc (Suc n)] = 1 # [2..<Suc (Suc n)]" by (simp add: upt_rec numeral_2_eq_2)
  from granted_cons [OF 2(2) one, of sid es rs'] show ?case
  proof
    assume a: "granted sid ((now, e) # es) (r # rs') = granted sid es rs' \<and>
      fst (slot_of (sm_authority s1) sid) = fst (slot_of (sm_authority s) sid)"
    then show ?thesis using n rest(2) by (intro exI [of _ n]) simp
  next
    assume a: "granted sid ((now, e) # es) (r # rs') = (fst (slot_of (sm_authority s) sid) + 1) # granted sid es rs' \<and>
      fst (slot_of (sm_authority s1) sid) = fst (slot_of (sm_authority s) sid) + 1"
    then have "granted sid ((now, e) # es) rs =
        map (\<lambda>k. fst (slot_of (sm_authority s) sid) + word_of_nat k) [1..<Suc (Suc n)]"
      unfolding split rest(2) list.map shift [symmetric] using n(1) by (simp del: upt_Suc granted.simps)
    then show ?thesis using n(2) a by (intro exI [of _ "Suc n"]) (simp add: ac_simps)
  qed
qed

text \<open>
  C6: over any run of the replicated state machine from its initial state, the epochs granted on
  a session are 1, 2, 3 and so on, whatever is renewed, released or left to expire in between: a
  later holder always has a greater epoch, as long as fewer than \<open>2 ^ 64\<close> grants were made.
\<close>

theorem granted_epochs_increase:
  assumes "apply_entries es s = (rs, s')" and "sm_authority s = authority_default"
  shows "granted sid es rs = map word_of_nat [1..<Suc (length (granted sid es rs))] \<and>
    (length (granted sid es rs) < 2 ^ 64 \<longrightarrow> sorted_wrt (<) (granted sid es rs))"
proof -
  have "fst (slot_of authority_default sid) = 0" by (simp add: slot_of_def authority_default_def)
  then obtain n where n: "granted sid es rs = map word_of_nat [1..<Suc n]"
    using granted_counts [of s es rs s' sid] assms by (auto simp del: upt_Suc)
  have len: "length (granted sid es rs) = n" unfolding n by simp
  have "sorted_wrt (<) (map (word_of_nat :: nat \<Rightarrow> u64) [1..<Suc n])" if "n < 2 ^ 64"
    unfolding sorted_wrt_map
  proof (rule sorted_wrt_mono_rel [OF _ sorted_wrt_upt])
    fix x y assume "x \<in> set [1..<Suc n]" "y \<in> set [1..<Suc n]" "x < y"
    moreover from this that have "x < 2 ^ 64" "y < 2 ^ 64" by auto
    ultimately show "(word_of_nat x :: u64) < word_of_nat y"
      by (simp add: word_less_nat_alt unsigned_of_nat take_bit_nat_eq_self)
  qed
  with n len show ?thesis by metis
qed

text \<open>Requests that a lease held by \<open>h\<close> under epoch \<open>e\<close> has to resist.\<close>

fun foreign :: "node_id \<Rightarrow> u64 \<Rightarrow> lease_op \<Rightarrow> bool" where
  "foreign h e (Acquire _ _) \<longleftrightarrow> True"
| "foreign h e (Renew h' e' _) \<longleftrightarrow> (h', e') \<noteq> (h, e)"
| "foreign h e (Release h' e') \<longleftrightarrow> (h', e') \<noteq> (h, e)"

lemma slot_step_foreign:
  "foreign h e op \<Longrightarrow> now < x \<Longrightarrow> slot_step now op (e, Some (h, x)) = (Denied h e, (e, Some (h, x)))"
  by (cases op) auto

text \<open>
  C5: while a lease has not run out, no run of other requests takes it away: every acquisition,
  by any node, and every renewal or release under another holder or epoch is denied with the
  name of the holder, and the lease is as it was.
\<close>

theorem lease_is_exclusive:
  assumes "authority_wf (sm_authority s)" and "slot_of (sm_authority s) sid = (e, Some (h, x))"
    and "\<forall>(now, ent) \<in> set es. now < x \<and>
      (\<forall>req. re_payload ent = Normal req \<and> lr_session_id req = sid \<longrightarrow> foreign h e (lr_op req))"
    and "apply_entries es s = (rs, s')"
  shows "slot_of (sm_authority s') sid = (e, Some (h, x)) \<and>
    list_all2 (\<lambda>(now, ent) r. \<forall>req. re_payload ent = Normal req \<and> lr_session_id req = sid \<longrightarrow> r = Denied h e) es rs"
  using assms
proof (induction es s arbitrary: rs rule: apply_entries.induct)
  case (1 s)
  then show ?case by simp
next
  case (2 now ent es s)
  obtain r s1 where one: "apply_entry now ent s = (r, s1)" by (rule prod.exhaust)
  obtain rs' where rest: "apply_entries es s1 = (rs', s')" "rs = r # rs'"
    using 2(5) by (auto simp: one split: prod.splits)
  note step = apply_entry_slot [OF 2(2) one, of sid]
  have held: "slot_of (sm_authority s1) sid = (e, Some (h, x))"
    using step 2(3,4) slot_step_foreign [of h e _ now x] by (auto split: entry_payload.splits)
  have "\<forall>req. re_payload ent = Normal req \<and> lr_session_id req = sid \<longrightarrow> r = Denied h e"
    using step 2(3,4) slot_step_foreign [of h e _ now x] by auto
  moreover have "slot_of (sm_authority s') sid = (e, Some (h, x)) \<and>
    list_all2 (\<lambda>(now, ent) r. \<forall>req. re_payload ent = Normal req \<and> lr_session_id req = sid \<longrightarrow> r = Denied h e) es rs'"
    by (rule "2.IH" [OF one [symmetric] refl _ held _ rest(1)]) (use step 2(4) in auto)
  ultimately show ?case by (simp add: rest(2))
qed

text \<open>
  The authority reads the clock when an entry is applied, so two replicas that apply the same
  acquisition at times on the two sides of an expiry answer differently and end in different
  states.
\<close>

theorem replicas_diverge:
  assumes "authority_wf a" and "slot_of a (lr_session_id req) = (e, Some (h, x))"
    and "lr_op req = Acquire n ttl" and "t1 < x" and "x \<le> t2" and "e + 1 \<noteq> e"
  shows "fst (handle_request t1 req a) \<noteq> fst (handle_request t2 req a) \<and>
    slot_of (snd (handle_request t1 req a)) (lr_session_id req) \<noteq>
    slot_of (snd (handle_request t2 req a)) (lr_session_id req)"
proof -
  obtain r1 a1 r2 a2 where h: "handle_request t1 req a = (r1, a1)" "handle_request t2 req a = (r2, a2)"
    by (meson prod.exhaust)
  have "lp_result r1 = Denied h e" "slot_of a1 (lr_session_id req) = (e, Some (h, x))"
    using handle_request_slot [OF assms(1) h(1)] assms(2-4) by auto
  moreover have "lp_result r2 = Granted (e + 1) (t2 + ttl)"
    "slot_of a2 (lr_session_id req) = (e + 1, Some (n, t2 + ttl))"
    using handle_request_slot [OF assms(1) h(2)] assms(2,3,5) by auto
  ultimately show ?thesis using assms(6) by (auto simp: h)
qed

section \<open>Snapshots of the authority\<close>

lemma snapshot_restores: "authority_restore (authority_snapshot a) b = a\<lparr>lease_authority.more := lease_authority.more b\<rparr>"
  by (simp add: authority_restore_def authority_snapshot_def)

lemma installed_snapshot:
  assumes "\<And>x. \<exists>d. to_vec x = Some d \<and> from_slice d = Some x"
    and "build_snapshot to_vec nanos s = ((meta, data), s')"
  shows "sm_authority (install_snapshot from_slice meta data t) = sm_authority s \<and>
    sm_last_applied (install_snapshot from_slice meta data t) = sm_last_applied s \<and>
    sm_last_membership (install_snapshot from_slice meta data t) = sm_last_membership s"
proof -
  obtain d where "to_vec (authority_snapshot (sm_authority s)) = Some d"
      "from_slice d = Some (authority_snapshot (sm_authority s))"
    using assms(1) by blast
  then show ?thesis
    using assms(2)
    by (auto simp: build_snapshot_def install_snapshot_def Let_def authority_restore_def authority_snapshot_def)
qed

section \<open>The group and its client\<close>

text \<open>
  The identity of a node in the group is the finalizer of rendezvous hashing applied to its
  FNV hash, so two nodes share an identity exactly when their FNV hashes collide.
\<close>

theorem lease_identity_is_mixed_fnv:
  "stable_hash bytes = fmix64 (fnv1a bytes) \<and>
   (lease_node_id_from n = lease_node_id_from m \<longleftrightarrow> fnv1a (node_id_bytes n) = fnv1a (node_id_bytes m))"
proof -
  have mixed: "stable_hash bs = fmix64 (fnv1a bs)" for bs
    by (simp add: stable_hash_def fmix64_def fnv1a_def FNV_OFFSET_def FNV_PRIME_def Let_def)
  then show ?thesis by (simp add: lease_node_id_from_def fmix64_inj)
qed

lemma min_by_key_least: "min_by_key f xs = Some m \<Longrightarrow> m \<in> set xs \<and> (\<forall>y \<in> set xs. f m \<le> f y)"
proof (cases xs)
  case (Cons x ys)
  have "fold (\<lambda>y best. if f y < f best then y else best) ys x \<in> set (x # ys) \<and>
      (\<forall>y \<in> set (x # ys). f (fold (\<lambda>y best. if f y < f best then y else best) ys x) \<le> f y)"
  proof (induction ys arbitrary: x)
    case (Cons z zs)
    show ?case using Cons.IH [of "if f z < f x then z else x"] by (auto split: if_splits)
  qed simp
  then show "min_by_key f xs = Some m \<Longrightarrow> ?thesis" by (simp add: Cons)
qed simp

lemma min_by_key_unique:
  assumes "inj_on f (set xs)" and "m \<in> set xs" and "\<forall>y \<in> set xs. f m \<le> f y"
  shows "min_by_key f xs = Some m"
proof -
  obtain k where k: "min_by_key f xs = Some k" using assms(2) by (cases xs) auto
  then have "f k = f m" using min_by_key_least [OF k] assms(2,3) by (auto intro: order.antisym)
  then show ?thesis using k min_by_key_least [OF k] assms(1,2) by (auto dest: inj_onD)
qed

text \<open>
  When the nodes of the group all see each other and their identities differ, exactly one of
  them initialises the group.
\<close>

theorem one_node_bootstraps:
  assumes "\<forall>n \<in> N. set (bootstrap_peers (directory n) n) = N" and "N \<noteq> {}"
    and "inj_on lease_node_id_from N"
  shows "\<exists>!n. n \<in> N \<and> bootstrap (directory n) n (Some False) \<noteq> None"
proof -
  have "finite N" using assms(1,2) by (metis all_not_in_conv finite_set)
  then obtain m where m: "m \<in> N" "\<forall>y \<in> N. lease_node_id_from m \<le> lease_node_id_from y"
    using assms(2) arg_min_if_finite [of N lease_node_id_from]
    by (metis arg_min_if_finite(1) leI)
  have starts: "bootstrap (directory n) n (Some False) \<noteq> None \<longleftrightarrow> n = m" if "n \<in> N" for n
  proof -
    have view: "set (bootstrap_peers (directory n) n) = N" using assms(1) that by blast
    have "min_by_key lease_node_id_from (bootstrap_peers (directory n) n) = Some m"
      by (rule min_by_key_unique) (use view assms(3) m in auto)
    then show ?thesis by (auto simp: bootstrap_def Let_def)
  qed
  with m(1) show ?thesis by blast
qed

text \<open>
  The client never forgets the leader it was told of: when that node no longer answers, every
  later request fails with the same transport error, whatever other nodes could serve it.
\<close>

theorem stale_leader_hint:
  assumes "lc_leader_hint c = Some l" and "\<forall>req. invoke l req = Inl err"
  shows "fold (\<lambda>(i, sid, op) c. snd (submit invoke i sid op c)) earlier c = c \<and>
    submit invoke i sid op (fold (\<lambda>(i, sid, op) c. snd (submit invoke i sid op c)) earlier c) = (Err err, c)"
proof -
  have fails: "submit invoke i sid op c = (Err err, c)" for i sid op
    using assms by (simp add: submit_def candidate_def)
  then have "fold (\<lambda>(i, sid, op) c. snd (submit invoke i sid op c)) earlier c = c"
    by (induction earlier) auto
  with fails show ?thesis by simp
qed

section \<open>Examples\<close>

definition example_session :: session_id where
  "example_session = SessionId (ID 0 1)"

definition example_request :: "lease_op \<Rightarrow> lease_request" where
  "example_request op = \<lparr>lr_request_id = ID 0 9, lr_session_id = example_session, lr_op = op\<rparr>"

definition example_entry :: "u64 \<Rightarrow> lease_op \<Rightarrow> (unit, unit) raft_entry" where
  "example_entry i op =
     \<lparr>re_log_id = \<lparr>rl_leader = (), rl_index = i\<rparr>, re_payload = Normal (example_request op)\<rparr>"

definition example_machine :: "(unit, unit) state_machine" where
  "example_machine = \<lparr>sm_authority = authority_default, sm_last_applied = None,
     sm_last_membership = \<lparr>sb_log_id = None, sb_membership = ()\<rparr>, sm_snapshot = None\<rparr>"

definition example_log :: "(int \<times> (unit, unit) raft_entry) list" where
  "example_log = [(0, example_entry 1 (Acquire (example_node 1) 10)), (5, example_entry 2 (Acquire (example_node 2) 10)),
     (6, example_entry 3 (Release (example_node 1) 1)), (7, example_entry 4 (Acquire (example_node 2) 10))]"

text \<open>The authority after node 1 took the lease until time 10.\<close>

definition example_held :: "(unit, unit) state_machine" where
  "example_held = snd (apply_entries (take 1 example_log) example_machine)"

lemma example_results:
  "fst (apply_entries example_log example_machine) =
     [Granted 1 10, Denied (example_node 1) 1, Renewed 0, Granted 2 17]"
  by code_simp

lemma example_held_slot: "slot_of (sm_authority example_held) example_session = (1, Some (example_node 1, 10))"
  by code_simp

lemma example_held_wf: "authority_wf (sm_authority example_held)"
proof -
  have "apply_entry 0 (example_entry 1 (Acquire (example_node 1) 10)) example_machine =
      (fst (apply_entry 0 (example_entry 1 (Acquire (example_node 1) 10)) example_machine), example_held)"
    by (simp add: example_held_def example_log_def split: prod.splits)
  from apply_entry_slot [OF _ this] show ?thesis by (simp add: example_machine_def)
qed

theorem authority_refines_slots_witness:
  "\<exists>resp a'. handle_request 5 (example_request (Acquire (example_node 2) 10)) (sm_authority example_held) = (resp, a') \<and>
    slot_step 5 (Acquire (example_node 2) 10) (slot_of (sm_authority example_held) example_session) =
      (lp_result resp, slot_of a' example_session)"
proof -
  obtain resp a' where h: "handle_request 5 (example_request (Acquire (example_node 2) 10)) (sm_authority example_held) = (resp, a')"
    by (rule prod.exhaust)
  from authority_refines_slots [OF example_held_wf h] h show ?thesis
    by (auto simp: example_request_def)
qed

theorem granted_epochs_increase_witness:
  "granted example_session example_log (fst (apply_entries example_log example_machine)) = [1, 2] \<and>
   sorted_wrt (<) (granted example_session example_log (fst (apply_entries example_log example_machine)))"
proof -
  have two: "granted example_session example_log (fst (apply_entries example_log example_machine)) = [1, 2]"
    by code_simp
  have "apply_entries example_log example_machine =
      (fst (apply_entries example_log example_machine), snd (apply_entries example_log example_machine))" by simp
  from granted_epochs_increase [OF this, of example_session] two show ?thesis
    by (simp add: example_machine_def)
qed

theorem lease_is_exclusive_witness:
  "slot_of (sm_authority (snd (apply_entries [(5, example_entry 2 (Acquire (example_node 2) 10))] example_held)))
     example_session = (1, Some (example_node 1, 10))"
  using lease_is_exclusive [where es = "[(5, example_entry 2 (Acquire (example_node 2) 10))]",
      OF example_held_wf example_held_slot _ surjective_pairing]
  by (simp add: example_entry_def example_request_def)

theorem replicas_diverge_witness:
  "fst (handle_request 9 (example_request (Acquire (example_node 2) 10)) (sm_authority example_held)) \<noteq>
   fst (handle_request 11 (example_request (Acquire (example_node 2) 10)) (sm_authority example_held))"
  by (rule replicas_diverge [where x = 10 and e = 1 and h = "example_node 1", OF example_held_wf, THEN conjunct1])
    (simp_all add: example_request_def example_held_slot)

theorem one_node_bootstraps_witness:
  "\<exists>!n. n \<in> {example_node 1, example_node 2} \<and>
    bootstrap (if n = example_node 1 then example_annuary 1 [2] else example_annuary 2 [1]) n (Some False) \<noteq> None"
proof (rule one_node_bootstraps)
  have "lease_node_id_from (example_node 1) \<noteq> lease_node_id_from (example_node 2)" by code_simp
  then show "inj_on lease_node_id_from {example_node 1, example_node 2}" by auto
  show "\<forall>n \<in> {example_node 1, example_node 2}.
      set (bootstrap_peers (if n = example_node 1 then example_annuary 1 [2] else example_annuary 2 [1]) n) =
      {example_node 1, example_node 2}"
    by (auto simp: bootstrap_peers_def example_annuary_def example_peer_def nodes_with_def example_node_def)
qed simp

theorem stale_leader_hint_witness:
  "submit (\<lambda>n req. if n = example_node 1 then Inl (err_msg ''unreachable'') else Inr (Inr (Granted 1 10)))
     (ID 0 1) example_session (Acquire (example_node 2) 10)
     \<lparr>lc_annuary = example_annuary 2 [1], lc_leader_hint = Some (example_node 1)\<rparr> =
   (Err (err_msg ''unreachable''), \<lparr>lc_annuary = example_annuary 2 [1], lc_leader_hint = Some (example_node 1)\<rparr>)"
  using stale_leader_hint [of "\<lparr>lc_annuary = example_annuary 2 [1], lc_leader_hint = Some (example_node 1)\<rparr>"
      "example_node 1" "\<lambda>n req. if n = example_node 1 then Inl (err_msg ''unreachable'') else Inr (Inr (Granted 1 10))"
      "err_msg ''unreachable''" "[]"]
  by simp

end
