(* ===== verification/Jobs.thy ===== *)
theory Jobs
  imports Protocol Selection
begin

text \<open>
  Jobs: the worker that executes them (\<^verbatim>\<open>marie-core/src/worker/server.rs\<close>, \<^verbatim>\<open>worker/rpc.rs\<close>) and
  the client that submits and follows them (\<^verbatim>\<open>worker/client.rs\<close>, \<^verbatim>\<open>worker/protocol.rs\<close>). Spawned
  tasks are kept in a list; a step of the system starts one of them or delivers the answer it
  waits for.
\<close>

section \<open>The worker\<close>

text \<open>
  An executor first decodes the arguments, outside the future it returns: a failure there panics
  in the caller, \<open>Inl\<close>. Otherwise it gives the outcome of awaiting the future.
\<close>

type_synonym job_executor = "value \<Rightarrow> string + (error, value) outcome"

record job_ack =
  ja_worker_id :: node_id
  ja_job_id :: job_id

record worker =
  wk_local :: own_node_id
  wk_executors :: "(string, job_executor) hash_map"
  wk_jobs :: "(job_id, value job_state) hash_map"
  wk_events :: "(job_id \<times> value job_state) list"
  wk_tasks :: "job_instance list"

definition worker_new :: "own_node_id \<Rightarrow> worker" where
  "worker_new own = \<lparr>wk_local = own, wk_executors = [], wk_jobs = [], wk_events = [], wk_tasks = []\<rparr>"

definition wrap_executor ::
  "(value \<Rightarrow> string + 'a) \<Rightarrow> ('r \<Rightarrow> string + value) \<Rightarrow> ('a \<Rightarrow> (error, 'r) outcome) \<Rightarrow> job_executor" where
  "wrap_executor from_value to_value f args = (case from_value args of
      Inl _ \<Rightarrow> Inl ''called `Result::unwrap()` on an `Err` value''
    | Inr a \<Rightarrow> Inr (case f a of
          Ok r \<Rightarrow> (case to_value r of
              Inl _ \<Rightarrow> Panic ''called `Result::unwrap()` on an `Err` value''
            | Inr v \<Rightarrow> Ok v)
        | Err e \<Rightarrow> Err e
        | Panic p \<Rightarrow> Panic p))"

definition register_job_executor :: "string \<Rightarrow> job_executor \<Rightarrow> worker \<Rightarrow> worker" where
  "register_job_executor name ex w = w\<lparr>wk_executors := hm_insert name ex (wk_executors w)\<rparr>"

text \<open>\<^verbatim>\<open>entry(id).or_default() = state\<close> and the event that announces it.\<close>

definition update_state :: "job_id \<Rightarrow> value job_state \<Rightarrow> worker \<Rightarrow> worker" where
  "update_state i st w =
     w\<lparr>wk_jobs := hm_insert i st (wk_jobs w), wk_events := wk_events w @ [(i, st)]\<rparr>"

definition get_job_state :: "worker \<Rightarrow> job_id \<Rightarrow> worker_error + value job_state" where
  "get_job_state w i = (case hm_get (wk_jobs w) i of None \<Rightarrow> Inl (NoJobFound i) | Some st \<Rightarrow> Inr st)"

definition execute_job :: "job_instance \<Rightarrow> (worker, unit, unit) prog" where
  "execute_job job w = (case hm_get (wk_executors w) (ji_name job) of
      None \<Rightarrow> (Ok (), update_state (ji_id job) (JobFailed (NoJobExecutorFound (ji_name job))) w)
    | Some executor \<Rightarrow>
        (let w = update_state (ji_id job) (Running (own_to_node_id (wk_local w))) w in
         case executor (ji_args job) of
           Inl p \<Rightarrow> (Panic p, w)
         | Inr (Panic p) \<Rightarrow> (Ok (), update_state (ji_id job) (JobFailed (Panicked p)) w)
         | Inr (Ok v) \<Rightarrow> (Ok (), update_state (ji_id job) (JobCompleted v) w)
         | Inr (Err e) \<Rightarrow> (Ok (), update_state (ji_id job) (JobFailed (ExecutionError e)) w)))"

definition schedule_job :: "job_instance \<Rightarrow> (worker, worker_error, job_ack) prog" where
  "schedule_job job w =
     (if hm_get (wk_executors w) (ji_name job) = None
      then (Err (NoJobExecutorFound (ji_name job)),
            update_state (ji_id job) (JobFailed (NoJobExecutorFound (ji_name job))) w)
      else let node = own_to_node_id (wk_local w);
               w = update_state (ji_id job) (Scheduled node) w
           in (Ok \<lparr>ja_worker_id = node, ja_job_id = ji_id job\<rparr>, w\<lparr>wk_tasks := wk_tasks w @ [job]\<rparr>))"

section \<open>The client\<close>

datatype timer_event = ProbingTimeOutEvent job_id | AckTimeOutEvent job_id | ProbeEvent job_id

text \<open>
  A tracked job: its state and the states given to its listeners, which only ever see the latest
  one. A task is a call to \<^verbatim>\<open>schedule_job\<close> or \<^verbatim>\<open>probe_state\<close>, before it runs or while it waits for the
  answer of the worker.
\<close>

record job_info =
  jf_id :: job_id
  jf_state :: "value job_state"
  jf_sent :: "value job_state list"
  jf_check_at :: timestamp

datatype client_task =
    ScheduleTask job_instance node_id
  | ScheduleWait job_id node_id
  | ProbeTask job_id node_id
  | ProbeWait job_id node_id

record worker_client =
  wc_annuary :: annuary
  wc_trackers :: "(job_id, job_info) hash_map"
  wc_tasks :: "client_task list"

definition spawn_task :: "client_task \<Rightarrow> worker_client \<Rightarrow> worker_client" where
  "spawn_task t c = c\<lparr>wc_tasks := wc_tasks c @ [t]\<rparr>"

text \<open>
  \<^verbatim>\<open>self.jobs_timers.after(..)\<close> is asynchronous and not awaited: no timer is ever set, and the states
  that wait for one only spawn their task.
\<close>

definition handle_job_state :: "job_id \<Rightarrow> value job_state \<Rightarrow> worker_client \<Rightarrow> worker_client" where
  "handle_job_state i st c = (case hm_get (wc_trackers c) i of
      None \<Rightarrow> c
    | Some info \<Rightarrow>
        (let c = c\<lparr>wc_trackers := hm_insert i (info\<lparr>jf_state := st, jf_sent := jf_sent info @ [st]\<rparr>) (wc_trackers c)\<rparr> in
         case st of
           PendingScheduling instance worker \<Rightarrow> spawn_task (ScheduleTask instance worker) c
         | PendingAck _ \<Rightarrow> c
         | Probing worker \<Rightarrow> spawn_task (ProbeTask i worker) c
         | Scheduled worker \<Rightarrow> spawn_task (ProbeTask i worker) c
         | Running worker \<Rightarrow> spawn_task (ProbeTask i worker) c
         | _ \<Rightarrow> c))"

definition job_state_of :: "worker_client \<Rightarrow> job_id \<Rightarrow> value job_state option" where
  "job_state_of c i = map_option jf_state (hm_get (wc_trackers c) i)"

fun handle_timer_event :: "timer_event \<Rightarrow> worker_client \<Rightarrow> worker_client" where
  "handle_timer_event (ProbingTimeOutEvent i) c = (case job_state_of c i of
      None \<Rightarrow> c
    | Some st \<Rightarrow> if is_probing st then handle_job_state i (JobFailed ProbingTimeOut) c else c)"
| "handle_timer_event (ProbeEvent i) c = (case job_state_of c i of
      None \<Rightarrow> c
    | Some st \<Rightarrow> (case st of
          Running worker \<Rightarrow> handle_job_state i (Probing worker) c
        | Scheduled worker \<Rightarrow> handle_job_state i (Probing worker) c
        | _ \<Rightarrow> c))"
| "handle_timer_event (AckTimeOutEvent i) c = (case job_state_of c i of
      None \<Rightarrow> c
    | Some st \<Rightarrow> if is_pending_ack st then handle_job_state i (JobFailed AckTimeOut) c else c)"

definition watch :: "timestamp \<Rightarrow> job_id \<Rightarrow> value job_state \<Rightarrow> worker_client \<Rightarrow> worker_client" where
  "watch now i initial c =
     handle_job_state i initial
       (c\<lparr>wc_trackers := hm_insert i \<lparr>jf_id = i, jf_state = Unknown, jf_sent = [], jf_check_at = now + 30\<rparr> (wc_trackers c)\<rparr>)"

definition spawn ::
  "(f64 \<Rightarrow> f64) \<Rightarrow> ID \<Rightarrow> timestamp \<Rightarrow> string \<Rightarrow> value \<Rightarrow> (worker_client, worker_error, job_id) prog" where
  "spawn ln i now name args c =
     (case annuary_pick_top_n ln (wc_annuary c) (id_as_bytes i) (capabilities_from CapWorker) 3 of
        [] \<Rightarrow> (Err NoWorkerAvailable, c)
      | worker # _ \<Rightarrow>
          (Ok (JobId i), watch now (JobId i)
            (PendingScheduling \<lparr>ji_id = JobId i, ji_name = name, ji_args = args\<rparr> worker) c))"

text \<open>The two halves of \<^verbatim>\<open>schedule_job\<close> and of \<^verbatim>\<open>probe_state\<close>, around their call.\<close>

fun start_task :: "client_task \<Rightarrow> worker_client \<Rightarrow> worker_client" where
  "start_task (ScheduleTask instance worker) c =
     spawn_task (ScheduleWait (ji_id instance) worker) (handle_job_state (ji_id instance) (PendingAck worker) c)"
| "start_task (ProbeTask i worker) c = (case job_state_of c i of
      None \<Rightarrow> c
    | Some st \<Rightarrow>
        if has_terminated st then c
        else spawn_task (ProbeWait i worker) (handle_job_state i (Probing worker) c))"
| "start_task _ c = c"

datatype rpc_answer =
    RpcFailed string
  | ScheduleAnswer "worker_error + job_ack"
  | StateAnswer "worker_error + value job_state"

fun finish_task :: "client_task \<Rightarrow> rpc_answer \<Rightarrow> worker_client \<Rightarrow> worker_client" where
  "finish_task (ScheduleWait i worker) (RpcFailed e) c = handle_job_state i (JobFailed (ScheduledError e)) c"
| "finish_task (ScheduleWait i worker) (ScheduleAnswer (Inl e)) c = handle_job_state i (JobFailed e) c"
| "finish_task (ScheduleWait i worker) (ScheduleAnswer (Inr _)) c = handle_job_state i (Scheduled worker) c"
| "finish_task (ProbeWait i worker) (StateAnswer (Inr st)) c = handle_job_state i st c"
| "finish_task _ _ c = c"

inductive client_steps :: "worker_client \<Rightarrow> worker_client \<Rightarrow> bool" where
  event: "client_steps c (handle_job_state i st c)"
| start: "t \<in> set (wc_tasks c) \<Longrightarrow> client_steps c (start_task t (c\<lparr>wc_tasks := remove1 t (wc_tasks c)\<rparr>))"
| finish: "t \<in> set (wc_tasks c) \<Longrightarrow> client_steps c (finish_task t a (c\<lparr>wc_tasks := remove1 t (wc_tasks c)\<rparr>))"

text \<open>
  \<^verbatim>\<open>JobHandle::stream\<close>: the states it observes are converted one by one, and it ends after the
  first one that has terminated.
\<close>

fun job_stream ::
  "(value \<Rightarrow> string + 'r) \<Rightarrow> value job_state list \<Rightarrow> (worker_error + 'r job_state) list" where
  "job_stream from_value [] = []"
| "job_stream from_value (st # sts) =
     job_deserialize from_value st # (if has_terminated st then [] else job_stream from_value sts)"

section \<open>What a worker makes of a job\<close>

text \<open>The last state of an executed job.\<close>

definition final_state :: "(error, value) outcome \<Rightarrow> value job_state" where
  "final_state out = (case out of
      Ok v \<Rightarrow> JobCompleted v
    | Err e \<Rightarrow> JobFailed (ExecutionError e)
    | Panic p \<Rightarrow> JobFailed (Panicked p))"

lemma final_state_terminated: "has_terminated (final_state out)"
  by (cases out) (simp_all add: final_state_def)

lemma update_state_simps [simp]:
  "wk_local (update_state i st w) = wk_local w"
  "wk_executors (update_state i st w) = wk_executors w"
  "hm_get (wk_jobs (update_state i st w)) j = (if j = i then Some st else hm_get (wk_jobs w) j)"
  "wk_events (update_state i st w) = wk_events w @ [(i, st)]"
  "wk_tasks (update_state i st w) = wk_tasks w"
  by (simp_all add: update_state_def)

lemma execute_job_known:
  assumes "hm_get (wk_executors w) (ji_name job) = Some ex" and "ex (ji_args job) = Inr out"
  shows "execute_job job w = (Ok (), update_state (ji_id job) (final_state out)
    (update_state (ji_id job) (Running (own_to_node_id (wk_local w))) w))"
  using assms by (cases out) (simp_all add: execute_job_def final_state_def Let_def)

lemma schedule_then_execute:
  assumes "hm_get (wk_executors w) (ji_name job) = Some ex" and "ex (ji_args job) = Inr out"
    and "schedule_job job w = (ans, w1)" and "execute_job job (w1\<lparr>wk_tasks := remove1 job (wk_tasks w1)\<rparr>) = (r, w2)"
  shows "ans = Ok \<lparr>ja_worker_id = own_to_node_id (wk_local w), ja_job_id = ji_id job\<rparr>" and "r = Ok ()"
    and "wk_tasks w1 = wk_tasks w @ [job]"
    and "wk_events w2 = wk_events w @ [(ji_id job, Scheduled (own_to_node_id (wk_local w))),
      (ji_id job, Running (own_to_node_id (wk_local w))), (ji_id job, final_state out)]"
    and "get_job_state w2 j = (if j = ji_id job then Inr (final_state out) else get_job_state w j)"
proof -
  let ?n = "own_to_node_id (wk_local w)"
  have w1: "w1 = (update_state (ji_id job) (Scheduled ?n) w)\<lparr>wk_tasks := wk_tasks w @ [job]\<rparr>"
      and ans: "ans = Ok \<lparr>ja_worker_id = ?n, ja_job_id = ji_id job\<rparr>"
    using assms(1,3) by (auto simp: schedule_job_def Let_def)
  let ?w = "w1\<lparr>wk_tasks := remove1 job (wk_tasks w1)\<rparr>"
  have "hm_get (wk_executors ?w) (ji_name job) = Some ex" using assms(1) by (simp add: w1)
  from execute_job_known [where w = ?w, OF this assms(2)]
  have w2: "r = Ok ()" "w2 = update_state (ji_id job) (final_state out) (update_state (ji_id job) (Running ?n) ?w)"
    using assms(4) by (simp_all add: w1)
  show "ans = Ok \<lparr>ja_worker_id = ?n, ja_job_id = ji_id job\<rparr>" "r = Ok ()" "wk_tasks w1 = wk_tasks w @ [job]"
    "wk_events w2 = wk_events w @ [(ji_id job, Scheduled ?n), (ji_id job, Running ?n), (ji_id job, final_state out)]"
    "get_job_state w2 j = (if j = ji_id job then Inr (final_state out) else get_job_state w j)"
    by (simp_all add: ans w1 w2 get_job_state_def)
qed

text \<open>
  C26: a job whose executor is registered and whose arguments decode is acknowledged, announced as
  scheduled and running, and ends completed or failed with the outcome of the executor, a panic
  of the executor included; the worker answers with that state from then on, and no other job
  is touched.
\<close>

theorem scheduled_job_ends:
  assumes "hm_get (wk_executors w) (ji_name job) = Some ex" and "ex (ji_args job) = Inr out"
    and "schedule_job job w = (ans, w1)" and "execute_job job (w1\<lparr>wk_tasks := remove1 job (wk_tasks w1)\<rparr>) = (r, w2)"
  shows "ans = Ok \<lparr>ja_worker_id = own_to_node_id (wk_local w), ja_job_id = ji_id job\<rparr> \<and> r = Ok () \<and>
    job \<in> set (wk_tasks w1) \<and>
    wk_events w2 = wk_events w @ [(ji_id job, Scheduled (own_to_node_id (wk_local w))),
      (ji_id job, Running (own_to_node_id (wk_local w))), (ji_id job, final_state out)] \<and>
    get_job_state w2 (ji_id job) = Inr (final_state out) \<and> has_terminated (final_state out) \<and>
    (\<forall>j. j \<noteq> ji_id job \<longrightarrow> get_job_state w2 j = get_job_state w j)"
  using schedule_then_execute [where ex = ex, OF assms] by (simp add: final_state_terminated)

text \<open>
  A job whose arguments do not decode stays running for ever: the panic happens before the
  future that is guarded against panics exists, the task ends, and the worker keeps answering
  that the job is running.
\<close>

theorem undecodable_job_stays_running:
  assumes "hm_get (wk_executors w) (ji_name job) = Some ex" and "ex (ji_args job) = Inl p"
  shows "\<exists>w'. execute_job job w = (Panic p, w') \<and> wk_tasks w' = wk_tasks w \<and>
    get_job_state w' (ji_id job) = Inr (Running (own_to_node_id (wk_local w)))"
  using assms by (simp add: execute_job_def Let_def get_job_state_def)

section \<open>What the client makes of it\<close>

lemma job_state_of_handle:
  "job_state_of (handle_job_state i st c) j =
     (if j = i then map_option (\<lambda>_. st) (job_state_of c i) else job_state_of c j)"
  by (auto simp: handle_job_state_def job_state_of_def spawn_task_def Let_def split: option.splits job_state.splits)

lemma follow_events:
  assumes "job_state_of c i \<noteq> None"
  shows "job_state_of (fold (\<lambda>(j, st). handle_job_state j st) evs c) i =
    (case map_of (rev evs) i of Some st \<Rightarrow> Some st | None \<Rightarrow> job_state_of c i)"
  using assms
proof (induction evs arbitrary: c)
  case (Cons ev evs)
  obtain j st where ev: "ev = (j, st)" by (rule prod.exhaust)
  have "job_state_of (handle_job_state j st c) i \<noteq> None" using Cons.prems by (auto simp: job_state_of_handle)
  from Cons.IH [OF this] show ?case
    using Cons.prems by (auto simp: ev job_state_of_handle map_add_def split: option.splits)
qed simp

text \<open>
  A client that tracks a job and handles the events its worker emits for a scheduled job, in
  order, ends with the state the worker ends with, which is a terminated one.
\<close>

theorem client_follows_worker:
  assumes "hm_get (wk_executors w) (ji_name job) = Some ex" and "ex (ji_args job) = Inr out"
    and "schedule_job job w = (ans, w1)" and "execute_job job (w1\<lparr>wk_tasks := remove1 job (wk_tasks w1)\<rparr>) = (r, w2)"
    and "job_state_of c (ji_id job) \<noteq> None"
  shows "\<exists>st. get_job_state w2 (ji_id job) = Inr st \<and> has_terminated st \<and>
    job_state_of (fold (\<lambda>(j, st). handle_job_state j st) (drop (length (wk_events w)) (wk_events w2)) c) (ji_id job) = Some st"
proof -
  note facts = schedule_then_execute [where ex = ex, OF assms(1-4)]
  have "get_job_state w2 (ji_id job) = Inr (final_state out)" by (simp add: facts(5))
  moreover have "map_of (rev (drop (length (wk_events w)) (wk_events w2))) (ji_id job) = Some (final_state out)"
    by (simp add: facts(4))
  ultimately show ?thesis
    unfolding follow_events [OF assms(5)] by (simp add: final_state_terminated)
qed

text \<open>
  A probe never settles. A probe that starts on a tracked job that has not terminated spawns
  another one before it asks the worker, so after any number of started probes there is still
  one to start, and one more request is on its way for each of them.
\<close>

theorem probes_spawn_probes:
  assumes "job_state_of c i = Some st" and "\<not> has_terminated st" and "wc_tasks c = ts @ [ProbeTask i n]"
    and "ProbeTask i n \<notin> set ts"
  shows "\<exists>c'. client_steps\<^sup>*\<^sup>* c c' \<and> ProbeTask i n \<in> set (wc_tasks c') \<and>
    count_list (wc_tasks c') (ProbeWait i n) = count_list (wc_tasks c) (ProbeWait i n) + k \<and>
    (\<exists>st'. job_state_of c' i = Some st' \<and> \<not> has_terminated st')"
proof (induction k)
  case 0
  then show ?case using assms by (intro exI [of _ c]) simp
next
  case (Suc k)
  then obtain c' st' where c': "client_steps\<^sup>*\<^sup>* c c'" "ProbeTask i n \<in> set (wc_tasks c')"
      "count_list (wc_tasks c') (ProbeWait i n) = count_list (wc_tasks c) (ProbeWait i n) + k"
      "job_state_of c' i = Some st'" "\<not> has_terminated st'" by blast
  let ?c = "c'\<lparr>wc_tasks := remove1 (ProbeTask i n) (wc_tasks c')\<rparr>"
  let ?d = "start_task (ProbeTask i n) ?c"
  have at: "job_state_of ?c i = Some st'" using c'(4) by (simp add: job_state_of_def)
  then obtain info where info: "hm_get (wc_trackers c') i = Some info" by (auto simp: job_state_of_def)
  have d: "?d = spawn_task (ProbeWait i n) (handle_job_state i (Probing n) ?c)" using at c'(5) by simp
  have tasks: "wc_tasks ?d = remove1 (ProbeTask i n) (wc_tasks c') @ [ProbeTask i n, ProbeWait i n]"
    unfolding d by (simp add: handle_job_state_def info spawn_task_def Let_def)
  have "job_state_of ?d i = Some (Probing n)"
    unfolding d using at job_state_of_handle [of i "Probing n" ?c i] by (simp add: job_state_of_def spawn_task_def info)
  moreover have "count_list (remove1 (ProbeTask i n) xs) (ProbeWait i n) = count_list xs (ProbeWait i n)" for xs
    by (induction xs) auto
  moreover have "client_steps c' ?d" by (rule client_steps.start [OF c'(2)])
  ultimately show ?case
    using c'(1,3) tasks by (intro exI [of _ ?d]) (auto intro: rtranclp.rtrancl_into_rtrancl)
qed

text \<open>A late event moves a terminated job back: the client accepts every state for a tracked job.\<close>

lemma terminated_job_reopens:
  assumes "job_state_of c i = Some (JobCompleted v)"
  shows "job_state_of (handle_job_state i (Running n) c) i = Some (Running n) \<and>
    client_steps c (handle_job_state i (Running n) c)"
  using assms by (auto simp: job_state_of_handle intro: client_steps.event)

lemma job_stream_ends:
  "job_stream from_value (sts @ st # rest) = job_stream from_value (sts @ [st])"
  if "has_terminated st"
  using that by (induction sts) auto

section \<open>Examples\<close>

definition example_job :: job_instance where
  "example_job = \<lparr>ji_id = JobId (ID 0 1), ji_name = ''echo'', ji_args = VString ''hello''\<rparr>"

definition example_worker :: worker where
  "example_worker = register_job_executor ''echo''
     (wrap_executor (\<lambda>v. case v of VString s \<Rightarrow> Inr s | _ \<Rightarrow> Inl ''expected a string'') (\<lambda>s. Inr (VString s)) Ok)
     (worker_new (OwnNodeId (example_node 1)))"

definition example_client :: worker_client where
  "example_client = watch 0 (JobId (ID 0 1)) (Running (example_node 1))
     \<lparr>wc_annuary = example_annuary 2 [1], wc_trackers = [], wc_tasks = []\<rparr>"

definition example_scheduled :: worker where
  "example_scheduled = snd (schedule_job example_job example_worker)"

definition example_executed :: worker where
  "example_executed = snd (execute_job example_job (example_scheduled\<lparr>wk_tasks := remove1 example_job (wk_tasks example_scheduled)\<rparr>))"

lemma example_job_known:
  "hm_get (wk_executors example_worker) (ji_name example_job) =
     Some (wrap_executor (\<lambda>v. case v of VString s \<Rightarrow> Inr s | _ \<Rightarrow> Inl ''expected a string'') (\<lambda>s. Inr (VString s)) Ok)"
  "wrap_executor (\<lambda>v. case v of VString s \<Rightarrow> Inr s | _ \<Rightarrow> Inl ''expected a string'') (\<lambda>s. Inr (VString s)) Ok (ji_args example_job) =
     Inr (Ok (VString ''hello''))"
  by (simp_all add: example_worker_def example_job_def register_job_executor_def wrap_executor_def)

lemma example_runs:
  "schedule_job example_job example_worker = (fst (schedule_job example_job example_worker), example_scheduled)"
  "execute_job example_job (example_scheduled\<lparr>wk_tasks := remove1 example_job (wk_tasks example_scheduled)\<rparr>) =
     (fst (execute_job example_job (example_scheduled\<lparr>wk_tasks := remove1 example_job (wk_tasks example_scheduled)\<rparr>)), example_executed)"
  by (simp_all add: example_scheduled_def example_executed_def)

theorem scheduled_job_ends_witness:
  "get_job_state example_executed (JobId (ID 0 1)) = Inr (JobCompleted (VString ''hello''))"
  using scheduled_job_ends [OF example_job_known example_runs]
  by (simp add: final_state_def example_job_def)

theorem undecodable_job_stays_running_witness:
  "\<exists>p w'. execute_job (example_job\<lparr>ji_args := VNull\<rparr>) example_worker = (Panic p, w') \<and>
    get_job_state w' (JobId (ID 0 1)) = Inr (Running (example_node 1))"
proof -
  have "hm_get (wk_executors example_worker) (ji_name (example_job\<lparr>ji_args := VNull\<rparr>)) =
      Some (wrap_executor (\<lambda>v. case v of VString s \<Rightarrow> Inr s | _ \<Rightarrow> Inl ''expected a string'') (\<lambda>s. Inr (VString s)) Ok)"
    using example_job_known(1) by simp
  from undecodable_job_stays_running [OF this] show ?thesis
    by (simp add: wrap_executor_def example_job_def example_worker_def worker_new_def register_job_executor_def) blast
qed

theorem client_follows_worker_witness:
  "job_state_of (fold (\<lambda>(j, st). handle_job_state j st) (wk_events example_executed) example_client) (JobId (ID 0 1)) =
     Some (JobCompleted (VString ''hello''))"
proof -
  have "job_state_of example_client (ji_id example_job) \<noteq> None" by code_simp
  from client_follows_worker [OF example_job_known example_runs this]
  have "\<exists>st. get_job_state example_executed (JobId (ID 0 1)) = Inr st \<and>
      job_state_of (fold (\<lambda>(j, st). handle_job_state j st) (wk_events example_executed) example_client) (JobId (ID 0 1)) = Some st"
    by (auto simp: example_worker_def worker_new_def register_job_executor_def example_job_def)
  moreover have "get_job_state example_executed (JobId (ID 0 1)) = Inr (JobCompleted (VString ''hello''))"
    by code_simp
  ultimately show ?thesis by simp
qed

theorem probes_spawn_probes_witness:
  "\<exists>c'. client_steps\<^sup>*\<^sup>* example_client c' \<and> ProbeTask (JobId (ID 0 1)) (example_node 1) \<in> set (wc_tasks c') \<and>
    count_list (wc_tasks c') (ProbeWait (JobId (ID 0 1)) (example_node 1)) = 3"
proof -
  have "job_state_of example_client (JobId (ID 0 1)) = Some (Running (example_node 1))"
    "wc_tasks example_client = [] @ [ProbeTask (JobId (ID 0 1)) (example_node 1)]"
    by code_simp+
  from probes_spawn_probes [OF this(1) _ this(2), of 3] show ?thesis
    by (auto simp: \<open>wc_tasks example_client = [] @ [ProbeTask (JobId (ID 0 1)) (example_node 1)]\<close>)
qed

end
