(* ===== verification/Script.thy ===== *)
theory Script
  imports Graph
begin

text \<open>
  The engine that runs a node written as a script (\<^verbatim>\<open>marie-core/src/graph/script.rs\<close>). The script
  language is third-party: what a compiled script does is a tree of its interactions with the
  engine, which may be infinite, and how script values are converted to and from JSON is a
  parameter. The functions the engine gives to a script, the cache of compiled scripts and the
  loop that drives a script against the replay log are modelled.
\<close>

section \<open>Scripts\<close>

text \<open>The calls a script can make to the functions the engine installs.\<close>

datatype 'v host_call =
    HRead string
  | HWrite string 'v
  | HNext
  | HGoto string
  | HFork 'v string
  | HHitl 'v
  | HAskExperts 'v
  | HCallTools 'v
  | HGraph string
  | HCompleted
  | HFailed string

text \<open>
  A running \<^verbatim>\<open>main(ctx)\<close>: it completes with a value, fails inside the virtual machine, suspends
  with \<^verbatim>\<open>yield\<close>, or calls the engine and goes on with the answer.
\<close>

codatatype 'v script =
    SComplete 'v
  | SFault string
  | SYield 'v "'v \<Rightarrow> 'v script"
  | SHost "'v host_call" "string + 'v \<Rightarrow> 'v script"

text \<open>The \<^verbatim>\<open>serde\<close> conversions between script values, JSON and the types of the session.\<close>

record 'v bridge =
  br_json_to_value :: "value \<Rightarrow> string + 'v"
  br_value_to_json :: "'v \<Rightarrow> string + value"
  br_unit :: 'v
  br_result_to_json :: "frame_result \<Rightarrow> string + value"
  br_result_of_json :: "value \<Rightarrow> string + frame_result"
  br_content_to_json :: "run_log_content \<Rightarrow> string + value"
  br_content_of_json :: "value \<Rightarrow> string + run_log_content"
  br_hitl_of_json :: "value \<Rightarrow> string + hitl"
  br_asks_of_json :: "value \<Rightarrow> string + request_ask_expert list"
  br_calls_of_json :: "value \<Rightarrow> string + request_tool_call list"
  br_branches_of_json :: "value \<Rightarrow> string + branch list"

definition sum_bind :: "'e + 'a \<Rightarrow> ('a \<Rightarrow> 'e + 'b) \<Rightarrow> 'e + 'b" where
  "sum_bind m f = (case m of Inl e \<Rightarrow> Inl e | Inr a \<Rightarrow> f a)"

definition value_to_type :: "'v bridge \<Rightarrow> (value \<Rightarrow> string + 'a) \<Rightarrow> 'v \<Rightarrow> string + 'a" where
  "value_to_type br decode v = sum_bind (br_value_to_json br v) decode"

definition frame_result_to_value :: "'v bridge \<Rightarrow> frame_result \<Rightarrow> string + 'v" where
  "frame_result_to_value br r = sum_bind (br_result_to_json br r) (br_json_to_value br)"

definition run_log_content_to_value :: "'v bridge \<Rightarrow> run_log_content \<Rightarrow> string + 'v" where
  "run_log_content_to_value br c = sum_bind (br_content_to_json br c) (br_json_to_value br)"

fun run_log_content_to_frame_result :: "run_log_content \<Rightarrow> frame_result" where
  "run_log_content_to_frame_result (HitlLog req) = RequestHitl req"
| "run_log_content_to_frame_result (ConsultExpertsLog requests) = ConsultExperts requests"
| "run_log_content_to_frame_result (CallToolsLog requests) = CallTools requests"
| "run_log_content_to_frame_result (GraphLog graph_id) = ExecuteGraph graph_id"

section \<open>The functions given to a script\<close>

text \<open>An error of the context is its text, \<^verbatim>\<open>error.to_string()\<close>.\<close>

definition error_string :: "error \<Rightarrow> (error, string + 'a) outcome" where
  "error_string e = (case err_message e of Ok m \<Rightarrow> Ok (Inl m) | Err e' \<Rightarrow> Err e' | Panic p \<Rightarrow> Panic p)"

definition script_read ::
  "'v bridge \<Rightarrow> string \<Rightarrow> node_context \<Rightarrow> (error, string + 'v) outcome \<times> node_context" where
  "script_read br name ctx = (case ctx_read Inr name ctx of
      Inl e \<Rightarrow> (error_string e, ctx)
    | Inr v \<Rightarrow> (Ok (br_json_to_value br v), ctx))"

definition script_write ::
  "'v bridge \<Rightarrow> string \<Rightarrow> 'v \<Rightarrow> node_context \<Rightarrow> (error, string + 'v) outcome \<times> node_context" where
  "script_write br name v ctx = (case br_value_to_json br v of
      Inl e \<Rightarrow> (Ok (Inl e), ctx)
    | Inr j \<Rightarrow> (case ctx_write Inr name j ctx of
          Ok ctx' \<Rightarrow> (Ok (Inr (br_unit br)), ctx')
        | Err e \<Rightarrow> (error_string e, ctx)
        | Panic p \<Rightarrow> (Panic p, ctx)))"

definition script_fork :: "'v bridge \<Rightarrow> 'v \<Rightarrow> string \<Rightarrow> string + 'v" where
  "script_fork br branches join = sum_bind (value_to_type br (br_branches_of_json br) branches) (\<lambda>bs.
     frame_result_to_value br (Fork bs join))"

definition script_hitl :: "'v bridge \<Rightarrow> 'v \<Rightarrow> string + 'v" where
  "script_hitl br req = sum_bind (value_to_type br (br_hitl_of_json br) req) (\<lambda>h.
     run_log_content_to_value br (HitlLog h))"

definition script_ask_experts :: "'v bridge \<Rightarrow> 'v \<Rightarrow> string + 'v" where
  "script_ask_experts br asks = sum_bind (value_to_type br (br_asks_of_json br) asks) (\<lambda>rs.
     run_log_content_to_value br (ConsultExpertsLog rs))"

definition script_call_tools :: "'v bridge \<Rightarrow> 'v \<Rightarrow> string + 'v" where
  "script_call_tools br cs = sum_bind (value_to_type br (br_calls_of_json br) cs) (\<lambda>rs.
     run_log_content_to_value br (CallToolsLog rs))"

fun host :: "'v bridge \<Rightarrow> 'v host_call \<Rightarrow> node_context \<Rightarrow> (error, string + 'v) outcome \<times> node_context" where
  "host br (HRead name) ctx = script_read br name ctx"
| "host br (HWrite name v) ctx = script_write br name v ctx"
| "host br HNext ctx = (Ok (frame_result_to_value br Continue), ctx)"
| "host br (HGoto n) ctx = (Ok (frame_result_to_value br (GoTo n)), ctx)"
| "host br (HFork bs join) ctx = (Ok (script_fork br bs join), ctx)"
| "host br (HHitl r) ctx = (Ok (script_hitl br r), ctx)"
| "host br (HAskExperts r) ctx = (Ok (script_ask_experts br r), ctx)"
| "host br (HCallTools r) ctx = (Ok (script_call_tools br r), ctx)"
| "host br (HGraph g) ctx = (Ok (run_log_content_to_value br (GraphLog g)), ctx)"
| "host br HCompleted ctx = (Ok (frame_result_to_value br Completed), ctx)"
| "host br (HFailed m) ctx = (Ok (frame_result_to_value br (Failed m)), ctx)"

section \<open>Driving a script\<close>

text \<open>
  The loop of \<^verbatim>\<open>execute\<close>. What is left of the script is the state of the virtual machine; the
  value is absent when the script never comes back.
\<close>

partial_function (option) drive ::
  "'v bridge \<Rightarrow> 'v script \<Rightarrow> node_context \<Rightarrow> ((error, frame_result) outcome \<times> node_context) option" where
  "drive br t ctx = (case t of
      SFault e \<Rightarrow> Some (Err (err_msg e), ctx)
    | SComplete v \<Rightarrow> (case value_to_type br (br_result_of_json br) v of
          Inl e \<Rightarrow> Some (Err (err_msg e), ctx)
        | Inr r \<Rightarrow> Some (Ok r, ctx))
    | SHost c k \<Rightarrow> (case host br c ctx of
          (Ok r, ctx') \<Rightarrow> drive br (k r) ctx'
        | (Err e, ctx') \<Rightarrow> Some (Err e, ctx')
        | (Panic p, ctx') \<Rightarrow> Some (Panic p, ctx'))
    | SYield v k \<Rightarrow> (case value_to_type br (br_content_of_json br) v of
          Inl e \<Rightarrow> Some (Err (err_msg e), ctx)
        | Inr content \<Rightarrow> (case reserve_log content (nc_logs ctx) of
              (r, l) \<Rightarrow> (case log_check r l of
                  Ok None \<Rightarrow> Some (Ok (run_log_content_to_frame_result content), ctx\<lparr>nc_logs := l\<rparr>)
                | Ok (Some j) \<Rightarrow> (case br_json_to_value br j of
                      Inl e \<Rightarrow> Some (Err (err_msg e), ctx\<lparr>nc_logs := l\<rparr>)
                    | Inr rv \<Rightarrow> drive br (k rv) (ctx\<lparr>nc_logs := l\<rparr>))
                | Err e \<Rightarrow> Some (Err e, ctx\<lparr>nc_logs := l\<rparr>)
                | Panic p \<Rightarrow> Some (Panic p, ctx\<lparr>nc_logs := l\<rparr>)))))"

text \<open>The cache of compiled scripts: a failed compilation is not kept.\<close>

type_synonym 'v units = "(string, 'v script) hash_map"

definition script_compile ::
  "(string \<Rightarrow> string + 'v script) \<Rightarrow> string \<Rightarrow> 'v units \<Rightarrow> (string + 'v script) \<times> 'v units" where
  "script_compile compile_uncached src us = (case hm_get us src of
      Some t \<Rightarrow> (Inr t, us)
    | None \<Rightarrow> (case compile_uncached src of
          Inl e \<Rightarrow> (Inl e, us)
        | Inr t \<Rightarrow> (Inr t, hm_insert src t us)))"

definition script_execute ::
  "'v bridge \<Rightarrow> (string \<Rightarrow> string + 'v script) \<Rightarrow> string \<Rightarrow> 'v units \<Rightarrow> node_context \<Rightarrow>
     ((error, frame_result) outcome \<times> node_context) option \<times> 'v units" where
  "script_execute br compile_uncached src us ctx = (case script_compile compile_uncached src us of
      (Inl e, us') \<Rightarrow> (Some (Err (err_msg e), ctx), us')
    | (Inr t, us') \<Rightarrow> (drive br t ctx, us'))"

section \<open>Facts\<close>

lemma sum_bind_simps [simp]: "sum_bind (Inl e) f = Inl e" "sum_bind (Inr a) f = f a"
  by (simp_all add: sum_bind_def)

lemma content_to_result: "run_log_content_to_frame_result c = yield_result c"
  by (cases c) simp_all

lemma host_keeps_logs: "nc_logs (snd (host br c ctx)) = nc_logs ctx"
  by (cases c) (auto simp: script_read_def script_write_def ctx_write_def split: sum.split outcome.split)

text \<open>The suspension of a script is the call the macros make.\<close>

lemma drive_yield:
  "drive br (SYield v k) ctx = (case value_to_type br (br_content_of_json br) v of
      Inl e \<Rightarrow> Some (Err (err_msg e), ctx)
    | Inr content \<Rightarrow> (case log_call content (nc_logs ctx) of
          (Ok (Return r), l) \<Rightarrow> Some (Ok r, ctx\<lparr>nc_logs := l\<rparr>)
        | (Ok (Resolved j), l) \<Rightarrow> (case br_json_to_value br j of
              Inl e \<Rightarrow> Some (Err (err_msg e), ctx\<lparr>nc_logs := l\<rparr>)
            | Inr rv \<Rightarrow> drive br (k rv) (ctx\<lparr>nc_logs := l\<rparr>))
        | (Err e, l) \<Rightarrow> Some (Err e, ctx\<lparr>nc_logs := l\<rparr>)
        | (Panic p, l) \<Rightarrow> Some (Panic p, ctx\<lparr>nc_logs := l\<rparr>)))"
  by (subst drive.simps)
    (simp add: log_call_def content_to_result split: sum.split prod.split outcome.split option.split)

lemma drive_host:
  "drive br (SHost c k) ctx = (case host br c ctx of
      (Ok r, ctx') \<Rightarrow> drive br (k r) ctx'
    | (Err e, ctx') \<Rightarrow> Some (Err e, ctx')
    | (Panic p, ctx') \<Rightarrow> Some (Panic p, ctx'))"
  by (subst drive.simps) simp

lemma drive_end:
  "drive br (SFault e) ctx = Some (Err (err_msg e), ctx)"
  "drive br (SComplete v) ctx = Some (case value_to_type br (br_result_of_json br) v of
      Inl e \<Rightarrow> Err (err_msg e) | Inr r \<Rightarrow> Ok r, ctx)"
  by (subst drive.simps, simp split: sum.split)+

section \<open>Scripts that come back\<close>

text \<open>
  Between two suspensions a script makes finitely many calls: it reaches its end, or a \<^verbatim>\<open>yield\<close> after
  which the same holds again. It may suspend for ever.
\<close>

inductive settles :: "('v script \<Rightarrow> bool) \<Rightarrow> 'v script \<Rightarrow> bool" for P where
  settles_complete: "settles P (SComplete v)"
| settles_fault: "settles P (SFault e)"
| settles_yield: "(\<And>r. P (k r)) \<Longrightarrow> settles P (SYield v k)"
| settles_host: "(\<And>r. settles P (k r)) \<Longrightarrow> settles P (SHost c k)"

lemma settles_mono [mono]: "P \<le> Q \<Longrightarrow> settles P \<le> settles Q"
proof (rule predicate1I)
  fix t
  assume "P \<le> Q" and "settles P t"
  from \<open>settles P t\<close> show "settles Q t"
    by induction (use \<open>P \<le> Q\<close> in \<open>auto intro: settles.intros\<close>)
qed

coinductive productive :: "'v script \<Rightarrow> bool" where
  productiveI: "settles productive t \<Longrightarrow> productive t"
monos settles_mono

lemma settles_returns:
  assumes "settles P t" and "cursor (nc_logs ctx) \<le> length (entries (nc_logs ctx))"
    and "\<And>u ctx'. P u \<Longrightarrow> cursor (nc_logs ctx') = Suc (cursor (nc_logs ctx)) \<Longrightarrow>
      entries (nc_logs ctx') = entries (nc_logs ctx) \<Longrightarrow> cursor (nc_logs ctx) < length (entries (nc_logs ctx)) \<Longrightarrow>
      \<exists>r c. drive br u ctx' = Some (r, c)"
  shows "\<exists>r c. drive br t ctx = Some (r, c)"
  using assms
proof (induction arbitrary: ctx)
  case (settles_yield k v)
  show ?case
  proof (cases "cursor (nc_logs ctx) = length (entries (nc_logs ctx))")
    case True
    then show ?thesis by (auto simp: drive_yield log_call_new split: sum.split)
  next
    case False
    with settles_yield.prems have "cursor (nc_logs ctx) < length (entries (nc_logs ctx))" by simp
    then show ?thesis
      using settles_yield by (auto simp: drive_yield log_call_old split: sum.split option.split)
  qed
next
  case (settles_host k c)
  obtain r ctx' where h: "host br c ctx = (r, ctx')" by fastforce
  have logs: "nc_logs ctx' = nc_logs ctx" using h host_keeps_logs [of br c ctx] by simp
  have "\<exists>r c. drive br (k x) ctx' = Some (r, c)" for x
    by (rule settles_host.IH) (use settles_host.prems in \<open>simp_all add: logs\<close>)
  then show ?case by (cases r) (simp_all add: drive_host h)
qed (simp_all add: drive_end)

text \<open>
  C21: a script whose stretches between suspensions are finite is driven to a result, however often it
  suspends: each suspension takes an entry of the replay log, and the first one past the resolved
  entries ends the run.
\<close>

theorem script_returns:
  assumes "productive t" and "cursor (nc_logs ctx) \<le> length (entries (nc_logs ctx))"
  shows "\<exists>r ctx'. drive br t ctx = Some (r, ctx')"
  using assms
proof (induction "length (entries (nc_logs ctx)) - cursor (nc_logs ctx)" arbitrary: t ctx rule: less_induct)
  case less
  have "settles productive t" using less.prems(1) by (cases rule: productive.cases)
  then show ?case
    using less.prems(2)
  proof (rule settles_returns)
    fix u :: "'a script" and ctx' :: node_context
    assume "productive u" "cursor (nc_logs ctx') = Suc (cursor (nc_logs ctx))"
      "entries (nc_logs ctx') = entries (nc_logs ctx)" "cursor (nc_logs ctx) < length (entries (nc_logs ctx))"
    then show "\<exists>r c. drive br u ctx' = Some (r, c)" using less.hyps [of ctx' u] by simp
  qed
qed

section \<open>Scripts and native bodies\<close>

text \<open>What a body may ask and return, whatever it is answered.\<close>

primrec body_asks :: "node_body \<Rightarrow> run_log_content set" where
  "body_asks (Done r) = {}"
| "body_asks (Call c k) = insert c (\<Union>v. body_asks (k v))"

primrec body_results :: "node_body \<Rightarrow> frame_result set" where
  "body_results (Done r) = {r}"
| "body_results (Call c k) = (\<Union>v. body_results (k v))"

text \<open>
  The laws of the conversions, for these requests and results: what is encoded for the script is
  decoded from it. JSON goes through a script value unchanged.
\<close>

definition bridge_law :: "'v bridge \<Rightarrow> run_log_content set \<Rightarrow> frame_result set \<Rightarrow> bool" where
  "bridge_law br C R \<longleftrightarrow>
     (\<forall>c \<in> C. \<exists>v. run_log_content_to_value br c = Inr v \<and> value_to_type br (br_content_of_json br) v = Inr c) \<and>
     (\<forall>r \<in> R. \<exists>v. frame_result_to_value br r = Inr v \<and> value_to_type br (br_result_of_json br) v = Inr r) \<and>
     (\<forall>j. \<exists>v. br_json_to_value br j = Inr v \<and> br_value_to_json br v = Inr j)"

lemma bridge_law_subset: "bridge_law br C R \<Longrightarrow> C' \<subseteq> C \<Longrightarrow> R' \<subseteq> R \<Longrightarrow> bridge_law br C' R'"
  unfolding bridge_law_def by blast

text \<open>
  The script that asks what a native body asks: each call is suspended with \<^verbatim>\<open>yield\<close> and the body goes
  on with the answer.
\<close>

definition proj_value :: "'v bridge \<Rightarrow> string + 'v \<Rightarrow> 'v" where
  "proj_value br x = (case x of Inr v \<Rightarrow> v | Inl e \<Rightarrow> br_unit br)"

definition json_of :: "'v bridge \<Rightarrow> 'v \<Rightarrow> value" where
  "json_of br v = (case br_value_to_json br v of Inr j \<Rightarrow> j | Inl e \<Rightarrow> VNull)"

primrec script_of :: "'v bridge \<Rightarrow> node_body \<Rightarrow> 'v script" where
  "script_of br (Done r) = SComplete (proj_value br (frame_result_to_value br r))"
| "script_of br (Call c k) = SYield (proj_value br (run_log_content_to_value br c)) (\<lambda>v. script_of br (k (json_of br v)))"

lemma script_of_productive: "productive (script_of br b)"
proof (induction b)
  case (Done r)
  then show ?case by (simp add: productiveI settles_complete)
next
  case (Call c k)
  then show ?case by (simp add: productiveI settles_yield)
qed

lemma bridge_content:
  "bridge_law br C R \<Longrightarrow> c \<in> C \<Longrightarrow> value_to_type br (br_content_of_json br) (proj_value br (run_log_content_to_value br c)) = Inr c"
  by (force simp: bridge_law_def proj_value_def)

lemma bridge_result:
  "bridge_law br C R \<Longrightarrow> r \<in> R \<Longrightarrow> value_to_type br (br_result_of_json br) (proj_value br (frame_result_to_value br r)) = Inr r"
  by (force simp: bridge_law_def proj_value_def)

lemma bridge_json:
  "bridge_law br C R \<Longrightarrow> \<exists>v. br_json_to_value br j = Inr v \<and> json_of br v = j"
  by (force simp: bridge_law_def json_of_def)

text \<open>
  C20: a script replays as the native body that makes the same calls: driven against a replay log it
  returns the same result and leaves the same log, and it touches nothing else of the context.
\<close>

theorem script_replays_like_body:
  assumes "bridge_law br (body_asks b) (body_results b)"
  shows "drive br (script_of br b) ctx =
    Some (fst (run_body b (nc_logs ctx)), ctx\<lparr>nc_logs := snd (run_body b (nc_logs ctx))\<rparr>)"
  using assms
proof (induction b arbitrary: ctx)
  case (Done r)
  then show ?case by (simp add: drive_end bridge_result)
next
  case (Call c k)
  have law: "bridge_law br (body_asks (k v)) (body_results (k v))" for v
    by (rule bridge_law_subset [OF Call.prems]) auto
  note content = bridge_content [OF Call.prems, of c, simplified]
  obtain y l where call: "log_call c (nc_logs ctx) = (y, l)" by fastforce
  show ?case
  proof (cases "\<exists>j. y = Ok (Resolved j)")
    case True
    then obtain j where y: "y = Ok (Resolved j)" by blast
    obtain v where "br_json_to_value br j = Inr v" "json_of br v = j"
      using bridge_json [OF Call.prems] by blast
    then show ?thesis
      using Call.IH [OF rangeI law, of j "ctx\<lparr>nc_logs := l\<rparr>"] by (simp add: drive_yield content call y)
  next
    case False
    then consider r where "y = Ok (Return r)" | e where "y = Err e" | p where "y = Panic p"
      by (metis outcome.exhaust yield.exhaust)
    then show ?thesis by cases (simp_all add: drive_yield content call)
  qed
qed

text \<open>What a script writes to a channel it reads back, and a read changes nothing.\<close>

lemma script_reads_own_write:
  assumes "bridge_law br C R" and "br_value_to_json br v = Inr j" and "script_write br name v ctx = (Ok (Inr u), ctx')"
  shows "\<exists>v'. script_read br name ctx' = (Ok (Inr v'), ctx') \<and> br_value_to_json br v' = Inr j"
proof -
  obtain t where w: "tracker_write Inr name j (nc_channels ctx) = Ok t" by (simp add: tracker_write_def)
  then have "script_write br name v ctx = (Ok (Inr (br_unit br)), ctx\<lparr>nc_channels := t\<rparr>)"
    using assms(2) by (simp add: script_write_def ctx_write_def)
  with assms(3) have ctx': "ctx' = ctx\<lparr>nc_channels := t\<rparr>" by simp
  obtain v' where v': "br_json_to_value br j = Inr v'" "br_value_to_json br v' = Inr j"
    using assms(1) unfolding bridge_law_def by blast
  show ?thesis
    using tracker_read_own_write [OF w, of name] v' by (simp add: script_read_def ctx_read_def ctx')
qed

section \<open>The cache of compiled scripts\<close>

definition units_wf :: "(string \<Rightarrow> string + 'v script) \<Rightarrow> 'v units \<Rightarrow> bool" where
  "units_wf cu us \<longleftrightarrow> (\<forall>src t. hm_get us src = Some t \<longrightarrow> cu src = Inr t)"

text \<open>The cache changes no result and holds only what compiling again would give.\<close>

lemma cached_compile:
  assumes "units_wf cu us"
  shows "fst (script_compile cu src us) = cu src" and "units_wf cu (snd (script_compile cu src us))"
  using assms by (auto simp: script_compile_def units_wf_def split: option.splits sum.splits)

lemma cached_execute:
  assumes "units_wf cu us"
  shows "fst (script_execute br cu src us ctx) = fst (script_execute br cu src [] ctx)"
proof -
  have "fst (script_compile cu src us) = fst (script_compile cu src [])"
    using cached_compile(1) [OF assms] cached_compile(1) [of cu "[]" src] by (simp add: units_wf_def)
  then show ?thesis by (auto simp: script_execute_def split: prod.splits sum.splits)
qed

section \<open>Examples\<close>

text \<open>Script values that are JSON values, and a body that asks for one graph.\<close>

definition demo_bridge :: "value bridge" where
  "demo_bridge = \<lparr>br_json_to_value = Inr, br_value_to_json = Inr, br_unit = VNull,
     br_result_to_json = (\<lambda>r. if r = Completed then Inr VNull else Inl ''other''),
     br_result_of_json = (\<lambda>j. Inr Completed),
     br_content_to_json = (\<lambda>c. case c of GraphLog g \<Rightarrow> Inr (VString g) | _ \<Rightarrow> Inl ''other''),
     br_content_of_json = (\<lambda>j. map_sum (\<lambda>_. ''other'') GraphLog (string_from_value j)),
     br_hitl_of_json = (\<lambda>j. Inl ''other''), br_asks_of_json = (\<lambda>j. Inl ''other''),
     br_calls_of_json = (\<lambda>j. Inl ''other''), br_branches_of_json = (\<lambda>j. Inl ''other'')\<rparr>"

definition demo_body :: node_body where
  "demo_body = Call (GraphLog ''g'') (\<lambda>v. Done Completed)"

definition demo_context :: node_context where
  "demo_context = node_context_new (SessionId (ID 0 0)) (FrameId (ID 0 1)) (tracker_new (FrameId (ID 0 1)) []) (run_logs_new [])"

lemma demo_law: "bridge_law demo_bridge (body_asks demo_body) (body_results demo_body)"
  by (simp add: bridge_law_def demo_body_def demo_bridge_def run_log_content_to_value_def frame_result_to_value_def
      value_to_type_def)

theorem script_replays_like_body_witness:
  "map_option fst (drive demo_bridge (script_of demo_bridge demo_body) demo_context) = Some (Ok (ExecuteGraph ''g''))"
  using script_replays_like_body [OF demo_law, of demo_context]
  by (simp add: demo_body_def demo_context_def node_context_new_def run_logs_new_def log_call_new)

theorem script_returns_witness:
  "\<exists>r ctx'. drive demo_bridge (script_of demo_bridge demo_body) demo_context = Some (r, ctx')"
  by (rule script_returns [OF script_of_productive]) (simp add: demo_context_def node_context_new_def run_logs_new_def)

end
