(* ===== verification/Gateway.thy ===== *)
theory Gateway
  imports Hitl
begin

text \<open>
  The gateway of an external connection (\<^verbatim>\<open>marie-gateway/src/lib.rs\<close>, \<^verbatim>\<open>protocol.rs\<close>): it checks the
  access of the connection to sessions and workspaces, executes its commands and relays the events
  of the cluster to it. The clients of sessions and workspaces it calls, the predicates of access
  and the decoding of the events of the network are parameters, and so are the types of
  workspaces and of the data the clients return.
\<close>

section \<open>Commands and events\<close>

datatype ('w, 'h) gateway_command =
    AccessSession session_id
  | AccessWorkspace 'w
  | GetSession session_id
  | RemoveSession session_id
  | AppendSessionLog session_id string
  | QuerySessionVars session_id string
  | PatchSessionVars session_id string "value"
  | ReportUserInput session_id "'h option" answers
  | CreateWorkspace 'w
  | GetWorkspace 'w
  | RemoveWorkspace 'w
  | ListWorkspaceSessions 'w
  | QueryWorkspaceVars 'w string
  | PatchWorkspaceVars 'w string "value"
  | AddSessionToWorkspace 'w session_id
  | RemoveSessionFromWorkspace 'w session_id
  | CreateSession 'w

definition required_session :: "('w, 'h) gateway_command \<Rightarrow> session_id option" where
  "required_session c = (case c of
      GetSession i \<Rightarrow> Some i
    | RemoveSession i \<Rightarrow> Some i
    | AppendSessionLog i _ \<Rightarrow> Some i
    | QuerySessionVars i _ \<Rightarrow> Some i
    | PatchSessionVars i _ _ \<Rightarrow> Some i
    | ReportUserInput i _ _ \<Rightarrow> Some i
    | _ \<Rightarrow> None)"

definition required_workspace :: "('w, 'h) gateway_command \<Rightarrow> 'w option" where
  "required_workspace c = (case c of
      GetWorkspace w \<Rightarrow> Some w
    | RemoveWorkspace w \<Rightarrow> Some w
    | ListWorkspaceSessions w \<Rightarrow> Some w
    | CreateSession w \<Rightarrow> Some w
    | QueryWorkspaceVars w _ \<Rightarrow> Some w
    | PatchWorkspaceVars w _ _ \<Rightarrow> Some w
    | AddSessionToWorkspace w _ \<Rightarrow> Some w
    | RemoveSessionFromWorkspace w _ \<Rightarrow> Some w
    | _ \<Rightarrow> None)"

text \<open>
  \<open>'s\<close> and \<open>'ws\<close> are the sessions and workspaces the clients return, \<open>'se\<close> and \<open>'we\<close> the events of
  the cluster.
\<close>

datatype ('w, 'h, 's, 'ws, 'se, 'we) gateway_event =
    RelaySession 'se
  | RelayWorkspace 'we
  | SessionAccessGranted session_id
  | SessionAccessDenied session_id
  | WorkspaceAccessGranted 'w
  | WorkspaceAccessDenied 'w
  | SessionFetched 's
  | SessionRemoved session_id
  | SessionLogAppended session_id
  | SessionVarsQueried session_id "value list"
  | SessionVarsPatched session_id
  | UserInputReported session_id 'h
  | WorkspaceCreated 'w
  | WorkspaceFetched 'ws
  | WorkspaceRemoved 'w
  | WorkspaceSessionsListed 'w "session_id list"
  | WorkspaceVarsQueried 'w "value list"
  | WorkspaceVarsPatched 'w
  | SessionAddedToWorkspace 'w session_id
  | SessionRemovedFromWorkspace 'w session_id
  | SessionCreatedIn 'w session_id
  | CommandRejected string
  | CommandFailed string

section \<open>The cluster seen from the gateway\<close>

text \<open>A call answers a value or the text of an error, and may change the cluster.\<close>

type_synonym ('n, 'a) call = "'n \<Rightarrow> (string + 'a) \<times> 'n"

record ('n, 'w, 'h, 's, 'ws) clients =
  cl_check_session :: "session_id \<Rightarrow> ('n, bool) call"
  cl_check_workspace :: "'w \<Rightarrow> ('n, bool) call"
  cl_get_session :: "session_id \<Rightarrow> ('n, 's) call"
  cl_remove_session :: "session_id \<Rightarrow> ('n, unit) call"
  cl_append_log :: "session_id \<Rightarrow> string \<Rightarrow> ('n, unit) call"
  cl_query_state :: "session_id \<Rightarrow> string \<Rightarrow> ('n, value list) call"
  cl_patch_vars :: "session_id \<Rightarrow> string \<Rightarrow> value \<Rightarrow> ('n, unit) call"
  cl_report_user_input :: "session_id \<Rightarrow> 'h option \<Rightarrow> answers \<Rightarrow> ('n, 'h) call"
  cl_insert_empty :: "session_id \<Rightarrow> ('n, unit) call"
  cl_create_workspace :: "'w \<Rightarrow> ('n, unit) call"
  cl_get_workspace :: "'w \<Rightarrow> ('n, 'ws) call"
  cl_remove_workspace :: "'w \<Rightarrow> ('n, unit) call"
  cl_workspace_sessions :: "'w \<Rightarrow> ('n, session_id list) call"
  cl_workspace_query :: "'w \<Rightarrow> string \<Rightarrow> ('n, value list) call"
  cl_workspace_patch :: "'w \<Rightarrow> string \<Rightarrow> value \<Rightarrow> ('n, unit) call"
  cl_add_session :: "'w \<Rightarrow> session_id \<Rightarrow> ('n, unit) call"
  cl_detach_session :: "'w \<Rightarrow> session_id \<Rightarrow> ('n, unit) call"
  cl_create_session :: "'w \<Rightarrow> ('n, session_id) call"

text \<open>
  How a message of the network reads: whether its topic is one of sessions or of workspaces, and
  the event, if it decodes.
\<close>

record ('m, 'w, 'se, 'we) decoder =
  de_is_session :: "'m \<Rightarrow> bool"
  de_session :: "'m \<Rightarrow> 'se option"
  de_session_id :: "'se \<Rightarrow> session_id"
  de_is_workspace :: "'m \<Rightarrow> bool"
  de_workspace :: "'m \<Rightarrow> 'we option"
  de_workspace_id :: "'we \<Rightarrow> 'w"

section \<open>The actor\<close>

record ('n, 'w, 'h, 's, 'ws, 'se, 'we) gateway =
  gw_cluster :: 'n
  gw_sessions :: "session_id set"
  gw_workspaces :: "'w set"
  gw_sent :: "('w, 'h, 's, 'ws, 'se, 'we) gateway_event list"

definition gateway_new :: "'n \<Rightarrow> ('n, 'w, 'h, 's, 'ws, 'se, 'we) gateway" where
  "gateway_new n = \<lparr>gw_cluster = n, gw_sessions = {}, gw_workspaces = {}, gw_sent = []\<rparr>"

text \<open>Calling a client: the reply of a success, or the failure with its text.\<close>

definition answer_with ::
  "('n, 'a) call \<Rightarrow> ('a \<Rightarrow> ('w, 'h, 's, 'ws, 'se, 'we) gateway_event) \<Rightarrow>
   ('n, 'w, 'h, 's, 'ws, 'se, 'we) gateway \<Rightarrow>
   ('w, 'h, 's, 'ws, 'se, 'we) gateway_event \<times> ('n, 'w, 'h, 's, 'ws, 'se, 'we) gateway" where
  "answer_with m ok g = (case m (gw_cluster g) of
      (Inr a, n) \<Rightarrow> (ok a, g\<lparr>gw_cluster := n\<rparr>)
    | (Inl e, n) \<Rightarrow> (CommandFailed e, g\<lparr>gw_cluster := n\<rparr>))"

definition handle_create_session ::
  "('n, 'w, 'h, 's, 'ws) clients \<Rightarrow> 'w \<Rightarrow> ('n, 'w, 'h, 's, 'ws, 'se, 'we) gateway \<Rightarrow>
   ('w, 'h, 's, 'ws, 'se, 'we) gateway_event \<times> ('n, 'w, 'h, 's, 'ws, 'se, 'we) gateway" where
  "handle_create_session cl w g = (case cl_create_session cl w (gw_cluster g) of
      (Inl e, n) \<Rightarrow> (CommandFailed (''echec de rattachement au workspace : '' @ e), g\<lparr>gw_cluster := n\<rparr>)
    | (Inr i, n) \<Rightarrow> (case cl_insert_empty cl i n of
          (Inr _, n') \<Rightarrow> (SessionCreatedIn w i, g\<lparr>gw_cluster := n', gw_sessions := insert i (gw_sessions g)\<rparr>)
        | (Inl e, n') \<Rightarrow> (CommandFailed (''echec de creation de session : '' @ e),
            g\<lparr>gw_cluster := snd (cl_detach_session cl w i n')\<rparr>)))"

text \<open>The first two commands never reach it: \<^verbatim>\<open>unreachable!\<close> is a panic.\<close>

definition dispatch_command ::
  "('n, 'w, 'h, 's, 'ws) clients \<Rightarrow> ('w, 'h) gateway_command \<Rightarrow> ('n, 'w, 'h, 's, 'ws, 'se, 'we) gateway \<Rightarrow>
   (unit, ('w, 'h, 's, 'ws, 'se, 'we) gateway_event) outcome \<times> ('n, 'w, 'h, 's, 'ws, 'se, 'we) gateway" where
  "dispatch_command cl c g = (case c of
      AccessSession _ \<Rightarrow> (Panic ''gere par handle_command'', g)
    | AccessWorkspace _ \<Rightarrow> (Panic ''gere par handle_command'', g)
    | GetSession i \<Rightarrow> apfst Ok (answer_with (cl_get_session cl i) SessionFetched g)
    | RemoveSession i \<Rightarrow> apfst Ok (answer_with (cl_remove_session cl i) (\<lambda>_. SessionRemoved i) g)
    | AppendSessionLog i line \<Rightarrow> apfst Ok (answer_with (cl_append_log cl i line) (\<lambda>_. SessionLogAppended i) g)
    | QuerySessionVars i path \<Rightarrow> apfst Ok (answer_with (cl_query_state cl i path) (SessionVarsQueried i) g)
    | PatchSessionVars i path v \<Rightarrow> apfst Ok (answer_with (cl_patch_vars cl i path v) (\<lambda>_. SessionVarsPatched i) g)
    | ReportUserInput i h as \<Rightarrow> apfst Ok (answer_with (cl_report_user_input cl i h as) (UserInputReported i) g)
    | CreateWorkspace w \<Rightarrow> (case cl_create_workspace cl w (gw_cluster g) of
          (Inr _, n) \<Rightarrow> (Ok (WorkspaceCreated w), g\<lparr>gw_cluster := n, gw_workspaces := insert w (gw_workspaces g)\<rparr>)
        | (Inl e, n) \<Rightarrow> (Ok (CommandFailed e), g\<lparr>gw_cluster := n\<rparr>))
    | GetWorkspace w \<Rightarrow> apfst Ok (answer_with (cl_get_workspace cl w) WorkspaceFetched g)
    | RemoveWorkspace w \<Rightarrow> apfst Ok (answer_with (cl_remove_workspace cl w) (\<lambda>_. WorkspaceRemoved w) g)
    | ListWorkspaceSessions w \<Rightarrow> apfst Ok (answer_with (cl_workspace_sessions cl w) (WorkspaceSessionsListed w) g)
    | QueryWorkspaceVars w path \<Rightarrow> apfst Ok (answer_with (cl_workspace_query cl w path) (WorkspaceVarsQueried w) g)
    | PatchWorkspaceVars w path v \<Rightarrow>
        apfst Ok (answer_with (cl_workspace_patch cl w path v) (\<lambda>_. WorkspaceVarsPatched w) g)
    | AddSessionToWorkspace w i \<Rightarrow>
        apfst Ok (answer_with (cl_add_session cl w i) (\<lambda>_. SessionAddedToWorkspace w i) g)
    | RemoveSessionFromWorkspace w i \<Rightarrow>
        apfst Ok (answer_with (cl_detach_session cl w i) (\<lambda>_. SessionRemovedFromWorkspace w i) g)
    | CreateSession w \<Rightarrow> apfst Ok (handle_create_session cl w g))"

definition command_allowed :: "('n, 'w, 'h, 's, 'ws, 'se, 'we) gateway \<Rightarrow> ('w, 'h) gateway_command \<Rightarrow> bool" where
  "command_allowed g c \<longleftrightarrow>
     (case required_session c of Some i \<Rightarrow> i \<in> gw_sessions g | None \<Rightarrow> True) \<and>
     (case required_workspace c of Some w \<Rightarrow> w \<in> gw_workspaces g | None \<Rightarrow> True)"

definition reply_to ::
  "('n, 'w, 'h, 's, 'ws) clients \<Rightarrow> ('w, 'h) gateway_command \<Rightarrow> ('n, 'w, 'h, 's, 'ws, 'se, 'we) gateway \<Rightarrow>
   (unit, ('w, 'h, 's, 'ws, 'se, 'we) gateway_event) outcome \<times> ('n, 'w, 'h, 's, 'ws, 'se, 'we) gateway" where
  "reply_to cl c g = (case c of
      AccessSession i \<Rightarrow> (case cl_check_session cl i (gw_cluster g) of
          (Inr True, n) \<Rightarrow> (Ok (SessionAccessGranted i), g\<lparr>gw_cluster := n, gw_sessions := insert i (gw_sessions g)\<rparr>)
        | (Inr False, n) \<Rightarrow> (Ok (SessionAccessDenied i), g\<lparr>gw_cluster := n\<rparr>)
        | (Inl e, n) \<Rightarrow> (Ok (CommandFailed e), g\<lparr>gw_cluster := n\<rparr>))
    | AccessWorkspace w \<Rightarrow> (case cl_check_workspace cl w (gw_cluster g) of
          (Inr True, n) \<Rightarrow> (Ok (WorkspaceAccessGranted w), g\<lparr>gw_cluster := n, gw_workspaces := insert w (gw_workspaces g)\<rparr>)
        | (Inr False, n) \<Rightarrow> (Ok (WorkspaceAccessDenied w), g\<lparr>gw_cluster := n\<rparr>)
        | (Inl e, n) \<Rightarrow> (Ok (CommandFailed e), g\<lparr>gw_cluster := n\<rparr>))
    | _ \<Rightarrow> if \<not> command_allowed g c
           then (Ok (CommandRejected ''acces non autorise pour cette session/workspace''), g)
           else dispatch_command cl c g)"

text \<open>The reply is sent; whether the connection takes it is ignored.\<close>

definition send_event ::
  "('w, 'h, 's, 'ws, 'se, 'we) gateway_event \<Rightarrow> ('n, 'w, 'h, 's, 'ws, 'se, 'we) gateway \<Rightarrow>
   ('n, 'w, 'h, 's, 'ws, 'se, 'we) gateway" where
  "send_event e g = g\<lparr>gw_sent := gw_sent g @ [e]\<rparr>"

definition handle_command ::
  "('n, 'w, 'h, 's, 'ws) clients \<Rightarrow> ('w, 'h) gateway_command \<Rightarrow> ('n, 'w, 'h, 's, 'ws, 'se, 'we) gateway \<Rightarrow>
   (unit, unit) outcome \<times> ('n, 'w, 'h, 's, 'ws, 'se, 'we) gateway" where
  "handle_command cl c g = (case reply_to cl c g of
      (Ok e, g') \<Rightarrow> (Ok (), send_event e g')
    | (Err e, g') \<Rightarrow> (Err e, g')
    | (Panic p, g') \<Rightarrow> (Panic p, g'))"

definition handle_network_message ::
  "('m, 'w, 'se, 'we) decoder \<Rightarrow> 'm \<Rightarrow> ('n, 'w, 'h, 's, 'ws, 'se, 'we) gateway \<Rightarrow> ('n, 'w, 'h, 's, 'ws, 'se, 'we) gateway" where
  "handle_network_message de m g =
     (if de_is_session de m then
        (case de_session de m of
           Some e \<Rightarrow> if de_session_id de e \<in> gw_sessions g then send_event (RelaySession e) g else g
         | None \<Rightarrow> g)
      else if de_is_workspace de m then
        (case de_workspace de m of
           Some e \<Rightarrow> if de_workspace_id de e \<in> gw_workspaces g then send_event (RelayWorkspace e) g else g
         | None \<Rightarrow> g)
      else g)"

text \<open>What the loop receives: a command, the end of the connection, a message or a shutdown.\<close>

datatype ('m, 'w, 'h) gateway_input = GCommand "('w, 'h) gateway_command" | GClosed | GMessage 'm | GShutdown

text \<open>The steps of a run, each with the state before and after it; a panic ends the task.\<close>

fun gateway_run ::
  "('n, 'w, 'h, 's, 'ws) clients \<Rightarrow> ('m, 'w, 'se, 'we) decoder \<Rightarrow> ('m, 'w, 'h) gateway_input list \<Rightarrow>
   ('n, 'w, 'h, 's, 'ws, 'se, 'we) gateway \<Rightarrow>
   (('m, 'w, 'h) gateway_input \<times> ('n, 'w, 'h, 's, 'ws, 'se, 'we) gateway \<times> ('n, 'w, 'h, 's, 'ws, 'se, 'we) gateway) list" where
  "gateway_run cl de [] g = []"
| "gateway_run cl de (GShutdown # is) g = [(GShutdown, g, g)]"
| "gateway_run cl de (GClosed # is) g = [(GClosed, g, g)]"
| "gateway_run cl de (GCommand c # is) g = (case handle_command cl c g of
      (Ok _, g') \<Rightarrow> (GCommand c, g, g') # gateway_run cl de is g'
    | (_, g') \<Rightarrow> [(GCommand c, g, g')])"
| "gateway_run cl de (GMessage m # is) g =
     (GMessage m, g, handle_network_message de m g) # gateway_run cl de is (handle_network_message de m g)"

section \<open>What a connection was granted\<close>

text \<open>A connection has access to what it was told: by a grant, or by the creation it asked for.\<close>

definition session_granted :: "session_id \<Rightarrow> ('w, 'h, 's, 'ws, 'se, 'we) gateway_event list \<Rightarrow> bool" where
  "session_granted i es \<longleftrightarrow> SessionAccessGranted i \<in> set es \<or> (\<exists>w. SessionCreatedIn w i \<in> set es)"

definition workspace_granted :: "'w \<Rightarrow> ('w, 'h, 's, 'ws, 'se, 'we) gateway_event list \<Rightarrow> bool" where
  "workspace_granted w es \<longleftrightarrow> WorkspaceAccessGranted w \<in> set es \<or> WorkspaceCreated w \<in> set es"

definition gateway_wf :: "('n, 'w, 'h, 's, 'ws, 'se, 'we) gateway \<Rightarrow> bool" where
  "gateway_wf g \<longleftrightarrow> (\<forall>i. i \<in> gw_sessions g \<longleftrightarrow> session_granted i (gw_sent g)) \<and>
     (\<forall>w. w \<in> gw_workspaces g \<longleftrightarrow> workspace_granted w (gw_sent g))"

lemmas gateway_defs = reply_to_def dispatch_command_def answer_with_def handle_create_session_def

text \<open>A reply of a client call: the state keeps its sets, and the event grants nothing.\<close>

lemma answer_with_split:
  "\<exists>e n. answer_with m ok g = (e, g\<lparr>gw_cluster := n\<rparr>) \<and> ((\<exists>a. e = ok a) \<or> (\<exists>t. e = CommandFailed t))"
  by (cases "m (gw_cluster g)"; cases "fst (m (gw_cluster g))") (auto simp: answer_with_def)

definition opens :: "('w, 'h, 's, 'ws, 'se, 'we) gateway_event \<Rightarrow> ('n, 'w, 'h, 's, 'ws, 'se, 'we) gateway \<Rightarrow>
    ('n, 'w, 'h, 's, 'ws, 'se, 'we) gateway \<Rightarrow> bool" where
  "opens e g g' \<longleftrightarrow> gw_sent g' = gw_sent g \<and>
     (\<forall>i. i \<in> gw_sessions g' \<longleftrightarrow> i \<in> gw_sessions g \<or> session_granted i [e]) \<and>
     (\<forall>w. w \<in> gw_workspaces g' \<longleftrightarrow> w \<in> gw_workspaces g \<or> workspace_granted w [e])"

lemma answer_opens:
  assumes "\<And>a i. \<not> session_granted i [ok a]" and "\<And>a w. \<not> workspace_granted w [ok a]"
  shows "\<exists>e g'. answer_with m ok g = (e, g') \<and> opens e g g'"
  using answer_with_split [of m ok g] assms by (auto simp: opens_def session_granted_def workspace_granted_def)

lemma create_opens: "\<exists>e g'. handle_create_session cl w g = (e, g') \<and> opens e g g'"
  by (auto simp: handle_create_session_def opens_def session_granted_def workspace_granted_def
      split: prod.split sum.split)

lemma dispatch_opens:
  assumes "\<And>i. c \<noteq> AccessSession i" and "\<And>w. c \<noteq> AccessWorkspace w"
  shows "\<exists>e g'. dispatch_command cl c g = (Ok e, g') \<and> opens e g g'"
proof -
  have lift: "\<exists>e g'. apfst Ok x = (Ok e, g') \<and> opens e g g'" if "\<exists>e g'. x = (e, g') \<and> opens e g g'" for x
    using that by auto
  show ?thesis
  proof (cases c)
    case (CreateWorkspace w)
    then show ?thesis
      by (auto simp: dispatch_command_def opens_def session_granted_def workspace_granted_def split: prod.split sum.split)
  qed (use assms in \<open>auto simp: dispatch_command_def session_granted_def workspace_granted_def
      intro!: lift answer_opens create_opens\<close>)
qed

lemma reply_opens: "\<exists>e g'. reply_to cl c g = (Ok e, g') \<and> opens e g g'"
proof -
  have "\<exists>e g'. (if \<not> command_allowed g c then (Ok (CommandRejected t), g) else dispatch_command cl c g) = (Ok e, g') \<and>
      opens e g g'" if "\<And>i. c \<noteq> AccessSession i" "\<And>w. c \<noteq> AccessWorkspace w" for t
    using dispatch_opens [OF that, of cl g] by (auto simp: opens_def session_granted_def workspace_granted_def)
  then show ?thesis
    by (cases c) (auto simp: reply_to_def opens_def session_granted_def workspace_granted_def
        split: prod.split sum.split bool.split)
qed

lemma command_step:
  obtains e g' where "reply_to cl c g = (Ok e, g')" and "opens e g g'" and "handle_command cl c g = (Ok (), send_event e g')"
  using reply_opens [of cl c g] by (auto simp: handle_command_def)

lemma granted_append [simp]:
  "session_granted i (es @ es') \<longleftrightarrow> session_granted i es \<or> session_granted i es'"
  "workspace_granted w (es @ es') \<longleftrightarrow> workspace_granted w es \<or> workspace_granted w es'"
  by (auto simp: session_granted_def workspace_granted_def)

lemma wf_command: "gateway_wf g \<Longrightarrow> gateway_wf (snd (handle_command cl c g))"
  by (rule command_step [of cl c g]) (auto simp: gateway_wf_def opens_def send_event_def)

lemma wf_message: "gateway_wf g \<Longrightarrow> gateway_wf (handle_network_message de m g)"
  by (auto simp: gateway_wf_def handle_network_message_def send_event_def session_granted_def workspace_granted_def
      split: option.split)

text \<open>Every step of a run is a command or a message on a well-formed state.\<close>

lemma run_steps:
  assumes "(inp, g, g') \<in> set (gateway_run cl de inputs g0)" and "gateway_wf g0"
  shows "gateway_wf g \<and> gateway_wf g' \<and> (\<forall>c. inp = GCommand c \<longrightarrow> handle_command cl c g = (Ok (), g')) \<and>
    (\<forall>m. inp = GMessage m \<longrightarrow> g' = handle_network_message de m g)"
  using assms
proof (induction cl de inputs g0 rule: gateway_run.induct)
  case (4 cl de c inputs g0)
  obtain e g1 where h: "handle_command cl c g0 = (Ok (), send_event e g1)" by (rule command_step)
  then have "gateway_wf (send_event e g1)" using wf_command [OF 4(3), of cl c] by simp
  then show ?case using 4 h by auto
next
  case (5 cl de m inputs g0)
  then show ?case using wf_message [OF 5(3), of de m] by auto
qed auto

text \<open>A grant is the answer to an access command whose check succeeded.\<close>

lemma grants_are_checked:
  assumes "handle_command cl c g = (Ok (), g')" and "gw_sent g' = gw_sent g @ [SessionAccessGranted i]"
  shows "c = AccessSession i \<and> fst (cl_check_session cl i (gw_cluster g)) = Inr True"
proof -
  obtain g1 where r: "reply_to cl c g = (Ok (SessionAccessGranted i), g1)"
    using assms by (rule_tac command_step [of cl c g]) (auto simp: send_event_def opens_def)
  show ?thesis
  proof (cases "\<exists>i. c = AccessSession i")
    case True
    then show ?thesis using r by (auto simp: reply_to_def split: prod.splits sum.splits bool.splits)
  next
    case False
    then show ?thesis
      using r by (cases c) (auto simp: gateway_defs split: prod.splits sum.splits bool.splits if_splits)
  qed
qed

section \<open>What a connection has earned\<close>

text \<open>
  The steps that give access, with the state in which they ran: an access command whose check
  answered that the access is allowed, or a creation of this connection that went through.
\<close>

definition session_earned ::
  "('n, 'w, 'h, 's, 'ws) clients \<Rightarrow> session_id \<Rightarrow>
   (('m, 'w, 'h) gateway_input \<times> ('n, 'w, 'h, 's, 'ws, 'se, 'we) gateway \<times> ('n, 'w, 'h, 's, 'ws, 'se, 'we) gateway) list \<Rightarrow> bool" where
  "session_earned cl i steps \<longleftrightarrow> (\<exists>(inp, g, g') \<in> set steps.
     (inp = GCommand (AccessSession i) \<and> fst (cl_check_session cl i (gw_cluster g)) = Inr True) \<or>
     (\<exists>w n. inp = GCommand (CreateSession w) \<and> cl_create_session cl w (gw_cluster g) = (Inr i, n) \<and>
        fst (cl_insert_empty cl i n) = Inr () \<and> gw_sent g' = gw_sent g @ [SessionCreatedIn w i]))"

definition workspace_earned ::
  "('n, 'w, 'h, 's, 'ws) clients \<Rightarrow> 'w \<Rightarrow>
   (('m, 'w, 'h) gateway_input \<times> ('n, 'w, 'h, 's, 'ws, 'se, 'we) gateway \<times> ('n, 'w, 'h, 's, 'ws, 'se, 'we) gateway) list \<Rightarrow> bool" where
  "workspace_earned cl w steps \<longleftrightarrow> (\<exists>(inp, g, g') \<in> set steps.
     (inp = GCommand (AccessWorkspace w) \<and> fst (cl_check_workspace cl w (gw_cluster g)) = Inr True) \<or>
     (inp = GCommand (CreateWorkspace w) \<and> fst (cl_create_workspace cl w (gw_cluster g)) = Inr ()))"

lemma earned_append [simp]:
  "session_earned cl i (xs @ ys) \<longleftrightarrow> session_earned cl i xs \<or> session_earned cl i ys"
  "workspace_earned cl w (xs @ ys) \<longleftrightarrow> workspace_earned cl w xs \<or> workspace_earned cl w ys"
  by (simp_all add: session_earned_def workspace_earned_def bex_Un)

lemma earned_none [simp]: "\<not> session_earned cl i []" "\<not> workspace_earned cl w []"
  by (simp_all add: session_earned_def workspace_earned_def)

lemma answer_sets:
  "gw_sessions (snd (answer_with m ok g)) = gw_sessions g" "gw_workspaces (snd (answer_with m ok g)) = gw_workspaces g"
  by (simp_all add: answer_with_def split: prod.split sum.split)

text \<open>Access grows by what the step earns, and by nothing else.\<close>

lemma command_earns:
  assumes inp: "inp = GCommand c" and "handle_command cl c g = (Ok (), g')"
  shows "i \<in> gw_sessions g' \<longleftrightarrow> i \<in> gw_sessions g \<or> session_earned cl i [(inp, g, g')]"
    and "w \<in> gw_workspaces g' \<longleftrightarrow> w \<in> gw_workspaces g \<or> workspace_earned cl w [(inp, g, g')]"
proof -
  obtain e g1 where r: "reply_to cl c g = (Ok e, g1)" "opens e g g1" and g': "g' = send_event e g1"
    by (rule command_step [of cl c g]) (use assms(2) in auto)
  have sets: "i \<in> gw_sessions g' \<longleftrightarrow> i \<in> gw_sessions g \<or> session_granted i [e]"
    "w \<in> gw_workspaces g' \<longleftrightarrow> w \<in> gw_workspaces g \<or> workspace_granted w [e]"
    and sent: "gw_sent g' = gw_sent g @ [e]"
    using r(2) by (simp_all add: g' opens_def send_event_def)
  have "session_granted i [e] \<longleftrightarrow> session_earned cl i [(inp, g, g')]"
    using r(1) sent
    by (cases c) (auto simp: inp session_granted_def session_earned_def gateway_defs
        split: prod.splits sum.splits bool.splits if_splits)
  then show "i \<in> gw_sessions g' \<longleftrightarrow> i \<in> gw_sessions g \<or> session_earned cl i [(inp, g, g')]"
    using sets(1) by blast
  have "workspace_granted w [e] \<longleftrightarrow> workspace_earned cl w [(inp, g, g')]"
    using r(1)
    by (cases c) (auto simp: inp workspace_granted_def workspace_earned_def gateway_defs command_allowed_def
        required_session_def required_workspace_def split: prod.splits sum.splits bool.splits if_splits)
  then show "w \<in> gw_workspaces g' \<longleftrightarrow> w \<in> gw_workspaces g \<or> workspace_earned cl w [(inp, g, g')]"
    using sets(2) by blast
qed

lemma message_keeps_access:
  "gw_sessions (handle_network_message de m g) = gw_sessions g"
  "gw_workspaces (handle_network_message de m g) = gw_workspaces g"
  by (simp_all add: handle_network_message_def send_event_def split: option.split)

text \<open>A run begins with a step on its first state and goes on from the state after it.\<close>

lemma run_Cons:
  assumes "gateway_run cl de inputs g0 = (inp, g, g') # rest"
  shows "g = g0" and "rest \<noteq> [] \<Longrightarrow> \<exists>inputs'. rest = gateway_run cl de inputs' g'"
    and "inp = GCommand c \<Longrightarrow> handle_command cl c g = (Ok (), g')"
    and "inp = GMessage m \<Longrightarrow> g' = handle_network_message de m g"
    and "inp = GClosed \<or> inp = GShutdown \<Longrightarrow> g' = g"
proof -
  consider (command) c' is' where "inputs = GCommand c' # is'" | (message) m' is' where "inputs = GMessage m' # is'"
    | (stop) is' where "inputs = GClosed # is' \<or> inputs = GShutdown # is'"
    using assms by (cases inputs rule: list.exhaust) (simp, metis gateway_input.exhaust)
  then have "g = g0 \<and> (rest \<noteq> [] \<longrightarrow> (\<exists>inputs'. rest = gateway_run cl de inputs' g')) \<and>
    (\<forall>c. inp = GCommand c \<longrightarrow> handle_command cl c g = (Ok (), g')) \<and>
    (\<forall>m. inp = GMessage m \<longrightarrow> g' = handle_network_message de m g) \<and> (inp = GClosed \<or> inp = GShutdown \<longrightarrow> g' = g)"
  proof cases
    case command
    obtain e g1 where "handle_command cl c' g0 = (Ok (), send_event e g1)" by (rule command_step)
    then show ?thesis using assms command by auto
  next
    case message
    then show ?thesis using assms by auto
  qed (use assms in auto)
  then show "g = g0" and "rest \<noteq> [] \<Longrightarrow> \<exists>inputs'. rest = gateway_run cl de inputs' g'"
    and "inp = GCommand c \<Longrightarrow> handle_command cl c g = (Ok (), g')"
    and "inp = GMessage m \<Longrightarrow> g' = handle_network_message de m g"
    and "inp = GClosed \<or> inp = GShutdown \<Longrightarrow> g' = g" by blast+
qed

lemma only_commands_earn:
  "session_earned cl i [(inp, g, g')] \<Longrightarrow> \<exists>c. inp = GCommand c"
  "workspace_earned cl w [(inp, g, g')] \<Longrightarrow> \<exists>c. inp = GCommand c"
  by (auto simp: session_earned_def workspace_earned_def)

lemma step_earns:
  assumes "gateway_run cl de inputs g0 = (inp, g, g') # rest"
  shows "i \<in> gw_sessions g' \<longleftrightarrow> i \<in> gw_sessions g \<or> session_earned cl i [(inp, g, g')]"
    and "w \<in> gw_workspaces g' \<longleftrightarrow> w \<in> gw_workspaces g \<or> workspace_earned cl w [(inp, g, g')]"
proof -
  have keep: "gw_sessions g' = gw_sessions g" "gw_workspaces g' = gw_workspaces g" if "\<nexists>c. inp = GCommand c"
    using run_Cons(4,5) [OF assms] that by (cases inp; simp add: message_keeps_access)+
  show "i \<in> gw_sessions g' \<longleftrightarrow> i \<in> gw_sessions g \<or> session_earned cl i [(inp, g, g')]"
    using command_earns(1) [OF _ run_Cons(3) [OF assms]] keep(1) only_commands_earn(1) by (metis (full_types))
  show "w \<in> gw_workspaces g' \<longleftrightarrow> w \<in> gw_workspaces g \<or> workspace_earned cl w [(inp, g, g')]"
    using command_earns(2) [OF _ run_Cons(3) [OF assms]] keep(2) only_commands_earn(2) by (metis (full_types))
qed

text \<open>At every step the accesses are those the earlier steps earned.\<close>

lemma access_is_earned:
  assumes "gateway_run cl de inputs g0 = pre @ (inp, g, g') # post"
    and "\<And>i. i \<in> gw_sessions g0 \<longleftrightarrow> session_earned cl i past"
    and "\<And>w. w \<in> gw_workspaces g0 \<longleftrightarrow> workspace_earned cl w past"
  shows "(i \<in> gw_sessions g \<longleftrightarrow> session_earned cl i (past @ pre)) \<and>
    (w \<in> gw_workspaces g \<longleftrightarrow> workspace_earned cl w (past @ pre)) \<and>
    (\<forall>c. inp = GCommand c \<longrightarrow> handle_command cl c g = (Ok (), g')) \<and>
    (\<forall>m. inp = GMessage m \<longrightarrow> g' = handle_network_message de m g)"
  using assms
proof (induction pre arbitrary: inputs g0 past)
  case Nil
  then have run: "gateway_run cl de inputs g0 = (inp, g, g') # post" by simp
  then show ?case using run_Cons(1,3,4) [OF run] Nil(2,3) by auto
next
  case (Cons x pre)
  obtain inp1 ga gb where x: "x = (inp1, ga, gb)" by (cases x)
  have run: "gateway_run cl de inputs g0 = (inp1, ga, gb) # pre @ (inp, g, g') # post" using Cons.prems(1) x by simp
  obtain inputs' where rest: "gateway_run cl de inputs' gb = pre @ (inp, g, g') # post"
    using run_Cons(2) [OF run] by auto
  have "j \<in> gw_sessions gb \<longleftrightarrow> session_earned cl j (past @ [x])" "v \<in> gw_workspaces gb \<longleftrightarrow> workspace_earned cl v (past @ [x])" for j v
    using step_earns [OF run] run_Cons(1) [OF run] Cons.prems(2,3) x by simp_all
  from Cons.IH [OF rest this] show ?case by simp
qed

section \<open>Properties\<close>

text \<open>
  C19: the gateway lets nothing through that was not earned. Take any step of the run of a
  connection. A session counts as earned if an earlier step of this connection was an access
  command for it whose check answered that the access is allowed, or a creation of it that the
  cluster accepted; likewise a workspace. Then: each command gets exactly one reply; a command
  that needs a session or a workspace that is not earned is rejected without touching the
  cluster; a command other than an access command that needs only what is earned is dispatched;
  and a message of the network is relayed if and only if it decodes to an event of an earned
  session or workspace, as the event it decodes to.
\<close>

theorem gateway_guards_access:
  assumes "gateway_run cl de inputs (gateway_new n) = pre @ (inp, g, g') # post"
  shows "(\<forall>c. inp = GCommand c \<longrightarrow> (\<exists>e. gw_sent g' = gw_sent g @ [e])) \<and>
    (\<forall>c. inp = GCommand c \<and>
        ((\<exists>i. required_session c = Some i \<and> \<not> session_earned cl i pre) \<or>
         (\<exists>w. required_workspace c = Some w \<and> \<not> workspace_earned cl w pre)) \<longrightarrow>
       g' = send_event (CommandRejected ''acces non autorise pour cette session/workspace'') g) \<and>
    (\<forall>c. inp = GCommand c \<and> (\<forall>i. c \<noteq> AccessSession i) \<and> (\<forall>w. c \<noteq> AccessWorkspace w) \<and>
        (\<forall>i. required_session c = Some i \<longrightarrow> session_earned cl i pre) \<and>
        (\<forall>w. required_workspace c = Some w \<longrightarrow> workspace_earned cl w pre) \<longrightarrow>
       (\<exists>e g1. dispatch_command cl c g = (Ok e, g1) \<and> g' = send_event e g1)) \<and>
    (\<forall>m. inp = GMessage m \<longrightarrow> g' =
       (case (if de_is_session de m then map_option Inl (de_session de m)
              else if de_is_workspace de m then map_option Inr (de_workspace de m) else None) of
          Some (Inl e) \<Rightarrow> if session_earned cl (de_session_id de e) pre then send_event (RelaySession e) g else g
        | Some (Inr e) \<Rightarrow> if workspace_earned cl (de_workspace_id de e) pre then send_event (RelayWorkspace e) g else g
        | None \<Rightarrow> g))"
proof -
  have "i \<in> gw_sessions (gateway_new n) \<longleftrightarrow> session_earned cl i []"
    "w \<in> gw_workspaces (gateway_new n) \<longleftrightarrow> workspace_earned cl w []" for i w
    by (simp_all add: gateway_new_def)
  note run = access_is_earned [OF assms this, simplified]
  have acc: "i \<in> gw_sessions g \<longleftrightarrow> session_earned cl i pre" "w \<in> gw_workspaces g \<longleftrightarrow> workspace_earned cl w pre" for i w
    using run by blast+
  have step: "\<exists>e g1. reply_to cl c g = (Ok e, g1) \<and> opens e g g1 \<and> g' = send_event e g1" if "inp = GCommand c" for c
    using run that by (rule_tac command_step [of cl c g]) auto
  have allowed: "command_allowed g c \<longleftrightarrow>
      (\<forall>i. required_session c = Some i \<longrightarrow> session_earned cl i pre) \<and>
      (\<forall>w. required_workspace c = Some w \<longrightarrow> workspace_earned cl w pre)" for c
    by (auto simp: command_allowed_def acc split: option.splits)
  have one: "\<exists>e. gw_sent g' = gw_sent g @ [e]" if "inp = GCommand c" for c
    using step [OF that] by (auto simp: opens_def send_event_def)
  have needs: "(\<forall>i. c \<noteq> AccessSession i) \<and> (\<forall>w. c \<noteq> AccessWorkspace w)"
    if "required_session c \<noteq> None \<or> required_workspace c \<noteq> None" for c
    using that by (auto simp: required_session_def required_workspace_def)
  have other: "reply_to cl c g = (if \<not> command_allowed g c
      then (Ok (CommandRejected ''acces non autorise pour cette session/workspace''), g) else dispatch_command cl c g)"
    if "(\<forall>i. c \<noteq> AccessSession i) \<and> (\<forall>w. c \<noteq> AccessWorkspace w)" for c
    using that by (auto simp: reply_to_def split: gateway_command.split)
  have rejected: "g' = send_event (CommandRejected ''acces non autorise pour cette session/workspace'') g"
    if "inp = GCommand c" "\<not> command_allowed g c" "required_session c \<noteq> None \<or> required_workspace c \<noteq> None" for c
    using step [OF that(1)] that(2) other [OF needs [OF that(3)]] by simp
  have dispatched: "\<exists>e g1. dispatch_command cl c g = (Ok e, g1) \<and> g' = send_event e g1"
    if "inp = GCommand c" "command_allowed g c" "(\<forall>i. c \<noteq> AccessSession i) \<and> (\<forall>w. c \<noteq> AccessWorkspace w)" for c
    using step [OF that(1)] that(2) other [OF that(3)] by auto
  have relayed: "inp = GMessage m \<Longrightarrow> g' = handle_network_message de m g" for m using run by blast
  show ?thesis
  proof (intro conjI allI impI, goal_cases)
    case (2 c)
    then show ?case using rejected [of c] allowed by auto
  next
    case (3 c)
    then show ?case using dispatched [of c] allowed by blast
  next
    case (4 m)
    then show ?case by (auto simp: relayed handle_network_message_def acc split: option.split)
  qed (rule one)
qed

text \<open>Nothing revokes an access: the removal of a session or workspace keeps it granted.\<close>

lemma access_only_grows:
  "gw_sessions g \<subseteq> gw_sessions (snd (handle_command cl c g)) \<and>
   gw_workspaces g \<subseteq> gw_workspaces (snd (handle_command cl c g))"
  by (rule command_step [of cl c g]) (auto simp: opens_def send_event_def)

text \<open>
  The session named by a command that attaches it to a workspace is not checked: access to the
  workspace is enough.
\<close>

lemma attached_session_unchecked:
  assumes "w \<in> gw_workspaces g"
  shows "handle_command cl (AddSessionToWorkspace w i) g =
    (Ok (), (\<lambda>(e, g'). send_event e g') (answer_with (cl_add_session cl w i) (\<lambda>_. SessionAddedToWorkspace w i) g))"
  using assms
  by (simp add: handle_command_def reply_to_def command_allowed_def required_session_def required_workspace_def
      dispatch_command_def split: prod.split)

text \<open>A session that could not be inserted is detached again, and is not granted.\<close>

lemma failed_creation_detaches:
  assumes "cl_create_session cl w (gw_cluster g) = (Inr i, n)" and "cl_insert_empty cl i n = (Inl e, n')"
  shows "handle_create_session cl w g =
    (CommandFailed (''echec de creation de session : '' @ e), g\<lparr>gw_cluster := snd (cl_detach_session cl w i n')\<rparr>)"
  using assms by (simp add: handle_create_session_def)

section \<open>Examples\<close>

text \<open>A cluster that records the sessions it was asked for and grants access to one of them.\<close>

definition demo_clients :: "(session_id list, nat, nat, nat, nat) clients" where
  "demo_clients = \<lparr>cl_check_session = (\<lambda>i n. (Inr (i = SessionId (ID 1 1)), n)), cl_check_workspace = (\<lambda>w n. (Inr False, n)),
     cl_get_session = (\<lambda>i n. (Inr 0, i # n)), cl_remove_session = (\<lambda>i n. (Inr (), i # n)),
     cl_append_log = (\<lambda>i l n. (Inr (), i # n)), cl_query_state = (\<lambda>i p n. (Inr [], i # n)),
     cl_patch_vars = (\<lambda>i p v n. (Inr (), i # n)), cl_report_user_input = (\<lambda>i h a n. (Inr 0, i # n)),
     cl_insert_empty = (\<lambda>i n. (Inr (), i # n)), cl_create_workspace = (\<lambda>w n. (Inr (), n)),
     cl_get_workspace = (\<lambda>w n. (Inr 0, n)), cl_remove_workspace = (\<lambda>w n. (Inr (), n)),
     cl_workspace_sessions = (\<lambda>w n. (Inr [], n)), cl_workspace_query = (\<lambda>w p n. (Inr [], n)),
     cl_workspace_patch = (\<lambda>w p v n. (Inr (), n)), cl_add_session = (\<lambda>w i n. (Inr (), i # n)),
     cl_detach_session = (\<lambda>w i n. (Inr (), i # n)), cl_create_session = (\<lambda>w n. (Inr (SessionId (ID 2 2)), n))\<rparr>"

definition demo_decoder :: "(session_id, nat, session_id, nat) decoder" where
  "demo_decoder = \<lparr>de_is_session = (\<lambda>m. True), de_session = Some, de_session_id = (\<lambda>e. e),
     de_is_workspace = (\<lambda>m. False), de_workspace = (\<lambda>m. None), de_workspace_id = (\<lambda>e. e)\<rparr>"

definition demo_inputs :: "(session_id, nat, nat) gateway_input list" where
  "demo_inputs = [GCommand (AccessSession (SessionId (ID 3 3))), GCommand (AccessSession (SessionId (ID 1 1))),
     GMessage (SessionId (ID 3 3)), GMessage (SessionId (ID 1 1))]"

theorem gateway_guards_access_witness:
  "\<exists>pre g g'. gateway_run demo_clients demo_decoder demo_inputs (gateway_new []) =
     pre @ [(GMessage (SessionId (ID 1 1)), g, g')] \<and>
     session_earned demo_clients (SessionId (ID 1 1)) pre \<and> \<not> session_earned demo_clients (SessionId (ID 3 3)) pre \<and>
     g' = (send_event (RelaySession (SessionId (ID 1 1))) g ::
       (session_id list, nat, nat, nat, nat, session_id, nat) gateway)"
proof -
  let ?run = "gateway_run demo_clients demo_decoder demo_inputs
    (gateway_new [] :: (session_id list, nat, nat, nat, nat, session_id, nat) gateway)"
  obtain pre g g' where run: "?run = pre @ [(GMessage (SessionId (ID 1 1)), g, g')]"
      "map fst pre = take 3 demo_inputs"
    by (simp add: demo_inputs_def demo_clients_def handle_command_def reply_to_def numeral_eq_Suc)
  then have earned: "session_earned demo_clients (SessionId (ID 1 1)) pre"
      "\<not> session_earned demo_clients (SessionId (ID 3 3)) pre"
    by (auto simp: session_earned_def demo_inputs_def demo_clients_def numeral_eq_Suc)
  have "g' = send_event (RelaySession (SessionId (ID 1 1))) g"
    using gateway_guards_access [OF run(1)] earned by (simp add: demo_decoder_def)
  with run(1) earned show ?thesis by blast
qed

end
