(* ===== verification/Repl_Text.thy ===== *)
theory Repl_Text
  imports Selection
begin

text \<open>
  Command lines (\<^verbatim>\<open>marie-cli/src/repl/tokenizer.rs\<close>, \<^verbatim>\<open>repl/args.rs\<close>, \<^verbatim>\<open>repl/error.rs\<close>): the
  tokenizer, the arguments of a command and the values written on it. A line is the list of its
  code points, so that the characters of the source are the elements of the list.
\<close>

type_synonym code_point = nat
type_synonym ustring = "code_point list"

definition str :: "string \<Rightarrow> ustring" where
  "str s = map of_char s"

text \<open>The UTF-8 form of a text, which the rest of the program stores.\<close>

definition utf8_point :: "code_point \<Rightarrow> string" where
  "utf8_point c =
     (if c < 0x80 then [char_of c]
      else if c < 0x800 then [char_of (0xC0 + c div 64), char_of (0x80 + c mod 64)]
      else if c < 0x10000 then
        [char_of (0xE0 + c div 4096), char_of (0x80 + c div 64 mod 64), char_of (0x80 + c mod 64)]
      else [char_of (0xF0 + c div 262144), char_of (0x80 + c div 4096 mod 64),
            char_of (0x80 + c div 64 mod 64), char_of (0x80 + c mod 64)])"

definition utf8 :: "ustring \<Rightarrow> string" where
  "utf8 t = concat (map utf8_point t)"

text \<open>\<^verbatim>\<open>char::is_whitespace\<close>: the Unicode property White\_Space.\<close>

definition is_whitespace :: "code_point \<Rightarrow> bool" where
  "is_whitespace c \<longleftrightarrow> (9 \<le> c \<and> c \<le> 13) \<or> (8192 \<le> c \<and> c \<le> 8202) \<or>
     c \<in> {32, 133, 160, 5760, 8232, 8233, 8239, 8287, 12288}"

definition trim_text :: "ustring \<Rightarrow> ustring" where
  "trim_text t = rev (dropWhile is_whitespace (rev (dropWhile is_whitespace t)))"

datatype cli_error = Usage ustring | UnknownCommand string ustring | Marie string | Io string

abbreviation QUOTE :: code_point where "QUOTE \<equiv> 34"
abbreviation OPEN :: code_point where "OPEN \<equiv> 91"
abbreviation CLOSE :: code_point where "CLOSE \<equiv> 93"
abbreviation BACKSLASH :: code_point where "BACKSLASH \<equiv> 92"
abbreviation COMMA :: code_point where "COMMA \<equiv> 44"
abbreviation E_ACUTE :: code_point where "E_ACUTE \<equiv> 233"
abbreviation EQUALS :: code_point where "EQUALS \<equiv> 61"

section \<open>The tokenizer\<close>

datatype tokenizer_mode = Normal | Quoted | Bracketed u32

text \<open>The loop of \<^verbatim>\<open>tokenize\<close>: the tokens so far, the current one, whether there is one, the mode.\<close>

fun tokenize_loop :: "ustring list \<Rightarrow> ustring \<Rightarrow> bool \<Rightarrow> tokenizer_mode \<Rightarrow> ustring \<Rightarrow> cli_error + ustring list" where
  "tokenize_loop tokens current has_current Quoted [] = Inl (Usage (str ''guillemet non ferm'' @ [E_ACUTE]))"
| "tokenize_loop tokens current has_current (Bracketed d) [] = Inl (Usage (str ''crochet non ferm'' @ [E_ACUTE]))"
| "tokenize_loop tokens current has_current Normal [] = Inr (if has_current then tokens @ [current] else tokens)"
| "tokenize_loop tokens current has_current Normal (c # cs) =
     (if is_whitespace c then
        (if has_current then tokenize_loop (tokens @ [current]) [] False Normal cs
         else tokenize_loop tokens current has_current Normal cs)
      else if c = QUOTE then tokenize_loop tokens (current @ [c]) True Quoted cs
      else if c = OPEN then tokenize_loop tokens (current @ [c]) True (Bracketed 1) cs
      else tokenize_loop tokens (current @ [c]) True Normal cs)"
| "tokenize_loop tokens current has_current Quoted (c # cs) =
     (if c = BACKSLASH \<and> cs \<noteq> [] \<and> hd cs = QUOTE then
        tokenize_loop tokens (current @ [QUOTE]) has_current Quoted (tl cs)
      else if c = QUOTE then tokenize_loop tokens (current @ [c]) has_current Normal cs
      else tokenize_loop tokens (current @ [c]) has_current Quoted cs)"
| "tokenize_loop tokens current has_current (Bracketed depth) (c # cs) =
     (if c = OPEN then tokenize_loop tokens (current @ [c]) has_current (Bracketed (depth + 1)) cs
      else if c = CLOSE then
        tokenize_loop tokens (current @ [c]) has_current (if depth \<le> 1 then Normal else Bracketed (depth - 1)) cs
      else tokenize_loop tokens (current @ [c]) has_current (Bracketed depth) cs)"

definition tokenize :: "ustring \<Rightarrow> cli_error + ustring list" where
  "tokenize line = tokenize_loop [] [] False Normal line"

section \<open>Arguments\<close>

record command_args =
  ca_positionals :: "ustring list"
  ca_flags :: "(ustring, ustring) hash_map"

text \<open>\<^verbatim>\<open>replace\<close> of every backslash followed by a quote by the quote.\<close>

fun unescape :: "ustring \<Rightarrow> ustring" where
  "unescape (a # b # t) = (if a = BACKSLASH \<and> b = QUOTE then QUOTE # unescape t else a # unescape (b # t))"
| "unescape t = t"

definition unquote :: "ustring \<Rightarrow> ustring" where
  "unquote raw = (let s = trim_text raw in
     if 2 \<le> length s \<and> hd s = QUOTE \<and> last s = QUOTE then unescape (butlast (tl s)) else s)"

text \<open>\<^verbatim>\<open>split_once\<close> and \<^verbatim>\<open>split\<close> on a character.\<close>

definition split_once :: "code_point \<Rightarrow> ustring \<Rightarrow> (ustring \<times> ustring) option" where
  "split_once c t = (if c \<in> set t then Some (takeWhile (\<lambda>x. x \<noteq> c) t, tl (dropWhile (\<lambda>x. x \<noteq> c) t)) else None)"

fun split_on :: "code_point \<Rightarrow> ustring \<Rightarrow> ustring list" where
  "split_on c [] = [[]]"
| "split_on c (x # t) = (if x = c then [] # split_on c t
     else case split_on c t of [] \<Rightarrow> [[x]] | p # ps \<Rightarrow> (x # p) # ps)"

fun parse_flags :: "ustring list \<Rightarrow> (ustring, ustring) hash_map \<Rightarrow> cli_error + (ustring, ustring) hash_map" where
  "parse_flags [] flags = Inr flags"
| "parse_flags (token # tokens) flags = (case split_once EQUALS token of
      None \<Rightarrow> Inl (Usage (str ''argument invalide (attendu key=value): '' @ token))
    | Some (key, val) \<Rightarrow>
        if hm_contains flags key then Inl (Usage (str ''argument dupliqu'' @ [E_ACUTE] @ str '': '' @ key))
        else parse_flags tokens (hm_insert key val flags))"

definition parse_command_args :: "ustring list \<Rightarrow> nat \<Rightarrow> cli_error + command_args" where
  "parse_command_args tokens n_positional =
     (if length tokens < n_positional then
        Inl (Usage (str (''attendu au moins '' @ show_nat n_positional @ '' argument(s) positionnel(s), trouv'') @
          [E_ACUTE] @ str ('' '' @ show_nat (length tokens))))
      else case parse_flags (drop n_positional tokens) [] of
          Inl e \<Rightarrow> Inl e
        | Inr flags \<Rightarrow> Inr \<lparr>ca_positionals = map unquote (take n_positional tokens), ca_flags = flags\<rparr>)"

definition positional :: "command_args \<Rightarrow> nat \<Rightarrow> cli_error + ustring" where
  "positional a i = (if i < length (ca_positionals a) then Inr (ca_positionals a ! i)
     else Inl (Usage (str (''argument positionnel manquant #'' @ show_nat i))))"

definition flag_str :: "command_args \<Rightarrow> ustring \<Rightarrow> ustring option" where
  "flag_str a key = hm_get (ca_flags a) key"

definition flag_text :: "command_args \<Rightarrow> ustring \<Rightarrow> ustring option" where
  "flag_text a key = map_option unquote (hm_get (ca_flags a) key)"

definition flag_bool_opt :: "command_args \<Rightarrow> ustring \<Rightarrow> cli_error + bool option" where
  "flag_bool_opt a key = (case flag_str a key of
      None \<Rightarrow> Inr None
    | Some v \<Rightarrow>
        if v = str ''true'' then Inr (Some True)
        else if v = str ''false'' then Inr (Some False)
        else Inl (Usage (str ''valeur bool'' @ [E_ACUTE] @ str ''enne invalide pour '' @ key @ str '': '' @ v)))"

definition flag_bool :: "command_args \<Rightarrow> ustring \<Rightarrow> bool \<Rightarrow> cli_error + bool" where
  "flag_bool a key dflt = (case flag_bool_opt a key of
      Inl e \<Rightarrow> Inl e
    | Inr None \<Rightarrow> Inr dflt
    | Inr (Some b) \<Rightarrow> Inr b)"

definition flag_csv :: "command_args \<Rightarrow> ustring \<Rightarrow> ustring list" where
  "flag_csv a key = (case flag_str a key of
      None \<Rightarrow> []
    | Some s \<Rightarrow> filter (\<lambda>v. v \<noteq> []) (map trim_text (split_on COMMA s)))"

definition flag_reducer :: "command_args \<Rightarrow> ustring \<Rightarrow> cli_error + reducer option" where
  "flag_reducer a key = (case flag_str a key of
      None \<Rightarrow> Inr None
    | Some v \<Rightarrow>
        if v = str ''append'' then Inr (Some Append)
        else if v = str ''lww'' then Inr (Some LastWriteWins)
        else if v = str ''max'' then Inr (Some Max)
        else Inl (Usage (str ''reducer inconnu: '' @ v @ str '' (attendu append|lww|max)'')))"

section \<open>Values\<close>

text \<open>\<^verbatim>\<open>str::parse::<i64>\<close>: an optional sign and decimal digits, within 64 bits.\<close>

definition is_digit :: "code_point \<Rightarrow> bool" where
  "is_digit c \<longleftrightarrow> 48 \<le> c \<and> c \<le> 57"

definition digits_value :: "ustring \<Rightarrow> nat" where
  "digits_value ds = fold (\<lambda>d acc. acc * 10 + (d - 48)) ds 0"

definition split_sign :: "ustring \<Rightarrow> bool \<times> ustring" where
  "split_sign s = (case s of
      c # t \<Rightarrow> if c = 45 then (True, t) else if c = 43 then (False, t) else (False, s)
    | [] \<Rightarrow> (False, []))"

definition parse_i64 :: "ustring \<Rightarrow> int option" where
  "parse_i64 s = (let (neg, ds) = split_sign s in
     if ds = [] \<or> \<not> list_all is_digit ds then None
     else let n = int (digits_value ds); v = (if neg then - n else n)
          in if - (2 ^ 63) \<le> v \<and> v < 2 ^ 63 then Some v else None)"

text \<open>
  \<^verbatim>\<open>str::parse::<f64>\<close>: a sign, then \<^verbatim>\<open>inf\<close>, \<^verbatim>\<open>infinity\<close> or \<^verbatim>\<open>nan\<close> in any case, or digits with an
  optional fraction and an optional exponent, rounded to the nearest double.
\<close>

definition lower :: "code_point \<Rightarrow> code_point" where
  "lower c = (if 65 \<le> c \<and> c \<le> 90 then c + 32 else c)"

definition split_exponent :: "ustring \<Rightarrow> (ustring \<times> int) option" where
  "split_exponent s =
     (let mant = takeWhile (\<lambda>c. lower c \<noteq> 101) s; rest = dropWhile (\<lambda>c. lower c \<noteq> 101) s in
      if rest = [] then Some (mant, 0)
      else let (neg, ds) = split_sign (tl rest) in
        if ds = [] \<or> \<not> list_all is_digit ds then None
        else Some (mant, if neg then - int (digits_value ds) else int (digits_value ds)))"

definition parse_f64 :: "ustring \<Rightarrow> f64 option" where
  "parse_f64 s = (let (neg, t) = split_sign s in
     if map lower t = str ''inf'' \<or> map lower t = str ''infinity'' then Some (f64_make neg (2047 * 2 ^ 52))
     else if map lower t = str ''nan'' then Some (f64_make neg (4095 * 2 ^ 51))
     else case split_exponent t of
         None \<Rightarrow> None
       | Some (mant, ex) \<Rightarrow>
           (let (whole, frac) = (case split_once 46 mant of Some p \<Rightarrow> p | None \<Rightarrow> (mant, [])) in
            if whole @ frac = [] \<or> \<not> list_all is_digit (whole @ frac) then None
            else let n = digits_value (whole @ frac); e = ex - int (length frac) in
              Some (f64_make neg (if 0 \<le> e then round_ratio (n * 10 ^ nat e) 1 else round_ratio n (10 ^ nat (- e))))))"

definition json_i64 :: "int \<Rightarrow> value" where
  "json_i64 i = VNumber (if 0 \<le> i then PosInt (word_of_int i) else NegInt (word_of_int i))"

text \<open>\<^verbatim>\<open>split_top_level_commas\<close>: the parts, the part in progress and the depth.\<close>

fun split_commas_loop :: "ustring list \<Rightarrow> ustring \<Rightarrow> int \<Rightarrow> ustring \<Rightarrow> ustring list" where
  "split_commas_loop parts part depth [] = parts @ [part]"
| "split_commas_loop parts part depth (c # cs) =
     (if c = OPEN then split_commas_loop parts (part @ [c]) (depth + 1) cs
      else if c = CLOSE then split_commas_loop parts (part @ [c]) (depth - 1) cs
      else if c = COMMA \<and> depth = 0 then split_commas_loop (parts @ [part]) [] depth cs
      else split_commas_loop parts (part @ [c]) depth cs)"

definition split_top_level_commas :: "ustring \<Rightarrow> ustring list" where
  "split_top_level_commas s = split_commas_loop [] [] 0 s"

lemma split_commas_length:
  "p \<in> set (split_commas_loop parts part depth s) \<Longrightarrow>
    p \<in> set parts \<or> length p \<le> length part + length s"
  by (induction parts part depth s rule: split_commas_loop.induct) (force split: if_splits)+

lemma length_trim: "length (trim_text t) \<le> length t"
  unfolding trim_text_def using length_dropWhile_le le_trans length_rev by metis

function (sequential) parse_value :: "ustring \<Rightarrow> value" where
  "parse_value raw = (let s = trim_text raw in
     if s = [] \<or> s = [QUOTE, QUOTE] then VString ''''
     else if hd s = QUOTE \<and> last s = QUOTE \<and> 2 \<le> length s then VString (utf8 (unquote s))
     else if hd s = OPEN \<and> last s = CLOSE then
       VArray (map parse_value (filter (\<lambda>item. item \<noteq> []) (map trim_text (split_top_level_commas (butlast (tl s))))))
     else case parse_i64 s of
         Some i \<Rightarrow> json_i64 i
       | None \<Rightarrow> (case parse_f64 s of
             Some x \<Rightarrow> json_f64 x
           | None \<Rightarrow> VString (utf8 s)))"
  by pat_completeness auto
termination
proof (relation "measure length")
  fix raw s item
  assume s: "s = trim_text raw" "\<not> (s = [] \<or> s = [QUOTE, QUOTE])" "hd s = OPEN \<and> last s = CLOSE"
    and item: "item \<in> set (filter (\<lambda>item. item \<noteq> []) (map trim_text (split_top_level_commas (butlast (tl s)))))"
  then obtain p where p: "p \<in> set (split_top_level_commas (butlast (tl s)))" "item = trim_text p" by auto
  have "length item \<le> length (butlast (tl s))"
    using split_commas_length [of p "[]" "[]" 0 "butlast (tl s)"] p length_trim [of p]
    by (auto simp: split_top_level_commas_def)
  also have "\<dots> < length s" using s(2) by (cases s) auto
  also have "\<dots> \<le> length raw" using s(1) length_trim by blast
  finally show "(item, raw) \<in> measure length" by simp
qed simp

definition flag_value :: "command_args \<Rightarrow> ustring \<Rightarrow> cli_error + value option" where
  "flag_value a key = Inr (map_option parse_value (flag_str a key))"

section \<open>Writing a command line\<close>

text \<open>
  A command as a user types it: words, then flags whose text is between quotes with its quotes
  escaped, each followed by a space.
\<close>

primrec escape :: "ustring \<Rightarrow> ustring" where
  "escape [] = []"
| "escape (c # t) = (if c = QUOTE then BACKSLASH # QUOTE # escape t else c # escape t)"

definition flag_word :: "ustring \<times> ustring \<Rightarrow> ustring" where
  "flag_word f = fst f @ [EQUALS, QUOTE] @ escape (snd f) @ [QUOTE]"

definition flag_token :: "ustring \<times> ustring \<Rightarrow> ustring" where
  "flag_token f = fst f @ [EQUALS, QUOTE] @ snd f @ [QUOTE]"

definition print_command :: "ustring list \<Rightarrow> (ustring \<times> ustring) list \<Rightarrow> ustring" where
  "print_command ws fs = concat (map (\<lambda>w. w @ [32]) (ws @ map flag_word fs))"

definition plain_char :: "code_point \<Rightarrow> bool" where
  "plain_char c \<longleftrightarrow> \<not> is_whitespace c \<and> c \<noteq> QUOTE \<and> c \<noteq> OPEN"

definition plain_word :: "ustring \<Rightarrow> bool" where
  "plain_word w \<longleftrightarrow> w \<noteq> [] \<and> list_all plain_char w"

definition plain_key :: "ustring \<Rightarrow> bool" where
  "plain_key k \<longleftrightarrow> list_all (\<lambda>c. plain_char c \<and> c \<noteq> EQUALS) k"

text \<open>No backslash stands before a quote.\<close>

fun no_escape :: "ustring \<Rightarrow> bool" where
  "no_escape (a # b # t) \<longleftrightarrow> \<not> (a = BACKSLASH \<and> b = QUOTE) \<and> no_escape (b # t)"
| "no_escape t \<longleftrightarrow> True"

lemma tokenize_plain:
  "list_all plain_char w \<Longrightarrow>
    tokenize_loop tokens current has Normal (w @ rest) =
      tokenize_loop tokens (current @ w) (has \<or> w \<noteq> []) Normal rest"
  by (induction w arbitrary: current has) (auto simp: plain_char_def)

lemma hd_escape: "body \<noteq> [] \<Longrightarrow> hd (escape body @ rest) = (if hd body = QUOTE then BACKSLASH else hd body)"
  by (cases body) auto

lemma escape_eq_Nil [simp]: "escape body = [] \<longleftrightarrow> body = []"
  by (cases body) auto

lemma tokenize_quoted:
  "body = [] \<or> last body \<noteq> BACKSLASH \<Longrightarrow>
    tokenize_loop tokens current has Quoted (escape body @ QUOTE # rest) =
      tokenize_loop tokens (current @ body @ [QUOTE]) has Normal rest"
proof (induction body arbitrary: current)
  case (Cons c body)
  have next_char: "c = BACKSLASH \<Longrightarrow> hd (escape body @ QUOTE # rest) \<noteq> QUOTE"
    using Cons.prems hd_escape [of body "QUOTE # rest"] by (cases "body = []") (auto split: if_splits)
  have last: "body = [] \<or> last body \<noteq> BACKSLASH" using Cons.prems by (cases body) auto
  show ?case
    using Cons.IH [OF last] next_char by auto
qed simp

lemma unescape_id: "no_escape t \<Longrightarrow> unescape t = t"
  by (induction t rule: no_escape.induct) auto

lemma no_escape_snoc: "no_escape (body @ [QUOTE]) \<longleftrightarrow> no_escape body \<and> (body = [] \<or> last body \<noteq> BACKSLASH)"
  by (induction body rule: no_escape.induct) auto

lemma trim_id:
  assumes "t \<noteq> []" and "\<not> is_whitespace (hd t)" and "\<not> is_whitespace (last t)"
  shows "trim_text t = t"
proof -
  have front: "dropWhile is_whitespace t = t" using assms by (cases t) auto
  have "rev t \<noteq> []" "\<not> is_whitespace (hd (rev t))" using assms by (auto simp: hd_rev)
  then have "dropWhile is_whitespace (rev t) = rev t" by (cases "rev t") auto
  with front show ?thesis by (simp add: trim_text_def)
qed

lemma not_whitespace_quote [simp]: "\<not> is_whitespace QUOTE"
  by (simp add: is_whitespace_def)

lemma unquote_word: "plain_word w \<Longrightarrow> unquote w = w"
  using trim_id [of w]
  by (cases w) (auto simp: unquote_def plain_word_def plain_char_def list_all_iff Let_def)

lemma unquote_quoted: "no_escape body \<Longrightarrow> unquote (QUOTE # body @ [QUOTE]) = body"
  using trim_id [of "QUOTE # body @ [QUOTE]"]
  by (simp add: unquote_def Let_def unescape_id)

lemma tokenize_words:
  "list_all plain_word ws \<Longrightarrow>
    tokenize_loop tokens [] False Normal (concat (map (\<lambda>w. w @ [32]) ws) @ rest) =
      tokenize_loop (tokens @ ws) [] False Normal rest"
proof (induction ws arbitrary: tokens)
  case (Cons w ws)
  then show ?case
    by (simp add: plain_word_def tokenize_plain) (simp add: is_whitespace_def)
qed simp

lemma tokenize_flags:
  "list_all (\<lambda>(k, b). plain_key k \<and> no_escape (b @ [QUOTE])) fs \<Longrightarrow>
    tokenize_loop tokens [] False Normal (concat (map (\<lambda>w. w @ [32]) (map flag_word fs))) =
      Inr (tokens @ map flag_token fs)"
proof (induction fs arbitrary: tokens)
  case (Cons f fs)
  obtain k b where f: "f = (k, b)" by (cases f)
  have key: "list_all plain_char (k @ [EQUALS])"
    using Cons.prems f by (auto simp: plain_key_def list_all_iff plain_char_def is_whitespace_def)
  have body: "b = [] \<or> last b \<noteq> BACKSLASH"
    using Cons.prems f by (simp add: no_escape_snoc)
  have space: "is_whitespace 32" by (simp add: is_whitespace_def)
  show ?case
    using Cons tokenize_plain [OF key, of tokens "[]" False] body
    by (simp add: f flag_word_def flag_token_def tokenize_quoted space)
qed simp

lemma split_flag_token:
  "plain_key k \<Longrightarrow> split_once EQUALS (flag_token (k, b)) = Some (k, QUOTE # b @ [QUOTE])"
proof -
  assume "plain_key k"
  then have "\<forall>c\<in>set k. c \<noteq> EQUALS" by (simp add: plain_key_def list_all_iff)
  then show ?thesis by (auto simp: split_once_def flag_token_def takeWhile_append dropWhile_append)
qed

lemma parse_flag_tokens:
  "\<lbrakk>list_all (\<lambda>(k, b). plain_key k) fs; distinct (map fst fs); \<forall>k\<in>set (map fst fs). hm_get flags k = None\<rbrakk> \<Longrightarrow>
    \<exists>r. parse_flags (map flag_token fs) flags = Inr r \<and>
      (\<forall>(k, b)\<in>set fs. hm_get r k = Some (QUOTE # b @ [QUOTE])) \<and>
      (\<forall>k. k \<notin> set (map fst fs) \<longrightarrow> hm_get r k = hm_get flags k)"
proof (induction fs arbitrary: flags)
  case (Cons f fs)
  obtain k b where f: "f = (k, b)" by (cases f)
  have fresh: "\<forall>k'\<in>set (map fst fs). hm_get (hm_insert k (QUOTE # b @ [QUOTE]) flags) k' = None"
    using Cons.prems f by (auto simp: hm_get_insert image_iff)
  show ?case
    using Cons.IH [of "hm_insert k (QUOTE # b @ [QUOTE]) flags"] Cons.prems fresh f
    by (fastforce simp: split_flag_token hm_get_insert hm_contains_def)
qed auto

text \<open>
  C27: a command line written from words and flags is read back: the words are the positional
  arguments and the text of each flag is the one that was quoted, spaces, brackets, quotes and
  equal signs in it included. The text of a flag may not have a backslash before a quote or at its
  end, and the keys are different.
\<close>

theorem command_line_roundtrip:
  assumes "list_all plain_word ws"
    and "list_all (\<lambda>(k, b). plain_key k \<and> no_escape (b @ [QUOTE])) fs"
    and "distinct (map fst fs)"
  shows "\<exists>tokens a. tokenize (print_command ws fs) = Inr tokens \<and>
    parse_command_args tokens (length ws) = Inr a \<and>
    (\<forall>i<length ws. positional a i = Inr (ws ! i)) \<and>
    (\<forall>(k, b)\<in>set fs. flag_text a k = Some b)"
proof -
  have tokens: "tokenize (print_command ws fs) = Inr (ws @ map flag_token fs)"
    using tokenize_words [OF assms(1)] tokenize_flags [OF assms(2)]
    by (simp add: tokenize_def print_command_def)
  have keys: "list_all (\<lambda>(k, b). plain_key k) fs" using assms(2) by (auto simp: list_all_iff)
  obtain r where r: "parse_flags (map flag_token fs) [] = Inr r"
      "\<forall>(k, b)\<in>set fs. hm_get r k = Some (QUOTE # b @ [QUOTE])"
    using parse_flag_tokens [OF keys assms(3), of "[]"] by auto
  have words: "map unquote ws = ws"
    using assms(1) by (induction ws) (auto simp: unquote_word)
  have "flag_text \<lparr>ca_positionals = ws, ca_flags = r\<rparr> k = Some b" if "(k, b) \<in> set fs" for k b
  proof -
    have "no_escape b" using that assms(2) by (auto simp: list_all_iff no_escape_snoc)
    then show ?thesis using that r(2) by (auto simp: flag_text_def unquote_quoted)
  qed
  then show ?thesis
    using tokens r(1) words by (auto simp: parse_command_args_def positional_def)
qed

theorem command_line_roundtrip_witness:
  "\<exists>tokens a. tokenize (print_command [str ''e1''] [(str ''prompt'', str ''a [ = '' @ [QUOTE])]) = Inr tokens \<and>
    parse_command_args tokens (length [str ''e1'']) = Inr a \<and>
    (\<forall>i<length [str ''e1'']. positional a i = Inr ([str ''e1''] ! i)) \<and>
    (\<forall>(k, b)\<in>set [(str ''prompt'', str ''a [ = '' @ [QUOTE])]. flag_text a k = Some b)"
proof (rule command_line_roundtrip)
  show "list_all plain_word [str ''e1'']"
    by (simp add: plain_word_def plain_char_def str_def is_whitespace_def of_char_def)
  show "list_all (\<lambda>(k, b). plain_key k \<and> no_escape (b @ [QUOTE]))
      [(str ''prompt'', str ''a [ = '' @ [QUOTE])]"
    by (simp add: plain_key_def plain_char_def str_def is_whitespace_def of_char_def)
qed simp

text \<open>
  The comment on \<^verbatim>\<open>tokenize\<close> gives quotes priority over brackets. They have it when they are open
  first; inside a list a quote is an ordinary character, so a bracket in a quoted item is counted.
\<close>

lemma bracket_in_quoted_item:
  "tokenize (str ''a=['' @ [QUOTE] @ str ''['' @ [QUOTE] @ str '']'') =
    Inl (Usage (str ''crochet non ferm'' @ [E_ACUTE]))"
  by (simp add: tokenize_def str_def is_whitespace_def of_char_def word_le_nat_alt)

end
