(* ===== verification/Model_Catalog.thy ===== *)
theory Model_Catalog
  imports Secrets Session_Worker
begin

text \<open>
  Declared models (\<^verbatim>\<open>marie-core/src/model/model.rs\<close>, \<^verbatim>\<open>model/mod.rs\<close>): a declaration is published in
  the catalogue with a reference to its API key, which the vault keeps. The client of the model
  service is third-party; what is made of the events it streams is modelled.
\<close>

section \<open>Declarations\<close>

datatype create_model = OpenAICompatible string string string string string "string option"

record encrypted_model =
  em_id :: string
  em_base_url :: string
  em_client_id :: string
  em_api_key :: secret_ref
  em_model :: string
  em_system_prompt :: "string option"

record model =
  mo_id :: string
  mo_base_url :: string
  mo_client_id :: string
  mo_api_key :: string
  mo_model :: string
  mo_system_prompt :: "string option"

datatype model_error = ModelVaultError vault_error | ModelCatalogError catalog_error | OpenAIError string

datatype model_change =
    SetBaseUrl string
  | SetClientId string
  | SetApiKey string
  | SetModel string
  | SetSystemPrompt string

record models =
  ms_vault :: vault
  ms_catalog :: catalog_store

type_synonym 'a models_prog = "(models, model_error, 'a) prog"

abbreviation NS_SECRETS :: string where "NS_SECRETS \<equiv> ''/marie/secrets/models''"

definition model_catalogable ::
  "(encrypted_model \<Rightarrow> string + u8 list) \<Rightarrow> (u8 list \<Rightarrow> string + encrypted_model) \<Rightarrow> encrypted_model catalogable" where
  "model_catalogable ser de =
     \<lparr>cat_kind = ''/marie/catalog/models'', cat_id = em_id, to_vec = ser, from_slice = de\<rparr>"

text \<open>Calls of the vault and of the catalogue, with the conversions of their errors.\<close>

definition in_vault :: "(vault, vault_error, 'a) prog \<Rightarrow> 'a models_prog" where
  "in_vault m s = (case m (ms_vault s) of
      (Ok a, v) \<Rightarrow> (Ok a, s\<lparr>ms_vault := v\<rparr>)
    | (Err e, v) \<Rightarrow> (Err (ModelVaultError e), s\<lparr>ms_vault := v\<rparr>)
    | (Panic p, v) \<Rightarrow> (Panic p, s\<lparr>ms_vault := v\<rparr>))"

definition in_catalog :: "'a catalog_prog \<Rightarrow> 'a models_prog" where
  "in_catalog m s = (case m (ms_catalog s) of
      (Ok a, st) \<Rightarrow> (Ok a, s\<lparr>ms_catalog := st\<rparr>)
    | (Err e, st) \<Rightarrow> (Err (ModelCatalogError e), s\<lparr>ms_catalog := st\<rparr>)
    | (Panic p, st) \<Rightarrow> (Panic p, s\<lparr>ms_catalog := st\<rparr>))"

section \<open>Operations\<close>

fun models_insert ::
  "crypto \<Rightarrow> encrypted_model catalogable \<Rightarrow> ID \<Rightarrow> u8 list \<Rightarrow> create_model \<Rightarrow> catalog_item_ref models_prog" where
  "models_insert c C i nonce (OpenAICompatible mid base_url client_id api_key model system_prompt) =
     bind (in_vault (vault_store c i nonce NS_SECRETS (bytes_of api_key))) (\<lambda>r.
       in_catalog (catalog_publish C
         \<lparr>em_id = mid, em_base_url = base_url, em_client_id = client_id, em_api_key = r, em_model = model,
          em_system_prompt = system_prompt\<rparr>))"

text \<open>One change after the other; each new key is sealed with a nonce of its own.\<close>

fun apply_changes ::
  "crypto \<Rightarrow> (nat \<Rightarrow> u8 list) \<Rightarrow> encrypted_model \<Rightarrow> model_change list \<Rightarrow> encrypted_model models_prog" where
  "apply_changes c nonces m [] = ret m"
| "apply_changes c nonces m (SetBaseUrl x # cs) = apply_changes c nonces (m\<lparr>em_base_url := x\<rparr>) cs"
| "apply_changes c nonces m (SetClientId x # cs) = apply_changes c nonces (m\<lparr>em_client_id := x\<rparr>) cs"
| "apply_changes c nonces m (SetApiKey x # cs) =
     seq (in_vault (vault_update c (nonces (length cs)) (em_api_key m) NS_SECRETS (bytes_of x)))
       (apply_changes c nonces m cs)"
| "apply_changes c nonces m (SetModel x # cs) = apply_changes c nonces (m\<lparr>em_model := x\<rparr>) cs"
| "apply_changes c nonces m (SetSystemPrompt x # cs) = apply_changes c nonces (m\<lparr>em_system_prompt := Some x\<rparr>) cs"

definition models_change ::
  "crypto \<Rightarrow> encrypted_model catalogable \<Rightarrow> (nat \<Rightarrow> u8 list) \<Rightarrow> string \<Rightarrow> model_change list \<Rightarrow> catalog_item_ref models_prog" where
  "models_change c C nonces mid changes =
     bind (in_catalog (catalog_latest C mid)) (\<lambda>m. bind (apply_changes c nonces m changes) (\<lambda>m'.
       in_catalog (catalog_publish C m')))"

definition models_delete :: "encrypted_model catalogable \<Rightarrow> string \<Rightarrow> unit models_prog" where
  "models_delete C mid =
     bind (in_catalog (catalog_latest_ref C mid)) (\<lambda>r. bind (in_catalog (catalog_deref C r)) (\<lambda>m.
       seq (in_vault (vault_remove (em_api_key m))) (in_catalog (catalog_delete r))))"

definition models_latest :: "encrypted_model catalogable \<Rightarrow> string \<Rightarrow> catalog_item_ref option models_prog" where
  "models_latest C mid = in_catalog (not_found_as_none (catalog_latest_ref C mid))"

definition models_get :: "encrypted_model catalogable \<Rightarrow> catalog_item_ref \<Rightarrow> catalog_item_ref option models_prog" where
  "models_get C r = bind (in_catalog (not_found_as_none (catalog_deref C r))) (\<lambda>m.
     ret (map_option (\<lambda>_. r) m))"

definition models_list :: "encrypted_model catalogable \<Rightarrow> encrypted_model list models_prog" where
  "models_list C = in_catalog (directory_list C)"

definition model_decrypt :: "crypto \<Rightarrow> vault \<Rightarrow> encrypted_model \<Rightarrow> (vault_error, model) outcome" where
  "model_decrypt c v m = (case get_decrypted_str c v (em_api_key m) NS_SECRETS of
      Ok key \<Rightarrow> Ok \<lparr>mo_id = em_id m, mo_base_url = em_base_url m, mo_client_id = em_client_id m, mo_api_key = key,
        mo_model = em_model m, mo_system_prompt = em_system_prompt m\<rparr>
    | Err e \<Rightarrow> Err e
    | Panic p \<Rightarrow> Panic p)"

section \<open>The stream of a model\<close>

text \<open>
  The events of the service that matter, and its final response: the text the library extracts
  and the items of the output. The token counts of a response are only carried along and are
  left out.
\<close>

datatype output_item = FunctionCall string string | OtherItem

record response =
  rs_output_text :: "string option"
  rs_output :: "output_item list"

datatype response_event =
    OutputTextDelta string
  | ResponseCompleted response
  | ResponseFailed "string option"
  | ResponseError string
  | StreamError string
  | OtherEvent

definition response_tool_calls :: "(string \<Rightarrow> value option) \<Rightarrow> output_item list \<Rightarrow> request_tool_call list" where
  "response_tool_calls from_str items = List.map_filter (\<lambda>it. case it of
      FunctionCall name args \<Rightarrow>
        Some \<lparr>call_name = name, call_parameters = (case from_str args of Some v \<Rightarrow> v | None \<Rightarrow> VNull)\<rparr>
    | OtherItem \<Rightarrow> None) items"

fun model_stream ::
  "(string \<Rightarrow> value option) \<Rightarrow> response option \<Rightarrow> string option \<Rightarrow> response_event list \<Rightarrow> model_stream_event list" where
  "model_stream from_str final_response failure [] = [case failure of
      Some m \<Rightarrow> ModelFailed m
    | None \<Rightarrow> (case final_response of
          Some r \<Rightarrow> ModelCompleted (rs_output_text r) (response_tool_calls from_str (rs_output r))
        | None \<Rightarrow> ModelFailed ''le flux s'est termine sans reponse'')]"
| "model_stream from_str final_response failure (e # es) = (case e of
      OutputTextDelta d \<Rightarrow> TextDelta d # model_stream from_str final_response failure es
    | ResponseCompleted r \<Rightarrow> model_stream from_str (Some r) failure es
    | ResponseFailed m \<Rightarrow>
        model_stream from_str final_response (Some (case m of Some t \<Rightarrow> t | None \<Rightarrow> ''reponse echouee'')) es
    | ResponseError m \<Rightarrow> model_stream from_str final_response (Some m) es
    | StreamError m \<Rightarrow> model_stream from_str final_response (Some m) es
    | OtherEvent \<Rightarrow> model_stream from_str final_response failure es)"

text \<open>
  The client of the service: how it is configured, the request it sends, and what it answers,
  a parameter.
\<close>

record openai_config =
  oc_api_base :: string
  oc_api_key :: string
  oc_org_id :: string

record function_tool =
  ft_name :: string
  ft_description :: string
  ft_parameters :: "value"

record create_response =
  cr_model :: string
  cr_input :: string
  cr_tools :: "function_tool list"
  cr_instructions :: "string option"

type_synonym openai_client = "openai_config \<Rightarrow> create_response \<Rightarrow> string + response_event list"

definition model_request :: "model \<Rightarrow> tool list \<Rightarrow> string \<Rightarrow> create_response" where
  "model_request m tools input = \<lparr>cr_model = mo_model m, cr_input = input,
     cr_tools = map (\<lambda>t. \<lparr>ft_name = t_name t, ft_description = t_description t,
       ft_parameters = t_parameters_schema t\<rparr>) tools,
     cr_instructions = mo_system_prompt m\<rparr>"

definition model_execute ::
  "openai_client \<Rightarrow> (string \<Rightarrow> value option) \<Rightarrow> model \<Rightarrow> tool list \<Rightarrow> string \<Rightarrow>
     (model_error, model_stream_event list) outcome" where
  "model_execute client from_str m tools input =
     (case client \<lparr>oc_api_base = mo_base_url m, oc_api_key = mo_api_key m, oc_org_id = mo_client_id m\<rparr>
             (model_request m tools input) of
        Inl e \<Rightarrow> Err (OpenAIError e)
      | Inr events \<Rightarrow> Ok (model_stream from_str None None events))"

definition models_execute ::
  "crypto \<Rightarrow> openai_client \<Rightarrow> (string \<Rightarrow> value option) \<Rightarrow> encrypted_model catalogable \<Rightarrow>
     string \<Rightarrow> context_entry list \<Rightarrow> tool list \<Rightarrow> model_stream_event list models_prog" where
  "models_execute c client from_str C mid context tools =
     bind (in_catalog (catalog_latest C mid)) (\<lambda>m s. case model_decrypt c (ms_vault s) m of
         Ok x \<Rightarrow> (model_execute client from_str x tools (context_to_string context), s)
       | Err e \<Rightarrow> (Err (ModelVaultError e), s)
       | Panic p \<Rightarrow> (Panic p, s))"

section \<open>Facts on the stream\<close>

fun text_deltas :: "response_event list \<Rightarrow> string list" where
  "text_deltas [] = []"
| "text_deltas (OutputTextDelta d # es) = d # text_deltas es"
| "text_deltas (_ # es) = text_deltas es"

fun ends_stream :: "model_stream_event \<Rightarrow> bool" where
  "ends_stream (TextDelta d) \<longleftrightarrow> False"
| "ends_stream _ \<longleftrightarrow> True"

fun is_failure :: "response_event \<Rightarrow> bool" where
  "is_failure (ResponseFailed m) \<longleftrightarrow> True"
| "is_failure (ResponseError m) \<longleftrightarrow> True"
| "is_failure (StreamError m) \<longleftrightarrow> True"
| "is_failure _ \<longleftrightarrow> False"

fun is_completion :: "response_event \<Rightarrow> bool" where
  "is_completion (ResponseCompleted r) \<longleftrightarrow> True"
| "is_completion _ \<longleftrightarrow> False"

lemma model_stream_split:
  "\<exists>e. model_stream from_str final_response failure es = map TextDelta (text_deltas es) @ [e] \<and> ends_stream e \<and>
     ((\<exists>t calls. e = ModelCompleted t calls) \<longleftrightarrow>
        failure = None \<and> (\<forall>x \<in> set es. \<not> is_failure x) \<and> (final_response \<noteq> None \<or> (\<exists>x \<in> set es. is_completion x)))"
proof (induction es arbitrary: final_response failure)
  case Nil
  then show ?case by (auto split: option.splits)
next
  case (Cons x es)
  show ?case
  proof (cases x)
    case (OutputTextDelta d)
    then show ?thesis using Cons [of final_response failure] by simp
  next
    case (ResponseCompleted r)
    then show ?thesis using Cons [of "Some r" failure] by simp
  next
    case (ResponseFailed m)
    then show ?thesis
      using Cons [of final_response "Some (case m of Some t \<Rightarrow> t | None \<Rightarrow> ''reponse echouee'')"] by simp
  next
    case (ResponseError m)
    then show ?thesis using Cons [of final_response "Some m"] by simp
  next
    case (StreamError m)
    then show ?thesis using Cons [of final_response "Some m"] by simp
  next
    case OtherEvent
    then show ?thesis using Cons [of final_response failure] by simp
  qed
qed

section \<open>Properties\<close>

text \<open>
  C29: a model that was inserted is found by its identifier and opens to what was inserted, its key
  in clear included. A request for it calls the service with the address, the key and the client
  identifier of the model, and sends it the name of the model, the text of the context, the tools
  and the system prompt; the result is the stream of the events the service answers, or its
  error. This holds under the documented laws of the sealed box and of the codec of this
  declaration, when the key is valid UTF-8 and the current epoch of the vault is the default one,
  0 (a key sealed in another epoch does not open).
\<close>

theorem inserted_model_executes:
  assumes "aead_law c" and "length nonce = 12" and "sm_current_epoch (va_secrets (ms_vault s)) = 0"
    and "from_utf8 (bytes_of api_key) = Inr api_key"
    and "ser \<lparr>em_id = mid, em_base_url = base_url, em_client_id = client_id, em_api_key = SecretRef i, em_model = name,
           em_system_prompt = prompt\<rparr> = Inr d"
    and "de d = Inr \<lparr>em_id = mid, em_base_url = base_url, em_client_id = client_id, em_api_key = SecretRef i,
           em_model = name, em_system_prompt = prompt\<rparr>"
    and "models_insert c (model_catalogable ser de) i nonce
           (OpenAICompatible mid base_url client_id api_key name prompt) s = (Ok r, s')"
  shows "models_execute c client from_str (model_catalogable ser de) mid context tools s' =
    (case client \<lparr>oc_api_base = base_url, oc_api_key = api_key, oc_org_id = client_id\<rparr>
        \<lparr>cr_model = name, cr_input = context_to_string context,
         cr_tools = map (\<lambda>t. \<lparr>ft_name = t_name t, ft_description = t_description t,
           ft_parameters = t_parameters_schema t\<rparr>) tools,
         cr_instructions = prompt\<rparr> of
       Inl e \<Rightarrow> Err (OpenAIError e)
     | Inr events \<Rightarrow> Ok (model_stream from_str None None events), s')"
proof -
  let ?C = "model_catalogable ser de"
  obtain v where v: "vault_store c i nonce NS_SECRETS (bytes_of api_key) (ms_vault s) = (Ok (SecretRef i), v)"
    and pub: "in_catalog (catalog_publish ?C
         \<lparr>em_id = mid, em_base_url = base_url, em_client_id = client_id, em_api_key = SecretRef i, em_model = name,
          em_system_prompt = prompt\<rparr>) (s\<lparr>ms_vault := v\<rparr>) = (Ok r, s')"
    using assms(7) by (auto simp: in_vault_def bind_def vault_store_def split: outcome.splits prod.splits)
  let ?m = "\<lparr>em_id = mid, em_base_url = base_url, em_client_id = client_id, em_api_key = SecretRef i,
    em_model = name, em_system_prompt = prompt\<rparr>"
  have s': "ms_vault s' = v" "catalog_latest ?C mid (ms_catalog s') = (Ok ?m, ms_catalog s')"
    using pub publish_latest [of ?C ?m d "ms_catalog s"] assms(5,6)
    by (auto simp: in_catalog_def model_catalogable_def split: outcome.splits prod.splits)
  moreover have "get_decrypted c v (SecretRef i) NS_SECRETS = Ok (bytes_of api_key)"
    by (rule stored_secret_opens [OF assms(1) v assms(2,3)])
  ultimately show ?thesis
    using assms(4)
    by (simp add: models_execute_def bind_def in_catalog_def model_decrypt_def get_decrypted_str_def model_execute_def
        model_request_def)
qed

text \<open>
  Deleting a model removes the key of its latest version and hides every version of it; no other
  secret is touched, so the key of a version inserted before the latest one stays in the vault.
\<close>

lemma deleted_model_gone:
  assumes "models_delete C mid s = (Ok (), s')"
  shows "models_latest C mid s' = (Ok None, s') \<and>
    (\<exists>m. fst (in_catalog (catalog_latest C mid) s) = Ok m \<and>
      get_secret (va_store (ms_vault s')) (em_api_key m) = None \<and>
      (\<forall>r. r \<noteq> em_api_key m \<longrightarrow> get_secret (va_store (ms_vault s')) r = get_secret (va_store (ms_vault s)) r))"
proof -
  obtain r where r: "catalog_latest_ref C mid (ms_catalog s) = (Ok r, ms_catalog s)"
    and rr: "ref_kind r = cat_kind C" "ref_id r = mid"
    using assms
    by (auto simp: models_delete_def in_catalog_def catalog_latest_ref_def last_catalog_ref_eq bind_def gets_def
        throw_def ret_def split: option.splits)
  then obtain m where m: "catalog_deref C r (ms_catalog s) = (Ok m, ms_catalog s)"
    using assms
    by (auto simp: models_delete_def in_catalog_def catalog_deref_def bind_def gets_def throw_def of_sum_def ret_def
        split: option.splits sum.splits)
  have s': "s' = s\<lparr>ms_vault := snd (vault_remove (em_api_key m) (ms_vault s)),
      ms_catalog := delete_catalog_item (cat_kind C) mid (ms_catalog s)\<rparr>"
    using assms r m rr
    by (simp add: models_delete_def in_catalog_def in_vault_def bind_def seq_def vault_remove_def catalog_delete_def
        modify_def)
  have "last_active (map (item_deleted_update (\<lambda>_. True)) vs) = None" for vs
    by (simp add: last_active_None item_active_def list.pred_map list.pred_True comp_def)
  then have "catalog_latest_ref C mid (ms_catalog s') = (Err (NotFound (cat_kind C) mid), ms_catalog s')"
    by (simp add: s' catalog_latest_ref_def last_catalog_ref_eq delete_catalog_item_def versions_of_mark bind_def
        gets_def throw_def)
  then show ?thesis
    using r m
    by (auto simp: models_latest_def in_catalog_def not_found_as_none_def catalog_latest_def bind_def s'
        vault_remove_def secrets.get_del)
qed

text \<open>
  The stream of a model is the text it wrote, in order, then exactly one event that ends it; it
  is a completion exactly when the service completed and reported no failure before or after.
\<close>

theorem stream_ends_once:
  assumes "model_execute client from_str m tools input = Ok evs"
    and "client \<lparr>oc_api_base = mo_base_url m, oc_api_key = mo_api_key m, oc_org_id = mo_client_id m\<rparr>
           (model_request m tools input) = Inr es"
  shows "\<exists>e. evs = map TextDelta (text_deltas es) @ [e] \<and> ends_stream e \<and>
    ((\<exists>t calls. e = ModelCompleted t calls) \<longleftrightarrow>
       (\<forall>x \<in> set es. \<not> is_failure x) \<and> (\<exists>x \<in> set es. is_completion x))"
  using assms model_stream_split [of from_str None None es] by (auto simp: model_execute_def)

section \<open>Examples\<close>

text \<open>A codec that knows one declaration only, and a service that answers with one word.\<close>

definition example_declaration :: encrypted_model where
  "example_declaration = \<lparr>em_id = ''gpt'', em_base_url = ''http://x'', em_client_id = ''me'',
     em_api_key = SecretRef (ID 1 2), em_model = ''m'', em_system_prompt = None\<rparr>"

definition example_models :: models where
  "example_models = \<lparr>ms_vault = \<lparr>va_secrets = example_manager, va_store = []\<rparr>, ms_catalog = []\<rparr>"

definition example_client :: openai_client where
  "example_client cfg req = Inr [OutputTextDelta (oc_api_key cfg),
     ResponseCompleted \<lparr>rs_output_text = Some (cr_input req), rs_output = []\<rparr>]"

theorem inserted_model_executes_witness:
  "fst (models_execute example_crypto example_client (\<lambda>_. None)
      (model_catalogable (\<lambda>_. Inr []) (\<lambda>_. Inr example_declaration)) ''gpt'' [] []
      (snd (models_insert example_crypto (model_catalogable (\<lambda>_. Inr []) (\<lambda>_. Inr example_declaration)) (ID 1 2)
        example_nonce (OpenAICompatible ''gpt'' ''http://x'' ''me'' ''k'' ''m'' None) example_models))) =
    Ok [TextDelta ''k'', ModelCompleted (Some []) []]"
proof -
  let ?C = "model_catalogable (\<lambda>_. Inr []) (\<lambda>_. Inr example_declaration)"
  let ?ins = "models_insert example_crypto ?C (ID 1 2) example_nonce
    (OpenAICompatible ''gpt'' ''http://x'' ''me'' ''k'' ''m'' None) example_models"
  have ins: "?ins = (Ok \<lparr>ref_kind = ''/marie/catalog/models'', ref_id = ''gpt'', ref_version = 0\<rparr>, snd ?ins)"
    by (simp add: in_vault_def in_catalog_def bind_def vault_store_def vault_seal_def derive_key_def key_encrypt_def
        example_crypto_def example_manager_def example_models_def catalog_publish_def insert_catalog_item_def
        model_catalogable_def versions_of_def)
  have key: "from_utf8 (bytes_of ''k'') = Inr ''k''"
    by code_simp
  show ?thesis
    using inserted_model_executes [OF example_law _ _ key _ _ ins, of "[]" example_client "\<lambda>_. None" "[]" "[]"]
    by (simp add: example_nonce_def example_models_def example_manager_def example_declaration_def model_execute_def
        example_client_def model_request_def context_to_string_def response_tool_calls_def List.map_filter_def)
qed

theorem stream_ends_once_witness:
  "\<exists>e. model_stream (\<lambda>_. None) None None [ResponseCompleted \<lparr>rs_output_text = None, rs_output = []\<rparr>, OutputTextDelta ''a'',
      StreamError ''cut''] = [TextDelta ''a'', e] \<and> (\<forall>t calls. e \<noteq> ModelCompleted t calls)"
proof -
  let ?es = "[ResponseCompleted \<lparr>rs_output_text = None, rs_output = []\<rparr>, OutputTextDelta ''a'', StreamError ''cut'']"
  let ?m = "\<lparr>mo_id = [], mo_base_url = [], mo_client_id = [], mo_api_key = [], mo_model = [], mo_system_prompt = None\<rparr>"
  have "model_execute (\<lambda>_ _. Inr ?es) (\<lambda>_. None) ?m [] [] = Ok (model_stream (\<lambda>_. None) None None ?es)"
    by (simp add: model_execute_def)
  from stream_ends_once [OF this refl] show ?thesis
    by auto
qed

end
