(* ===== verification/Repl.thy ===== *)
theory Repl
  imports Repl_Text Model_Catalog
begin

text \<open>
  The interactive command line (\<^verbatim>\<open>marie-cli/src/repl/mod.rs\<close>, \<^verbatim>\<open>repl/state.rs\<close>,
  \<^verbatim>\<open>repl/completer.rs\<close> and \<^verbatim>\<open>states\<close>): a stack of states, the commands of each state and the loop
  that reads lines. The services of a connected node are operations on a state of their own; an
  error of theirs is its debug text. What a listing renders is part of the service.
\<close>

section \<open>States and commands\<close>

record command_spec =
  cs_name :: ustring
  cs_usage :: ustring

datatype session_kind = Live session_id | Consult expert_id ustring

datatype repl_state =
    Root
  | LocalConnected
  | ExecutingSession session_kind
  | EditingGraph graph_spec
  | EditingNode graph_node_id node_spec

text \<open>The label of the prompt; \<open>dbg\<close> is the debug text of a string.\<close>

fun label :: "(string \<Rightarrow> string) \<Rightarrow> repl_state \<Rightarrow> string" where
  "label dbg Root = ''root''"
| "label dbg LocalConnected = ''local''"
| "label dbg (ExecutingSession (Live i)) = ''session:'' @ session_id_display i"
| "label dbg (ExecutingSession (Consult e _)) = ''consult:'' @ e"
| "label dbg (EditingGraph g) = ''graph:'' @ g_id g"
| "label dbg (EditingNode n _) = ''node:NodeId('' @ dbg n @ '')''"

abbreviation EM_DASH :: code_point where "EM_DASH \<equiv> 8212"

definition command :: "string \<Rightarrow> ustring \<Rightarrow> command_spec" where
  "command name usage = \<lparr>cs_name = str name, cs_usage = usage\<rparr>"

definition ROOT_COMMANDS :: "command_spec list" where
  "ROOT_COMMANDS =
     [command ''connect local'' (str ''connect local <in-memory|postgres>''),
      command ''connect remote''
        (str ''connect remote <addr>  (pas encore impl'' @ [E_ACUTE] @ str ''ment'' @ [E_ACUTE] @ str '')''),
      command ''help'' (str ''help''),
      command ''exit'' (str ''exit '' @ [EM_DASH] @ str '' quitte le REPL'')]"

definition LOCAL_CONNECTED_COMMANDS :: "command_spec list" where
  "LOCAL_CONNECTED_COMMANDS =
     [command ''list sessions'' (str ''list sessions''),
      command ''create session shell'' (str ''create session shell <expert-id>''),
      command ''create session execute graph'' (str ''create session execute graph <graph-id> [channel=value ...]''),
      command ''create session consult expert''
        (str ''create session consult expert <expert-id> '' @ [QUOTE] @ str ''<task>'' @ [QUOTE]),
      command ''delete session'' (str ''delete session <id>''),
      command ''list models'' (str ''list models''),
      command ''create model''
        (str ''create model <id> openai-compat base-url=<url> client-id=<id> api-key=<key> model=<model> [system-prompt=''
           @ [QUOTE] @ str ''...'' @ [QUOTE] @ str '']''),
      command ''delete model'' (str ''delete model <id>''),
      command ''list experts'' (str ''list experts''),
      command ''create expert''
        (str ''create expert <id> model=<model-id> allowed-tools=<a,b,c> prompt='' @ [QUOTE] @ str ''...'' @ [QUOTE]),
      command ''delete expert'' (str ''delete expert <id>''),
      command ''set expert'' (str ''set expert <id> [prompt='' @ [QUOTE] @ str ''...'' @ [QUOTE] @ str '']''),
      command ''list tools'' (str ''list tools''),
      command ''list graphs'' (str ''list graphs''),
      command ''create graph'' (str ''create graph <id>''),
      command ''disconnect'' (str ''disconnect'')]"

definition EXECUTING_SESSION_COMMANDS :: "command_spec list" where
  "EXECUTING_SESSION_COMMANDS =
     [command ''(aucune)''
        (str ''affiche les logs en direct et r'' @ [E_ACUTE] @ str ''pond aux requ'' @ [234] @ str ''tes hitl '' @
         [EM_DASH] @ str '' Ctrl-D pour se d'' @ [E_ACUTE] @ str ''tacher'')]"

definition EDITING_GRAPH_COMMANDS :: "command_spec list" where
  "EDITING_GRAPH_COMMANDS =
     [command ''set entry'' (str ''set entry <node-id>''),
      command ''list nodes'' (str ''list nodes''),
      command ''create node'' (str ''create node <node-id> <kind>''),
      command ''connect'' (str ''connect <node-id-a> <node-id-b>''),
      command ''disconnect'' (str ''disconnect <node-id-a> <node-id-b>''),
      command ''save'' (str ''save '' @ [EM_DASH] @ str '' sauvegarde le graphe et quitte l'' @ [39, E_ACUTE] @ str ''dition'')]"

definition EDITING_NODE_COMMANDS :: "command_spec list" where
  "EDITING_NODE_COMMANDS =
     [command ''add channel''
        (str ''add channel <name> [exported=bool] [inherited=bool] [imported=bool] [reducer=append|lww|max] [default=<value>]''),
      command ''set channel''
        (str ''set channel <name> [exported=bool] [inherited=bool] [imported=bool] [reducer=append|lww|max]''),
      command ''save'' (str ''save '' @ [EM_DASH] @ str '' enregistre le noeud dans le graphe en cours d'' @ [39, E_ACUTE] @ str ''dition'')]"

fun commands :: "repl_state \<Rightarrow> command_spec list" where
  "commands Root = ROOT_COMMANDS"
| "commands LocalConnected = LOCAL_CONNECTED_COMMANDS"
| "commands (ExecutingSession _) = EXECUTING_SESSION_COMMANDS"
| "commands (EditingGraph _) = EDITING_GRAPH_COMMANDS"
| "commands (EditingNode _ _) = EDITING_NODE_COMMANDS"

text \<open>\<^verbatim>\<open>ReplHelper::complete\<close>: the commands that extend the text before the cursor, each with its rest.\<close>

definition complete :: "command_spec list \<Rightarrow> ustring \<Rightarrow> (ustring \<times> ustring) list" where
  "complete table inp =
     map (\<lambda>c. (cs_name c, drop (length inp) (cs_name c)))
       (filter (\<lambda>c. length inp < length (cs_name c) \<and> take (length inp) (cs_name c) = inp) table)"

section \<open>The services of a node\<close>

datatype database_mode = InMemory | Postgres string

datatype listing = Sessions | Models | Experts | Tools | Graphs

type_synonym ('m, 'a) service = "'m \<Rightarrow> (string + 'a) \<times> 'm"

record 'm services =
  sv_database_url :: "string option"
  sv_connect :: "database_mode \<Rightarrow> ('m, unit) service"
  sv_list :: "listing \<Rightarrow> ('m, ustring) service"
  sv_create_session :: "new_session_args \<Rightarrow> ('m, session_id) service"
  sv_delete_session :: "session_id \<Rightarrow> ('m, unit) service"
  sv_insert_model :: "create_model \<Rightarrow> ('m, unit) service"
  sv_delete_model :: "string \<Rightarrow> ('m, unit) service"
  sv_create_expert :: "expert \<Rightarrow> ('m, unit) service"
  sv_delete_expert :: "expert_id \<Rightarrow> ('m, unit) service"
  sv_get_expert :: "expert_id \<Rightarrow> ('m, expert option) service"
  sv_replace_expert :: "expert \<Rightarrow> ('m, unit) service"
  sv_graph_latest :: "graph_id \<Rightarrow> ('m, catalog_item_ref option) service"
  sv_graph_insert :: "graph_spec \<Rightarrow> ('m, catalog_item_ref) service"
  sv_graph_replace :: "graph_spec \<Rightarrow> ('m, catalog_item_ref) service"
  sv_run_session :: "session_kind \<Rightarrow> 'm \<Rightarrow> 'm"

datatype printed = PrintLine ustring | PrintNodes graph_spec | PrintError cli_error

text \<open>The head of the stack is its top.\<close>

record 'm repl =
  rp_stack :: "repl_state list"
  rp_table :: "command_spec list"
  rp_verbose :: bool
  rp_out :: "printed list"
  rp_marie :: 'm

type_synonym ('m, 'a) repl_prog = "('m repl, cli_error, 'a) prog"

definition repl_new :: "bool \<Rightarrow> 'm \<Rightarrow> 'm repl" where
  "repl_new verbose m =
     \<lparr>rp_stack = [Root], rp_table = ROOT_COMMANDS, rp_verbose = verbose, rp_out = [], rp_marie = m\<rparr>"

definition print_line :: "printed \<Rightarrow> ('m, unit) repl_prog" where
  "print_line p = modify (\<lambda>r. r\<lparr>rp_out := rp_out r @ [p]\<rparr>)"

definition call_service :: "('m, 'a) service \<Rightarrow> ('m, 'a) repl_prog" where
  "call_service f r = (case f (rp_marie r) of
      (Inl e, m) \<Rightarrow> (Err (Marie e), r\<lparr>rp_marie := m\<rparr>)
    | (Inr a, m) \<Rightarrow> (Ok a, r\<lparr>rp_marie := m\<rparr>))"

section \<open>The stack\<close>

definition sync_completer_table :: "('m, unit) repl_prog" where
  "sync_completer_table r = (case rp_stack r of
      [] \<Rightarrow> (Panic ''la pile n'est jamais vide'', r)
    | s # _ \<Rightarrow> (Ok (), r\<lparr>rp_table := commands s\<rparr>))"

definition repl_push :: "repl_state \<Rightarrow> ('m, unit) repl_prog" where
  "repl_push s = seq (modify (\<lambda>r. r\<lparr>rp_stack := s # rp_stack r\<rparr>)) sync_completer_table"

definition repl_pop :: "('m, repl_state option) repl_prog" where
  "repl_pop r =
     (if length (rp_stack r) \<le> 1 then (Ok None, r)
      else seq (modify (\<lambda>r. r\<lparr>rp_stack := tl (rp_stack r)\<rparr>))
             (seq sync_completer_table (ret (Some (hd (rp_stack r))))) r)"

definition repl_top :: "('m, repl_state) repl_prog" where
  "repl_top r = (case rp_stack r of [] \<Rightarrow> (Panic ''la pile n'est jamais vide'', r) | s # _ \<Rightarrow> (Ok s, r))"

fun join :: "'a list \<Rightarrow> 'a list list \<Rightarrow> 'a list" where
  "join sep [] = []"
| "join sep [x] = x"
| "join sep (x # xs) = x @ sep @ join sep xs"

definition format_prompt :: "(string \<Rightarrow> string) \<Rightarrow> 'm repl \<Rightarrow> string" where
  "format_prompt dbg r =
     (let parts = map (label dbg) (filter (\<lambda>s. s \<noteq> Root) (rev (rp_stack r))) in
      if parts = [] then ''marie> '' else ''marie('' @ join ''/'' parts @ '')> '')"

text \<open>A slice of the tokens, and a token that is there and is a given word.\<close>

definition slice :: "nat \<Rightarrow> ustring list \<Rightarrow> ('m, ustring list) repl_prog" where
  "slice k tokens = (if k \<le> length tokens then ret (drop k tokens) else panic ''range start index out of range'')"

definition tok :: "ustring list \<Rightarrow> nat \<Rightarrow> string \<Rightarrow> bool" where
  "tok tokens i w \<longleftrightarrow> i < length tokens \<and> tokens ! i = str w"

definition args_from :: "nat \<Rightarrow> nat \<Rightarrow> ustring list \<Rightarrow> ('m, command_args) repl_prog" where
  "args_from k n tokens = bind (slice k tokens) (\<lambda>ts. of_sum (parse_command_args ts n))"

definition unknown_command :: "(string \<Rightarrow> string) \<Rightarrow> ustring list \<Rightarrow> ('m, unit) repl_prog" where
  "unknown_command dbg tokens = bind repl_top (\<lambda>s. throw (UnknownCommand (label dbg s) (join [32] tokens)))"

section \<open>Editing a graph\<close>

definition edit_graph :: "(graph_spec \<Rightarrow> graph_spec) \<Rightarrow> ('m, unit) repl_prog" where
  "edit_graph f r = (case rp_stack r of
      EditingGraph g # st \<Rightarrow> (Ok (), r\<lparr>rp_stack := EditingGraph (f g) # st\<rparr>)
    | _ \<Rightarrow> (Panic ''internal error: entered unreachable code'', r))"

definition set_entry :: "ustring list \<Rightarrow> ('m, unit) repl_prog" where
  "set_entry tokens = bind (args_from 2 1 tokens) (\<lambda>a. bind (of_sum (positional a 0))
     (\<lambda>n. edit_graph (\<lambda>g. g\<lparr>g_entry := utf8 n\<rparr>)))"

definition list_nodes :: "('m, unit) repl_prog" where
  "list_nodes = bind repl_top (\<lambda>s. case s of
      EditingGraph g \<Rightarrow> print_line (PrintNodes g)
    | _ \<Rightarrow> panic ''internal error: entered unreachable code'')"

definition create_graph_node :: "ustring list \<Rightarrow> ('m, unit) repl_prog" where
  "create_graph_node tokens = bind (args_from 2 2 tokens) (\<lambda>a. bind (of_sum (positional a 0))
     (\<lambda>n. bind (of_sum (positional a 1))
       (\<lambda>k. repl_push (EditingNode (utf8 n) \<lparr>ns_kind = utf8 k, ns_common = common_spec_default\<rparr>))))"

definition connect :: "ustring list \<Rightarrow> ('m, unit) repl_prog" where
  "connect tokens = bind (args_from 1 2 tokens) (\<lambda>args. bind (of_sum (positional args 0))
     (\<lambda>a. bind (of_sum (positional args 1)) (\<lambda>b. edit_graph (add_edge (utf8 a) (utf8 b)))))"

definition disconnect :: "ustring list \<Rightarrow> ('m, unit) repl_prog" where
  "disconnect tokens = bind (args_from 1 2 tokens) (\<lambda>args. bind (of_sum (positional args 0))
     (\<lambda>a. edit_graph (\<lambda>g. g\<lparr>g_edges := hm_remove (utf8 a) (g_edges g)\<rparr>)))"

definition save_graph :: "'m services \<Rightarrow> ('m, unit) repl_prog" where
  "save_graph sv = bind repl_pop (\<lambda>p. case p of
      Some (EditingGraph g) \<Rightarrow>
        bind (call_service (sv_graph_latest sv (g_id g))) (\<lambda>latest.
          seq (if latest \<noteq> None then call_service (sv_graph_replace sv g) else call_service (sv_graph_insert sv g))
            (print_line (PrintLine (str ''graphe sauvegard'' @ [E_ACUTE]))))
    | _ \<Rightarrow> panic ''internal error: entered unreachable code'')"

definition dispatch_graph :: "'m services \<Rightarrow> (string \<Rightarrow> string) \<Rightarrow> ustring list \<Rightarrow> ('m, unit) repl_prog" where
  "dispatch_graph sv dbg tokens =
     (if tok tokens 0 ''set'' \<and> tok tokens 1 ''entry'' then set_entry tokens
      else if tok tokens 0 ''list'' \<and> tok tokens 1 ''nodes'' then list_nodes
      else if tok tokens 0 ''create'' \<and> tok tokens 1 ''node'' then create_graph_node tokens
      else if tok tokens 0 ''connect'' then connect tokens
      else if tok tokens 0 ''disconnect'' then disconnect tokens
      else if tok tokens 0 ''save'' then save_graph sv
      else unknown_command dbg tokens)"

section \<open>Editing a node\<close>

definition edit_common :: "(common_spec \<Rightarrow> cli_error + common_spec) \<Rightarrow> ('m, unit) repl_prog" where
  "edit_common f r = (case rp_stack r of
      EditingNode n s # st \<Rightarrow>
        (case f (ns_common s) of
           Inl e \<Rightarrow> (Err e, r)
         | Inr c \<Rightarrow> (Ok (), r\<lparr>rp_stack := EditingNode n (s\<lparr>ns_common := c\<rparr>) # st\<rparr>))
    | _ \<Rightarrow> (Panic ''internal error: entered unreachable code'', r))"

definition declare_channel ::
  "channel_name \<Rightarrow> reducer \<Rightarrow> bool \<Rightarrow> bool \<Rightarrow> bool \<Rightarrow> value option \<Rightarrow> common_spec \<Rightarrow> common_spec" where
  "declare_channel name red exported inherited imported dflt c =
     (let c = c\<lparr>spec_channels := spec_channels c @ [channel_spec_new name red]\<rparr>;
          c = (if exported then c\<lparr>exported_channels := exported_channels c @ [name]\<rparr> else c);
          c = (if inherited then c\<lparr>inherited_channels := inherited_channels c @ [name]\<rparr> else c);
          c = (if imported then c\<lparr>imported_channels := imported_channels c @ [name]\<rparr> else c)
      in case dflt of Some v \<Rightarrow> c\<lparr>default_values := hm_insert name v (default_values c)\<rparr> | None \<Rightarrow> c)"

definition add_channel :: "ustring list \<Rightarrow> ('m, unit) repl_prog" where
  "add_channel tokens = bind (args_from 2 1 tokens) (\<lambda>a. bind (of_sum (positional a 0)) (\<lambda>name.
     bind (of_sum (flag_reducer a (str ''reducer''))) (\<lambda>red.
     bind (of_sum (flag_bool a (str ''exported'') False)) (\<lambda>exported.
     bind (of_sum (flag_bool a (str ''inherited'') False)) (\<lambda>inherited.
     bind (of_sum (flag_bool a (str ''imported'') False)) (\<lambda>imported.
     bind (of_sum (flag_value a (str ''default''))) (\<lambda>dflt.
       edit_common (\<lambda>c. Inr (declare_channel (utf8 name) (case red of Some k \<Rightarrow> k | None \<Rightarrow> LastWriteWins)
         exported inherited imported dflt c)))))))))"

definition set_membership :: "channel_name \<Rightarrow> bool \<Rightarrow> channel_name list \<Rightarrow> channel_name list" where
  "set_membership name present xs =
     (if present \<and> name \<notin> set xs then xs @ [name]
      else if \<not> present \<and> name \<in> set xs then filter (\<lambda>n. n \<noteq> name) xs else xs)"

definition set_flag :: "channel_name \<Rightarrow> bool option \<Rightarrow> channel_name list \<Rightarrow> channel_name list" where
  "set_flag name flag xs = (case flag of Some b \<Rightarrow> set_membership name b xs | None \<Rightarrow> xs)"

fun position :: "('a \<Rightarrow> bool) \<Rightarrow> 'a list \<Rightarrow> nat option" where
  "position P [] = None"
| "position P (x # xs) = (if P x then Some 0 else map_option Suc (position P xs))"

definition redeclare_channel ::
  "ustring \<Rightarrow> reducer option \<Rightarrow> bool option \<Rightarrow> bool option \<Rightarrow> bool option \<Rightarrow> common_spec \<Rightarrow> cli_error + common_spec" where
  "redeclare_channel uname red exported inherited imported c =
     (let name = utf8 uname in
      case position (\<lambda>s. spec_name s = name) (spec_channels c) of
        None \<Rightarrow> Inl (Usage (str ''canal introuvable: '' @ uname))
      | Some i \<Rightarrow>
          (let r = (case red of Some k \<Rightarrow> k | None \<Rightarrow> spec_reducer (spec_channels c ! i)) in
           Inr (c\<lparr>spec_channels := (spec_channels c)[i := channel_spec_new name r],
             exported_channels := set_flag name exported (exported_channels c),
             inherited_channels := set_flag name inherited (inherited_channels c),
             imported_channels := set_flag name imported (imported_channels c)\<rparr>)))"

definition set_channel :: "ustring list \<Rightarrow> ('m, unit) repl_prog" where
  "set_channel tokens = bind (args_from 2 1 tokens) (\<lambda>a. bind (of_sum (positional a 0)) (\<lambda>name.
     bind (of_sum (flag_reducer a (str ''reducer''))) (\<lambda>red.
     bind (of_sum (flag_bool_opt a (str ''exported''))) (\<lambda>exported.
     bind (of_sum (flag_bool_opt a (str ''inherited''))) (\<lambda>inherited.
     bind (of_sum (flag_bool_opt a (str ''imported''))) (\<lambda>imported.
       edit_common (redeclare_channel name red exported inherited imported)))))))"

definition save_node :: "('m, unit) repl_prog" where
  "save_node = bind repl_pop (\<lambda>p. case p of
      Some (EditingNode n s) \<Rightarrow>
        seq (edit_graph (add_node n s)) (print_line (PrintLine (str ''noeud enregistr'' @ [E_ACUTE])))
    | _ \<Rightarrow> panic ''internal error: entered unreachable code'')"

definition dispatch_node :: "(string \<Rightarrow> string) \<Rightarrow> ustring list \<Rightarrow> ('m, unit) repl_prog" where
  "dispatch_node dbg tokens =
     (if tok tokens 0 ''add'' \<and> tok tokens 1 ''channel'' then add_channel tokens
      else if tok tokens 0 ''set'' \<and> tok tokens 1 ''channel'' then set_channel tokens
      else if tok tokens 0 ''save'' then save_node
      else unknown_command dbg tokens)"

section \<open>Connecting\<close>

definition connect_local :: "'m services \<Rightarrow> ustring list \<Rightarrow> ('m, unit) repl_prog" where
  "connect_local sv tokens = bind (args_from 2 1 tokens) (\<lambda>a. bind (of_sum (positional a 0)) (\<lambda>mode.
     bind (if mode = str ''in-memory'' then ret InMemory
           else if mode = str ''postgres'' then
             (case sv_database_url sv of
                Some url \<Rightarrow> ret (Postgres url)
              | None \<Rightarrow> throw (Usage (str ''DATABASE_URL doit '' @ [234] @ str ''tre d'' @ [E_ACUTE] @ str ''fini dans l'' @
                  [39] @ str ''environnement (ou le fichier .env) pour connect local postgres'')))
           else throw (Usage (str ''mode de base de donn'' @ [E_ACUTE] @ str ''es inconnu: '' @ mode @
                  str '' (attendu in-memory|postgres)'')))
       (\<lambda>db. seq (call_service (sv_connect sv db))
         (seq (print_line (PrintLine (str ''connect'' @ [E_ACUTE] @ str '' (local)''))) (repl_push LocalConnected)))))"

definition connect_remote :: "ustring list \<Rightarrow> ('m, unit) repl_prog" where
  "connect_remote tokens = bind (args_from 2 1 tokens) (\<lambda>a. bind (of_sum (positional a 0)) (\<lambda>addr.
     print_line (PrintLine (str ''connect remote n'' @ [39] @ str ''est pas encore impl'' @ [E_ACUTE] @ str ''ment'' @ [E_ACUTE] @
       str '' (adresse demand'' @ [E_ACUTE] @ str ''e: '' @ addr @ str '')''))))"

definition dispatch_root :: "'m services \<Rightarrow> (string \<Rightarrow> string) \<Rightarrow> ustring list \<Rightarrow> ('m, unit) repl_prog" where
  "dispatch_root sv dbg tokens =
     (if tok tokens 0 ''connect'' then
        (if tok tokens 1 ''local'' then connect_local sv tokens
         else if tok tokens 1 ''remote'' then connect_remote tokens
         else throw (Usage (str ''connect local <in-memory|postgres> | connect remote <addr>'')))
      else unknown_command dbg tokens)"

section \<open>The commands of a connected node\<close>

definition list_items :: "'m services \<Rightarrow> listing \<Rightarrow> ('m, unit) repl_prog" where
  "list_items sv l = bind (call_service (sv_list sv l)) (\<lambda>t. print_line (PrintLine t))"

definition open_session :: "'m services \<Rightarrow> new_session_args \<Rightarrow> ('m, unit) repl_prog" where
  "open_session sv args = bind (call_service (sv_create_session sv args)) (\<lambda>i.
     seq (print_line (PrintLine (str ''session cr'' @ [E_ACUTE, E_ACUTE] @ str (''e: '' @ session_id_display i))))
       (repl_push (ExecutingSession (Live i))))"

definition create_session :: "'m services \<Rightarrow> ustring list \<Rightarrow> ('m, unit) repl_prog" where
  "create_session sv tokens =
     (if tok tokens 2 ''shell'' then
        bind (args_from 3 1 tokens) (\<lambda>a. bind (of_sum (positional a 0)) (\<lambda>e.
          open_session sv (ShellSession (ShellExpert (utf8 e)))))
      else if tok tokens 2 ''execute'' \<and> tok tokens 3 ''graph'' then
        bind (args_from 4 1 tokens) (\<lambda>a. bind (of_sum (positional a 0)) (\<lambda>g.
          open_session sv (GraphSession (utf8 g)
            (fold (\<lambda>(key, raw). hm_insert (utf8 key) (parse_value raw)) (ca_flags a) []))))
      else if tok tokens 2 ''consult'' \<and> tok tokens 3 ''expert'' then
        bind (args_from 4 2 tokens) (\<lambda>a. bind (of_sum (positional a 0)) (\<lambda>e.
          bind (of_sum (positional a 1)) (\<lambda>task. repl_push (ExecutingSession (Consult (utf8 e) task)))))
      else throw (Usage (str ''create session shell <expert-id> | create session execute graph <graph-id> [channel=value ...] | create session consult expert <expert-id> ''
        @ [QUOTE] @ str ''<task>'' @ [QUOTE])))"

text \<open>\<^verbatim>\<open>delete session\<close>; \<open>dbg_error\<close> is the debug text of the error of an identifier that does not parse.\<close>

definition remove_session :: "'m services \<Rightarrow> (error \<Rightarrow> string) \<Rightarrow> ustring list \<Rightarrow> ('m, unit) repl_prog" where
  "remove_session sv dbg_error tokens = bind (args_from 2 1 tokens) (\<lambda>a. bind (of_sum (positional a 0)) (\<lambda>t.
     bind (case id_from_str (utf8 t) of Ok i \<Rightarrow> ret i | Err e \<Rightarrow> throw (Marie (dbg_error e)) | Panic p \<Rightarrow> panic p) (\<lambda>i.
       seq (call_service (sv_delete_session sv (SessionId i)))
         (print_line (PrintLine (str ''session supprim'' @ [E_ACUTE] @ str ''e''))))))"

definition required_text :: "command_args \<Rightarrow> string \<Rightarrow> ('m, string) repl_prog" where
  "required_text a key = (case flag_text a (str key) of
      None \<Rightarrow> throw (Usage (str (key @ '' manquant'')))
    | Some v \<Rightarrow> ret (utf8 v))"

definition insert_model :: "'m services \<Rightarrow> ustring list \<Rightarrow> ('m, unit) repl_prog" where
  "insert_model sv tokens = bind (args_from 2 2 tokens) (\<lambda>a. bind (of_sum (positional a 0)) (\<lambda>i.
     bind (of_sum (positional a 1)) (\<lambda>kind.
     if kind \<noteq> str ''openai-compat'' then
       throw (Usage (str ''seul le type de mod'' @ [232] @ str ''le '' @ [39] @ str ''openai-compat'' @ [39] @
         str '' est support'' @ [E_ACUTE]))
     else
       bind (required_text a ''base-url'') (\<lambda>base_url.
       bind (required_text a ''client-id'') (\<lambda>client_id.
       bind (required_text a ''api-key'') (\<lambda>api_key.
       bind (required_text a ''model'') (\<lambda>model.
         seq (call_service (sv_insert_model sv (OpenAICompatible (utf8 i) base_url client_id api_key model
           (map_option utf8 (flag_text a (str ''system-prompt''))))))
         (print_line (PrintLine (str ''mod'' @ [232] @ str ''le cr'' @ [E_ACUTE, E_ACUTE])))))))))) "

definition delete_model :: "'m services \<Rightarrow> ustring list \<Rightarrow> ('m, unit) repl_prog" where
  "delete_model sv tokens = bind (args_from 2 1 tokens) (\<lambda>a. bind (of_sum (positional a 0)) (\<lambda>i.
     seq (call_service (sv_delete_model sv (utf8 i)))
       (print_line (PrintLine (str ''mod'' @ [232] @ str ''le supprim'' @ [E_ACUTE])))))"

definition create_expert :: "'m services \<Rightarrow> ustring list \<Rightarrow> ('m, unit) repl_prog" where
  "create_expert sv tokens = bind (args_from 2 1 tokens) (\<lambda>a. bind (of_sum (positional a 0)) (\<lambda>i.
     bind (required_text a ''model'') (\<lambda>model. bind (required_text a ''prompt'') (\<lambda>prompt.
       seq (call_service (sv_create_expert sv
          \<lparr>e_id = utf8 i, e_prompt = prompt, e_model_id = model,
           e_allowed_tools = map utf8 (flag_csv a (str ''allowed-tools''))\<rparr>))
         (print_line (PrintLine (str ''expert cr'' @ [E_ACUTE, E_ACUTE])))))))"

definition delete_expert :: "'m services \<Rightarrow> ustring list \<Rightarrow> ('m, unit) repl_prog" where
  "delete_expert sv tokens = bind (args_from 2 1 tokens) (\<lambda>a. bind (of_sum (positional a 0)) (\<lambda>i.
     seq (call_service (sv_delete_expert sv (utf8 i)))
       (print_line (PrintLine (str ''expert supprim'' @ [E_ACUTE])))))"

definition changed_expert :: "command_args \<Rightarrow> expert \<Rightarrow> expert" where
  "changed_expert a e =
     (let e = (case flag_text a (str ''prompt'') of Some p \<Rightarrow> e\<lparr>e_prompt := utf8 p\<rparr> | None \<Rightarrow> e);
          e = (case flag_text a (str ''model'') of Some m \<Rightarrow> e\<lparr>e_model_id := utf8 m\<rparr> | None \<Rightarrow> e)
      in if flag_str a (str ''allowed-tools'') \<noteq> None
         then e\<lparr>e_allowed_tools := map utf8 (flag_csv a (str ''allowed-tools''))\<rparr> else e)"

definition set_expert :: "'m services \<Rightarrow> ustring list \<Rightarrow> ('m, unit) repl_prog" where
  "set_expert sv tokens = bind (args_from 2 1 tokens) (\<lambda>a. bind (of_sum (positional a 0)) (\<lambda>i.
     bind (call_service (sv_get_expert sv (utf8 i))) (\<lambda>found. case found of
       None \<Rightarrow> throw (Usage (str ''expert introuvable: '' @ i))
     | Some e \<Rightarrow>
         seq (call_service (sv_replace_expert sv (changed_expert a e)))
           (print_line (PrintLine (str ''expert mis '' @ [224] @ str '' jour''))))))"

definition create_graph :: "ustring list \<Rightarrow> ('m, unit) repl_prog" where
  "create_graph tokens = bind (args_from 2 1 tokens) (\<lambda>a. bind (of_sum (positional a 0)) (\<lambda>i.
     repl_push (EditingGraph (graph_spec_new (utf8 i) ''start'' common_spec_default))))"

definition dispatch_local ::
  "'m services \<Rightarrow> (string \<Rightarrow> string) \<Rightarrow> (error \<Rightarrow> string) \<Rightarrow> ustring list \<Rightarrow> ('m, unit) repl_prog" where
  "dispatch_local sv dbg dbg_error tokens =
     (if tok tokens 0 ''list'' \<and> tok tokens 1 ''sessions'' then list_items sv Sessions
      else if tok tokens 0 ''create'' \<and> tok tokens 1 ''session'' then create_session sv tokens
      else if tok tokens 0 ''delete'' \<and> tok tokens 1 ''session'' then remove_session sv dbg_error tokens
      else if tok tokens 0 ''list'' \<and> tok tokens 1 ''models'' then list_items sv Models
      else if tok tokens 0 ''create'' \<and> tok tokens 1 ''model'' then insert_model sv tokens
      else if tok tokens 0 ''delete'' \<and> tok tokens 1 ''model'' then delete_model sv tokens
      else if tok tokens 0 ''list'' \<and> tok tokens 1 ''experts'' then list_items sv Experts
      else if tok tokens 0 ''create'' \<and> tok tokens 1 ''expert'' then create_expert sv tokens
      else if tok tokens 0 ''delete'' \<and> tok tokens 1 ''expert'' then delete_expert sv tokens
      else if tok tokens 0 ''set'' \<and> tok tokens 1 ''expert'' then set_expert sv tokens
      else if tok tokens 0 ''list'' \<and> tok tokens 1 ''tools'' then list_items sv Tools
      else if tok tokens 0 ''list'' \<and> tok tokens 1 ''graphs'' then list_items sv Graphs
      else if tok tokens 0 ''create'' \<and> tok tokens 1 ''graph'' then create_graph tokens
      else if tok tokens 0 ''disconnect'' then seq repl_pop (ret ())
      else unknown_command dbg tokens)"

section \<open>The loop\<close>

definition dispatch ::
  "'m services \<Rightarrow> (string \<Rightarrow> string) \<Rightarrow> (error \<Rightarrow> string) \<Rightarrow> ustring list \<Rightarrow> ('m, unit) repl_prog" where
  "dispatch sv dbg dbg_error tokens = bind repl_top (\<lambda>s. case s of
      Root \<Rightarrow> dispatch_root sv dbg tokens
    | LocalConnected \<Rightarrow> dispatch_local sv dbg dbg_error tokens
    | EditingGraph _ \<Rightarrow> dispatch_graph sv dbg tokens
    | EditingNode _ _ \<Rightarrow> dispatch_node dbg tokens
    | ExecutingSession _ \<Rightarrow> panic ''internal error: entered unreachable code'')"

text \<open>\<^verbatim>\<open>handle_eof\<close>: whether the loop ends.\<close>

definition handle_eof :: "('m, bool) repl_prog" where
  "handle_eof = bind repl_top (\<lambda>s. case s of
      Root \<Rightarrow> ret True
    | LocalConnected \<Rightarrow> seq repl_pop (ret False)
    | EditingGraph _ \<Rightarrow> seq (print_line (PrintLine (str ''abandon de l'' @ [39, E_ACUTE] @ str ''dition (non sauvegard'' @
        [E_ACUTE] @ str '')''))) (seq repl_pop (ret False))
    | EditingNode _ _ \<Rightarrow> seq (print_line (PrintLine (str ''abandon de l'' @ [39, E_ACUTE] @ str ''dition (non sauvegard'' @
        [E_ACUTE] @ str '')''))) (seq repl_pop (ret False))
    | ExecutingSession _ \<Rightarrow> ret False)"

definition print_error :: "cli_error \<Rightarrow> ('m, unit) repl_prog" where
  "print_error e = print_line (PrintError e)"

definition print_help :: "('m, unit) repl_prog" where
  "print_help = bind repl_top (\<lambda>s. for_each (commands s)
     (\<lambda>c. print_line (PrintLine (cs_name c @ replicate (45 - length (cs_name c)) 32 @ [32] @ cs_usage c))))"

datatype input = Typed ustring | Interrupted | EndOfInput | InputFailed ustring

text \<open>What the loop does with one input, and whether it goes on.\<close>

definition handle_line ::
  "'m services \<Rightarrow> (string \<Rightarrow> string) \<Rightarrow> (error \<Rightarrow> string) \<Rightarrow> ustring \<Rightarrow> ('m, bool) repl_prog" where
  "handle_line sv dbg dbg_error raw =
     (let line = trim_text raw in
      if line = [] then ret True
      else case tokenize line of
          Inl e \<Rightarrow> seq (print_error e) (ret True)
        | Inr tokens \<Rightarrow>
            if tok tokens 0 ''help'' then seq print_help (ret True)
            else bind repl_top (\<lambda>s.
              if tok tokens 0 ''exit'' \<and> s = Root then ret False
              else (\<lambda>r. case dispatch sv dbg dbg_error tokens r of
                  (Ok _, r') \<Rightarrow> (Ok True, r')
                | (Err e, r') \<Rightarrow> seq (print_error e) (ret True) r'
                | (Panic p, r') \<Rightarrow> (Panic p, r'))))"

fun handle_input ::
  "'m services \<Rightarrow> (string \<Rightarrow> string) \<Rightarrow> (error \<Rightarrow> string) \<Rightarrow> input \<Rightarrow> ('m, bool) repl_prog" where
  "handle_input sv dbg dbg_error (Typed raw) = handle_line sv dbg dbg_error raw"
| "handle_input sv dbg dbg_error Interrupted = seq (print_line (PrintLine (str ''^C''))) (ret True)"
| "handle_input sv dbg dbg_error EndOfInput = bind handle_eof (\<lambda>stop. ret (\<not> stop))"
| "handle_input sv dbg dbg_error (InputFailed e) =
     seq (print_line (PrintLine (str ''erreur d'' @ [39] @ str ''entr'' @ [E_ACUTE] @ str ''e: '' @ e))) (ret False)"

text \<open>
  \<^verbatim>\<open>run\<close>: a session on top of the stack is popped and executed before anything is read. The result
  is the state after the inputs, or where the loop ended before.
\<close>

function (sequential) repl_run ::
  "'m services \<Rightarrow> (string \<Rightarrow> string) \<Rightarrow> (error \<Rightarrow> string) \<Rightarrow> input list \<Rightarrow> ('m, unit) repl_prog" where
  "repl_run sv dbg dbg_error inps r = (case rp_stack r of
      ExecutingSession k # st \<Rightarrow>
        (case st of
           [] \<Rightarrow> (Panic ''la pile n'est jamais vide'', r\<lparr>rp_stack := st\<rparr>)
         | s # _ \<Rightarrow> repl_run sv dbg dbg_error inps
             (r\<lparr>rp_stack := st, rp_table := commands s, rp_marie := sv_run_session sv k (rp_marie r)\<rparr>))
    | _ \<Rightarrow> (case inps of
          [] \<Rightarrow> (Ok (), r)
        | i # is \<Rightarrow> (case handle_input sv dbg dbg_error i r of
              (Ok True, r') \<Rightarrow> repl_run sv dbg dbg_error is r'
            | (Ok False, r') \<Rightarrow> (Ok (), r')
            | (Err e, r') \<Rightarrow> (Err e, r')
            | (Panic p, r') \<Rightarrow> (Panic p, r'))))"
  by pat_completeness auto
termination
  by (relation "measures [\<lambda>(_, _, _, inps, _). length inps, \<lambda>(_, _, _, _, r). length (rp_stack r)]") auto

declare repl_run.simps [simp del]

section \<open>The shape of the stack\<close>

fun stands_on :: "repl_state \<Rightarrow> repl_state \<Rightarrow> bool" where
  "stands_on Root t \<longleftrightarrow> False"
| "stands_on LocalConnected t \<longleftrightarrow> t = Root"
| "stands_on (ExecutingSession _) t \<longleftrightarrow> t = LocalConnected"
| "stands_on (EditingGraph _) t \<longleftrightarrow> t = LocalConnected"
| "stands_on (EditingNode _ _) t \<longleftrightarrow> (case t of EditingGraph _ \<Rightarrow> True | _ \<Rightarrow> False)"

fun stack_ok :: "repl_state list \<Rightarrow> bool" where
  "stack_ok [] \<longleftrightarrow> False"
| "stack_ok [s] \<longleftrightarrow> s = Root"
| "stack_ok (s # t # st) \<longleftrightarrow> stands_on s t \<and> stack_ok (t # st)"

definition repl_ok :: "'m repl \<Rightarrow> bool" where
  "repl_ok r \<longleftrightarrow> stack_ok (rp_stack r) \<and> rp_table r = commands (hd (rp_stack r))"

definition at_top :: "repl_state \<Rightarrow> 'm repl \<Rightarrow> bool" where
  "at_top s r \<longleftrightarrow> repl_ok r \<and> hd (rp_stack r) = s"

text \<open>
  A program that leads from one predicate to another, whatever it returns, and panics on the
  slicing of an identifier only.
\<close>

abbreviation SLICE_PANIC :: string where "SLICE_PANIC \<equiv> ''byte index 16 is not a char boundary''"

definition safe :: "('s \<Rightarrow> bool) \<Rightarrow> ('s \<Rightarrow> bool) \<Rightarrow> ('s, 'e, 'a) prog \<Rightarrow> bool" where
  "safe P Q m \<longleftrightarrow> (\<forall>s. P s \<longrightarrow> Q (snd (m s)) \<and> (\<forall>p. fst (m s) = Panic p \<longrightarrow> p = SLICE_PANIC))"

named_theorems safe_intro

lemma safe_bind [safe_intro]:
  "\<lbrakk>safe P P m; \<And>a. safe P Q (k a); \<And>s. P s \<Longrightarrow> Q s\<rbrakk> \<Longrightarrow> safe P Q (bind m k)"
  by (fastforce simp: safe_def bind_def split: prod.splits outcome.splits)

lemma safe_seq [safe_intro]:
  "\<lbrakk>safe P P m; safe P Q k; \<And>s. P s \<Longrightarrow> Q s\<rbrakk> \<Longrightarrow> safe P Q (seq m k)"
  unfolding seq_def by (rule safe_bind)

lemma safe_pure [safe_intro]:
  "(\<And>s. P s \<Longrightarrow> Q s) \<Longrightarrow> safe P Q (ret a)"
  "(\<And>s. P s \<Longrightarrow> Q s) \<Longrightarrow> safe P Q (throw e)"
  "(\<And>s. P s \<Longrightarrow> Q s) \<Longrightarrow> safe P Q (of_sum x)"
  by (auto simp: safe_def of_sum_def split: sum.splits)

lemma safe_if [safe_intro]: "\<lbrakk>b \<Longrightarrow> safe P Q m; \<not> b \<Longrightarrow> safe P Q k\<rbrakk> \<Longrightarrow> safe P Q (if b then m else k)"
  by simp

lemma safe_option [safe_intro]:
  "\<lbrakk>safe P Q m; \<And>x. safe P Q (k x)\<rbrakk> \<Longrightarrow> safe P Q (case v of None \<Rightarrow> m | Some x \<Rightarrow> k x)"
  by (cases v) simp_all

lemma safe_for_each [safe_intro]: "\<lbrakk>\<And>x. safe P P (f x)\<rbrakk> \<Longrightarrow> safe P P (for_each xs f)"
  by (induction xs) (auto intro!: safe_intro)

lemma ok_update [simp]:
  "repl_ok (r\<lparr>rp_out := x\<rparr>) = repl_ok r" "repl_ok (r\<lparr>rp_marie := m\<rparr>) = repl_ok r"
  "at_top s (r\<lparr>rp_out := x\<rparr>) = at_top s r" "at_top s (r\<lparr>rp_marie := m\<rparr>) = at_top s r"
  by (simp_all add: repl_ok_def at_top_def)

lemma at_top_ok [simp]: "at_top s r \<Longrightarrow> repl_ok r"
  by (simp add: at_top_def)

lemma safe_call [safe_intro]: "safe (at_top s) (at_top s) (call_service f)" "safe repl_ok repl_ok (call_service f)"
  by (auto simp: safe_def call_service_def split: prod.splits sum.splits)

lemma safe_print [safe_intro]:
  "safe (at_top s) (at_top s) (print_line x)" "safe (at_top s) repl_ok (print_line x)" "safe repl_ok repl_ok (print_line x)"
  by (auto simp: safe_def print_line_def)

lemma safe_top:
  assumes "safe (at_top s) Q (k s)"
  shows "safe (at_top s) Q (bind repl_top k)"
proof -
  have "bind repl_top k r = k s r" if "at_top s r" for r
    using that by (cases "rp_stack r") (auto simp: bind_def repl_top_def at_top_def repl_ok_def)
  with assms show ?thesis by (auto simp: safe_def)
qed

lemma safe_args [safe_intro]: "k \<le> length tokens \<Longrightarrow> safe (at_top s) (at_top s) (args_from k n tokens)"
  by (auto simp: args_from_def slice_def intro!: safe_intro)

lemma tok_length: "tok tokens i w \<Longrightarrow> Suc i \<le> length tokens"
  by (simp add: tok_def)

text \<open>What is below the top of a stack, by the state on top.\<close>

lemma below_root: "stack_ok (Root # st) \<longleftrightarrow> st = []"
  by (cases st) auto

lemma below_local: "stack_ok (LocalConnected # st) \<longleftrightarrow> st = [Root]"
  by (cases st) (auto simp: below_root)

lemma below_session: "stack_ok (ExecutingSession k # st) \<longleftrightarrow> st = [LocalConnected, Root]"
  by (cases st) (auto simp: below_local)

lemma below_graph: "stack_ok (EditingGraph g # st) \<longleftrightarrow> st = [LocalConnected, Root]"
  by (cases st) (auto simp: below_local)

lemma below_node: "stack_ok (EditingNode n s # st) \<longleftrightarrow> (\<exists>g. st = [EditingGraph g, LocalConnected, Root])"
  by (cases st) (auto simp: below_graph split: repl_state.splits)

lemmas below = below_root below_local below_session below_graph below_node

lemma at_top_iff:
  "at_top s r \<longleftrightarrow> (\<exists>st. rp_stack r = s # st \<and> stack_ok (s # st)) \<and> rp_table r = commands s"
  by (cases "rp_stack r") (auto simp: at_top_def repl_ok_def)

lemma safe_push [safe_intro]:
  "safe (at_top Root) repl_ok (repl_push LocalConnected)"
  "safe (at_top LocalConnected) repl_ok (repl_push (ExecutingSession k))"
  "safe (at_top LocalConnected) repl_ok (repl_push (EditingGraph g))"
  "safe (at_top (EditingGraph g')) repl_ok (repl_push (EditingNode n sp))"
  by (auto simp: safe_def repl_push_def seq_def bind_def sync_completer_table_def at_top_iff repl_ok_def below)

lemma safe_pop [safe_intro]:
  fixes k :: "repl_state option \<Rightarrow> ('m, 'a) repl_prog"
  assumes "s \<noteq> Root" and "safe repl_ok repl_ok (k (Some s))"
  shows "safe (at_top s) repl_ok (bind repl_pop k)"
  unfolding safe_def
proof (intro allI impI)
  fix r :: "'m repl"
  assume "at_top s r"
  then obtain st where st: "rp_stack r = s # st" "stack_ok (s # st)" by (auto simp: at_top_iff)
  then obtain t ts where "st = t # ts" "stack_ok (t # ts)" using assms(1) by (cases st) auto
  then have "\<exists>r'. repl_pop r = (Ok (Some s), r') \<and> repl_ok r'"
    using st by (simp add: repl_pop_def seq_def bind_def sync_completer_table_def repl_ok_def)
  then show "repl_ok (snd (bind repl_pop k r)) \<and> (\<forall>p. fst (bind repl_pop k r) = Panic p \<longrightarrow> p = SLICE_PANIC)"
    using assms(2) by (auto simp: bind_def safe_def)
qed

lemma safe_edit_graph [safe_intro]: "safe (at_top (EditingGraph g)) repl_ok (edit_graph f)"
  by (auto simp: safe_def edit_graph_def at_top_iff repl_ok_def below)

lemma safe_edit_common [safe_intro]: "safe (at_top (EditingNode n s)) repl_ok (edit_common f)"
  by (auto simp: safe_def edit_common_def at_top_iff repl_ok_def below split: sum.splits)

lemma safe_unknown [safe_intro]: "safe (at_top s) repl_ok (unknown_command dbg tokens)"
  unfolding unknown_command_def by (rule safe_top) (auto intro!: safe_intro)

lemmas graph_commands = set_entry_def create_graph_node_def connect_def disconnect_def

lemma safe_graph_commands:
  "2 \<le> length tokens \<Longrightarrow> safe (at_top (EditingGraph g)) repl_ok (set_entry tokens)"
  "2 \<le> length tokens \<Longrightarrow> safe (at_top (EditingGraph g)) repl_ok (create_graph_node tokens)"
  "1 \<le> length tokens \<Longrightarrow> safe (at_top (EditingGraph g)) repl_ok (connect tokens)"
  "1 \<le> length tokens \<Longrightarrow> safe (at_top (EditingGraph g)) repl_ok (disconnect tokens)"
  by (auto simp: graph_commands intro!: safe_intro)

lemma safe_save_graph: "safe (at_top (EditingGraph g)) repl_ok (save_graph sv)"
  unfolding save_graph_def by (rule safe_pop) (auto intro!: safe_intro)

lemma safe_list_nodes: "safe (at_top (EditingGraph g)) repl_ok list_nodes"
  unfolding list_nodes_def by (rule safe_top) (auto intro!: safe_intro)

lemma safe_dispatch_graph: "safe (at_top (EditingGraph g)) repl_ok (dispatch_graph sv dbg tokens)"
  unfolding dispatch_graph_def
  by (intro safe_if safe_graph_commands safe_list_nodes safe_save_graph safe_unknown) (auto dest: tok_length)

lemma safe_save_node: "safe (at_top (EditingNode n s)) repl_ok save_node"
  by (auto simp: safe_def save_node_def repl_pop_def seq_def bind_def sync_completer_table_def at_top_iff
      repl_ok_def below edit_graph_def print_line_def)

lemma safe_node_commands:
  "2 \<le> length tokens \<Longrightarrow> safe (at_top (EditingNode n s)) repl_ok (add_channel tokens)"
  "2 \<le> length tokens \<Longrightarrow> safe (at_top (EditingNode n s)) repl_ok (set_channel tokens)"
  by (auto simp: add_channel_def set_channel_def intro!: safe_intro)

lemma safe_dispatch_node: "safe (at_top (EditingNode n s)) repl_ok (dispatch_node dbg tokens)"
  unfolding dispatch_node_def
  by (intro safe_if safe_node_commands safe_save_node safe_unknown) (auto dest: tok_length)

lemma safe_connect:
  "2 \<le> length tokens \<Longrightarrow> safe (at_top Root) repl_ok (connect_local sv tokens)"
  "2 \<le> length tokens \<Longrightarrow> safe (at_top Root) repl_ok (connect_remote tokens)"
  by (auto simp: connect_local_def connect_remote_def intro!: safe_intro)

lemma safe_dispatch_root: "safe (at_top Root) repl_ok (dispatch_root sv dbg tokens)"
  unfolding dispatch_root_def
  by (intro safe_if safe_connect safe_unknown safe_pure) (auto dest: tok_length)

lemma safe_sessions [safe_intro]:
  "safe (at_top LocalConnected) repl_ok (open_session sv args)"
  "safe (at_top s) repl_ok (list_items sv l)"
  by (auto simp: open_session_def list_items_def intro!: safe_intro)

lemma safe_create_session:
  "2 \<le> length tokens \<Longrightarrow> safe (at_top LocalConnected) repl_ok (create_session sv tokens)"
  by (auto simp: create_session_def intro!: safe_intro dest: tok_length)

lemma safe_required [safe_intro]: "safe (at_top s) (at_top s) (required_text a key)"
  by (auto simp: required_text_def intro!: safe_intro)

lemma id_from_str_panic: "id_from_str t = Panic p \<Longrightarrow> p = SLICE_PANIC"
  by (auto simp: id_from_str_def split: if_splits sum.splits)

lemma safe_parse_id [safe_intro]:
  "safe (at_top s) (at_top s)
    (case id_from_str t of Ok i \<Rightarrow> ret i | Err e \<Rightarrow> throw (Marie (dbg_error e)) | Panic p \<Rightarrow> panic p)"
  using id_from_str_panic [of t] by (cases "id_from_str t") (auto simp: safe_def)

lemma safe_local_commands:
  assumes "2 \<le> length tokens"
  shows "safe (at_top LocalConnected) repl_ok (insert_model sv tokens)"
    and "safe (at_top LocalConnected) repl_ok (delete_model sv tokens)"
    and "safe (at_top LocalConnected) repl_ok (create_expert sv tokens)"
    and "safe (at_top LocalConnected) repl_ok (delete_expert sv tokens)"
    and "safe (at_top LocalConnected) repl_ok (set_expert sv tokens)"
    and "safe (at_top LocalConnected) repl_ok (create_graph tokens)"
    and "safe (at_top LocalConnected) repl_ok (remove_session sv dbg_error tokens)"
  using assms
  by (auto simp: remove_session_def insert_model_def delete_model_def create_expert_def delete_expert_def set_expert_def
      create_graph_def intro!: safe_intro)

lemma safe_dispatch_local: "safe (at_top LocalConnected) repl_ok (dispatch_local sv dbg dbg_error tokens)"
  unfolding dispatch_local_def seq_def
  by (intro safe_if safe_create_session safe_local_commands safe_sessions safe_unknown safe_pop safe_pure)
    (auto dest: tok_length)

lemma safe_dispatch:
  assumes "\<And>k. s \<noteq> ExecutingSession k"
  shows "safe (at_top s) repl_ok (dispatch sv dbg dbg_error tokens)"
  unfolding dispatch_def
  using assms
  by (intro safe_top)
    (auto split: repl_state.splits intro: safe_dispatch_root safe_dispatch_local safe_dispatch_graph safe_dispatch_node)

lemma safe_eof: "safe (at_top s) repl_ok handle_eof"
  unfolding handle_eof_def by (rule safe_top) (auto split: repl_state.splits simp: seq_def intro!: safe_intro)

lemma safe_line:
  assumes "\<And>k. s \<noteq> ExecutingSession k"
  shows "safe (at_top s) repl_ok (handle_line sv dbg dbg_error raw)"
proof -
  have run: "safe (at_top s) repl_ok (\<lambda>r. case dispatch sv dbg dbg_error tokens r of
      (Ok _, r') \<Rightarrow> (Ok True, r')
    | (Err e, r') \<Rightarrow> seq (print_error e) (ret True) r'
    | (Panic p, r') \<Rightarrow> (Panic p, r'))" for tokens
    using safe_dispatch [OF assms, of sv dbg dbg_error tokens]
    by (fastforce simp: safe_def print_error_def print_line_def seq_def bind_def split: prod.splits outcome.splits)
  have helped: "safe (at_top s) repl_ok (seq print_help (ret True))"
    unfolding print_help_def seq_def by (intro safe_bind safe_top safe_for_each) (auto intro!: safe_intro)
  show ?thesis
    unfolding handle_line_def Let_def
    by (auto split: sum.splits simp: print_error_def intro!: safe_if safe_top run helped safe_seq safe_print safe_pure)
qed

lemma safe_input:
  assumes "\<And>k. s \<noteq> ExecutingSession k"
  shows "safe (at_top s) repl_ok (handle_input sv dbg dbg_error i)"
proof (cases i)
  case EndOfInput
  have "safe repl_ok repl_ok (ret b)" for b by (auto intro!: safe_intro)
  with safe_eof [of s] show ?thesis
    unfolding EndOfInput by (fastforce simp: safe_def bind_def split: prod.splits outcome.splits)
qed (auto simp: safe_line assms intro!: safe_intro)

definition no_error :: "('s, 'e, 'a) prog \<Rightarrow> bool" where
  "no_error m \<longleftrightarrow> (\<forall>s e. fst (m s) \<noteq> Err e)"

lemma no_error_bind: "no_error m \<Longrightarrow> (\<And>a. no_error (k a)) \<Longrightarrow> no_error (bind m k)"
  unfolding no_error_def bind_def by (auto split: prod.splits outcome.splits) (metis fst_conv)+

lemma no_error_seq: "no_error m \<Longrightarrow> no_error k \<Longrightarrow> no_error (seq m k)"
  by (simp add: seq_def no_error_bind)

lemma no_error_base:
  "no_error (ret a)" "no_error (print_line x)" "no_error repl_top" "no_error repl_pop"
  by (auto simp: no_error_def print_line_def repl_top_def repl_pop_def sync_completer_table_def seq_def bind_def
      split: list.splits if_splits)

lemma no_error_for_each: "(\<And>x. no_error (f x)) \<Longrightarrow> no_error (for_each xs f)"
  by (induction xs) (simp_all add: no_error_base no_error_seq)

lemma no_error_eof: "no_error handle_eof"
  unfolding handle_eof_def
  by (rule no_error_bind) (auto simp: no_error_base no_error_seq split: repl_state.splits)

lemma no_error_input: "no_error (handle_input sv dbg dbg_error i)"
proof (cases i)
  case (Typed raw)
  have run: "no_error (\<lambda>r. case dispatch sv dbg dbg_error tokens r of
      (Ok _, r') \<Rightarrow> (Ok True, r')
    | (Err e, r') \<Rightarrow> seq (print_error e) (ret True) r'
    | (Panic p, r') \<Rightarrow> (Panic p, r'))" for tokens
    by (auto simp: no_error_def print_error_def print_line_def seq_def bind_def split: prod.splits outcome.splits)
  show ?thesis
    by (simp add: Typed handle_line_def Let_def print_error_def print_help_def no_error_base no_error_seq
        no_error_bind no_error_for_each run split: sum.splits)
next
  case EndOfInput
  then show ?thesis by (simp add: no_error_bind no_error_eof no_error_base)
qed (simp_all add: no_error_base no_error_seq)

lemma repl_run_ok:
  "repl_ok r \<Longrightarrow> repl_ok (snd (repl_run sv dbg dbg_error inps r)) \<and>
    fst (repl_run sv dbg dbg_error inps r) \<in> {Ok (), Panic SLICE_PANIC}"
proof (induction sv dbg dbg_error inps r rule: repl_run.induct)
  case (1 sv dbg dbg_error inps r)
  obtain s st where st: "rp_stack r = s # st" "stack_ok (s # st)"
    using "1.prems" by (cases "rp_stack r") (auto simp: repl_ok_def)
  show ?case
  proof (cases "\<exists>k. s = ExecutingSession k")
    case True
    then obtain k where s: "s = ExecutingSession k" by blast
    then have below: "st = [LocalConnected, Root]" using st(2) by (simp add: below_session)
    let ?r = "r\<lparr>rp_stack := st, rp_table := commands LocalConnected, rp_marie := sv_run_session sv k (rp_marie r)\<rparr>"
    have "repl_ok ?r" by (simp add: repl_ok_def below)
    then show ?thesis
      using "1.IH" st(1)
      by (simp add: repl_run.simps [of _ _ _ _ r] s below)
  next
    case False
    then have no_session: "\<And>k. s \<noteq> ExecutingSession k" by blast
    have unfold: "repl_run sv dbg dbg_error inps r = (case inps of
          [] \<Rightarrow> (Ok (), r)
        | i # is \<Rightarrow> (case handle_input sv dbg dbg_error i r of
              (Ok True, r') \<Rightarrow> repl_run sv dbg dbg_error is r'
            | (Ok False, r') \<Rightarrow> (Ok (), r')
            | (Err e, r') \<Rightarrow> (Err e, r')
            | (Panic p, r') \<Rightarrow> (Panic p, r')))"
      using False st(1) by (cases s) (simp_all add: repl_run.simps [of _ _ _ _ r])
    show ?thesis
    proof (cases inps)
      case Nil
      then show ?thesis using "1.prems" unfold by simp
    next
      case (Cons i rest)
      obtain res r' where step: "handle_input sv dbg dbg_error i r = (res, r')" by (cases "handle_input sv dbg dbg_error i r")
      have "at_top s r" using "1.prems" st by (simp add: at_top_def)
      with safe_input [OF no_session, of sv dbg dbg_error i] step
      have r': "repl_ok r'" and panic: "\<And>p. res = Panic p \<Longrightarrow> p = SLICE_PANIC"
        by (auto simp: safe_def)
      have no_err: "\<And>e. res \<noteq> Err e" using no_error_input [of sv dbg dbg_error i] step unfolding no_error_def by (metis fst_conv)
      have next_step: "repl_ok (snd (repl_run sv dbg dbg_error rest r')) \<and>
          fst (repl_run sv dbg dbg_error rest r') \<in> {Ok (), Panic SLICE_PANIC}" if "res = Ok True"
        using "1.IH" False st(1) Cons step r' that by (cases s) auto
      show ?thesis
        using next_step r' panic no_err unfold by (cases res) (auto simp: Cons step split: bool.splits)
    qed
  qed
qed

text \<open>
  C13: whatever is typed, interrupted or ended, the stack of the command line keeps its shape: the
  root is at the bottom, a node is edited on its graph only, a graph is edited and a session
  executed on a connection only, and the completion table is that of the state on top. No branch
  marked unreachable is reached and the stack is never empty: the loop returns, or panics on
  slicing a session identifier.
\<close>

theorem repl_keeps_shape:
  "case repl_run sv dbg dbg_error inps (repl_new verbose m) of (res, r) \<Rightarrow>
    stack_ok (rp_stack r) \<and> rp_table r = commands (hd (rp_stack r)) \<and> res \<in> {Ok (), Panic SLICE_PANIC}"
proof -
  have "repl_ok (repl_new verbose m)" by (simp add: repl_ok_def repl_new_def)
  from repl_run_ok [OF this, of sv dbg dbg_error inps] show ?thesis
    by (auto simp: repl_ok_def split: prod.splits)
qed

section \<open>Saving\<close>

text \<open>The services of the graphs, over the catalogue.\<close>

definition as_service :: "(catalog_error \<Rightarrow> string) \<Rightarrow> 'a catalog_prog \<Rightarrow> (catalog_store, 'a) service" where
  "as_service dbg m st = (case m st of
      (Ok a, st') \<Rightarrow> (Inr a, st')
    | (Err e, st') \<Rightarrow> (Inl (dbg e), st')
    | (Panic p, st') \<Rightarrow> (Inl p, st'))"

definition graph_services ::
  "(catalog_error \<Rightarrow> string) \<Rightarrow> graph_spec catalogable \<Rightarrow> catalog_store services \<Rightarrow> bool" where
  "graph_services dbg C sv \<longleftrightarrow>
     sv_graph_latest sv = (\<lambda>i. as_service dbg (graphs_latest C i)) \<and>
     sv_graph_insert sv = (\<lambda>g. as_service dbg (catalog_publish C g)) \<and>
     sv_graph_replace sv = (\<lambda>g. as_service dbg (directory_replace C g))"

text \<open>
  Saving the edited graph leaves the editor and makes the graph the latest version of its
  identifier in the catalogue, whether or not it was published before: reading the latest version
  gives the graph as it was edited.
\<close>

theorem saved_graph_is_latest:
  assumes "graph_services dbg (graph_catalogable ser de) sv" and "ser g = Inr d" and "de d = Inr g"
    and "rp_stack r = [EditingGraph g, LocalConnected, Root]"
  shows "\<exists>r'. save_graph sv r = (Ok (), r') \<and> rp_stack r' = [LocalConnected, Root] \<and>
    catalog_latest (graph_catalogable ser de) (g_id g) (rp_marie r') = (Ok g, rp_marie r')"
proof -
  let ?C = "graph_catalogable ser de"
  obtain ref st' where pub: "catalog_publish ?C g (rp_marie r) = (Ok ref, st')"
      "catalog_latest ?C (g_id g) st' = (Ok g, st')"
    using publish_latest [of ?C g d "rp_marie r"] assms(2,3) by (auto simp: graph_catalogable_def)
  have latest: "\<exists>l. graphs_latest ?C (g_id g) (rp_marie r) = (Ok l, rp_marie r) \<and>
      (l \<noteq> None \<longrightarrow> directory_replace ?C g (rp_marie r) = (Ok ref, st'))"
    using pub(1)
    by (auto simp: graphs_latest_def not_found_as_none_def catalog_latest_ref_def directory_replace_def seq_def
        bind_def graph_catalogable_def split: option.splits)
  then obtain l where l: "graphs_latest ?C (g_id g) (rp_marie r) = (Ok l, rp_marie r)"
      "l \<noteq> None \<Longrightarrow> directory_replace ?C g (rp_marie r) = (Ok ref, st')" by blast
  show ?thesis
    using assms(1,4) pub l
    by (auto simp: graph_services_def save_graph_def repl_pop_def seq_def bind_def sync_completer_table_def
        call_service_def as_service_def print_line_def)
qed

text \<open>The editor is left before the graph is published, so a graph whose publication fails is lost.\<close>

lemma failed_save_loses_graph:
  assumes "rp_stack r = [EditingGraph g, LocalConnected, Root]"
    and "sv_graph_latest sv (g_id g) (rp_marie r) = (Inl e, m)"
  shows "\<exists>r'. save_graph sv r = (Err (Marie e), r') \<and> rp_stack r' = [LocalConnected, Root]"
  using assms by (simp add: save_graph_def repl_pop_def seq_def bind_def sync_completer_table_def call_service_def)

text \<open>\<^verbatim>\<open>disconnect a b\<close> removes the edge of \<open>a\<close> wherever it leads.\<close>

lemma disconnect_ignores_target:
  assumes "parse_command_args (tl tokens) 2 = Inr args" and "tokens \<noteq> []" and "length (ca_positionals args) = 2"
    and "rp_stack r = EditingGraph g # st"
  shows "disconnect tokens r =
    (Ok (), r\<lparr>rp_stack := EditingGraph (g\<lparr>g_edges := hm_remove (utf8 (ca_positionals args ! 0)) (g_edges g)\<rparr>) # st\<rparr>)"
  using assms
  by (cases tokens; cases "ca_positionals args")
    (auto simp: disconnect_def args_from_def slice_def bind_def positional_def edit_graph_def)

section \<open>Examples\<close>

definition example_graph :: graph_spec where
  "example_graph = add_edge ''a'' ''b'' (graph_spec_new ''g'' ''a'' common_spec_default)"

definition example_graphs :: "graph_spec catalogable" where
  "example_graphs = graph_catalogable (\<lambda>g. if g = example_graph then Inr [1] else Inl ''unsupported'')
     (\<lambda>d. if d = [1] then Inr example_graph else Inl ''invalid'')"

definition example_services :: "catalog_store services" where
  "example_services =
     \<lparr>sv_database_url = None, sv_connect = (\<lambda>_ m. (Inr (), m)), sv_list = (\<lambda>_ m. (Inr [], m)),
      sv_create_session = (\<lambda>_ m. (Inr (SessionId (ID 0 1)), m)), sv_delete_session = (\<lambda>_ m. (Inr (), m)),
      sv_insert_model = (\<lambda>_ m. (Inr (), m)), sv_delete_model = (\<lambda>_ m. (Inr (), m)),
      sv_create_expert = (\<lambda>_ m. (Inr (), m)), sv_delete_expert = (\<lambda>_ m. (Inr (), m)),
      sv_get_expert = (\<lambda>_ m. (Inr None, m)), sv_replace_expert = (\<lambda>_ m. (Inr (), m)),
      sv_graph_latest = (\<lambda>i. as_service (\<lambda>_. []) (graphs_latest example_graphs i)),
      sv_graph_insert = (\<lambda>g. as_service (\<lambda>_. []) (catalog_publish example_graphs g)),
      sv_graph_replace = (\<lambda>g. as_service (\<lambda>_. []) (directory_replace example_graphs g)),
      sv_run_session = (\<lambda>_ m. m)\<rparr>"

definition example_editor :: "catalog_store repl" where
  "example_editor = \<lparr>rp_stack = [EditingGraph example_graph, LocalConnected, Root],
     rp_table = EDITING_GRAPH_COMMANDS, rp_verbose = False, rp_out = [], rp_marie = []\<rparr>"

theorem saved_graph_is_latest_witness:
  "\<exists>r'. save_graph example_services example_editor = (Ok (), r') \<and> rp_stack r' = [LocalConnected, Root] \<and>
    catalog_latest example_graphs (g_id example_graph) (rp_marie r') = (Ok example_graph, rp_marie r')"
  unfolding example_graphs_def
  by (rule saved_graph_is_latest [where d = "[1]" and dbg = "\<lambda>_. []"])
    (simp_all add: graph_services_def example_services_def example_graphs_def example_editor_def)

text \<open>
  An identifier of 32 bytes with a character across its sixteenth byte is sliced inside the
  character: deleting a session under such a name ends the command line.
\<close>

lemma delete_session_panics:
  "fst (remove_session sv dbg_error
      [str ''delete'', str ''session'', replicate 15 97 @ [E_ACUTE] @ replicate 15 97] r) = Panic SLICE_PANIC"
proof -
  let ?t = "replicate 15 97 @ [E_ACUTE] @ replicate 15 (97 :: code_point)"
  have plain: "unquote ?t = ?t"
    by (rule unquote_word) (simp add: plain_word_def plain_char_def is_whitespace_def list_all_iff)
  have points: "utf8_point 97 = [CHR ''a'']" "utf8_point E_ACUTE = [CHR 0xC3, CHR 0xA9]"
    by (simp_all add: utf8_point_def) code_simp+
  have "concat (replicate n [c]) = replicate n c" for n and c :: char by (induction n) simp_all
  then have "utf8 ?t = replicate 15 (CHR ''a'') @ [CHR 0xC3, CHR 0xA9] @ replicate 15 (CHR ''a'')"
    by (simp add: utf8_def points)
  then have "id_from_str (utf8 ?t) = Panic SLICE_PANIC"
    by (simp add: id_from_str_def continuation_byte_def nth_append of_char_def)
  then show ?thesis
    by (simp add: remove_session_def args_from_def slice_def parse_command_args_def plain [simplified] bind_def positional_def)
qed

end
