(* ===== verification/Terminal.thy ===== *)
theory Terminal
  imports Repl Session_Controller
begin

text \<open>
  The terminal of the command line while it follows a session or consults an expert
  (\<^verbatim>\<open>marie-cli/src/states/executing_session.rs\<close>, \<^verbatim>\<open>repl/input.rs\<close>, \<^verbatim>\<open>repl/render.rs\<close>) and the
  consultation itself (\<^verbatim>\<open>marie-core/src/expert/mod.rs\<close>). The messages are written without their
  accents; the text of a JSON value, of a time and the debug text of a string are parameters.
\<close>

section \<open>Rendering\<close>

definition format_list :: "string \<Rightarrow> ('a \<Rightarrow> string) \<Rightarrow> 'a list \<Rightarrow> string" where
  "format_list none f xs = (if xs = [] then none else join [CHR 0x0A] (map f xs))"

fun status_debug :: "(string \<Rightarrow> string) \<Rightarrow> session_status \<Rightarrow> string" where
  "status_debug dbg SessionPending = ''Pending''"
| "status_debug dbg Archived = ''Archived''"
| "status_debug dbg Ongoing = ''Ongoing''"
| "status_debug dbg (SessionFailed m) = ''Failed('' @ dbg m @ '')''"

definition format_sessions :: "(string \<Rightarrow> string) \<Rightarrow> (timestamp \<Rightarrow> string) \<Rightarrow> session list \<Rightarrow> string" where
  "format_sessions dbg time = format_list ''(aucune session)'' (\<lambda>s.
     session_id_display (s_id s) @ ''  status='' @ status_debug dbg (s_status s) @ ''  creee='' @ time (s_created_at s))"

definition format_models :: "encrypted_model list \<Rightarrow> string" where
  "format_models = format_list ''(aucun modele)'' (\<lambda>m.
     em_id m @ ''  base-url='' @ em_base_url m @ ''  client-id='' @ em_client_id m @ ''  model='' @ em_model m @
     ''  system-prompt='' @ (case em_system_prompt m of Some p \<Rightarrow> p | None \<Rightarrow> ''(aucun)''))"

definition format_experts :: "(string \<Rightarrow> string) \<Rightarrow> expert list \<Rightarrow> string" where
  "format_experts dbg = format_list ''(aucun expert)'' (\<lambda>e.
     e_id e @ ''  model='' @ e_model_id e @ ''  allowed-tools=['' @ join '','' (e_allowed_tools e) @
     '']  prompt='' @ dbg (e_prompt e))"

definition format_tools :: "tool list \<Rightarrow> string" where
  "format_tools = format_list ''(aucun outil)'' (\<lambda>t. t_name t @ ''  '' @ t_description t)"

definition node_id_debug :: "(string \<Rightarrow> string) \<Rightarrow> graph_node_id \<Rightarrow> string" where
  "node_id_debug dbg n = ''NodeId('' @ dbg n @ '')''"

definition format_graphs :: "(string \<Rightarrow> string) \<Rightarrow> graph_spec list \<Rightarrow> string" where
  "format_graphs dbg = format_list ''(aucun graphe)'' (\<lambda>g.
     g_id g @ ''  entry='' @ node_id_debug dbg (g_entry g) @ ''  nodes='' @ show_nat (length (g_nodes g)))"

definition format_nodes :: "(string \<Rightarrow> string) \<Rightarrow> graph_spec \<Rightarrow> string" where
  "format_nodes dbg g = format_list ''(aucun noeud)'' (\<lambda>(n, s).
     node_id_debug dbg n @ ''  kind=NodeKindId('' @ dbg (ns_kind s) @ '')  channels=['' @
     join '','' (map spec_name (spec_channels (ns_common s))) @ '']'') (g_nodes g)"

fun format_log_content :: "(value \<Rightarrow> string) \<Rightarrow> session_log_content \<Rightarrow> string" where
  "format_log_content json (Plain t) = t"
| "format_log_content json (ToolLog l i r) = ''[tool:'' @ l @ ''] in='' @ json i @ '' out='' @ json r"
| "format_log_content json (AgentLog l c) = ''['' @ l @ ''] '' @ json c"

definition format_log :: "(value \<Rightarrow> string) \<Rightarrow> session_log \<Rightarrow> string" where
  "format_log json l = format_log_content json (sl_content l)"

definition format_options :: "string list \<Rightarrow> string" where
  "format_options options =
     join ''  '' (map (\<lambda>(i, opt). show_nat (i + 1) @ '') '' @ opt) (zip [0..<length options] options))"

fun question_hint :: "question_kind \<Rightarrow> string" where
  "question_hint ShortText = '' (texte court)''"
| "question_hint LongText = '' (texte long, terminez par '.' seul sur une ligne)''"
| "question_hint (Select options) = '' - choisissez un: '' @ format_options options"
| "question_hint (Radio options) = '' - choisissez un: '' @ format_options options"
| "question_hint (Checkboxes options) = '' - choisissez zero ou plusieurs (virgules): '' @ format_options options"
| "question_hint (FileUpload accept) = '' - chemin de fichier (types acceptes: '' @ join '','' accept @ '')''"

definition format_question :: "question \<Rightarrow> string" where
  "format_question q = q_label q @ question_hint (q_kind q)"

section \<open>The terminal\<close>

text \<open>
  What is asked of the thread of the line editor, in order, and what it shows: it serves one command
  at a time, and a line being read holds everything behind it. A line is absent when the editor
  fails, on an interruption or at the end of the input. No line left means that nothing is typed.
\<close>

datatype input_cmd = ReadLine string | Print string

datatype shown = Prompted string | Typed "ustring option" | Printed string

fun input_thread :: "input_cmd list \<Rightarrow> ustring option list \<Rightarrow> shown list" where
  "input_thread [] ls = []"
| "input_thread (Print s # cs) ls = Printed s # input_thread cs ls"
| "input_thread (ReadLine p # cs) [] = [Prompted p]"
| "input_thread (ReadLine p # cs) (l # ls) = Prompted p # Typed l # input_thread cs ls"

text \<open>
  The lines that will be typed, the events the subscription will yield before it ends, for each
  coming read the number of events received before its line, and the calls of the remote procedure
  \<^verbatim>\<open>hitl_reply\<close> made so far: the session, the request, the answers and the nodes called.
\<close>

type_synonym hitl_call = "session_id \<times> hitl_id \<times> answers \<times> node_id list"

record terminal =
  tm_lines :: "ustring option list"
  tm_events :: "session_event list"
  tm_turns :: "nat list"
  tm_cmds :: "input_cmd list"
  tm_calls :: "hitl_call list"

text \<open>A program that waits for a line that is never typed stops with \<open>Waiting\<close>.\<close>

datatype waiting = Waiting

type_synonym 'a terminal_prog = "(terminal, waiting, 'a) prog"

definition print_text :: "string \<Rightarrow> unit terminal_prog" where
  "print_text s = modify (\<lambda>t. t\<lparr>tm_cmds := tm_cmds t @ [Print s]\<rparr>)"

fun live_lines :: "(value \<Rightarrow> string) \<Rightarrow> session_event list \<Rightarrow> input_cmd list" where
  "live_lines json [] = []"
| "live_lines json (LogCreated l # es) = Print (format_log json l) # live_lines json es"
| "live_lines json (LogUpdated l # es) = Print (format_log json l) # live_lines json es"
| "live_lines json (_ # es) = live_lines json es"

definition read_with_live_events :: "(value \<Rightarrow> string) \<Rightarrow> string \<Rightarrow> ustring terminal_prog" where
  "read_with_live_events json prompt = (\<lambda>t.
     let n = (case tm_turns t of [] \<Rightarrow> 0 | n # _ \<Rightarrow> n);
         t = t\<lparr>tm_turns := tl (tm_turns t), tm_events := drop n (tm_events t),
               tm_cmds := tm_cmds t @ ReadLine prompt # live_lines json (take n (tm_events t))\<rparr>
     in case tm_lines t of
          [] \<Rightarrow> (Err Waiting, t)
        | l # ls \<Rightarrow> (Ok (case l of Some s \<Rightarrow> s | None \<Rightarrow> []), t\<lparr>tm_lines := ls\<rparr>))"

section \<open>Answering a request\<close>

text \<open>\<^verbatim>\<open>str::parse::<usize>\<close>: an optional plus sign and decimal digits, within 64 bits.\<close>

definition parse_usize :: "ustring \<Rightarrow> nat option" where
  "parse_usize s = (let ds = (case s of c # t \<Rightarrow> if c = 43 then t else s | [] \<Rightarrow> []) in
     if ds = [] \<or> \<not> list_all is_digit ds \<or> 2 ^ 64 \<le> digits_value ds then None else Some (digits_value ds))"

definition resolve_option :: "string list \<Rightarrow> ustring \<Rightarrow> string" where
  "resolve_option options raw = (case parse_usize raw of
      Some i \<Rightarrow> if 1 \<le> i \<and> i \<le> length options then options ! (i - 1) else utf8 raw
    | None \<Rightarrow> utf8 raw)"

lemma read_takes_line:
  "read_with_live_events json prompt t = (Ok l, t') \<Longrightarrow> length (tm_lines t') < length (tm_lines t)"
  by (auto simp: read_with_live_events_def Let_def split: list.splits)

function read_long :: "(value \<Rightarrow> string) \<Rightarrow> ustring list \<Rightarrow> ustring list terminal_prog" where
  "read_long json ls t = (case read_with_live_events json ''> '' t of
      (Ok l, t') \<Rightarrow> if l = str ''.'' then (Ok ls, t') else read_long json (ls @ [l]) t'
    | (Err e, t') \<Rightarrow> (Err e, t')
    | (Panic p, t') \<Rightarrow> (Panic p, t'))"
  by pat_completeness auto
termination
  by (relation "measure (\<lambda>(json, ls, t). length (tm_lines t))") (auto dest: read_takes_line [OF sym])

declare read_long.simps [simp del]

fun ask_question :: "(value \<Rightarrow> string) \<Rightarrow> question_kind \<Rightarrow> answer terminal_prog" where
  "ask_question json LongText = bind (read_long json []) (\<lambda>ls. ret (Single (join [CHR 0x0A] (map utf8 ls))))"
| "ask_question json (Checkboxes options) = bind (read_with_live_events json ''> '') (\<lambda>raw.
     ret (Multiple (map (resolve_option options) (filter (\<lambda>s. s \<noteq> []) (map trim_text (split_on COMMA raw))))))"
| "ask_question json (Select options) = bind (read_with_live_events json ''> '') (\<lambda>raw.
     ret (Single (resolve_option options (trim_text raw))))"
| "ask_question json (Radio options) = bind (read_with_live_events json ''> '') (\<lambda>raw.
     ret (Single (resolve_option options (trim_text raw))))"
| "ask_question json _ = bind (read_with_live_events json ''> '') (\<lambda>raw. ret (Single (utf8 raw)))"

fun ask_questions :: "(value \<Rightarrow> string) \<Rightarrow> question list \<Rightarrow> answers \<Rightarrow> answers terminal_prog" where
  "ask_questions json [] m = ret m"
| "ask_questions json (q # qs) m = seq (print_text (format_question q))
     (bind (ask_question json (q_kind q)) (\<lambda>a. ask_questions json qs (hm_insert (q_key q) a m)))"

fun ask_hitl :: "(value \<Rightarrow> string) \<Rightarrow> hitl \<Rightarrow> answers terminal_prog" where
  "ask_hitl json Text = bind (read_with_live_events json ''reponse> '') (\<lambda>l. ret [(''text'', Single (utf8 l))])"
| "ask_hitl json (Questions qs) = ask_questions json qs []"

section \<open>Following a session\<close>

fun is_terminal :: "session_status \<Rightarrow> bool" where
  "is_terminal Archived = True"
| "is_terminal (SessionFailed _) = True"
| "is_terminal _ = False"

fun rpc_error_text :: "rpc_error \<Rightarrow> string" where
  "rpc_error_text (RpcDeserializeError m) = ''erreur lors de la deserialization: '' @ m"
| "rpc_error_text (RpcPostError _) = ''erreur lors de l'envoi/reception du message''"
| "rpc_error_text RpcTimeOut = ''time-out de l'appel distant''"
| "rpc_error_text (NoExecutorFound p) = ''aucun executeur n'a ete trouve pour cette procedure '' @ p"
| "rpc_error_text RpcShutdown = ''arret du serveur d'appel distant''"

fun session_client_error_text :: "session_client_error \<Rightarrow> string" where
  "session_client_error_text (RpcCallFailed e) = ''l'appel distant a echoue: '' @ rpc_error_text e"
| "session_client_error_text NoControllerFound = ''aucun controlleur de session n'a ete trouve''"

text \<open>
  What the command line calls: the texts of values, and the answer of a remote call, which may
  depend on the calls made before. A call is recorded when it is made, whatever it answers.
\<close>

record live_env =
  le_json :: "value \<Rightarrow> string"
  le_debug :: "string \<Rightarrow> string"
  le_ln :: "f64 \<Rightarrow> f64"
  le_invoke :: "hitl_call list \<Rightarrow> session_id \<Rightarrow> hitl_id \<Rightarrow> answers \<Rightarrow> node_id list \<Rightarrow> rpc_error + (string + unit)"

definition remote_call :: "live_env \<Rightarrow> hitl_call list hitl_invoke" where
  "remote_call env sid hid as nodes made = (le_invoke env made sid hid as nodes, made @ [(sid, hid, as, nodes)])"

definition answer_request :: "live_env \<Rightarrow> session_client \<Rightarrow> hitl_id \<Rightarrow> hitl \<Rightarrow> unit terminal_prog" where
  "answer_request env cl hid h = bind (ask_hitl (le_json env) h) (\<lambda>as t.
     case hitl_reply (le_ln env) (remote_call env) cl hid as (tm_calls t) of
       (Ok _, made) \<Rightarrow> (Ok (), t\<lparr>tm_calls := made\<rparr>)
     | (Err e, made) \<Rightarrow>
         print_text (''erreur lors de la reponse hitl: '' @ session_client_error_text e) (t\<lparr>tm_calls := made\<rparr>)
     | (Panic p, made) \<Rightarrow> (Panic p, t\<lparr>tm_calls := made\<rparr>))"

fun answer_pendings :: "live_env \<Rightarrow> session_client \<Rightarrow> pending_hitl list \<Rightarrow> unit terminal_prog" where
  "answer_pendings env cl [] = ret ()"
| "answer_pendings env cl (p # ps) = seq (answer_request env cl (ph_id p) (ph_hitl p)) (answer_pendings env cl ps)"

text \<open>One event of the loop; the answer tells whether the loop goes on.\<close>

fun live_event :: "live_env \<Rightarrow> session_client \<Rightarrow> session_event \<Rightarrow> bool terminal_prog" where
  "live_event env cl (LogCreated l) = seq (print_text (format_log (le_json env) l)) (ret True)"
| "live_event env cl (LogUpdated l) = seq (print_text (format_log (le_json env) l)) (ret True)"
| "live_event env cl (HitlEvent (HitlRequested _ hid h)) = seq (answer_request env cl hid h) (ret True)"
| "live_event env cl (HitlEvent (HitlAnswered _ _ _)) = ret True"
| "live_event env cl (SessionStatusUpdated _ st) =
     (if is_terminal st then seq (print_text (''session terminee: '' @ status_debug (le_debug env) st)) (ret False)
      else ret True)"

lemma keeps_events:
  "keeps (\<lambda>t. length (tm_events t) \<le> n) (print_text s)"
  "keeps (\<lambda>t. length (tm_events t) \<le> n) (read_with_live_events json prompt)"
  by (auto simp: keeps_def print_text_def read_with_live_events_def Let_def split: list.split)

lemma keeps_events_long: "keeps (\<lambda>t. length (tm_events t) \<le> n) (read_long json ls)"
proof (rule keepsI)
  fix t
  show "length (tm_events t) \<le> n \<Longrightarrow> length (tm_events (snd (read_long json ls t))) \<le> n"
  proof (induction json ls t rule: read_long.induct)
    case (1 json ls t)
    have "length (tm_events (snd (read_with_live_events json ''> '' t))) \<le> n"
      using keepsD [OF keeps_events(2)] 1(2) by blast
    then show ?case
      using 1(1) by (subst read_long.simps) (auto split: prod.split outcome.split)
  qed
qed

lemma keeps_events_question: "keeps (\<lambda>t. length (tm_events t) \<le> n) (ask_question json k)"
  by (cases k) (auto intro!: keeps_intro keeps_events keeps_events_long)

lemma keeps_events_questions: "keeps (\<lambda>t. length (tm_events t) \<le> n) (ask_questions json qs m)"
  by (induction qs arbitrary: m) (auto intro!: keeps_intro keeps_events keeps_events_question)

lemma keeps_events_hitl: "keeps (\<lambda>t. length (tm_events t) \<le> n) (ask_hitl json h)"
  by (cases h) (auto intro!: keeps_intro keeps_events keeps_events_questions)

lemma keeps_events_answer: "keeps (\<lambda>t. length (tm_events t) \<le> n) (answer_request env cl hid h)"
  unfolding answer_request_def
  by (rule keeps_bind [OF keeps_events_hitl]) (auto simp: keeps_def print_text_def split: outcome.split prod.split)

lemma keeps_events_event: "keeps (\<lambda>t. length (tm_events t) \<le> n) (live_event env cl e)"
  by (cases "(env, cl, e)" rule: live_event.cases)
    (auto intro!: keeps_intro keeps_events keeps_events_answer)

function run_events :: "live_env \<Rightarrow> session_client \<Rightarrow> unit terminal_prog" where
  "run_events env cl t = (case tm_events t of
      [] \<Rightarrow> (Ok (), t)
    | e # es \<Rightarrow> (case live_event env cl e (t\<lparr>tm_events := es\<rparr>) of
          (Ok go, t') \<Rightarrow> if go then run_events env cl t' else (Ok (), t')
        | (Err w, t') \<Rightarrow> (Err w, t')
        | (Panic p, t') \<Rightarrow> (Panic p, t')))"
  by pat_completeness auto
termination
proof (relation "measure (\<lambda>(env, cl, t). length (tm_events t))", goal_cases)
  case (2 env cl t e es r t' go)
  have "length (tm_events (snd (live_event env cl e (t\<lparr>tm_events := es\<rparr>)))) \<le> length es"
    using keepsD [OF keeps_events_event, of "t\<lparr>tm_events := es\<rparr>" "length es"] by simp
  with 2 show ?case by (metis (no_types, lifting) case_prod_conv in_measure le_imp_less_Suc length_Cons snd_conv)
qed simp

declare run_events.simps [simp del]

definition run_live :: "live_env \<Rightarrow> session_client \<Rightarrow> unit terminal_prog" where
  "run_live env cl = (case client_get_session cl of
      Err e \<Rightarrow> (case session_error_text e of
          Panic p \<Rightarrow> panic p
        | Ok m \<Rightarrow> print_text (''erreur: '' @ m)
        | Err _ \<Rightarrow> ret ())
    | Panic p \<Rightarrow> panic p
    | Ok view \<Rightarrow>
        seq (modify (\<lambda>t. t\<lparr>tm_cmds := tm_cmds t @ map (\<lambda>l. Print (format_log (le_json env) l)) (v_logs view)\<rparr>))
        (seq (answer_pendings env cl (v_pendings view))
        (if is_terminal (v_status view)
         then print_text (''session deja terminee: '' @ status_debug (le_debug env) (v_status view))
         else run_events env cl)))"

section \<open>Consulting an expert\<close>

datatype expert_error =
    ExpertCatalogError catalog_error
  | ExpertNotFound expert_id
  | ExpertModelError model_error
  | ConsultationFailed string

definition expert_catalog :: "'a catalog_prog \<Rightarrow> (models, expert_error, 'a) prog" where
  "expert_catalog m s = (case m (ms_catalog s) of
      (Ok a, st) \<Rightarrow> (Ok a, s\<lparr>ms_catalog := st\<rparr>)
    | (Err e, st) \<Rightarrow> (Err (ExpertCatalogError e), s\<lparr>ms_catalog := st\<rparr>)
    | (Panic p, st) \<Rightarrow> (Panic p, s\<lparr>ms_catalog := st\<rparr>))"

definition expert_model :: "'a models_prog \<Rightarrow> (models, expert_error, 'a) prog" where
  "expert_model m s = (case m s of
      (Ok a, s') \<Rightarrow> (Ok a, s')
    | (Err e, s') \<Rightarrow> (Err (ExpertModelError e), s')
    | (Panic p, s') \<Rightarrow> (Panic p, s'))"

text \<open>The allowed tools that exist, in order.\<close>

fun allowed_tools ::
  "tool catalogable \<Rightarrow> (string, tool) hash_map \<Rightarrow> string list \<Rightarrow> (models, expert_error, tool list) prog" where
  "allowed_tools T native [] = ret []"
| "allowed_tools T native (i # is) = bind (expert_catalog (tools_get T native i)) (\<lambda>t.
     bind (allowed_tools T native is) (\<lambda>ts. ret (case t of Some x \<Rightarrow> x # ts | None \<Rightarrow> ts)))"

fun consult_stream :: "model_stream_event list \<Rightarrow> expert_error + string option \<times> request_tool_call list" where
  "consult_stream [] = Inl (ConsultationFailed ''le flux du modele s'est termine sans reponse'')"
| "consult_stream (ModelCompleted t cs # es) = Inr (t, cs)"
| "consult_stream (ModelFailed m # es) = Inl (ConsultationFailed m)"
| "consult_stream (TextDelta _ # es) = consult_stream es"

definition experts_consult ::
  "crypto \<Rightarrow> openai_client \<Rightarrow> (string \<Rightarrow> value option) \<Rightarrow> expert catalogable \<Rightarrow> encrypted_model catalogable \<Rightarrow>
   tool catalogable \<Rightarrow> (string, tool) hash_map \<Rightarrow> expert_id \<Rightarrow> string \<Rightarrow>
   (models, expert_error, string option \<times> request_tool_call list) prog" where
  "experts_consult c client from_str E M T native eid task =
     bind (expert_catalog (experts_get E eid)) (\<lambda>found. case found of
       None \<Rightarrow> throw (ExpertNotFound eid)
     | Some expert \<Rightarrow> bind (allowed_tools T native (e_allowed_tools expert)) (\<lambda>tools.
         bind (expert_model (models_execute c client from_str M (e_model_id expert)
                [\<lparr>ce_role = System, ce_content = e_prompt expert\<rparr>, \<lparr>ce_role = User, ce_content = task\<rparr>] tools))
           (\<lambda>events. of_sum (consult_stream events))))"

definition run_consult ::
  "(expert_error \<Rightarrow> string) \<Rightarrow> (expert_id \<Rightarrow> string \<Rightarrow> (models, expert_error, string option \<times> request_tool_call list) prog) \<Rightarrow>
   expert_id \<Rightarrow> ustring \<Rightarrow> (terminal \<times> models, waiting, unit) prog" where
  "run_consult show_error consult eid task = (\<lambda>(t, ms).
     let t = snd (print_text (''consultation de l'expert '' @ [CHR 0x27] @ eid @ [CHR 0x27] @ ''...'') t) in
     case consult eid (utf8 task) ms of
       (Ok (txt, _), ms') \<Rightarrow>
         (Ok (), snd (print_text (case txt of Some x \<Rightarrow> x | None \<Rightarrow> ''(aucune reponse)'') t), ms')
     | (Err e, ms') \<Rightarrow> (Ok (), snd (print_text (''erreur: '' @ show_error e) t), ms')
     | (Panic p, ms') \<Rightarrow> (Panic p, t, ms'))"

definition run_session ::
  "live_env \<Rightarrow> (expert_error \<Rightarrow> string) \<Rightarrow> (expert_id \<Rightarrow> string \<Rightarrow> (models, expert_error, string option \<times> request_tool_call list) prog) \<Rightarrow>
   (session_id \<Rightarrow> session_client) \<Rightarrow> session_kind \<Rightarrow> (terminal \<times> models, waiting, unit) prog" where
  "run_session env show_error consult client kind = (case kind of
      Consult eid task \<Rightarrow> run_consult show_error consult eid task
    | Live sid \<Rightarrow> (\<lambda>(t, ms). case run_live env (client sid) t of (r, t') \<Rightarrow> (r, t', ms)))"

section \<open>Numbers typed for options\<close>

lemma str_append [simp]: "str (a @ b) = str a @ str b"
  by (simp add: str_def)

lemma digits_value_snoc: "digits_value (ds @ [d]) = digits_value ds * 10 + (d - 48)"
  by (simp add: digits_value_def)

lemma str_digit: "n < 10 \<Longrightarrow> str [digit_char n] = [48 + n]"
  by (simp add: str_def digit_char_def)

lemma show_nat_digits:
  "list_all is_digit (str (show_nat n)) \<and> str (show_nat n) \<noteq> [] \<and> digits_value (str (show_nat n)) = n"
proof (induction n rule: show_nat.induct)
  case (1 n)
  show ?case
  proof (cases "n < 10")
    case True
    then show ?thesis by (subst (1 2 3) show_nat.simps) (simp add: str_digit is_digit_def digits_value_def)
  next
    case False
    have "str [digit_char (n mod 10)] = [48 + n mod 10]" by (rule str_digit) simp
    moreover have "n mod 10 < 10" by simp
    then have "is_digit (48 + n mod 10)" unfolding is_digit_def by linarith
    ultimately show ?thesis
      using False 1 by (subst (1 2 3) show_nat.simps) (simp add: digits_value_snoc)
  qed
qed

lemma digit_facts: "is_digit c \<Longrightarrow> \<not> is_whitespace c \<and> c \<noteq> COMMA \<and> c \<noteq> 43"
  by (auto simp: is_digit_def is_whitespace_def)

lemma trim_digits: "list_all is_digit t \<Longrightarrow> trim_text t = t"
proof (cases "t = []")
  case False
  assume "list_all is_digit t"
  with False have "is_digit (hd t)" "is_digit (last t)" by (simp_all add: list_all_iff)
  with False show ?thesis by (simp add: trim_id digit_facts)
qed (simp add: trim_text_def)

lemma trim_show [simp]: "trim_text (str (show_nat n)) = str (show_nat n)"
  using show_nat_digits by (simp add: trim_digits)

lemma parse_usize_show: "n < 2 ^ 64 \<Longrightarrow> parse_usize (str (show_nat n)) = Some n"
proof -
  assume n: "n < 2 ^ 64"
  obtain c t where s: "str (show_nat n) = c # t" using show_nat_digits [of n] by (cases "str (show_nat n)") auto
  moreover have "c \<noteq> 43" using show_nat_digits [of n] digit_facts [of c] s by simp
  ultimately show ?thesis using n show_nat_digits [of n] by (simp add: parse_usize_def)
qed

lemma resolve_number:
  "1 \<le> n \<Longrightarrow> n \<le> length options \<Longrightarrow> length options < 2 ^ 64 \<Longrightarrow>
     resolve_option options (str (show_nat n)) = options ! (n - 1)"
  by (simp add: resolve_option_def parse_usize_show)

lemma split_on_plain: "c \<notin> set t \<Longrightarrow> split_on c t = [t]"
  by (induction t) auto

lemma split_on_cons: "c \<notin> set t \<Longrightarrow> split_on c (t @ c # rest) = t # split_on c rest"
  by (induction t) auto

lemma split_on_join:
  "\<forall>x \<in> set xs. c \<notin> set x \<Longrightarrow> xs \<noteq> [] \<Longrightarrow> split_on c (join [c] xs) = xs"
  by (induction "[c]" xs rule: join.induct) (auto simp: split_on_plain split_on_cons)

lemma split_numbers:
  "filter (\<lambda>s. s \<noteq> []) (map trim_text (split_on COMMA (join [COMMA] (map (\<lambda>n. str (show_nat n)) ns)))) =
     map (\<lambda>n. str (show_nat n)) ns"
proof (cases "ns = []")
  case False
  have "split_on COMMA (join [COMMA] (map (\<lambda>n. str (show_nat n)) ns)) = map (\<lambda>n. str (show_nat n)) ns"
    using False show_nat_digits digit_facts by (intro split_on_join) (fastforce simp: list_all_iff)+
  moreover have "map trim_text (map (\<lambda>n. str (show_nat n)) ns) = map (\<lambda>n. str (show_nat n)) ns"
    by simp
  ultimately show ?thesis using show_nat_digits by (simp add: filter_map filter_id_conv)
qed (simp add: trim_text_def)

section \<open>Filling in a form\<close>

text \<open>What a user may enter for a question, the lines to type for it and the answer it stands for.\<close>

datatype entry = Words ustring | Paragraphs "ustring list" | Numbers "nat list"

definition option_numbers :: "string list \<Rightarrow> nat list \<Rightarrow> bool" where
  "option_numbers options ns \<longleftrightarrow> length options < 2 ^ 64 \<and> list_all (\<lambda>n. 1 \<le> n \<and> n \<le> length options) ns"

fun fits :: "question_kind \<Rightarrow> entry \<Rightarrow> bool" where
  "fits ShortText (Words w) = True"
| "fits LongText (Paragraphs ls) = (str ''.'' \<notin> set ls)"
| "fits (Select options) (Numbers ns) = (length ns = 1 \<and> option_numbers options ns)"
| "fits (Radio options) (Numbers ns) = (length ns = 1 \<and> option_numbers options ns)"
| "fits (Checkboxes options) (Numbers ns) = option_numbers options ns"
| "fits (FileUpload accept) (Words w) = accepts (FileUpload accept) (Single (utf8 w))"
| "fits _ _ = False"

fun entry_lines :: "entry \<Rightarrow> ustring list" where
  "entry_lines (Words w) = [w]"
| "entry_lines (Paragraphs ls) = ls @ [str ''.'']"
| "entry_lines (Numbers ns) = [join [COMMA] (map (\<lambda>n. str (show_nat n)) ns)]"

fun entry_answer :: "question_kind \<Rightarrow> entry \<Rightarrow> answer" where
  "entry_answer (Checkboxes options) (Numbers ns) = Multiple (map (\<lambda>n. options ! (n - 1)) ns)"
| "entry_answer (Select options) (Numbers ns) = Single (options ! (hd ns - 1))"
| "entry_answer (Radio options) (Numbers ns) = Single (options ! (hd ns - 1))"
| "entry_answer _ (Paragraphs ls) = Single (join [CHR 0x0A] (map utf8 ls))"
| "entry_answer _ (Words w) = Single (utf8 w)"
| "entry_answer _ (Numbers ns) = Multiple []"

lemma entry_accepted: "fits k p \<Longrightarrow> accepts k (entry_answer k p)"
  by (cases "(k, p)" rule: fits.cases) (auto simp: option_numbers_def list_all_iff length_Suc_conv)

text \<open>
  A stretch of reads: it takes the typed lines, sends no reply, and takes no event when none comes
  between the lines.
\<close>

definition reads_to :: "terminal \<Rightarrow> terminal \<Rightarrow> ustring option list \<Rightarrow> bool" where
  "reads_to t t' ls \<longleftrightarrow> tm_lines t' = ls \<and> tm_calls t' = tm_calls t \<and>
     (tm_turns t = [] \<longrightarrow> tm_turns t' = [] \<and> tm_events t' = tm_events t)"

lemma reads_to_trans: "reads_to t t' ls \<Longrightarrow> reads_to t' t'' ls' \<Longrightarrow> reads_to t t'' ls'"
  by (auto simp: reads_to_def)

lemma read_one:
  assumes "tm_lines t = Some s # ls"
  obtains t' where "read_with_live_events json prompt t = (Ok s, t')" "reads_to t t' ls"
  using assms by (auto simp: read_with_live_events_def Let_def reads_to_def)

lemma read_long_lines:
  assumes "tm_lines t = map Some ls @ Some (str ''.'') # rest" and "str ''.'' \<notin> set ls"
  shows "\<exists>t'. read_long json acc t = (Ok (acc @ ls), t') \<and> reads_to t t' rest"
  using assms
proof (induction ls arbitrary: acc t)
  case Nil
  then have "tm_lines t = Some (str ''.'') # rest" by simp
  then obtain t' where "read_with_live_events json ''> '' t = (Ok (str ''.''), t')" "reads_to t t' rest"
    by (rule read_one)
  then show ?case by (simp add: read_long.simps [of json acc t])
next
  case (Cons l ls)
  then have "tm_lines t = Some l # map Some ls @ Some (str ''.'') # rest" by simp
  then obtain t1 where 1: "read_with_live_events json ''> '' t = (Ok l, t1)"
      "reads_to t t1 (map Some ls @ Some (str ''.'') # rest)"
    by (rule read_one)
  moreover have "tm_lines t1 = map Some ls @ Some (str ''.'') # rest" "str ''.'' \<notin> set ls"
    using 1(2) Cons.prems(2) by (simp_all add: reads_to_def)
  then obtain t2 where "read_long json (acc @ [l]) t1 = (Ok ((acc @ [l]) @ ls), t2)" "reads_to t1 t2 rest"
    using Cons.IH by blast
  moreover have "l \<noteq> str ''.''" using Cons.prems(2) by auto
  ultimately show ?case by (simp add: read_long.simps [of json acc t]) (blast intro: reads_to_trans)
qed

lemma ask_question_entry:
  assumes "fits k p" and "tm_lines t = map Some (entry_lines p) @ rest"
  shows "\<exists>t'. ask_question json k t = (Ok (entry_answer k p), t') \<and> reads_to t t' rest"
proof (cases "\<exists>ls. p = Paragraphs ls")
  case True
  then obtain ls where p: "p = Paragraphs ls" by blast
  then have k: "k = LongText" "str ''.'' \<notin> set ls" using assms(1) by (cases k; simp)+
  with p assms(2) read_long_lines [of t ls rest json "[]"] show ?thesis by (auto simp: bind_def)
next
  case False
  then obtain l where l: "entry_lines p = [l]" by (cases p) auto
  then have "tm_lines t = Some l # rest" using assms(2) by simp
  then obtain t' where t': "read_with_live_events json ''> '' t = (Ok l, t')" "reads_to t t' rest"
    by (rule read_one)
  have "ask_question json k t = (Ok (entry_answer k p), t')"
    using assms(1) False l t'(1)
    by (cases "(k, p)" rule: fits.cases)
      (auto simp: bind_def split_numbers option_numbers_def list_all_iff length_Suc_conv resolve_number)
  with t'(2) show ?thesis by blast
qed

lemma ask_questions_entries:
  assumes "list_all2 (\<lambda>q p. fits (q_kind q) p) qs ps"
    and "tm_lines t = map Some (concat (map entry_lines ps)) @ rest"
  shows "\<exists>t'. ask_questions json qs m t =
      (Ok (fold (\<lambda>(q, p). hm_insert (q_key q) (entry_answer (q_kind q) p)) (zip qs ps) m), t') \<and> reads_to t t' rest"
  using assms
proof (induction arbitrary: t m rule: list_all2_induct)
  case (Cons q qs p ps)
  let ?t = "t\<lparr>tm_cmds := tm_cmds t @ [Print (format_question q)]\<rparr>"
  have "tm_lines ?t = map Some (entry_lines p) @ map Some (concat (map entry_lines ps)) @ rest" using Cons.prems by simp
  from ask_question_entry [OF Cons.hyps(1) this]
  obtain t1 where 1: "ask_question json (q_kind q) ?t = (Ok (entry_answer (q_kind q) p), t1)"
      "reads_to ?t t1 (map Some (concat (map entry_lines ps)) @ rest)" by blast
  then have "tm_lines t1 = map Some (concat (map entry_lines ps)) @ rest" by (simp add: reads_to_def)
  from Cons.IH [OF this] obtain t2 where 2: "ask_questions json qs (hm_insert (q_key q) (entry_answer (q_kind q) p) m) t1 =
      (Ok (fold (\<lambda>(q, p). hm_insert (q_key q) (entry_answer (q_kind q) p)) (zip qs ps)
        (hm_insert (q_key q) (entry_answer (q_kind q) p) m)), t2)" "reads_to t1 t2 rest" by blast
  have "reads_to t t2 rest" using 1(2) 2(2) by (auto simp: reads_to_def)
  with 1(1) 2(1) show ?case by (simp add: seq_def bind_def print_text_def)
qed (simp add: reads_to_def)

text \<open>The entries of a request, the lines to type for it and whether the answers are accepted.\<close>

fun request_fits :: "hitl \<Rightarrow> entry list \<Rightarrow> bool" where
  "request_fits Text es = (case es of [Words w] \<Rightarrow> True | _ \<Rightarrow> False)"
| "request_fits (Questions qs) es = (distinct (map q_key qs) \<and> list_all2 (\<lambda>q p. fits (q_kind q) p) qs es)"

definition request_lines :: "entry list \<Rightarrow> ustring option list" where
  "request_lines es = map Some (concat (map entry_lines es))"

fun answers_accepted :: "hitl \<Rightarrow> answers \<Rightarrow> bool" where
  "answers_accepted Text as = True"
| "answers_accepted (Questions qs) as = (validate_answers qs as = Inr as)"

text \<open>The answers that stand for the entries typed for a request.\<close>

definition answers_given :: "hitl \<Rightarrow> entry list \<Rightarrow> answers \<Rightarrow> bool" where
  "answers_given h es as \<longleftrightarrow> answers_accepted h as \<and> (case h of
      Text \<Rightarrow> (\<exists>w. es = [Words w] \<and> as = [(''text'', Single (utf8 w))])
    | Questions qs \<Rightarrow> (\<forall>(q, p) \<in> set (zip qs es). hm_get as (q_key q) = Some (entry_answer (q_kind q) p)))"

lemma fold_insert_other:
  "k \<notin> q_key ` set qs \<Longrightarrow>
     hm_get (fold (\<lambda>(q, p). hm_insert (q_key q) (f q p)) (zip qs ps) m) k = hm_get m k"
proof (induction qs arbitrary: ps m)
  case (Cons q qs)
  then show ?case by (cases ps) simp_all
qed simp

lemma fold_insert_entries:
  assumes "list_all2 R qs ps" and "distinct (map q_key qs)" and "(q, p) \<in> set (zip qs ps)"
  shows "hm_get (fold (\<lambda>(q, p). hm_insert (q_key q) (f q p)) (zip qs ps) m) (q_key q) = Some (f q p)"
  using assms
proof (induction arbitrary: m rule: list_all2_induct)
  case (Cons x xs y ys)
  then show ?case by (cases "(q, p) = (x, y)") (auto simp: fold_insert_other)
qed simp

lemma ask_hitl_entries:
  assumes "request_fits h es" and "tm_lines t = request_lines es @ rest"
  shows "\<exists>as t'. ask_hitl json h t = (Ok as, t') \<and> reads_to t t' rest \<and> answers_given h es as"
proof (cases h)
  case Text
  with assms(1) obtain w where es: "es = [Words w]" by (auto split: list.splits entry.splits)
  with assms(2) have "tm_lines t = Some w # rest" by (simp add: request_lines_def)
  then obtain t' where "read_with_live_events json ''reponse> '' t = (Ok w, t')" "reads_to t t' rest"
    by (rule read_one)
  with Text es show ?thesis by (simp add: bind_def answers_given_def)
next
  case (Questions qs)
  with assms(1) have fit: "list_all2 (\<lambda>q p. fits (q_kind q) p) qs es" "distinct (map q_key qs)" by simp_all
  let ?as = "fold (\<lambda>(q, p). hm_insert (q_key q) (entry_answer (q_kind q) p)) (zip qs es) []"
  from ask_questions_entries [OF fit(1), of t rest json "[]"] assms(2)
  obtain t' where t': "ask_questions json qs [] t = (Ok ?as, t')" "reads_to t t' rest"
    by (auto simp: request_lines_def)
  have got: "hm_get ?as (q_key q) = Some (entry_answer (q_kind q) p)" if "(q, p) \<in> set (zip qs es)" for q p
    using fold_insert_entries [OF fit that] .
  have "\<exists>a. hm_get ?as (q_key q) = Some a \<and> accepts (q_kind q) a" if q: "q \<in> set qs" for q
  proof -
    obtain i where i: "i < length qs" "q = qs ! i" using q by (auto simp: in_set_conv_nth)
    then have "(q, es ! i) \<in> set (zip qs es)" "fits (q_kind q) (es ! i)"
      using fit(1) list_all2_lengthD [OF fit(1)] by (auto simp: set_zip dest: list_all2_nthD)
    then show ?thesis using got entry_accepted by blast
  qed
  then have "validate_answers qs ?as = Inr ?as"
    using check_questions_accepts [of qs ?as] by (simp add: validate_answers_def)
  with Questions t' got show ?thesis by (auto simp: answers_given_def)
qed

section \<open>The requests of a followed session\<close>

text \<open>The requests the subscription shows before the session terminates.\<close>

fun requests_of :: "session_event list \<Rightarrow> (hitl_id \<times> hitl) list" where
  "requests_of [] = []"
| "requests_of (HitlEvent (HitlRequested _ i h) # es) = (i, h) # requests_of es"
| "requests_of (SessionStatusUpdated _ st # es) = (if is_terminal st then [] else requests_of es)"
| "requests_of (_ # es) = requests_of es"

text \<open>Replies that answer these requests, in order, with the entries typed for them.\<close>

fun replies_to :: "(hitl_id \<times> hitl) list \<Rightarrow> entry list list \<Rightarrow> (hitl_id \<times> answers) list \<Rightarrow> bool" where
  "replies_to [] [] [] = True"
| "replies_to ((i, h) # rs) (es # ess) ((j, a) # as) = (i = j \<and> answers_given h es a \<and> replies_to rs ess as)"
| "replies_to _ _ _ = False"

lemma replies_to_append:
  "replies_to rs ess as \<Longrightarrow> replies_to rs' ess' as' \<Longrightarrow> replies_to (rs @ rs') (ess @ ess') (as @ as')"
  by (induction rs ess as rule: replies_to.induct) auto

text \<open>The controller the client calls, and the calls that carry the replies to it.\<close>

definition controller_of :: "live_env \<Rightarrow> session_client \<Rightarrow> node_id list" where
  "controller_of env cl = annuary_pick_top_n (le_ln env) (se_annuary cl) (session_id_bytes (se_session_id cl))
     (capabilities_from SessionOrchestrator) 1"

definition reply_calls :: "live_env \<Rightarrow> session_client \<Rightarrow> (hitl_id \<times> answers) list \<Rightarrow> hitl_call list" where
  "reply_calls env cl as = map (\<lambda>(i, a). (se_session_id cl, i, a, controller_of env cl)) as"

lemma reply_calls_append [simp]: "reply_calls env cl (as @ as') = reply_calls env cl as @ reply_calls env cl as'"
  by (simp add: reply_calls_def)

lemma reply_is_called:
  assumes "controller_of env cl \<noteq> []"
  shows "snd (hitl_reply (le_ln env) (remote_call env) cl i as made) = made @ reply_calls env cl [(i, as)] \<and>
    fst (hitl_reply (le_ln env) (remote_call env) cl i as made) \<noteq> Panic p"
proof -
  have "length (controller_of env cl) \<le> 1"
    by (simp add: controller_of_def annuary_pick_nodes_with pick_top_n_def)
  with assms obtain n where n: "controller_of env cl = [n]" by (cases "controller_of env cl") auto
  then show ?thesis
    by (simp add: hitl_reply_def remote_call_def reply_calls_def controller_of_def split: sum.split prod.split)
qed

lemma answer_request_entries:
  assumes "controller_of env cl \<noteq> []"
    and "request_fits h es" and "tm_lines t = request_lines es @ rest" and "tm_turns t = []"
  shows "\<exists>as t'. answer_request env cl i h t = (Ok (), t') \<and> tm_lines t' = rest \<and> tm_turns t' = [] \<and>
    tm_events t' = tm_events t \<and> tm_calls t' = tm_calls t @ reply_calls env cl [(i, as)] \<and> answers_given h es as"
proof -
  from ask_hitl_entries [OF assms(2,3), of "le_json env"] obtain as t1
    where 1: "ask_hitl (le_json env) h t = (Ok as, t1)" "reads_to t t1 rest" "answers_given h es as" by blast
  obtain r made where r: "hitl_reply (le_ln env) (remote_call env) cl i as (tm_calls t1) = (r, made)" by (rule prod.exhaust)
  with reply_is_called [OF assms(1), of i as "tm_calls t1"]
  have "made = tm_calls t1 @ reply_calls env cl [(i, as)]" "\<And>p. r \<noteq> Panic p" by auto
  with 1 r assms(4) show ?thesis
    by (cases r) (auto simp: answer_request_def bind_def reads_to_def print_text_def)
qed

lemma answer_pendings_entries:
  assumes "controller_of env cl \<noteq> []"
    and "list_all2 (\<lambda>p es. request_fits (ph_hitl p) es) ps ess"
    and "tm_lines t = concat (map request_lines ess) @ rest" and "tm_turns t = []"
  shows "\<exists>as t'. answer_pendings env cl ps t = (Ok (), t') \<and> tm_lines t' = rest \<and> tm_turns t' = [] \<and>
    tm_events t' = tm_events t \<and> tm_calls t' = tm_calls t @ reply_calls env cl as \<and>
    replies_to (map (\<lambda>p. (ph_id p, ph_hitl p)) ps) ess as"
  using assms(2-)
proof (induction arbitrary: t rule: list_all2_induct)
  case (Cons p ps es ess)
  have "tm_lines t = request_lines es @ concat (map request_lines ess) @ rest" using Cons.prems by simp
  from answer_request_entries [OF assms(1) Cons.hyps(1) this Cons.prems(2), of "ph_id p"] obtain a t1
    where 1: "answer_request env cl (ph_id p) (ph_hitl p) t = (Ok (), t1)" "tm_turns t1 = []" "tm_events t1 = tm_events t"
      "tm_lines t1 = concat (map request_lines ess) @ rest" "tm_calls t1 = tm_calls t @ reply_calls env cl [(ph_id p, a)]"
      "answers_given (ph_hitl p) es a" by blast
  from Cons.IH [OF 1(4,2)] obtain as t2
    where "answer_pendings env cl ps t1 = (Ok (), t2)" "tm_lines t2 = rest" "tm_turns t2 = []"
      "tm_events t2 = tm_events t1" "tm_calls t2 = tm_calls t1 @ reply_calls env cl as"
      "replies_to (map (\<lambda>p. (ph_id p, ph_hitl p)) ps) ess as" by blast
  with 1 show ?case
    by (intro exI [of _ "[(ph_id p, a)] @ as"]) (simp add: seq_def bind_def reply_calls_def)
qed (simp add: reply_calls_def)

lemmas requests_of_cases = requests_of.induct [case_names none asked updated answered created revised]

lemma run_events_entries:
  assumes "controller_of env cl \<noteq> []"
    and "list_all2 (\<lambda>r es. request_fits (snd r) es) (requests_of (tm_events t)) ess"
    and "tm_lines t = concat (map request_lines ess) @ rest" and "tm_turns t = []"
  shows "\<exists>as t'. run_events env cl t = (Ok (), t') \<and> tm_lines t' = rest \<and>
    tm_calls t' = tm_calls t @ reply_calls env cl as \<and> replies_to (requests_of (tm_events t)) ess as"
  using assms(2-)
proof (induction "tm_events t" arbitrary: t ess rule: requests_of_cases)
  case none
  then show ?case by (simp add: run_events.simps [of env cl t] reply_calls_def)
next
  case (asked sid i h evs)
  from asked(2) [symmetric] asked(3) obtain es ess' where ess: "ess = es # ess'" "request_fits h es"
      "list_all2 (\<lambda>r es. request_fits (snd r) es) (requests_of evs) ess'"
    by (auto simp: list_all2_Cons1)
  let ?t = "t\<lparr>tm_events := evs\<rparr>"
  have "tm_lines ?t = request_lines es @ concat (map request_lines ess') @ rest" "tm_turns ?t = []"
    using asked(4,5) ess(1) by simp_all
  from answer_request_entries [OF assms(1) ess(2) this, of i] obtain a t1
    where 1: "answer_request env cl i h ?t = (Ok (), t1)" "tm_turns t1 = []" "evs = tm_events t1"
      "tm_lines t1 = concat (map request_lines ess') @ rest" "tm_calls t1 = tm_calls t @ reply_calls env cl [(i, a)]"
      "answers_given h es a" by auto
  from asked(1) [OF 1(3) _ 1(4,2)] ess(3) 1(3) obtain as t2
    where "run_events env cl t1 = (Ok (), t2)" "tm_lines t2 = rest"
      "tm_calls t2 = tm_calls t1 @ reply_calls env cl as" "replies_to (requests_of evs) ess' as" by auto
  with 1 asked(2) [symmetric] ess(1) show ?case
    by (intro exI [of _ "[(i, a)] @ as"]) (simp add: run_events.simps [of env cl t] seq_def bind_def reply_calls_def)
next
  case (updated sid st evs)
  show ?case
  proof (cases "is_terminal st")
    case True
    with updated(2) [symmetric] updated(3,4) show ?thesis
      by (auto simp: run_events.simps [of env cl t] seq_def bind_def print_text_def reply_calls_def)
  next
    case False
    with updated(2) [symmetric] have "run_events env cl t = run_events env cl (t\<lparr>tm_events := evs\<rparr>)"
      by (simp add: run_events.simps [of env cl t])
    with updated(1) [OF False, of "t\<lparr>tm_events := evs\<rparr>" ess] updated(2) [symmetric] updated(3-5) False show ?thesis by simp
  qed
next
  case (answered sid i as evs)
  from answered(2) [symmetric] have "run_events env cl t = run_events env cl (t\<lparr>tm_events := evs\<rparr>)"
    by (simp add: run_events.simps [of env cl t])
  with answered(1) [of "t\<lparr>tm_events := evs\<rparr>" ess] answered(2) [symmetric] answered(3-5) show ?case by simp
next
  case (created l evs)
  let ?t = "t\<lparr>tm_events := evs, tm_cmds := tm_cmds t @ [Print (format_log (le_json env) l)]\<rparr>"
  from created(2) [symmetric] have "run_events env cl t = run_events env cl ?t"
    by (simp add: run_events.simps [of env cl t] seq_def bind_def print_text_def)
  with created(1) [of ?t ess] created(2) [symmetric] created(3-5) show ?case by simp
next
  case (revised l evs)
  let ?t = "t\<lparr>tm_events := evs, tm_cmds := tm_cmds t @ [Print (format_log (le_json env) l)]\<rparr>"
  from revised(2) [symmetric] have "run_events env cl t = run_events env cl ?t"
    by (simp add: run_events.simps [of env cl t] seq_def bind_def print_text_def)
  with revised(1) [of ?t ess] revised(2) [symmetric] revised(3-5) show ?case by simp
qed

section \<open>What is lost or held back\<close>

text \<open>
  What comes while a question waits for its line is taken from the subscription: a request or the end
  of the session received then is neither answered nor noticed, only the journal is printed.
\<close>

lemma events_during_question_lost:
  assumes "controller_of env cl \<noteq> []" and "tm_events t = HitlEvent (HitlRequested sid i Text) # during @ after"
    and "tm_turns t = length during # ns" and "tm_lines t = Some l # ls"
  shows "\<exists>t'. run_events env cl t = run_events env cl t' \<and> tm_events t' = after \<and> tm_lines t' = ls \<and>
    tm_calls t' = tm_calls t @ reply_calls env cl [(i, [(''text'', Single (utf8 l))])]"
proof -
  obtain r made where r: "hitl_reply (le_ln env) (remote_call env) cl i [(''text'', Single (utf8 l))] (tm_calls t) = (r, made)"
    by (rule prod.exhaust)
  with reply_is_called [OF assms(1), of i "[(''text'', Single (utf8 l))]" "tm_calls t"]
  have "made = tm_calls t @ reply_calls env cl [(i, [(''text'', Single (utf8 l))])]" "\<And>p. r \<noteq> Panic p" by auto
  with r show ?thesis
    using assms(2-)
    by (cases r)
      (auto simp: run_events.simps [of env cl t] answer_request_def read_with_live_events_def seq_def bind_def
        print_text_def intro!: exI)
qed

text \<open>A long text is ended by a full stop only: at the end of the input it is asked for for ever.\<close>

lemma long_text_never_ends:
  "tm_lines t = replicate n None \<Longrightarrow> \<exists>t'. read_long json acc t = (Err Waiting, t')"
proof (induction n arbitrary: acc t)
  case 0
  then show ?case by (simp add: read_long.simps [of json acc t] read_with_live_events_def Let_def)
next
  case (Suc n)
  obtain t' where t': "read_with_live_events json ''> '' t = (Ok [], t')" "tm_lines t' = replicate n None"
    using Suc.prems by (auto simp: read_with_live_events_def Let_def)
  then show ?case
    using Suc.IH [of t' "acc @ [[]]"] by (simp add: read_long.simps [of json acc t] str_def)
qed

text \<open>The end of the input answers a short question with an empty text: it does not detach.\<close>

lemma end_of_input_answers:
  assumes "tm_lines t = None # ls"
  shows "\<exists>t'. ask_hitl json Text t = (Ok [(''text'', Single [])], t') \<and> tm_lines t' = ls"
  using assms by (auto simp: read_with_live_events_def Let_def bind_def utf8_def)

definition reads_in :: "input_cmd list \<Rightarrow> nat" where
  "reads_in cs = length (filter (\<lambda>c. case c of ReadLine _ \<Rightarrow> True | Print _ \<Rightarrow> False) cs)"

lemma input_thread_append:
  "length ls = reads_in cs \<Longrightarrow> input_thread (cs @ cs') (ls @ ls') = input_thread cs ls @ input_thread cs' ls'"
  by (induction cs ls rule: input_thread.induct) (auto simp: reads_in_def)

lemma input_thread_live:
  "input_thread (live_lines json es) ls =
     concat (map (\<lambda>e. case e of LogCreated l \<Rightarrow> [Printed (format_log json l)]
       | LogUpdated l \<Rightarrow> [Printed (format_log json l)] | _ \<Rightarrow> []) es)"
  by (induction json es rule: live_lines.induct) auto

section \<open>Properties\<close>

text \<open>
  C23: a form filled in by typing the number of an option, the numbers of several, a text or the lines
  of a long text is accepted: whatever events arrive between the lines, the answers collected are the
  options of these numbers and the texts, and validation returns them unchanged.
\<close>

theorem form_by_numbers_accepted:
  assumes "distinct (map q_key qs)" and "list_all2 (\<lambda>q e. fits (q_kind q) e) qs es"
    and "tm_lines t = map Some (concat (map entry_lines es)) @ rest"
  shows "\<exists>as t'. ask_hitl json (Questions qs) t = (Ok as, t') \<and> tm_lines t' = rest \<and>
    validate_answers qs as = Inr as \<and>
    (\<forall>(q, e) \<in> set (zip qs es). hm_get as (q_key q) = Some (entry_answer (q_kind q) e))"
proof -
  have "request_fits (Questions qs) es" "tm_lines t = request_lines es @ rest"
    using assms by (simp_all add: request_lines_def)
  from ask_hitl_entries [OF this, of json] show ?thesis by (auto simp: reads_to_def answers_given_def)
qed

text \<open>
  C22: following a session replies to every request. Suppose the session is read and is not
  terminated, the directory of the client knows a session controller, no event comes between a
  question and its line, and the lines typed fit the requests in order (for a form with distinct
  keys: the numbers of options, a text, the lines of a long text or a file of an accepted type for
  each question). Then the terminal comes back, and the remote procedure of the controller is
  called exactly once for each pending request and then for each request the subscription shows
  before the session terminates, in order, each call with the answers that stand for the lines
  typed, which validation accepts. Whether the call itself succeeds is not assumed.
\<close>

theorem followed_session_answered:
  assumes "client_get_session cl = Ok v" and "\<not> is_terminal (v_status v)" and "controller_of env cl \<noteq> []"
    and "tm_turns t = []"
    and "list_all2 (\<lambda>p es. request_fits (ph_hitl p) es) (v_pendings v) ess"
    and "list_all2 (\<lambda>r es. request_fits (snd r) es) (requests_of (tm_events t)) ess'"
    and "tm_lines t = concat (map request_lines (ess @ ess')) @ rest"
  shows "\<exists>as t'. run_live env cl t = (Ok (), t') \<and> tm_lines t' = rest \<and>
    tm_calls t' = tm_calls t @ map (\<lambda>(i, a). (se_session_id cl, i, a, controller_of env cl)) as \<and>
    replies_to (map (\<lambda>p. (ph_id p, ph_hitl p)) (v_pendings v) @ requests_of (tm_events t)) (ess @ ess') as"
proof -
  let ?t = "t\<lparr>tm_cmds := tm_cmds t @ map (\<lambda>l. Print (format_log (le_json env) l)) (v_logs v)\<rparr>"
  have "tm_lines ?t = concat (map request_lines ess) @ concat (map request_lines ess') @ rest" "tm_turns ?t = []"
    using assms by simp_all
  from answer_pendings_entries [OF assms(3,5) this] obtain as1 t1
    where 1: "answer_pendings env cl (v_pendings v) ?t = (Ok (), t1)" "tm_turns t1 = []" "tm_events t1 = tm_events t"
      "tm_lines t1 = concat (map request_lines ess') @ rest" "tm_calls t1 = tm_calls t @ reply_calls env cl as1"
      "replies_to (map (\<lambda>p. (ph_id p, ph_hitl p)) (v_pendings v)) ess as1" by auto
  from run_events_entries [OF assms(3), of t1 ess' rest] assms(6) 1(2-4) obtain as2 t2
    where 2: "run_events env cl t1 = (Ok (), t2)" "tm_lines t2 = rest" "tm_calls t2 = tm_calls t1 @ reply_calls env cl as2"
      "replies_to (requests_of (tm_events t)) ess' as2" by auto
  have "run_live env cl t = (Ok (), t2)" using 1(1) 2(1) assms(1,2) by (simp add: run_live_def seq_def bind_def)
  moreover have "tm_calls t2 = tm_calls t @ reply_calls env cl (as1 @ as2)" using 1(5) 2(3) by simp
  ultimately show ?thesis
    using 2(2) replies_to_append [OF 1(6) 2(4)] unfolding reply_calls_def by blast
qed

text \<open>
  Journal entries received while a line is read are not shown before that line is typed: until
  then the screen ends with the prompt, and they follow the line.
\<close>

theorem logs_wait_for_line:
  assumes "length ls = reads_in (tm_cmds t)"
  shows "input_thread (tm_cmds (snd (read_with_live_events json prompt t))) ls =
      input_thread (tm_cmds t) ls @ [Prompted prompt] \<and>
    input_thread (tm_cmds (snd (read_with_live_events json prompt t))) (ls @ [l]) =
      input_thread (tm_cmds t) ls @ [Prompted prompt, Typed l] @
      concat (map (\<lambda>e. case e of LogCreated l \<Rightarrow> [Printed (format_log json l)]
         | LogUpdated l \<Rightarrow> [Printed (format_log json l)] | _ \<Rightarrow> [])
        (take (case tm_turns t of [] \<Rightarrow> 0 | n # _ \<Rightarrow> n) (tm_events t)))"
proof -
  let ?n = "case tm_turns t of [] \<Rightarrow> 0 | n # _ \<Rightarrow> n"
  have "tm_cmds (snd (read_with_live_events json prompt t)) =
      tm_cmds t @ ReadLine prompt # live_lines json (take ?n (tm_events t))"
    by (auto simp: read_with_live_events_def Let_def split: list.split)
  then show ?thesis
    using input_thread_append [OF assms, of "ReadLine prompt # live_lines json (take ?n (tm_events t))" "[]"]
      input_thread_append [OF assms, of "ReadLine prompt # live_lines json (take ?n (tm_events t))" "[l]"]
    by (simp add: input_thread_live)
qed

text \<open>
  A consultation whose model was called ends with the response or the failure the stream ends with:
  it never finds the stream without an end, and succeeds exactly when the service completed and
  reported no failure.
\<close>

lemma consult_ends:
  assumes "expert_catalog (experts_get E eid) s = (Ok (Some x), s1)"
    and "allowed_tools T native (e_allowed_tools x) s1 = (Ok ts, s2)"
    and "models_execute c client from_str M (e_model_id x)
      [\<lparr>ce_role = System, ce_content = e_prompt x\<rparr>, \<lparr>ce_role = User, ce_content = task\<rparr>] ts s2 =
      (Ok (model_stream from_str None None events), s3)"
  shows "\<exists>r. experts_consult c client from_str E M T native eid task s = (r, s3) \<and>
    ((\<exists>a. r = Ok a) \<longleftrightarrow> (\<forall>e \<in> set events. \<not> is_failure e) \<and> (\<exists>e \<in> set events. is_completion e)) \<and>
    ((\<exists>a. r = Ok a) \<or> (\<exists>m. r = Err (ConsultationFailed m)))"
proof -
  obtain e where e: "model_stream from_str None None events = map TextDelta (text_deltas events) @ [e]" "ends_stream e"
      "(\<exists>t calls. e = ModelCompleted t calls) \<longleftrightarrow>
        (\<forall>x \<in> set events. \<not> is_failure x) \<and> (\<exists>x \<in> set events. is_completion x)"
    using model_stream_split [of from_str None None events] by auto
  have skip: "consult_stream (map TextDelta ds @ [e]) = consult_stream [e]" for ds by (induction ds) simp_all
  from assms have "experts_consult c client from_str E M T native eid task s = of_sum (consult_stream [e]) s3"
    by (simp add: experts_consult_def bind_def expert_model_def e(1) skip)
  with e(2,3) show ?thesis by (cases e) auto
qed

section \<open>Examples\<close>

definition demo_question :: question where
  "demo_question = question_select ''env'' ''?'' [''prod'', ''staging'']"

definition demo_terminal :: "ustring option list \<Rightarrow> session_event list \<Rightarrow> nat list \<Rightarrow> terminal" where
  "demo_terminal ls es ns = \<lparr>tm_lines = ls, tm_events = es, tm_turns = ns, tm_cmds = [], tm_calls = []\<rparr>"

lemma demo_two: "entry_lines (Numbers [2]) = [str ''2'']"
  by (simp add: show_nat.simps [of 2] digit_char_def str_def)

theorem form_by_numbers_accepted_witness:
  "\<exists>as t'. ask_hitl (\<lambda>_. []) (Questions [demo_question]) (demo_terminal [Some (str ''2'')] [] []) = (Ok as, t') \<and>
     hm_get as ''env'' = Some (Single ''staging'')"
  using form_by_numbers_accepted [of "[demo_question]" "[Numbers [2]]" "demo_terminal [Some (str ''2'')] [] []" "[]" "\<lambda>_. []"]
  by (auto simp: demo_question_def question_select_def option_numbers_def demo_terminal_def demo_two
      simp del: entry_lines.simps)

definition demo_session_client :: session_client where
  "demo_session_client = \<lparr>se_session_id = SessionId (ID 1 1), se_annuary = annuary_new capabilities_all own_node_id_local,
     se_table = [(SessionId (ID 1 1), session_new 0 0 (SessionId (ID 1 1)))], se_logs = [], se_hitls = []\<rparr>"

definition demo_env :: live_env where
  "demo_env = \<lparr>le_json = (\<lambda>_. []), le_debug = id, le_ln = id, le_invoke = (\<lambda>_ _ _ _ _. Inr (Inr ()))\<rparr>"

definition demo_request :: session_event where
  "demo_request = HitlEvent (HitlRequested (SessionId (ID 1 1)) (HitlId (ID 1 7)) Text)"

lemma demo_controller: "controller_of demo_env demo_session_client = [own_to_node_id own_node_id_local]"
  by (simp add: controller_of_def annuary_pick_top_n_def pick_top_n_def demo_session_client_def annuary_new_def)

theorem followed_session_answered_witness:
  "\<exists>t'. run_live demo_env demo_session_client (demo_terminal [Some (str ''yes'')] [demo_request] []) = (Ok (), t') \<and>
     tm_calls t' = [(SessionId (ID 1 1), HitlId (ID 1 7), [(''text'', Single (utf8 (str ''yes'')))],
       [own_to_node_id own_node_id_local])]"
proof -
  let ?v = "\<lparr>v_id = SessionId (ID 1 1), v_status = SessionPending, v_logs = [], v_pendings = []\<rparr>"
  let ?t = "demo_terminal [Some (str ''yes'')] [demo_request] []"
  have view: "client_get_session demo_session_client = Ok ?v"
    by (simp add: client_get_session_def demo_session_client_def get_session_view_def get_session_def session_new_def
        list_log_def list_pending_hitls_def list_unanswered_hitls_frames_def)
  have id: "se_session_id demo_session_client = SessionId (ID 1 1)" by (simp add: demo_session_client_def)
  obtain as t' where run: "run_live demo_env demo_session_client ?t = (Ok (), t')"
      "tm_calls t' = map (\<lambda>(i, a). (SessionId (ID 1 1), i, a, [own_to_node_id own_node_id_local])) as"
      "replies_to [(HitlId (ID 1 7), Text)] [[Words (str ''yes'')]] as"
    using followed_session_answered [OF view, of demo_env ?t "[]" "[[Words (str ''yes'')]]" "[]"]
    by (auto simp: demo_controller id demo_terminal_def demo_request_def request_lines_def)
  then show ?thesis by (cases as rule: list.exhaust) (auto simp: answers_given_def elim!: replies_to.elims)
qed

theorem logs_wait_for_line_witness:
  "input_thread (tm_cmds (snd (read_with_live_events (\<lambda>_. []) ''> ''
     (demo_terminal [] [LogCreated (session_log_entry (SessionId (ID 1 1)) 5 (SessionLogId (ID 1 2)) (Plain ''a''))] [1])))) [] =
   [Prompted ''> '']"
  using logs_wait_for_line [of "[]" "demo_terminal []
     [LogCreated (session_log_entry (SessionId (ID 1 1)) 5 (SessionLogId (ID 1 2)) (Plain ''a''))] [1]" "\<lambda>_. []" "''> ''" None]
  by (simp add: demo_terminal_def reads_in_def)

end
