(* ===== verification/Virtual_Files.thy ===== *)
theory Virtual_Files
  imports Channels Ids
begin

text \<open>
  The virtual file system of workspaces and sessions (\<^verbatim>\<open>marie-core/src/persistency\<close>): the router of
  mounts with its aliases (\<^verbatim>\<open>filesystem.rs\<close>, \<^verbatim>\<open>alias.rs\<close>), the tree of inodes kept in one table
  (\<^verbatim>\<open>inode.rs\<close>) and its composition (\<^verbatim>\<open>vfs.rs\<close>). The crate declares no module for these files.

  The table \<^verbatim>\<open>fs_inode\<close> is a list of rows. Its schema is not part of the repository: as the statements
  and the comments require, parent and name are unique together, a parent is a row of the table, and
  deleting a row deletes the rows below it. The object store is a map from keys to contents, in which
  deleting a missing object does nothing.
\<close>

section \<open>Paths\<close>

abbreviation SLASH :: char where "SLASH \<equiv> CHR 0x2F"

fun split_sep :: "'a \<Rightarrow> 'a list \<Rightarrow> 'a list list" where
  "split_sep c [] = [[]]"
| "split_sep c (x # t) = (if x = c then [] # split_sep c t
     else case split_sep c t of [] \<Rightarrow> [[x]] | p # ps \<Rightarrow> (x # p) # ps)"

definition split_path :: "string \<Rightarrow> string list" where
  "split_path path = filter (\<lambda>s. s \<noteq> []) (split_sep SLASH path)"

section \<open>Mounts\<close>

record open_options =
  oo_read :: bool
  oo_write :: bool
  oo_append :: bool
  oo_truncate :: bool
  oo_create :: bool
  oo_create_new :: bool

text \<open>A file system: its operations on a state of its own; \<open>'d\<close> are its descriptors.\<close>

record ('s, 'd) file_system =
  fs_mkdir :: "string \<Rightarrow> ('s, error, unit) prog"
  fs_ls :: "string \<Rightarrow> ('s, error, string list) prog"
  fs_open :: "string \<Rightarrow> open_options \<Rightarrow> ('s, error, 'd) prog"
  fs_remove :: "string \<Rightarrow> ('s, error, unit) prog"

type_synonym 'f mounts = "(string \<times> 'f) list"

definition mount :: "string \<Rightarrow> 'f \<Rightarrow> 'f mounts \<Rightarrow> 'f mounts" where
  "mount prefix fs ms =
     sort_key (\<lambda>m. - int (length (fst m))) (filter (\<lambda>m. fst m \<noteq> prefix) ms @ [(prefix, fs)])"

definition strip_prefix_of :: "string \<Rightarrow> string \<Rightarrow> string option" where
  "strip_prefix_of prefix path =
     (if take (length prefix) path = prefix then Some (drop (length prefix) path) else None)"

fun resolve_mount :: "'f mounts \<Rightarrow> string \<Rightarrow> ('f \<times> string) option" where
  "resolve_mount [] path = None"
| "resolve_mount ((prefix, fs) # ms) path = (case strip_prefix_of prefix path of
      None \<Rightarrow> resolve_mount ms path
    | Some rest \<Rightarrow>
        if rest = [] \<or> hd rest = SLASH then Some (fs, if rest = [] then [SLASH] else rest)
        else resolve_mount ms path)"

section \<open>Aliases\<close>

text \<open>The rows of \<^verbatim>\<open>fs_alias\<close>: a scope and a path, and the path it stands for.\<close>

type_synonym alias_table = "(string \<times> string, string) hash_map"

definition alias_set :: "string \<Rightarrow> string \<Rightarrow> string \<Rightarrow> alias_table \<Rightarrow> alias_table" where
  "alias_set scope from to t = hm_insert (scope, from) to t"

definition alias_remove :: "string \<Rightarrow> string \<Rightarrow> alias_table \<Rightarrow> alias_table" where
  "alias_remove scope from t = hm_remove (scope, from) t"

definition alias_list :: "string \<Rightarrow> alias_table \<Rightarrow> (string \<times> string) list" where
  "alias_list scope t = map (\<lambda>((_, from), to). (from, to)) (filter (\<lambda>((s, _), _). s = scope) t)"

text \<open>\<^verbatim>\<open>max_by_key\<close> on the length: the last of the longest.\<close>

fun longest :: "(string \<times> string) option \<Rightarrow> (string \<times> string) list \<Rightarrow> (string \<times> string) option" where
  "longest best [] = best"
| "longest None (a # as) = longest (Some a) as"
| "longest (Some b) (a # as) = longest (Some (if length (fst b) \<le> length (fst a) then a else b)) as"

definition alias_covers :: "string \<Rightarrow> string \<Rightarrow> bool" where
  "alias_covers from path \<longleftrightarrow> path = from \<or> take (Suc (length from)) path = from @ [SLASH]"

definition resolve_prefix :: "string \<Rightarrow> alias_table \<Rightarrow> string \<Rightarrow> string option" where
  "resolve_prefix scope t path =
     map_option (\<lambda>(from, to). to @ drop (length from) path)
       (longest None (filter (\<lambda>(from, _). alias_covers from path) (alias_list scope t)))"

abbreviation MAX_ALIAS_HOPS :: nat where "MAX_ALIAS_HOPS \<equiv> 8"

fun follow_aliases :: "nat \<Rightarrow> (string \<Rightarrow> string option) \<Rightarrow> string \<Rightarrow> string" where
  "follow_aliases 0 resolve path = path"
| "follow_aliases (Suc n) resolve path = (case resolve path of
      Some p \<Rightarrow> if p \<noteq> path then follow_aliases n resolve p else path
    | None \<Rightarrow> path)"

text \<open>A router: its mounts, and the scope of its aliases if it has a table.\<close>

record 'f vfs =
  vf_mounts :: "'f mounts"
  vf_scope :: "string option"

definition vfs_alias :: "'f vfs \<Rightarrow> string \<Rightarrow> string \<Rightarrow> alias_table \<Rightarrow> error + alias_table" where
  "vfs_alias v from to t = (case vf_scope v of
      None \<Rightarrow> Inl (err_msg ''ce VFS n'a pas de table d'alias'')
    | Some scope \<Rightarrow> Inr (alias_set scope from to t))"

definition resolve_aliases :: "'f vfs \<Rightarrow> alias_table \<Rightarrow> string \<Rightarrow> string" where
  "resolve_aliases v t path = (case vf_scope v of
      None \<Rightarrow> path
    | Some scope \<Rightarrow> follow_aliases MAX_ALIAS_HOPS (resolve_prefix scope t) path)"

definition vfs_resolve :: "'f vfs \<Rightarrow> alias_table \<Rightarrow> string \<Rightarrow> error + 'f \<times> string" where
  "vfs_resolve v t path = (let p = resolve_aliases v t path in
     case resolve_mount (vf_mounts v) p of
       Some r \<Rightarrow> Inr r
     | None \<Rightarrow> Inl (err_msg (''aucun montage ne couvre '' @ p)))"

text \<open>The router is a file system: each operation is that of the mount, on the rest of the path.\<close>

definition vfs_file_system :: "('s, 'd) file_system vfs \<Rightarrow> alias_table \<Rightarrow> ('s, 'd) file_system" where
  "vfs_file_system v t = \<lparr>
     fs_mkdir = (\<lambda>path. bind (of_sum (vfs_resolve v t path)) (\<lambda>(fs, sub). fs_mkdir fs sub)),
     fs_ls = (\<lambda>path. bind (of_sum (vfs_resolve v t path)) (\<lambda>(fs, sub). fs_ls fs sub)),
     fs_open = (\<lambda>path opts. bind (of_sum (vfs_resolve v t path)) (\<lambda>(fs, sub). fs_open fs sub opts)),
     fs_remove = (\<lambda>path. bind (of_sum (vfs_resolve v t path)) (\<lambda>(fs, sub). fs_remove fs sub))\<rparr>"

section \<open>Inodes\<close>

datatype inode_kind = Dir | File

record inode =
  in_id :: nat
  in_kind :: inode_kind
  in_object_key :: "string option"
  in_size :: nat

record inode_row =
  ir_id :: nat
  ir_parent :: "nat option"
  ir_name :: string
  ir_kind :: int
  ir_key :: "string option"
  ir_size :: nat

text \<open>The table with the sequence of its identifiers, and the generator of object keys.\<close>

record inode_state =
  is_rows :: "inode_row list"
  is_next :: nat
  is_ids :: "nat id_generator"

type_synonym 'a inode_prog = "(inode_state, error, 'a) prog"

definition row_to_inode :: "inode_row \<Rightarrow> inode" where
  "row_to_inode r = \<lparr>in_id = ir_id r, in_kind = (if ir_kind r = 1 then File else Dir),
     in_object_key = ir_key r, in_size = ir_size r\<rparr>"

definition row_not_found :: error where
  "row_not_found = err_from (Std_Error ''no rows returned by a query that expected to return at least one row'' None)"

definition no_parent_row :: error where
  "no_parent_row = err_from (Std_Error ''insert or update violates foreign key constraint'' None)"

definition find_child :: "inode_row list \<Rightarrow> nat \<Rightarrow> string \<Rightarrow> inode_row option" where
  "find_child rows parent name = List.find (\<lambda>r. ir_parent r = Some parent \<and> ir_name r = name) rows"

definition find_row :: "inode_row list \<Rightarrow> nat \<Rightarrow> inode_row option" where
  "find_row rows i = List.find (\<lambda>r. ir_id r = i) rows"

definition insert_row :: "nat option \<Rightarrow> string \<Rightarrow> int \<Rightarrow> string option \<Rightarrow> inode_row inode_prog" where
  "insert_row parent name kind key = (\<lambda>s.
     if (case parent of Some p \<Rightarrow> find_row (is_rows s) p = None | None \<Rightarrow> False)
     then (Err no_parent_row, s\<lparr>is_next := Suc (is_next s)\<rparr>)
     else let r = \<lparr>ir_id = is_next s, ir_parent = parent, ir_name = name, ir_kind = kind, ir_key = key, ir_size = 0\<rparr>
          in (Ok r, s\<lparr>is_rows := is_rows s @ [r], is_next := Suc (is_next s)\<rparr>))"

definition ensure_child_dir :: "nat \<Rightarrow> string \<Rightarrow> nat inode_prog" where
  "ensure_child_dir parent name = (\<lambda>s. case find_child (is_rows s) parent name of
      Some r \<Rightarrow> (Ok (ir_id r), s\<lparr>is_next := Suc (is_next s)\<rparr>)
    | None \<Rightarrow> bind (insert_row (Some parent) name 0 None) (\<lambda>r. ret (ir_id r)) s)"

fun ensure_path :: "nat \<Rightarrow> string list \<Rightarrow> nat inode_prog" where
  "ensure_path root [] = ret root"
| "ensure_path root (seg # segs) = bind (ensure_child_dir root seg) (\<lambda>i. ensure_path i segs)"

definition ensure_global_root :: "nat inode_prog" where
  "ensure_global_root = (\<lambda>s. case List.find (\<lambda>r. ir_parent r = None) (is_rows s) of
      Some r \<Rightarrow> (Ok (ir_id r), s)
    | None \<Rightarrow> bind (insert_row None [] 0 None) (\<lambda>r. ret (ir_id r)) s)"

definition for_workspace :: "string \<Rightarrow> nat inode_prog" where
  "for_workspace w = bind ensure_global_root (\<lambda>g. ensure_path g [''workspaces'', w])"

definition for_session :: "string \<Rightarrow> string \<Rightarrow> nat inode_prog" where
  "for_session w sid = bind ensure_global_root (\<lambda>g. ensure_path g [''workspaces'', w, ''sessions'', sid])"

fun walk_from :: "inode_row list \<Rightarrow> nat \<Rightarrow> string list \<Rightarrow> nat option" where
  "walk_from rows current [] = Some current"
| "walk_from rows current (seg # segs) = (case find_child rows current seg of
      None \<Rightarrow> None
    | Some r \<Rightarrow> walk_from rows (ir_id r) segs)"

definition walk :: "nat \<Rightarrow> string \<Rightarrow> nat option inode_prog" where
  "walk root path = gets (\<lambda>s. walk_from (is_rows s) root (split_path path))"

definition load :: "nat \<Rightarrow> inode inode_prog" where
  "load i = (\<lambda>s. case find_row (is_rows s) i of
      Some r \<Rightarrow> (Ok (row_to_inode r), s)
    | None \<Rightarrow> (Err row_not_found, s))"

definition resolve_parent :: "nat \<Rightarrow> string \<Rightarrow> (nat \<times> string) inode_prog" where
  "resolve_parent root path = (let segs = split_path path in
     if segs = [] then throw (err_msg ''chemin vide : la racine du scope existe deja'')
     else bind (ensure_path root (butlast segs)) (\<lambda>i. ret (i, last segs)))"

definition inode_resolve :: "nat \<Rightarrow> string \<Rightarrow> inode option inode_prog" where
  "inode_resolve root path = bind (walk root path) (\<lambda>found. case found of
      Some i \<Rightarrow> bind (load i) (\<lambda>x. ret (Some x))
    | None \<Rightarrow> ret None)"

definition inode_children :: "nat \<Rightarrow> string \<Rightarrow> (string \<times> inode) list inode_prog" where
  "inode_children root path = bind (walk root path) (\<lambda>found. case found of
      None \<Rightarrow> throw (err_msg (''dossier introuvable : '' @ path))
    | Some i \<Rightarrow> gets (\<lambda>s. map (\<lambda>r. (ir_name r, row_to_inode r)) (filter (\<lambda>r. ir_parent r = Some i) (is_rows s))))"

definition inode_mkdir :: "nat \<Rightarrow> string \<Rightarrow> inode inode_prog" where
  "inode_mkdir root path = bind (resolve_parent root path) (\<lambda>(parent, leaf).
     bind (ensure_child_dir parent leaf) load)"

text \<open>\<^verbatim>\<open>ON CONFLICT ... DO UPDATE\<close>: an existing row keeps its identifier and becomes an empty file.\<close>

definition upsert_file :: "nat \<Rightarrow> string \<Rightarrow> string \<Rightarrow> inode_row inode_prog" where
  "upsert_file parent name key = (\<lambda>s. case find_child (is_rows s) parent name of
      None \<Rightarrow> insert_row (Some parent) name 1 (Some key) s
    | Some r \<Rightarrow> let r' = r\<lparr>ir_kind := 1, ir_key := Some key, ir_size := 0\<rparr> in
        (Ok r', s\<lparr>is_rows := map (\<lambda>x. if ir_id x = ir_id r then r' else x) (is_rows s), is_next := Suc (is_next s)\<rparr>))"

definition inode_create_file :: "(nat \<Rightarrow> u64) \<Rightarrow> nat \<Rightarrow> string \<Rightarrow> inode inode_prog" where
  "inode_create_file draw root path = bind (resolve_parent root path) (\<lambda>(parent, leaf) s.
     let (i, g) = draw_id draw (is_ids s) in
     bind (upsert_file parent leaf (''fs/'' @ id_display i)) (\<lambda>r. ret (row_to_inode r)) (s\<lparr>is_ids := g\<rparr>))"

text \<open>
  The recursive query: the rows with these identifiers, then their children, level by level. The rows
  already listed are set aside, which changes nothing in a forest.
\<close>

function subtree :: "inode_row list \<Rightarrow> nat set \<Rightarrow> inode_row list" where
  "subtree rows ids =
     (let level = filter (\<lambda>r. ir_id r \<in> ids) rows; rest = filter (\<lambda>r. ir_id r \<notin> ids) rows in
      if level = [] then []
      else level @ subtree rest (ir_id ` {r \<in> set rest. \<exists>q \<in> set level. ir_parent r = Some (ir_id q)}))"
  by pat_completeness auto
termination
proof (relation "measure (\<lambda>(rows, ids). length rows)", goal_cases)
  case (2 rows ids level rest)
  then have "filter (\<lambda>r. ir_id r \<in> ids) rows \<noteq> []" by simp
  then obtain r where "r \<in> set rows" "ir_id r \<in> ids" by (auto simp: filter_empty_conv)
  then have "length (filter (\<lambda>r. ir_id r \<notin> ids) rows) < length rows"
    using length_filter_less [of r rows "\<lambda>r. ir_id r \<notin> ids"] by simp
  with 2 show ?case by simp
qed simp

declare subtree.simps [simp del]

definition inode_remove :: "nat \<Rightarrow> string \<Rightarrow> string list inode_prog" where
  "inode_remove root path = bind (walk root path) (\<lambda>found. case found of
      None \<Rightarrow> ret []
    | Some i \<Rightarrow> (\<lambda>s. let below = subtree (is_rows s) {i} in
        (Ok (List.map_filter ir_key (filter (\<lambda>r. ir_kind r = 1) below)),
         s\<lparr>is_rows := filter (\<lambda>r. r \<notin> set below) (is_rows s)\<rparr>)))"

section \<open>Files\<close>

text \<open>What an opened file is: a writer to an object, or a reader of one.\<close>

datatype object_descriptor = ReadObject string "u8 list" | WriteObject string

record file_state =
  fl_inodes :: inode_state
  fl_objects :: "(string, u8 list) hash_map"

definition in_inodes :: "'a inode_prog \<Rightarrow> (file_state, error, 'a) prog" where
  "in_inodes m = (\<lambda>s. case m (fl_inodes s) of (r, i) \<Rightarrow> (r, s\<lparr>fl_inodes := i\<rparr>))"

definition object_not_found :: "string \<Rightarrow> error" where
  "object_not_found key = err_from (Std_Error (''Object at location '' @ key @ '' not found'') None)"

definition object_open ::
  "(nat \<Rightarrow> u64) \<Rightarrow> nat \<Rightarrow> string \<Rightarrow> open_options \<Rightarrow> (file_state, error, object_descriptor) prog" where
  "object_open draw root path opts = bind (in_inodes (inode_resolve root path)) (\<lambda>existing.
     bind (case existing of
         Some x \<Rightarrow> if in_kind x = File then ret x else throw (err_msg (path @ '' est un dossier''))
       | None \<Rightarrow> if oo_create opts \<or> oo_create_new opts then in_inodes (inode_create_file draw root path)
           else throw (err_msg (''fichier introuvable : '' @ path)))
     (\<lambda>x. case in_object_key x of
        None \<Rightarrow> panic ''un inode de kind File porte toujours un object_key''
      | Some key \<Rightarrow>
          if oo_write opts \<or> oo_append opts \<or> oo_truncate opts then ret (WriteObject key)
          else (\<lambda>s. case hm_get (fl_objects s) key of
              Some bytes \<Rightarrow> (Ok (ReadObject key bytes), s)
            | None \<Rightarrow> (Err (object_not_found key), s))))"

text \<open>Shutting a writer down puts what was written under the key of the object.\<close>

definition object_put :: "string \<Rightarrow> u8 list \<Rightarrow> (file_state, error, unit) prog" where
  "object_put key bytes = modify (\<lambda>s. s\<lparr>fl_objects := hm_insert key bytes (fl_objects s)\<rparr>)"

fun object_delete_all :: "string list \<Rightarrow> (file_state, error, unit) prog" where
  "object_delete_all [] = ret ()"
| "object_delete_all (k # ks) = seq (modify (\<lambda>s. s\<lparr>fl_objects := hm_remove k (fl_objects s)\<rparr>)) (object_delete_all ks)"

definition object_file_system :: "(nat \<Rightarrow> u64) \<Rightarrow> nat \<Rightarrow> (file_state, object_descriptor) file_system" where
  "object_file_system draw root = \<lparr>
     fs_mkdir = (\<lambda>path. bind (in_inodes (inode_mkdir root path)) (\<lambda>_. ret ())),
     fs_ls = (\<lambda>path. bind (in_inodes (inode_children root path)) (\<lambda>cs. ret (map fst cs))),
     fs_open = object_open draw root,
     fs_remove = (\<lambda>path. bind (in_inodes (inode_remove root path)) object_delete_all)\<rparr>"

definition delete_session_files :: "string \<Rightarrow> string \<Rightarrow> (file_state, error, unit) prog" where
  "delete_session_files w sid = bind (in_inodes (for_session w sid)) (\<lambda>root.
     bind (in_inodes (inode_remove root [SLASH])) object_delete_all)"

section \<open>Longest prefixes\<close>

text \<open>
  Mounts and aliases share a contract: of the entries whose path covers a given path, up to the end of
  a segment, the longest one is used.
\<close>

locale longest_prefix =
  fixes entries :: "'t \<Rightarrow> (string \<times> 'v) list"
    and pick :: "'t \<Rightarrow> string \<Rightarrow> (string \<times> 'v) option"
    and valid :: "'t \<Rightarrow> bool"
  assumes pick_iff: "valid t \<Longrightarrow> pick t path = Some (p, v) \<longleftrightarrow> (p, v) \<in> set (entries t) \<and> alias_covers p path \<and>
    (\<forall>q w. (q, w) \<in> set (entries t) \<longrightarrow> alias_covers q path \<longrightarrow> length q \<le> length p)"
begin

text \<open>An entry that does not cover the path changes nothing.\<close>

lemma pick_other:
  assumes "valid t" and "valid t'" and "\<not> alias_covers q path"
    and "\<And>p v. p \<noteq> q \<Longrightarrow> (p, v) \<in> set (entries t') \<longleftrightarrow> (p, v) \<in> set (entries t)"
  shows "pick t' path = pick t path"
proof -
  have "pick t' path = Some (p, v) \<longleftrightarrow> pick t path = Some (p, v)" for p v
  proof -
    have "(p', v') \<in> set (entries t') \<longleftrightarrow> (p', v') \<in> set (entries t)" if "alias_covers p' path" for p' v'
      using assms(3,4) that by metis
    then show ?thesis unfolding pick_iff [OF assms(1)] pick_iff [OF assms(2)] by blast
  qed
  then show ?thesis by (cases "pick t path"; cases "pick t' path") auto
qed

text \<open>An entry that covers the path and is at least as long as the others takes over.\<close>

lemma pick_new:
  assumes "valid t'" and "alias_covers q path" and "(q, w) \<in> set (entries t')"
    and "\<And>p v. (p, v) \<in> set (entries t') \<Longrightarrow> alias_covers p path \<Longrightarrow> length p \<le> length q"
  shows "pick t' path = Some (q, w)"
  unfolding pick_iff [OF assms(1)] using assms by auto

end

lemma covers_eq: "alias_covers p path \<longleftrightarrow> (\<exists>rest. path = p @ rest \<and> (rest = [] \<or> hd rest = SLASH))"
proof
  assume "alias_covers p path"
  then consider "path = p" | "take (Suc (length p)) path = p @ [SLASH]" unfolding alias_covers_def by blast
  then show "\<exists>rest. path = p @ rest \<and> (rest = [] \<or> hd rest = SLASH)"
  proof cases
    case 2
    then have "path = p @ SLASH # drop (Suc (length p)) path" using append_take_drop_id [of "Suc (length p)" path] by simp
    then show ?thesis by (metis list.sel(1))
  qed simp
next
  assume "\<exists>rest. path = p @ rest \<and> (rest = [] \<or> hd rest = SLASH)"
  then obtain rest where "path = p @ rest" "rest = [] \<or> hd rest = SLASH" by blast
  then show "alias_covers p path" by (cases rest) (auto simp: alias_covers_def)
qed

lemma covers_same_length: "alias_covers p path \<Longrightarrow> alias_covers q path \<Longrightarrow> length p = length q \<Longrightarrow> p = q"
  by (auto simp: covers_eq)

lemma strip_prefix_Some: "strip_prefix_of p path = Some rest \<longleftrightarrow> path = p @ rest"
  by (auto simp: strip_prefix_of_def) (metis append_take_drop_id)

lemma strip_prefix_covers:
  "alias_covers p path \<longleftrightarrow> (\<exists>rest. strip_prefix_of p path = Some rest \<and> (rest = [] \<or> hd rest = SLASH))"
  by (simp add: covers_eq strip_prefix_Some)

text \<open>The first mount that covers the path.\<close>

definition pick_mount :: "'f mounts \<Rightarrow> string \<Rightarrow> (string \<times> 'f) option" where
  "pick_mount ms path = List.find (\<lambda>m. alias_covers (fst m) path) ms"

definition rest_of :: "string \<Rightarrow> string \<Rightarrow> string" where
  "rest_of p path = (if path = p then [SLASH] else drop (length p) path)"

lemma resolve_mount_pick:
  "resolve_mount ms path = map_option (\<lambda>(p, f). (f, rest_of p path)) (pick_mount ms path)"
proof (induction ms path rule: resolve_mount.induct)
  case (2 p f ms path)
  show ?case
  proof (cases "alias_covers p path")
    case True
    then obtain rest where "strip_prefix_of p path = Some rest" "path = p @ rest" "rest = [] \<or> hd rest = SLASH"
      unfolding strip_prefix_covers by (auto simp: strip_prefix_Some)
    with True show ?thesis by (auto simp: pick_mount_def rest_of_def)
  next
    case False
    then have "resolve_mount ((p, f) # ms) path = resolve_mount ms path"
      unfolding strip_prefix_covers by (auto split: option.split)
    with False 2 show ?thesis by (cases "strip_prefix_of p path") (auto simp: pick_mount_def strip_prefix_covers)
  qed
qed (simp add: pick_mount_def)

definition mounts_wf :: "'f mounts \<Rightarrow> bool" where
  "mounts_wf ms \<longleftrightarrow> distinct (map fst ms) \<and> sorted_wrt (\<lambda>m n. length (fst n) \<le> length (fst m)) ms"

interpretation mounted: longest_prefix "\<lambda>ms. ms" pick_mount mounts_wf
proof
  fix ms :: "'f mounts" and path p v
  assume wf: "mounts_wf ms"
  show "pick_mount ms path = Some (p, v) \<longleftrightarrow> (p, v) \<in> set ms \<and> alias_covers p path \<and>
    (\<forall>q w. (q, w) \<in> set ms \<longrightarrow> alias_covers q path \<longrightarrow> length q \<le> length p)"
    using wf
  proof (induction ms)
    case (Cons m ms)
    obtain q w where m: "m = (q, w)" by fastforce
    from Cons.prems have ms: "mounts_wf ms" "q \<notin> fst ` set ms" "\<And>n. n \<in> set ms \<Longrightarrow> length (fst n) \<le> length q"
      by (auto simp: mounts_wf_def m)
    show ?case
    proof (cases "alias_covers q path")
      case True
      have one: "p = q \<and> v = w" if "(p, v) \<in> set (m # ms)" "alias_covers p path" "length q \<le> length p"
      proof (cases "(p, v) = (q, w)")
        case False
        then have in_ms: "(p, v) \<in> set ms" using that(1) by (auto simp: m)
        then have "length p = length q" using ms(3) [of "(p, v)"] that(3) by simp
        then have "p = q" using covers_same_length [OF that(2) True] by simp
        moreover have "p \<in> fst ` set ms" using in_ms by (metis fst_conv imageI)
        ultimately show ?thesis using ms(2) by simp
      qed simp
      have len: "length q' \<le> length q" if "(q', w') \<in> set (m # ms)" for q' w'
        using that ms(3) [of "(q', w')"] by (auto simp: m)
      have "pick_mount (m # ms) path = Some (p, v) \<longleftrightarrow> p = q \<and> v = w" using True by (auto simp: pick_mount_def m)
      moreover have "(q, w) \<in> set (m # ms)" by (simp add: m)
      ultimately show ?thesis using True one len by blast
    next
      case False
      then show ?thesis using Cons.IH [OF ms(1)] by (auto simp: pick_mount_def m)
    qed
  qed (simp add: pick_mount_def)
qed

lemma mounts_wf_mount: "mounts_wf ms \<Longrightarrow> mounts_wf (mount p f ms)"
proof -
  assume "mounts_wf ms"
  then have "distinct (map fst (filter (\<lambda>m. fst m \<noteq> p) ms @ [(p, f)]))"
    by (auto simp: mounts_wf_def distinct_map intro: inj_on_subset)
  then have "distinct (map fst (mount p f ms))"
    unfolding mount_def by (simp add: distinct_map)
  moreover have "sorted (map (\<lambda>m. - int (length (fst m))) (mount p f ms))" by (simp add: mount_def)
  then have "sorted_wrt (\<lambda>m n. length (fst n) \<le> length (fst m)) (mount p f ms)"
    by (simp add: sorted_wrt_map)
  ultimately show ?thesis by (simp add: mounts_wf_def)
qed

lemma set_mount: "set (mount p f ms) = insert (p, f) {m \<in> set ms. fst m \<noteq> p}"
  by (auto simp: mount_def)

text \<open>What was mounted, in order.\<close>

definition mounts_of :: "(string \<times> 'f) list \<Rightarrow> 'f mounts" where
  "mounts_of ms = fold (\<lambda>(p, f). mount p f) ms []"

lemma mounts_of_wf: "mounts_wf (mounts_of ms) \<and> (\<forall>p f. (p, f) \<in> set (mounts_of ms) \<longleftrightarrow> map_of (rev ms) p = Some f)"
proof (induction ms rule: rev_induct)
  case Nil
  then show ?case by (simp add: mounts_of_def mounts_wf_def)
next
  case (snoc m ms)
  obtain p f where "m = (p, f)" by fastforce
  with snoc show ?case by (auto simp: mounts_of_def set_mount mounts_wf_mount)
qed

lemma longest_is_max:
  "longest b as = Some x \<Longrightarrow>
     x \<in> set_option b \<union> set as \<and> (\<forall>y \<in> set_option b \<union> set as. length (fst y) \<le> length (fst x))"
proof (induction b as rule: longest.induct)
  case (3 b a as)
  let ?c = "if length (fst b) \<le> length (fst a) then a else b"
  have x: "x \<in> insert ?c (set as)" and le: "\<And>y. y \<in> insert ?c (set as) \<Longrightarrow> length (fst y) \<le> length (fst x)"
    using 3 by auto
  have "length (fst a) \<le> length (fst ?c)" "length (fst b) \<le> length (fst ?c)" "?c \<in> {a, b}" by auto
  moreover have "length (fst ?c) \<le> length (fst x)" using le by blast
  ultimately have "length (fst a) \<le> length (fst x)" "length (fst b) \<le> length (fst x)" "x \<in> insert a (insert b (set as))"
    using x by (linarith, linarith, auto)
  then show ?case using le by auto
qed auto

lemma longest_None: "longest b as = None \<longleftrightarrow> b = None \<and> as = []"
  by (induction b as rule: longest.induct) auto

definition pick_alias :: "string \<times> alias_table \<Rightarrow> string \<Rightarrow> (string \<times> string) option" where
  "pick_alias st path = longest None (filter (\<lambda>(from, _). alias_covers from path) (alias_list (fst st) (snd st)))"

lemma alias_list_iff: "hm_wf t \<Longrightarrow> (from, to) \<in> set (alias_list scope t) \<longleftrightarrow> hm_get t (scope, from) = Some to"
  by (force simp: alias_list_def hm_get_in_set)

interpretation aliased: longest_prefix "\<lambda>(scope, t). alias_list scope t" pick_alias "\<lambda>(scope, t). hm_wf t"
proof
  fix st :: "string \<times> alias_table" and path p v
  assume "case st of (scope, t) \<Rightarrow> hm_wf t"
  then obtain scope t where st: "st = (scope, t)" and wf: "hm_wf t" by (cases st) simp
  let ?as = "filter (\<lambda>(from, _). alias_covers from path) (alias_list scope t)"
  have pick: "pick_alias st path = longest None ?as" by (simp add: pick_alias_def st)
  have "pick_alias st path = Some (p, v) \<longleftrightarrow> (p, v) \<in> set ?as \<and> (\<forall>q w. (q, w) \<in> set ?as \<longrightarrow> length q \<le> length p)"
  proof
    assume "pick_alias st path = Some (p, v)"
    then show "(p, v) \<in> set ?as \<and> (\<forall>q w. (q, w) \<in> set ?as \<longrightarrow> length q \<le> length p)"
      using longest_is_max [of None ?as "(p, v)"] by (fastforce simp: pick)
  next
    assume max: "(p, v) \<in> set ?as \<and> (\<forall>q w. (q, w) \<in> set ?as \<longrightarrow> length q \<le> length p)"
    then have "?as \<noteq> []" by (metis empty_iff empty_set)
    then obtain q w where qw: "longest None ?as = Some (q, w)"
      using longest_None [of None ?as] by (cases "longest None ?as") (auto simp del: filter_empty_conv)
    then have "(q, w) \<in> set ?as" "length p \<le> length q" using longest_is_max [OF qw] max by auto
    moreover from this max have "q = p" using covers_same_length [of q path p] by fastforce
    ultimately have "w = v" using max wf by (auto simp: alias_list_iff)
    with qw \<open>q = p\<close> show "pick_alias st path = Some (p, v)" by (simp add: pick)
  qed
  then show "pick_alias st path = Some (p, v) \<longleftrightarrow> (p, v) \<in> set (case st of (scope, t) \<Rightarrow> alias_list scope t) \<and>
    alias_covers p path \<and> (\<forall>q w. (q, w) \<in> set (case st of (scope, t) \<Rightarrow> alias_list scope t) \<longrightarrow>
      alias_covers q path \<longrightarrow> length q \<le> length p)"
    by (auto simp: st)
qed

lemma resolve_prefix_pick:
  "resolve_prefix scope t path = map_option (\<lambda>(from, to). to @ drop (length from) path) (pick_alias (scope, t) path)"
  by (simp add: resolve_prefix_def pick_alias_def)

text \<open>Setting an alias for a path it does not cover leaves the path as it was.\<close>

lemma alias_set_other:
  assumes "hm_wf t" and "\<not> alias_covers from path"
  shows "resolve_prefix scope (alias_set scope from to t) path = resolve_prefix scope t path"
proof -
  have "pick_alias (scope, alias_set scope from to t) path = pick_alias (scope, t) path"
    by (rule aliased.pick_other [of _ _ "from"]) (use assms in \<open>auto simp: alias_set_def alias_list_iff\<close>)
  then show ?thesis by (simp add: resolve_prefix_pick)
qed

text \<open>Two aliases that stand for each other: the hops run out where they started.\<close>

lemma alias_cycle:
  assumes "resolve a = Some b" and "resolve b = Some a" and "a \<noteq> b"
  shows "follow_aliases MAX_ALIAS_HOPS resolve a = a"
  using assms by (simp add: eval_nat_numeral)

text \<open>A mount on the root covers the root only.\<close>

lemma root_mount_covers_root: "resolve_mount (mount [SLASH] f []) (SLASH # c # path) = (if c = SLASH then Some (f, c # path) else None)"
  by (simp add: mount_def strip_prefix_of_def)

section \<open>The tree of inodes\<close>

text \<open>A row is under an identifier when it has it or its parent is under it.\<close>

inductive under :: "inode_row list \<Rightarrow> nat \<Rightarrow> inode_row \<Rightarrow> bool" for rows i where
  under_self: "r \<in> set rows \<Longrightarrow> ir_id r = i \<Longrightarrow> under rows i r"
| under_child: "under rows i q \<Longrightarrow> r \<in> set rows \<Longrightarrow> ir_parent r = Some (ir_id q) \<Longrightarrow> under rows i r"

lemma under_row: "under rows i r \<Longrightarrow> r \<in> set rows"
  by (induction rule: under.induct) auto

lemma under_mono: "under rest i r \<Longrightarrow> set rest \<subseteq> set rows \<Longrightarrow> under rows i r"
  by (induction rule: under.induct) (auto intro: under.intros)

lemma under_trans: "under rows j r \<Longrightarrow> under rows i q \<Longrightarrow> ir_id q = j \<Longrightarrow> distinct (map ir_id rows) \<Longrightarrow> under rows i r"
proof (induction rule: under.induct)
  case (under_self r)
  then have "r = q" using under_row [of rows i q] by (metis distinct_map inj_on_eq_iff)
  with under_self show ?case by simp
next
  case (under_child q' r)
  then show ?case by (auto intro: under.under_child)
qed

lemma subtree_under:
  "distinct (map ir_id rows) \<Longrightarrow> r \<in> set (subtree rows ids) \<longleftrightarrow> (\<exists>i \<in> ids. under rows i r)"
proof (induction rows ids arbitrary: r rule: subtree.induct)
  case (1 rows ids)
  let ?level = "filter (\<lambda>r. ir_id r \<in> ids) rows" and ?rest = "filter (\<lambda>r. ir_id r \<notin> ids) rows"
  let ?kids = "ir_id ` {r \<in> set ?rest. \<exists>q \<in> set ?level. ir_parent r = Some (ir_id q)}"
  have split: "r \<in> set ?level \<or> (\<exists>j \<in> ?kids. under ?rest j r)" if "under rows i r" "i \<in> ids" for i r
    using that
  proof (induction rule: under.induct)
    case (under_child q r)
    show ?case
    proof (cases "ir_id r \<in> ids")
      case False
      then have rest: "r \<in> set ?rest" using under_child.hyps(2) by simp
      from under_child.IH under_child.prems consider "q \<in> set ?level" | j where "j \<in> ?kids" "under ?rest j q" by blast
      then show ?thesis
      proof cases
        case 1
        with rest under_child.hyps(3) have "ir_id r \<in> ?kids" by blast
        moreover have "under ?rest (ir_id r) r" using rest by (rule under.under_self) simp
        ultimately show ?thesis by blast
      next
        case 2
        with rest under_child.hyps(3) show ?thesis by (meson under.under_child)
      qed
    qed (use under_child in simp)
  qed simp
  have upward: "\<exists>i \<in> ids. under rows i r" if "j \<in> ?kids" "under ?rest j r" for j r
    using that(2)
  proof (induction rule: under.induct)
    case (under_self r)
    with that(1) obtain r' q where q: "r' \<in> set ?rest" "ir_id r' = j" "q \<in> set ?level" "ir_parent r' = Some (ir_id q)" by auto
    then have "r' = r" using under_self 1(2) by (auto simp: distinct_map dest: inj_onD)
    moreover have "under rows (ir_id q) q" using q(3) by (auto intro: under.under_self)
    ultimately have "under rows (ir_id q) r" using q(4) under_self.hyps(1) by (auto intro: under.under_child)
    then show ?case using q(3) by auto
  next
    case (under_child q r)
    then show ?case by (auto intro: under.under_child)
  qed
  have dist: "distinct (map ir_id ?rest)" using 1(2) by (simp add: distinct_map_filter)
  show ?case
  proof (cases "?level = []")
    case True
    then have "\<not> under rows i r" if "i \<in> ids" for i using split [OF _ that] by fastforce
    then show ?thesis using True by (subst subtree.simps) simp
  next
    case False
    have IH: "r \<in> set (subtree ?rest ?kids) \<longleftrightarrow> (\<exists>j \<in> ?kids. under ?rest j r)"
      using 1(1) [OF refl refl False dist] .
    have "r \<in> set (subtree rows ids) \<longleftrightarrow> r \<in> set ?level \<or> r \<in> set (subtree ?rest ?kids)"
      using False by (subst subtree.simps) (simp add: Let_def del: filter_empty_conv)
    moreover have "\<exists>i \<in> ids. under rows i r" if "r \<in> set ?level"
      using that by (auto intro: under.under_self)
    ultimately show ?thesis using IH split upward by blast
  qed
qed

text \<open>
  The table is a forest: identifiers are unique and below the next one, a parent is an older row, a
  name occurs once in a directory, and a file has an object.
\<close>

definition rows_wf :: "inode_row list \<Rightarrow> bool" where
  "rows_wf rows \<longleftrightarrow> distinct (map ir_id rows) \<and>
     (\<forall>r \<in> set rows. \<forall>p. ir_parent r = Some p \<longrightarrow> p < ir_id r \<and> p \<in> ir_id ` set rows) \<and>
     (\<forall>r \<in> set rows. \<forall>q \<in> set rows. ir_parent r = ir_parent q \<longrightarrow> ir_name r = ir_name q \<longrightarrow> r = q) \<and>
     (\<forall>r \<in> set rows. ir_kind r = 1 \<longrightarrow> ir_key r \<noteq> None)"

definition inode_wf :: "inode_state \<Rightarrow> bool" where
  "inode_wf s \<longleftrightarrow> rows_wf (is_rows s) \<and> (\<forall>r \<in> set (is_rows s). ir_id r < is_next s)"

lemma rows_wf_id: "rows_wf rows \<Longrightarrow> r \<in> set rows \<Longrightarrow> q \<in> set rows \<Longrightarrow> ir_id r = ir_id q \<Longrightarrow> r = q"
  by (auto simp: rows_wf_def distinct_map dest: inj_onD)

lemma rows_wf_name:
  "rows_wf rows \<Longrightarrow> r \<in> set rows \<Longrightarrow> q \<in> set rows \<Longrightarrow> ir_parent r = ir_parent q \<Longrightarrow> ir_name r = ir_name q \<Longrightarrow> r = q"
  unfolding rows_wf_def by blast

lemma find_child_iff:
  assumes "rows_wf rows"
  shows "find_child rows p n = Some r \<longleftrightarrow> r \<in> set rows \<and> ir_parent r = Some p \<and> ir_name r = n"
proof
  assume "r \<in> set rows \<and> ir_parent r = Some p \<and> ir_name r = n"
  then obtain q where q: "find_child rows p n = Some q"
    by (cases "find_child rows p n") (auto simp: find_child_def find_None_iff)
  then have "q \<in> set rows" "ir_parent q = Some p" "ir_name q = n" by (auto simp: find_child_def find_Some_iff)
  with \<open>r \<in> set rows \<and> ir_parent r = Some p \<and> ir_name r = n\<close> assms have "q = r" unfolding rows_wf_def by metis
  with q show "find_child rows p n = Some r" by simp
qed (auto simp: find_child_def find_Some_iff)

lemma find_child_None: "find_child rows p n = None \<longleftrightarrow> (\<forall>r \<in> set rows. ir_parent r = Some p \<longrightarrow> ir_name r \<noteq> n)"
  by (auto simp: find_child_def find_None_iff)

lemma find_row_iff: "rows_wf rows \<Longrightarrow> find_row rows i = Some r \<longleftrightarrow> r \<in> set rows \<and> ir_id r = i"
proof
  assume wf: "rows_wf rows" and r: "r \<in> set rows \<and> ir_id r = i"
  then obtain q where q: "find_row rows i = Some q"
    by (cases "find_row rows i") (auto simp: find_row_def find_None_iff)
  then have "q \<in> set rows" "ir_id q = i" by (auto simp: find_row_def find_Some_iff)
  with rows_wf_id [OF wf, of q r] r q show "find_row rows i = Some r" by simp
qed (auto simp: find_row_def find_Some_iff)

lemma find_row_None: "find_row rows i = None \<longleftrightarrow> i \<notin> ir_id ` set rows"
  by (auto simp: find_row_def find_None_iff)

lemma inode_wf_bump [simp]: "inode_wf s \<Longrightarrow> inode_wf (s\<lparr>is_next := Suc (is_next s)\<rparr>)"
  by (auto simp: inode_wf_def less_SucI)

lemma inode_wf_ids [simp]: "inode_wf (s\<lparr>is_ids := g\<rparr>) = inode_wf s"
  by (simp add: inode_wf_def)

lemma insert_row_ok:
  assumes "inode_wf s" and "case parent of Some p \<Rightarrow> p \<in> ir_id ` set (is_rows s) | None \<Rightarrow> True"
    and "\<forall>q \<in> set (is_rows s). ir_parent q = parent \<longrightarrow> ir_name q \<noteq> name" and "kind = 1 \<longrightarrow> key \<noteq> None"
  shows "\<exists>r s'. insert_row parent name kind key s = (Ok r, s') \<and> inode_wf s' \<and> is_rows s' = is_rows s @ [r] \<and>
    ir_id r \<notin> ir_id ` set (is_rows s) \<and> ir_parent r = parent \<and> ir_name r = name \<and> ir_kind r = kind \<and>
    ir_key r = key \<and> is_ids s' = is_ids s"
proof -
  let ?r = "\<lparr>ir_id = is_next s, ir_parent = parent, ir_name = name, ir_kind = kind, ir_key = key, ir_size = 0\<rparr>"
  let ?s = "s\<lparr>is_rows := is_rows s @ [?r], is_next := Suc (is_next s)\<rparr>"
  have fresh: "is_next s \<notin> ir_id ` set (is_rows s)" using assms(1) by (auto simp: inode_wf_def)
  have "rows_wf (is_rows s @ [?r])"
    using assms fresh unfolding inode_wf_def rows_wf_def by (auto split: option.splits)
  then have "inode_wf ?s" using assms(1) by (auto simp: inode_wf_def less_SucI)
  moreover have "insert_row parent name kind key s = (Ok ?r, ?s)"
    using assms(2) by (auto simp: insert_row_def Let_def find_row_None split: option.splits)
  ultimately show ?thesis using fresh by (intro exI [of _ ?r] exI [of _ ?s]) simp
qed

text \<open>Every row is still there, perhaps as another kind of node.\<close>

definition linked :: "inode_state \<Rightarrow> inode_state \<Rightarrow> bool" where
  "linked s s' \<longleftrightarrow> (\<forall>r \<in> set (is_rows s). \<exists>q \<in> set (is_rows s').
     ir_id q = ir_id r \<and> ir_parent q = ir_parent r \<and> ir_name q = ir_name r)"

lemma linked_subset: "set (is_rows s) \<subseteq> set (is_rows s') \<Longrightarrow> linked s s'"
  by (auto simp: linked_def)

lemma linked_trans: "linked s s' \<Longrightarrow> linked s' s'' \<Longrightarrow> linked s s''"
  unfolding linked_def by metis

lemma linked_ids: "linked s s' \<Longrightarrow> i \<in> ir_id ` set (is_rows s) \<Longrightarrow> i \<in> ir_id ` set (is_rows s')"
  by (auto simp: linked_def) (metis imageI)

lemma walk_linked:
  assumes "inode_wf s" "inode_wf s'" "linked s s'"
  shows "walk_from (is_rows s) i segs = Some j \<Longrightarrow> walk_from (is_rows s') i segs = Some j"
proof (induction segs arbitrary: i)
  case (Cons seg segs)
  then obtain r where r: "find_child (is_rows s) i seg = Some r" "walk_from (is_rows s) (ir_id r) segs = Some j"
    by (auto split: option.splits)
  then obtain q where "q \<in> set (is_rows s')" "ir_id q = ir_id r" "ir_parent q = Some i" "ir_name q = seg"
    using assms by (auto simp: linked_def inode_wf_def find_child_iff)
  then have "find_child (is_rows s') i seg = Some q" "ir_id q = ir_id r"
    using assms(2) by (auto simp: inode_wf_def find_child_iff)
  with Cons.IH [OF r(2)] show ?case by simp
qed simp

lemma walk_from_append:
  "walk_from rows i (xs @ ys) = (case walk_from rows i xs of Some j \<Rightarrow> walk_from rows j ys | None \<Rightarrow> None)"
  by (induction xs arbitrary: i) (auto split: option.split)

lemma ensure_child_dir_ok:
  assumes "inode_wf s" and "p \<in> ir_id ` set (is_rows s)"
  shows "\<exists>r s'. ensure_child_dir p n s = (Ok (ir_id r), s') \<and> inode_wf s' \<and> linked s s' \<and>
    find_child (is_rows s') p n = Some r \<and> is_ids s' = is_ids s \<and>
    (find_child (is_rows s) p n = None \<longrightarrow> ir_kind r = 0)"
proof (cases "find_child (is_rows s) p n")
  case (Some r)
  then show ?thesis
    using assms by (intro exI [of _ r]) (simp add: ensure_child_dir_def linked_subset)
next
  case None
  then have "\<forall>q \<in> set (is_rows s). ir_parent q = Some p \<longrightarrow> ir_name q \<noteq> n" by (simp add: find_child_None)
  from insert_row_ok [OF assms(1) _ this, of 0 None] assms(2) obtain r s'
    where r: "insert_row (Some p) n 0 None s = (Ok r, s')" "inode_wf s'" "is_rows s' = is_rows s @ [r]"
      "ir_parent r = Some p" "ir_name r = n" "ir_kind r = 0" "is_ids s' = is_ids s" by auto
  then have "find_child (is_rows s') p n = Some r" by (simp add: find_child_iff inode_wf_def)
  with r None show ?thesis by (intro exI [of _ r] exI [of _ s']) (auto simp: ensure_child_dir_def bind_def linked_def)
qed

lemma ensure_path_ok:
  assumes "inode_wf s" and "root \<in> ir_id ` set (is_rows s)"
  shows "\<exists>i s'. ensure_path root segs s = (Ok i, s') \<and> inode_wf s' \<and> linked s s' \<and>
    walk_from (is_rows s') root segs = Some i \<and> i \<in> ir_id ` set (is_rows s') \<and> is_ids s' = is_ids s"
  using assms
proof (induction segs arbitrary: root s)
  case Nil
  then show ?case by (simp add: linked_subset)
next
  case (Cons seg segs)
  from ensure_child_dir_ok [OF Cons.prems, of seg] obtain r s1
    where 1: "ensure_child_dir root seg s = (Ok (ir_id r), s1)" "inode_wf s1" "linked s s1"
      "find_child (is_rows s1) root seg = Some r" "is_ids s1 = is_ids s" by blast
  then have "ir_id r \<in> ir_id ` set (is_rows s1)" by (auto simp: inode_wf_def find_child_iff)
  from Cons.IH [OF 1(2) this] obtain i s2
    where 2: "ensure_path (ir_id r) segs s1 = (Ok i, s2)" "inode_wf s2" "linked s1 s2"
      "walk_from (is_rows s2) (ir_id r) segs = Some i" "i \<in> ir_id ` set (is_rows s2)" "is_ids s2 = is_ids s1" by blast
  have "walk_from (is_rows s1) root [seg] = Some (ir_id r)" using 1(4) by simp
  then have "walk_from (is_rows s2) root ([seg] @ segs) = Some i"
    using walk_linked [OF 1(2) 2(2,3)] 2(4) by (simp only: walk_from_append) simp
  with 1 2 show ?case by (auto simp: bind_def intro: linked_trans)
qed

lemma rows_wf_map:
  assumes "rows_wf rows"
    and "\<And>x. x \<in> set rows \<Longrightarrow> ir_id (f x) = ir_id x" "\<And>x. x \<in> set rows \<Longrightarrow> ir_parent (f x) = ir_parent x"
    and "\<And>x. x \<in> set rows \<Longrightarrow> ir_name (f x) = ir_name x"
    and "\<And>x. x \<in> set rows \<Longrightarrow> ir_kind (f x) = 1 \<Longrightarrow> ir_key (f x) \<noteq> None"
  shows "rows_wf (map f rows)"
proof -
  have ids: "map ir_id (map f rows) = map ir_id rows" using assms(2) by simp
  then have idset: "ir_id ` set (map f rows) = ir_id ` set rows" by (metis list.set_map)
  have parents: "p < ir_id (f x) \<and> p \<in> ir_id ` set rows" if "x \<in> set rows" "ir_parent (f x) = Some p" for x p
    using that assms(1) by (simp add: assms(2,3) rows_wf_def)
  have names: "f x = f y" if "x \<in> set rows" "y \<in> set rows" "ir_parent (f x) = ir_parent (f y)" "ir_name (f x) = ir_name (f y)" for x y
    using that rows_wf_name [OF assms(1), of x y] by (simp add: assms(3,4))
  have "distinct (map ir_id (map f rows))" using assms(1) unfolding ids rows_wf_def by blast
  moreover have "\<forall>r \<in> set (map f rows). \<forall>p. ir_parent r = Some p \<longrightarrow> p < ir_id r \<and> p \<in> ir_id ` set (map f rows)"
    unfolding idset using parents by simp
  moreover have "\<forall>r \<in> set (map f rows). \<forall>q \<in> set (map f rows).
      ir_parent r = ir_parent q \<longrightarrow> ir_name r = ir_name q \<longrightarrow> r = q" using names by simp
  moreover have "\<forall>r \<in> set (map f rows). ir_kind r = 1 \<longrightarrow> ir_key r \<noteq> None" using assms(5) by simp
  ultimately show ?thesis unfolding rows_wf_def by blast
qed

lemma upsert_file_ok:
  assumes "inode_wf s" and "p \<in> ir_id ` set (is_rows s)"
  shows "\<exists>r s'. upsert_file p n key s = (Ok r, s') \<and> inode_wf s' \<and> linked s s' \<and>
    find_child (is_rows s') p n = Some r \<and> ir_kind r = 1 \<and> ir_key r = Some key"
proof (cases "find_child (is_rows s) p n")
  case None
  then have "\<forall>q \<in> set (is_rows s). ir_parent q = Some p \<longrightarrow> ir_name q \<noteq> n" by (simp add: find_child_None)
  from insert_row_ok [OF assms(1) _ this, of 1 "Some key"] assms(2) obtain r s'
    where r: "insert_row (Some p) n 1 (Some key) s = (Ok r, s')" "inode_wf s'" "is_rows s' = is_rows s @ [r]"
      "ir_parent r = Some p" "ir_name r = n" "ir_kind r = 1" "ir_key r = Some key" by auto
  then have "find_child (is_rows s') p n = Some r" by (simp add: find_child_iff inode_wf_def)
  with r None show ?thesis by (intro exI [of _ r] exI [of _ s']) (auto simp: upsert_file_def linked_def)
next
  case (Some r)
  let ?r = "r\<lparr>ir_kind := 1, ir_key := Some key, ir_size := 0\<rparr>"
  define f where "f x = (if ir_id x = ir_id r then ?r else x)" for x
  let ?s = "s\<lparr>is_rows := map f (is_rows s), is_next := Suc (is_next s)\<rparr>"
  have wf: "rows_wf (is_rows s)" using assms(1) by (simp add: inode_wf_def)
  have r: "r \<in> set (is_rows s)" "ir_parent r = Some p" "ir_name r = n" using Some wf by (simp_all add: find_child_iff)
  have f: "ir_id (f x) = ir_id x" "ir_parent (f x) = ir_parent x" "ir_name (f x) = ir_name x" if "x \<in> set (is_rows s)" for x
    using rows_wf_id [OF wf that r(1)] by (auto simp: f_def)
  have "rows_wf (map f (is_rows s))"
    by (rule rows_wf_map [OF wf]) (use f wf in \<open>auto simp: f_def rows_wf_def split: if_splits\<close>)
  moreover have "ir_id (f x) < Suc (is_next s)" if "x \<in> set (is_rows s)" for x
    using that f(1) assms(1) by (auto simp: inode_wf_def less_SucI)
  ultimately have wf': "inode_wf ?s" by (simp add: inode_wf_def)
  have "?r = f r" by (simp add: f_def)
  then have "find_child (is_rows ?s) p n = Some ?r"
    using wf' r by (simp add: inode_wf_def find_child_iff f)
  moreover have "linked s ?s" using f by (auto simp: linked_def)
  moreover have "upsert_file p n key s = (Ok ?r, ?s)" using Some by (simp add: upsert_file_def Let_def f_def [abs_def])
  ultimately show ?thesis using wf' by (intro exI [of _ ?r] exI [of _ ?s]) simp
qed

lemma resolve_found:
  assumes "inode_wf s" and "find_child (is_rows s) p n = Some r" and "walk_from (is_rows s) root segs = Some p"
    and "split_path path = segs @ [n]"
  shows "inode_resolve root path s = (Ok (Some (row_to_inode r)), s)"
proof -
  have "find_row (is_rows s) (ir_id r) = Some r"
    using assms(1,2) by (simp add: inode_wf_def find_child_iff find_row_iff)
  with assms show ?thesis
    by (simp add: inode_resolve_def walk_def walk_from_append bind_def load_def)
qed

lemma resolve_parent_ok:
  assumes "inode_wf s" and "root \<in> ir_id ` set (is_rows s)" and "split_path path \<noteq> []"
  shows "\<exists>i s'. resolve_parent root path s = (Ok (i, last (split_path path)), s') \<and> inode_wf s' \<and> linked s s' \<and>
    walk_from (is_rows s') root (butlast (split_path path)) = Some i \<and> i \<in> ir_id ` set (is_rows s')"
  using ensure_path_ok [OF assms(1,2), of "butlast (split_path path)"] assms(3)
  by (auto simp: resolve_parent_def Let_def bind_def)

lemma create_file_ok:
  assumes "inode_wf s" and "root \<in> ir_id ` set (is_rows s)" and "split_path path \<noteq> []"
  shows "\<exists>r s'. inode_create_file draw root path s = (Ok (row_to_inode r), s') \<and> inode_wf s' \<and> linked s s' \<and>
    inode_resolve root path s' = (Ok (Some (row_to_inode r)), s') \<and> ir_kind r = 1 \<and> ir_key r \<noteq> None"
proof -
  from resolve_parent_ok [OF assms] obtain i s1
    where 1: "resolve_parent root path s = (Ok (i, last (split_path path)), s1)" "inode_wf s1" "linked s s1"
      "walk_from (is_rows s1) root (butlast (split_path path)) = Some i" "i \<in> ir_id ` set (is_rows s1)" by blast
  obtain k g where kg: "draw_id draw (is_ids s1) = (k, g)" by fastforce
  let ?s = "s1\<lparr>is_ids := g\<rparr>"
  have "inode_wf ?s" "i \<in> ir_id ` set (is_rows ?s)" using 1 by simp_all
  from upsert_file_ok [OF this, of "last (split_path path)" "''fs/'' @ id_display k"] obtain r s2
    where 2: "upsert_file i (last (split_path path)) (''fs/'' @ id_display k) ?s = (Ok r, s2)" "inode_wf s2" "linked ?s s2"
      "find_child (is_rows s2) i (last (split_path path)) = Some r" "ir_kind r = 1" "ir_key r \<noteq> None" by auto
  have links: "linked s1 s2" using 2(3) by (simp add: linked_def)
  have "inode_resolve root path s2 = (Ok (Some (row_to_inode r)), s2)"
    by (rule resolve_found [OF 2(2,4) walk_linked [OF 1(2) 2(2) links 1(4)]]) (use assms(3) in simp)
  moreover have "inode_create_file draw root path s = (Ok (row_to_inode r), s2)"
    using 1(1) 2(1) kg by (simp add: inode_create_file_def bind_def)
  ultimately show ?thesis using 2 linked_trans [OF 1(3) links] by blast
qed

lemma mkdir_ok:
  assumes "inode_wf s" and "root \<in> ir_id ` set (is_rows s)" and "split_path path \<noteq> []"
  shows "\<exists>x s'. inode_mkdir root path s = (Ok x, s') \<and> inode_wf s' \<and> linked s s' \<and>
    inode_resolve root path s' = (Ok (Some x), s')"
proof -
  from resolve_parent_ok [OF assms] obtain i s1
    where 1: "resolve_parent root path s = (Ok (i, last (split_path path)), s1)" "inode_wf s1" "linked s s1"
      "walk_from (is_rows s1) root (butlast (split_path path)) = Some i" "i \<in> ir_id ` set (is_rows s1)" by blast
  from ensure_child_dir_ok [OF 1(2,5), of "last (split_path path)"] obtain r s2
    where 2: "ensure_child_dir i (last (split_path path)) s1 = (Ok (ir_id r), s2)" "inode_wf s2" "linked s1 s2"
      "find_child (is_rows s2) i (last (split_path path)) = Some r" by blast
  have "inode_resolve root path s2 = (Ok (Some (row_to_inode r)), s2)"
    by (rule resolve_found [OF 2(2,4) walk_linked [OF 1(2) 2(2,3) 1(4)]]) (use assms(3) in simp)
  moreover have "find_row (is_rows s2) (ir_id r) = Some r"
    using 2 by (simp add: inode_wf_def find_child_iff find_row_iff)
  then have "inode_mkdir root path s = (Ok (row_to_inode r), s2)"
    using 1(1) 2(1) by (simp add: inode_mkdir_def bind_def load_def)
  ultimately show ?thesis using 2 linked_trans [OF 1(3) 2(3)] by blast
qed

section \<open>Removal\<close>

lemma walk_subset:
  assumes "rows_wf rows" and "rows_wf rows'" and "set rows' \<subseteq> set rows"
  shows "walk_from rows' c segs = Some j \<Longrightarrow> walk_from rows c segs = Some j"
proof (induction segs arbitrary: c)
  case (Cons seg segs)
  then obtain r where r: "find_child rows' c seg = Some r" "walk_from rows' (ir_id r) segs = Some j"
    by (auto split: option.splits)
  then have "find_child rows c seg = Some r" using assms by (auto simp: find_child_iff)
  with Cons.IH [OF r(2)] show ?case by simp
qed simp

lemma walk_row:
  assumes "rows_wf rows"
  shows "walk_from rows c segs = Some j \<Longrightarrow> segs \<noteq> [] \<Longrightarrow> \<exists>r \<in> set rows. ir_id r = j"
proof (induction segs arbitrary: c)
  case (Cons seg segs)
  then obtain r where r: "find_child rows c seg = Some r" "walk_from rows (ir_id r) segs = Some j"
    by (auto split: option.splits)
  then have "r \<in> set rows" using assms by (simp add: find_child_iff)
  with Cons.IH [OF r(2)] r(2) show ?case by (cases "segs = []") auto
qed simp

lemma under_walk:
  assumes "rows_wf rows"
  shows "under rows i r \<Longrightarrow> walk_from rows (ir_id r) segs = Some j \<Longrightarrow> \<exists>q. under rows i q \<and> ir_id q = j"
proof (induction segs arbitrary: r)
  case (Cons seg segs)
  then obtain q where q: "find_child rows (ir_id r) seg = Some q" "walk_from rows (ir_id q) segs = Some j"
    by (auto split: option.splits)
  then have "under rows i q" using Cons.prems(1) assms by (auto simp: find_child_iff intro: under.under_child)
  then show ?case using Cons.IH q(2) by blast
qed auto

definition kept_rows :: "inode_row list \<Rightarrow> nat \<Rightarrow> inode_row list" where
  "kept_rows rows i = filter (\<lambda>r. r \<notin> set (subtree rows {i})) rows"

lemma set_kept: "rows_wf rows \<Longrightarrow> set (kept_rows rows i) = {r \<in> set rows. \<not> under rows i r}"
  by (auto simp: kept_rows_def subtree_under rows_wf_def)

lemma rows_wf_kept:
  assumes "rows_wf rows"
  shows "rows_wf (kept_rows rows i)"
proof -
  have parent: "p \<in> ir_id ` set (kept_rows rows i)" if kept: "r \<in> set (kept_rows rows i)" and par: "ir_parent r = Some p" for r p
  proof -
    have r: "r \<in> set rows" "\<not> under rows i r" using kept set_kept [OF assms] by auto
    then obtain q where q: "q \<in> set rows" "ir_id q = p" using assms par unfolding rows_wf_def by blast
    then have "\<not> under rows i q" using r par by (auto intro: under.under_child)
    with q show ?thesis using set_kept [OF assms] by auto
  qed
  have "distinct (map ir_id (kept_rows rows i))" using assms by (simp add: kept_rows_def rows_wf_def distinct_map_filter)
  moreover have "set (kept_rows rows i) \<subseteq> set rows" by (auto simp: kept_rows_def)
  ultimately show ?thesis using assms parent unfolding rows_wf_def by (meson subsetD)
qed

lemma walk_kept:
  assumes "rows_wf rows" and "\<And>q. under rows i q \<Longrightarrow> ir_id q \<noteq> j"
  shows "walk_from rows c segs = Some j \<Longrightarrow> walk_from (kept_rows rows i) c segs = Some j"
proof (induction segs arbitrary: c)
  case (Cons seg segs)
  then obtain r where r: "find_child rows c seg = Some r" "walk_from rows (ir_id r) segs = Some j"
    by (auto split: option.splits)
  then have "\<not> under rows i r" using under_walk [OF assms(1)] assms(2) by blast
  then have "find_child (kept_rows rows i) c seg = Some r"
    using r(1) assms(1) by (simp add: find_child_iff rows_wf_kept set_kept)
  with Cons.IH [OF r(2)] show ?case by simp
qed simp

lemma walk_gone:
  assumes "rows_wf rows" and "walk_from rows c segs = Some i" and "segs \<noteq> []"
  shows "walk_from (kept_rows rows i) c (segs @ sub) = None"
proof -
  have "walk_from (kept_rows rows i) c segs = None"
  proof (rule ccontr)
    assume "walk_from (kept_rows rows i) c segs \<noteq> None"
    then obtain j where j: "walk_from (kept_rows rows i) c segs = Some j" by blast
    then have "j = i" using walk_subset [OF assms(1) rows_wf_kept [OF assms(1)]] assms by (auto simp: kept_rows_def)
    then obtain r where "r \<in> set (kept_rows rows i)" "ir_id r = i"
      using walk_row [OF rows_wf_kept [OF assms(1)] j assms(3)] by blast
    then show False using set_kept [OF assms(1)] by (auto intro: under.under_self)
  qed
  then show ?thesis by (simp add: walk_from_append)
qed

lemma set_map_filter: "set (List.map_filter f xs) = {y. \<exists>x \<in> set xs. f x = Some y}"
  by (induction xs) (auto simp: List.map_filter_simps split: option.splits)

lemma remove_eq:
  "walk_from (is_rows s) root (split_path path) = Some i \<Longrightarrow> inode_remove root path s =
     (Ok (List.map_filter ir_key (filter (\<lambda>r. ir_kind r = 1) (subtree (is_rows s) {i}))),
      s\<lparr>is_rows := kept_rows (is_rows s) i\<rparr>)"
  by (simp add: inode_remove_def walk_def bind_def kept_rows_def Let_def)

section \<open>Every operation keeps the forest\<close>

lemma keeps_ensure_child_dir: "keeps inode_wf (ensure_child_dir p n)"
proof (rule keepsI)
  fix s assume wf: "inode_wf s"
  show "inode_wf (snd (ensure_child_dir p n s))"
  proof (cases "p \<in> ir_id ` set (is_rows s)")
    case True
    with ensure_child_dir_ok [OF wf this, of n] show ?thesis by auto
  next
    case False
    then show ?thesis
      using wf by (auto simp: ensure_child_dir_def insert_row_def bind_def find_row_None split: option.splits)
  qed
qed

lemma keeps_ensure_path: "keeps inode_wf (ensure_path root segs)"
  by (induction segs arbitrary: root) (auto intro!: keeps_intro keeps_ensure_child_dir)

lemma keeps_global_root: "keeps inode_wf ensure_global_root"
proof (rule keepsI)
  fix s assume wf: "inode_wf s"
  show "inode_wf (snd (ensure_global_root s))"
  proof (cases "List.find (\<lambda>r. ir_parent r = None) (is_rows s)")
    case None
    then have "\<forall>q \<in> set (is_rows s). ir_parent q = None \<longrightarrow> ir_name q \<noteq> []" by (auto simp: find_None_iff)
    from insert_row_ok [OF wf _ this, of 0 None] None show ?thesis
      by (auto simp: ensure_global_root_def bind_def)
  qed (use wf in \<open>simp add: ensure_global_root_def\<close>)
qed

lemma keeps_upsert_file: "keeps inode_wf (upsert_file p n key)"
proof (rule keepsI)
  fix s assume wf: "inode_wf s"
  show "inode_wf (snd (upsert_file p n key s))"
  proof (cases "p \<in> ir_id ` set (is_rows s)")
    case True
    with upsert_file_ok [OF wf this, of n key] show ?thesis by auto
  next
    case False
    then have "find_child (is_rows s) p n = None"
      using wf unfolding find_child_None inode_wf_def rows_wf_def by blast
    then show ?thesis using wf False by (simp add: upsert_file_def insert_row_def find_row_None)
  qed
qed

lemma keeps_load: "keeps inode_wf (load i)"
  by (auto simp: keeps_def load_def split: option.split)

lemma keeps_resolve_parent: "keeps inode_wf (resolve_parent root path)"
  by (auto simp: resolve_parent_def Let_def intro!: keeps_intro keeps_ensure_path)

lemma keeps_mkdir: "keeps inode_wf (inode_mkdir root path)"
  unfolding inode_mkdir_def
  by (auto intro!: keeps_intro keeps_resolve_parent keeps_ensure_child_dir keeps_load split: prod.split)

lemma keeps_create_file: "keeps inode_wf (inode_create_file draw root path)"
  unfolding inode_create_file_def
proof (rule keeps_bind [OF keeps_resolve_parent])
  fix a :: "nat \<times> string"
  obtain p n where a: "a = (p, n)" by fastforce
  have "keeps inode_wf (bind (upsert_file p n key) (\<lambda>r. ret (row_to_inode r)))" for key
    by (intro keeps_intro keeps_upsert_file)
  then show "keeps inode_wf (case a of (p, n) \<Rightarrow> (\<lambda>s. let (i, g) = draw_id draw (is_ids s) in
      bind (upsert_file p n (''fs/'' @ id_display i)) (\<lambda>r. ret (row_to_inode r)) (s\<lparr>is_ids := g\<rparr>)))"
    by (auto simp: keeps_def a split: prod.split)
qed

lemma keeps_remove: "keeps inode_wf (inode_remove root path)"
proof (rule keepsI)
  fix s assume wf: "inode_wf s"
  show "inode_wf (snd (inode_remove root path s))"
  proof (cases "walk_from (is_rows s) root (split_path path)")
    case (Some i)
    have "set (kept_rows (is_rows s) i) \<subseteq> set (is_rows s)" by (auto simp: kept_rows_def)
    then show ?thesis using wf Some by (auto simp: remove_eq inode_wf_def rows_wf_kept)
  qed (use wf in \<open>simp add: inode_remove_def walk_def bind_def\<close>)
qed

section \<open>What surprises\<close>

text \<open>Making a directory where there is a node returns the node, be it a file.\<close>

lemma ensure_path_existing:
  "walk_from (is_rows s) root segs = Some i \<Longrightarrow> \<exists>n. ensure_path root segs s = (Ok i, s\<lparr>is_next := n\<rparr>)"
proof (induction segs arbitrary: root s)
  case Nil
  then have "ensure_path root [] s = (Ok i, s\<lparr>is_next := is_next s\<rparr>)" by simp
  then show ?case by blast
next
  case (Cons seg segs)
  then obtain r where r: "find_child (is_rows s) root seg = Some r" "walk_from (is_rows s) (ir_id r) segs = Some i"
    by (auto split: option.splits)
  from Cons.IH [of "s\<lparr>is_next := Suc (is_next s)\<rparr>" "ir_id r"] r
  show ?case by (auto simp: bind_def ensure_child_dir_def)
qed

lemma mkdir_existing:
  assumes "inode_resolve root path s = (Ok (Some x), s)" and "split_path path \<noteq> []"
  shows "\<exists>s'. inode_mkdir root path s = (Ok x, s') \<and> is_rows s' = is_rows s"
proof -
  let ?segs = "split_path path"
  have segs: "?segs = butlast ?segs @ [last ?segs]" using assms(2) by simp
  obtain i where i: "walk_from (is_rows s) root ?segs = Some i" "load i s = (Ok x, s)"
    using assms(1) by (auto simp: inode_resolve_def walk_def bind_def load_def split: option.splits outcome.splits prod.splits)
  from i(1) obtain p where p: "walk_from (is_rows s) root (butlast ?segs) = Some p"
      "walk_from (is_rows s) p [last ?segs] = Some i"
  proof -
    have "walk_from (is_rows s) root (butlast ?segs @ [last ?segs]) = Some i" using i(1) segs by simp
    then show thesis using that by (simp only: walk_from_append split: option.splits) blast
  qed
  from ensure_path_existing [OF p(1)] obtain n where "ensure_path root (butlast ?segs) s = (Ok p, s\<lparr>is_next := n\<rparr>)" by blast
  with p(2) i(2) assms(2) show ?thesis
    by (auto simp: inode_mkdir_def resolve_parent_def Let_def bind_def ensure_child_dir_def load_def split: option.splits)
qed

text \<open>Removing the root of a scope removes its row: nothing can be made under it any more.\<close>

lemma split_path_root [simp]: "split_path [SLASH] = []"
  by (simp add: split_path_def)

lemma removed_root_is_dead:
  assumes "inode_wf s" and "inode_remove root [SLASH] s = (Ok keys, s')"
  shows "\<exists>s''. ensure_child_dir root n s' = (Err no_parent_row, s'')"
proof -
  have wf: "rows_wf (is_rows s)" using assms(1) by (simp add: inode_wf_def)
  have s': "is_rows s' = kept_rows (is_rows s) root" using assms(2) by (auto simp: remove_eq)
  have gone: "root \<notin> ir_id ` set (is_rows s')"
    using set_kept [OF wf] by (auto simp: s' intro: under.under_self)
  moreover have "rows_wf (is_rows s')" using rows_wf_kept [OF wf] by (simp add: s')
  then have "find_child (is_rows s') root n = None"
    using gone unfolding find_child_None rows_wf_def by blast
  ultimately show ?thesis by (simp add: ensure_child_dir_def insert_row_def bind_def find_row_None)
qed

text \<open>An exclusive creation does not refuse a file that exists.\<close>

lemma create_new_opens_existing:
  assumes "inode_resolve root path (fl_inodes s) = (Ok (Some x), fl_inodes s)" and "in_kind x = File"
    and "in_object_key x = Some k" and "oo_create_new opts" and "oo_write opts"
  shows "object_open draw root path opts s = (Ok (WriteObject k), s)"
  using assms by (simp add: object_open_def in_inodes_def bind_def)

text \<open>The files of a session are in those of its workspace, under the name of the session.\<close>

lemma session_in_workspace:
  assumes "inode_wf s" and "g \<in> ir_id ` set (is_rows s)" and "ensure_path g [''workspaces'', w] s = (Ok wr, s1)"
    and "ensure_path g [''workspaces'', w, ''sessions'', sid] s1 = (Ok sr, s2)"
  shows "walk_from (is_rows s2) wr [''sessions'', sid] = Some sr"
proof -
  from ensure_path_ok [OF assms(1,2), of "[''workspaces'', w]"] assms(3)
  have 1: "inode_wf s1" "linked s s1" "walk_from (is_rows s1) g [''workspaces'', w] = Some wr" by auto
  from ensure_path_ok [OF 1(1) linked_ids [OF 1(2) assms(2)], of "[''workspaces'', w, ''sessions'', sid]"] assms(4)
  have 2: "inode_wf s2" "linked s1 s2" "walk_from (is_rows s2) g ([''workspaces'', w] @ [''sessions'', sid]) = Some sr" by auto
  show ?thesis using 2(3) walk_linked [OF 1(1) 2(1,2) 1(3)] by (simp only: walk_from_append) simp
qed

section \<open>Properties\<close>

text \<open>
  Of the mounts made, the latest on each path, the one used for a path is the longest that covers it
  up to the end of a segment, and the file system receives the rest of the path.
\<close>

theorem mounts_longest_prefix:
  "resolve_mount (mounts_of ms) path = Some (fs, sub) \<longleftrightarrow>
     (\<exists>p. map_of (rev ms) p = Some fs \<and> alias_covers p path \<and> sub = rest_of p path \<and>
       (\<forall>q. q \<in> fst ` set ms \<longrightarrow> alias_covers q path \<longrightarrow> length q \<le> length p))"
proof -
  have keys: "q \<in> fst ` set ms \<longleftrightarrow> (\<exists>w. (q, w) \<in> set (mounts_of ms))" for q
    using mounts_of_wf [of ms] by (metis domD domI dom_map_of_conv_image_fst set_rev)
  have "pick_mount (mounts_of ms) path = Some (p, fs) \<longleftrightarrow> map_of (rev ms) p = Some fs \<and> alias_covers p path \<and>
      (\<forall>q. q \<in> fst ` set ms \<longrightarrow> alias_covers q path \<longrightarrow> length q \<le> length p)" for p
    using mounted.pick_iff [of "mounts_of ms" path p fs] mounts_of_wf [of ms] unfolding keys by blast
  then show ?thesis by (auto simp: resolve_mount_pick)
qed

text \<open>
  C24: removing a path removes the node it leads to and everything under it, and nothing else: the keys
  returned are those of the files removed, no path through it leads anywhere any more, and a path to
  any other node still leads to it. The table stays a forest.
\<close>

theorem remove_removes_subtree:
  assumes "inode_wf s" and "walk_from (is_rows s) root (split_path path) = Some i"
  shows "\<exists>keys s'. inode_remove root path s = (Ok keys, s') \<and> inode_wf s' \<and>
    set keys = {k. \<exists>r. under (is_rows s) i r \<and> ir_kind r = 1 \<and> ir_key r = Some k} \<and>
    set (is_rows s') = {r \<in> set (is_rows s). \<not> under (is_rows s) i r} \<and>
    (split_path path \<noteq> [] \<longrightarrow> (\<forall>sub. walk_from (is_rows s') root (split_path path @ sub) = None)) \<and>
    (\<forall>segs j. walk_from (is_rows s) root segs = Some j \<longrightarrow> (\<forall>r. under (is_rows s) i r \<longrightarrow> ir_id r \<noteq> j) \<longrightarrow>
      walk_from (is_rows s') root segs = Some j)"
proof -
  have wf: "rows_wf (is_rows s)" using assms(1) by (simp add: inode_wf_def)
  have "inode_wf (s\<lparr>is_rows := kept_rows (is_rows s) i\<rparr>)"
    using keepsD [OF keeps_remove assms(1), of root path] remove_eq [OF assms(2)] by simp
  moreover have "set (List.map_filter ir_key (filter (\<lambda>r. ir_kind r = 1) (subtree (is_rows s) {i}))) =
      {k. \<exists>r. under (is_rows s) i r \<and> ir_kind r = 1 \<and> ir_key r = Some k}"
    using wf by (auto simp: set_map_filter subtree_under rows_wf_def)
  ultimately show ?thesis
    using remove_eq [OF assms(2)] walk_gone [OF wf assms(2)] walk_kept [OF wf] set_kept [OF wf, of i] by auto
qed

text \<open>The operations on the table, and what a sequence of them leaves, errors included.\<close>

datatype inode_op =
    InWorkspace string
  | InSession string string
  | InMkdir nat string
  | InCreate nat string
  | InRemove nat string

fun do_op :: "(nat \<Rightarrow> u64) \<Rightarrow> inode_op \<Rightarrow> unit inode_prog" where
  "do_op draw (InWorkspace w) = ignore (for_workspace w)"
| "do_op draw (InSession w sid) = ignore (for_session w sid)"
| "do_op draw (InMkdir root path) = ignore (inode_mkdir root path)"
| "do_op draw (InCreate root path) = ignore (inode_create_file draw root path)"
| "do_op draw (InRemove root path) = ignore (inode_remove root path)"

lemma keeps_op: "keeps inode_wf (do_op draw op)"
  by (cases op) (auto simp: for_workspace_def for_session_def
      intro!: keeps_intro keeps_global_root keeps_ensure_path keeps_mkdir keeps_create_file keeps_remove
        simp del: ensure_path.simps)

text \<open>
  Whatever is made and removed, through whatever roots, the table stays a forest.
\<close>

theorem inodes_stay_forest:
  "inode_wf (snd (for_each ops (do_op draw) \<lparr>is_rows = [], is_next = 0, is_ids = g\<rparr>))"
proof -
  have "keeps inode_wf (for_each ops (do_op draw))" by (intro keeps_for_each keeps_op)
  then show ?thesis by (rule keepsD) (simp add: inode_wf_def rows_wf_def)
qed

text \<open>
  C25: what is written to a file is read from it: a path opened for writing, whether its file existed or is
  created with the directories on the way, and then opened for reading gives the bytes put under
  the object of the writer.
\<close>

theorem written_file_is_read:
  assumes "inode_wf (fl_inodes s)" and "root \<in> ir_id ` set (is_rows (fl_inodes s))"
    and "oo_write opts" and "object_open draw root path opts s = (Ok (WriteObject k), s1)"
    and "\<not> oo_write ropts" "\<not> oo_append ropts" "\<not> oo_truncate ropts"
    and "object_put k bytes s1 = (Ok (), s2)"
  shows "object_open draw root path ropts s2 = (Ok (ReadObject k bytes), s2)"
proof -
  have "\<exists>x. inode_resolve root path (fl_inodes s1) = (Ok (Some x), fl_inodes s1) \<and> in_kind x = File \<and> in_object_key x = Some k"
  proof -
    obtain e where e: "inode_resolve root path (fl_inodes s) = (Ok e, fl_inodes s)"
      using assms(4)
      by (cases "inode_resolve root path (fl_inodes s)")
        (auto simp: object_open_def in_inodes_def inode_resolve_def walk_def load_def bind_def
          split: outcome.splits prod.splits option.splits)
    show ?thesis
    proof (cases e)
      case (Some x)
      with e assms(3,4) show ?thesis
        by (auto simp: object_open_def in_inodes_def bind_def split: if_splits option.splits)
    next
      case None
      have "split_path path \<noteq> []"
      proof
        assume "split_path path = []"
        with e None assms(4) show False
          by (auto simp: object_open_def in_inodes_def bind_def inode_create_file_def resolve_parent_def Let_def
              split: if_splits)
      qed
      from create_file_ok [OF assms(1,2) this, of draw] obtain r i1
        where r: "inode_create_file draw root path (fl_inodes s) = (Ok (row_to_inode r), i1)"
          "inode_resolve root path i1 = (Ok (Some (row_to_inode r)), i1)" "ir_kind r = 1" "ir_key r \<noteq> None" by blast
      then have "s1 = s\<lparr>fl_inodes := i1\<rparr>" "ir_key r = Some k"
        using e None assms(3,4)
        by (auto simp: object_open_def in_inodes_def bind_def row_to_inode_def split: if_splits option.splits)
      with r show ?thesis by (simp add: row_to_inode_def)
    qed
  qed
  with assms(5-8) show ?thesis by (auto simp: object_open_def in_inodes_def bind_def object_put_def)
qed

section \<open>Examples\<close>

theorem mounts_longest_prefix_witness:
  "resolve_mount (mounts_of [(''/s'', 1 :: nat), (''/s/v'', 2)]) ''/s/v/x'' = Some (2, ''/x'')"
proof (rule iffD2 [OF mounts_longest_prefix])
  show "\<exists>p. map_of (rev [(''/s'', 1 :: nat), (''/s/v'', 2)]) p = Some 2 \<and> alias_covers p ''/s/v/x'' \<and>
      ''/x'' = rest_of p ''/s/v/x'' \<and>
      (\<forall>q. q \<in> fst ` set [(''/s'', 1 :: nat), (''/s/v'', 2)] \<longrightarrow> alias_covers q ''/s/v/x'' \<longrightarrow> length q \<le> length p)"
    by (rule exI [of _ "''/s/v''"]) (simp add: alias_covers_def rest_of_def)
qed

definition demo_row :: "nat \<Rightarrow> nat option \<Rightarrow> string \<Rightarrow> int \<Rightarrow> string option \<Rightarrow> inode_row" where
  "demo_row i p n k key = \<lparr>ir_id = i, ir_parent = p, ir_name = n, ir_kind = k, ir_key = key, ir_size = 0\<rparr>"

definition demo_inodes :: inode_state where
  "demo_inodes = \<lparr>is_rows = [demo_row 0 None [] 0 None, demo_row 1 (Some 0) ''a'' 1 (Some ''k'')], is_next = 2,
     is_ids = \<lparr>rng = 0, session_prefix = 0\<rparr>\<rparr>"

lemma demo_inodes_wf: "inode_wf demo_inodes"
  by (simp add: inode_wf_def rows_wf_def demo_inodes_def demo_row_def)

lemma demo_path: "split_path ''/a'' = [''a'']"
  by (simp add: split_path_def)

theorem remove_removes_subtree_witness:
  "\<exists>keys s'. inode_remove 0 ''/a'' demo_inodes = (Ok keys, s') \<and> ''k'' \<in> set keys \<and>
     walk_from (is_rows s') 0 [''a''] = None"
proof -
  let ?r = "demo_row 1 (Some 0) ''a'' 1 (Some ''k'')"
  have "walk_from (is_rows demo_inodes) 0 (split_path ''/a'') = Some 1"
    by (simp add: demo_path demo_inodes_def demo_row_def find_child_def)
  from remove_removes_subtree [OF demo_inodes_wf this, unfolded demo_path] obtain keys s'
    where r: "inode_remove 0 ''/a'' demo_inodes = (Ok keys, s')"
      "set keys = {k. \<exists>r. under (is_rows demo_inodes) 1 r \<and> ir_kind r = 1 \<and> ir_key r = Some k}"
      "[''a''] \<noteq> [] \<longrightarrow> (\<forall>sub. walk_from (is_rows s') 0 ([''a''] @ sub) = None)" by blast
  have "under (is_rows demo_inodes) 1 ?r"
    by (rule under_self) (simp_all add: demo_inodes_def demo_row_def)
  moreover have "ir_kind ?r = 1" "ir_key ?r = Some ''k''" by (simp_all add: demo_row_def)
  ultimately have "''k'' \<in> set keys" unfolding r(2) by blast
  moreover have "walk_from (is_rows s') 0 ([''a''] @ []) = None" using r(3) by blast
  ultimately show ?thesis using r(1) by (intro exI [of _ keys] exI [of _ s']) simp
qed

definition demo_files :: file_state where
  "demo_files = \<lparr>fl_inodes = demo_inodes, fl_objects = []\<rparr>"

definition demo_options :: "bool \<Rightarrow> open_options" where
  "demo_options w = \<lparr>oo_read = \<not> w, oo_write = w, oo_append = False, oo_truncate = False, oo_create = False, oo_create_new = False\<rparr>"

theorem written_file_is_read_witness:
  "object_open (\<lambda>_. 0) 0 ''/a'' (demo_options False) (snd (object_put ''k'' [7] demo_files)) =
     (Ok (ReadObject ''k'' [7]), snd (object_put ''k'' [7] demo_files))"
proof (rule written_file_is_read [of demo_files 0 "demo_options True" _ _ _ demo_files])
  show "object_open (\<lambda>_. 0) 0 ''/a'' (demo_options True) demo_files = (Ok (WriteObject ''k''), demo_files)"
    by (simp add: object_open_def in_inodes_def inode_resolve_def walk_def load_def bind_def demo_files_def demo_inodes_def
        demo_row_def demo_options_def demo_path find_child_def find_row_def row_to_inode_def)
qed (use demo_inodes_wf in \<open>simp_all add: demo_files_def demo_inodes_def demo_row_def demo_options_def object_put_def\<close>)

end
