(* ===== verification/Var_Files.thy ===== *)
theory Var_Files
  imports Virtual_Files Hitl "HOL-Library.List_Lexorder" "HOL-Library.Char_ord"
begin

text \<open>
  Variables as files (\<^verbatim>\<open>marie-core/src/persistency/var.rs\<close>): a flat store of JSON values seen as a tree
  of paths, and the descriptors through which a variable is read and written; and the composition of
  the file systems of a workspace and of its sessions (\<^verbatim>\<open>vfs.rs\<close>). Reading and writing
  JSON text and the repair of invalid UTF-8 are parameters. Trimming acts on ASCII.
\<close>

type_synonym var_store = "(string, value) hash_map"

abbreviation DOT :: char where "DOT \<equiv> CHR 0x2E"

fun join_with :: "'a \<Rightarrow> 'a list list \<Rightarrow> 'a list" where
  "join_with c [] = []"
| "join_with c [x] = x"
| "join_with c (x # xs) = x @ c # join_with c xs"

definition path_to_key :: "string \<Rightarrow> string" where
  "path_to_key path = join_with DOT (split_path path)"

definition child_name :: "string \<Rightarrow> string \<Rightarrow> string option" where
  "child_name prefix key =
     (let rest = (if prefix = [] then Some key
                  else Option.bind (strip_prefix_of prefix key) (strip_prefix_of [DOT])) in
      case rest of
        None \<Rightarrow> None
      | Some r \<Rightarrow> if r = [] then None else Some (hd (split_sep DOT r)))"

record json_text =
  jt_from_str :: "string \<Rightarrow> value option"
  jt_to_vec :: "value \<Rightarrow> string option"
  jt_lossy :: "string \<Rightarrow> string"

definition decode_value :: "json_text \<Rightarrow> string \<Rightarrow> value" where
  "decode_value j bytes = (let t = jt_lossy j bytes in
     case jt_from_str j (trim t) of Some v \<Rightarrow> v | None \<Rightarrow> VString t)"

definition encode_value :: "json_text \<Rightarrow> value \<Rightarrow> string" where
  "encode_value j v = (case v of
      VString t \<Rightarrow> t
    | _ \<Rightarrow> (case jt_to_vec j v of Some bytes \<Rightarrow> bytes | None \<Rightarrow> []))"

section \<open>Descriptors\<close>

record var_descriptor =
  vd_data :: string
  vd_pos :: nat
  vd_write :: bool
  vd_key :: string

datatype io_error = Unsupported string | InvalidSeek | OtherIo error

datatype seek_from = SeekStart nat | SeekEnd int | SeekCurrent int

text \<open>The cursor over the bytes: a read stops at the end, a write past the end fills with zeros.\<close>

definition vd_read :: "nat \<Rightarrow> var_descriptor \<Rightarrow> string \<times> var_descriptor" where
  "vd_read n d = (let bytes = take n (drop (vd_pos d) (vd_data d)) in (bytes, d\<lparr>vd_pos := vd_pos d + length bytes\<rparr>))"

definition vd_write_bytes :: "string \<Rightarrow> var_descriptor \<Rightarrow> io_error + var_descriptor" where
  "vd_write_bytes bytes d =
     (if \<not> vd_write d then Inl (Unsupported ''ecriture non supportee sur un descripteur ouvert en lecture'')
      else let data = vd_data d; pos = vd_pos d;
               before = take pos data @ replicate (pos - length data) (CHR 0x00)
           in Inr (d\<lparr>vd_data := before @ bytes @ drop (pos + length bytes) data, vd_pos := pos + length bytes\<rparr>))"

fun vd_seek :: "seek_from \<Rightarrow> var_descriptor \<Rightarrow> io_error + var_descriptor" where
  "vd_seek (SeekStart n) d = Inr (d\<lparr>vd_pos := n\<rparr>)"
| "vd_seek (SeekEnd k) d = (let p = int (length (vd_data d)) + k in
     if p < 0 then Inl InvalidSeek else Inr (d\<lparr>vd_pos := nat p\<rparr>))"
| "vd_seek (SeekCurrent k) d = (let p = int (vd_pos d) + k in
     if p < 0 then Inl InvalidSeek else Inr (d\<lparr>vd_pos := nat p\<rparr>))"

definition vd_shutdown :: "json_text \<Rightarrow> var_descriptor \<Rightarrow> var_store \<Rightarrow> var_store" where
  "vd_shutdown j d st = (if \<not> vd_write d then st else hm_insert (vd_key d) (decode_value j (vd_data d)) st)"

section \<open>The file system\<close>

definition var_mkdir :: "string \<Rightarrow> (var_store, error, unit) prog" where
  "var_mkdir path = modify (\<lambda>st. let key = path_to_key path in
     if hm_get st key = None then hm_insert key (VObject []) st else st)"

definition var_ls :: "string \<Rightarrow> (var_store, error, string list) prog" where
  "var_ls path = gets (\<lambda>st.
     remdups_adj (sort (List.map_filter (child_name (path_to_key path)) (map fst st))))"

definition var_open :: "json_text \<Rightarrow> string \<Rightarrow> open_options \<Rightarrow> (var_store, error, var_descriptor) prog" where
  "var_open j path opts = (\<lambda>st. let key = path_to_key path; existing = hm_get st key in
     if existing = None \<and> \<not> (oo_create opts \<or> oo_create_new opts \<or> oo_write opts)
     then (Err (err_msg (''variable introuvable : '' @ path)), st)
     else (Ok \<lparr>vd_data = (case existing of Some v \<Rightarrow> encode_value j v | None \<Rightarrow> []), vd_pos = 0,
              vd_write = oo_write opts \<or> oo_append opts \<or> oo_create opts \<or> oo_create_new opts, vd_key = key\<rparr>, st))"

definition key_under :: "string \<Rightarrow> string \<Rightarrow> bool" where
  "key_under key k \<longleftrightarrow> k = key \<or> take (Suc (length key)) k = key @ [DOT]"

definition var_remove :: "string \<Rightarrow> (var_store, error, unit) prog" where
  "var_remove path = modify (\<lambda>st. let key = path_to_key path in
     fold hm_remove (filter (key_under key) (map fst st)) st)"

definition var_file_system :: "json_text \<Rightarrow> (var_store, var_descriptor) file_system" where
  "var_file_system j = \<lparr>fs_mkdir = var_mkdir, fs_ls = var_ls, fs_open = var_open j, fs_remove = var_remove\<rparr>"

section \<open>The file systems of a workspace\<close>

text \<open>The files of every scope are in one table; a workspace and a session have variables of their own.\<close>

record vfs_state =
  vs_files :: file_state
  vs_vars :: var_store
  vs_session_vars :: var_store

datatype any_descriptor = OnObject object_descriptor | OnVar var_descriptor

definition lift_prog :: "('s \<Rightarrow> 'p) \<Rightarrow> ('p \<Rightarrow> 's \<Rightarrow> 's) \<Rightarrow> ('p, 'e, 'a) prog \<Rightarrow> ('s, 'e, 'a) prog" where
  "lift_prog part put m = (\<lambda>s. case m (part s) of (r, p) \<Rightarrow> (r, put p s))"

definition lift_fs ::
  "('s \<Rightarrow> 'p) \<Rightarrow> ('p \<Rightarrow> 's \<Rightarrow> 's) \<Rightarrow> ('d \<Rightarrow> 'e) \<Rightarrow> ('p, 'd) file_system \<Rightarrow> ('s, 'e) file_system" where
  "lift_fs part put g fs = \<lparr>
     fs_mkdir = (\<lambda>path. lift_prog part put (fs_mkdir fs path)),
     fs_ls = (\<lambda>path. lift_prog part put (fs_ls fs path)),
     fs_open = (\<lambda>path opts. lift_prog part put (bind (fs_open fs path opts) (\<lambda>d. ret (g d)))),
     fs_remove = (\<lambda>path. lift_prog part put (fs_remove fs path))\<rparr>"

definition put_files :: "file_state \<Rightarrow> vfs_state \<Rightarrow> vfs_state" where
  "put_files f s = s\<lparr>vs_files := f\<rparr>"

definition files_at :: "(nat \<Rightarrow> u64) \<Rightarrow> nat \<Rightarrow> (vfs_state, any_descriptor) file_system" where
  "files_at draw root = lift_fs vs_files put_files OnObject (object_file_system draw root)"

definition workspace_vars :: "json_text \<Rightarrow> (vfs_state, any_descriptor) file_system" where
  "workspace_vars j = lift_fs vs_vars (\<lambda>p s. s\<lparr>vs_vars := p\<rparr>) OnVar (var_file_system j)"

definition session_vars :: "json_text \<Rightarrow> (vfs_state, any_descriptor) file_system" where
  "session_vars j = lift_fs vs_session_vars (\<lambda>p s. s\<lparr>vs_session_vars := p\<rparr>) OnVar (var_file_system j)"

definition workspace_vfs ::
  "json_text \<Rightarrow> (nat \<Rightarrow> u64) \<Rightarrow> string \<Rightarrow> (vfs_state, error, (vfs_state, any_descriptor) file_system vfs) prog" where
  "workspace_vfs j draw w = bind (lift_prog vs_files put_files (in_inodes (for_workspace w))) (\<lambda>root.
     ret \<lparr>vf_mounts = mount ''/files'' (files_at draw root) (mount ''/var'' (workspace_vars j) []),
          vf_scope = Some (''workspace:'' @ w)\<rparr>)"

definition session_vfs ::
  "json_text \<Rightarrow> (nat \<Rightarrow> u64) \<Rightarrow> string \<Rightarrow> string \<Rightarrow> (vfs_state, error, (vfs_state, any_descriptor) file_system vfs) prog" where
  "session_vfs j draw w sid = bind (lift_prog vs_files put_files (in_inodes (for_session w sid))) (\<lambda>root.
     ret \<lparr>vf_mounts = mount ''/files'' (files_at draw root) (mount ''/var'' (session_vars j) []),
          vf_scope = Some (''session:'' @ sid)\<rparr>)"

definition mount_session ::
  "json_text \<Rightarrow> (nat \<Rightarrow> u64) \<Rightarrow> alias_table \<Rightarrow> string \<Rightarrow> string \<Rightarrow>
   (vfs_state, error, (vfs_state, any_descriptor) file_system vfs) prog" where
  "mount_session j draw t w sid = bind (workspace_vfs j draw w) (\<lambda>v. bind (session_vfs j draw w sid) (\<lambda>sv.
     ret (v\<lparr>vf_mounts := mount ''/session'' (vfs_file_system sv t) (vf_mounts v)\<rparr>)))"

section \<open>Listing and removing\<close>

lemma split_sep_not_Nil [simp]: "split_sep c t \<noteq> []"
  by (induction c t rule: split_sep.induct) (auto split: list.split)

lemma hd_split_sep: "hd (split_sep c t) = takeWhile (\<lambda>x. x \<noteq> c) t"
  by (induction c t rule: split_sep.induct) (auto split: list.split)

lemma strip_prefix_same [simp]: "strip_prefix_of p (p @ r) = Some r" "strip_prefix_of [c] (c # r) = Some r"
  by (simp_all add: strip_prefix_of_def)

lemma distinct_remdups_sorted: "sorted xs \<Longrightarrow> distinct (remdups_adj xs)"
  by (induction xs rule: remdups_adj.induct) auto

lemma child_name_iff:
  "child_name prefix key = Some name \<longleftrightarrow>
     (\<exists>rest. key = (if prefix = [] then rest else prefix @ DOT # rest) \<and> rest \<noteq> [] \<and>
       name = takeWhile (\<lambda>x. x \<noteq> DOT) rest)"
  by (auto simp: child_name_def hd_split_sep strip_prefix_Some Option.bind_eq_Some_conv split: option.split if_splits)

lemma get_fold_remove: "hm_get (fold hm_remove ks st) k = (if k \<in> set ks then None else hm_get st k)"
  by (induction ks arbitrary: st) auto

lemma key_under_iff: "key_under key k \<longleftrightarrow> k = key \<or> (\<exists>rest. k = key @ DOT # rest)"
proof -
  have "take (Suc (length key)) k = key @ [DOT] \<longleftrightarrow> (\<exists>rest. k = key @ DOT # rest)"
    by (metis append_Cons append_Nil append_assoc append_eq_conv_conj length_append_singleton)
  then show ?thesis by (simp add: key_under_def)
qed

text \<open>
  Removing a path removes the variable and those under it and no other, and a listing of the store
  shows the first segments below the path of the variables it has, in order and once.
\<close>

theorem var_remove_and_list:
  "(hm_get (snd (var_remove path st)) k =
      (if k = path_to_key path \<or> (\<exists>rest. k = path_to_key path @ DOT # rest) then None else hm_get st k)) \<and>
   (\<exists>names. fst (var_ls path st) = Ok names \<and> sorted names \<and> distinct names \<and>
      (\<forall>name. name \<in> set names \<longleftrightarrow> (\<exists>key rest. hm_get st key \<noteq> None \<and> rest \<noteq> [] \<and>
         key = (if path_to_key path = [] then rest else path_to_key path @ DOT # rest) \<and>
         name = takeWhile (\<lambda>x. x \<noteq> DOT) rest)))"
proof
  have dom: "k \<in> fst ` set st \<longleftrightarrow> hm_get st k \<noteq> None" for k by (auto simp: map_of_eq_None_iff)
  show "hm_get (snd (var_remove path st)) k =
      (if k = path_to_key path \<or> (\<exists>rest. k = path_to_key path @ DOT # rest) then None else hm_get st k)"
    using dom [of k] by (auto simp: var_remove_def Let_def get_fold_remove key_under_iff)
  let ?names = "remdups_adj (sort (List.map_filter (child_name (path_to_key path)) (map fst st)))"
  have "sorted ?names \<and> distinct ?names" by (simp add: sorted_remdups_adj distinct_remdups_sorted)
  moreover have "name \<in> set ?names \<longleftrightarrow> (\<exists>key. hm_get st key \<noteq> None \<and> child_name (path_to_key path) key = Some name)" for name
    unfolding dom [symmetric] by (auto simp: set_map_filter)
  ultimately show "\<exists>names. fst (var_ls path st) = Ok names \<and> sorted names \<and> distinct names \<and>
      (\<forall>name. name \<in> set names \<longleftrightarrow> (\<exists>key rest. hm_get st key \<noteq> None \<and> rest \<noteq> [] \<and>
         key = (if path_to_key path = [] then rest else path_to_key path @ DOT # rest) \<and>
         name = takeWhile (\<lambda>x. x \<noteq> DOT) rest))"
    by (intro exI [of _ ?names]) (auto simp: var_ls_def child_name_iff)
qed

section \<open>Reading back\<close>

text \<open>
  What is written to a new variable and shut down is stored as the JSON it reads as, or as the text
  itself, and reading the variable gives the text of that value: a text that is not JSON comes
  back as it was written.
\<close>

theorem variable_roundtrip:
  assumes "hm_get st (path_to_key path) = None" and "var_open j path wopts st = (Ok d, st1)"
    and "vd_write_bytes bytes d = Inr d1"
    and "var_open j path ropts (vd_shutdown j d1 st1) = (Ok d2, st2)" and "length (encode_value j (decode_value j bytes)) \<le> n"
  shows "hm_get st2 (path_to_key path) = Some (decode_value j bytes) \<and>
    fst (vd_read n d2) = encode_value j (decode_value j bytes) \<and>
    (jt_from_str j (trim (jt_lossy j bytes)) = None \<longrightarrow> jt_lossy j bytes = bytes \<longrightarrow> fst (vd_read n d2) = bytes)"
proof -
  have d: "vd_data d = []" "vd_pos d = 0" "vd_key d = path_to_key path" "st1 = st"
    using assms(1,2) by (auto simp: var_open_def Let_def split: if_splits)
  then have d1: "vd_write d1" "vd_data d1 = bytes" "vd_key d1 = path_to_key path"
    using assms(3) by (auto simp: vd_write_bytes_def Let_def split: if_splits)
  then have "hm_get (vd_shutdown j d1 st1) (path_to_key path) = Some (decode_value j bytes)"
    by (simp add: vd_shutdown_def)
  then have "vd_data d2 = encode_value j (decode_value j bytes)" "vd_pos d2 = 0" "st2 = vd_shutdown j d1 st1"
    using assms(4) by (auto simp: var_open_def Let_def split: if_splits)
  then show ?thesis
    using \<open>hm_get (vd_shutdown j d1 st1) (path_to_key path) = _\<close> assms(5)
    by (auto simp: vd_read_def Let_def decode_value_def encode_value_def)
qed

text \<open>
  The options to truncate and to append change nothing: writing always starts at the first byte and
  leaves what follows.
\<close>

lemma write_keeps_tail:
  assumes "hm_get st (path_to_key path) = Some v" and "var_open j path opts st = (Ok d, st1)"
    and "vd_write_bytes bytes d = Inr d1"
  shows "vd_data d1 = bytes @ drop (length bytes) (encode_value j v)"
proof -
  have "vd_data d = encode_value j v" "vd_pos d = 0" using assms(1,2) by (auto simp: var_open_def Let_def)
  then show ?thesis using assms(3) by (auto simp: vd_write_bytes_def Let_def split: if_splits)
qed

text \<open>A string that reads as JSON changes its type when it is read and written back.\<close>

lemma string_changes_type:
  assumes "jt_from_str j (trim t) = Some v" and "jt_lossy j t = t"
  shows "decode_value j (encode_value j (VString t)) = v"
  using assms by (simp add: decode_value_def encode_value_def)

text \<open>A dot in a name is a separator: the two paths are one variable.\<close>

lemma dotted_names_collide: "path_to_key ''/a.b'' = path_to_key ''/a/b''"
  by (simp add: path_to_key_def split_path_def)

section \<open>Where a path leads\<close>

lemma resolve_aliases_none: "resolve_aliases v [] path = path"
proof -
  have "resolve_prefix scope [] path = None" for scope by (simp add: resolve_prefix_def alias_list_def)
  then show ?thesis by (simp add: resolve_aliases_def eval_nat_numeral split: option.split)
qed

lemma scope_mounts:
  "resolve_mount (mount ''/files'' f (mount ''/var'' v [])) (''/files'' @ SLASH # path) = Some (f, SLASH # path)"
  by (simp add: mount_def strip_prefix_of_def)

lemma session_mounts:
  "resolve_mount (mount ''/session'' g (mount ''/files'' f (mount ''/var'' v []))) (''/session'' @ SLASH # path) =
     Some (g, SLASH # path)"
  "resolve_mount (mount ''/session'' g (mount ''/files'' f (mount ''/var'' v []))) (''/files'' @ SLASH # path) =
     Some (f, SLASH # path)"
  by (simp_all add: mount_def strip_prefix_of_def)

text \<open>
  Without aliases, in the file system of a session the paths under \<^verbatim>\<open>/session/files\<close> are those of the
  inode of the session, and the paths under \<^verbatim>\<open>/files\<close> those of the inode of its workspace.
\<close>

theorem session_paths:
  assumes "mount_session j draw [] w sid s = (Ok v, s')"
  shows "\<exists>wr sr s1. in_inodes (for_workspace w) (vs_files s) = (Ok wr, s1) \<and>
    in_inodes (for_session w sid) s1 = (Ok sr, vs_files s') \<and>
    fs_ls (vfs_file_system v []) (''/session/files'' @ SLASH # path) = fs_ls (files_at draw sr) (SLASH # path) \<and>
    fs_ls (vfs_file_system v []) (''/files'' @ SLASH # path) = fs_ls (files_at draw wr) (SLASH # path)"
proof -
  obtain wr s1 where 1: "in_inodes (for_workspace w) (vs_files s) = (Ok wr, s1)"
    using assms by (auto simp: mount_session_def workspace_vfs_def bind_def lift_prog_def split: outcome.splits prod.splits)
  then obtain sr s2 where 2: "in_inodes (for_session w sid) s1 = (Ok sr, s2)"
    using assms
    by (auto simp: mount_session_def workspace_vfs_def session_vfs_def bind_def lift_prog_def put_files_def
        split: outcome.splits prod.splits)
  let ?sv = "\<lparr>vf_mounts = mount ''/files'' (files_at draw sr) (mount ''/var'' (session_vars j) []),
    vf_scope = Some (''session:'' @ sid)\<rparr>"
  have v: "v = \<lparr>vf_mounts = mount ''/session'' (vfs_file_system ?sv []) (mount ''/files'' (files_at draw wr)
      (mount ''/var'' (workspace_vars j) [])), vf_scope = Some (''workspace:'' @ w)\<rparr>" and s': "vs_files s' = s2"
    using assms 1 2
    by (auto simp: mount_session_def workspace_vfs_def session_vfs_def bind_def lift_prog_def put_files_def)
  have inner: "fs_ls (vfs_file_system ?sv []) (''/files'' @ SLASH # path) = fs_ls (files_at draw sr) (SLASH # path)"
    unfolding vfs_file_system_def vfs_resolve_def Let_def resolve_aliases_none
    by (simp add: scope_mounts [simplified] bind_def)
  have "fs_ls (vfs_file_system v []) (''/session'' @ SLASH # ''files'' @ SLASH # path) =
      fs_ls (vfs_file_system ?sv []) (SLASH # ''files'' @ SLASH # path)"
    unfolding vfs_file_system_def [of v] vfs_resolve_def Let_def resolve_aliases_none
    by (simp add: v session_mounts(1) [of _ _ _ "''files'' @ SLASH # path", simplified] bind_def)
  moreover have "fs_ls (vfs_file_system v []) (''/files'' @ SLASH # path) = fs_ls (files_at draw wr) (SLASH # path)"
    unfolding vfs_file_system_def [of v] vfs_resolve_def Let_def resolve_aliases_none
    by (simp add: v session_mounts(2) [simplified] bind_def)
  ultimately show ?thesis using 1 2 s' inner by simp
qed

text \<open>
  The aliases of a workspace come before those of a session: a path the workspace rewrites is routed as
  rewritten, and the session sees it only when it is still under its mount.
\<close>

lemma workspace_alias_first:
  assumes "resolve_aliases v t path = path'" and "resolve_mount (vf_mounts v) path' = Some (fs, sub)"
  shows "fs_ls (vfs_file_system v t) path = fs_ls fs sub"
  using assms by (simp add: vfs_file_system_def vfs_resolve_def Let_def bind_def)

section \<open>Example\<close>

definition demo_json :: json_text where
  "demo_json = \<lparr>jt_from_str = (\<lambda>_. None), jt_to_vec = (\<lambda>_. None), jt_lossy = id\<rparr>"

definition demo_write :: open_options where
  "demo_write = \<lparr>oo_read = False, oo_write = False, oo_append = False, oo_truncate = False, oo_create = True, oo_create_new = False\<rparr>"

theorem variable_roundtrip_witness:
  "\<exists>d d1 d2. fst (var_open demo_json ''/a'' demo_write []) = Ok d \<and> vd_write_bytes ''hi'' d = Inr d1 \<and>
     fst (var_open demo_json ''/a'' demo_write (vd_shutdown demo_json d1 [])) = Ok d2 \<and> fst (vd_read 9 d2) = ''hi''"
proof -
  let ?d = "\<lparr>vd_data = [], vd_pos = 0, vd_write = True, vd_key = ''a''\<rparr>"
  let ?d1 = "?d\<lparr>vd_data := ''hi'', vd_pos := 2\<rparr>"
  let ?d2 = "\<lparr>vd_data = ''hi'', vd_pos = 0, vd_write = True, vd_key = ''a''\<rparr>"
  have key: "path_to_key ''/a'' = ''a''" by (simp add: path_to_key_def split_path_def)
  have 1: "var_open demo_json ''/a'' demo_write [] = (Ok ?d, [])"
    by (simp add: var_open_def key demo_write_def)
  have 2: "vd_write_bytes ''hi'' ?d = Inr ?d1" by (simp add: vd_write_bytes_def)
  have 3: "var_open demo_json ''/a'' demo_write (vd_shutdown demo_json ?d1 []) = (Ok ?d2, vd_shutdown demo_json ?d1 [])"
    by (simp add: var_open_def key demo_write_def vd_shutdown_def decode_value_def encode_value_def demo_json_def Let_def)
  have "fst (vd_read 9 ?d2) = ''hi''"
    using variable_roundtrip [OF _ 1 2 3, of 9] by (simp add: decode_value_def encode_value_def demo_json_def key)
  with 1 2 3 show ?thesis by force
qed

end
