(* ===== verification/Macros.thy ===== *)
theory Macros
  imports Spec
begin

text \<open>
  The entry point macros (\<^verbatim>\<open>marie-macros/src/lib.rs\<close>): \<^verbatim>\<open>rpc!\<close>, \<^verbatim>\<open>job!\<close>, \<^verbatim>\<open>tool!\<close>, \<^verbatim>\<open>node!\<close> and
  their internal forms. An invocation is a list of token trees; it is read into entries, and each
  entry is expanded into the structs, constructors and trait implementation it stands for, or into
  a compile error. The generated tokens are represented by the items they spell.

  The parsing library is a parameter: its parsers of types, patterns, blocks, visibilities,
  attributes and of the entries of a specification block take tokens and return a value with the
  number of tokens they used, or an error. Identifiers are ASCII. A parser is a program on the
  remaining tokens.
\<close>

section \<open>Tokens\<close>

datatype delimiter = Parenthesis | Brace | Bracket

datatype lit = LStr string | LOther string

text \<open>A punctuation character knows whether the next one is joined to it.\<close>

datatype token =
    TIdent string
  | TPunct char bool
  | TLit lit
  | TGroup delimiter "token list"

type_synonym 'a parser = "(token list, error, 'a) prog"

record meta =
  mt_path :: "string option"
  mt_value :: "error + lit"

text \<open>
  An attribute: its path when it is one identifier, the nested items read before the end of the
  list or before an error.
\<close>

record attribute =
  at_path :: "string option"
  at_metas :: "meta list"
  at_error :: "error option"

record ('ty, 'pat, 'block) syn_lib =
  syn_type :: "token list \<Rightarrow> error + 'ty \<times> nat"
  syn_pat :: "token list \<Rightarrow> error + 'pat \<times> nat"
  syn_block :: "token list \<Rightarrow> error + 'block \<times> nat"
  syn_vis :: "token list \<Rightarrow> error + unit \<times> nat"
  syn_attrs :: "token list \<Rightarrow> error + attribute list \<times> nat"
  syn_entries :: "token list \<Rightarrow> error + (string \<times> spec_entry) list"
  syn_accept :: "string \<Rightarrow> bool"
  syn_is_reference :: "'ty \<Rightarrow> bool"

definition call_syn :: "(token list \<Rightarrow> error + 'a \<times> nat) \<Rightarrow> 'a parser" where
  "call_syn p ts = (case p ts of Inl e \<Rightarrow> (Err e, ts) | Inr (a, n) \<Rightarrow> (Ok a, drop n ts))"

fun punct_rest :: "string \<Rightarrow> token list \<Rightarrow> token list option" where
  "punct_rest [c] (TPunct d j # ts) = (if d = c then Some ts else None)"
| "punct_rest (c # cs) (TPunct d j # ts) = (if d = c \<and> j then punct_rest cs ts else None)"
| "punct_rest _ _ = None"

definition peek_punct :: "string \<Rightarrow> bool parser" where
  "peek_punct p = gets (\<lambda>ts. punct_rest p ts \<noteq> None)"

definition parse_punct :: "string \<Rightarrow> unit parser" where
  "parse_punct p ts = (case punct_rest p ts of
      Some ts' \<Rightarrow> (Ok (), ts')
    | None \<Rightarrow> (Err (err_msg (''expected `'' @ p @ ''`'')), ts))"

definition parse_keyword :: "string \<Rightarrow> unit parser" where
  "parse_keyword k ts = (case ts of
      TIdent s # ts' \<Rightarrow> if s = k then (Ok (), ts') else (Err (err_msg (''expected `'' @ k @ ''`'')), ts)
    | _ \<Rightarrow> (Err (err_msg (''expected `'' @ k @ ''`'')), ts))"

definition parse_ident :: "('ty, 'pat, 'block) syn_lib \<Rightarrow> string parser" where
  "parse_ident sy ts = (case ts of
      TIdent s # ts' \<Rightarrow> if syn_accept sy s then (Ok s, ts') else (Err (err_msg ''expected identifier''), ts)
    | _ \<Rightarrow> (Err (err_msg ''expected identifier''), ts))"

definition peek_group :: "delimiter \<Rightarrow> bool parser" where
  "peek_group d = gets (\<lambda>ts. case ts of TGroup d' _ # _ \<Rightarrow> d' = d | _ \<Rightarrow> False)"

fun group_name :: "delimiter \<Rightarrow> string" where
  "group_name Parenthesis = ''parentheses''"
| "group_name Brace = ''curly braces''"
| "group_name Bracket = ''square brackets''"

definition parse_group :: "delimiter \<Rightarrow> token list parser" where
  "parse_group d ts = (case ts of
      TGroup d' inner # ts' \<Rightarrow> if d' = d then (Ok inner, ts') else (Err (err_msg (''expected '' @ group_name d)), ts)
    | _ \<Rightarrow> (Err (err_msg (''expected '' @ group_name d)), ts))"

text \<open>A parser run on the content of a group, and \<^verbatim>\<open>map_err\<close>.\<close>

definition within :: "token list \<Rightarrow> 'a parser \<Rightarrow> 'a parser" where
  "within inner p ts = (fst (p inner), ts)"

definition with_error :: "error \<Rightarrow> 'a parser \<Rightarrow> 'a parser" where
  "with_error e p ts = (case p ts of (Err _, ts') \<Rightarrow> (Err e, ts') | r \<Rightarrow> r)"

section \<open>What parsers consume\<close>

text \<open>The parsers return a suffix of their input, a proper one where a token is required.\<close>

definition shrinks :: "'a parser \<Rightarrow> bool" where
  "shrinks p \<longleftrightarrow> (\<forall>ts a ts'. p ts = (Ok a, ts') \<longrightarrow> length ts' \<le> length ts)"

definition consumes :: "'a parser \<Rightarrow> bool" where
  "consumes p \<longleftrightarrow> (\<forall>ts a ts'. p ts = (Ok a, ts') \<longrightarrow> length ts' < length ts)"

lemma consumesD: "consumes p \<Longrightarrow> p ts = (Ok a, ts') \<Longrightarrow> length ts' < length ts"
  by (simp add: consumes_def)

lemma shrinksD: "shrinks p \<Longrightarrow> p ts = (Ok a, ts') \<Longrightarrow> length ts' \<le> length ts"
  by (simp add: shrinks_def)

named_theorems consume_intro "composition rules for what parsers consume"

lemma consumes_shrinks: "consumes p \<Longrightarrow> shrinks p"
  by (force simp: consumes_def shrinks_def)

lemma shrinks_ret [consume_intro]: "shrinks (ret a)"
  by (simp add: shrinks_def)

lemma shrinks_throw [consume_intro]: "shrinks (throw e)"
  by (simp add: shrinks_def)

lemma shrinks_of_sum [consume_intro]: "shrinks (of_sum r)"
  by (cases r) (simp_all add: shrinks_def)

lemma shrinks_gets [consume_intro]: "shrinks (gets f)"
  by (simp add: shrinks_def)

lemma shrinks_peek [consume_intro]: "shrinks (peek_punct p)" "shrinks (peek_group d)"
  by (simp_all add: peek_punct_def peek_group_def consume_intro)

lemma shrinks_call_syn [consume_intro]: "shrinks (call_syn p)"
  by (auto simp: shrinks_def call_syn_def split: sum.splits prod.splits)

lemma shrinks_within [consume_intro]: "shrinks (within inner p)"
  by (simp add: shrinks_def within_def)

lemma bind_Ok: "bind m k s = (Ok b, s'') \<longleftrightarrow> (\<exists>a s'. m s = (Ok a, s') \<and> k a s' = (Ok b, s''))"
  by (auto simp: bind_def split: prod.splits outcome.splits)

lemma shrinks_bind [consume_intro]: "shrinks m \<Longrightarrow> (\<And>a. shrinks (k a)) \<Longrightarrow> shrinks (bind m k)"
  unfolding shrinks_def bind_Ok by (meson order_trans)

lemma shrinks_seq [consume_intro]: "shrinks m \<Longrightarrow> shrinks k \<Longrightarrow> shrinks (seq m k)"
  by (simp add: seq_def shrinks_bind)

lemma shrinks_if [consume_intro]: "shrinks m \<Longrightarrow> shrinks k \<Longrightarrow> shrinks (if b then m else k)"
  by simp

lemma shrinks_with_error [consume_intro]: "shrinks p \<Longrightarrow> shrinks (with_error e p)"
  by (auto simp: shrinks_def with_error_def split: prod.splits outcome.splits)

lemma punct_rest_length: "punct_rest p ts = Some ts' \<Longrightarrow> length ts' < length ts"
  by (induction p ts rule: punct_rest.induct) (fastforce split: if_splits)+

lemma consumes_parse_punct: "consumes (parse_punct p)"
  by (auto simp: consumes_def parse_punct_def dest: punct_rest_length split: option.splits)

lemma consumes_parse_ident: "consumes (parse_ident sy)"
  by (auto simp: consumes_def parse_ident_def split: list.splits token.splits if_splits)

lemma consumes_parse_keyword: "consumes (parse_keyword k)"
  by (auto simp: consumes_def parse_keyword_def split: list.splits token.splits if_splits)

lemma consumes_parse_group: "consumes (parse_group d)"
  by (auto simp: consumes_def parse_group_def split: list.splits token.splits if_splits)

lemmas token_shrinks [consume_intro] =
  consumes_parse_punct [THEN consumes_shrinks] consumes_parse_ident [THEN consumes_shrinks]
  consumes_parse_keyword [THEN consumes_shrinks] consumes_parse_group [THEN consumes_shrinks]

lemma consumes_bind: "consumes m \<Longrightarrow> (\<And>a. shrinks (k a)) \<Longrightarrow> consumes (bind m k)"
  unfolding shrinks_def consumes_def bind_Ok by (meson order.strict_trans1)

lemma consumes_bind2: "shrinks m \<Longrightarrow> (\<And>a. consumes (k a)) \<Longrightarrow> consumes (bind m k)"
  unfolding shrinks_def consumes_def bind_Ok by (meson order.strict_trans2)

lemma consumes_seq: "consumes m \<Longrightarrow> shrinks k \<Longrightarrow> consumes (seq m k)"
  by (simp add: seq_def consumes_bind)

lemma consumes_seq2: "shrinks m \<Longrightarrow> consumes k \<Longrightarrow> consumes (seq m k)"
  by (simp add: seq_def consumes_bind2)

section \<open>Entries\<close>

datatype 'ty self_fields =
    SelfUnit
  | SelfTuple "'ty list"
  | SelfNamed "(string \<times> 'ty) list"

definition parse_named_field :: "('ty, 'pat, 'block) syn_lib \<Rightarrow> (string \<times> 'ty) parser" where
  "parse_named_field sy =
     bind (parse_ident sy) (\<lambda>name.
     seq (parse_punct '':'')
     (bind (call_syn (syn_type sy)) (\<lambda>ty. ret (name, ty))))"

lemma consumes_named_field: "consumes (parse_named_field sy)"
  unfolding parse_named_field_def by (rule consumes_bind [OF consumes_parse_ident]) (intro consume_intro)

text \<open>Fields separated by commas until the end of the braces; the last comma is optional.\<close>

function parse_named_fields :: "('ty, 'pat, 'block) syn_lib \<Rightarrow> (string \<times> 'ty) list parser" where
  "parse_named_fields sy ts =
     (if ts = [] then (Ok [], ts)
      else case parse_named_field sy ts of
          (Ok f, ts') \<Rightarrow>
            (if ts' = [] then (Ok [f], ts')
             else case parse_punct '','' ts' of
                 (Ok _, ts'') \<Rightarrow> (case parse_named_fields sy ts'' of
                     (Ok fs, r) \<Rightarrow> (Ok (f # fs), r)
                   | (Err e, r) \<Rightarrow> (Err e, r)
                   | (Panic m, r) \<Rightarrow> (Panic m, r))
               | (Err e, ts'') \<Rightarrow> (Err e, ts'')
               | (Panic m, ts'') \<Rightarrow> (Panic m, ts''))
        | (Err e, ts') \<Rightarrow> (Err e, ts')
        | (Panic m, ts') \<Rightarrow> (Panic m, ts'))"
  by pat_completeness auto
termination
  by (relation "measure (\<lambda>(sy, ts). length ts)")
     (auto dest!: sym [of "(_, _)"] consumesD [OF consumes_named_field] consumesD [OF consumes_parse_punct])

text \<open>The types of \<^verbatim>\<open>Self<..>\<close>, up to the closing bracket.\<close>

function parse_types :: "('ty, 'pat, 'block) syn_lib \<Rightarrow> 'ty list parser" where
  "parse_types sy ts =
     (if punct_rest ''>'' ts \<noteq> None then (Ok [], ts)
      else case call_syn (syn_type sy) ts of
          (Ok ty, ts') \<Rightarrow> (case punct_rest '','' ts' of
              None \<Rightarrow> (Ok [ty], ts')
            | Some ts'' \<Rightarrow> (case parse_types sy ts'' of
                  (Ok tys, r) \<Rightarrow> (Ok (ty # tys), r)
                | (Err e, r) \<Rightarrow> (Err e, r)
                | (Panic m, r) \<Rightarrow> (Panic m, r)))
        | (Err e, ts') \<Rightarrow> (Err e, ts')
        | (Panic m, ts') \<Rightarrow> (Panic m, ts'))"
  by pat_completeness auto
termination
  by (relation "measure (\<lambda>(sy, ts). length ts)")
     (auto dest!: sym [of "(_, _)"] punct_rest_length shrinksD [OF shrinks_call_syn])

declare parse_named_fields.simps [simp del] parse_types.simps [simp del]

lemma shrinks_parse_types [consume_intro]: "shrinks (parse_types sy)"
proof -
  have "parse_types sy ts = (Ok a, ts') \<Longrightarrow> length ts' \<le> length ts" for ts a ts'
  proof (induction sy ts arbitrary: a ts' rule: parse_types.induct)
    case (1 sy ts)
    show ?case
    proof (cases "punct_rest ''>'' ts")
      case None
      with "1.prems" obtain ty r where r: "call_syn (syn_type sy) ts = (Ok ty, r)"
        by (auto simp: parse_types.simps [of sy ts] split: prod.splits outcome.splits)
      note le = shrinksD [OF shrinks_call_syn r]
      show ?thesis
      proof (cases "punct_rest '','' r")
        case (Some r')
        with None r "1.prems" obtain tys where "parse_types sy r' = (Ok tys, ts')"
          by (auto simp: parse_types.simps [of sy ts] split: prod.splits outcome.splits)
        with "1.IH" [OF _ r [symmetric] refl Some] None le punct_rest_length [OF Some] show ?thesis by force
      qed (use None r "1.prems" le in \<open>simp add: parse_types.simps [of sy ts]\<close>)
    qed (use "1.prems" in \<open>simp add: parse_types.simps [of sy ts]\<close>)
  qed
  then show ?thesis by (simp add: shrinks_def)
qed

definition parse_self_fields :: "('ty, 'pat, 'block) syn_lib \<Rightarrow> 'ty self_fields parser" where
  "parse_self_fields sy =
     bind (peek_punct ''<'') (\<lambda>generic.
     if \<not> generic then ret SelfUnit
     else seq (parse_punct ''<'')
       (bind (peek_group Brace) (\<lambda>braced.
        bind (if braced
              then bind (parse_group Brace) (\<lambda>content.
                   bind (within content (parse_named_fields sy)) (\<lambda>named. ret (SelfNamed named)))
              else bind (parse_types sy) (\<lambda>types. ret (SelfTuple types))) (\<lambda>fields.
        seq (parse_punct ''>'') (ret fields)))))"

lemma shrinks_self_fields [consume_intro]: "shrinks (parse_self_fields sy)"
  unfolding parse_self_fields_def by (intro consume_intro)

record ('ty, 'pat, 'block) item =
  it_attrs :: "attribute list"
  it_fn_name :: string
  it_self_fields :: "'ty self_fields"
  it_args_pat :: 'pat
  it_args_ty :: 'ty
  it_third :: "('pat \<times> 'ty) option"
  it_return_ty :: 'ty
  it_body :: 'block

text \<open>
  The pieces shared by the two kinds of entries: attributes, visibility and name; \<^verbatim>\<open>self: Self<..>\<close>
  with the comma after it; the return type and the body.
\<close>

definition parse_fn_head :: "('ty, 'pat, 'block) syn_lib \<Rightarrow> (attribute list \<times> string) parser" where
  "parse_fn_head sy =
     bind (call_syn (syn_attrs sy)) (\<lambda>attrs.
     seq (call_syn (syn_vis sy))
     (seq (parse_keyword ''async'')
     (seq (parse_keyword ''fn'')
     (bind (parse_ident sy) (\<lambda>fn_name. ret (attrs, fn_name))))))"

definition parse_self :: "('ty, 'pat, 'block) syn_lib \<Rightarrow> string \<Rightarrow> 'ty self_fields parser" where
  "parse_self sy missing =
     seq (parse_keyword ''self'')
     (seq (parse_punct '':'')
     (seq (with_error (err_msg ''le type de `self` doit etre `Self`'') (parse_keyword ''Self''))
     (bind (parse_self_fields sy) (\<lambda>self_fields.
      seq (with_error (err_msg missing) (parse_punct '','')) (ret self_fields)))))"

definition parse_typed_pat :: "('ty, 'pat, 'block) syn_lib \<Rightarrow> ('pat \<times> 'ty) parser" where
  "parse_typed_pat sy =
     bind (call_syn (syn_pat sy)) (\<lambda>pat.
     seq (parse_punct '':'')
     (bind (call_syn (syn_type sy)) (\<lambda>ty. ret (pat, ty))))"

definition parse_no_more :: "unit parser" where
  "parse_no_more ts = (if ts = [] then (Ok (), ts)
     else (Err (err_msg ''trop de parametres pour cette macro''), ts))"

definition parse_return :: "('ty, 'pat, 'block) syn_lib \<Rightarrow> ('ty \<times> 'block) parser" where
  "parse_return sy =
     seq (with_error (err_msg ''un type de retour est requis : `-> Return`'') (parse_punct ''->''))
     (bind (call_syn (syn_type sy)) (\<lambda>return_ty.
      bind (call_syn (syn_block sy)) (\<lambda>body. ret (return_ty, body))))"

definition parse_item :: "('ty, 'pat, 'block) syn_lib \<Rightarrow> ('ty, 'pat, 'block) item parser" where
  "parse_item sy =
     bind (parse_fn_head sy) (\<lambda>(attrs, fn_name).
     bind (parse_group Parenthesis) (\<lambda>content.
     bind (within content
       (bind (parse_self sy ''parametre `args` manquant : `fn ..(self: Self<..>, args: Args) -> Return`'') (\<lambda>self_fields.
        bind (parse_typed_pat sy) (\<lambda>(args_pat, args_ty).
        bind (peek_punct '','') (\<lambda>more.
        bind (if more then seq (parse_punct '','') (bind (parse_typed_pat sy) (\<lambda>t. ret (Some t))) else ret None) (\<lambda>third.
        seq parse_no_more (ret (self_fields, args_pat, args_ty, third))))))))
       (\<lambda>(self_fields, args_pat, args_ty, third).
     bind (parse_return sy) (\<lambda>(return_ty, body).
     ret \<lparr>it_attrs = attrs, it_fn_name = fn_name, it_self_fields = self_fields,
       it_args_pat = args_pat, it_args_ty = args_ty, it_third = third,
       it_return_ty = return_ty, it_body = body\<rparr>))))"

record ('ty, 'pat, 'block) node_item =
  ni_spec :: spec_block
  ni_attrs :: "attribute list"
  ni_fn_name :: string
  ni_self_fields :: "'ty self_fields"
  ni_ctx_pat :: 'pat
  ni_ctx_ty :: 'ty
  ni_return_ty :: 'ty
  ni_body :: 'block

definition parse_spec_tokens :: "('ty, 'pat, 'block) syn_lib \<Rightarrow> token list \<Rightarrow> error + spec_block" where
  "parse_spec_tokens sy content = (case syn_entries sy content of
      Inl e \<Rightarrow> Inl e
    | Inr es \<Rightarrow> parse_spec_block es [] \<lparr>block_budget = None, block_channels = []\<rparr>)"

definition spec_required :: error where
  "spec_required = err_msg ''un bloc `spec = { ... }` est requis avant chaque node''"

definition parse_node_item :: "('ty, 'pat, 'block) syn_lib \<Rightarrow> ('ty, 'pat, 'block) node_item parser" where
  "parse_node_item sy =
     bind (with_error spec_required (parse_ident sy)) (\<lambda>spec_kw.
     seq (if spec_kw \<noteq> ''spec'' then throw spec_required else ret ())
     (seq (parse_punct ''='')
     (bind (parse_group Brace) (\<lambda>spec_content.
      bind (of_sum (parse_spec_tokens sy spec_content)) (\<lambda>spec.
      bind (parse_fn_head sy) (\<lambda>(attrs, fn_name).
      bind (parse_group Parenthesis) (\<lambda>content.
      bind (within content
        (bind (parse_self sy ''parametre `ctx` manquant : `fn ..(self: Self<..>, ctx: NodeContext) -> Return`'') (\<lambda>self_fields.
         bind (parse_typed_pat sy) (\<lambda>(ctx_pat, ctx_ty).
         seq parse_no_more (ret (self_fields, ctx_pat, ctx_ty))))))
        (\<lambda>(self_fields, ctx_pat, ctx_ty).
      bind (parse_return sy) (\<lambda>(return_ty, body).
      ret \<lparr>ni_spec = spec, ni_attrs = attrs, ni_fn_name = fn_name, ni_self_fields = self_fields,
        ni_ctx_pat = ctx_pat, ni_ctx_ty = ctx_ty, ni_return_ty = return_ty, ni_body = body\<rparr>)))))))))"

lemma consumes_fn_head: "consumes (parse_fn_head sy)"
  unfolding parse_fn_head_def
  by (intro consumes_bind2 [OF shrinks_call_syn] consumes_seq2 [OF shrinks_call_syn]
      consumes_seq [OF consumes_parse_keyword] consume_intro)

lemma shrinks_prod [consume_intro]: "(\<And>a b. shrinks (k a b)) \<Longrightarrow> shrinks (case x of (a, b) \<Rightarrow> k a b)"
  by (cases x) simp

lemma shrinks_return [consume_intro]: "shrinks (parse_return sy)"
  unfolding parse_return_def by (intro consume_intro)

lemma consumes_item: "consumes (parse_item sy)"
  unfolding parse_item_def by (rule consumes_bind [OF consumes_fn_head]) (intro consume_intro)

lemma consumes_with_error: "consumes p \<Longrightarrow> consumes (with_error e p)"
  by (auto simp: consumes_def with_error_def split: prod.splits outcome.splits)

lemma consumes_node_item: "consumes (parse_node_item sy)"
  unfolding parse_node_item_def
  by (rule consumes_bind [OF consumes_with_error [OF consumes_parse_ident]])
     (intro consume_intro consumes_fn_head [THEN consumes_shrinks])

text \<open>The entries of an invocation, one after the other.\<close>

function parse_items :: "('ty, 'pat, 'block) syn_lib \<Rightarrow> token list \<Rightarrow> (error, ('ty, 'pat, 'block) item list) outcome" where
  "parse_items sy ts =
     (if ts = [] then Ok []
      else case parse_item sy ts of
          (Ok i, ts') \<Rightarrow> (case parse_items sy ts' of
              Ok is \<Rightarrow> Ok (i # is) | Err e \<Rightarrow> Err e | Panic m \<Rightarrow> Panic m)
        | (Err e, ts') \<Rightarrow> Err e
        | (Panic m, ts') \<Rightarrow> Panic m)"
  by pat_completeness auto
termination
  by (relation "measure (\<lambda>(sy, ts). length ts)")
     (auto dest!: sym [of "(_, _)"] consumesD [OF consumes_item])

function parse_node_items ::
  "('ty, 'pat, 'block) syn_lib \<Rightarrow> token list \<Rightarrow> (error, ('ty, 'pat, 'block) node_item list) outcome" where
  "parse_node_items sy ts =
     (if ts = [] then Ok []
      else case parse_node_item sy ts of
          (Ok i, ts') \<Rightarrow> (case parse_node_items sy ts' of
              Ok is \<Rightarrow> Ok (i # is) | Err e \<Rightarrow> Err e | Panic m \<Rightarrow> Panic m)
        | (Err e, ts') \<Rightarrow> Err e
        | (Panic m, ts') \<Rightarrow> Panic m)"
  by pat_completeness auto
termination
  by (relation "measure (\<lambda>(sy, ts). length ts)")
     (auto dest!: sym [of "(_, _)"] consumesD [OF consumes_node_item])

declare parse_items.simps [simp del] parse_node_items.simps [simp del]

section \<open>Generated code\<close>

datatype cfg = CfgFeature string | CfgNot string

datatype 'ty struct_shape =
    UnitStruct
  | TupleStruct "'ty list"
  | NamedStruct "(string \<times> 'ty) list"

record 'ty gen_struct =
  gs_docs :: "attribute list"
  gs_cfg :: cfg
  gs_derive :: string
  gs_name :: string
  gs_shape :: "'ty struct_shape"

text \<open>
  A type of the generated code: one the entry wrote, a struct of the expansion, a path under the
  crate, a mutable reference, or the result type of the crate.
\<close>

datatype 'ty gen_type =
    GWritten 'ty
  | GStruct string
  | GCrate string "string list"
  | GRefMut 'ty
  | GResult string 'ty

text \<open>The value \<^verbatim>\<open>new\<close> returns: a unit, its parameters in order, or fields of its argument.\<close>

datatype construct =
    BuildUnit
  | BuildTuple "string list"
  | BuildNamed string "(string \<times> string) list"

record 'ty gen_new =
  gn_cfg :: cfg
  gn_struct :: string
  gn_params :: "(string \<times> 'ty gen_type) list"
  gn_body :: construct

record ('ty, 'pat, 'block) gen_impl =
  gi_crate :: string
  gi_trait :: "string list"
  gi_struct :: string
  gi_name :: string
  gi_description :: "string option"
  gi_assoc :: "('ty \<times> 'ty) option"
  gi_common_spec :: "common_spec option"
  gi_feature :: string
  gi_params :: "('pat option \<times> 'ty gen_type) list"
  gi_return :: "'ty gen_type"
  gi_body :: 'block

record ('ty, 'pat, 'block) expansion =
  ex_executor :: "'ty gen_struct"
  ex_non_executor :: "'ty gen_struct"
  ex_args :: "'ty gen_struct option"
  ex_executor_new :: "'ty gen_new"
  ex_non_executor_new :: "'ty gen_new"
  ex_impl :: "('ty, 'pat, 'block) gen_impl"

datatype ('ty, 'pat, 'block) generated =
    Generated "('ty, 'pat, 'block) expansion"
  | CompileError error

section \<open>Expansion\<close>

record kind =
  kd_attr_name :: string
  kd_feature :: string
  kd_trait_path :: "string list"
  kd_default_third :: bool
  kd_wrap_return :: bool
  kd_description :: bool

definition rpc_kind :: kind where
  "rpc_kind = \<lparr>kd_attr_name = ''rpc'', kd_feature = ''rpc-executor'',
     kd_trait_path = [''rpc'', ''RemoteProcedureCall''], kd_default_third = True,
     kd_wrap_return = False, kd_description = False\<rparr>"

definition job_kind :: kind where
  "job_kind = \<lparr>kd_attr_name = ''job'', kd_feature = ''job-executor'',
     kd_trait_path = [''job'', ''Job''], kd_default_third = False,
     kd_wrap_return = True, kd_description = False\<rparr>"

definition tool_kind :: kind where
  "tool_kind = \<lparr>kd_attr_name = ''tool'', kd_feature = ''tool-executor'',
     kd_trait_path = [''tools'', ''Toolable''], kd_default_third = False,
     kd_wrap_return = True, kd_description = True\<rparr>"

fun split_underscores :: "string \<Rightarrow> string list" where
  "split_underscores [] = [[]]"
| "split_underscores (c # cs) = (if c = CHR ''_'' then [] # split_underscores cs
     else case split_underscores cs of [] \<Rightarrow> [[c]] | p # ps \<Rightarrow> (c # p) # ps)"

definition to_upper :: "char \<Rightarrow> char" where
  "to_upper c = (if 97 \<le> (of_char c :: nat) \<and> (of_char c :: nat) \<le> 122
     then char_of ((of_char c :: nat) - 32) else c)"

fun capitalize :: "string \<Rightarrow> string" where
  "capitalize [] = []"
| "capitalize (c # cs) = to_upper c # cs"

definition to_pascal_case :: "string \<Rightarrow> string" where
  "to_pascal_case s = concat (map capitalize (filter (\<lambda>part. part \<noteq> []) (split_underscores s)))"

definition dashed :: "string \<Rightarrow> string" where
  "dashed s = map (\<lambda>c. if c = CHR ''_'' then CHR ''-'' else c) s"

text \<open>What the constructor of identifiers accepts; it panics on anything else.\<close>

definition ident_start :: "char \<Rightarrow> bool" where
  "ident_start c \<longleftrightarrow> c = CHR ''_'' \<or> (let n = of_char c :: nat in 65 \<le> n \<and> n \<le> 90 \<or> 97 \<le> n \<and> n \<le> 122)"

definition ident_char :: "char \<Rightarrow> bool" where
  "ident_char c \<longleftrightarrow> ident_start c \<or> (let n = of_char c :: nat in 48 \<le> n \<and> n \<le> 57)"

definition is_ident :: "string \<Rightarrow> bool" where
  "is_ident s \<longleftrightarrow> s \<noteq> [] \<and> ident_start (hd s) \<and> list_all ident_char s"

definition build_tuple_new :: "string \<Rightarrow> 'ty list \<Rightarrow> cfg \<Rightarrow> 'ty gen_new" where
  "build_tuple_new struct_name field_types c =
     (if field_types = []
      then \<lparr>gn_cfg = c, gn_struct = struct_name, gn_params = [], gn_body = BuildUnit\<rparr>
      else let params = map (\<lambda>i. ''field'' @ show_nat i) [0..<length field_types] in
        \<lparr>gn_cfg = c, gn_struct = struct_name,
          gn_params = zip params (map GWritten field_types), gn_body = BuildTuple params\<rparr>)"

definition build_self_fields_code ::
  "string \<Rightarrow> 'ty self_fields \<Rightarrow> string \<Rightarrow> attribute list \<Rightarrow>
   'ty gen_struct \<times> 'ty gen_struct \<times> 'ty gen_struct option \<times> 'ty gen_new \<times> 'ty gen_new" where
  "build_self_fields_code struct_name sf feature docs =
     (let executor = (\<lambda>shape. \<lparr>gs_docs = docs, gs_cfg = CfgFeature feature, gs_derive = ''Clone'',
            gs_name = struct_name, gs_shape = shape\<rparr>);
          non_executor = \<lparr>gs_docs = docs, gs_cfg = CfgNot feature, gs_derive = ''Clone'',
            gs_name = struct_name, gs_shape = UnitStruct\<rparr>;
          non_executor_new = build_tuple_new struct_name [] (CfgNot feature)
      in case sf of
          SelfUnit \<Rightarrow> (executor UnitStruct, non_executor, None,
            build_tuple_new struct_name [] (CfgFeature feature), non_executor_new)
        | SelfTuple tys \<Rightarrow> (executor (if tys = [] then UnitStruct else TupleStruct tys), non_executor, None,
            build_tuple_new struct_name tys (CfgFeature feature), non_executor_new)
        | SelfNamed flds \<Rightarrow> (executor (NamedStruct flds), non_executor,
            Some \<lparr>gs_docs = [], gs_cfg = CfgFeature feature, gs_derive = ''TypedBuilder'',
              gs_name = struct_name @ ''Params'', gs_shape = NamedStruct flds\<rparr>,
            \<lparr>gn_cfg = CfgFeature feature, gn_struct = struct_name,
              gn_params = [(''args'', GStruct (struct_name @ ''Params''))],
              gn_body = BuildNamed ''args'' (map (\<lambda>(n, _). (n, n)) flds)\<rparr>,
            non_executor_new))"

text \<open>The name and the description read from the nested items of the attribute of the macro.\<close>

fun read_metas ::
  "string \<Rightarrow> bool \<Rightarrow> meta list \<Rightarrow> string option \<times> string option \<Rightarrow> error + string option \<times> string option" where
  "read_metas attr described [] st = Inr st"
| "read_metas attr described (m # ms) (name, description) =
     (if mt_path m = Some ''name'' then
        (case mt_value m of
          Inl e \<Rightarrow> Inl e
        | Inr (LStr v) \<Rightarrow> read_metas attr described ms (Some v, description)
        | Inr (LOther _) \<Rightarrow> Inl (err_msg ''`name` attend une chaine litterale''))
      else if described \<and> mt_path m = Some ''description'' then
        (case mt_value m of
          Inl e \<Rightarrow> Inl e
        | Inr (LStr v) \<Rightarrow> read_metas attr described ms (name, Some v)
        | Inr (LOther _) \<Rightarrow> Inl (err_msg ''`description` attend une chaine litterale''))
      else if described then
        Inl (err_msg (''attribut `'' @ attr @ ''` inconnu, seuls `name`/`description` sont supportes''))
      else Inl (err_msg (''attribut `'' @ attr @ ''` inconnu, seul `name` est supporte'')))"

definition parse_nested_meta ::
  "string \<Rightarrow> bool \<Rightarrow> attribute \<Rightarrow> string option \<times> string option \<Rightarrow> error + string option \<times> string option" where
  "parse_nested_meta attr described a st = (case read_metas attr described (at_metas a) st of
      Inl e \<Rightarrow> Inl e
    | Inr st' \<Rightarrow> (case at_error a of Some e \<Rightarrow> Inl e | None \<Rightarrow> Inr st'))"

text \<open>The attributes of an entry: its name, its description and its documentation.\<close>

fun read_attrs ::
  "string \<Rightarrow> bool \<Rightarrow> attribute list \<Rightarrow> string option \<times> string option \<Rightarrow> attribute list \<Rightarrow>
   error + (string option \<times> string option) \<times> attribute list" where
  "read_attrs attr described [] st docs = Inr (st, docs)"
| "read_attrs attr described (a # as) st docs =
     (if at_path a = Some attr then
        (case parse_nested_meta attr described a st of
          Inl e \<Rightarrow> Inl e
        | Inr st' \<Rightarrow> read_attrs attr described as st' docs)
      else if at_path a = Some ''doc'' then read_attrs attr described as st (docs @ [a])
      else if described then
        Inl (err_msg (''seul l'attribut `#['' @ attr @ ''(name = \"...\", description = \"...\")]` est supporte ici''))
      else Inl (err_msg (''seul l'attribut `#['' @ attr @ ''(name = \"...\")]` est supporte ici'')))"

definition expand_one ::
  "('ty, 'pat, 'block) item \<Rightarrow> string \<Rightarrow> kind \<Rightarrow> (error, ('ty, 'pat, 'block) expansion) outcome" where
  "expand_one i crate_path k = (case read_attrs (kd_attr_name k) (kd_description k) (it_attrs i) (None, None) [] of
      Inl e \<Rightarrow> Err e
    | Inr ((name, description), docs) \<Rightarrow>
        if kd_description k \<and> description = None then
          Err (err_msg (''une description est requise : `#['' @ kd_attr_name k @ ''(description = \"...\")]`''))
        else let struct_name = to_pascal_case (it_fn_name i) in
          if \<not> is_ident struct_name then Panic (struct_name @ '' is not a valid Ident'')
          else case build_self_fields_code struct_name (it_self_fields i) (kd_feature k) docs of
            (executor, non_executor, args, executor_new, non_executor_new) \<Rightarrow>
              Ok \<lparr>ex_executor = executor, ex_non_executor = non_executor, ex_args = args,
                ex_executor_new = executor_new, ex_non_executor_new = non_executor_new,
                ex_impl = \<lparr>gi_crate = crate_path, gi_trait = kd_trait_path k, gi_struct = struct_name,
                  gi_name = (case name of Some n \<Rightarrow> n | None \<Rightarrow> dashed (it_fn_name i)),
                  gi_description = description,
                  gi_assoc = Some (it_args_ty i, it_return_ty i),
                  gi_common_spec = None,
                  gi_feature = kd_feature k,
                  gi_params = (Some (it_args_pat i), GWritten (it_args_ty i)) #
                    (case it_third i of
                      Some (pat, ty) \<Rightarrow> [(Some pat, GWritten ty)]
                    | None \<Rightarrow> if kd_default_third k then [(None, GCrate crate_path [''node'', ''NodeId''])] else []),
                  gi_return = (if kd_wrap_return k then GResult crate_path (it_return_ty i)
                    else GWritten (it_return_ty i)),
                  gi_body = it_body i\<rparr>\<rparr>)"

definition NODE_FEATURE :: string where
  "NODE_FEATURE = ''node-executor''"

definition expand_node_one ::
  "('ty, 'pat, 'block) syn_lib \<Rightarrow> ('ty, 'pat, 'block) node_item \<Rightarrow> string \<Rightarrow>
   (error, ('ty, 'pat, 'block) expansion) outcome" where
  "expand_node_one sy i crate_path = (case read_attrs ''node'' False (ni_attrs i) (None, None) [] of
      Inl e \<Rightarrow> Err e
    | Inr ((name, _), docs) \<Rightarrow>
        let struct_name = to_pascal_case (ni_fn_name i) in
          if \<not> is_ident struct_name then Panic (struct_name @ '' is not a valid Ident'')
          else case build_self_fields_code struct_name (ni_self_fields i) NODE_FEATURE docs of
            (executor, non_executor, args, executor_new, non_executor_new) \<Rightarrow>
              Ok \<lparr>ex_executor = executor, ex_non_executor = non_executor, ex_args = args,
                ex_executor_new = executor_new, ex_non_executor_new = non_executor_new,
                ex_impl = \<lparr>gi_crate = crate_path, gi_trait = [''graph'', ''node'', ''Nodable''],
                  gi_struct = struct_name,
                  gi_name = (case name of Some n \<Rightarrow> n | None \<Rightarrow> dashed (ni_fn_name i)),
                  gi_description = None, gi_assoc = None,
                  gi_common_spec = Some (build_common_spec (ni_spec i)),
                  gi_feature = NODE_FEATURE,
                  gi_params = [(Some (ni_ctx_pat i),
                    if syn_is_reference sy (ni_ctx_ty i) then GWritten (ni_ctx_ty i) else GRefMut (ni_ctx_ty i))],
                  gi_return = GWritten (ni_return_ty i),
                  gi_body = ni_body i\<rparr>\<rparr>)"

text \<open>
  An entry that cannot be expanded becomes a compile error among the others; an invocation that
  cannot be read becomes a single one. A panic ends the macro.
\<close>

fun expand_all :: "('i \<Rightarrow> (error, ('ty, 'pat, 'block) expansion) outcome) \<Rightarrow> 'i list \<Rightarrow>
    (error, ('ty, 'pat, 'block) generated list) outcome" where
  "expand_all f [] = Ok []"
| "expand_all f (i # is) = (case f i of
      Panic m \<Rightarrow> Panic m
    | Ok x \<Rightarrow> (case expand_all f is of Ok gs \<Rightarrow> Ok (Generated x # gs) | r \<Rightarrow> r)
    | Err e \<Rightarrow> (case expand_all f is of Ok gs \<Rightarrow> Ok (CompileError e # gs) | r \<Rightarrow> r))"

definition expand :: "('ty, 'pat, 'block) syn_lib \<Rightarrow> token list \<Rightarrow> string \<Rightarrow> kind \<Rightarrow>
    (error, ('ty, 'pat, 'block) generated list) outcome" where
  "expand sy input crate_path k = (case parse_items sy input of
      Err e \<Rightarrow> Ok [CompileError e]
    | Panic m \<Rightarrow> Panic m
    | Ok is \<Rightarrow> expand_all (\<lambda>i. expand_one i crate_path k) is)"

definition expand_node :: "('ty, 'pat, 'block) syn_lib \<Rightarrow> token list \<Rightarrow> string \<Rightarrow>
    (error, ('ty, 'pat, 'block) generated list) outcome" where
  "expand_node sy input crate_path = (case parse_node_items sy input of
      Err e \<Rightarrow> Ok [CompileError e]
    | Panic m \<Rightarrow> Panic m
    | Ok is \<Rightarrow> expand_all (\<lambda>i. expand_node_one sy i crate_path) is)"

definition macro_rpc where "macro_rpc sy input = expand sy input ''::marie'' rpc_kind"
definition macro_core_rpc where "macro_core_rpc sy input = expand sy input ''crate'' rpc_kind"
definition macro_job where "macro_job sy input = expand sy input ''::marie'' job_kind"
definition macro_core_job where "macro_core_job sy input = expand sy input ''crate'' job_kind"
definition macro_tool where "macro_tool sy input = expand sy input ''::marie'' tool_kind"
definition macro_core_tool where "macro_core_tool sy input = expand sy input ''crate'' tool_kind"
definition macro_node where "macro_node sy input = expand_node sy input ''::marie''"
definition macro_core_node where "macro_core_node sy input = expand_node sy input ''crate''"

section \<open>Reading what is written\<close>

text \<open>
  How a declaration is written, given the tokens of types, patterns, blocks, attributes and of the
  visibility.
\<close>

record ('ty, 'pat, 'block) printer =
  pr_type :: "'ty \<Rightarrow> token list"
  pr_pat :: "'pat \<Rightarrow> token list"
  pr_block :: "'block \<Rightarrow> token list"
  pr_attrs :: "attribute list \<Rightarrow> token list"
  pr_vis :: "token list"

abbreviation comma :: token where "comma \<equiv> TPunct CHR '','' False"
abbreviation colon :: token where "colon \<equiv> TPunct CHR '':'' False"

fun type_end :: "token list \<Rightarrow> bool" where
  "type_end [] = True"
| "type_end (TPunct c j # ts) = (c \<in> {CHR '','', CHR ''>''})"
| "type_end (TGroup d inner # ts) = (d = Brace)"
| "type_end (_ # ts) = False"

fun type_start :: "token list \<Rightarrow> bool" where
  "type_start [] = False"
| "type_start (TPunct c j # ts) = (c \<noteq> CHR ''>'')"
| "type_start (TGroup d inner # ts) = (d \<noteq> Brace)"
| "type_start (_ # ts) = True"

text \<open>
  What the parsing library does with them: a type ends at a comma, a closing bracket, a block or
  the end of the group, a pattern before its colon, the attributes before the visibility and the
  visibility before \<^verbatim>\<open>async\<close>.
\<close>

definition prints_back :: "('ty, 'pat, 'block) syn_lib \<Rightarrow> ('ty, 'pat, 'block) printer \<Rightarrow> bool" where
  "prints_back sy pr \<longleftrightarrow>
     (\<forall>t r. type_end r \<longrightarrow> syn_type sy (pr_type pr t @ r) = Inr (t, length (pr_type pr t))) \<and>
     (\<forall>t. type_start (pr_type pr t)) \<and>
     (\<forall>p r. syn_pat sy (pr_pat pr p @ colon # r) = Inr (p, length (pr_pat pr p))) \<and>
     (\<forall>b r. syn_block sy (TGroup Brace (pr_block pr b) # r) = Inr (b, 1)) \<and>
     (\<forall>r. syn_vis sy (pr_vis pr @ TIdent ''async'' # r) = Inr ((), length (pr_vis pr)))"

definition attrs_print_back :: "('ty, 'pat, 'block) syn_lib \<Rightarrow> ('ty, 'pat, 'block) printer \<Rightarrow> attribute list \<Rightarrow> bool" where
  "attrs_print_back sy pr as \<longleftrightarrow> (\<forall>r. syn_attrs sy (pr_attrs pr as @ pr_vis pr @ TIdent ''async'' # r) =
     Inr (as, length (pr_attrs pr as)))"

definition typed_tokens :: "('ty, 'pat, 'block) printer \<Rightarrow> 'pat \<times> 'ty \<Rightarrow> token list" where
  "typed_tokens pr pt = pr_pat pr (fst pt) @ colon # pr_type pr (snd pt)"

fun separated :: "token list list \<Rightarrow> token list" where
  "separated [] = []"
| "separated [x] = x"
| "separated (x # xs) = x @ comma # separated xs"

fun self_tokens :: "('ty, 'pat, 'block) printer \<Rightarrow> 'ty self_fields \<Rightarrow> token list" where
  "self_tokens pr SelfUnit = []"
| "self_tokens pr (SelfTuple tys) =
     TPunct CHR ''<'' False # separated (map (pr_type pr) tys) @ [TPunct CHR ''>'' False]"
| "self_tokens pr (SelfNamed flds) =
     [TPunct CHR ''<'' False,
      TGroup Brace (separated (map (\<lambda>f. TIdent (fst f) # colon # pr_type pr (snd f)) flds)),
      TPunct CHR ''>'' False]"

fun names_accepted :: "('ty, 'pat, 'block) syn_lib \<Rightarrow> 'ty self_fields \<Rightarrow> bool" where
  "names_accepted sy (SelfNamed flds) = list_all (\<lambda>f. syn_accept sy (fst f)) flds"
| "names_accepted sy _ = True"

definition item_tokens :: "('ty, 'pat, 'block) printer \<Rightarrow> ('ty, 'pat, 'block) item \<Rightarrow> token list" where
  "item_tokens pr i =
     pr_attrs pr (it_attrs i) @ pr_vis pr @
     [TIdent ''async'', TIdent ''fn'', TIdent (it_fn_name i),
      TGroup Parenthesis (TIdent ''self'' # colon # TIdent ''Self'' # self_tokens pr (it_self_fields i) @
        comma # typed_tokens pr (it_args_pat i, it_args_ty i) @
        (case it_third i of None \<Rightarrow> [] | Some t \<Rightarrow> comma # typed_tokens pr t)),
      TPunct CHR ''-'' True, TPunct CHR ''>'' False] @
     pr_type pr (it_return_ty i) @ [TGroup Brace (pr_block pr (it_body i))]"

definition node_item_tokens ::
  "('ty, 'pat, 'block) printer \<Rightarrow> token list \<Rightarrow> ('ty, 'pat, 'block) node_item \<Rightarrow> token list" where
  "node_item_tokens pr spec_tokens i =
     [TIdent ''spec'', TPunct CHR ''='' False, TGroup Brace spec_tokens] @
     pr_attrs pr (ni_attrs i) @ pr_vis pr @
     [TIdent ''async'', TIdent ''fn'', TIdent (ni_fn_name i),
      TGroup Parenthesis (TIdent ''self'' # colon # TIdent ''Self'' # self_tokens pr (ni_self_fields i) @
        comma # typed_tokens pr (ni_ctx_pat i, ni_ctx_ty i)),
      TPunct CHR ''-'' True, TPunct CHR ''>'' False] @
     pr_type pr (ni_return_ty i) @ [TGroup Brace (pr_block pr (ni_body i))]"

named_theorems read_simps "what the parsers return on written tokens"

lemma parse_punct_here [read_simps]:
  "parse_punct [c] (TPunct c j # ts) = (Ok (), ts)"
  "parse_punct [c, d] (TPunct c True # TPunct d j # ts) = (Ok (), ts)"
  by (simp_all add: parse_punct_def)

lemma bind_peek [read_simps]:
  "bind (peek_punct p) k ts = k (punct_rest p ts \<noteq> None) ts"
  "bind (peek_group d) k ts = k (case ts of TGroup d' _ # _ \<Rightarrow> d' = d | _ \<Rightarrow> False) ts"
  by (simp_all add: peek_punct_def peek_group_def bind_def)

lemma parse_tokens_here [read_simps]:
  "parse_keyword k (TIdent k # ts) = (Ok (), ts)"
  "syn_accept sy s \<Longrightarrow> parse_ident sy (TIdent s # ts) = (Ok s, ts)"
  "parse_group d (TGroup d inner # ts) = (Ok inner, ts)"
  by (simp_all add: parse_keyword_def parse_ident_def parse_group_def)

lemma combine_app [read_simps]:
  "p inner = (Ok a, r) \<Longrightarrow> within inner p ts = (Ok a, ts)"
  "p ts = (Ok a, r) \<Longrightarrow> with_error e p ts = (Ok a, r)"
  by (simp_all add: within_def with_error_def)

lemma seq_ok [read_simps]: "m s = (Ok a, s') \<Longrightarrow> seq m k s = k s'"
  by (simp add: seq_def bind_def)

lemma call_type:
  "prints_back sy pr \<Longrightarrow> type_end r \<Longrightarrow> call_syn (syn_type sy) (pr_type pr t @ r) = (Ok t, r)"
  by (simp add: prints_back_def call_syn_def)

lemma call_rest [read_simps]:
  assumes "prints_back sy pr"
  shows "call_syn (syn_pat sy) (pr_pat pr p @ colon # r) = (Ok p, colon # r)"
    and "call_syn (syn_block sy) (TGroup Brace (pr_block pr b) # r) = (Ok b, r)"
    and "call_syn (syn_vis sy) (pr_vis pr @ TIdent ''async'' # r) = (Ok (), TIdent ''async'' # r)"
  using assms by (simp_all add: prints_back_def call_syn_def)

lemma call_attrs [read_simps]:
  "attrs_print_back sy pr as \<Longrightarrow>
   call_syn (syn_attrs sy) (pr_attrs pr as @ pr_vis pr @ TIdent ''async'' # r) = (Ok as, pr_vis pr @ TIdent ''async'' # r)"
  by (simp add: attrs_print_back_def call_syn_def)

lemma read_typed [read_simps]:
  "prints_back sy pr \<Longrightarrow> type_end r \<Longrightarrow> parse_typed_pat sy (typed_tokens pr t @ r) = (Ok t, r)"
  by (simp add: parse_typed_pat_def typed_tokens_def bind_ok read_simps call_type)

lemma read_return [read_simps]:
  "prints_back sy pr \<Longrightarrow>
   parse_return sy (TPunct CHR ''-'' True # TPunct CHR ''>'' False # pr_type pr t @ TGroup Brace (pr_block pr b) # r) = (Ok (t, b), r)"
  by (simp add: parse_return_def bind_ok read_simps call_type)

lemma read_head [read_simps]:
  "prints_back sy pr \<Longrightarrow> attrs_print_back sy pr as \<Longrightarrow> syn_accept sy name \<Longrightarrow>
   parse_fn_head sy (pr_attrs pr as @ pr_vis pr @ TIdent ''async'' # TIdent ''fn'' # TIdent name # r) = (Ok (as, name), r)"
  by (simp add: parse_fn_head_def bind_ok read_simps)

lemma type_start_rest:
  "type_start xs \<Longrightarrow> punct_rest ''>'' (xs @ ys) = None \<and>
     \<not> (case xs @ ys of TGroup d' _ # _ \<Rightarrow> d' = Brace | _ \<Rightarrow> False)"
  by (cases xs rule: type_start.cases) auto

lemma read_types:
  assumes "prints_back sy pr"
  shows "parse_types sy (separated (map (pr_type pr) tys) @ TPunct CHR ''>'' j # r) = (Ok tys, TPunct CHR ''>'' j # r)"
proof (induction "map (pr_type pr) tys" arbitrary: tys rule: separated.induct)
  case 1
  then show ?case by (simp add: parse_types.simps)
next
  case (2 x)
  then obtain t where "tys = [t]" "x = pr_type pr t" by auto
  moreover have "punct_rest ''>'' (pr_type pr t @ TPunct CHR ''>'' j # r) = None"
    using assms type_start_rest by (auto simp: prints_back_def)
  ultimately show ?case
    by (simp add: parse_types.simps call_type [OF assms])
next
  case (3 x y zs)
  then obtain t u us where t: "tys = t # u # us" "x = pr_type pr t" "y # zs = map (pr_type pr) (u # us)"
    by (auto simp: map_eq_Cons_conv)
  have "punct_rest ''>'' (pr_type pr t @ rest) = None" for rest
    using assms type_start_rest by (auto simp: prints_back_def)
  then show ?case
    using 3(1) [OF t(3)] t by (simp add: parse_types.simps call_type [OF assms])
qed

lemma read_named_field:
  "prints_back sy pr \<Longrightarrow> syn_accept sy n \<Longrightarrow> type_end r \<Longrightarrow>
   parse_named_field sy (TIdent n # colon # pr_type pr t @ r) = (Ok (n, t), r)"
  by (simp add: parse_named_field_def bind_ok read_simps call_type)

lemma read_named_fields:
  assumes "prints_back sy pr" and "list_all (\<lambda>f. syn_accept sy (fst f)) flds"
  shows "parse_named_fields sy (separated (map (\<lambda>f. TIdent (fst f) # colon # pr_type pr (snd f)) flds)) = (Ok flds, [])"
  using assms(2)
proof (induction "map (\<lambda>f. TIdent (fst f) # colon # pr_type pr (snd f)) flds" arbitrary: flds rule: separated.induct)
  case 1
  then show ?case by (simp add: parse_named_fields.simps)
next
  case (2 x)
  then obtain f where "flds = [f]" by auto
  with 2 show ?case
    using read_named_field [OF assms(1), of "fst f" "[]" "snd f"] by (simp add: parse_named_fields.simps)
next
  case (3 x y zs)
  then obtain f g gs where f: "flds = f # g # gs" "x = TIdent (fst f) # colon # pr_type pr (snd f)"
      "y # zs = map (\<lambda>f. TIdent (fst f) # colon # pr_type pr (snd f)) (g # gs)"
    by (auto simp: map_eq_Cons_conv)
  from 3(1) [OF f(3)] 3(3) f(1) f show ?case
    by (simp add: parse_named_fields.simps [of sy "TIdent (fst f) # _"] read_named_field [OF assms(1)] read_simps)
qed

lemma read_self_fields:
  assumes "prints_back sy pr" and "names_accepted sy sf"
  shows "parse_self_fields sy (self_tokens pr sf @ comma # r) = (Ok sf, comma # r)"
proof (cases sf)
  case SelfUnit
  then show ?thesis by (simp add: parse_self_fields_def bind_ok read_simps)
next
  case (SelfTuple tys)
  have "\<not> (case separated (map (pr_type pr) tys) @ TPunct CHR ''>'' False # comma # r of
      TGroup d' _ # _ \<Rightarrow> d' = Brace | _ \<Rightarrow> False)"
    using assms(1) type_start_rest
    by (cases tys; cases "tl tys") (auto simp: prints_back_def)
  then show ?thesis
    by (simp add: SelfTuple parse_self_fields_def bind_ok read_simps read_types [OF assms(1)])
next
  case (SelfNamed flds)
  with assms(2) show ?thesis
    by (simp add: parse_self_fields_def bind_ok read_simps read_named_fields [OF assms(1)])
qed

lemma read_self [read_simps]:
  "prints_back sy pr \<Longrightarrow> names_accepted sy sf \<Longrightarrow>
   parse_self sy missing (TIdent ''self'' # colon # TIdent ''Self'' # self_tokens pr sf @ comma # r) = (Ok sf, r)"
  by (simp add: parse_self_def bind_ok read_simps read_self_fields)

lemma read_item:
  assumes "prints_back sy pr" and "attrs_print_back sy pr (it_attrs i)"
    and "syn_accept sy (it_fn_name i)" and "names_accepted sy (it_self_fields i)"
  shows "parse_item sy (item_tokens pr i @ r) = (Ok i, r)"
proof -
  have "parse_typed_pat sy (typed_tokens pr t) = (Ok t, [])" for t
    using read_typed [OF assms(1), of "[]"] by simp
  with assms show ?thesis
    by (cases "it_third i") (simp_all add: parse_item_def item_tokens_def bind_ok read_simps parse_no_more_def)
qed

lemma read_node_item:
  assumes "prints_back sy pr" and "attrs_print_back sy pr (ni_attrs i)"
    and "syn_accept sy (ni_fn_name i)" and "names_accepted sy (ni_self_fields i)"
    and "syn_accept sy ''spec''" and "parse_spec_tokens sy spec_tokens = Inr (ni_spec i)"
  shows "parse_node_item sy (node_item_tokens pr spec_tokens i @ r) = (Ok i, r)"
proof -
  have "parse_typed_pat sy (typed_tokens pr t) = (Ok t, [])" for t
    using read_typed [OF assms(1), of "[]"] by simp
  with assms show ?thesis
    by (simp add: parse_node_item_def node_item_tokens_def bind_ok read_simps parse_no_more_def)
qed

lemma read_node_items:
  assumes "prints_back sy pr" and "syn_accept sy ''spec''"
    and "list_all (\<lambda>(st, i). attrs_print_back sy pr (ni_attrs i) \<and> syn_accept sy (ni_fn_name i) \<and> names_accepted sy (ni_self_fields i) \<and>
      parse_spec_tokens sy st = Inr (ni_spec i)) is"
  shows "parse_node_items sy (concat (map (\<lambda>(st, i). node_item_tokens pr st i) is)) = Ok (map snd is)"
  using assms(3)
proof (induction "is")
  case (Cons x xs)
  obtain st i where x: "x = (st, i)" by (cases x)
  have "node_item_tokens pr st i \<noteq> []" by (simp add: node_item_tokens_def)
  with x Cons show ?case by (simp add: parse_node_items.simps [of sy "_ @ _"] read_node_item [OF assms(1) _ _ _ assms(2)])
qed (simp add: parse_node_items.simps)

text \<open>
  C34: the declarations of an invocation are read as they are written. For every way to print types,
  patterns, blocks and attributes that the parsing library reads back, any number of entries
  written one after the other in the grammar of \<^verbatim>\<open>rpc!\<close>, \<^verbatim>\<open>job!\<close> and \<^verbatim>\<open>tool!\<close> (with \<^verbatim>\<open>Self\<close>,
  \<^verbatim>\<open>Self<..>\<close> or \<^verbatim>\<open>Self<{..}>\<close>, with or without the third parameter) parse into those entries.
\<close>

theorem items_read_as_written:
  assumes "prints_back sy pr"
    and "list_all (\<lambda>i. attrs_print_back sy pr (it_attrs i) \<and> syn_accept sy (it_fn_name i) \<and> names_accepted sy (it_self_fields i)) is"
  shows "parse_items sy (concat (map (item_tokens pr) is)) = Ok is"
  using assms(2)
proof (induction "is")
  case (Cons i "is")
  have "item_tokens pr i \<noteq> []" by (simp add: item_tokens_def)
  with Cons show ?case by (simp add: parse_items.simps [of sy "_ @ _"] read_item [OF assms(1)])
qed (simp add: parse_items.simps)

text \<open>
  A library whose types and patterns are single words and whose attributes carry one value, and
  entries of each shape.
\<close>

definition word_attr :: "string \<Rightarrow> string \<Rightarrow> string \<Rightarrow> attribute" where
  "word_attr a n v = \<lparr>at_path = Some a, at_metas = [\<lparr>mt_path = Some n, mt_value = Inr (LStr v)\<rparr>], at_error = None\<rparr>"

definition word_attr_of :: "token \<Rightarrow> attribute option" where
  "word_attr_of g = (case g of
      TGroup Bracket [TIdent a, TGroup Parenthesis [TIdent n, _, TLit (LStr v)]] \<Rightarrow> Some (word_attr a n v)
    | _ \<Rightarrow> None)"

fun word_attrs :: "token list \<Rightarrow> attribute list \<times> nat" where
  "word_attrs (p # g # ts) = (case word_attr_of g of
      Some a \<Rightarrow> (case word_attrs ts of (as, k) \<Rightarrow> (a # as, k + 2))
    | None \<Rightarrow> ([], 0))"
| "word_attrs _ = ([], 0)"

definition word_syn :: "(string, string, token list) syn_lib" where
  "word_syn = \<lparr>
     syn_type = (\<lambda>ts. case ts of TIdent s # _ \<Rightarrow> Inr (s, 1) | _ \<Rightarrow> Inl (err_msg ''expected type'')),
     syn_pat = (\<lambda>ts. case ts of TIdent s # _ \<Rightarrow> Inr (s, 1) | _ \<Rightarrow> Inl (err_msg ''expected pattern'')),
     syn_block = (\<lambda>ts. case ts of TGroup Brace b # _ \<Rightarrow> Inr (b, 1) | _ \<Rightarrow> Inl (err_msg ''expected block'')),
     syn_vis = (\<lambda>ts. case ts of TIdent s # _ \<Rightarrow> Inr ((), if s = ''pub'' then 1 else 0) | _ \<Rightarrow> Inr ((), 0)),
     syn_attrs = (\<lambda>ts. Inr (word_attrs ts)),
     syn_entries = (\<lambda>ts. Inr []),
     syn_accept = (\<lambda>s. s \<notin> {''async'', ''fn'', ''self'', ''Self'', ''pub''}),
     syn_is_reference = (\<lambda>_. False)\<rparr>"

definition word_printer :: "(string, string, token list) printer" where
  "word_printer = \<lparr>pr_type = (\<lambda>s. [TIdent s]), pr_pat = (\<lambda>s. [TIdent s]), pr_block = (\<lambda>b. b),
     pr_attrs = (\<lambda>as. concat (map (\<lambda>a. case at_metas a of
         [m] \<Rightarrow> (case mt_value m of
           Inr v \<Rightarrow> [TPunct CHR ''#'' False, TGroup Bracket [TIdent (the (at_path a)),
             TGroup Parenthesis [TIdent (the (mt_path m)), TPunct CHR ''='' False, TLit v]]]
         | Inl _ \<Rightarrow> [])
       | _ \<Rightarrow> []) as)),
     pr_vis = [TIdent ''pub'']\<rparr>"

lemma word_syn_reads: "prints_back word_syn word_printer"
  by (simp add: prints_back_def word_syn_def word_printer_def)

definition example_item :: "string \<Rightarrow> attribute list \<Rightarrow> string self_fields \<Rightarrow> (string \<times> string) option \<Rightarrow> (string, string, token list) item" where
  "example_item name attrs sf third = \<lparr>it_attrs = attrs, it_fn_name = name, it_self_fields = sf,
     it_args_pat = ''job'', it_args_ty = ''JobInstance'', it_third = third,
     it_return_ty = ''JobAck'', it_body = [TIdent ''ack'']\<rparr>"

definition example_items :: "(string, string, token list) item list" where
  "example_items =
     [example_item ''schedule_job'' [word_attr ''rpc'' ''name'' ''/marie/workers/schedule-job''] (SelfTuple [''Worker'']) None,
      example_item ''run_frame'' [] (SelfNamed [(''models'', ''Models''), (''tools'', ''Tools'')]) (Some (''caller'', ''NodeId'')),
      example_item ''ping'' [] SelfUnit None]"

lemma example_items_accepted:
  "list_all (\<lambda>i. attrs_print_back word_syn word_printer (it_attrs i) \<and> syn_accept word_syn (it_fn_name i) \<and>
     names_accepted word_syn (it_self_fields i)) example_items"
  by (simp add: example_items_def example_item_def attrs_print_back_def word_syn_def word_printer_def word_attr_def word_attr_of_def)

theorem items_read_as_written_witness:
  "parse_items word_syn (concat (map (item_tokens word_printer) example_items)) = Ok example_items"
  by (rule items_read_as_written [OF word_syn_reads example_items_accepted])

section \<open>What is generated\<close>

text \<open>\<^verbatim>\<open>#[cfg(..)]\<close>: whether an item is compiled under a set of features.\<close>

fun active :: "string set \<Rightarrow> cfg \<Rightarrow> bool" where
  "active fs (CfgFeature f) = (f \<in> fs)"
| "active fs (CfgNot f) = (f \<notin> fs)"

definition structs_of :: "('ty, 'pat, 'block) expansion \<Rightarrow> string set \<Rightarrow> 'ty gen_struct list" where
  "structs_of x fs = filter (\<lambda>s. active fs (gs_cfg s))
     ([ex_executor x, ex_non_executor x] @ (case ex_args x of None \<Rightarrow> [] | Some a \<Rightarrow> [a]))"

definition news_of :: "('ty, 'pat, 'block) expansion \<Rightarrow> string set \<Rightarrow> 'ty gen_new list" where
  "news_of x fs = filter (\<lambda>n. active fs (gn_cfg n)) [ex_executor_new x, ex_non_executor_new x]"

text \<open>
  A constructor builds a struct: it is well typed among the structs that are compiled, and gives
  every field a value of its type.
\<close>

definition field_of :: "'ty gen_struct list \<Rightarrow> 'ty gen_type option \<Rightarrow> string \<Rightarrow> 'ty option" where
  "field_of structs t f = (case t of
      Some (GStruct name) \<Rightarrow> (case find (\<lambda>s. gs_name s = name) structs of
          Some s \<Rightarrow> (case gs_shape s of NamedStruct flds \<Rightarrow> map_of flds f | _ \<Rightarrow> None)
        | None \<Rightarrow> None)
    | _ \<Rightarrow> None)"

definition builds :: "'ty gen_struct list \<Rightarrow> 'ty gen_new \<Rightarrow> 'ty gen_struct \<Rightarrow> bool" where
  "builds structs n s \<longleftrightarrow> gn_struct n = gs_name s \<and> distinct (map fst (gn_params n)) \<and>
     (case gn_body n of
        BuildUnit \<Rightarrow> gs_shape s = UnitStruct
      | BuildTuple xs \<Rightarrow> (case gs_shape s of
          TupleStruct tys \<Rightarrow> map (map_of (gn_params n)) xs = map (\<lambda>t. Some (GWritten t)) tys
        | _ \<Rightarrow> False)
      | BuildNamed a inits \<Rightarrow> (case gs_shape s of
          NamedStruct flds \<Rightarrow> map fst inits = map fst flds \<and>
            map (\<lambda>i. field_of structs (map_of (gn_params n) a) (snd i)) inits = map (\<lambda>f. Some (snd f)) flds
        | _ \<Rightarrow> False))"

fun state_shape :: "'ty self_fields \<Rightarrow> 'ty struct_shape" where
  "state_shape SelfUnit = UnitStruct"
| "state_shape (SelfTuple tys) = (if tys = [] then UnitStruct else TupleStruct tys)"
| "state_shape (SelfNamed flds) = NamedStruct flds"

fun distinct_fields :: "'ty self_fields \<Rightarrow> bool" where
  "distinct_fields (SelfNamed flds) = distinct (map fst flds)"
| "distinct_fields _ = True"

lemma map_of_zip_map: "distinct ps \<Longrightarrow> length ps = length ys \<Longrightarrow> map (map_of (zip ps ys)) ps = map Some ys"
  by (intro nth_equalityI) (simp_all add: map_of_zip_nth)

lemma tuple_new_builds:
  assumes "gs_name s = name" and "gs_shape s = (if tys = [] then UnitStruct else TupleStruct tys)"
  shows "builds structs (build_tuple_new name tys c) s"
proof (cases "tys = []")
  case False
  let ?ps = "map (\<lambda>i. ''field'' @ show_nat i) [0..<length tys]"
  have d: "distinct ?ps"
    by (auto simp: distinct_map inj_on_def dest: show_nat_inj)
  then have "map (map_of (zip ?ps (map GWritten tys))) ?ps = map (\<lambda>t. Some (GWritten t)) tys"
    using map_of_zip_map [of ?ps "map GWritten tys"] by simp
  with False assms d show ?thesis by (simp add: builds_def build_tuple_new_def Let_def)
qed (use assms in \<open>simp add: builds_def build_tuple_new_def\<close>)

lemma named_new_builds:
  assumes "distinct (map fst flds)" and "find (\<lambda>s. gs_name s = params) structs = Some p"
    and "gs_shape p = NamedStruct flds" and "gs_shape s = NamedStruct flds" and "gs_name s = name"
  shows "builds structs \<lparr>gn_cfg = c, gn_struct = name, gn_params = [(a, GStruct params)],
    gn_body = BuildNamed a (map (\<lambda>(n, _). (n, n)) flds)\<rparr> s"
  using assms by (auto simp: builds_def field_of_def comp_def case_prod_beta)

lemma gn_active: "gn_cfg (build_tuple_new name tys c) = c"
  by (simp add: build_tuple_new_def Let_def)

lemma self_fields_built:
  assumes "build_self_fields_code name sf feature docs =
      (ex_executor x, ex_non_executor x, ex_args x, ex_executor_new x, ex_non_executor_new x)"
    and "distinct_fields sf"
  shows "\<exists>s n. filter (\<lambda>s. gs_name s = name) (structs_of x fs) = [s] \<and> news_of x fs = [n] \<and>
    builds (structs_of x fs) n s \<and>
    gs_shape s = (if feature \<in> fs then state_shape sf else UnitStruct)"
proof -
  obtain e ne a en nn i where x: "x = \<lparr>ex_executor = e, ex_non_executor = ne, ex_args = a,
      ex_executor_new = en, ex_non_executor_new = nn, ex_impl = i\<rparr>"
    by (cases x)
  have ne: "gs_cfg ne = CfgNot feature" "gs_name ne = name" "gs_shape ne = UnitStruct"
    "nn = build_tuple_new name [] (CfgNot feature)"
    and e: "gs_cfg e = CfgFeature feature" "gs_name e = name" "gs_shape e = state_shape sf" "gn_cfg en = CfgFeature feature"
    and a: "pred_option (\<lambda>p. gs_cfg p = CfgFeature feature \<and> gs_name p = name @ ''Params'' \<and> gs_shape p = state_shape sf) a"
    using assms(1) by (cases sf; auto simp: x build_self_fields_code_def Let_def gn_active)+
  show ?thesis
  proof (cases "feature \<in> fs")
    case True
    have built: "builds (e # (case a of None \<Rightarrow> [] | Some p \<Rightarrow> [p])) en e"
    proof (cases sf)
      case (SelfNamed flds)
      with assms e a show ?thesis
        by (auto simp: x build_self_fields_code_def Let_def intro!: named_new_builds)
    qed (use assms(1) e in \<open>auto simp: x build_self_fields_code_def Let_def intro!: tuple_new_builds\<close>)
    have "structs_of x fs = e # (case a of None \<Rightarrow> [] | Some p \<Rightarrow> [p])"
      using True ne(1) e(1) a by (cases a) (simp_all add: x structs_of_def)
    moreover have "filter (\<lambda>s. gs_name s = name) (e # (case a of None \<Rightarrow> [] | Some p \<Rightarrow> [p])) = [e]"
      using e(2) a by (cases a) simp_all
    moreover have "news_of x fs = [en]" using True e(4) ne(4) by (simp add: x news_of_def gn_active)
    ultimately show ?thesis using True built e(3) by simp
  next
    case False
    have "structs_of x fs = [ne]"
      using False ne(1) e(1) a by (cases a) (simp_all add: x structs_of_def)
    moreover have "news_of x fs = [nn]" using False e(4) ne(4) by (simp add: x news_of_def gn_active)
    moreover have "builds [ne] nn ne" using ne by (simp add: tuple_new_builds)
    ultimately show ?thesis using False ne by simp
  qed
qed

text \<open>
  C35: whatever the features of the crate, the code generated for an entry declares its struct once
  and one constructor that builds it: with the feature of the executor the struct carries the
  declared state and \<^verbatim>\<open>new\<close> gives each field a value of its type, from its parameters in order or
  from the fields of the parameter struct; without it both are empty. The trait is implemented for
  that struct under the written name, or under the name of the function with dashes.
\<close>

theorem generated_state_is_built:
  assumes "expand_one i crate_path k = Ok x" and "distinct_fields (it_self_fields i)"
  shows "\<exists>s n. filter (\<lambda>s. gs_name s = to_pascal_case (it_fn_name i)) (structs_of x fs) = [s] \<and>
    news_of x fs = [n] \<and> builds (structs_of x fs) n s \<and>
    gs_shape s = (if kd_feature k \<in> fs then state_shape (it_self_fields i) else UnitStruct) \<and>
    gi_struct (ex_impl x) = gs_name s \<and> is_ident (gs_name s)"
proof -
  from assms(1) obtain st docs where
    b: "build_self_fields_code (to_pascal_case (it_fn_name i)) (it_self_fields i) (kd_feature k) docs =
        (ex_executor x, ex_non_executor x, ex_args x, ex_executor_new x, ex_non_executor_new x)"
    and i: "gi_struct (ex_impl x) = to_pascal_case (it_fn_name i)" "is_ident (to_pascal_case (it_fn_name i))"
    by (auto simp: expand_one_def Let_def split: sum.splits prod.splits if_splits)
  from self_fields_built [OF b assms(2), of fs] obtain s n where
    s: "filter (\<lambda>s. gs_name s = to_pascal_case (it_fn_name i)) (structs_of x fs) = [s]"
      "news_of x fs = [n]" "builds (structs_of x fs) n s"
      "gs_shape s = (if kd_feature k \<in> fs then state_shape (it_self_fields i) else UnitStruct)"
    by blast
  have "s \<in> set (filter (\<lambda>s. gs_name s = to_pascal_case (it_fn_name i)) (structs_of x fs))"
    using s(1) by simp
  then have "gs_name s = to_pascal_case (it_fn_name i)" by simp
  with s i show ?thesis by auto
qed

definition example_expansion :: "(string, string, token list) expansion" where
  "example_expansion = (case expand_one (example_item ''run_frame'' [] (SelfNamed [(''models'', ''Models''), (''tools'', ''Tools'')]) None)
     ''crate'' job_kind of Ok x \<Rightarrow> x)"

lemma example_expands:
  "expand_one (example_item ''run_frame'' [] (SelfNamed [(''models'', ''Models''), (''tools'', ''Tools'')]) None)
     ''crate'' job_kind = Ok example_expansion"
  by (simp add: example_expansion_def expand_one_def example_item_def job_kind_def to_pascal_case_def
      is_ident_def ident_char_def ident_start_def to_upper_def build_self_fields_code_def Let_def)

lemma run_frame_struct: "to_pascal_case ''run_frame'' = ''RunFrame''"
  by code_simp

theorem generated_state_is_built_witness:
  "\<exists>s n. filter (\<lambda>s. gs_name s = ''RunFrame'') (structs_of example_expansion {''job-executor''}) = [s] \<and>
    news_of example_expansion {''job-executor''} = [n] \<and>
    builds (structs_of example_expansion {''job-executor''}) n s \<and>
    gs_shape s = NamedStruct [(''models'', ''Models''), (''tools'', ''Tools'')]"
  using generated_state_is_built [OF example_expands, of "{''job-executor''}"]
  by (auto simp: example_item_def job_kind_def run_frame_struct)

text \<open>
  The same for a node: the struct and its constructor, and the specification of the trait, which is
  the one its \<^verbatim>\<open>spec\<close> block expands to.
\<close>

lemma node_state_is_built:
  assumes "expand_node_one sy i crate_path = Ok x" and "distinct_fields (ni_self_fields i)"
  shows "gi_common_spec (ex_impl x) = Some (build_common_spec (ni_spec i))"
    and "\<exists>s n. filter (\<lambda>s. gs_name s = to_pascal_case (ni_fn_name i)) (structs_of x fs) = [s] \<and>
      news_of x fs = [n] \<and> builds (structs_of x fs) n s \<and>
      gs_shape s = (if NODE_FEATURE \<in> fs then state_shape (ni_self_fields i) else UnitStruct)"
proof -
  from assms(1) obtain docs where
    "build_self_fields_code (to_pascal_case (ni_fn_name i)) (ni_self_fields i) NODE_FEATURE docs =
        (ex_executor x, ex_non_executor x, ex_args x, ex_executor_new x, ex_non_executor_new x)"
    by (auto simp: expand_node_one_def Let_def split: sum.splits prod.splits if_splits)
  from self_fields_built [OF this assms(2)]
  show "\<exists>s n. filter (\<lambda>s. gs_name s = to_pascal_case (ni_fn_name i)) (structs_of x fs) = [s] \<and>
      news_of x fs = [n] \<and> builds (structs_of x fs) n s \<and>
      gs_shape s = (if NODE_FEATURE \<in> fs then state_shape (ni_self_fields i) else UnitStruct)" .
  show "gi_common_spec (ex_impl x) = Some (build_common_spec (ni_spec i))"
    using assms(1) by (auto simp: expand_node_one_def Let_def split: sum.splits prod.splits if_splits)
qed

text \<open>Each entry gives one output, in order: an entry in error does not hide the others.\<close>

lemma expand_all_each:
  "expand_all f is = Ok gs \<Longrightarrow>
   list_all2 (\<lambda>i g. case g of Generated x \<Rightarrow> f i = Ok x | CompileError e \<Rightarrow> f i = Err e) is gs"
proof (induction "is" arbitrary: gs)
  case (Cons i "is")
  from Cons.prems obtain g gs' where g: "gs = g # gs'" "expand_all f is = Ok gs'"
      "case g of Generated x \<Rightarrow> f i = Ok x | CompileError e \<Rightarrow> f i = Err e"
    by (cases "f i"; cases "expand_all f is") auto
  from Cons.IH [OF g(2)] g(1,3) show ?case by simp
qed simp

text \<open>A tool is generated only with a description; jobs and calls never carry one.\<close>

lemma read_metas_undescribed:
  "read_metas attr False ms st = Inr st' \<Longrightarrow> snd st' = snd st"
proof (induction attr "False" ms st arbitrary: st' rule: read_metas.induct)
  case (2 attr m ms name description)
  then show ?case by (cases "mt_value m") (auto split: if_splits lit.splits)
qed simp

lemma read_attrs_undescribed:
  "read_attrs attr False as st docs = Inr (st', docs') \<Longrightarrow> snd st' = snd st"
proof (induction attr "False" as st docs rule: read_attrs.induct)
  case (2 attr a as st docs)
  then show ?case
    by (auto simp: parse_nested_meta_def split: if_splits sum.splits option.splits dest!: read_metas_undescribed)
qed simp

lemma described_iff_tool:
  assumes "expand_one i crate_path k = Ok x"
  shows "gi_description (ex_impl x) \<noteq> None \<longleftrightarrow> kd_description k"
  using assms read_attrs_undescribed [of "kd_attr_name k" "it_attrs i" "(None, None)" "[]"]
  by (cases "kd_description k")
     (auto simp: expand_one_def Let_def split: sum.splits prod.splits if_splits)

section \<open>Names\<close>

lemma dashed_inj:
  assumes "list_all ident_char a" and "list_all ident_char b" and "dashed a = dashed b"
  shows "a = b"
proof -
  let ?f = "\<lambda>c. if c = CHR ''_'' then CHR ''-'' else c"
  have "\<not> ident_char CHR ''-''" by (simp add: ident_char_def ident_start_def)
  with assms(1,2) have "CHR ''-'' \<notin> set a \<union> set b" by (auto simp: list_all_iff)
  then have "inj_on ?f (set a \<union> set b)" by (intro inj_onI) (metis (full_types))
  with assms(3) show ?thesis by (simp add: dashed_def inj_on_map_eq_map)
qed

text \<open>
  The default names of the entries of a crate are distinct when their functions are. Their structs
  may not be: underscores are dropped and the letter after them is raised.
\<close>

theorem default_names_distinct:
  assumes "distinct (map it_fn_name is)" and "list_all (\<lambda>i. is_ident (it_fn_name i) \<and> it_attrs i = []) is"
    and "list_all2 (\<lambda>i x. expand_one i crate_path k = Ok x) is xs"
  shows "distinct (map (\<lambda>x. gi_name (ex_impl x)) xs)"
proof -
  have name: "gi_name (ex_impl x) = dashed (it_fn_name i)"
    if e: "expand_one i crate_path k = Ok x" and a: "it_attrs i = []" for i x
    using e a by (auto simp: expand_one_def Let_def split: prod.splits if_splits)
  have "list_all2 (\<lambda>x i. gi_name (ex_impl x) = dashed (it_fn_name i)) xs is"
    using assms(2,3) by (simp add: list_all2_conv_all_nth list_all_length name)
  then have "map (\<lambda>x. gi_name (ex_impl x)) xs = map dashed (map it_fn_name is)"
    by (induction rule: list_all2_induct) simp_all
  moreover have "inj_on dashed (set (map it_fn_name is))"
    using assms(2) by (auto simp: inj_on_def list_all_iff is_ident_def intro: dashed_inj)
  ultimately show ?thesis using assms(1) by (simp add: distinct_map comp_inj_on)
qed

lemma struct_names_collide:
  "to_pascal_case ''ask_expert'' = to_pascal_case ''ask__expert''"
  "to_pascal_case ''ask_expert'' = to_pascal_case ''_askExpert''"
  by code_simp+

text \<open>
  Names for which no struct can be declared: the macro panics. A name whose first letter comes
  after underscores only is always fine.
\<close>

lemma no_struct_name:
  "is_ident ''__'' \<and> \<not> is_ident (to_pascal_case ''__'')"
  "is_ident ''_2fa'' \<and> \<not> is_ident (to_pascal_case ''_2fa'')"
  by code_simp+

lemma to_upper_ident: "ident_start c \<Longrightarrow> ident_start (to_upper c)" "ident_char c \<Longrightarrow> ident_char (to_upper c)"
  by (auto simp: to_upper_def ident_char_def ident_start_def Let_def)

lemma capitalize_ident: "list_all ident_char p \<Longrightarrow> list_all ident_char (capitalize p)"
  by (cases p) (simp_all add: to_upper_ident)

lemma split_underscores_cons: "\<exists>p ps. split_underscores s = p # ps"
  by (cases s) (auto split: list.splits)

lemma split_underscores_chars:
  "list_all ident_char s \<Longrightarrow> list_all (list_all ident_char) (split_underscores s)"
  by (induction s) (auto split: list.splits)

lemma pascal_chars: "list_all ident_char s \<Longrightarrow> list_all ident_char (to_pascal_case s)"
  using split_underscores_chars [of s]
  by (auto simp: to_pascal_case_def list_all_iff) (use capitalize_ident in \<open>auto simp: list_all_iff\<close>)

lemma struct_name_valid:
  assumes "list_all ident_char s" and "ident_start c" and "c \<noteq> CHR ''_''"
  shows "is_ident (to_pascal_case (replicate n CHR ''_'' @ c # s))"
proof -
  have u: "to_pascal_case (replicate n CHR ''_'' @ r) = to_pascal_case r" for r
    by (induction n) (simp_all add: to_pascal_case_def)
  obtain p ps where p: "split_underscores s = p # ps" using split_underscores_cons by blast
  have "to_pascal_case (c # s) = to_upper c # p @ concat (map capitalize (filter (\<lambda>part. part \<noteq> []) ps))"
    using assms(3) p by (simp add: to_pascal_case_def)
  moreover have "list_all ident_char (to_pascal_case (c # s))"
    using assms by (intro pascal_chars) (simp add: ident_char_def)
  ultimately show ?thesis unfolding u using assms(2) by (simp add: is_ident_def to_upper_ident)
qed

text \<open>
  An empty list of named fields is not the absence of state: it declares a struct with braces and
  a parameter struct, and the constructor takes an argument.
\<close>

lemma empty_braces_have_params:
  assumes "build_self_fields_code name (SelfNamed []) feature docs = (e, ne, a, en, nn)"
  shows "gs_shape e = NamedStruct []" "\<exists>p. a = Some p \<and> gs_name p = name @ ''Params''" "length (gn_params en) = 1"
  using assms by (auto simp: build_self_fields_code_def Let_def)

lemma empty_brackets_are_unit:
  "build_self_fields_code name (SelfTuple []) feature docs = build_self_fields_code name SelfUnit feature docs"
  by (simp add: build_self_fields_code_def Let_def)

text \<open>A third parameter is accepted where the trait has none.\<close>

lemma third_parameter_of_a_job:
  assumes "expand_one i crate_path job_kind = Ok x" and "it_third i = Some (p, t)"
  shows "gi_params (ex_impl x) = [(Some (it_args_pat i), GWritten (it_args_ty i)), (Some p, GWritten t)]"
  using assms by (auto simp: expand_one_def Let_def split: sum.splits prod.splits if_splits)

lemma caller_is_a_node:
  assumes "expand_one i crate_path rpc_kind = Ok x" and "it_third i = None"
  shows "gi_params (ex_impl x) = [(Some (it_args_pat i), GWritten (it_args_ty i)), (None, GCrate crate_path [''node'', ''NodeId''])]"
  using assms by (auto simp: expand_one_def rpc_kind_def Let_def split: sum.splits prod.splits if_splits)

end
