(* ===== verification/Network.thy ===== *)
theory Network
  imports Messaging Selection
begin

text \<open>
  The network of a node: the task that owns the libp2p swarm and the handles on it
  (\<^verbatim>\<open>marie-core/src/network/swarm.rs\<close>), the strategy trait (\<^verbatim>\<open>network/mod.rs\<close>), the streams
  of events it feeds (\<^verbatim>\<open>events/mod.rs\<close>) and the router of the directory of nodes
  (\<^verbatim>\<open>annuary/mod.rs\<close>). The swarm is third-party code: its events and the outcome of the calls
  made on it are inputs of the task, the calls are recorded, and the bytes of a peer identity are
  the pair of functions \<open>to_bytes\<close> and \<open>from_bytes\<close>.
\<close>

section \<open>Events\<close>

datatype 'peer network_event =
    ReceivedMessage "u8 list" node_id
  | BootstrapDiscovered 'peer
  | NetNodeDisconnected node_id
  | NetNodeConnected node_id
  | EventReceived string string "u8 list" 'peer

text \<open>The events of the swarm the task distinguishes; the others are ignored.\<close>

datatype ('peer, 'addr) swarm_event =
    OnewayRequest 'peer "u8 list"
  | PubSubMessage 'peer string string "u8 list"
  | MdnsDiscovered "('peer \<times> 'addr) list"
  | MdnsExpired "('peer \<times> 'addr) list"
  | IdentifyReceived 'peer string
  | RendezvousDiscovered "'peer list"
  | ConnectionClosed 'peer nat
  | ConnectionEstablished 'peer nat
  | OtherSwarmEvent

datatype ('peer, 'addr) swarm_call =
    ListenOn string
  | SendRequest 'peer "u8 list"
  | GossipSubscribe string
  | GossipUnsubscribe string
  | GossipPublish string "u8 list"
  | Dial 'addr

text \<open>\<^verbatim>\<open>From<PeerId> for NodeId\<close>, and the bytes of a peer identity and back.\<close>

record 'peer peer_ids =
  to_bytes :: "'peer \<Rightarrow> u8 list"
  from_bytes :: "u8 list \<Rightarrow> 'peer option"

definition node_id_of_peer :: "'peer peer_ids \<Rightarrow> 'peer \<Rightarrow> node_id" where
  "node_id_of_peer P p = NodeId (to_bytes P p)"

section \<open>The task of the swarm\<close>

text \<open>
  The task runs until it is told to shut down, a listening call fails or it panics; only the first
  end raises the shutdown signal. \<open>ac_answered\<close> lists the callers of \<^verbatim>\<open>listen\<close> that were answered.
\<close>

datatype actor_status = Serving | ShutDown | ListenFailed | Panicked

record ('peer, 'addr) actor =
  ac_status :: actor_status
  ac_shutdown_signal :: bool
  ac_calls :: "('peer, 'addr) swarm_call list"
  ac_events :: "'peer network_event list"
  ac_answered :: "nat list"

definition actor_new :: "('peer, 'addr) actor" where
  "actor_new = \<lparr>ac_status = Serving, ac_shutdown_signal = False, ac_calls = [], ac_events = [], ac_answered = []\<rparr>"

definition swarm_do :: "('peer, 'addr) swarm_call list \<Rightarrow> ('peer, 'addr) actor \<Rightarrow> ('peer, 'addr) actor" where
  "swarm_do calls a = a\<lparr>ac_calls := ac_calls a @ calls\<rparr>"

definition publish_events :: "'peer network_event list \<Rightarrow> ('peer, 'addr) actor \<Rightarrow> ('peer, 'addr) actor" where
  "publish_events evs a = a\<lparr>ac_events := ac_events a @ evs\<rparr>"

definition actor_command ::
  "'peer peer_ids \<Rightarrow> bool \<Rightarrow> network_command \<Rightarrow> ('peer, 'addr) actor \<Rightarrow> ('peer, 'addr) actor" where
  "actor_command P listens cmd a = (case cmd of
      NetListen tx \<Rightarrow>
        (let a = swarm_do [ListenOn ''/ip4/0.0.0.0/tcp/0''] a in
         if listens then a\<lparr>ac_answered := ac_answered a @ [tx]\<rparr> else a\<lparr>ac_status := ListenFailed\<rparr>)
    | NetSend _ _ \<Rightarrow> (case network_execute (from_bytes P) cmd of
          Ok (Some (peer, data)) \<Rightarrow> swarm_do [SendRequest peer data] a
        | Ok None \<Rightarrow> a
        | Err _ \<Rightarrow> a
        | Panic _ \<Rightarrow> a\<lparr>ac_status := Panicked\<rparr>)
    | NetSubscribe topic \<Rightarrow> swarm_do [GossipSubscribe topic] a
    | NetUnsubscribe topic \<Rightarrow> swarm_do [GossipUnsubscribe topic] a
    | NetPublish topic payload \<Rightarrow> swarm_do [GossipPublish topic payload] a
    | NetShutdown \<Rightarrow> a\<lparr>ac_status := ShutDown, ac_shutdown_signal := True\<rparr>)"

text \<open>\<open>connected\<close> lists the peers the swarm is connected to at the event.\<close>

definition actor_event ::
  "'peer peer_ids \<Rightarrow> 'peer list \<Rightarrow> ('peer, 'addr) swarm_event \<Rightarrow> ('peer, 'addr) actor \<Rightarrow> ('peer, 'addr) actor" where
  "actor_event P connected ev a = (case ev of
      OnewayRequest peer message \<Rightarrow> publish_events [ReceivedMessage message (node_id_of_peer P peer)] a
    | PubSubMessage propagation_source message_id topic data \<Rightarrow>
        publish_events [EventReceived message_id topic data propagation_source] a
    | MdnsDiscovered discovered \<Rightarrow>
        swarm_do (map (\<lambda>(_, addr). Dial addr) (filter (\<lambda>(peer, _). peer \<notin> set connected) discovered)) a
    | MdnsExpired lst \<Rightarrow> publish_events (map (\<lambda>(peer, _). NetNodeDisconnected (node_id_of_peer P peer)) lst) a
    | IdentifyReceived peer agent_version \<Rightarrow>
        (if take (length ''/marie/bootstrap'') agent_version = ''/marie/bootstrap''
         then publish_events [BootstrapDiscovered peer] a else a)
    | RendezvousDiscovered _ \<Rightarrow> a
    | ConnectionClosed peer num_established \<Rightarrow>
        (if num_established = 0 then publish_events [NetNodeDisconnected (node_id_of_peer P peer)] a else a)
    | ConnectionEstablished peer num_established \<Rightarrow>
        (if num_established = 1 then publish_events [NetNodeConnected (node_id_of_peer P peer)] a else a)
    | OtherSwarmEvent \<Rightarrow> a)"

section \<open>Handles\<close>

text \<open>
  \<^verbatim>\<open>SwarmNetwork\<close>: the queue of commands and the number of its clones, the last of which to go
  sends \<^verbatim>\<open>Shutdown\<close>. A command sent when the task is gone is lost.
\<close>

record ('peer, 'addr) swarm_network =
  sn_actor :: "('peer, 'addr) actor"
  sn_commands :: "network_command list"
  sn_handles :: nat

definition swarm_network_new :: "('peer, 'addr) swarm_network" where
  "swarm_network_new = \<lparr>sn_actor = actor_new, sn_commands = [], sn_handles = 1\<rparr>"

abbreviation serving :: "('peer, 'addr) swarm_network \<Rightarrow> bool" where
  "serving s \<equiv> ac_status (sn_actor s) = Serving"

definition swarm_execute :: "network_command \<Rightarrow> ('peer, 'addr) swarm_network \<Rightarrow> ('peer, 'addr) swarm_network" where
  "swarm_execute cmd s = (if serving s then s\<lparr>sn_commands := sn_commands s @ [cmd]\<rparr> else s)"

definition clone_handle :: "('peer, 'addr) swarm_network \<Rightarrow> ('peer, 'addr) swarm_network" where
  "clone_handle s = s\<lparr>sn_handles := sn_handles s + 1\<rparr>"

definition drop_handle :: "('peer, 'addr) swarm_network \<Rightarrow> ('peer, 'addr) swarm_network" where
  "drop_handle s =
     (let s = s\<lparr>sn_handles := sn_handles s - 1\<rparr>
      in if sn_handles s = 0 then swarm_execute NetShutdown s else s)"

definition swarm_shutdown :: "('peer, 'addr) swarm_network \<Rightarrow> ('peer, 'addr) swarm_network" where
  "swarm_shutdown s = swarm_execute NetShutdown s"

text \<open>The provided methods of \<^verbatim>\<open>NetworkStrategy\<close>.\<close>

definition send_message :: "u8 list \<Rightarrow> node_id \<Rightarrow> ('peer, 'addr) swarm_network \<Rightarrow> ('peer, 'addr) swarm_network" where
  "send_message data to s = swarm_execute (NetSend data to) s"

definition emit_event :: "u8 list event_envelope \<Rightarrow> ('peer, 'addr) swarm_network \<Rightarrow> ('peer, 'addr) swarm_network" where
  "emit_event ev s = swarm_execute (NetPublish (ee_topic ev) (ee_payload ev)) s"

definition net_subscribe :: "string \<Rightarrow> ('peer, 'addr) swarm_network \<Rightarrow> ('peer, 'addr) swarm_network" where
  "net_subscribe topic s = swarm_execute (NetSubscribe topic) s"

definition net_unsubscribe :: "string \<Rightarrow> ('peer, 'addr) swarm_network \<Rightarrow> ('peer, 'addr) swarm_network" where
  "net_unsubscribe topic s = swarm_execute (NetUnsubscribe topic) s"

text \<open>
  \<^verbatim>\<open>listen\<close>: the command is sent, then the caller waits for the answer or the end of the task and,
  when it keeps looping, for the shutdown signal or the end of the task.
\<close>

definition listen_send :: "nat \<Rightarrow> ('peer, 'addr) swarm_network \<Rightarrow> ('peer, 'addr) swarm_network" where
  "listen_send tx s = swarm_execute (NetListen tx) s"

definition listen_returns :: "bool \<Rightarrow> nat \<Rightarrow> ('peer, 'addr) swarm_network \<Rightarrow> bool" where
  "listen_returns keep_looping tx s \<longleftrightarrow>
     (tx \<in> set (ac_answered (sn_actor s)) \<or> \<not> serving s) \<and>
     (keep_looping \<longrightarrow> ac_shutdown_signal (sn_actor s) \<or> \<not> serving s)"

text \<open>
  The steps: a client sends a command or comes and goes, the task takes the next command, the swarm
  reports an event. The branches of \<^verbatim>\<open>select!\<close> interleave as the sequence of inputs does.
\<close>

datatype ('peer, 'addr) net_input =
    Executes network_command
  | Clones
  | Drops
  | TakesCommand bool
  | Happens "'peer list" "('peer, 'addr) swarm_event"

fun net_step :: "'peer peer_ids \<Rightarrow> ('peer, 'addr) net_input \<Rightarrow> ('peer, 'addr) swarm_network \<Rightarrow> ('peer, 'addr) swarm_network option" where
  "net_step P (Executes cmd) s = Some (swarm_execute cmd s)"
| "net_step P Clones s = (if 0 < sn_handles s then Some (clone_handle s) else None)"
| "net_step P Drops s = (if 0 < sn_handles s then Some (drop_handle s) else None)"
| "net_step P (TakesCommand listens) s =
     (if serving s then
        (case sn_commands s of
           [] \<Rightarrow> None
         | cmd # cmds \<Rightarrow> Some (s\<lparr>sn_actor := actor_command P listens cmd (sn_actor s), sn_commands := cmds\<rparr>))
      else None)"
| "net_step P (Happens connected ev) s =
     (if serving s then Some (s\<lparr>sn_actor := actor_event P connected ev (sn_actor s)\<rparr>) else None)"

fun net_run :: "'peer peer_ids \<Rightarrow> ('peer, 'addr) net_input list \<Rightarrow> ('peer, 'addr) swarm_network \<Rightarrow> ('peer, 'addr) swarm_network option" where
  "net_run P [] s = Some s"
| "net_run P (i # is) s = (case net_step P i s of None \<Rightarrow> None | Some s' \<Rightarrow> net_run P is s')"

section \<open>Streams\<close>

text \<open>
  \<^verbatim>\<open>NetworkReceiver::poll_next\<close> on what the broadcast channel yields to successive polls:
  an event, a number of lost events, the end, or nothing yet. The notices of loss are skipped.
\<close>

datatype 'a poll = PollReady 'a | PollPending

fun receiver_poll ::
  "(nat + 'peer network_event) option poll list \<Rightarrow>
     'peer network_event option poll \<times> (nat + 'peer network_event) option poll list" where
  "receiver_poll [] = (PollPending, [])"
| "receiver_poll (PollReady (Some (Inr event)) # rest) = (PollReady (Some event), rest)"
| "receiver_poll (PollReady (Some (Inl skipped)) # rest) = receiver_poll rest"
| "receiver_poll (PollReady None # rest) = (PollReady None, rest)"
| "receiver_poll (PollPending # rest) = (PollPending, rest)"

text \<open>\<^verbatim>\<open>NetworkEventRouter::stream_events\<close>, the part that comes from the network.\<close>

definition network_stream :: "string \<Rightarrow> 'peer network_event list \<Rightarrow> u8 list event_envelope list" where
  "network_stream owned_topic evs = List.map_filter (\<lambda>ev. case ev of
      EventReceived i event_topic data _ \<Rightarrow>
        if event_topic = owned_topic then Some \<lparr>ee_id = i, ee_topic = event_topic, ee_payload = data\<rparr> else None
    | _ \<Rightarrow> None) evs"

abbreviation ANNUARY_TOPIC :: string where "ANNUARY_TOPIC \<equiv> ''/marie/annuary''"

text \<open>
  \<^verbatim>\<open>NetworkAnnuaryEventRouter\<close>: it subscribes to its topic when it is made, and its stream merges
  the connections seen by this node with the events gossiped by others.
\<close>

definition annuary_router_new ::
  "'peer peer_ids \<Rightarrow> 'peer \<Rightarrow> ('peer, 'addr) swarm_network \<Rightarrow> own_node_id \<times> ('peer, 'addr) swarm_network" where
  "annuary_router_new P local_peer s = (OwnNodeId (node_id_of_peer P local_peer), net_subscribe ANNUARY_TOPIC s)"

definition annuary_stream :: "(u8 list \<Rightarrow> string + annuary_event) \<Rightarrow> 'peer network_event list \<Rightarrow> annuary_event list" where
  "annuary_stream from_slice evs = List.map_filter (\<lambda>ev. case ev of
      NetNodeConnected n \<Rightarrow> Some (NodeConnected n)
    | NetNodeDisconnected n \<Rightarrow> Some (NodeDisconnected n)
    | EventReceived _ topic data _ \<Rightarrow>
        if topic = ANNUARY_TOPIC then (case from_slice data of Inl _ \<Rightarrow> None | Inr ev \<Rightarrow> Some ev) else None
    | _ \<Rightarrow> None) evs"

text \<open>\<^verbatim>\<open>LocalAnnuaryEventRouter\<close> never yields an event.\<close>

definition local_annuary_stream :: "annuary_event list" where
  "local_annuary_stream = []"

section \<open>What a run emits\<close>

lemmas actor_defs = swarm_do_def publish_events_def

lemma actor_command_events [simp]: "ac_events (actor_command P listens cmd a) = ac_events a"
  by (auto simp: actor_command_def actor_defs Let_def split: network_command.splits outcome.splits option.splits)

text \<open>The events one input adds to the stream.\<close>

fun emitted :: "'peer peer_ids \<Rightarrow> ('peer, 'addr) net_input \<Rightarrow> 'peer network_event list" where
  "emitted P (Happens connected ev) = ac_events (actor_event P connected ev (actor_new :: ('peer, 'addr) actor))"
| "emitted P _ = []"

lemma actor_event_events:
  "ac_events (actor_event P connected ev a) = ac_events a @ emitted P (Happens connected ev)"
  by (simp add: actor_event_def actor_new_def actor_defs split: swarm_event.splits)

lemma swarm_execute_actor [simp]: "sn_actor (swarm_execute cmd s) = sn_actor s"
  by (simp add: swarm_execute_def)

lemma handles_actor [simp]: "sn_actor (clone_handle s) = sn_actor s" "sn_actor (drop_handle s) = sn_actor s"
  by (simp_all add: clone_handle_def drop_handle_def Let_def)

lemma net_step_events:
  "net_step P i s = Some s' \<Longrightarrow> ac_events (sn_actor s') = ac_events (sn_actor s) @ emitted P i"
  by (cases i) (auto simp: actor_event_events simp del: emitted.simps(1) split: if_splits list.splits)

lemma net_run_events:
  "net_run P is s = Some s' \<Longrightarrow> ac_events (sn_actor s') = ac_events (sn_actor s) @ concat (map (emitted P) is)"
  by (induction "is" arbitrary: s) (auto dest: net_step_events split: option.splits)

text \<open>A receiver yields the next event that was not lost, and what is behind it stays.\<close>

lemma receiver_yields_next:
  assumes "receiver_poll xs = (PollReady (Some ev), rest)"
  shows "\<exists>lost. xs = map (\<lambda>n. PollReady (Some (Inl n))) lost @ PollReady (Some (Inr ev)) # rest"
  using assms
proof (induction xs rule: receiver_poll.induct)
  case (3 skipped xs)
  then obtain lost where "xs = map (\<lambda>n. PollReady (Some (Inl n))) lost @ PollReady (Some (Inr ev)) # rest" by auto
  then show ?case by (intro exI [of _ "skipped # lost"]) simp
next
  case (2 event xs)
  then show ?case by (intro exI [of _ "[]"]) simp
qed simp_all

text \<open>What a subscriber to a topic sees of a run: the messages of the topic, in order.\<close>

fun gossip_of :: "string \<Rightarrow> ('peer, 'addr) net_input \<Rightarrow> u8 list event_envelope list" where
  "gossip_of topic (Happens _ (PubSubMessage _ message_id t data)) =
     (if t = topic then [\<lparr>ee_id = message_id, ee_topic = t, ee_payload = data\<rparr>] else [])"
| "gossip_of topic _ = []"

lemma network_stream_append: "network_stream t (xs @ ys) = network_stream t xs @ network_stream t ys"
  by (simp add: network_stream_def List.map_filter_def)

lemma network_stream_emitted: "network_stream topic (emitted P i) = gossip_of topic i"
  by (cases "(topic, i)" rule: gossip_of.cases)
    (auto simp: actor_event_def actor_new_def actor_defs network_stream_def List.map_filter_def filter_empty_conv)

lemma network_stream_run:
  assumes "net_run P is s = Some s'"
  shows "network_stream topic (ac_events (sn_actor s')) =
    network_stream topic (ac_events (sn_actor s)) @ concat (map (gossip_of topic) is)"
proof -
  have "network_stream topic (concat (map (emitted P) is)) = concat (map (gossip_of topic) is)"
    by (induction "is") (simp_all only: list.map concat.simps network_stream_append network_stream_emitted,
        simp add: network_stream_def)
  then show ?thesis by (simp add: net_run_events [OF assms] network_stream_append)
qed

section \<open>Connections\<close>

text \<open>
  What libp2p promises of its connection events: each carries the number of connections to the peer
  that remain established after it.
\<close>

fun conn_after :: "('peer \<Rightarrow> nat) \<Rightarrow> ('peer, 'addr) net_input list \<Rightarrow> 'peer \<Rightarrow> nat" where
  "conn_after c [] = c"
| "conn_after c (i # is) = conn_after (case i of
      Happens _ (ConnectionEstablished p n) \<Rightarrow> c(p := c p + 1)
    | Happens _ (ConnectionClosed p n) \<Rightarrow> c(p := c p - 1)
    | _ \<Rightarrow> c) is"

fun conn_counted :: "('peer \<Rightarrow> nat) \<Rightarrow> ('peer, 'addr) net_input list \<Rightarrow> bool" where
  "conn_counted c [] = True"
| "conn_counted c (i # is) = ((case i of
      Happens _ (ConnectionEstablished p n) \<Rightarrow> n = c p + 1
    | Happens _ (ConnectionClosed p n) \<Rightarrow> c p = n + 1
    | _ \<Rightarrow> True) \<and> conn_counted (conn_after c [i]) is)"

text \<open>
  A message of the topic of the directory arrives, and the nodes such messages announce as
  connected. The program itself never publishes on that topic.
\<close>

fun gossips_annuary :: "('peer, 'addr) net_input \<Rightarrow> bool" where
  "gossips_annuary (Happens _ (PubSubMessage _ _ topic _)) = (topic = ANNUARY_TOPIC)"
| "gossips_annuary _ = False"

fun gossip_announces :: "(u8 list \<Rightarrow> string + annuary_event) \<Rightarrow> ('peer, 'addr) net_input \<Rightarrow> node_id set" where
  "gossip_announces f (Happens _ (PubSubMessage _ _ topic data)) =
     (if topic = ANNUARY_TOPIC then (case f data of Inr (NodeConnected n) \<Rightarrow> {n} | _ \<Rightarrow> {}) else {})"
| "gossip_announces f _ = {}"

definition gossiped :: "(u8 list \<Rightarrow> string + annuary_event) \<Rightarrow> ('peer, 'addr) net_input list \<Rightarrow> node_id set" where
  "gossiped f is = (\<Union>i \<in> set is. gossip_announces f i)"

fun expires_peer :: "('peer, 'addr) net_input \<Rightarrow> bool" where
  "expires_peer (Happens _ (MdnsExpired _)) = True"
| "expires_peer _ = False"

text \<open>The nodes a sequence of directory events leaves connected.\<close>

fun tracked :: "annuary_event list \<Rightarrow> node_id set \<Rightarrow> node_id set" where
  "tracked [] S = S"
| "tracked (NodeConnected n # evs) S = tracked evs (insert n S)"
| "tracked (NodeDisconnected n # evs) S = tracked evs (S - {n})"

lemma annuary_stream_append: "annuary_stream f (xs @ ys) = annuary_stream f xs @ annuary_stream f ys"
  by (simp add: annuary_stream_def List.map_filter_def)

lemma tracked_append: "tracked (xs @ ys) S = tracked ys (tracked xs S)"
  by (induction xs S rule: tracked.induct) simp_all

definition connected_nodes :: "'peer peer_ids \<Rightarrow> ('peer \<Rightarrow> nat) \<Rightarrow> node_id set" where
  "connected_nodes P c = node_id_of_peer P ` {p. 0 < c p}"

lemma node_id_of_peer_inj: "inj (to_bytes P) \<Longrightarrow> node_id_of_peer P p = node_id_of_peer P q \<longleftrightarrow> p = q"
  by (auto simp: node_id_of_peer_def dest: injD)

lemma tracked_disconnects: "tracked (map NodeDisconnected ns) S = S - set ns"
  by (induction ns arbitrary: S) auto

text \<open>The directory events of one input.\<close>

lemma annuary_stream_emitted:
  assumes "\<not> gossips_annuary i"
  shows "annuary_stream f (emitted P i) = (case i of
      Happens _ (ConnectionEstablished p n) \<Rightarrow> if n = 1 then [NodeConnected (node_id_of_peer P p)] else []
    | Happens _ (ConnectionClosed p n) \<Rightarrow> if n = 0 then [NodeDisconnected (node_id_of_peer P p)] else []
    | Happens _ (MdnsExpired lst) \<Rightarrow> map (\<lambda>(p, _). NodeDisconnected (node_id_of_peer P p)) lst
    | _ \<Rightarrow> [])"
  using assms
  by (cases i) (auto simp: actor_event_def actor_new_def actor_defs annuary_stream_def List.map_filter_def comp_def
      case_prod_unfold split: swarm_event.splits)

lemma tracked_mono: "S \<subseteq> S' \<Longrightarrow> tracked evs S \<subseteq> tracked evs S'"
proof (induction evs S arbitrary: S' rule: tracked.induct)
  case (2 n evs S)
  from 2(2) have "insert n S \<subseteq> insert n S'" by blast
  from 2(1) [OF this] show ?case by simp
next
  case (3 n evs S)
  from 3(2) have "S - {n} \<subseteq> S' - {n}" by blast
  from 3(1) [OF this] show ?case by simp
qed simp

lemma connected_nodes_add:
  "connected_nodes P (c(p := Suc n)) = insert (node_id_of_peer P p) (connected_nodes P c)"
  by (auto simp: connected_nodes_def image_iff)

lemma connected_nodes_same: "0 < n \<Longrightarrow> 0 < c p \<Longrightarrow> connected_nodes P (c(p := n)) = connected_nodes P c"
  unfolding connected_nodes_def by (rule arg_cong [where f = "image _"]) auto

lemma connected_nodes_remove:
  "inj (to_bytes P) \<Longrightarrow> connected_nodes P (c(p := 0)) = connected_nodes P c - {node_id_of_peer P p}"
  by (auto simp: connected_nodes_def image_iff node_id_of_peer_inj)

lemma connected_nodes_step:
  assumes "inj (to_bytes P)" and "conn_counted c [i]" and "\<not> gossips_annuary i" and "\<not> expires_peer i"
  shows "tracked (annuary_stream f (emitted P i)) (connected_nodes P c) = connected_nodes P (conn_after c [i])"
proof (cases "\<exists>cs p n. i = Happens cs (ConnectionEstablished p n) \<or> i = Happens cs (ConnectionClosed p n)")
  case True
  then consider cs p n where "i = Happens cs (ConnectionEstablished p n)" | cs p n where "i = Happens cs (ConnectionClosed p n)"
    by blast
  then show ?thesis
  proof cases
    case 1
    with assms(2) have n: "n = Suc (c p)" by simp
    have evs: "annuary_stream f (emitted P i) = (if c p = 0 then [NodeConnected (node_id_of_peer P p)] else [])"
      by (subst annuary_stream_emitted) (simp_all add: 1 n)
    show ?thesis
      unfolding evs by (cases "c p") (simp_all add: 1 connected_nodes_add [of P c p 0, simplified] connected_nodes_same)
  next
    case 2
    with assms(2) have n: "c p = Suc n" by simp
    have evs: "annuary_stream f (emitted P i) = (if n = 0 then [NodeDisconnected (node_id_of_peer P p)] else [])"
      by (subst annuary_stream_emitted) (simp_all add: 2)
    show ?thesis
      unfolding evs by (cases n) (simp_all add: 2 n connected_nodes_remove [OF assms(1)] connected_nodes_same)
  qed
next
  case False
  with assms(3,4) show ?thesis
    by (subst annuary_stream_emitted) (auto split: net_input.splits swarm_event.splits)
qed

lemma tracked_expiry: "\<not> gossips_annuary i \<Longrightarrow> expires_peer i \<Longrightarrow> tracked (annuary_stream f (emitted P i)) S \<subseteq> S \<and> conn_after c [i] = c"
proof (cases i)
  case (Happens cs ev)
  assume "\<not> gossips_annuary i" "expires_peer i"
  then obtain lst where i: "i = Happens cs (MdnsExpired lst)" using Happens by (cases ev) auto
  have "annuary_stream f (emitted P i) = map NodeDisconnected (map (\<lambda>(p, _). node_id_of_peer P p) lst)"
    unfolding i by (subst annuary_stream_emitted) (simp_all add: case_prod_unfold comp_def)
  then show ?thesis by (auto simp only: tracked_disconnects) (simp add: i)
qed auto

lemma conn_after_Cons: "conn_after c (i # is) = conn_after (conn_after c [i]) is"
  by simp

lemma tracked_Un: "tracked evs (S \<union> G) \<subseteq> tracked evs S \<union> G"
proof (induction evs S arbitrary: G rule: tracked.induct)
  case (3 n evs S)
  have "tracked evs (S \<union> G - {n}) \<subseteq> tracked evs ((S - {n}) \<union> G)" by (rule tracked_mono) blast
  with 3 [of G] show ?case by simp
qed simp_all

lemma tracked_gossip:
  "gossips_annuary i \<Longrightarrow>
     tracked (annuary_stream f (emitted P i)) S \<subseteq> S \<union> gossip_announces f i \<and> conn_after c [i] = c"
proof (cases i)
  case (Happens cs ev)
  assume "gossips_annuary i"
  then obtain src mid data where i: "i = Happens cs (PubSubMessage src mid ANNUARY_TOPIC data)"
    using Happens by (cases ev) auto
  have "annuary_stream f (emitted P i) = (case f data of Inl _ \<Rightarrow> [] | Inr ev \<Rightarrow> [ev])"
    by (simp add: i actor_event_def actor_new_def actor_defs annuary_stream_def List.map_filter_def split: sum.splits)
  then show ?thesis by (auto simp: i split: sum.splits annuary_event.splits)
qed auto

lemma tracked_below:
  assumes "inj (to_bytes P)"
  shows "conn_counted c is \<Longrightarrow>
    tracked (annuary_stream f (concat (map (emitted P) is))) (connected_nodes P c)
      \<subseteq> connected_nodes P (conn_after c is) \<union> gossiped f is"
proof (induction "is" arbitrary: c)
  case (Cons i js)
  let ?rest = "annuary_stream f (concat (map (emitted P) js))"
  have one: "tracked (annuary_stream f (emitted P i)) (connected_nodes P c)
      \<subseteq> connected_nodes P (conn_after c [i]) \<union> gossip_announces f i"
  proof -
    consider "gossips_annuary i" | "\<not> gossips_annuary i" "expires_peer i" | "\<not> gossips_annuary i" "\<not> expires_peer i"
      by blast
    then show ?thesis
    proof cases
      case 1
      then show ?thesis using tracked_gossip [of i f P "connected_nodes P c" c] by simp
    next
      case 2
      then show ?thesis using tracked_expiry [of i f P "connected_nodes P c" c] by auto
    next
      case 3
      then show ?thesis using connected_nodes_step [OF assms, of c i f] Cons.prems by simp
    qed
  qed
  have "tracked ?rest (connected_nodes P (conn_after c [i]))
      \<subseteq> connected_nodes P (conn_after (conn_after c [i]) js) \<union> gossiped f js"
    using Cons.prems by (intro Cons.IH) (simp_all del: conn_after.simps)
  with tracked_mono [OF one, of ?rest] tracked_Un [of ?rest "connected_nodes P (conn_after c [i])" "gossip_announces f i"]
  have "tracked ?rest (tracked (annuary_stream f (emitted P i)) (connected_nodes P c))
      \<subseteq> connected_nodes P (conn_after (conn_after c [i]) js) \<union> gossiped f (i # js)"
    unfolding gossiped_def by auto
  then show ?case
    by (simp only: list.map concat.simps annuary_stream_append tracked_append conn_after_Cons [of c i js])
qed (simp add: annuary_stream_def)

lemma tracked_equal:
  assumes "inj (to_bytes P)"
  shows "conn_counted c is \<Longrightarrow> \<forall>i \<in> set is. \<not> gossips_annuary i \<and> \<not> expires_peer i \<Longrightarrow>
    tracked (annuary_stream f (concat (map (emitted P) is))) (connected_nodes P c) = connected_nodes P (conn_after c is)"
proof (induction "is" arbitrary: c)
  case (Cons i js)
  have "tracked (annuary_stream f (emitted P i)) (connected_nodes P c) = connected_nodes P (conn_after c [i])"
    using Cons.prems by (intro connected_nodes_step [OF assms]) simp_all
  moreover have "tracked (annuary_stream f (concat (map (emitted P) js))) (connected_nodes P (conn_after c [i]))
      = connected_nodes P (conn_after (conn_after c [i]) js)"
    using Cons.prems by (intro Cons.IH) (simp_all del: conn_after.simps)
  ultimately show ?case
    by (simp only: list.map concat.simps annuary_stream_append tracked_append conn_after_Cons [of c i js])
qed (simp add: annuary_stream_def)

lemma connected_nodes_none [simp]: "connected_nodes P (\<lambda>_. 0) = {}"
  by (simp add: connected_nodes_def)

text \<open>
  C17: a node starts its network; peers have distinct byte representations, and the number that
  comes with a connection event counts the connections of the peer. Whatever commands are sent
  and executed in between, the directory events that the network has produced leave connected
  only nodes to which a connection is established or which a message received on the topic of
  the directory announced. If no such message was received and no mDNS record has expired, they
  leave connected exactly the nodes to which a connection is established.
\<close>

theorem directory_events_follow_connections:
  assumes "inj (to_bytes P)" and "net_run P is swarm_network_new = Some s"
    and "conn_counted (\<lambda>_. 0) is"
  shows "tracked (annuary_stream f (ac_events (sn_actor s))) {}
      \<subseteq> connected_nodes P (conn_after (\<lambda>_. 0) is) \<union> gossiped f is \<and>
    ((\<forall>i \<in> set is. \<not> gossips_annuary i \<and> \<not> expires_peer i) \<longrightarrow>
      tracked (annuary_stream f (ac_events (sn_actor s))) {} = connected_nodes P (conn_after (\<lambda>_. 0) is))"
proof -
  have evs: "ac_events (sn_actor s) = concat (map (emitted P) is)"
    using net_run_events [OF assms(2)] by (simp add: swarm_network_new_def actor_new_def)
  show ?thesis
    using tracked_below [OF assms(1,3), of f] tracked_equal [OF assms(1,3), of f] by (simp add: evs)
qed

section \<open>A peer whose mDNS record expires\<close>

fun observed :: "annuary_input list \<Rightarrow> annuary_event list" where
  "observed [] = []"
| "observed (Observed ev # is) = ev # observed is"
| "observed (Answered _ _ _ # is) = observed is"

text \<open>A node that is not probed and not reported connected is not listed once it is reported gone.\<close>

lemma annuary_forgets:
  assumes "annuary_run d ins d'"
  shows "n \<notin> set (an_probing d) \<Longrightarrow> NodeConnected n \<notin> set (observed ins) \<Longrightarrow>
    NodeDisconnected n \<in> set (observed ins) \<or> hm_get (an_peers d) n = None \<Longrightarrow> hm_get (an_peers d') n = None"
  using assms
proof (induction rule: annuary_run.induct)
  case (step a i b "is" c)
  show ?case
  proof (cases i)
    case (Observed ev)
    then have b: "b = annuary_handle_event ev a" using step(1) by (simp add: annuary_step_simps)
    show ?thesis
      using step.prems step.IH Observed b
      by (cases ev) (auto simp: on_node_connected_def on_node_disconnected_def)
  next
    case (Answered now m r)
    then have "m \<noteq> n" and b: "b = handle_peer_connection now m r a"
      using step(1) step.prems(1) by (auto simp: annuary_step_simps)
    then have "set (an_probing b) \<subseteq> set (an_probing a)" "hm_get (an_peers b) n = hm_get (an_peers a) n"
      by (auto simp: handle_peer_connection_def Let_def split: option.splits dest: set_remove1_subset [THEN subsetD])
    then show ?thesis using step.prems step.IH Answered by (metis observed.simps(3) subsetD)
  qed
qed simp

text \<open>While a peer stays connected none of its connection events has the number one.\<close>

lemma connected_never_announced:
  assumes "inj (to_bytes P)"
  shows "conn_counted c is \<Longrightarrow> node_id_of_peer P p \<notin> gossiped f is \<Longrightarrow> \<forall>k \<le> length is. 0 < conn_after c (take k is) p \<Longrightarrow>
    NodeConnected (node_id_of_peer P p) \<notin> set (annuary_stream f (concat (map (emitted P) is)))"
proof (induction "is" arbitrary: c)
  case (Cons i js)
  have head: "0 < c p" using Cons.prems(3) by (auto dest: spec [of _ 0])
  have tail: "0 < conn_after (conn_after c [i]) (take k js) p" if "k \<le> length js" for k
    using Cons.prems(3) that by (auto dest: spec [of _ "Suc k"])
  have "NodeConnected (node_id_of_peer P p) \<notin> set (annuary_stream f (emitted P i))"
  proof (cases "gossips_annuary i")
    case True
    then obtain cs src mid data where i: "i = Happens cs (PubSubMessage src mid ANNUARY_TOPIC data)"
      by (cases i rule: gossips_annuary.cases) auto
    then show ?thesis using Cons.prems(2)
      by (auto simp: gossiped_def actor_event_def actor_new_def actor_defs annuary_stream_def List.map_filter_def
          split: sum.splits)
  next
    case False
    then show ?thesis using Cons.prems(1) head
      by (subst annuary_stream_emitted) (auto simp: node_id_of_peer_inj [OF assms] split: net_input.splits swarm_event.splits)
  qed
  moreover have "NodeConnected (node_id_of_peer P p) \<notin> set (annuary_stream f (concat (map (emitted P) js)))"
    using Cons.prems(1,2) tail by (intro Cons.IH [of "conn_after c [i]"]) (simp_all add: gossiped_def del: conn_after.simps)
  ultimately show ?case by (simp add: annuary_stream_append)
qed (simp add: annuary_stream_def)

text \<open>
  C18: a peer's mDNS record expires while it is connected and the directory is not waiting for
  the answer to a capability probe of it. Then the peer is dropped from the directory, and it
  stays out for as long as it stays connected and no message on the topic of the directory
  announces it, because only its first connection is announced. The directory may handle the
  events with answers to its other probes in between; peers have distinct byte representations
  and connection events are numbered. (With a probe of the peer in flight its answer lists the
  peer again: lemma \<open>departed_node_listed\<close>.)
\<close>

theorem expired_peer_forgotten:
  assumes "inj (to_bytes P)" and "net_run P (Happens connected (MdnsExpired lst) # is) s = Some s'"
    and "(p, addr) \<in> set lst" and "node_id_of_peer P p \<notin> gossiped f is" and "conn_counted c is"
    and "\<forall>k \<le> length is. 0 < conn_after c (take k is) p"
    and "annuary_run d ins d'" and "node_id_of_peer P p \<notin> set (an_probing d)"
    and "observed ins = annuary_stream f (drop (length (ac_events (sn_actor s))) (ac_events (sn_actor s')))"
  shows "hm_get (an_peers d') (node_id_of_peer P p) = None"
proof -
  let ?i = "Happens connected (MdnsExpired lst)"
  have "ac_events (sn_actor s') = ac_events (sn_actor s) @ concat (map (emitted P) (?i # is))"
    by (rule net_run_events [OF assms(2)])
  then have seen: "observed ins = annuary_stream f (emitted P ?i) @ annuary_stream f (concat (map (emitted P) is))"
    by (simp del: emitted.simps add: assms(9) annuary_stream_append)
  have expiry: "annuary_stream f (emitted P ?i) = map (\<lambda>(p, _). NodeDisconnected (node_id_of_peer P p)) lst"
    by (subst annuary_stream_emitted) simp_all
  have "NodeDisconnected (node_id_of_peer P p) \<in> set (observed ins)"
    unfolding seen expiry using assms(3) by force
  moreover have "NodeConnected (node_id_of_peer P p) \<notin> set (observed ins)"
    unfolding seen expiry using connected_never_announced [OF assms(1,5,4,6)] by auto
  ultimately show ?thesis using annuary_forgets [OF assms(7,8)] by blast
qed

section \<open>The end of the task\<close>

lemma ended_step:
  assumes "\<not> serving s" and "net_step P i s = Some s'"
  shows "sn_actor s' = sn_actor s \<and> sn_commands s' = sn_commands s"
  using assms by (cases i) (auto simp: swarm_execute_def clone_handle_def drop_handle_def Let_def split: if_splits)

text \<open>Once the task has ended nothing changes any more but the number of handles.\<close>

lemma ended_run:
  "\<not> serving s \<Longrightarrow> net_run P is s = Some s' \<Longrightarrow> sn_actor s' = sn_actor s \<and> sn_commands s' = sn_commands s"
proof (induction "is" arbitrary: s)
  case (Cons i js)
  then obtain t where t: "net_step P i s = Some t" "net_run P js t = Some s'" by (auto split: option.splits)
  with ended_step [OF Cons.prems(1) t(1)] show ?case using Cons.IH [OF _ t(2)] Cons.prems(1) by simp
qed simp

text \<open>
  C12: a node that answers one call of another node has no network any more. The reply is addressed
  to the default identity, the source of every envelope; when the task takes the command it panics,
  and from then on no event is published, no call reaches the swarm and every command is lost,
  whatever the clients do.
\<close>

theorem answered_call_stops_network:
  assumes "carries c (Call call)" and "carries c (Reply \<lparr>rr_id = rc_id call, rr_result = result\<rparr>)"
    and "nr_local_id r \<noteq> node_id_default"
    and "enc ec (sealed c (Reply \<lparr>rr_id = rc_id call, rr_result = result\<rparr>) node_id_default) = Inr data"
    and "execute_call exs call node_id_default = Ok result" and "from_bytes P [] = None"
    and "serving s" and "sn_commands s = []"
  shows "server_receive ec c exs (sealed c (Call call) dest) (NetworkRouter r) =
      (Ok (), NetworkRouter (r\<lparr>nr_commands := nr_commands r @ [NetSend data node_id_default]\<rparr>)) \<and>
    (\<exists>s1. net_run P [Executes (NetSend data node_id_default), TakesCommand listens] s = Some s1 \<and>
      ac_status (sn_actor s1) = Panicked \<and>
      (\<forall>is s2. net_run P is s1 = Some s2 \<longrightarrow>
        ac_events (sn_actor s2) = ac_events (sn_actor s) \<and> ac_calls (sn_actor s2) = ac_calls (sn_actor s) \<and>
        sn_commands s2 = []))"
proof -
  let ?s1 = "s\<lparr>sn_actor := (sn_actor s)\<lparr>ac_status := Panicked\<rparr>\<rparr>"
  have served: "server_receive ec c exs (sealed c (Call call) dest) (NetworkRouter r) =
      (Ok (), NetworkRouter (r\<lparr>nr_commands := nr_commands r @ [NetSend data node_id_default]\<rparr>))"
    using network_call_never_returns [of c call result r ec data exs "from_bytes P" dest] assms(1-6) by blast
  have run: "net_run P [Executes (NetSend data node_id_default), TakesCommand listens] s = Some ?s1"
    using assms(6-8) by (simp add: swarm_execute_def actor_command_def network_execute_def node_id_default_def)
  have "ac_events (sn_actor s2) = ac_events (sn_actor s) \<and> ac_calls (sn_actor s2) = ac_calls (sn_actor s) \<and> sn_commands s2 = []"
    if "net_run P is ?s1 = Some s2" for "is" s2
    using ended_run [OF _ that] assms(8) by simp
  with served run show ?thesis by simp
qed

text \<open>The call a command makes on the swarm, and the commands the task survives.\<close>

fun survives :: "'peer peer_ids \<Rightarrow> network_command \<Rightarrow> bool" where
  "survives P (NetSend _ dest) = (from_bytes P (node_id_bytes dest) \<noteq> None)"
| "survives P NetShutdown = False"
| "survives P _ = True"

fun swarm_calls :: "'peer peer_ids \<Rightarrow> network_command \<Rightarrow> ('peer, 'addr) swarm_call list" where
  "swarm_calls P (NetListen _) = [ListenOn ''/ip4/0.0.0.0/tcp/0'']"
| "swarm_calls P (NetSend data dest) = (case from_bytes P (node_id_bytes dest) of None \<Rightarrow> [] | Some peer \<Rightarrow> [SendRequest peer data])"
| "swarm_calls P (NetSubscribe topic) = [GossipSubscribe topic]"
| "swarm_calls P (NetUnsubscribe topic) = [GossipUnsubscribe topic]"
| "swarm_calls P (NetPublish topic payload) = [GossipPublish topic payload]"
| "swarm_calls P NetShutdown = []"

lemma surviving_command:
  assumes "survives P cmd"
  shows "ac_status (actor_command P True cmd a) = ac_status a"
    and "ac_calls (actor_command P True cmd a) = ac_calls a @ swarm_calls P cmd"
  using assms by (cases cmd; auto simp: actor_command_def network_execute_def actor_defs)+

lemma drains:
  assumes "serving s" and "\<forall>cmd \<in> set cmds. survives P cmd" and "sn_commands s = cmds @ rest"
  shows "\<exists>t. net_run P (replicate (length cmds) (TakesCommand True)) s = Some t \<and> serving t \<and>
    sn_commands t = rest \<and> ac_calls (sn_actor t) = ac_calls (sn_actor s) @ concat (map (swarm_calls P) cmds)"
  using assms
proof (induction cmds arbitrary: s)
  case (Cons cmd cmds)
  let ?t = "s\<lparr>sn_actor := actor_command P True cmd (sn_actor s), sn_commands := cmds @ rest\<rparr>"
  have "net_step P (TakesCommand True) s = Some ?t" using Cons.prems by simp
  moreover have "serving ?t" using Cons.prems by (simp add: surviving_command)
  then obtain u where "net_run P (replicate (length cmds) (TakesCommand True)) ?t = Some u" "serving u"
    "sn_commands u = rest" "ac_calls (sn_actor u) = ac_calls (sn_actor ?t) @ concat (map (swarm_calls P) cmds)"
    using Cons.IH [of ?t] Cons.prems by auto
  ultimately show ?case using Cons.prems by (simp add: surviving_command)
qed simp

lemma net_run_append: "net_run P (is @ js) s = (case net_run P is s of None \<Rightarrow> None | Some t \<Rightarrow> net_run P js t)"
  by (induction "is" arbitrary: s) (auto split: option.splits)

text \<open>
  When the last handle goes, the commands still queued are executed in order, provided that each
  destination is a peer identity and the swarm listens, and then the task ends, raises the shutdown
  signal, and every caller of \<^verbatim>\<open>listen\<close> returns.
\<close>

theorem last_handle_drains_queue:
  assumes "serving s" and "sn_handles s = 1" and "\<forall>cmd \<in> set (sn_commands s). survives P cmd"
  shows "\<exists>t. net_run P (Drops # replicate (Suc (length (sn_commands s))) (TakesCommand True)) s = Some t \<and>
    ac_status (sn_actor t) = ShutDown \<and> ac_shutdown_signal (sn_actor t) \<and> sn_commands t = [] \<and>
    ac_calls (sn_actor t) = ac_calls (sn_actor s) @ concat (map (swarm_calls P) (sn_commands s)) \<and>
    (\<forall>keep_looping tx. listen_returns keep_looping tx t)"
proof -
  let ?d = "drop_handle s"
  have d: "net_step P Drops s = Some ?d" "serving ?d" "sn_commands ?d = sn_commands s @ [NetShutdown]"
    using assms(1,2) by (simp_all add: drop_handle_def swarm_execute_def Let_def)
  then obtain u where u: "net_run P (replicate (length (sn_commands s)) (TakesCommand True)) ?d = Some u" "serving u"
    "sn_commands u = [NetShutdown]" "ac_calls (sn_actor u) = ac_calls (sn_actor ?d) @ concat (map (swarm_calls P) (sn_commands s))"
    using drains [of ?d "sn_commands s" P "[NetShutdown]"] assms(3) by blast
  have split: "replicate (Suc (length (sn_commands s))) (TakesCommand True) =
      replicate (length (sn_commands s)) (TakesCommand True) @ [TakesCommand True]"
    by (simp add: replicate_append_same)
  show ?thesis
    unfolding split net_run.simps d(1) option.case net_run_append u(1)
    using u by (simp add: actor_command_def listen_returns_def)
qed

section \<open>Examples\<close>

definition raw_peers :: "u8 list peer_ids" where
  "raw_peers = \<lparr>to_bytes = (\<lambda>bs. bs), from_bytes = (\<lambda>bs. if bs = [] then None else Some bs)\<rparr>"

lemma raw_peers_inj: "inj (to_bytes raw_peers)"
  by (simp add: raw_peers_def)

definition example_inputs :: "(u8 list, string) net_input list" where
  "example_inputs = [Happens [] (ConnectionEstablished [1] 1), Executes (NetSubscribe ''news''), Happens [[1]] (ConnectionEstablished [2] 1),
     TakesCommand True, Happens [[1], [2]] (ConnectionEstablished [1] 2), Happens [[1], [2]] (ConnectionClosed [2] 0),
     Happens [[1]] (ConnectionClosed [1] 1)]"

theorem directory_events_follow_connections_witness:
  "case net_run raw_peers example_inputs swarm_network_new of None \<Rightarrow> False
   | Some s \<Rightarrow> tracked (annuary_stream (\<lambda>_. Inl ''invalid'') (ac_events (sn_actor s))) {} = {NodeId [1]}"
proof -
  obtain s where s: "net_run raw_peers example_inputs swarm_network_new = Some s"
    by (simp add: example_inputs_def swarm_network_new_def actor_new_def swarm_execute_def actor_command_def actor_event_def actor_defs)
  have "conn_counted (\<lambda>_. 0) example_inputs" by (simp add: example_inputs_def)
  moreover have "\<forall>i \<in> set example_inputs. \<not> gossips_annuary i \<and> \<not> expires_peer i"
    by (simp add: example_inputs_def)
  moreover have "{p. 0 < conn_after (\<lambda>_. 0) example_inputs p} = {[1]}" by (auto simp: example_inputs_def split: if_splits)
  ultimately have "tracked (annuary_stream (\<lambda>_. Inl ''invalid'') (ac_events (sn_actor s))) {} = {NodeId [1]}"
    using directory_events_follow_connections [OF raw_peers_inj s, of "\<lambda>_. Inl ''invalid''"]
    by (simp add: connected_nodes_def node_id_of_peer_def raw_peers_def)
  with s show ?thesis by simp
qed

definition expiring_inputs :: "(u8 list, string) net_input list" where
  "expiring_inputs = [Happens [[1]] (ConnectionEstablished [1] 2), Happens [[1]] (ConnectionClosed [1] 1)]"

theorem expired_peer_forgotten_witness:
  "let d = \<lparr>an_capabilities = capabilities_all, an_local = OwnNodeId (NodeId [9]), an_peers = [(NodeId [1], example_peer)], an_probing = []\<rparr> in
   \<forall>d'. annuary_run d [Observed (NodeDisconnected (NodeId [1]))] d' \<longrightarrow> hm_get (an_peers d') (NodeId [1]) = None"
proof -
  let ?i = "Happens [[1]] (MdnsExpired [([1], ''addr'')]) :: (u8 list, string) net_input"
  obtain s' where s': "net_run raw_peers (?i # expiring_inputs) swarm_network_new = Some s'"
    and evs: "ac_events (sn_actor s') = [NetNodeDisconnected (NodeId [1])]"
    by (simp add: expiring_inputs_def swarm_network_new_def actor_new_def actor_event_def actor_defs node_id_of_peer_def raw_peers_def)
  have counted: "conn_counted ((\<lambda>_. 0)([1] := 1)) expiring_inputs" by (simp add: expiring_inputs_def)
  have stays: "\<forall>k \<le> length expiring_inputs. 0 < conn_after ((\<lambda>_. 0)([1] := 1)) (take k expiring_inputs) [1]"
    by (auto simp: expiring_inputs_def le_Suc_eq numeral_eq_Suc)
  have node: "node_id_of_peer raw_peers [1] = NodeId [1]" by (simp add: node_id_of_peer_def raw_peers_def)
  have seen: "observed [Observed (NodeDisconnected (NodeId [1]))] = annuary_stream (\<lambda>_. Inl ''invalid'')
      (drop (length (ac_events (sn_actor (swarm_network_new :: (u8 list, string) swarm_network)))) (ac_events (sn_actor s')))"
    by (simp add: evs swarm_network_new_def actor_new_def annuary_stream_def List.map_filter_def)
  show ?thesis
    unfolding Let_def
    using expired_peer_forgotten [OF raw_peers_inj s' _ _ counted stays _ _ seen, of "''addr''"]
    by (auto simp: node expiring_inputs_def gossiped_def)
qed

theorem answered_call_stops_network_witness:
  "let r = \<lparr>nr_local_id = NodeId [1], nr_local = [], nr_commands = []\<rparr> in
   (case server_receive raw_codec example_codec example_executors (sealed example_codec (Call example_call) (NodeId [1])) (NetworkRouter r) of
      (_, NetworkRouter r') \<Rightarrow> nr_commands r' = [NetSend [2] node_id_default] | _ \<Rightarrow> False) \<and>
   (\<exists>s1. net_run raw_peers [Executes (NetSend [2] node_id_default), TakesCommand True] (swarm_network_new :: (u8 list, string) swarm_network) = Some s1 \<and>
      ac_status (sn_actor s1) = Panicked)"
proof -
  have answer: "\<lparr>rr_id = rc_id example_call, rr_result = Inr (VString ''hello'')\<rparr> = example_reply"
    by (simp add: example_call_def example_reply_def)
  show ?thesis
    using answered_call_stops_network [of example_codec example_call "Inr (VString ''hello'')"
        "\<lparr>nr_local_id = NodeId [1], nr_local = [], nr_commands = []\<rparr>" raw_codec "[2]" example_executors raw_peers
        "swarm_network_new :: (u8 list, string) swarm_network" "NodeId [1]" True]
      example_carries example_executes
    by (auto simp: answer raw_codec_def sealed_def example_codec_def node_id_default_def raw_peers_def swarm_network_new_def actor_new_def Let_def)
qed

theorem last_handle_drains_queue_witness:
  "\<exists>t. net_run raw_peers (Drops # replicate 2 (TakesCommand True))
      ((swarm_network_new :: (u8 list, string) swarm_network)\<lparr>sn_commands := [NetSend [7] (NodeId [1])]\<rparr>) = Some t \<and>
    ac_calls (sn_actor t) = [SendRequest [1] [7]] \<and> listen_returns True 0 t"
  using last_handle_drains_queue [of "(swarm_network_new :: (u8 list, string) swarm_network)\<lparr>sn_commands := [NetSend [7] (NodeId [1])]\<rparr>" raw_peers]
  by (auto simp: swarm_network_new_def actor_new_def raw_peers_def numeral_2_eq_2 simp del: net_run.simps)

end
