(* ===== verification/Chat_View.thy ===== *)
theory Chat_View
  imports Hitl "HOL-Library.List_Lexorder" "HOL-Library.Char_ord"
begin

text \<open>
  The chat page of the web client (\<^verbatim>\<open>marie-web-example/src/components/chat_view.rs\<close>, \<^verbatim>\<open>dto.rs\<close>), the
  views it shows and the form of a question (\<^verbatim>\<open>marie-leptos/src/types.rs\<close>, \<^verbatim>\<open>hitl_form.rs\<close>), and the
  channels muxed on a websocket (\<^verbatim>\<open>marie-ws/src/layer.rs\<close>).

  The page is the record of its signals. What is spawned is a list of tasks; the browser runs them
  between two awaits, in any order. The answers of the server are inputs of the tasks that wait for
  them. Questions and answers on the wire have the shape of those of \<^verbatim>\<open>Hitl\<close>. The text of a JSON
  value is a parameter; messages are written without their accents.
\<close>

section \<open>Messages\<close>

datatype role_dto = RoleSystem | RoleUser | RoleAssistant | RoleTool

datatype yield_status_dto =
    WaitingToolReplyDto string
  | WaitingChildrenDto "string list"
  | RunExhaustedDto

datatype agent_status_dto =
    InitialDto | PausedDto | RunningDto | FailedDto | YieldingDto yield_status_dto | FinishedDto

record context_entry_dto =
  ce_role :: role_dto
  ce_content :: string

record frame_snapshot_dto =
  fs_session_id :: string
  fs_id :: string
  fs_model_id :: string
  fs_status :: agent_status_dto
  fs_allowed_tools :: "string list"
  fs_context :: "context_entry_dto list"
  fs_stdio :: string
  fs_stderr :: string

record tool_call_dto =
  tc_id :: string
  tc_name :: string
  tc_parameters :: "value option"

datatype session_log_spec_dto = AgentMessageDto string string | ToolCallLogDto tool_call_dto

record session_log_dto =
  sl_id :: string
  sl_data :: session_log_spec_dto

record hitl_request_dto =
  hr_id :: string
  hr_agent :: "string \<times> string"
  hr_questions :: "question list"

datatype session_event_dto =
    CreatedDto string
  | FrameStatusChanged string string agent_status_dto
  | LogAppended string session_log_dto
  | ModeChanged string "value"
  | RemovedDto string
  | ValueChanged string string "value"
  | ValueRemoved string string

datatype server_message =
    SessionEventMessage session_event_dto
  | HitlRequestMessage hitl_request_dto
  | FrameMessage string string "frame_snapshot_dto option"
  | AckMessage string
  | ErrorMessage string string
  | MessageSent string string
  | ModeMessage string "value"

datatype client_message =
    SubscribeSession string
  | UnsubscribeSession string
  | GetFrame string string
  | HitlAnswer string answers
  | SendMessage string string "string list" string
  | GetMode string

section \<open>Views\<close>

datatype role_view = SystemView | UserView | AssistantView | ToolView

fun role_label :: "role_view \<Rightarrow> string" where
  "role_label SystemView = ''system''"
| "role_label UserView = ''user''"
| "role_label AssistantView = ''assistant''"
| "role_label ToolView = ''tool''"

datatype yield_status_view =
    WaitingToolReply string
  | WaitingChildren "string list"
  | RunExhausted

datatype agent_status_view =
    InitialView | PausedView | RunningView | FailedView | YieldingView yield_status_view | FinishedView

fun status_label :: "agent_status_view \<Rightarrow> string" where
  "status_label InitialView = ''initial''"
| "status_label PausedView = ''paused''"
| "status_label RunningView = ''running''"
| "status_label FailedView = ''failed''"
| "status_label FinishedView = ''finished''"
| "status_label (YieldingView _) = ''yielding''"

fun join_comma :: "string list \<Rightarrow> string" where
  "join_comma [] = []"
| "join_comma [x] = x"
| "join_comma (x # xs) = x @ '', '' @ join_comma xs"

fun status_detail :: "agent_status_view \<Rightarrow> string option" where
  "status_detail (YieldingView (WaitingToolReply i)) = Some (''waiting tool reply: '' @ i)"
| "status_detail (YieldingView (WaitingChildren is)) = Some (''waiting children: '' @ join_comma is)"
| "status_detail (YieldingView RunExhausted) = Some ''run exhausted''"
| "status_detail _ = None"

record context_entry_view =
  cv_role :: role_view
  cv_content :: string

record frame_view =
  fv_id :: string
  fv_model_id :: string
  fv_status :: agent_status_view
  fv_allowed_tools :: "string list"
  fv_context :: "context_entry_view list"
  fv_stdio :: string
  fv_stderr :: string

record tool_call_view =
  tv_name :: string
  tv_parameters :: "string option"

datatype session_log_spec_view = AgentMessageView string string | ToolCallView tool_call_view

record session_log_view =
  lv_id :: string
  lv_data :: session_log_spec_view

record page_view =
  sv_id :: string
  sv_frames :: "frame_view list"
  sv_logs :: "session_log_view list"

fun role_view_of :: "role_dto \<Rightarrow> role_view" where
  "role_view_of RoleSystem = SystemView"
| "role_view_of RoleUser = UserView"
| "role_view_of RoleAssistant = AssistantView"
| "role_view_of RoleTool = ToolView"

fun yield_status_view_of :: "yield_status_dto \<Rightarrow> yield_status_view" where
  "yield_status_view_of (WaitingToolReplyDto i) = WaitingToolReply i"
| "yield_status_view_of (WaitingChildrenDto is) = WaitingChildren is"
| "yield_status_view_of RunExhaustedDto = RunExhausted"

fun agent_status_view_of :: "agent_status_dto \<Rightarrow> agent_status_view" where
  "agent_status_view_of InitialDto = InitialView"
| "agent_status_view_of PausedDto = PausedView"
| "agent_status_view_of RunningDto = RunningView"
| "agent_status_view_of FailedDto = FailedView"
| "agent_status_view_of (YieldingDto y) = YieldingView (yield_status_view_of y)"
| "agent_status_view_of FinishedDto = FinishedView"

definition context_entry_view_of :: "context_entry_dto \<Rightarrow> context_entry_view" where
  "context_entry_view_of e = \<lparr>cv_role = role_view_of (ce_role e), cv_content = ce_content e\<rparr>"

definition frame_view_of :: "frame_snapshot_dto \<Rightarrow> frame_view" where
  "frame_view_of f = \<lparr>fv_id = fs_id f, fv_model_id = fs_model_id f, fv_status = agent_status_view_of (fs_status f),
     fv_allowed_tools = fs_allowed_tools f, fv_context = map context_entry_view_of (fs_context f),
     fv_stdio = fs_stdio f, fv_stderr = fs_stderr f\<rparr>"

definition tool_call_view_of :: "(value \<Rightarrow> string) \<Rightarrow> tool_call_dto \<Rightarrow> tool_call_view" where
  "tool_call_view_of json c = \<lparr>tv_name = tc_name c, tv_parameters = map_option json (tc_parameters c)\<rparr>"

definition session_log_view_of :: "(value \<Rightarrow> string) \<Rightarrow> session_log_dto \<Rightarrow> session_log_view" where
  "session_log_view_of json l = \<lparr>lv_id = sl_id l, lv_data = (case sl_data l of
      AgentMessageDto label m \<Rightarrow> AgentMessageView label m
    | ToolCallLogDto c \<Rightarrow> ToolCallView (tool_call_view_of json c))\<rparr>"

text \<open>What the mode of a session says: its label, and whether a message can be sent.\<close>

definition json_get :: "value \<Rightarrow> string \<Rightarrow> value option" where
  "json_get v k = (case v of VObject kvs \<Rightarrow> map_of kvs k | _ \<Rightarrow> None)"

definition json_str :: "value option \<Rightarrow> string option" where
  "json_str v = (case v of Some (VString s) \<Rightarrow> Some s | _ \<Rightarrow> None)"

definition json_length :: "value option \<Rightarrow> nat" where
  "json_length v = (case v of Some (VArray vs) \<Rightarrow> length vs | _ \<Rightarrow> 0)"

definition or_unknown :: "string option \<Rightarrow> string" where
  "or_unknown s = (case s of Some t \<Rightarrow> t | None \<Rightarrow> ''?'')"

definition mode_label :: "value \<Rightarrow> string" where
  "mode_label mode = (case json_str (json_get mode ''mode'') of
      None \<Rightarrow> ''inconnu''
    | Some m \<Rightarrow>
        if m = ''simple'' then ''simple''
        else if m = ''orchestration'' then
          ''orchestration (strategie : '' @ or_unknown (json_str (json_get mode ''strategy'')) @ '', '' @
            show_nat (json_length (json_get mode ''children'')) @ '' enfant(s))''
        else if m = ''state_graph'' then
          ''graphe d'etats (noeud courant : '' @ or_unknown (json_str (json_get mode ''current'')) @ '')''
        else m)"

definition mode_accepts_message :: "value \<Rightarrow> bool" where
  "mode_accepts_message mode \<longleftrightarrow> json_str (json_get mode ''mode'') \<in> {Some ''simple'', Some ''orchestration''}"

section \<open>The page\<close>

type_synonym vars = "(string, value) hash_map"

text \<open>
  What is spawned: sending on the websocket, before the socket is taken from its cell and while it is
  held, and the calls of the page to its server.
\<close>

datatype chat_task =
    SendTask "client_message list"
  | Sending "client_message list"
  | ReadVars string
  | ReadFiles string
  | ReadWorkspace string
  | ReadWorkspaceVars string string
  | CreateSessionTask "string option"
  | CreateWorkspaceTask
  | DeleteWorkspaceTask string
  | SetSessionVar string string "value"
  | SetWorkspaceVar string string "value"
  | ReadFileTask string string
  | WriteFileTask string string string string
  | ListFilesTask string
  | ReadUpload string string string string
  | WriteUpload string string string string

datatype api_answer =
    Failure string
  | Done
  | GotVars vars
  | GotFiles "string list"
  | GotWorkspace "string option"
  | GotSession string string
  | GotNewWorkspace string
  | GotContent "string option"

record chat =
  ch_session :: "string option"
  ch_workspace :: "string option"
  ch_status :: string
  ch_input :: string
  ch_workspaces :: "string list"
  ch_selected :: "string option"
  ch_frames :: "(string, frame_snapshot_dto) hash_map"
  ch_logs :: "session_log_dto list"
  ch_vars :: vars
  ch_workspace_vars :: vars
  ch_files :: "string list"
  ch_mode :: "value option"
  ch_model_id :: string
  ch_allowed_tools :: string
  ch_text :: string
  ch_var_key :: string
  ch_var_value :: string
  ch_workspace_var_key :: string
  ch_workspace_var_value :: string
  ch_new_path :: string
  ch_selected_file :: "string option"
  ch_editor :: string
  ch_pending :: "hitl_request_dto list"
  ch_answers :: answers
  ch_socket :: bool
  ch_sent :: "client_message list"
  ch_tasks :: "chat_task list"

definition chat_new :: chat where
  "chat_new = \<lparr>ch_session = None, ch_workspace = None, ch_status = [], ch_input = [], ch_workspaces = [],
     ch_selected = None, ch_frames = [], ch_logs = [], ch_vars = [], ch_workspace_vars = [], ch_files = [],
     ch_mode = None, ch_model_id = [], ch_allowed_tools = [], ch_text = [], ch_var_key = [], ch_var_value = [],
     ch_workspace_var_key = [], ch_workspace_var_value = [], ch_new_path = [], ch_selected_file = None,
     ch_editor = [], ch_pending = [], ch_answers = [], ch_socket = False, ch_sent = [], ch_tasks = []\<rparr>"

definition spawn_local :: "chat_task \<Rightarrow> chat \<Rightarrow> chat" where
  "spawn_local t c = c\<lparr>ch_tasks := ch_tasks c @ [t]\<rparr>"

text \<open>\<^verbatim>\<open>ensure_socket\<close>: the connection, or the error it gives.\<close>

definition ensure_socket :: "string option \<Rightarrow> chat \<Rightarrow> chat" where
  "ensure_socket failure c = (if ch_socket c then c else case failure of
      None \<Rightarrow> c\<lparr>ch_socket := True\<rparr>
    | Some e \<Rightarrow> c\<lparr>ch_status := ''connexion websocket echouee : '' @ e\<rparr>)"

definition is_open :: "string \<Rightarrow> chat \<Rightarrow> bool" where
  "is_open s c \<longleftrightarrow> ch_session c = Some s"

fun on_event :: "session_event_dto \<Rightarrow> chat \<Rightarrow> chat" where
  "on_event (FrameStatusChanged s l st) c = (if is_open s c then spawn_local (SendTask [GetFrame s l]) c else c)"
| "on_event (LogAppended s log) c = (if is_open s c then c\<lparr>ch_logs := ch_logs c @ [log]\<rparr> else c)"
| "on_event (ValueChanged s k v) c = (if is_open s c then c\<lparr>ch_vars := hm_insert k v (ch_vars c)\<rparr> else c)"
| "on_event (ValueRemoved s k) c = (if is_open s c then c\<lparr>ch_vars := hm_remove k (ch_vars c)\<rparr> else c)"
| "on_event (ModeChanged s m) c = (if is_open s c then c\<lparr>ch_mode := Some m\<rparr> else c)"
| "on_event (CreatedDto s) c = c"
| "on_event (RemovedDto s) c = c"

fun on_message :: "server_message \<Rightarrow> chat \<Rightarrow> chat" where
  "on_message (FrameMessage s l (Some f)) c = c\<lparr>ch_frames := hm_insert (fs_id f) f (ch_frames c)\<rparr>"
| "on_message (SessionEventMessage e) c = on_event e c"
| "on_message (ModeMessage s m) c = (if is_open s c then c\<lparr>ch_mode := Some m\<rparr> else c)"
| "on_message (HitlRequestMessage r) c =
     (if hr_id r \<in> hr_id ` set (ch_pending c) then c else c\<lparr>ch_pending := ch_pending c @ [r]\<rparr>)"
| "on_message _ c = c"

definition do_open :: "string \<Rightarrow> chat \<Rightarrow> chat" where
  "do_open s c = spawn_local (ReadVars s) (spawn_local (SendTask [SubscribeSession s, GetMode s])
     (c\<lparr>ch_session := Some s, ch_workspace := None, ch_frames := [], ch_logs := [], ch_vars := [],
        ch_workspace_vars := [], ch_files := [], ch_mode := None,
        ch_status := ''ouverture de la session '' @ s @ ''...''\<rparr>))"

definition on_open_click :: "chat \<Rightarrow> chat" where
  "on_open_click c = (if ch_input c \<noteq> [] then do_open (ch_input c) c else c)"

definition on_new_session_click :: "chat \<Rightarrow> chat" where
  "on_new_session_click c = spawn_local (CreateSessionTask (ch_selected c)) c"

definition on_create_workspace_click :: "chat \<Rightarrow> chat" where
  "on_create_workspace_click c = spawn_local CreateWorkspaceTask c"

fun split_commas :: "string \<Rightarrow> string list" where
  "split_commas [] = [[]]"
| "split_commas (x # t) = (if x = CHR '','' then [] # split_commas t
     else case split_commas t of [] \<Rightarrow> [[x]] | p # ps \<Rightarrow> (x # p) # ps)"

definition on_send_message :: "chat \<Rightarrow> chat" where
  "on_send_message c = (case ch_session c of
      None \<Rightarrow> c
    | Some s \<Rightarrow>
        if ch_model_id c = [] \<or> ch_text c = [] then c
        else let tools = filter (\<lambda>t. t \<noteq> []) (map trim (split_commas (ch_allowed_tools c))) in
          (spawn_local (SendTask [SendMessage s (ch_model_id c) tools (ch_text c)]) c)\<lparr>ch_text := []\<rparr>)"

definition typed_value :: "(string \<Rightarrow> value option) \<Rightarrow> string \<Rightarrow> value" where
  "typed_value parse raw = (case parse raw of Some v \<Rightarrow> v | None \<Rightarrow> VString raw)"

definition on_add_session_var :: "(string \<Rightarrow> value option) \<Rightarrow> chat \<Rightarrow> chat" where
  "on_add_session_var parse c = (case ch_session c of
      None \<Rightarrow> c
    | Some s \<Rightarrow>
        if ch_var_key c = [] then c
        else (spawn_local (SetSessionVar s (ch_var_key c) (typed_value parse (ch_var_value c))) c)
          \<lparr>ch_var_key := [], ch_var_value := []\<rparr>)"

definition on_add_workspace_var :: "(string \<Rightarrow> value option) \<Rightarrow> chat \<Rightarrow> chat" where
  "on_add_workspace_var parse c = (case ch_workspace c of
      None \<Rightarrow> c
    | Some w \<Rightarrow>
        if ch_workspace_var_key c = [] then c
        else (spawn_local (SetWorkspaceVar w (ch_workspace_var_key c) (typed_value parse (ch_workspace_var_value c))) c)
          \<lparr>ch_workspace_var_key := [], ch_workspace_var_value := []\<rparr>)"

definition on_open_file :: "string \<Rightarrow> chat \<Rightarrow> chat" where
  "on_open_file path c = (case ch_session c of
      None \<Rightarrow> c
    | Some s \<Rightarrow> spawn_local (ReadFileTask s path) (c\<lparr>ch_selected_file := Some path\<rparr>))"

definition on_save_file :: "chat \<Rightarrow> chat" where
  "on_save_file c = (case (ch_session c, ch_selected_file c) of
      (Some s, Some path) \<Rightarrow> spawn_local (WriteFileTask s path (ch_editor c) ''echec d'ecriture du fichier : '') c
    | _ \<Rightarrow> c)"

definition on_create_file :: "chat \<Rightarrow> chat" where
  "on_create_file c = (case ch_session c of
      None \<Rightarrow> c
    | Some s \<Rightarrow>
        if ch_new_path c = [] then c
        else (spawn_local (WriteFileTask s (ch_new_path c) [] ''echec de creation du fichier : '') c)\<lparr>ch_new_path := []\<rparr>)"

text \<open>The path of an uploaded file: the last part of a name written with either separator.\<close>

fun split_separators :: "string \<Rightarrow> string list" where
  "split_separators [] = [[]]"
| "split_separators (x # t) = (if x = CHR ''/'' \<or> x = CHR 0x5C then [] # split_separators t
     else case split_separators t of [] \<Rightarrow> [[x]] | p # ps \<Rightarrow> (x # p) # ps)"

definition sanitize :: "string \<Rightarrow> string" where
  "sanitize segment = (let candidate = last (split_separators segment) in
     if candidate \<noteq> [] \<and> candidate \<noteq> ''.'' \<and> candidate \<noteq> ''..'' then candidate else ''_'')"

definition hitl_upload_path :: "string \<Rightarrow> string \<Rightarrow> string \<Rightarrow> string" where
  "hitl_upload_path request_id key filename =
     ''hitl/'' @ request_id @ ''/'' @ sanitize key @ ''/'' @ sanitize filename"

definition on_hitl_file_selected :: "string \<Rightarrow> string \<Rightarrow> chat \<Rightarrow> chat" where
  "on_hitl_file_selected key filename c = (case ch_pending c of
      [] \<Rightarrow> c
    | r # _ \<Rightarrow> spawn_local (ReadUpload (hr_id r) (fst (hr_agent r)) key filename) c)"

definition on_hitl_submit :: "chat \<Rightarrow> chat" where
  "on_hitl_submit c = (case ch_pending c of
      [] \<Rightarrow> c
    | r # _ \<Rightarrow> (spawn_local (SendTask [HitlAnswer (hr_id r) (ch_answers c)]) c)
        \<lparr>ch_pending := filter (\<lambda>p. hr_id p \<noteq> hr_id r) (ch_pending c), ch_answers := []\<rparr>)"

definition on_delete_workspace :: "string \<Rightarrow> chat \<Rightarrow> chat" where
  "on_delete_workspace w c = spawn_local (DeleteWorkspaceTask w) c"

section \<open>Tasks\<close>

text \<open>
  One run of a task up to its next await, with the answer it was waiting for: what it becomes and
  what it does to the page. An answer of another shape cannot come and leaves the task waiting.
\<close>

definition with_status :: "string \<Rightarrow> string \<Rightarrow> chat \<Rightarrow> chat" where
  "with_status msg e c = c\<lparr>ch_status := msg @ e\<rparr>"

definition opened :: "string \<Rightarrow> chat \<Rightarrow> chat" where
  "opened s c = c\<lparr>ch_status := ''session '' @ s @ '' ouverte''\<rparr>"

fun run_task :: "api_answer \<Rightarrow> chat_task \<Rightarrow> chat \<Rightarrow> chat_task list \<times> chat" where
  "run_task a (SendTask ms) c = (if ch_socket c then ([Sending ms], c\<lparr>ch_socket := False\<rparr>) else ([], c))"
| "run_task a (Sending []) c = ([], c\<lparr>ch_socket := True\<rparr>)"
| "run_task a (Sending (m # ms)) c = ([Sending ms],
     case a of Failure _ \<Rightarrow> c | _ \<Rightarrow> c\<lparr>ch_sent := ch_sent c @ [m]\<rparr>)"
| "run_task a (ReadVars s) c = (case a of
      GotVars vs \<Rightarrow> ([ReadFiles s], c\<lparr>ch_vars := vs\<rparr>)
    | Failure e \<Rightarrow> ([ReadFiles s], with_status ''echec de lecture des vars de session : '' e c)
    | _ \<Rightarrow> ([ReadVars s], c))"
| "run_task a (ReadFiles s) c = (case a of
      GotFiles ps \<Rightarrow> ([ReadWorkspace s], c\<lparr>ch_files := ps\<rparr>)
    | Failure e \<Rightarrow> ([ReadWorkspace s], with_status ''echec de la liste des fichiers : '' e c)
    | _ \<Rightarrow> ([ReadFiles s], c))"
| "run_task a (ReadWorkspace s) c = (case a of
      GotWorkspace (Some w) \<Rightarrow> ([ReadWorkspaceVars s w], c\<lparr>ch_workspace := Some w\<rparr>)
    | GotWorkspace None \<Rightarrow> ([], opened s (c\<lparr>ch_workspace := None\<rparr>))
    | Failure e \<Rightarrow> ([], opened s (with_status ''echec de resolution du workspace : '' e c))
    | _ \<Rightarrow> ([ReadWorkspace s], c))"
| "run_task a (ReadWorkspaceVars s w) c = (case a of
      GotVars vs \<Rightarrow> ([], opened s (c\<lparr>ch_workspace_vars := vs\<rparr>))
    | Failure e \<Rightarrow> ([], opened s c)
    | _ \<Rightarrow> ([ReadWorkspaceVars s w], c))"
| "run_task a (CreateSessionTask w) c = (case a of
      GotSession w' s \<Rightarrow> ([], do_open s (c\<lparr>
        ch_workspaces := (if w' \<in> set (ch_workspaces c) then ch_workspaces c else ch_workspaces c @ [w']),
        ch_selected := Some w', ch_input := s\<rparr>))
    | Failure e \<Rightarrow> ([], with_status ''creation de session echouee : '' e c)
    | _ \<Rightarrow> ([CreateSessionTask w], c))"
| "run_task a CreateWorkspaceTask c = (case a of
      GotNewWorkspace w \<Rightarrow> ([], c\<lparr>ch_workspaces := ch_workspaces c @ [w], ch_selected := Some w\<rparr>)
    | Failure e \<Rightarrow> ([], with_status ''echec de creation du workspace : '' e c)
    | _ \<Rightarrow> ([CreateWorkspaceTask], c))"
| "run_task a (DeleteWorkspaceTask w) c =
     ([], (case a of Failure e \<Rightarrow> with_status ''echec de suppression du workspace : '' e c | _ \<Rightarrow> c)
        \<lparr>ch_workspaces := filter (\<lambda>x. x \<noteq> w) (ch_workspaces c),
         ch_selected := (if ch_selected c = Some w then None else ch_selected c)\<rparr>)"
| "run_task a (SetSessionVar s k v) c =
     ([], case a of Failure e \<Rightarrow> with_status ''echec d'ecriture de la var : '' e c | _ \<Rightarrow> c)"
| "run_task a (SetWorkspaceVar w k v) c = ([], case a of
      Failure e \<Rightarrow> with_status ''echec d'ecriture de la var de workspace : '' e c
    | _ \<Rightarrow> c\<lparr>ch_workspace_vars := hm_insert k v (ch_workspace_vars c)\<rparr>)"
| "run_task a (ReadFileTask s p) c = (case a of
      GotContent x \<Rightarrow> ([], c\<lparr>ch_editor := (case x of Some t \<Rightarrow> t | None \<Rightarrow> [])\<rparr>)
    | Failure e \<Rightarrow> ([], with_status ''echec de lecture du fichier : '' e c)
    | _ \<Rightarrow> ([ReadFileTask s p], c))"
| "run_task a (WriteFileTask s p t msg) c = (case a of
      Failure e \<Rightarrow> ([], with_status msg e c)
    | _ \<Rightarrow> ([ListFilesTask s], c))"
| "run_task a (ListFilesTask s) c = (case a of
      GotFiles ps \<Rightarrow> ([], c\<lparr>ch_files := ps\<rparr>)
    | Failure e \<Rightarrow> ([], c)
    | _ \<Rightarrow> ([ListFilesTask s], c))"
| "run_task a (ReadUpload r s key f) c = (case a of
      Failure e \<Rightarrow> ([], with_status ''echec de lecture du fichier : '' e c)
    | _ \<Rightarrow> ([WriteUpload s (hitl_upload_path r key f) key f], c))"
| "run_task a (WriteUpload s path key f) c = ([], case a of
      Failure e \<Rightarrow> with_status ''echec de televersement : '' e c
    | _ \<Rightarrow> c\<lparr>ch_answers := hm_insert key (Single f) (ch_answers c)\<rparr>)"

text \<open>The task at a position runs; what it becomes takes its place.\<close>

definition resume_task :: "nat \<Rightarrow> api_answer \<Rightarrow> chat \<Rightarrow> chat" where
  "resume_task i a c =
     (if i < length (ch_tasks c) then
        (case run_task a (ch_tasks c ! i) (c\<lparr>ch_tasks := take i (ch_tasks c) @ drop (Suc i) (ch_tasks c)\<rparr>) of
          (ts, c') \<Rightarrow> c'\<lparr>ch_tasks := take i (ch_tasks c') @ ts @ drop i (ch_tasks c')\<rparr>)
      else c)"

section \<open>The form of a request\<close>

text \<open>What the fields of a form do to the answers.\<close>

datatype form_event =
    Typed string string
  | Chosen string string
  | Checked string string bool

fun form_update :: "form_event \<Rightarrow> answers \<Rightarrow> answers" where
  "form_update (Typed key v) m = hm_insert key (Single v) m"
| "form_update (Chosen key v) m = hm_insert key (Single v) m"
| "form_update (Checked key opt checked) m =
     (case (case hm_get m key of None \<Rightarrow> Multiple [] | Some a \<Rightarrow> a) of
        Multiple vs \<Rightarrow> hm_insert key (Multiple (if checked then (if opt \<in> set vs then vs else vs @ [opt])
            else filter (\<lambda>v. v \<noteq> opt) vs)) m
      | Single _ \<Rightarrow> m)"

text \<open>
  The events the rendering of a question can give: any text in a text field, one of the options of a
  list or its empty first line, one of the options of a group.
\<close>

fun can_give :: "question \<Rightarrow> form_event \<Rightarrow> bool" where
  "can_give q (Typed key v) = (key = q_key q \<and> q_kind q \<in> {ShortText, LongText})"
| "can_give q (Chosen key v) = (key = q_key q \<and> (case q_kind q of
      Select opts \<Rightarrow> v = [] \<or> v \<in> set opts
    | Radio opts \<Rightarrow> v \<in> set opts
    | _ \<Rightarrow> False))"
| "can_give q (Checked key opt b) = (key = q_key q \<and> (case q_kind q of
      Checkboxes opts \<Rightarrow> opt \<in> set opts
    | _ \<Rightarrow> False))"

section \<open>Inputs\<close>

datatype chat_field =
    InputField | ModelField | ToolsField | TextField | VarKeyField | VarValueField
  | WorkspaceVarKeyField | WorkspaceVarValueField | PathField | EditorField

fun set_field :: "chat_field \<Rightarrow> string \<Rightarrow> chat \<Rightarrow> chat" where
  "set_field InputField v c = c\<lparr>ch_input := v\<rparr>"
| "set_field ModelField v c = c\<lparr>ch_model_id := v\<rparr>"
| "set_field ToolsField v c = c\<lparr>ch_allowed_tools := v\<rparr>"
| "set_field TextField v c = c\<lparr>ch_text := v\<rparr>"
| "set_field VarKeyField v c = c\<lparr>ch_var_key := v\<rparr>"
| "set_field VarValueField v c = c\<lparr>ch_var_value := v\<rparr>"
| "set_field WorkspaceVarKeyField v c = c\<lparr>ch_workspace_var_key := v\<rparr>"
| "set_field WorkspaceVarValueField v c = c\<lparr>ch_workspace_var_value := v\<rparr>"
| "set_field PathField v c = c\<lparr>ch_new_path := v\<rparr>"
| "set_field EditorField v c = c\<lparr>ch_editor := v\<rparr>"

text \<open>A message of the server, the run of one task, or what the user does.\<close>

datatype chat_input =
    Receive server_message
  | RunTask nat api_answer
  | EditField chat_field string
  | OpenClick
  | NewSessionClick
  | CreateWorkspaceClick
  | SelectWorkspace string
  | DeleteWorkspaceClick string
  | SendClick
  | AddSessionVar
  | AddWorkspaceVar
  | OpenFile string
  | SaveFile
  | CreateFile
  | FormEdit form_event
  | SelectUpload string string
  | SubmitForm

fun chat_step :: "(string \<Rightarrow> value option) \<Rightarrow> chat_input \<Rightarrow> chat \<Rightarrow> chat" where
  "chat_step parse (Receive m) c = on_message m c"
| "chat_step parse (RunTask i a) c = resume_task i a c"
| "chat_step parse (EditField f v) c = set_field f v c"
| "chat_step parse OpenClick c = on_open_click c"
| "chat_step parse NewSessionClick c = on_new_session_click c"
| "chat_step parse CreateWorkspaceClick c = on_create_workspace_click c"
| "chat_step parse (SelectWorkspace w) c = c\<lparr>ch_selected := Some w\<rparr>"
| "chat_step parse (DeleteWorkspaceClick w) c = on_delete_workspace w c"
| "chat_step parse SendClick c = on_send_message c"
| "chat_step parse AddSessionVar c = on_add_session_var parse c"
| "chat_step parse AddWorkspaceVar c = on_add_workspace_var parse c"
| "chat_step parse (OpenFile p) c = on_open_file p c"
| "chat_step parse SaveFile c = on_save_file c"
| "chat_step parse CreateFile c = on_create_file c"
| "chat_step parse (FormEdit e) c = c\<lparr>ch_answers := form_update e (ch_answers c)\<rparr>"
| "chat_step parse (SelectUpload key f) c = on_hitl_file_selected key f c"
| "chat_step parse SubmitForm c = on_hitl_submit c"

definition chat_run :: "(string \<Rightarrow> value option) \<Rightarrow> chat_input list \<Rightarrow> chat \<Rightarrow> chat" where
  "chat_run parse is c = fold (chat_step parse) is c"

text \<open>What the page shows of the session.\<close>

definition session_view_of :: "(value \<Rightarrow> string) \<Rightarrow> chat \<Rightarrow> page_view" where
  "session_view_of json c = \<lparr>sv_id = (case ch_session c of Some s \<Rightarrow> s | None \<Rightarrow> []),
     sv_frames = sort_key fv_id (map frame_view_of (hm_values (ch_frames c))),
     sv_logs = map (session_log_view_of json) (ch_logs c)\<rparr>"

section \<open>The socket\<close>

fun is_sending :: "chat_task \<Rightarrow> bool" where
  "is_sending (Sending ms) = True"
| "is_sending _ = False"

definition sockets :: "chat \<Rightarrow> nat" where
  "sockets c = (if ch_socket c then 1 else 0) + length (filter is_sending (ch_tasks c))"

lemma sockets_spawn: "\<not> is_sending t \<Longrightarrow> sockets (spawn_local t c) = sockets c"
  by (simp add: sockets_def spawn_local_def)

lemma sockets_open: "sockets (do_open s c) = sockets c"
  by (simp add: do_open_def sockets_def spawn_local_def)

lemma sockets_run_task:
  assumes "run_task a t c = (ts, c')" and "is_sending t \<Longrightarrow> \<not> ch_socket c"
  shows "sockets c' + length (filter is_sending ts) = sockets c + (if is_sending t then 1 else 0)"
proof (cases t)
  case (SendTask ms)
  with assms show ?thesis by (auto simp: sockets_def split: if_splits)
next
  case (Sending ms)
  with assms show ?thesis by (cases ms) (auto simp: sockets_def split: api_answer.splits)
next
  case (ReadWorkspace s)
  with assms(1) show ?thesis
    by (auto simp: sockets_def with_status_def opened_def split: api_answer.splits option.splits)
next
  case (CreateSessionTask w)
  with assms(1) show ?thesis
    by (auto simp: sockets_open with_status_def split: api_answer.splits) (simp_all add: sockets_def)
qed (use assms(1) in \<open>auto simp: sockets_def with_status_def opened_def split: api_answer.splits\<close>)

lemma run_task_appends:
  assumes "run_task a t c = (ts, c')"
  shows "\<exists>new. ch_tasks c' = ch_tasks c @ new"
proof (cases t)
  case (Sending ms)
  with assms show ?thesis by (cases ms) (auto split: api_answer.splits)
next
  case (CreateSessionTask w)
  with assms show ?thesis
    by (auto simp: with_status_def do_open_def spawn_local_def split: api_answer.splits)
qed (use assms in \<open>auto simp: with_status_def opened_def split: api_answer.splits option.splits if_splits\<close>)

lemma length_filter_remove:
  "i < length xs \<Longrightarrow> length (filter P xs) =
     length (filter P (take i xs @ drop (Suc i) xs)) + (if P (xs ! i) then 1 else 0)"
  by (induction xs arbitrary: i) (auto simp: nth_Cons split: nat.splits)

lemma length_filter_insert:
  "length (filter P (take i xs @ ys @ drop i xs)) = length (filter P xs) + length (filter P ys)"
  by (induction xs arbitrary: i) (auto simp: take_Cons drop_Cons split: nat.splits)

lemma sockets_resume:
  assumes "sockets c = 1"
  shows "sockets (resume_task i a c) = 1"
proof (cases "i < length (ch_tasks c)")
  case True
  let ?r = "take i (ch_tasks c) @ drop (Suc i) (ch_tasks c)"
  let ?c = "c\<lparr>ch_tasks := ?r\<rparr>" and ?t = "ch_tasks c ! i"
  obtain ts c' where run: "run_task a ?t ?c = (ts, c')" by fastforce
  note len = length_filter_remove [OF True, of is_sending]
  have one: "sockets ?c + (if is_sending ?t then 1 else 0) = 1"
    using assms len by (simp add: sockets_def)
  then have "is_sending ?t \<Longrightarrow> \<not> ch_socket ?c"
    by (auto simp: sockets_def split: if_splits)
  from sockets_run_task [OF run this] one have sum: "sockets c' + length (filter is_sending ts) = 1" by simp
  have "sockets (c'\<lparr>ch_tasks := take i (ch_tasks c') @ ts @ drop i (ch_tasks c')\<rparr>) =
      sockets c' + length (filter is_sending ts)"
    using length_filter_insert [of is_sending i "ch_tasks c'" ts] by (simp add: sockets_def)
  with True run sum show ?thesis by (simp add: resume_task_def)
qed (use assms in \<open>simp add: resume_task_def\<close>)

lemma sockets_message: "sockets (on_message m c) = sockets c"
proof -
  have "sockets (on_event e c) = sockets c" for e
    by (cases e) (auto simp: sockets_spawn, auto simp: sockets_def)
  then show ?thesis
    by (cases "(m, c)" rule: on_message.cases) (auto, auto simp: sockets_def)
qed

lemma sockets_step:
  assumes "sockets c = 1"
  shows "sockets (chat_step parse x c) = 1"
proof (cases x)
  case (RunTask i a)
  with assms show ?thesis by (simp add: sockets_resume)
next
  case (Receive m)
  with assms show ?thesis by (simp add: sockets_message)
next
  case (EditField f v)
  with assms show ?thesis by (cases f) (simp_all add: sockets_def)
next
  case SendClick
  with assms show ?thesis
    by (auto simp: on_send_message_def Let_def sockets_def spawn_local_def split: option.splits)
next
  case SubmitForm
  with assms show ?thesis by (auto simp: on_hitl_submit_def sockets_def spawn_local_def split: list.splits)
next
  case OpenClick
  with assms show ?thesis by (simp add: on_open_click_def sockets_open)
next
  case SaveFile
  with assms show ?thesis by (auto simp: on_save_file_def sockets_def spawn_local_def split: option.splits)
next
  case AddSessionVar
  with assms show ?thesis by (auto simp: on_add_session_var_def sockets_def spawn_local_def split: option.splits)
next
  case AddWorkspaceVar
  with assms show ?thesis by (auto simp: on_add_workspace_var_def sockets_def spawn_local_def split: option.splits)
next
  case (OpenFile p)
  with assms show ?thesis by (auto simp: on_open_file_def sockets_def spawn_local_def split: option.splits)
next
  case CreateFile
  with assms show ?thesis by (auto simp: on_create_file_def sockets_def spawn_local_def split: option.splits)
next
  case (SelectUpload k f)
  with assms show ?thesis by (auto simp: on_hitl_file_selected_def sockets_def spawn_local_def split: list.splits)
qed (use assms in \<open>simp_all add: on_new_session_click_def on_create_workspace_click_def on_delete_workspace_def
      sockets_def spawn_local_def\<close>)

text \<open>
  C36: the websocket of the page is never lost and never used twice. After any sequence of messages,
  clicks and runs of tasks in any order, either the socket is in its cell and no task holds it, or
  exactly one task holds it.
\<close>

theorem socket_held_once:
  "(\<lambda>c. if ch_socket c then filter is_sending (ch_tasks c) = [] else length (filter is_sending (ch_tasks c)) = 1)
     (chat_run parse xs (ensure_socket None chat_new))"
proof -
  have "sockets c = 1 \<Longrightarrow> sockets (chat_run parse xs c) = 1" for c
    unfolding chat_run_def by (induction xs arbitrary: c) (simp_all add: sockets_step)
  moreover have "sockets (ensure_socket None chat_new) = 1"
    by (simp add: sockets_def ensure_socket_def chat_new_def)
  ultimately have "sockets (chat_run parse xs (ensure_socket None chat_new)) = 1" by blast
  then show ?thesis by (simp add: sockets_def split: if_splits)
qed

text \<open>A send that runs while the socket is in its cell sends its messages in order and gives it back.\<close>

lemma resume_at:
  assumes "ch_tasks c = pre @ t # post" and "run_task a t (c\<lparr>ch_tasks := pre @ post\<rparr>) = (ts, c')"
    and "ch_tasks c' = pre @ post"
  shows "resume_task (length pre) a c = c'\<lparr>ch_tasks := pre @ ts @ post\<rparr>"
  using assms by (simp add: resume_task_def)

lemma sending_finishes:
  "ch_tasks c = pre @ Sending ms # post \<Longrightarrow>
   (resume_task (length pre) Done ^^ Suc (length ms)) c =
     c\<lparr>ch_socket := True, ch_sent := ch_sent c @ ms, ch_tasks := pre @ post\<rparr>"
proof (induction ms arbitrary: c)
  case Nil
  then show ?case by (simp add: resume_at)
next
  case (Cons m ms)
  let ?c = "c\<lparr>ch_sent := ch_sent c @ [m], ch_tasks := pre @ Sending ms # post\<rparr>"
  have "resume_task (length pre) Done c = ?c"
    using Cons.prems by (simp add: resume_at)
  then have "(resume_task (length pre) Done ^^ Suc (length (m # ms))) c = (resume_task (length pre) Done ^^ Suc (length ms)) ?c"
    by (simp add: funpow_swap1)
  with Cons.IH [of ?c] show ?case by simp
qed

lemma send_alone:
  assumes "ch_socket c" and "ch_tasks c = pre @ SendTask ms # post"
  shows "(resume_task (length pre) Done ^^ (length ms + 2)) c =
    c\<lparr>ch_sent := ch_sent c @ ms, ch_tasks := pre @ post\<rparr>"
proof -
  let ?c = "c\<lparr>ch_socket := False, ch_tasks := pre @ Sending ms # post\<rparr>"
  have "resume_task (length pre) Done c = ?c"
    using assms by (simp add: resume_at)
  then have "(resume_task (length pre) Done ^^ (length ms + 2)) c = (resume_task (length pre) Done ^^ Suc (length ms)) ?c"
    by (simp add: funpow_swap1)
  also have "\<dots> = c\<lparr>ch_sent := ch_sent c @ ms, ch_tasks := pre @ post\<rparr>"
    using sending_finishes [of ?c pre ms post] assms(1) by simp
  finally show ?thesis .
qed

text \<open>
  A send that runs while another one holds the socket is dropped. A form submitted at that moment
  leaves the page, and its answers are never sent.
\<close>

theorem submitted_form_lost:
  assumes "\<not> ch_socket c" and "ch_pending c = r # rs"
  shows "ch_sent (resume_task (length (ch_tasks c)) a (on_hitl_submit c)) = ch_sent c"
    and "ch_tasks (resume_task (length (ch_tasks c)) a (on_hitl_submit c)) = ch_tasks c"
    and "hr_id r \<notin> hr_id ` set (ch_pending (resume_task (length (ch_tasks c)) a (on_hitl_submit c)))"
  using assms by (auto simp: on_hitl_submit_def spawn_local_def resume_task_def)

section \<open>The session on the page\<close>

text \<open>The requests on the page have distinct identifiers.\<close>

lemma pending_distinct:
  assumes "distinct (map hr_id (ch_pending c))"
  shows "distinct (map hr_id (ch_pending (on_message m c)))"
    and "distinct (map hr_id (ch_pending (on_hitl_submit c)))"
proof -
  have "ch_pending (on_event e c) = ch_pending c" for e
    by (cases e) (simp_all add: spawn_local_def)
  with assms show "distinct (map hr_id (ch_pending (on_message m c)))"
    by (cases "(m, c)" rule: on_message.cases) auto
  show "distinct (map hr_id (ch_pending (on_hitl_submit c)))"
    using assms by (auto simp: on_hitl_submit_def spawn_local_def distinct_map inj_on_def split: list.splits)
qed

text \<open>Events of a session that is not open change nothing.\<close>

fun event_session :: "session_event_dto \<Rightarrow> string" where
  "event_session (CreatedDto s) = s"
| "event_session (FrameStatusChanged s _ _) = s"
| "event_session (LogAppended s _) = s"
| "event_session (ModeChanged s _) = s"
| "event_session (RemovedDto s) = s"
| "event_session (ValueChanged s _ _) = s"
| "event_session (ValueRemoved s _) = s"

lemma other_sessions_ignored: "ch_session c \<noteq> Some (event_session e) \<Longrightarrow> on_event e c = c"
  by (cases e) (simp_all add: is_open_def)

text \<open>
  A frame, on the other hand, is shown whatever its session, and so are the variables read for a
  session that was left before the answer came.
\<close>

lemma frame_of_another_session:
  "fs_id f \<in> set (map fv_id (sv_frames (session_view_of json (on_message (FrameMessage s l (Some f)) c))))"
proof -
  have "f \<in> set (hm_values (hm_insert (fs_id f) f (ch_frames c)))"
    using map_of_SomeD [of "hm_insert (fs_id f) f (ch_frames c)" "fs_id f" f] by (force simp: update_conv')
  then show ?thesis by (auto simp: session_view_of_def frame_view_of_def image_iff)
qed

lemma stale_vars_shown:
  assumes "i < length (ch_tasks c)" and "ch_tasks c ! i = ReadVars s"
  shows "ch_session (resume_task i (GotVars vs) (do_open s' c)) = Some s'"
    and "ch_vars (resume_task i (GotVars vs) (do_open s' c)) = vs"
  using assms by (simp_all add: resume_task_def do_open_def spawn_local_def nth_append)

lemma frames_sorted: "sorted (map fv_id (sv_frames (session_view_of json c)))"
  by (simp add: session_view_of_def)

section \<open>Uploads\<close>

lemma split_separators_nonempty: "split_separators s \<noteq> []"
  by (cases s) (auto split: list.splits)

lemma split_separators_parts:
  "p \<in> set (split_separators s) \<Longrightarrow> CHR ''/'' \<notin> set p \<and> CHR 0x5C \<notin> set p"
proof (induction s arbitrary: p)
  case (Cons x s)
  then show ?case using split_separators_nonempty [of s] by (auto split: list.splits if_splits)
qed simp

definition plain_segment :: "string \<Rightarrow> bool" where
  "plain_segment s \<longleftrightarrow> CHR ''/'' \<notin> set s \<and> CHR 0x5C \<notin> set s"

lemma sanitize_plain: "plain_segment (sanitize s)" "sanitize s \<notin> {[], ''.'', ''..''}"
  using split_separators_parts [OF last_in_set [OF split_separators_nonempty], of s]
  by (auto simp: sanitize_def plain_segment_def Let_def)

lemma sanitize_name: "plain_segment s \<Longrightarrow> s \<notin> {[], ''.'', ''..''} \<Longrightarrow> sanitize s = s"
proof -
  have "plain_segment s \<Longrightarrow> split_separators s = [s]"
    by (induction s) (auto simp: plain_segment_def)
  then show "plain_segment s \<Longrightarrow> s \<notin> {[], ''.'', ''..''} \<Longrightarrow> sanitize s = s"
    by (simp add: sanitize_def Let_def)
qed

lemma split_plain:
  assumes "plain_segment p"
  shows "split_separators (p @ CHR ''/'' # t) = p # split_separators t" "split_separators p = [p]"
  using assms by (induction p) (auto simp: plain_segment_def)

text \<open>
  C33: an uploaded file stays in the directory of its question. Whatever the key and the name of the
  file, with separators or parent directories in them, the path has exactly four parts, the last two
  of which are names: not empty, without separator and not a relative directory. A name that is
  already one is kept.
\<close>

theorem uploads_stay_in_place:
  assumes "plain_segment request_id"
  shows "\<exists>k f. split_separators (hitl_upload_path request_id key filename) = [''hitl'', request_id, k, f] \<and>
    k \<notin> {[], ''.'', ''..''} \<and> f \<notin> {[], ''.'', ''..''} \<and>
    (plain_segment filename \<and> filename \<notin> {[], ''.'', ''..''} \<longrightarrow> f = filename)"
proof -
  have "plain_segment ''hitl''" by (simp add: plain_segment_def)
  from split_plain(1) [OF this]
  have "split_separators (hitl_upload_path request_id key filename) =
      [''hitl'', request_id, sanitize key, sanitize filename]"
    using assms sanitize_plain [of key] sanitize_plain [of filename]
    by (simp add: hitl_upload_path_def split_plain)
  then show ?thesis
    using sanitize_plain(2) [of key] sanitize_plain(2) [of filename] sanitize_name [of filename] by metis
qed

theorem uploads_stay_in_place_witness:
  "\<exists>k f. split_separators (hitl_upload_path ''a1'' ''../key'' ''..'') = [''hitl'', ''a1'', k, f] \<and>
    k \<notin> {[], ''.'', ''..''} \<and> f \<notin> {[], ''.'', ''..''}"
  using uploads_stay_in_place [of "''a1''" "''../key''" "''..''"] by (auto simp: plain_segment_def)

section \<open>Filled forms\<close>

text \<open>What the answers of a form can be: as the service accepts them, but for the empty choice.\<close>

fun fills :: "question_kind \<Rightarrow> answer \<Rightarrow> bool" where
  "fills (Select opts) a = (\<exists>v. a = Single v \<and> (v = [] \<or> v \<in> set opts))"
| "fills (FileUpload accept) a = True"
| "fills k a = accepts k a"

definition form_ok :: "question list \<Rightarrow> answers \<Rightarrow> bool" where
  "form_ok qs m \<longleftrightarrow> (\<forall>q \<in> set qs. \<forall>a. hm_get m (q_key q) = Some a \<longrightarrow> fills (q_kind q) a)"

lemma form_update_get:
  "hm_get (form_update e m) k =
     (case e of
        Typed key v \<Rightarrow> if k = key then Some (Single v) else hm_get m k
      | Chosen key v \<Rightarrow> if k = key then Some (Single v) else hm_get m k
      | Checked key opt b \<Rightarrow>
          (case hm_get m key of
             Some (Single t) \<Rightarrow> hm_get m k
           | Some (Multiple vs) \<Rightarrow> if k = key then Some (Multiple (if b then (if opt \<in> set vs then vs else vs @ [opt])
               else filter (\<lambda>v. v \<noteq> opt) vs)) else hm_get m k
           | None \<Rightarrow> if k = key then Some (Multiple (if b then [opt] else [])) else hm_get m k))"
  by (cases e) (auto simp: update_conv' split: option.splits answer.splits)

lemma form_ok_update:
  assumes "distinct (map q_key qs)" and "form_ok qs m" and "q \<in> set qs" and "can_give q e"
  shows "form_ok qs (form_update e m)"
  unfolding form_ok_def
proof (intro ballI allI impI)
  fix p a
  assume p: "p \<in> set qs" and a: "hm_get (form_update e m) (q_key p) = Some a"
  show "fills (q_kind p) a"
  proof (cases "p = q")
    case False
    then have "q_key p \<noteq> q_key q" using assms(1,3) p by (auto simp: distinct_map inj_on_def)
    then have "hm_get m (q_key p) = Some a"
      using a assms(4) by (cases e) (auto simp: form_update_get split: option.splits answer.splits)
    with assms(2) p show ?thesis by (simp add: form_ok_def)
  next
    case True
    have old: "\<And>b. hm_get m (q_key q) = Some b \<Longrightarrow> fills (q_kind q) b"
      using assms(2,3) by (simp add: form_ok_def)
    show ?thesis
    proof (cases e)
      case (Checked key opt b)
      then obtain opts where k: "q_kind q = Checkboxes opts" "key = q_key q" "opt \<in> set opts"
        using assms(4) by (cases "q_kind q") auto
      with a True Checked old show ?thesis
        by (auto simp: form_update_get split: option.splits answer.splits if_splits)
    qed (use a True assms(4) in \<open>auto simp: form_update_get split: question_kind.splits\<close>)
  qed
qed

text \<open>
  Whatever is typed, chosen, checked and unchecked in the fields of a form without upload, in any
  order, its answers are accepted by the service as soon as every question has one and no list is
  left on its empty line.
\<close>

theorem filled_form_accepted:
  assumes "distinct (map q_key qs)" and "list_all (\<lambda>e. \<exists>q \<in> set qs. can_give q e) es"
    and "m = fold form_update es []"
    and "\<forall>q \<in> set qs. hm_get m (q_key q) \<notin> {None, Some (Single [])} \<or> q_kind q \<in> {ShortText, LongText} \<and> hm_get m (q_key q) \<noteq> None"
    and "\<forall>q \<in> set qs. \<forall>accept. q_kind q \<noteq> FileUpload accept"
  shows "validate_answers qs m = Inr m"
proof -
  have "form_ok qs m0 \<Longrightarrow> list_all (\<lambda>e. \<exists>q \<in> set qs. can_give q e) es \<Longrightarrow> form_ok qs (fold form_update es m0)" for m0
    by (induction es arbitrary: m0) (auto intro: form_ok_update [OF assms(1)])
  from this [of "[]"] assms(2,3) have ok: "form_ok qs m" by (simp add: form_ok_def)
  have "\<exists>a. hm_get m (q_key q) = Some a \<and> accepts (q_kind q) a" if q: "q \<in> set qs" for q
  proof -
    from q assms(4) obtain a where a: "hm_get m (q_key q) = Some a" "a \<noteq> Single [] \<or> q_kind q \<in> {ShortText, LongText}"
      by fastforce
    with ok q have "fills (q_kind q) a" by (simp add: form_ok_def)
    with a assms(5) q show ?thesis by (cases "q_kind q") auto
  qed
  with check_questions_accepts [of qs m] show ?thesis by (simp add: validate_answers_def)
qed

text \<open>A group of boxes that is never touched has no answer, and the service refuses the form.\<close>

lemma untouched_boxes_refused:
  "\<exists>e. validate_answers [question_checkboxes ''notify'' ''?'' [''slack'', ''email'']] (fold form_update [] []) = Inl e"
  by (simp add: validate_answers_def question_checkboxes_def)

section \<open>Channels of a websocket\<close>

datatype raw_message = RawText string | RawBytes string

record muxed =
  mx_channel :: string
  mx_payload :: string

text \<open>The encodings of the messages and of the envelope are parameters.\<close>

record 'm mux_codec =
  mc_to_vec :: "'m \<Rightarrow> error + string"
  mc_from_slice :: "string \<Rightarrow> 'm option"
  mc_wrap :: "muxed \<Rightarrow> error + string"
  mc_unwrap :: "string \<Rightarrow> muxed option"

definition mux_send :: "'m mux_codec \<Rightarrow> string \<Rightarrow> 'm \<Rightarrow> error + raw_message" where
  "mux_send k channel msg = (case mc_to_vec k msg of
      Inl e \<Rightarrow> Inl e
    | Inr payload \<Rightarrow> (case mc_wrap k \<lparr>mx_channel = channel, mx_payload = payload\<rparr> of
        Inl e \<Rightarrow> Inl e
      | Inr bytes \<Rightarrow> Inr (RawBytes bytes)))"

definition mux_receive :: "'m mux_codec \<Rightarrow> string \<Rightarrow> raw_message \<Rightarrow> 'm option" where
  "mux_receive k channel raw = (case raw of
      RawText _ \<Rightarrow> None
    | RawBytes bytes \<Rightarrow> (case mc_unwrap k bytes of
        None \<Rightarrow> None
      | Some m \<Rightarrow> if mx_channel m \<noteq> channel then None else mc_from_slice k (mx_payload m)))"

text \<open>The receiver skips the gaps of a subscriber that is late.\<close>

datatype broadcast_item = Lagged nat | Item raw_message

fun ws_receive :: "broadcast_item list \<Rightarrow> raw_message list" where
  "ws_receive [] = []"
| "ws_receive (Item m # rest) = m # ws_receive rest"
| "ws_receive (Lagged n # rest) = ws_receive rest"

definition mux_stream :: "'m mux_codec \<Rightarrow> string \<Rightarrow> broadcast_item list \<Rightarrow> 'm list" where
  "mux_stream k channel items = List.map_filter (mux_receive k channel) (ws_receive items)"

definition mux_law :: "'m mux_codec \<Rightarrow> bool" where
  "mux_law k \<longleftrightarrow> (\<forall>m b. mc_to_vec k m = Inr b \<longrightarrow> mc_from_slice k b = Some m) \<and>
     (\<forall>x b. mc_wrap k x = Inr b \<longrightarrow> mc_unwrap k b = Some x)"

text \<open>
  The channels of a websocket do not mix: of the messages sent on any channels of one connection,
  each channel receives its own, all of them and in order.
\<close>

theorem mux_separates:
  assumes "mux_law k" and "list_all2 (\<lambda>(channel, msg) raw. mux_send k channel msg = Inr raw) sent raws"
  shows "mux_stream k channel (map Item raws) = map snd (filter (\<lambda>s. fst s = channel) sent)"
  using assms(2)
proof (induction sent raws rule: list_all2_induct)
  case (Cons x sent raw raws)
  obtain c m where x: "x = (c, m)" by (cases x)
  from Cons(1) x obtain p b where "mc_to_vec k m = Inr p" "mc_wrap k \<lparr>mx_channel = c, mx_payload = p\<rparr> = Inr b" "raw = RawBytes b"
    by (auto simp: mux_send_def split: sum.splits)
  with assms(1) have "mux_receive k channel raw = (if c = channel then Some m else None)"
    by (auto simp: mux_law_def mux_receive_def)
  with Cons.IH x show ?case by (simp add: mux_stream_def map_filter_simps)
qed (simp add: mux_stream_def map_filter_simps)

end
