(* ===== verification/Graph_Editor.thy ===== *)
theory Graph_Editor
  imports Errors
begin

text \<open>
  The visual editor of a state graph (\<^verbatim>\<open>marie-leptos/src/state_graph_editor.rs\<close>) with its views
  (\<^verbatim>\<open>types.rs\<close>) and the panel around it (\<^verbatim>\<open>marie-web-example/src/components/config_panel.rs\<close>).
  Positions come from the offsets of mouse events, which are integers, and are only added and
  subtracted: they are integers here, and a test on distances compares squares. The one test on a
  rounded quotient, whether a point is near the inside of a segment, is the parameter \<open>near\<close>.
\<close>

section \<open>Views\<close>

datatype executable_view =
    ViewRust string
  | ViewPython string
  | ViewRune string
  | ViewAgent string string

fun executable_label :: "executable_view \<Rightarrow> string" where
  "executable_label (ViewRust _) = ''rust''"
| "executable_label (ViewPython _) = ''python''"
| "executable_label (ViewRune _) = ''rune''"
| "executable_label (ViewAgent _ _) = ''agent''"

record node_view =
  nv_id :: string
  nv_x :: int
  nv_y :: int
  nv_action :: "executable_view option"

record edge_view =
  gv_from :: string
  gv_to :: string
  gv_guard :: "executable_view option"

datatype drag_state =
    MovingNode nat int int
  | DrawingEdge nat "int \<times> int"

record editor =
  ed_nodes :: "node_view list"
  ed_edges :: "edge_view list"
  ed_drag :: "drag_state option"

definition editor_new :: editor where
  "editor_new = \<lparr>ed_nodes = [], ed_edges = [], ed_drag = None\<rparr>"

section \<open>Hit tests\<close>

definition NODE_WIDTH :: int where "NODE_WIDTH = 140"
definition NODE_HEIGHT :: int where "NODE_HEIGHT = 48"
definition HANDLE_HIT_RADIUS :: int where "HANDLE_HIT_RADIUS = 7 + 4"
definition HANDLE_OFFSET_X :: int where "HANDLE_OFFSET_X = NODE_WIDTH div 2 + 18"
definition EDGE_HIT_DISTANCE :: int where "EDGE_HIT_DISTANCE = 6"

text \<open>\<^verbatim>\<open>Iterator::position\<close>.\<close>

fun index_of :: "('a \<Rightarrow> bool) \<Rightarrow> 'a list \<Rightarrow> nat option" where
  "index_of P [] = None"
| "index_of P (x # xs) = (if P x then Some 0 else map_option Suc (index_of P xs))"

definition node_at :: "node_view list \<Rightarrow> int \<Rightarrow> int \<Rightarrow> nat option" where
  "node_at nodes x y = index_of (\<lambda>node. \<bar>x - nv_x node\<bar> \<le> NODE_WIDTH div 2 \<and> \<bar>y - nv_y node\<bar> \<le> NODE_HEIGHT div 2) nodes"

definition handle_at :: "node_view list \<Rightarrow> int \<Rightarrow> int \<Rightarrow> nat option" where
  "handle_at nodes x y = index_of (\<lambda>node.
     let hx = nv_x node + HANDLE_OFFSET_X; hy = nv_y node
     in (x - hx)\<^sup>2 + (y - hy)\<^sup>2 \<le> HANDLE_HIT_RADIUS\<^sup>2) nodes"

text \<open>
  \<^verbatim>\<open>distance_to_segment\<close> compared with \<^verbatim>\<open>EDGE_HIT_DISTANCE\<close>: the projection is clamped to the ends of
  the segment, where the distance is that to the end.
\<close>

definition near_segment ::
  "(int \<Rightarrow> int \<Rightarrow> int \<Rightarrow> int \<Rightarrow> int \<Rightarrow> int \<Rightarrow> bool) \<Rightarrow> int \<Rightarrow> int \<Rightarrow> int \<Rightarrow> int \<Rightarrow> int \<Rightarrow> int \<Rightarrow> bool" where
  "near_segment near px py x1 y1 x2 y2 =
     (let dx = x2 - x1; dy = y2 - y1; len_sq = dx * dx + dy * dy;
          s = (px - x1) * dx + (py - y1) * dy
      in if len_sq = 0 \<or> s \<le> 0 then (px - x1)\<^sup>2 + (py - y1)\<^sup>2 \<le> EDGE_HIT_DISTANCE\<^sup>2
         else if len_sq \<le> s then (px - x2)\<^sup>2 + (py - y2)\<^sup>2 \<le> EDGE_HIT_DISTANCE\<^sup>2
         else near px py x1 y1 x2 y2)"

definition edge_at ::
  "(int \<Rightarrow> int \<Rightarrow> int \<Rightarrow> int \<Rightarrow> int \<Rightarrow> int \<Rightarrow> bool) \<Rightarrow> node_view list \<Rightarrow> edge_view list \<Rightarrow> int \<Rightarrow> int \<Rightarrow> nat option" where
  "edge_at near nodes edges x y = index_of (\<lambda>edge.
     case (find (\<lambda>node. nv_id node = gv_from edge) nodes, find (\<lambda>node. nv_id node = gv_to edge) nodes) of
       (Some src, Some dst) \<Rightarrow> near_segment near x y (nv_x src) (nv_y src) (nv_x dst) (nv_y dst)
     | _ \<Rightarrow> False) edges"

section \<open>Fresh identifiers\<close>

definition numbered :: "nat \<Rightarrow> string" where
  "numbered n = ''node-'' @ show_nat n"

lemma numbered_inj: "numbered m = numbered n \<longleftrightarrow> m = n"
  by (auto simp: numbered_def dest: show_nat_inj)

lemma tried_decreases:
  assumes "list_ex (\<lambda>node. nv_id node = numbered n) existing"
  shows "card {i \<in> nv_id ` set existing. \<exists>m \<ge> n + 1. i = numbered m} < card {i \<in> nv_id ` set existing. \<exists>m \<ge> n. i = numbered m}"
proof (rule psubset_card_mono)
  have "numbered n \<in> {i \<in> nv_id ` set existing. \<exists>m \<ge> n. i = numbered m}"
    using assms by (force simp: list_ex_iff)
  moreover have "numbered n \<notin> {i \<in> nv_id ` set existing. \<exists>m \<ge> n + 1. i = numbered m}"
    by (auto simp: numbered_inj)
  moreover have "(\<exists>m \<ge> n + 1. i = numbered m) \<Longrightarrow> (\<exists>m \<ge> n. i = numbered m)" for i
    by (metis add_leD1)
  then have "{i \<in> nv_id ` set existing. \<exists>m \<ge> n + 1. i = numbered m} \<subseteq> {i \<in> nv_id ` set existing. \<exists>m \<ge> n. i = numbered m}"
    by blast
  ultimately show "{i \<in> nv_id ` set existing. \<exists>m \<ge> n + 1. i = numbered m} \<subset> {i \<in> nv_id ` set existing. \<exists>m \<ge> n. i = numbered m}"
    by blast
qed simp

text \<open>The loop of \<^verbatim>\<open>unique_node_id\<close>: every number tried belongs to a different node.\<close>

function unique_from :: "node_view list \<Rightarrow> nat \<Rightarrow> string" where
  "unique_from existing n =
     (if \<not> list_ex (\<lambda>node. nv_id node = numbered n) existing then numbered n
      else unique_from existing (n + 1))"
  by auto
termination unique_from
  by (relation "measure (\<lambda>(existing, n). card {i \<in> nv_id ` set existing. \<exists>m \<ge> n. i = numbered m})")
    (use tried_decreases in auto)

declare unique_from.simps [simp del]

definition unique_node_id :: "node_view list \<Rightarrow> string" where
  "unique_node_id existing = unique_from existing (length existing + 1)"

lemma unique_from_fresh: "unique_from existing n \<notin> nv_id ` set existing \<and> (\<exists>m \<ge> n. unique_from existing n = numbered m)"
proof (induction existing n rule: unique_from.induct)
  case (1 existing n)
  show ?case
  proof (cases "list_ex (\<lambda>node. nv_id node = numbered n) existing")
    case True
    with 1 show ?thesis by (subst (1 2) unique_from.simps) (auto dest: Suc_leD)
  next
    case False
    then show ?thesis by (subst (1 2) unique_from.simps) (auto simp: list_ex_iff)
  qed
qed

section \<open>Mouse events\<close>

definition on_mouse_down :: "int \<Rightarrow> int \<Rightarrow> editor \<Rightarrow> editor" where
  "on_mouse_down x y e = (case handle_at (ed_nodes e) x y of
      Some index \<Rightarrow> e\<lparr>ed_drag := Some (DrawingEdge index (x, y))\<rparr>
    | None \<Rightarrow> (case node_at (ed_nodes e) x y of
          Some index \<Rightarrow>
            (let node = ed_nodes e ! index
             in e\<lparr>ed_drag := Some (MovingNode index (x - nv_x node) (y - nv_y node))\<rparr>)
        | None \<Rightarrow> e))"

definition on_mouse_move :: "int \<Rightarrow> int \<Rightarrow> editor \<Rightarrow> editor" where
  "on_mouse_move x y e = (case ed_drag e of
      None \<Rightarrow> e
    | Some (MovingNode index grab_dx grab_dy) \<Rightarrow>
        (if index < length (ed_nodes e)
         then e\<lparr>ed_nodes := (ed_nodes e)[index := (ed_nodes e ! index)\<lparr>nv_x := x - grab_dx, nv_y := y - grab_dy\<rparr>]\<rparr>
         else e)
    | Some (DrawingEdge from_index _) \<Rightarrow> e\<lparr>ed_drag := Some (DrawingEdge from_index (x, y))\<rparr>)"

text \<open>Releasing the button reads the node of the drag by its index, and an index out of range panics.\<close>

definition on_mouse_up :: "int \<Rightarrow> int \<Rightarrow> (editor, unit, unit) prog" where
  "on_mouse_up x y e = (case ed_drag e of
      Some (DrawingEdge from_index _) \<Rightarrow>
        (case node_at (ed_nodes e) x y of
           Some target_index \<Rightarrow>
             (if target_index = from_index then (Ok (), e\<lparr>ed_drag := None\<rparr>)
              else if length (ed_nodes e) \<le> from_index then (Panic ''index out of bounds'', e)
              else let src = nv_id (ed_nodes e ! from_index); dst = nv_id (ed_nodes e ! target_index) in
                if list_ex (\<lambda>edge. gv_from edge = src \<and> gv_to edge = dst) (ed_edges e) then (Ok (), e\<lparr>ed_drag := None\<rparr>)
                else (Ok (), e\<lparr>ed_edges := ed_edges e @ [\<lparr>gv_from = src, gv_to = dst, gv_guard = None\<rparr>], ed_drag := None\<rparr>))
         | None \<Rightarrow> (Ok (), e\<lparr>ed_drag := None\<rparr>))
    | _ \<Rightarrow> (Ok (), e\<lparr>ed_drag := None\<rparr>))"

definition on_dbl_click :: "int \<Rightarrow> int \<Rightarrow> editor \<Rightarrow> editor" where
  "on_dbl_click x y e = (case node_at (ed_nodes e) x y of
      Some _ \<Rightarrow> e
    | None \<Rightarrow> e\<lparr>ed_nodes := ed_nodes e @ [\<lparr>nv_id = unique_node_id (ed_nodes e), nv_x = x, nv_y = y, nv_action = None\<rparr>]\<rparr>)"

definition remove_at :: "nat \<Rightarrow> 'a list \<Rightarrow> 'a list" where
  "remove_at i xs = take i xs @ drop (i + 1) xs"

definition on_context_menu ::
  "(int \<Rightarrow> int \<Rightarrow> int \<Rightarrow> int \<Rightarrow> int \<Rightarrow> int \<Rightarrow> bool) \<Rightarrow> int \<Rightarrow> int \<Rightarrow> editor \<Rightarrow> editor" where
  "on_context_menu near x y e = (case node_at (ed_nodes e) x y of
      Some index \<Rightarrow>
        (let i = nv_id (ed_nodes e ! index)
         in e\<lparr>ed_nodes := filter (\<lambda>node. nv_id node \<noteq> i) (ed_nodes e),
              ed_edges := filter (\<lambda>edge. gv_from edge \<noteq> i \<and> gv_to edge \<noteq> i) (ed_edges e)\<rparr>)
    | None \<Rightarrow> (case edge_at near (ed_nodes e) (ed_edges e) x y of
          Some index \<Rightarrow> e\<lparr>ed_edges := remove_at index (ed_edges e)\<rparr>
        | None \<Rightarrow> e))"

definition on_mouse_leave :: "editor \<Rightarrow> editor" where
  "on_mouse_leave e = e\<lparr>ed_drag := None\<rparr>"

text \<open>The panel writes the actions and the guards through the same signals; the first match is changed.\<close>

fun update_first :: "('a \<Rightarrow> bool) \<Rightarrow> ('a \<Rightarrow> 'a) \<Rightarrow> 'a list \<Rightarrow> 'a list" where
  "update_first P f [] = []"
| "update_first P f (x # xs) = (if P x then f x # xs else x # update_first P f xs)"

definition set_node_action :: "string \<Rightarrow> executable_view option \<Rightarrow> editor \<Rightarrow> editor" where
  "set_node_action node_id action e =
     e\<lparr>ed_nodes := update_first (\<lambda>node. nv_id node = node_id) (nv_action_update (\<lambda>_. action)) (ed_nodes e)\<rparr>"

definition set_edge_guard :: "string \<Rightarrow> string \<Rightarrow> executable_view option \<Rightarrow> editor \<Rightarrow> editor" where
  "set_edge_guard src dst guard e =
     e\<lparr>ed_edges := update_first (\<lambda>edge. gv_from edge = src \<and> gv_to edge = dst) (gv_guard_update (\<lambda>_. guard)) (ed_edges e)\<rparr>"

datatype editor_input =
    MouseDown int int
  | MouseMove int int
  | MouseUp int int
  | DblClick int int
  | ContextMenu int int
  | MouseLeave
  | SetAction string "executable_view option"
  | SetGuard string string "executable_view option"

definition editor_step ::
  "(int \<Rightarrow> int \<Rightarrow> int \<Rightarrow> int \<Rightarrow> int \<Rightarrow> int \<Rightarrow> bool) \<Rightarrow> editor_input \<Rightarrow> (editor, unit, unit) prog" where
  "editor_step near i e = (case i of
      MouseDown x y \<Rightarrow> (Ok (), on_mouse_down x y e)
    | MouseMove x y \<Rightarrow> (Ok (), on_mouse_move x y e)
    | MouseUp x y \<Rightarrow> on_mouse_up x y e
    | DblClick x y \<Rightarrow> (Ok (), on_dbl_click x y e)
    | ContextMenu x y \<Rightarrow> (Ok (), on_context_menu near x y e)
    | MouseLeave \<Rightarrow> (Ok (), on_mouse_leave e)
    | SetAction node_id action \<Rightarrow> (Ok (), set_node_action node_id action e)
    | SetGuard src dst guard \<Rightarrow> (Ok (), set_edge_guard src dst guard e))"

text \<open>A panic in a handler ends the page.\<close>

definition editor_run ::
  "(int \<Rightarrow> int \<Rightarrow> int \<Rightarrow> int \<Rightarrow> int \<Rightarrow> int \<Rightarrow> bool) \<Rightarrow> editor_input list \<Rightarrow> (editor, unit, unit) prog" where
  "editor_run near is = for_each is (editor_step near)"

section \<open>The fields of an executable\<close>

text \<open>
  \<^verbatim>\<open>ExecutableEditor\<close>: a kind and two texts, filled in from the initial value when the line is
  mounted; every change calls back with the value they give.
\<close>

record executable_editor =
  xe_kind :: string
  xe_field_a :: string
  xe_field_b :: string

definition executable_editor_new :: "executable_view option \<Rightarrow> executable_editor" where
  "executable_editor_new initial = \<lparr>
     xe_kind = (case initial of
        None \<Rightarrow> ''none'' | Some (ViewRust _) \<Rightarrow> ''rust'' | Some (ViewPython _) \<Rightarrow> ''python''
      | Some (ViewRune _) \<Rightarrow> ''rune'' | Some (ViewAgent _ _) \<Rightarrow> ''agent''),
     xe_field_a = (case initial of
        Some (ViewRust i) \<Rightarrow> i | Some (ViewPython s) \<Rightarrow> s | Some (ViewRune s) \<Rightarrow> s
      | Some (ViewAgent expert_id _) \<Rightarrow> expert_id | _ \<Rightarrow> []),
     xe_field_b = (case initial of Some (ViewAgent _ task) \<Rightarrow> task | _ \<Rightarrow> [])\<rparr>"

definition executable_emit :: "executable_editor \<Rightarrow> executable_view option" where
  "executable_emit x =
     (if xe_kind x = ''rust'' then Some (ViewRust (xe_field_a x))
      else if xe_kind x = ''python'' then Some (ViewPython (xe_field_a x))
      else if xe_kind x = ''rune'' then Some (ViewRune (xe_field_a x))
      else if xe_kind x = ''agent'' then Some (ViewAgent (xe_field_a x) (xe_field_b x))
      else None)"

datatype executable_input = SelectKind string | TypeA string | TypeB string

fun executable_change :: "executable_input \<Rightarrow> executable_editor \<Rightarrow> executable_view option \<times> executable_editor" where
  "executable_change (SelectKind v) x = (let x = x\<lparr>xe_kind := v\<rparr> in (executable_emit x, x))"
| "executable_change (TypeA v) x = (let x = x\<lparr>xe_field_a := v\<rparr> in (executable_emit x, x))"
| "executable_change (TypeB v) x = (let x = x\<lparr>xe_field_b := v\<rparr> in (executable_emit x, x))"

lemma executable_emit_new [simp]: "executable_emit (executable_editor_new v) = v"
  by (cases v) (auto simp: executable_emit_def executable_editor_new_def split: executable_view.splits)

text \<open>Any executable can be entered, whatever was there.\<close>

lemma executable_entered:
  "\<exists>is. fst (fold (\<lambda>i (_, x). executable_change i x) is (executable_emit x, x)) = v"
proof (cases v)
  case None
  then show ?thesis by (intro exI [of _ "[SelectKind ''none'']"]) (simp add: executable_emit_def Let_def)
next
  case (Some u)
  then show ?thesis
    by (intro exI [of _ "[SelectKind (xe_kind (executable_editor_new v)), TypeA (xe_field_a (executable_editor_new v)),
          TypeB (xe_field_b (executable_editor_new v))]"])
      (cases u; simp add: executable_emit_def executable_editor_new_def Let_def)
qed

section \<open>Drawing\<close>

text \<open>
  \<^verbatim>\<open>draw\<close>: the shapes in the order they are painted, an edge whose end is missing being left out.
\<close>

datatype shape =
    EdgeShape int int int int bool
  | PendingEdgeShape int int int int
  | NodeShape node_view bool

definition draw :: "node_view list \<Rightarrow> edge_view list \<Rightarrow> string option \<Rightarrow> drag_state option \<Rightarrow> shape list" where
  "draw nodes edges entry drag =
     List.map_filter (\<lambda>edge.
       case (find (\<lambda>node. nv_id node = gv_from edge) nodes, find (\<lambda>node. nv_id node = gv_to edge) nodes) of
         (Some src, Some dst) \<Rightarrow> Some (EdgeShape (nv_x src) (nv_y src) (nv_x dst) (nv_y dst) (gv_guard edge \<noteq> None))
       | _ \<Rightarrow> None) edges @
     (case drag of
        Some (DrawingEdge from_index cursor) \<Rightarrow>
          (if from_index < length nodes
           then [PendingEdgeShape (nv_x (nodes ! from_index) + HANDLE_OFFSET_X) (nv_y (nodes ! from_index)) (fst cursor) (snd cursor)]
           else [])
      | _ \<Rightarrow> []) @
     map (\<lambda>node. NodeShape node (entry = Some (nv_id node))) nodes"

section \<open>The graph stays a graph\<close>

definition edge_ends :: "edge_view \<Rightarrow> string \<times> string" where
  "edge_ends edge = (gv_from edge, gv_to edge)"

definition graph_wf :: "editor \<Rightarrow> bool" where
  "graph_wf e \<longleftrightarrow> distinct (map nv_id (ed_nodes e)) \<and> distinct (map edge_ends (ed_edges e)) \<and>
     (\<forall>edge \<in> set (ed_edges e). gv_from edge \<in> nv_id ` set (ed_nodes e) \<and> gv_to edge \<in> nv_id ` set (ed_nodes e) \<and>
        gv_from edge \<noteq> gv_to edge)"

text \<open>What the invariant sees of a state.\<close>

lemma graph_wf_cong:
  assumes "graph_wf e" and "map nv_id (ed_nodes e') = map nv_id (ed_nodes e)"
    and "map edge_ends (ed_edges e') = map edge_ends (ed_edges e)"
  shows "graph_wf e'"
proof -
  have ids: "nv_id ` set (ed_nodes e') = nv_id ` set (ed_nodes e)"
    using arg_cong [OF assms(2), of set] by simp
  have ends: "edge_ends ` set (ed_edges e') = edge_ends ` set (ed_edges e)"
    using arg_cong [OF assms(3), of set] by simp
  have "edge_ends edge \<in> edge_ends ` set (ed_edges e)" if "edge \<in> set (ed_edges e')" for edge
    using that ends by blast
  with assms show ?thesis unfolding graph_wf_def ids by (fastforce simp: edge_ends_def)
qed

lemma index_of_Some: "index_of P xs = Some i \<Longrightarrow> i < length xs \<and> P (xs ! i)"
  by (induction xs arbitrary: i) (auto split: if_splits)

lemma node_at_lt: "node_at nodes x y = Some i \<Longrightarrow> i < length nodes"
  by (auto simp: node_at_def dest: index_of_Some)

lemma handle_at_lt: "handle_at nodes x y = Some i \<Longrightarrow> i < length nodes"
  by (auto simp: handle_at_def dest: index_of_Some)

lemma map_update_first: "(\<And>x. g (f x) = g x) \<Longrightarrow> map g (update_first P f xs) = map g xs"
  by (induction xs) simp_all

lemma graph_wf_filter:
  assumes "graph_wf e"
  shows "graph_wf (e\<lparr>ed_nodes := filter (\<lambda>node. nv_id node \<noteq> i) (ed_nodes e),
    ed_edges := filter (\<lambda>edge. gv_from edge \<noteq> i \<and> gv_to edge \<noteq> i) (ed_edges e)\<rparr>)"
  using assms by (auto simp: graph_wf_def distinct_map_filter)

lemma graph_wf_remove:
  assumes "graph_wf e"
  shows "graph_wf (e\<lparr>ed_edges := remove_at i (ed_edges e)\<rparr>)"
proof -
  have "set (remove_at i xs) \<subseteq> set xs" for xs :: "edge_view list"
    by (auto simp: remove_at_def dest: in_set_takeD in_set_dropD)
  moreover have "distinct (map edge_ends (remove_at i (ed_edges e)))"
    using assms set_take_disj_set_drop_if_distinct [of "map edge_ends (ed_edges e)" i "i + 1"]
    by (auto simp: graph_wf_def remove_at_def take_map [symmetric] drop_map [symmetric] simp del: set_map)
  ultimately show ?thesis using assms by (auto simp: graph_wf_def)
qed

lemma graph_wf_connect:
  assumes "graph_wf e" and "i < length (ed_nodes e)" and "j < length (ed_nodes e)" and "i \<noteq> j"
    and "\<not> list_ex (\<lambda>edge. gv_from edge = nv_id (ed_nodes e ! i) \<and> gv_to edge = nv_id (ed_nodes e ! j)) (ed_edges e)"
  shows "graph_wf (e\<lparr>ed_edges := ed_edges e @ [\<lparr>gv_from = nv_id (ed_nodes e ! i), gv_to = nv_id (ed_nodes e ! j), gv_guard = g\<rparr>]\<rparr>)"
proof -
  have "nv_id (ed_nodes e ! i) \<noteq> nv_id (ed_nodes e ! j)"
    using assms(1-4) nth_eq_iff_index_eq [of "map nv_id (ed_nodes e)" i j] by (simp add: graph_wf_def)
  with assms show ?thesis by (auto simp: graph_wf_def edge_ends_def list_ex_iff)
qed

lemma graph_wf_drag [simp]: "graph_wf (e\<lparr>ed_drag := d\<rparr>) = graph_wf e"
  by (simp add: graph_wf_def)

lemma mouse_down_wf: "graph_wf e \<Longrightarrow> graph_wf (on_mouse_down x y e)"
  by (auto simp: on_mouse_down_def Let_def split: option.splits)

lemma mouse_move_wf: "graph_wf e \<Longrightarrow> graph_wf (on_mouse_move x y e)"
  by (auto simp: on_mouse_move_def map_update elim!: graph_wf_cong split: option.splits drag_state.splits)
    (metis list_update_id map_update)

lemma mouse_up_wf: "graph_wf e \<Longrightarrow> graph_wf (snd (on_mouse_up x y e))"
  by (auto simp: on_mouse_up_def Let_def intro: graph_wf_connect dest: node_at_lt split: option.splits drag_state.splits)

lemma dbl_click_wf: "graph_wf e \<Longrightarrow> graph_wf (on_dbl_click x y e)"
  using unique_from_fresh [of "ed_nodes e" "length (ed_nodes e) + 1"]
  by (auto simp: on_dbl_click_def graph_wf_def unique_node_id_def split: option.splits)

lemma context_menu_wf: "graph_wf e \<Longrightarrow> graph_wf (on_context_menu near x y e)"
  by (auto simp: on_context_menu_def Let_def intro: graph_wf_filter graph_wf_remove split: option.splits)

lemma set_action_wf: "graph_wf e \<Longrightarrow> graph_wf (set_node_action n a e)"
  by (erule graph_wf_cong) (simp_all add: set_node_action_def map_update_first)

lemma set_guard_wf: "graph_wf e \<Longrightarrow> graph_wf (set_edge_guard src dst g e)"
  by (erule graph_wf_cong) (simp_all add: set_edge_guard_def map_update_first edge_ends_def)

lemmas editor_wf = mouse_down_wf mouse_move_wf mouse_up_wf dbl_click_wf context_menu_wf set_action_wf set_guard_wf

lemma keeps_editor_step [keeps_intro]: "keeps graph_wf (editor_step near i)"
  by (cases i) (simp_all add: keeps_def editor_step_def editor_wf on_mouse_leave_def)

lemma editor_run_wf: "graph_wf (snd (editor_run near is editor_new))"
proof (rule keepsD)
  show "keeps graph_wf (editor_run near is)" unfolding editor_run_def by (intro keeps_intro)
  show "graph_wf editor_new" by (simp add: graph_wf_def editor_new_def)
qed

text \<open>
  C37: whatever the mouse and the panel do, in any order and even when a handler panics, the nodes of
  the edited graph have different identifiers, every edge links two different nodes of the graph,
  and no two edges have the same ends.
\<close>

theorem edited_graph_wf: "graph_wf (snd (editor_run near is editor_new))"
  by (rule editor_run_wf)

section \<open>Drags\<close>

fun drag_index :: "drag_state \<Rightarrow> nat" where
  "drag_index (MovingNode i _ _) = i"
| "drag_index (DrawingEdge i _) = i"

definition drag_valid :: "editor \<Rightarrow> bool" where
  "drag_valid e \<longleftrightarrow> (\<forall>d. ed_drag e = Some d \<longrightarrow> drag_index d < length (ed_nodes e))"

text \<open>No context menu is opened during a drag.\<close>

fun calm :: "(int \<Rightarrow> int \<Rightarrow> int \<Rightarrow> int \<Rightarrow> int \<Rightarrow> int \<Rightarrow> bool) \<Rightarrow> editor_input list \<Rightarrow> editor \<Rightarrow> bool" where
  "calm near [] e = True"
| "calm near (i # is) e =
     ((case i of ContextMenu _ _ \<Rightarrow> ed_drag e = None | _ \<Rightarrow> True) \<and> calm near is (snd (editor_step near i e)))"

lemma length_update_first [simp]: "length (update_first P f xs) = length xs"
  by (induction xs) simp_all

lemma context_menu_drag [simp]: "ed_drag (on_context_menu near x y e) = ed_drag e"
  by (simp add: on_context_menu_def Let_def split: option.splits)

lemma mouse_up_valid: "drag_valid e \<Longrightarrow> fst (on_mouse_up x y e) = Ok () \<and> ed_drag (snd (on_mouse_up x y e)) = None"
  by (auto simp: on_mouse_up_def drag_valid_def Let_def split: option.splits drag_state.splits)

lemma mouse_move_valid: "drag_valid e \<Longrightarrow> drag_valid (on_mouse_move x y e)"
  by (auto simp: drag_valid_def on_mouse_move_def split: option.splits drag_state.splits)

lemma mouse_down_valid: "drag_valid e \<Longrightarrow> drag_valid (on_mouse_down x y e)"
  by (auto simp: drag_valid_def on_mouse_down_def Let_def dest: handle_at_lt node_at_lt split: option.splits)

lemma dbl_click_valid: "drag_valid e \<Longrightarrow> drag_valid (on_dbl_click x y e)"
  by (auto simp: drag_valid_def on_dbl_click_def less_SucI split: option.splits)

lemma valid_step:
  assumes "drag_valid e" and "calm near [i] e"
  shows "fst (editor_step near i e) = Ok () \<and> drag_valid (snd (editor_step near i e))"
  using assms
  by (cases i) (simp_all add: editor_step_def mouse_move_valid mouse_down_valid dbl_click_valid mouse_up_valid,
      simp_all add: drag_valid_def on_mouse_leave_def set_node_action_def set_edge_guard_def mouse_up_valid [unfolded drag_valid_def])

lemma calm_run: "drag_valid e \<Longrightarrow> calm near is e \<Longrightarrow> fst (editor_run near is e) = Ok ()"
proof (induction "is" arbitrary: e)
  case (Cons i js)
  have "fst (editor_step near i e) = Ok ()" "drag_valid (snd (editor_step near i e))"
    using valid_step [of e near i] Cons.prems by simp_all
  with Cons.IH [of "snd (editor_step near i e)"] Cons.prems(2) show ?case
    by (cases "editor_step near i e") (simp add: editor_run_def seq_def bind_def)
qed (simp add: editor_run_def ret_def)

definition stale_inputs :: "editor_input list" where
  "stale_inputs = [DblClick 100 100, DblClick 12 130, MouseDown 100 124, ContextMenu 100 124, MouseUp 12 130]"

lemma stale_run: "fst (editor_run near stale_inputs editor_new) = Panic ''index out of bounds''"
  by (simp add: editor_run_def stale_inputs_def editor_new_def editor_step_def seq_def bind_def ret_def on_dbl_click_def
      on_mouse_down_def on_context_menu_def on_mouse_up_def node_at_def handle_at_def NODE_WIDTH_def NODE_HEIGHT_def
      HANDLE_OFFSET_X_def HANDLE_HIT_RADIUS_def Let_def unique_node_id_def unique_from.simps numbered_def
      show_nat.simps digit_char_def)

text \<open>
  C38: no handler panics as long as no node is deleted during a drag, and some do otherwise: a drag
  keeps the index of its node, a press of any button starts one, and a right click on the handle of
  the last node, over another node, deletes that one and leaves the index out of range.
\<close>

theorem editor_panics_on_stale_drag:
  "(calm near is editor_new \<longrightarrow> fst (editor_run near is editor_new) = Ok ()) \<and>
   (\<exists>js msg. \<not> calm near js editor_new \<and> fst (editor_run near js editor_new) = Panic msg)"
proof
  have valid: "drag_valid editor_new" by (simp add: drag_valid_def editor_new_def)
  then show "calm near is editor_new \<longrightarrow> fst (editor_run near is editor_new) = Ok ()" by (simp add: calm_run)
  have "\<not> calm near stale_inputs editor_new"
    using calm_run [OF valid, of near stale_inputs] stale_run [of near] by auto
  then show "\<exists>js msg. \<not> calm near js editor_new \<and> fst (editor_run near js editor_new) = Panic msg"
    using stale_run by blast
qed

section \<open>Examples\<close>

theorem editor_panics_on_stale_drag_witness:
  "let near = (\<lambda>_ _ _ _ _ _. False); is = [DblClick 100 100, DblClick 300 100, MouseDown 188 100, MouseMove 250 100, MouseUp 300 100, ContextMenu 100 100] in
   calm near is editor_new \<and> fst (editor_run near is editor_new) = Ok ()"
proof -
  let ?near = "\<lambda>_ _ _ _ _ _ :: int. False"
  let ?is = "[DblClick 100 100, DblClick 300 100, MouseDown 188 100, MouseMove 250 100, MouseUp 300 100, ContextMenu 100 100]"
  have "calm ?near ?is editor_new"
    by (simp add: editor_new_def editor_step_def on_dbl_click_def on_mouse_down_def on_mouse_move_def on_mouse_up_def
        node_at_def handle_at_def NODE_WIDTH_def NODE_HEIGHT_def HANDLE_OFFSET_X_def HANDLE_HIT_RADIUS_def Let_def)
  with editor_panics_on_stale_drag [of ?near ?is] show ?thesis by (simp add: Let_def)
qed

end
