(* ===== verification/Web_Api.thy ===== *)
theory Web_Api
  imports Chat_View Graph_Editor
begin

text \<open>
  The server functions of the web example (\<^verbatim>\<open>marie-web-example/src/api.rs\<close>), the objects it
  exchanges with the page (\<^verbatim>\<open>dto.rs\<close>) and the configuration panel that calls them
  (\<^verbatim>\<open>components/config_panel.rs\<close>). The clients of the cluster that the functions call belong to
  modules that are not in the crate any more: they are the parameters \<open>cluster\<close> and
  \<open>catalog_client\<close>, and so are the constructors of nodes and edges of a state graph. The
  declarations of the catalogues are the structures the functions build and take apart, and their
  identifiers the strings they wrap. The messages of the page are written without accents.
\<close>

section \<open>Exchanged objects\<close>

record model_dto =
  md_id :: string
  md_base_url :: string
  md_client_id :: string
  md_api_key :: string
  md_model :: string
  md_system_prompt :: "string option"

record tool_dto =
  td_id :: string
  td_name :: string
  td_description :: string
  td_parameters_schema :: "value"
  td_scope :: string

record expert_dto =
  xd_id :: string
  xd_prompt :: string
  xd_model_id :: string
  xd_allowed_tools :: "string list"

datatype executable_dto =
    DtoRust string
  | DtoPython string
  | DtoRune string
  | DtoAgent string string

record node_dto =
  nd_id :: string
  nd_action :: "executable_dto option"

record edge_dto =
  dd_from :: string
  dd_to :: string
  dd_guard :: "executable_dto option"

record state_graph_dto =
  gd_id :: string
  gd_entry :: string
  gd_nodes :: "node_dto list"
  gd_edges :: "edge_dto list"

section \<open>Declarations\<close>

definition apostrophes :: "string \<Rightarrow> string" where
  "apostrophes s = [CHR 0x27] @ s @ [CHR 0x27]"

datatype model_decl = OpenAICompatible string string string string "string option"

fun model_from_dto :: "model_dto \<Rightarrow> model_decl" where
  "model_from_dto dto = OpenAICompatible (md_base_url dto) (md_client_id dto) (md_api_key dto) (md_model dto) (md_system_prompt dto)"

fun model_to_dto :: "string \<Rightarrow> model_decl \<Rightarrow> model_dto" where
  "model_to_dto i (OpenAICompatible base_url client_id api_key model system_prompt) =
     \<lparr>md_id = i, md_base_url = base_url, md_client_id = client_id, md_api_key = api_key, md_model = model,
      md_system_prompt = system_prompt\<rparr>"

datatype tool_scope = ScopeGlobal | ScopeSession

record tool_decl =
  tl_name :: string
  tl_description :: string
  tl_parameters_schema :: "value"
  tl_scope :: tool_scope

definition tool_from_dto :: "tool_dto \<Rightarrow> string + tool_decl" where
  "tool_from_dto dto =
     (let decl = (\<lambda>scope. \<lparr>tl_name = td_name dto, tl_description = td_description dto,
        tl_parameters_schema = td_parameters_schema dto, tl_scope = scope\<rparr>) in
      if td_scope dto = ''global'' then Inr (decl ScopeGlobal)
      else if td_scope dto = ''session'' then Inr (decl ScopeSession)
      else Inl (''portee de tool inconnue : '' @ apostrophes (td_scope dto) @
        '' (attendu '' @ apostrophes ''global'' @ '' ou '' @ apostrophes ''session'' @ '')''))"

definition tool_to_dto :: "string \<Rightarrow> tool_decl \<Rightarrow> tool_dto" where
  "tool_to_dto i decl = \<lparr>td_id = i, td_name = tl_name decl, td_description = tl_description decl,
     td_parameters_schema = tl_parameters_schema decl,
     td_scope = (case tl_scope decl of ScopeGlobal \<Rightarrow> ''global'' | ScopeSession \<Rightarrow> ''session'')\<rparr>"

record expert_decl =
  xl_prompt :: string
  xl_model_id :: string
  xl_allowed_tools :: "string list"

definition expert_from_dto :: "expert_dto \<Rightarrow> expert_decl" where
  "expert_from_dto dto = \<lparr>xl_prompt = xd_prompt dto, xl_model_id = xd_model_id dto, xl_allowed_tools = xd_allowed_tools dto\<rparr>"

definition expert_to_dto :: "string \<Rightarrow> expert_decl \<Rightarrow> expert_dto" where
  "expert_to_dto i decl = \<lparr>xd_id = i, xd_prompt = xl_prompt decl, xd_model_id = xl_model_id decl,
     xd_allowed_tools = xl_allowed_tools decl\<rparr>"

datatype executable_decl =
    ExecRust string
  | ExecPython string
  | ExecRune string
  | ExecAgent string string

fun executable_from_dto :: "executable_dto \<Rightarrow> executable_decl" where
  "executable_from_dto (DtoRust i) = ExecRust i"
| "executable_from_dto (DtoPython s) = ExecPython s"
| "executable_from_dto (DtoRune s) = ExecRune s"
| "executable_from_dto (DtoAgent expert_id task) = ExecAgent expert_id task"

fun executable_to_dto :: "executable_decl \<Rightarrow> executable_dto" where
  "executable_to_dto (ExecRust i) = DtoRust i"
| "executable_to_dto (ExecPython s) = DtoPython s"
| "executable_to_dto (ExecRune s) = DtoRune s"
| "executable_to_dto (ExecAgent expert_id task) = DtoAgent expert_id task"

text \<open>The constructors and the fields of the nodes and edges of a state graph.\<close>

record ('n, 'e) graph_types =
  gt_node :: "string \<Rightarrow> executable_decl option \<Rightarrow> 'n"
  gt_node_id :: "'n \<Rightarrow> string"
  gt_node_action :: "'n \<Rightarrow> executable_decl option"
  gt_edge :: "string \<Rightarrow> string \<Rightarrow> executable_decl option \<Rightarrow> 'e"
  gt_edge_from :: "'e \<Rightarrow> string"
  gt_edge_to :: "'e \<Rightarrow> string"
  gt_edge_guard :: "'e \<Rightarrow> executable_decl option"

record ('n, 'e) state_graph_decl =
  sg_nodes :: "'n list"
  sg_edges :: "'e list"
  sg_entry :: string

definition node_from_dto :: "('n, 'e) graph_types \<Rightarrow> node_dto \<Rightarrow> 'n" where
  "node_from_dto G dto = gt_node G (nd_id dto) (map_option executable_from_dto (nd_action dto))"

definition node_to_dto :: "('n, 'e) graph_types \<Rightarrow> 'n \<Rightarrow> node_dto" where
  "node_to_dto G node = \<lparr>nd_id = gt_node_id G node, nd_action = map_option executable_to_dto (gt_node_action G node)\<rparr>"

definition edge_from_dto :: "('n, 'e) graph_types \<Rightarrow> edge_dto \<Rightarrow> 'e" where
  "edge_from_dto G dto = gt_edge G (dd_from dto) (dd_to dto) (map_option executable_from_dto (dd_guard dto))"

definition edge_to_dto :: "('n, 'e) graph_types \<Rightarrow> 'e \<Rightarrow> edge_dto" where
  "edge_to_dto G edge = \<lparr>dd_from = gt_edge_from G edge, dd_to = gt_edge_to G edge,
     dd_guard = map_option executable_to_dto (gt_edge_guard G edge)\<rparr>"

definition state_graph_from_dto :: "('n, 'e) graph_types \<Rightarrow> state_graph_dto \<Rightarrow> ('n, 'e) state_graph_decl" where
  "state_graph_from_dto G dto = \<lparr>sg_nodes = map (node_from_dto G) (gd_nodes dto),
     sg_edges = map (edge_from_dto G) (gd_edges dto), sg_entry = gd_entry dto\<rparr>"

definition state_graph_to_dto :: "('n, 'e) graph_types \<Rightarrow> string \<Rightarrow> ('n, 'e) state_graph_decl \<Rightarrow> state_graph_dto" where
  "state_graph_to_dto G i decl = \<lparr>gd_id = i, gd_entry = sg_entry decl, gd_nodes = map (node_to_dto G) (sg_nodes decl),
     gd_edges = map (edge_to_dto G) (sg_edges decl)\<rparr>"

section \<open>Server functions\<close>

text \<open>\<^verbatim>\<open>map_err(to_server_fn_error)\<close> keeps what the error displays.\<close>

definition map_err :: "('e \<Rightarrow> 'f) \<Rightarrow> ('s, 'e, 'a) prog \<Rightarrow> ('s, 'f, 'a) prog" where
  "map_err f m = (\<lambda>s. case m s of (Ok a, t) \<Rightarrow> (Ok a, t) | (Err e, t) \<Rightarrow> (Err (f e), t) | (Panic p, t) \<Rightarrow> (Panic p, t))"

definition to_server_fn_error :: "std_error \<Rightarrow> string" where
  "to_server_fn_error e = display e"

definition parse_id :: "string \<Rightarrow> ('s, string, ID) prog" where
  "parse_id raw = (case id_from_str raw of
      Ok i \<Rightarrow> ret i
    | Err e \<Rightarrow> (case (err_message e :: (unit, string) outcome) of
          Ok msg \<Rightarrow> throw (''identifiant invalide '' @ apostrophes raw @ '' : '' @ msg)
        | Err _ \<Rightarrow> panic ''''
        | Panic p \<Rightarrow> panic p)
    | Panic p \<Rightarrow> panic p)"

text \<open>The clients of the cluster; an identity passed as \<open>fresh\<close> is one \<^verbatim>\<open>generate_id\<close> returned.\<close>

record 's cluster =
  cu_create_session :: "ID \<Rightarrow> ('s, std_error, ID) prog"
  cu_session_workspace :: "ID \<Rightarrow> ('s, std_error, ID option) prog"
  cu_acquire_workspace :: "ID \<Rightarrow> ('s, std_error, unit) prog"
  cu_remove_workspace :: "ID \<Rightarrow> 's \<Rightarrow> 's"
  cu_session_values :: "ID \<Rightarrow> 's \<Rightarrow> vars"
  cu_set_session_value :: "ID \<Rightarrow> string \<Rightarrow> value \<Rightarrow> ('s, std_error, unit) prog"
  cu_remove_session_value :: "ID \<Rightarrow> string \<Rightarrow> ('s, std_error, unit) prog"
  cu_workspace_values :: "ID \<Rightarrow> 's \<Rightarrow> vars"
  cu_set_workspace_value :: "ID \<Rightarrow> string \<Rightarrow> value \<Rightarrow> ('s, std_error, unit) prog"
  cu_remove_workspace_value :: "ID \<Rightarrow> string \<Rightarrow> ('s, std_error, unit) prog"
  cu_list_files :: "ID \<Rightarrow> ('s, std_error, string list) prog"
  cu_read_file :: "ID \<Rightarrow> string \<Rightarrow> ('s, std_error, string option) prog"
  cu_write_file :: "ID \<Rightarrow> string \<Rightarrow> string \<Rightarrow> ('s, std_error, unit) prog"
  cu_delete_file :: "ID \<Rightarrow> string \<Rightarrow> ('s, std_error, unit) prog"

definition api_create_session :: "'s cluster \<Rightarrow> ID \<Rightarrow> string option \<Rightarrow> ('s, string, string \<times> string) prog" where
  "api_create_session C fresh workspace_id =
     bind (case workspace_id of Some raw \<Rightarrow> parse_id raw | None \<Rightarrow> ret fresh) (\<lambda>workspace_id.
     bind (map_err to_server_fn_error (cu_create_session C workspace_id)) (\<lambda>session_id.
     ret (id_display workspace_id, id_display session_id)))"

definition api_session_workspace :: "'s cluster \<Rightarrow> string \<Rightarrow> ('s, string, string option) prog" where
  "api_session_workspace C session_id =
     bind (parse_id session_id) (\<lambda>session_id.
     bind (map_err to_server_fn_error (cu_session_workspace C session_id)) (\<lambda>workspace_id.
     ret (map_option id_display workspace_id)))"

definition api_create_workspace :: "'s cluster \<Rightarrow> ID \<Rightarrow> ('s, string, string) prog" where
  "api_create_workspace C fresh =
     seq (map_err to_server_fn_error (cu_acquire_workspace C fresh)) (ret (id_display fresh))"

definition api_delete_workspace :: "'s cluster \<Rightarrow> string \<Rightarrow> ('s, string, unit) prog" where
  "api_delete_workspace C workspace_id =
     bind (parse_id workspace_id) (\<lambda>workspace_id. modify (cu_remove_workspace C workspace_id))"

definition api_session_vars :: "'s cluster \<Rightarrow> string \<Rightarrow> ('s, string, vars) prog" where
  "api_session_vars C session_id = bind (parse_id session_id) (\<lambda>session_id. gets (cu_session_values C session_id))"

definition api_set_session_var :: "'s cluster \<Rightarrow> string \<Rightarrow> string \<Rightarrow> value \<Rightarrow> ('s, string, unit) prog" where
  "api_set_session_var C session_id key v =
     bind (parse_id session_id) (\<lambda>session_id. map_err to_server_fn_error (cu_set_session_value C session_id key v))"

definition api_delete_session_var :: "'s cluster \<Rightarrow> string \<Rightarrow> string \<Rightarrow> ('s, string, unit) prog" where
  "api_delete_session_var C session_id key =
     bind (parse_id session_id) (\<lambda>session_id. map_err to_server_fn_error (cu_remove_session_value C session_id key))"

definition api_workspace_vars :: "'s cluster \<Rightarrow> string \<Rightarrow> ('s, string, vars) prog" where
  "api_workspace_vars C workspace_id = bind (parse_id workspace_id) (\<lambda>workspace_id. gets (cu_workspace_values C workspace_id))"

definition api_set_workspace_var :: "'s cluster \<Rightarrow> string \<Rightarrow> string \<Rightarrow> value \<Rightarrow> ('s, string, unit) prog" where
  "api_set_workspace_var C workspace_id key v =
     bind (parse_id workspace_id) (\<lambda>workspace_id. map_err to_server_fn_error (cu_set_workspace_value C workspace_id key v))"

definition api_delete_workspace_var :: "'s cluster \<Rightarrow> string \<Rightarrow> string \<Rightarrow> ('s, string, unit) prog" where
  "api_delete_workspace_var C workspace_id key =
     bind (parse_id workspace_id) (\<lambda>workspace_id. map_err to_server_fn_error (cu_remove_workspace_value C workspace_id key))"

definition api_list_files :: "'s cluster \<Rightarrow> string \<Rightarrow> ('s, string, string list) prog" where
  "api_list_files C session_id =
     bind (parse_id session_id) (\<lambda>session_id. map_err to_server_fn_error (cu_list_files C session_id))"

text \<open>\<open>lossy\<close> is \<^verbatim>\<open>String::from_utf8_lossy\<close>; strings are their bytes.\<close>

definition api_read_file :: "(string \<Rightarrow> string) \<Rightarrow> 's cluster \<Rightarrow> string \<Rightarrow> string \<Rightarrow> ('s, string, string option) prog" where
  "api_read_file lossy C session_id path =
     bind (parse_id session_id) (\<lambda>session_id.
     bind (map_err to_server_fn_error (cu_read_file C session_id path)) (\<lambda>bytes.
     ret (map_option lossy bytes)))"

definition api_write_file :: "'s cluster \<Rightarrow> string \<Rightarrow> string \<Rightarrow> string \<Rightarrow> ('s, string, unit) prog" where
  "api_write_file C session_id path content =
     bind (parse_id session_id) (\<lambda>session_id. map_err to_server_fn_error (cu_write_file C session_id path content))"

definition api_delete_file :: "'s cluster \<Rightarrow> string \<Rightarrow> string \<Rightarrow> ('s, string, unit) prog" where
  "api_delete_file C session_id path =
     bind (parse_id session_id) (\<lambda>session_id. map_err to_server_fn_error (cu_delete_file C session_id path))"

text \<open>
  A text that is no identity is refused before the cluster is asked for anything, and the texts the
  functions return are accepted by the others.
\<close>

lemma bad_identity_refused:
  assumes "\<forall>i. id_from_str raw \<noteq> Ok i"
  shows "snd (bind (parse_id raw) k s) = s \<and> (\<forall>a. fst (bind (parse_id raw) k s) \<noteq> Ok a)"
  using assms by (auto simp: parse_id_def bind_def split: outcome.splits)

lemma displayed_identity_accepted: "bind (parse_id (id_display i)) k s = k i s"
  using id_text_roundtrip [of i] by (simp add: parse_id_def bind_def)

lemma created_session_usable:
  assumes "api_create_session C fresh w s = (Ok (workspace, session), s')"
  shows "\<exists>wid sid. api_session_vars C session t = (Ok (cu_session_values C sid t), t) \<and>
    api_workspace_vars C workspace t = (Ok (cu_workspace_values C wid t), t) \<and>
    cu_create_session C wid s = (Ok sid, s') \<and> (w = None \<longrightarrow> wid = fresh)"
proof -
  obtain wid where wid: "(case w of Some raw \<Rightarrow> parse_id raw | None \<Rightarrow> ret fresh) s = (Ok wid, s)"
    "w = None \<longrightarrow> wid = fresh"
    using assms by (auto simp: api_create_session_def bind_def parse_id_def split: option.splits outcome.splits)
  with assms obtain sid where "cu_create_session C wid s = (Ok sid, s')" "workspace = id_display wid" "session = id_display sid"
    by (auto simp: api_create_session_def bind_def map_err_def split: prod.splits outcome.splits)
  with wid(2) show ?thesis
    by (auto simp: api_session_vars_def api_workspace_vars_def displayed_identity_accepted)
qed

section \<open>Catalogues\<close>

record ('s, 'd) catalog_client =
  kc_list :: "('s, std_error, (string \<times> 'd) list) prog"
  kc_set :: "string \<Rightarrow> 'd \<Rightarrow> ('s, std_error, unit) prog"
  kc_remove :: "string \<Rightarrow> ('s, std_error, unit) prog"

definition list_dtos :: "(string \<Rightarrow> 'd \<Rightarrow> 'o) \<Rightarrow> ('s, 'd) catalog_client \<Rightarrow> ('s, string, 'o list) prog" where
  "list_dtos to_dto K =
     bind (map_err to_server_fn_error (kc_list K)) (\<lambda>items. ret (map (\<lambda>(i, decl). to_dto i decl) items))"

definition put_dto :: "('o \<Rightarrow> string) \<Rightarrow> ('o \<Rightarrow> string + 'd) \<Rightarrow> ('s, 'd) catalog_client \<Rightarrow> 'o \<Rightarrow> ('s, string, unit) prog" where
  "put_dto id_of from_dto K dto =
     bind (of_sum (from_dto dto)) (\<lambda>decl. map_err to_server_fn_error (kc_set K (id_of dto) decl))"

definition delete_entry :: "('s, 'd) catalog_client \<Rightarrow> string \<Rightarrow> ('s, string, unit) prog" where
  "delete_entry K i = map_err to_server_fn_error (kc_remove K i)"

definition api_list_models :: "('s, model_decl) catalog_client \<Rightarrow> ('s, string, model_dto list) prog" where
  "api_list_models = list_dtos model_to_dto"

definition api_put_model :: "('s, model_decl) catalog_client \<Rightarrow> model_dto \<Rightarrow> ('s, string, unit) prog" where
  "api_put_model = put_dto md_id (\<lambda>dto. Inr (model_from_dto dto))"

definition api_delete_model :: "('s, model_decl) catalog_client \<Rightarrow> string \<Rightarrow> ('s, string, unit) prog" where
  "api_delete_model = delete_entry"

definition api_list_tools :: "('s, tool_decl) catalog_client \<Rightarrow> ('s, string, tool_dto list) prog" where
  "api_list_tools = list_dtos tool_to_dto"

definition api_put_tool :: "('s, tool_decl) catalog_client \<Rightarrow> tool_dto \<Rightarrow> ('s, string, unit) prog" where
  "api_put_tool = put_dto td_id tool_from_dto"

definition api_delete_tool :: "('s, tool_decl) catalog_client \<Rightarrow> string \<Rightarrow> ('s, string, unit) prog" where
  "api_delete_tool = delete_entry"

definition api_list_experts :: "('s, expert_decl) catalog_client \<Rightarrow> ('s, string, expert_dto list) prog" where
  "api_list_experts = list_dtos expert_to_dto"

definition api_put_expert :: "('s, expert_decl) catalog_client \<Rightarrow> expert_dto \<Rightarrow> ('s, string, unit) prog" where
  "api_put_expert = put_dto xd_id (\<lambda>dto. Inr (expert_from_dto dto))"

definition api_delete_expert :: "('s, expert_decl) catalog_client \<Rightarrow> string \<Rightarrow> ('s, string, unit) prog" where
  "api_delete_expert = delete_entry"

definition api_list_state_graphs ::
  "('n, 'e) graph_types \<Rightarrow> ('s, ('n, 'e) state_graph_decl) catalog_client \<Rightarrow> ('s, string, state_graph_dto list) prog" where
  "api_list_state_graphs G = list_dtos (state_graph_to_dto G)"

definition api_put_state_graph ::
  "('n, 'e) graph_types \<Rightarrow> ('s, ('n, 'e) state_graph_decl) catalog_client \<Rightarrow> state_graph_dto \<Rightarrow> ('s, string, unit) prog" where
  "api_put_state_graph G = put_dto gd_id (\<lambda>dto. Inr (state_graph_from_dto G dto))"

definition api_delete_state_graph :: "('s, ('n, 'e) state_graph_decl) catalog_client \<Rightarrow> string \<Rightarrow> ('s, string, unit) prog" where
  "api_delete_state_graph = delete_entry"

section \<open>The configuration panel\<close>

text \<open>
  A section of the panel: the list it shows, its status line and the tasks it spawned. A task sends
  a request; the server answers it at one moment, and the page resumes with the answer at a later
  one. The four sections differ in their functions and messages.
\<close>

datatype 'o panel_task =
    Refreshing
  | Refreshed "string + 'o list"
  | Creating 'o
  | Created "string + unit"
  | Deleting string
  | Deleted "string + unit"

record 'o panel =
  pn_items :: "'o list"
  pn_status :: string
  pn_tasks :: "'o panel_task list"

definition panel_new :: "'o panel" where
  "panel_new = \<lparr>pn_items = [], pn_status = [], pn_tasks = [Refreshing]\<rparr>"

record ('s, 'o) panel_api =
  pa_list :: "('s, string, 'o list) prog"
  pa_put :: "'o \<Rightarrow> ('s, string, unit) prog"
  pa_delete :: "string \<Rightarrow> ('s, string, unit) prog"
  pa_load_error :: string
  pa_create_error :: string

definition models_panel :: "('s, model_decl) catalog_client \<Rightarrow> ('s, model_dto) panel_api" where
  "models_panel K = \<lparr>pa_list = api_list_models K, pa_put = api_put_model K, pa_delete = api_delete_model K,
     pa_load_error = ''echec de chargement des modeles : '', pa_create_error = ''echec de creation du modele : ''\<rparr>"

definition tools_panel :: "('s, tool_decl) catalog_client \<Rightarrow> ('s, tool_dto) panel_api" where
  "tools_panel K = \<lparr>pa_list = api_list_tools K, pa_put = api_put_tool K, pa_delete = api_delete_tool K,
     pa_load_error = ''echec de chargement des tools : '', pa_create_error = ''echec de creation du tool : ''\<rparr>"

definition experts_panel :: "('s, expert_decl) catalog_client \<Rightarrow> ('s, expert_dto) panel_api" where
  "experts_panel K = \<lparr>pa_list = api_list_experts K, pa_put = api_put_expert K, pa_delete = api_delete_expert K,
     pa_load_error = ''echec de chargement des experts : '', pa_create_error = ''echec de creation de l'expert : ''\<rparr>"

definition graphs_panel ::
  "('n, 'e) graph_types \<Rightarrow> ('s, ('n, 'e) state_graph_decl) catalog_client \<Rightarrow> ('s, state_graph_dto) panel_api" where
  "graphs_panel G K = \<lparr>pa_list = api_list_state_graphs G K, pa_put = api_put_state_graph G K, pa_delete = api_delete_state_graph K,
     pa_load_error = ''echec de chargement des graphes : '', pa_create_error = ''echec de creation du graphe : ''\<rparr>"

definition panel_spawn :: "'o panel_task \<Rightarrow> 'o panel \<Rightarrow> 'o panel" where
  "panel_spawn t p = p\<lparr>pn_tasks := pn_tasks p @ [t]\<rparr>"

text \<open>What the page receives: a request whose handler panics is answered with an error.\<close>

fun answer_of :: "(string, 'a) outcome \<Rightarrow> string + 'a" where
  "answer_of (Ok a) = Inr a"
| "answer_of (Err e) = Inl e"
| "answer_of (Panic msg) = Inl msg"

definition serve_task :: "('s, 'o) panel_api \<Rightarrow> nat \<Rightarrow> 'o panel \<times> 's \<Rightarrow> 'o panel \<times> 's" where
  "serve_task A i ps = (case ps of (p, s) \<Rightarrow>
     if i < length (pn_tasks p) then
       (case pn_tasks p ! i of
          Refreshing \<Rightarrow> (case pa_list A s of (r, s') \<Rightarrow> (p\<lparr>pn_tasks := (pn_tasks p)[i := Refreshed (answer_of r)]\<rparr>, s'))
        | Creating dto \<Rightarrow> (case pa_put A dto s of (r, s') \<Rightarrow> (p\<lparr>pn_tasks := (pn_tasks p)[i := Created (answer_of r)]\<rparr>, s'))
        | Deleting k \<Rightarrow> (case pa_delete A k s of (r, s') \<Rightarrow> (p\<lparr>pn_tasks := (pn_tasks p)[i := Deleted (answer_of r)]\<rparr>, s'))
        | _ \<Rightarrow> (p, s))
     else (p, s))"

definition resume_panel :: "('s, 'o) panel_api \<Rightarrow> nat \<Rightarrow> 'o panel \<Rightarrow> 'o panel" where
  "resume_panel A i p =
     (if i < length (pn_tasks p) then
        (let rest = p\<lparr>pn_tasks := remove_at i (pn_tasks p)\<rparr> in
         case pn_tasks p ! i of
           Refreshed (Inr items) \<Rightarrow> rest\<lparr>pn_items := items\<rparr>
         | Refreshed (Inl e) \<Rightarrow> rest\<lparr>pn_status := pa_load_error A @ e\<rparr>
         | Created (Inr _) \<Rightarrow> panel_spawn Refreshing rest
         | Created (Inl e) \<Rightarrow> rest\<lparr>pn_status := pa_create_error A @ e\<rparr>
         | Deleted (Inr _) \<Rightarrow> panel_spawn Refreshing rest
         | Deleted (Inl e) \<Rightarrow> panel_spawn Refreshing (rest\<lparr>pn_status := ''echec de suppression : '' @ e\<rparr>)
         | _ \<Rightarrow> p)
      else p)"

datatype 'o panel_input = CreateClick 'o | DeleteClick string | Serve nat | Resume nat

fun panel_step :: "('s, 'o) panel_api \<Rightarrow> 'o panel_input \<Rightarrow> 'o panel \<times> 's \<Rightarrow> 'o panel \<times> 's" where
  "panel_step A (CreateClick dto) (p, s) = (panel_spawn (Creating dto) p, s)"
| "panel_step A (DeleteClick k) (p, s) = (panel_spawn (Deleting k) p, s)"
| "panel_step A (Serve i) (p, s) = serve_task A i (p, s)"
| "panel_step A (Resume i) (p, s) = (resume_panel A i p, s)"

definition panel_run :: "('s, 'o) panel_api \<Rightarrow> 'o panel_input list \<Rightarrow> 'o panel \<times> 's \<Rightarrow> 'o panel \<times> 's" where
  "panel_run A is ps = fold (panel_step A) is ps"

subsection \<open>Forms\<close>

record model_form =
  mf_id :: string
  mf_base_url :: string
  mf_client_id :: string
  mf_api_key :: string
  mf_model_name :: string
  mf_system_prompt :: string

definition model_form_dto :: "model_form \<Rightarrow> model_dto" where
  "model_form_dto f = \<lparr>md_id = mf_id f, md_base_url = mf_base_url f, md_client_id = mf_client_id f, md_api_key = mf_api_key f,
     md_model = mf_model_name f, md_system_prompt = (if mf_system_prompt f = [] then None else Some (mf_system_prompt f))\<rparr>"

definition on_create_model :: "model_form \<Rightarrow> model_dto panel \<Rightarrow> model_dto panel" where
  "on_create_model f p = panel_spawn (Creating (model_form_dto f)) p"

record tool_form =
  tf_id :: string
  tf_name :: string
  tf_description :: string
  tf_parameters_schema :: string
  tf_scope :: string

definition tool_form_dto :: "value \<Rightarrow> tool_form \<Rightarrow> tool_dto" where
  "tool_form_dto schema f = \<lparr>td_id = tf_id f, td_name = tf_name f, td_description = tf_description f,
     td_parameters_schema = schema, td_scope = tf_scope f\<rparr>"

text \<open>\<open>parse\<close> is \<^verbatim>\<open>serde_json::from_str\<close>.\<close>

definition on_create_tool :: "(string \<Rightarrow> string + value) \<Rightarrow> tool_form \<Rightarrow> tool_dto panel \<Rightarrow> tool_dto panel" where
  "on_create_tool parse f p = (case parse (tf_parameters_schema f) of
      Inl e \<Rightarrow> p\<lparr>pn_status := ''parameters_schema invalide : '' @ e\<rparr>
    | Inr schema \<Rightarrow> panel_spawn (Creating (tool_form_dto schema f)) p)"

record expert_form =
  ef_id :: string
  ef_prompt :: string
  ef_model_id :: string
  ef_allowed_tools :: string

definition expert_form_dto :: "expert_form \<Rightarrow> expert_dto" where
  "expert_form_dto f = \<lparr>xd_id = ef_id f, xd_prompt = ef_prompt f, xd_model_id = ef_model_id f,
     xd_allowed_tools = filter (\<lambda>tool. tool \<noteq> []) (map trim (split_commas (ef_allowed_tools f)))\<rparr>"

definition on_create_expert :: "expert_form \<Rightarrow> expert_dto panel \<Rightarrow> expert_dto panel" where
  "on_create_expert f p = panel_spawn (Creating (expert_form_dto f)) p"

fun executable_view_to_dto :: "executable_view \<Rightarrow> executable_dto" where
  "executable_view_to_dto (ViewRust i) = DtoRust i"
| "executable_view_to_dto (ViewPython s) = DtoPython s"
| "executable_view_to_dto (ViewRune s) = DtoRune s"
| "executable_view_to_dto (ViewAgent expert_id task) = DtoAgent expert_id task"

definition edited_graph_dto :: "string \<Rightarrow> string \<Rightarrow> editor \<Rightarrow> state_graph_dto" where
  "edited_graph_dto i entry e = \<lparr>gd_id = i, gd_entry = entry,
     gd_nodes = map (\<lambda>node. \<lparr>nd_id = nv_id node, nd_action = map_option executable_view_to_dto (nv_action node)\<rparr>) (ed_nodes e),
     gd_edges = map (\<lambda>edge. \<lparr>dd_from = gv_from edge, dd_to = gv_to edge,
       dd_guard = map_option executable_view_to_dto (gv_guard edge)\<rparr>) (ed_edges e)\<rparr>"

definition on_create_graph :: "string \<Rightarrow> string \<Rightarrow> editor \<Rightarrow> state_graph_dto panel \<Rightarrow> state_graph_dto panel" where
  "on_create_graph i entry e p = panel_spawn (Creating (edited_graph_dto i entry e)) p"

section \<open>A catalogue behind a panel\<close>

text \<open>
  What a client of a catalogue promises of the calls that succeed: a table of declarations by
  identifier, each listed once, in which a list sees every write that succeeded before. A call
  may fail, and then nothing is promised.
\<close>

definition catalog_works :: "('s, 'd) catalog_client \<Rightarrow> ('s \<Rightarrow> string \<rightharpoonup> 'd) \<Rightarrow> bool" where
  "catalog_works K table \<longleftrightarrow>
     (\<forall>s xs s'. kc_list K s = (Ok xs, s') \<longrightarrow> s' = s \<and> distinct (map fst xs) \<and> map_of xs = table s) \<and>
     (\<forall>i d s s'. kc_set K i d s = (Ok (), s') \<longrightarrow> table s' = (table s)(i \<mapsto> d)) \<and>
     (\<forall>i s s'. kc_remove K i s = (Ok (), s') \<longrightarrow> table s' = (table s)(i := None))"

lemma catalog_worksD:
  assumes "catalog_works K table"
  shows "kc_list K s = (Ok xs, s') \<Longrightarrow> s' = s \<and> distinct (map fst xs) \<and> map_of xs = table s"
    and "kc_set K i d s = (Ok (), s') \<Longrightarrow> table s' = (table s)(i \<mapsto> d)"
    and "kc_remove K i s = (Ok (), s') \<Longrightarrow> table s' = (table s)(i := None)"
  using assms unfolding catalog_works_def by blast+

text \<open>The requests of one click, each answered and resumed with before the next.\<close>

abbreviation in_turn :: "'o panel_input list" where
  "in_turn \<equiv> [Serve 0, Resume 0, Serve 0, Resume 0]"

text \<open>
  The create and delete buttons of an idle panel whose requests are answered in turn, whatever the
  server answers.
\<close>

definition panel_refresh :: "('s, 'o) panel_api \<Rightarrow> 'o panel \<Rightarrow> 's \<Rightarrow> 'o panel \<times> 's" where
  "panel_refresh A p s = (case pa_list A s of (r, s') \<Rightarrow> (case answer_of r of
      Inl e \<Rightarrow> (p\<lparr>pn_status := pa_load_error A @ e\<rparr>, s')
    | Inr items \<Rightarrow> (p\<lparr>pn_items := items\<rparr>, s')))"

lemma create_in_turn:
  assumes "pn_tasks p = []"
  shows "panel_run A in_turn (panel_spawn (Creating dto) p, s) = (case pa_put A dto s of (r, s1) \<Rightarrow> (case answer_of r of
      Inl e \<Rightarrow> (p\<lparr>pn_status := pa_create_error A @ e\<rparr>, s1)
    | Inr _ \<Rightarrow> panel_refresh A p s1))"
  using assms
  by (cases p) (auto simp: panel_run_def panel_spawn_def serve_task_def resume_panel_def remove_at_def Let_def
      panel_refresh_def split: prod.split sum.split)

lemma delete_in_turn:
  assumes "pn_tasks p = []"
  shows "panel_run A in_turn (panel_spawn (Deleting k) p, s) = (case pa_delete A k s of (r, s1) \<Rightarrow>
    panel_refresh A (case answer_of r of Inl e \<Rightarrow> p\<lparr>pn_status := ''echec de suppression : '' @ e\<rparr> | Inr _ \<Rightarrow> p) s1)"
  using assms
  by (cases p) (auto simp: panel_run_def panel_spawn_def serve_task_def resume_panel_def remove_at_def Let_def
      panel_refresh_def split: prod.split sum.split)

lemma filter_same_key: "distinct (map f xs) \<Longrightarrow> x \<in> set xs \<Longrightarrow> filter (\<lambda>y. f y = f x) xs = [x]"
proof (induction xs)
  case (Cons y ys)
  then show ?case
    by (cases "x = y") (auto simp: filter_empty_conv image_iff dest: sym)
qed simp

text \<open>
  The conversions of a catalogue: an object converted to a declaration and back is the same, and
  carries the identifier it is listed under.
\<close>

locale dto_catalogue =
  fixes to_dto :: "string \<Rightarrow> 'd \<Rightarrow> 'o" and from_dto :: "'o \<Rightarrow> string + 'd" and id_of :: "'o \<Rightarrow> string"
  assumes returns_same: "from_dto dto = Inr decl \<Longrightarrow> to_dto (id_of dto) decl = dto"
    and id_kept: "id_of (to_dto i decl) = i"
begin

lemma listed:
  assumes "catalog_works K table" and "list_dtos to_dto K s = (Ok items, s')"
  shows "s' = s" and "distinct (map id_of items)"
    and "o' \<in> set items \<longleftrightarrow> (\<exists>decl. table s (id_of o') = Some decl \<and> o' = to_dto (id_of o') decl)"
proof -
  obtain xs where list: "kc_list K s = (Ok xs, s')" and items: "items = map (\<lambda>(i, decl). to_dto i decl) xs"
    using assms(2) by (auto simp: list_dtos_def bind_def map_err_def split: prod.splits outcome.splits)
  have xs: "s' = s" "distinct (map fst xs)" "map_of xs = table s"
    using catalog_worksD(1) [OF assms(1) list] by auto
  show "s' = s" by (rule xs(1))
  have "map id_of items = map fst xs" by (auto simp: items id_kept)
  then show "distinct (map id_of items)" using xs(2) by simp
  have some: "table s k = Some d \<longleftrightarrow> (k, d) \<in> set xs" for k d
    unfolding xs(3) [symmetric] using xs(2) by (rule map_of_eq_Some_iff)
  show "o' \<in> set items \<longleftrightarrow> (\<exists>decl. table s (id_of o') = Some decl \<and> o' = to_dto (id_of o') decl)"
    unfolding some by (auto simp: items id_kept) force
qed

lemma stored:
  assumes "catalog_works K table" and "put_dto id_of from_dto K dto s = (Ok u, s1)"
  shows "\<exists>decl. from_dto dto = Inr decl \<and> table s1 = (table s)(id_of dto \<mapsto> decl)"
proof -
  obtain decl where decl: "from_dto dto = Inr decl"
    using assms(2) by (cases "from_dto dto") (auto simp: put_dto_def bind_def)
  then have "kc_set K (id_of dto) decl s = (Ok (), s1)"
    using assms(2) by (auto simp: put_dto_def bind_def map_err_def split: prod.splits outcome.splits)
  then show ?thesis using catalog_worksD(2) [OF assms(1)] decl by blast
qed

text \<open>What was stored is listed, and nothing else under its identifier.\<close>

lemma listed_once:
  assumes "catalog_works K table" and "put_dto id_of from_dto K dto s = (Ok u, s1)"
    and "list_dtos to_dto K s1 = (Ok items, s2)"
  shows "filter (\<lambda>o'. id_of o' = id_of dto) items = [dto]"
proof -
  obtain decl where "from_dto dto = Inr decl" "table s1 = (table s)(id_of dto \<mapsto> decl)"
    using stored [OF assms(1,2)] by blast
  then have "dto \<in> set items" using listed(3) [OF assms(1,3)] returns_same by simp
  then show ?thesis by (rule filter_same_key [OF listed(2) [OF assms(1,3)]])
qed

lemma deleted_not_listed:
  assumes "catalog_works K table" and "delete_entry K k s = (Ok u, s1)" and "list_dtos to_dto K s1 = (Ok items, s2)"
  shows "table s1 = (table s)(k := None) \<and> (\<forall>o' \<in> set items. id_of o' \<noteq> k)"
proof -
  have "kc_remove K k s = (Ok (), s1)"
    using assms(2) by (auto simp: delete_entry_def map_err_def split: prod.splits outcome.splits)
  then have "table s1 = (table s)(k := None)" by (rule catalog_worksD(3) [OF assms(1)])
  then show ?thesis using listed(3) [OF assms(1,3)] by auto
qed

end

interpretation models: dto_catalogue model_to_dto "\<lambda>dto. Inr (model_from_dto dto)" md_id
proof unfold_locales
  show "md_id (model_to_dto i decl) = i" for i decl by (cases decl) simp
qed auto

interpretation tools: dto_catalogue tool_to_dto tool_from_dto td_id
  by unfold_locales (auto simp: tool_to_dto_def tool_from_dto_def Let_def split: if_splits)

interpretation experts: dto_catalogue expert_to_dto "\<lambda>dto. Inr (expert_from_dto dto)" xd_id
  by unfold_locales (auto simp: expert_to_dto_def expert_from_dto_def)

text \<open>A node and an edge have the fields they were made with.\<close>

definition graph_types_law :: "('n, 'e) graph_types \<Rightarrow> bool" where
  "graph_types_law G \<longleftrightarrow>
     (\<forall>i a. gt_node_id G (gt_node G i a) = i \<and> gt_node_action G (gt_node G i a) = a) \<and>
     (\<forall>x y g. gt_edge_from G (gt_edge G x y g) = x \<and> gt_edge_to G (gt_edge G x y g) = y \<and> gt_edge_guard G (gt_edge G x y g) = g)"

lemma executable_dto_back [simp]: "executable_to_dto (executable_from_dto x) = x"
  by (cases x) simp_all

lemma executable_dto_back_option [simp]: "map_option (executable_to_dto \<circ> executable_from_dto) x = x"
  by (cases x) simp_all

lemma node_dto_back: "graph_types_law G \<Longrightarrow> node_to_dto G (node_from_dto G dto) = dto"
  by (simp add: graph_types_law_def node_to_dto_def node_from_dto_def option.map_comp)

lemma edge_dto_back: "graph_types_law G \<Longrightarrow> edge_to_dto G (edge_from_dto G dto) = dto"
  by (simp add: graph_types_law_def edge_to_dto_def edge_from_dto_def option.map_comp)

lemma graph_catalogue:
  assumes "graph_types_law G"
  shows "dto_catalogue (state_graph_to_dto G) (\<lambda>dto. Inr (state_graph_from_dto G dto)) gd_id"
proof
  fix dto decl i
  show "gd_id (state_graph_to_dto G i decl) = i" by (simp add: state_graph_to_dto_def)
  assume "Inr (state_graph_from_dto G dto) = (Inr decl :: string + _)"
  then show "state_graph_to_dto G (gd_id dto) decl = dto"
    using node_dto_back [OF assms] edge_dto_back [OF assms]
    by (auto simp: state_graph_to_dto_def state_graph_from_dto_def comp_def)
qed

text \<open>The declaration of a drawing whose graph is well formed.\<close>

lemma drawn_declaration:
  assumes "graph_types_law G" and "graph_wf e"
  shows "let decl = state_graph_from_dto G (edited_graph_dto i entry e) in
    sg_entry decl = entry \<and> map (gt_node_id G) (sg_nodes decl) = map nv_id (ed_nodes e) \<and> distinct (map nv_id (ed_nodes e)) \<and>
    map (\<lambda>edge. (gt_edge_from G edge, gt_edge_to G edge)) (sg_edges decl) = map edge_ends (ed_edges e) \<and>
    (\<forall>edge \<in> set (sg_edges decl). gt_edge_from G edge \<in> nv_id ` set (ed_nodes e) \<and>
      gt_edge_to G edge \<in> nv_id ` set (ed_nodes e) \<and> gt_edge_from G edge \<noteq> gt_edge_to G edge)"
  using assms
  by (auto simp: Let_def state_graph_from_dto_def edited_graph_dto_def node_from_dto_def edge_from_dto_def graph_types_law_def
      edge_ends_def comp_def graph_wf_def)

section \<open>Properties\<close>

text \<open>
  C39: a graph is drawn in the editor by any interactions and created from a panel with no request
  under way, whose requests are answered in turn, by a catalogue that keeps its promises on the
  calls that succeed (a list sees the writes before it). If the server refuses the creation, the
  status line says why and the list stays. Otherwise the graph is stored under its identifier:
  its nodes are those of the drawing with different identifiers, its edges those of the drawing,
  each between two different nodes among them; and if the refresh succeeds the list holds exactly
  one graph of this identifier, which is the graph drawn; if it fails the status line says so.
\<close>

theorem drawn_graph_is_stored:
  assumes "graph_types_law G" and "catalog_works K table" and "pn_tasks p = []"
  shows "let e = snd (editor_run near is editor_new); dto = edited_graph_dto i entry e;
      (p', s') = panel_run (graphs_panel G K) in_turn (on_create_graph i entry e p, s) in
    (case api_put_state_graph G K dto s of (r, s1) \<Rightarrow> (case answer_of r of
        Inl err \<Rightarrow> p' = p\<lparr>pn_status := ''echec de creation du graphe : '' @ err\<rparr> \<and> s' = s1
      | Inr _ \<Rightarrow>
          (\<exists>decl. table s1 = (table s)(i \<mapsto> decl) \<and> sg_entry decl = entry \<and>
            map (gt_node_id G) (sg_nodes decl) = map nv_id (ed_nodes e) \<and> distinct (map nv_id (ed_nodes e)) \<and>
            map (\<lambda>edge. (gt_edge_from G edge, gt_edge_to G edge)) (sg_edges decl) = map edge_ends (ed_edges e) \<and>
            (\<forall>edge \<in> set (sg_edges decl). gt_edge_from G edge \<in> nv_id ` set (ed_nodes e) \<and>
              gt_edge_to G edge \<in> nv_id ` set (ed_nodes e) \<and> gt_edge_from G edge \<noteq> gt_edge_to G edge)) \<and>
          (case api_list_state_graphs G K s1 of (r', s2) \<Rightarrow> (case answer_of r' of
              Inl err \<Rightarrow> p' = p\<lparr>pn_status := ''echec de chargement des graphes : '' @ err\<rparr> \<and> s' = s2
            | Inr items \<Rightarrow> p' = p\<lparr>pn_items := items\<rparr> \<and> s' = s1 \<and> filter (\<lambda>g. gd_id g = i) items = [dto]))))"
proof -
  define e where "e = snd (editor_run near is editor_new)"
  define dto where "dto = edited_graph_dto i entry e"
  define decl where "decl = state_graph_from_dto G dto"
  let ?A = "graphs_panel G K"
  have wf: "graph_wf e" unfolding e_def by (rule editor_run_wf)
  have i: "gd_id dto = i" by (simp add: dto_def edited_graph_dto_def)
  have api: "pa_put ?A = api_put_state_graph G K" "pa_list ?A = api_list_state_graphs G K"
    "pa_create_error ?A = ''echec de creation du graphe : ''" "pa_load_error ?A = ''echec de chargement des graphes : ''"
    by (simp_all add: graphs_panel_def)
  have drawn: "sg_entry decl = entry \<and> map (gt_node_id G) (sg_nodes decl) = map nv_id (ed_nodes e) \<and>
      distinct (map nv_id (ed_nodes e)) \<and>
      map (\<lambda>edge. (gt_edge_from G edge, gt_edge_to G edge)) (sg_edges decl) = map edge_ends (ed_edges e) \<and>
      (\<forall>edge \<in> set (sg_edges decl). gt_edge_from G edge \<in> nv_id ` set (ed_nodes e) \<and>
        gt_edge_to G edge \<in> nv_id ` set (ed_nodes e) \<and> gt_edge_from G edge \<noteq> gt_edge_to G edge)"
    unfolding decl_def dto_def by (rule drawn_declaration [OF assms(1) wf, unfolded Let_def])
  note cat = dto_catalogue.stored [OF graph_catalogue [OF assms(1)] assms(2)]
    dto_catalogue.listed_once [OF graph_catalogue [OF assms(1)] assms(2)]
    dto_catalogue.listed(1) [OF graph_catalogue [OF assms(1)] assms(2)]
  note cat = cat [folded api_put_state_graph_def api_list_state_graphs_def]
  obtain r s1 where put: "api_put_state_graph G K dto s = (r, s1)" by (rule prod.exhaust)
  obtain r' s2 where lst: "api_list_state_graphs G K s1 = (r', s2)" by (rule prod.exhaust)
  have run: "panel_run ?A in_turn (on_create_graph i entry e p, s) = (case answer_of r of
      Inl err \<Rightarrow> (p\<lparr>pn_status := ''echec de creation du graphe : '' @ err\<rparr>, s1)
    | Inr _ \<Rightarrow> (case answer_of r' of
        Inl err \<Rightarrow> (p\<lparr>pn_status := ''echec de chargement des graphes : '' @ err\<rparr>, s2)
      | Inr items \<Rightarrow> (p\<lparr>pn_items := items\<rparr>, s2)))"
    unfolding on_create_graph_def create_in_turn [OF assms(3)] api panel_refresh_def dto_def [symmetric] put
    by (simp add: lst split: sum.split)
  have "answer_of r = Inr u \<Longrightarrow> r = Ok u" for u by (cases r) auto
  moreover have "answer_of r' = Inr items \<Longrightarrow> r' = Ok items" for items by (cases r') auto
  moreover have "\<exists>d. d = decl \<and> table s1 = (table s)(i \<mapsto> d)" if "r = Ok u" for u
    using cat(1) [OF put [unfolded that]] i by (simp add: decl_def)
  moreover have "filter (\<lambda>g. gd_id g = i) items = [dto]" "s2 = s1" if "r = Ok u" "r' = Ok items" for u items
    using cat(2) [OF put [unfolded that] lst [unfolded that]] cat(3) [OF lst [unfolded that]] i by simp_all
  ultimately show ?thesis
    unfolding e_def [symmetric] dto_def [symmetric] Let_def run put
    using drawn by (auto simp: lst split: sum.split)
qed

text \<open>
  A tool entered in the form is stored and listed as entered, once, when its scope is global or
  session and the server and the catalogue answer. With any other scope the server refuses it, the
  catalogue and the list stay as they were and the status line says why; with a schema that is no
  JSON no request is sent.
\<close>

theorem tool_created_or_refused:
  assumes "catalog_works K table" and "pn_tasks p = []"
  shows "case parse (tf_parameters_schema f) of
      Inl e \<Rightarrow> on_create_tool parse f p = p\<lparr>pn_status := ''parameters_schema invalide : '' @ e\<rparr>
    | Inr schema \<Rightarrow>
        (case panel_run (tools_panel K) in_turn (on_create_tool parse f p, s) of (p', s') \<Rightarrow>
           if tf_scope f \<in> {''global'', ''session''}
           then (\<forall>s1 items s2. api_put_tool K (tool_form_dto schema f) s = (Ok (), s1) \<and> api_list_tools K s1 = (Ok items, s2) \<longrightarrow>
              p' = p\<lparr>pn_items := items\<rparr> \<and> filter (\<lambda>t. td_id t = tf_id f) items = [tool_form_dto schema f] \<and>
              (\<exists>decl. table s' = (table s)(tf_id f \<mapsto> decl) \<and> tool_to_dto (tf_id f) decl = tool_form_dto schema f))
           else s' = s \<and> (\<exists>e. p' = p\<lparr>pn_status := ''echec de creation du tool : '' @ ''portee de tool inconnue : '' @ e\<rparr>))"
proof (cases "parse (tf_parameters_schema f)")
  case (Inr schema)
  let ?dto = "tool_form_dto schema f"
  have dto: "td_id ?dto = tf_id f" "td_scope ?dto = tf_scope f" by (simp_all add: tool_form_dto_def)
  have run: "panel_run (tools_panel K) in_turn (on_create_tool parse f p, s) =
      (case api_put_tool K ?dto s of (r, s1) \<Rightarrow> (case answer_of r of
        Inl e \<Rightarrow> (p\<lparr>pn_status := ''echec de creation du tool : '' @ e\<rparr>, s1)
      | Inr _ \<Rightarrow> panel_refresh (tools_panel K) p s1))"
  proof -
    have api: "pa_put (tools_panel K) = api_put_tool K" "pa_create_error (tools_panel K) = ''echec de creation du tool : ''"
      by (simp_all add: tools_panel_def)
    show ?thesis unfolding on_create_tool_def Inr sum.case create_in_turn [OF assms(2)] api by (rule refl)
  qed
  show ?thesis
  proof (cases "tf_scope f \<in> {''global'', ''session''}")
    case False
    then obtain e where "tool_from_dto ?dto = Inl (''portee de tool inconnue : '' @ e)"
      using dto by (auto simp: tool_from_dto_def Let_def)
    then have "api_put_tool K ?dto s = (Err (''portee de tool inconnue : '' @ e), s)"
      by (simp add: api_put_tool_def put_dto_def bind_def)
    then show ?thesis using False Inr by (auto simp: run)
  next
    case True
    have "p' = p\<lparr>pn_items := items\<rparr> \<and> filter (\<lambda>t. td_id t = tf_id f) items = [?dto] \<and>
        (\<exists>decl. table s' = (table s)(tf_id f \<mapsto> decl) \<and> tool_to_dto (tf_id f) decl = ?dto)"
      if ps: "panel_run (tools_panel K) in_turn (on_create_tool parse f p, s) = (p', s')"
        and put: "api_put_tool K ?dto s = (Ok (), s1)" and lst: "api_list_tools K s1 = (Ok items, s2)" for p' s' s1 items s2
    proof -
      note put' = put [unfolded api_put_tool_def] and lst' = lst [unfolded api_list_tools_def]
      have "s2 = s1" by (rule tools.listed(1) [OF assms(1) lst'])
      moreover have "p' = p\<lparr>pn_items := items\<rparr>" "s' = s2"
        using ps [unfolded run put] lst by (simp_all add: panel_refresh_def tools_panel_def)
      ultimately show ?thesis
        using tools.stored [OF assms(1) put'] tools.listed_once [OF assms(1) put' lst'] tools.returns_same [of ?dto] dto(1) by auto
    qed
    note this [OF prod.collapse [symmetric]]
    then show ?thesis
      unfolding Inr sum.case case_prod_unfold using True by (simp only: if_True) blast
  qed
qed (simp add: on_create_tool_def)

text \<open>
  The list may stay out of date: the answers of two refreshes may be resumed in the other order than
  they were given. Here two models are deleted, all requests are answered and every task has ended,
  the catalogue is empty, and the panel shows a model.
\<close>

definition hash_catalog :: "((string, 'd) hash_map, 'd) catalog_client" where
  "hash_catalog = \<lparr>kc_list = (\<lambda>m. (Ok (AList.clearjunk m), m)), kc_set = (\<lambda>i d m. (Ok (), hm_insert i d m)),
     kc_remove = (\<lambda>i m. (Ok (), hm_remove i m))\<rparr>"

lemma refreshes_cross:
  "let a = OpenAICompatible [] [] [] ''m'' None;
       A = models_panel hash_catalog;
       start = (\<lparr>pn_items = [model_to_dto ''a'' a, model_to_dto ''b'' a], pn_status = [], pn_tasks = []\<rparr>, [(''a'', a), (''b'', a)]) in
   panel_run A [DeleteClick ''a'', DeleteClick ''b'', Serve 0, Resume 0, Serve 1, Serve 0, Resume 0, Serve 1, Resume 1, Resume 0] start =
     (\<lparr>pn_items = [model_to_dto ''b'' a], pn_status = [], pn_tasks = []\<rparr>, [])"
  by (simp add: Let_def panel_run_def panel_spawn_def serve_task_def resume_panel_def remove_at_def models_panel_def
      api_list_models_def list_dtos_def api_delete_model_def delete_entry_def map_err_def bind_def hash_catalog_def)

section \<open>Examples\<close>

definition tuple_graph :: "(string \<times> executable_decl option, string \<times> string \<times> executable_decl option) graph_types" where
  "tuple_graph = \<lparr>gt_node = Pair, gt_node_id = fst, gt_node_action = snd, gt_edge = (\<lambda>x y g. (x, y, g)),
     gt_edge_from = fst, gt_edge_to = fst \<circ> snd, gt_edge_guard = snd \<circ> snd\<rparr>"

lemma tuple_graph_law: "graph_types_law tuple_graph"
  by (simp add: graph_types_law_def tuple_graph_def)

lemma hash_catalog_works: "catalog_works hash_catalog hm_get"
  by (simp add: catalog_works_def hash_catalog_def map_of_clearjunk distinct_clearjunk update_conv' delete_conv')

definition drawing :: "editor_input list" where
  "drawing = [DblClick 100 100, DblClick 300 100, MouseDown 188 100, MouseUp 300 100, SetAction ''node-1'' (Some (ViewRust ''start''))]"

theorem drawn_graph_is_stored_witness:
  "let e = snd (editor_run (\<lambda>_ _ _ _ _ _. False) drawing editor_new);
       (p', m') = panel_run (graphs_panel tuple_graph hash_catalog) in_turn
         (on_create_graph ''g'' ''node-1'' e \<lparr>pn_items = [], pn_status = [], pn_tasks = []\<rparr>, []) in
   filter (\<lambda>g. gd_id g = ''g'') (pn_items p') = [edited_graph_dto ''g'' ''node-1'' e] \<and> pn_status p' = []"
  using drawn_graph_is_stored [OF tuple_graph_law hash_catalog_works, of "\<lparr>pn_items = [], pn_status = [], pn_tasks = []\<rparr>"
      "\<lambda>_ _ _ _ _ _. False" drawing "''g''" "''node-1''" "[]"]
  by (auto simp: Let_def api_put_state_graph_def put_dto_def api_list_state_graphs_def list_dtos_def map_err_def bind_def
      hash_catalog_def split: prod.splits)

definition search_form :: tool_form where
  "search_form = \<lparr>tf_id = ''search'', tf_name = ''Search'', tf_description = [], tf_parameters_schema = ''null'', tf_scope = ''session''\<rparr>"

theorem tool_created_or_refused_witness:
  "let p = \<lparr>pn_items = [], pn_status = [], pn_tasks = []\<rparr>; parse = (\<lambda>_. Inr VNull) in
   filter (\<lambda>t. td_id t = ''search'') (pn_items (fst (panel_run (tools_panel hash_catalog) in_turn (on_create_tool parse search_form p, [])))) =
     [tool_form_dto VNull search_form]"
  using tool_created_or_refused [OF hash_catalog_works, of "\<lparr>pn_items = [], pn_status = [], pn_tasks = []\<rparr>" "\<lambda>_. Inr VNull" search_form "[]"]
  by (simp add: search_form_def Let_def case_prod_unfold api_put_tool_def put_dto_def api_list_tools_def list_dtos_def
      tool_form_dto_def tool_from_dto_def map_err_def bind_def hash_catalog_def)

end
