(* ===== verification/Tool_Registry.thy ===== *)
theory Tool_Registry
  imports Session_Worker
begin

text \<open>
  The registry of tools (\<^verbatim>\<open>marie-core/src/tools/mod.rs\<close>, \<^verbatim>\<open>tools/executor.rs\<close>): native tools with
  their executors over the published ones, the trait \<^verbatim>\<open>Toolable\<close> that declares and registers a
  tool, and the event that reports the end of a call. The look-ups are those of \<open>Catalog\<close>, the
  wrapping of an executor that of \<open>Session_Worker\<close>; the feature that compiles executors is on.
\<close>

record tools =
  ts_catalog :: catalog_store
  ts_executors :: "(string, tool_executor) hash_map"
  ts_native :: "(string, tool) hash_map"

definition tools_new :: "catalog_store \<Rightarrow> tools" where
  "tools_new store = \<lparr>ts_catalog = store, ts_executors = [], ts_native = []\<rparr>"

definition executors_add :: "string \<Rightarrow> tool_executor \<Rightarrow> (string, tool_executor) hash_map \<Rightarrow> (string, tool_executor) hash_map" where
  "executors_add i ex exs = hm_insert i ex exs"

definition tools_register_with :: "tool \<Rightarrow> tool_executor \<Rightarrow> tools \<Rightarrow> tools" where
  "tools_register_with def ex ts =
     ts\<lparr>ts_native := tools_register (t_name def) def (ts_native ts),
        ts_executors := executors_add (t_name def) ex (ts_executors ts)\<rparr>"

text \<open>An operation of the catalogue on the catalogue of the registry.\<close>

definition on_catalog :: "'a catalog_prog \<Rightarrow> (tools, catalog_error, 'a) prog" where
  "on_catalog m ts = (case m (ts_catalog ts) of (r, store) \<Rightarrow> (r, ts\<lparr>ts_catalog := store\<rparr>))"

definition tools_insert :: "tool catalogable \<Rightarrow> tool \<Rightarrow> (tools, catalog_error, tool_ref) prog" where
  "tools_insert C t = on_catalog (bind (catalog_publish C t) (\<lambda>r. ret (CatalogTool r)))"

definition tools_replace :: "tool catalogable \<Rightarrow> tool \<Rightarrow> (tools, catalog_error, tool_ref) prog" where
  "tools_replace C t =
     on_catalog (seq (catalog_latest_ref C (t_name t)) (bind (catalog_publish C t) (\<lambda>r. ret (CatalogTool r))))"

definition tools_delete :: "tool catalogable \<Rightarrow> string \<Rightarrow> (tools, catalog_error, unit) prog" where
  "tools_delete C i = on_catalog (bind (catalog_latest_ref C i) catalog_delete)"

definition registry_get :: "tool catalogable \<Rightarrow> string \<Rightarrow> (tools, catalog_error, tool option) prog" where
  "registry_get C i ts = on_catalog (tools_get C (ts_native ts) i) ts"

definition registry_latest :: "tool catalogable \<Rightarrow> string \<Rightarrow> (tools, catalog_error, tool_ref option) prog" where
  "registry_latest C i ts = on_catalog (tools_latest C (ts_native ts) i) ts"

definition registry_deref :: "tool catalogable \<Rightarrow> tool_ref \<Rightarrow> (tools, catalog_error, tool option) prog" where
  "registry_deref C r ts = on_catalog (tools_deref C (ts_native ts) r) ts"

section \<open>Declared tools\<close>

text \<open>
  The trait \<^verbatim>\<open>Toolable\<close>: the name and the description, the schema of the arguments as the schema
  library gives it, the conversions of arguments and results, and the execution.
\<close>

record ('a, 'r) toolable =
  tb_name :: string
  tb_description :: string
  tb_schema :: "value"
  tb_from_value :: "value \<Rightarrow> string + 'a"
  tb_to_value :: "'r \<Rightarrow> string + value"
  tb_execute :: "'a \<Rightarrow> (error, 'r) outcome"

definition toolable_definition :: "('a, 'r) toolable \<Rightarrow> tool" where
  "toolable_definition T = \<lparr>t_name = tb_name T, t_description = tb_description T, t_parameters_schema = tb_schema T,
     t_execution = Native\<rparr>"

definition toolable_register :: "('a, 'r) toolable \<Rightarrow> tools \<Rightarrow> tools" where
  "toolable_register T ts =
     tools_register_with (toolable_definition T) (wrap_tool (tb_from_value T) (tb_to_value T) (\<lambda>_ args. tb_execute T args)) ts"

section \<open>The end of a call\<close>

datatype tool_call_error = TimeOut | CustomError string
datatype tool_call_result = CallSuccess "string option" | CallFailed tool_call_error
datatype tool_event = ToolExecutionDone ID tool_call_result

fun tool_event_id :: "tool_event \<Rightarrow> string" where
  "tool_event_id (ToolExecutionDone i _) = id_display i"

fun tool_event_topics :: "tool_event \<Rightarrow> string list" where
  "tool_event_topics _ = [''/marie/tools'']"

section \<open>Properties\<close>

lemma registered_simps [simp]:
  "ts_catalog (toolable_register T ts) = ts_catalog ts"
  "ts_native (toolable_register T ts) = hm_insert (tb_name T) (toolable_definition T) (ts_native ts)"
  "ts_executors (toolable_register T ts) =
     hm_insert (tb_name T) (wrap_tool (tb_from_value T) (tb_to_value T) (\<lambda>_ args. tb_execute T args)) (ts_executors ts)"
  by (simp_all add: toolable_register_def tools_register_with_def tools_register_def executors_add_def toolable_definition_def)

lemma on_catalog_native [simp]:
  "ts_native (snd (on_catalog m ts)) = ts_native ts" "ts_executors (snd (on_catalog m ts)) = ts_executors ts"
  by (simp_all add: on_catalog_def split: prod.splits)

text \<open>The writes on the published tools, whose errors the registry survives.\<close>

datatype registry_write = InsertTool tool | ReplaceTool tool | DeleteTool string

fun registry_write_step :: "tool catalogable \<Rightarrow> registry_write \<Rightarrow> tools \<Rightarrow> tools" where
  "registry_write_step C (InsertTool t) ts = snd (tools_insert C t ts)"
| "registry_write_step C (ReplaceTool t) ts = snd (tools_replace C t ts)"
| "registry_write_step C (DeleteTool i) ts = snd (tools_delete C i ts)"

lemma writes_keep_native:
  "ts_native (fold (registry_write_step C) ws ts) = ts_native ts \<and> ts_executors (fold (registry_write_step C) ws ts) = ts_executors ts"
proof (induction ws arbitrary: ts)
  case (Cons w ws)
  have "ts_native (registry_write_step C w ts) = ts_native ts" "ts_executors (registry_write_step C w ts) = ts_executors ts"
    by (cases w; simp add: tools_insert_def tools_replace_def tools_delete_def)+
  with Cons.IH show ?case by simp
qed simp

text \<open>
  A tool registered by the process is found by its name, before any published one of that name and
  whatever is published, replaced or deleted afterwards, and a call of it runs its execution.
\<close>

theorem registered_tool_runs:
  assumes "tb_from_value T args = Inr a" and "tb_execute T a = Ok r" and "tb_to_value T r = Inr v"
  shows "let ts' = fold (registry_write_step C) ws (toolable_register T ts) in
    fst (registry_latest C (tb_name T) ts') = Ok (Some (NativeTool (tb_name T))) \<and>
    fst (registry_get C (tb_name T) ts') = Ok (Some (toolable_definition T)) \<and>
    fst (registry_deref C (NativeTool (tb_name T)) ts') = Ok (Some (toolable_definition T)) \<and>
    tools_execute (ts_executors ts') sid (tb_name T) args = Ok v"
  using assms writes_keep_native [of C ws "toolable_register T ts"]
  by (simp add: Let_def registry_latest_def registry_get_def registry_deref_def on_catalog_def tools_latest_def tools_get_def
      tools_execute_def wrap_tool_def hm_contains_def)

text \<open>
  A published tool is found as published unless the process has a native one of that name, and it has
  no executor; replacing a tool that was never published fails and changes nothing.
\<close>

theorem published_tool_found:
  assumes "\<And>d. to_vec C t = Inr d \<Longrightarrow> from_slice C d = Inr t" and "cat_id C t = t_name t"
    and "tools_insert C t ts = (Ok r, ts')"
  shows "fst (registry_get C (t_name t) ts') =
      Ok (Some (case hm_get (ts_native ts) (t_name t) of Some n \<Rightarrow> n | None \<Rightarrow> t)) \<and>
    fst (registry_deref C r ts') = Ok (Some t) \<and> ts_executors ts' = ts_executors ts"
proof -
  obtain ref store where pub: "catalog_publish C t (ts_catalog ts) = (Ok ref, store)"
    and r: "r = CatalogTool ref" and ts': "ts' = ts\<lparr>ts_catalog := store\<rparr>"
    using assms(3) by (auto simp: tools_insert_def on_catalog_def bind_def split: prod.splits outcome.splits)
  have "catalog_deref C ref store = (Ok t, store)" "catalog_latest C (t_name t) store = (Ok t, store)"
    using publish_then_read [OF assms(1) pub] assms(2) by simp_all
  then show ?thesis
    by (auto simp: registry_get_def registry_deref_def on_catalog_def tools_get_def not_found_as_none_def r ts' split: option.splits)
qed

lemma replace_unknown_refused:
  assumes "last_catalog_ref (ts_catalog ts) (cat_kind C) (t_name t) = None"
  shows "tools_replace C t ts = (Err (NotFound (cat_kind C) (t_name t)), ts)"
  using assms by (simp add: tools_replace_def on_catalog_def seq_def bind_def catalog_latest_ref_def)

end
