(* ===== verification/Stream_Pool.thy ===== *)
theory Stream_Pool
  imports Marie_Prelude
begin

text \<open>
  The pool of streams (\<^verbatim>\<open>marie-core/src/stream.rs\<close>). A stream is what it still has to yield: a
  finite sequence, or a value repeated for ever, as the interval of \<^verbatim>\<open>after\<close> makes one. What is
  ready when the pool is polled is decided by the environment and is an input of the steps of
  \<^verbatim>\<open>next\<close>; when several branches of \<^verbatim>\<open>select!\<close> are ready, any of them may be taken.
\<close>

datatype 'a stream_source = Finite "'a list" | Every 'a

text \<open>The channel keeps the streams sent and not received yet; \<open>sp_senders\<close> counts the live senders.\<close>

record 'a stream_pool =
  sp_select_all :: "'a stream_source list"
  sp_channel :: "'a stream_source list"
  sp_capacity :: nat
  sp_senders :: nat

text \<open>The pool keeps one sender for the handles it gives out.\<close>

definition pool_new :: "nat \<Rightarrow> ('e, 'a stream_pool) outcome" where
  "pool_new capacity =
     (if capacity = 0 then Panic ''mpsc bounded channel requires buffer > 0''
      else Ok \<lparr>sp_select_all = [], sp_channel = [], sp_capacity = capacity, sp_senders = 1\<rparr>)"

definition pool_handle :: "'a stream_pool \<Rightarrow> 'a stream_pool" where
  "pool_handle p = p\<lparr>sp_senders := sp_senders p + 1\<rparr>"

definition handle_clone :: "'a stream_pool \<Rightarrow> 'a stream_pool" where
  "handle_clone p = p\<lparr>sp_senders := sp_senders p + 1\<rparr>"

text \<open>A handle goes; the sender of the pool itself stays.\<close>

definition handle_drop :: "'a stream_pool \<Rightarrow> 'a stream_pool" where
  "handle_drop p = (if 1 < sp_senders p then p\<lparr>sp_senders := sp_senders p - 1\<rparr> else p)"

datatype try_send_error = Full

definition handle_try_push :: "'a stream_source \<Rightarrow> ('a stream_pool, try_send_error, unit) prog" where
  "handle_try_push st p =
     (if length (sp_channel p) < sp_capacity p then (Ok (), p\<lparr>sp_channel := sp_channel p @ [st]\<rparr>) else (Err Full, p))"

text \<open>The awaiting push waits while the channel is full: it has no step then.\<close>

definition handle_push :: "'a stream_source \<Rightarrow> 'a stream_pool \<Rightarrow> 'a stream_pool option" where
  "handle_push st p =
     (if length (sp_channel p) < sp_capacity p then Some (p\<lparr>sp_channel := sp_channel p @ [st]\<rparr>) else None)"

text \<open>\<^verbatim>\<open>after\<close>: a duration that is negative panics, and so does the interval of none.\<close>

definition handle_after :: "int \<Rightarrow> 'a \<Rightarrow> 'a stream_pool \<Rightarrow> (unit, 'a stream_pool option) outcome" where
  "handle_after duration v p =
     (if duration < 0 then Panic ''called `Result::unwrap()` on an `Err` value''
      else if duration = 0 then Panic ''`period` must be non-zero.''
      else Ok (handle_push (Every v) p))"

definition pool_push :: "'a stream_source \<Rightarrow> 'a stream_pool \<Rightarrow> 'a stream_pool" where
  "pool_push st p = p\<lparr>sp_select_all := sp_select_all p @ [st]\<rparr>"

section \<open>The next element\<close>

text \<open>One item of the stream at an index, if it has one; a stream that ended is dropped.\<close>

fun pull :: "'a stream_source \<Rightarrow> ('a \<times> 'a stream_source) option" where
  "pull (Finite []) = None"
| "pull (Finite (x # xs)) = Some (x, Finite xs)"
| "pull (Every v) = Some (v, Every v)"

text \<open>The channel is closed when it is empty and no sender is left.\<close>

definition closed :: "'a stream_pool \<Rightarrow> bool" where
  "closed p \<longleftrightarrow> sp_channel p = [] \<and> sp_senders p = 0"

text \<open>
  What a poll of the streams finds: the stream at an index ready, an ended one, or none ready.
\<close>

datatype pool_choice = Receive | StreamReady nat | StreamEnded nat | Otherwise

datatype 'a next_step = Continue "'a stream_pool" | Return "'a option" "'a stream_pool"

fun pool_next :: "pool_choice \<Rightarrow> 'a stream_pool \<Rightarrow> 'a next_step option" where
  "pool_next Receive p = (case sp_channel p of
      [] \<Rightarrow> None
    | st # rest \<Rightarrow> Some (Continue (p\<lparr>sp_channel := rest, sp_select_all := sp_select_all p @ [st]\<rparr>)))"
| "pool_next (StreamReady i) p =
     (if i < length (sp_select_all p) then
        (case pull (sp_select_all p ! i) of
           None \<Rightarrow> None
         | Some (x, st) \<Rightarrow> Some (Return (Some x) (p\<lparr>sp_select_all := (sp_select_all p)[i := st]\<rparr>)))
      else None)"
| "pool_next (StreamEnded i) p =
     (if i < length (sp_select_all p) \<and> pull (sp_select_all p ! i) = None
      then Some (Continue (p\<lparr>sp_select_all := take i (sp_select_all p) @ drop (i + 1) (sp_select_all p)\<rparr>))
      else None)"
| "pool_next Otherwise p =
     (if closed p \<and> sp_select_all p = [] then Some (Return None p) else None)"

section \<open>Properties\<close>

text \<open>Every operation on a pool, those of the handles and those of \<^verbatim>\<open>next\<close>.\<close>

inductive pool_step :: "'a stream_pool \<Rightarrow> 'a stream_pool \<Rightarrow> bool" where
  handle: "pool_step p (pool_handle p)"
| clone: "pool_step p (handle_clone p)"
| gone: "pool_step p (handle_drop p)"
| try_push: "pool_step p (snd (handle_try_push st p))"
| push: "handle_push st p = Some p' \<Longrightarrow> pool_step p p'"
| local: "pool_step p (pool_push st p)"
| continue: "pool_next c p = Some (Continue p') \<Longrightarrow> pool_step p p'"
| item: "pool_next c p = Some (Return r p') \<Longrightarrow> pool_step p p'"

lemma pool_next_senders:
  "pool_next c p = Some (Continue p') \<Longrightarrow> sp_senders p' = sp_senders p"
  "pool_next c p = Some (Return r p') \<Longrightarrow> sp_senders p' = sp_senders p"
  by (cases c; auto split: list.splits if_splits option.splits)+

lemma step_keeps_sender: "pool_step p p' \<Longrightarrow> 0 < sp_senders p \<Longrightarrow> 0 < sp_senders p'"
  by (induction rule: pool_step.induct)
    (auto simp: pool_handle_def handle_clone_def handle_drop_def handle_try_push_def handle_push_def pool_push_def pool_next_senders
      split: if_splits)

text \<open>
  A pool never reports its end. It keeps a sender of its own channel, so the channel is never
  closed, and \<^verbatim>\<open>next\<close> on a pool whose handles are gone and whose streams have ended waits for ever.
\<close>

theorem pool_never_ends:
  assumes "pool_new capacity = (Ok p0 :: (unit, _) outcome)" and "pool_step\<^sup>*\<^sup>* p0 p"
  shows "pool_next c p \<noteq> Some (Return None p') \<and>
    (sp_channel p = [] \<and> sp_select_all p = [] \<longrightarrow> pool_next c p = None)"
proof -
  have "0 < sp_senders p0" using assms(1) by (auto simp: pool_new_def split: if_splits)
  with assms(2) have "0 < sp_senders p" by (induction rule: rtranclp_induct) (auto dest: step_keeps_sender)
  then have "\<not> closed p" by (simp add: closed_def)
  then show ?thesis by (cases c) (auto split: list.splits option.splits if_splits)
qed

text \<open>A value put after a delay is yielded any number of times.\<close>

theorem after_repeats:
  assumes "i < length (sp_select_all p)" and "sp_select_all p ! i = Every v"
  shows "\<exists>p'. pool_next (StreamReady i) p = Some (Return (Some v) p') \<and> i < length (sp_select_all p') \<and> sp_select_all p' ! i = Every v"
  using assms by simp

end
