(* ===== verification/Web_Socket.thy ===== *)
theory Web_Socket
  imports Chat_View
begin

text \<open>
  The websocket of the web gateway (\<^verbatim>\<open>marie-axum/src/ws.rs\<close>, \<^verbatim>\<open>protocol.rs\<close>): the registry of
  forms sent to a connection, the execution of a message, and the loop of a connection. The clients
  it calls belong to modules that are not in \<^verbatim>\<open>marie-core\<close> any more: they are the parameter
  \<open>ws_clients\<close>. Requests, jobs, modes and session events are passed through unread, but for the
  identity of a request.
\<close>

section \<open>Messages\<close>

record agent_frame =
  af_session_id :: ID
  af_id :: ID
  af_model :: string
  af_status :: agent_status_dto
  af_allowed_tools :: "string list"
  af_context :: "context_entry_dto list"
  af_stdio :: string
  af_stderr :: string

record frame_snapshot =
  sf_session_id :: ID
  sf_id :: ID
  sf_model_id :: string
  sf_status :: agent_status_dto
  sf_allowed_tools :: "string list"
  sf_context :: "context_entry_dto list"
  sf_stdio :: string
  sf_stderr :: string

definition frame_snapshot_of :: "agent_frame \<Rightarrow> frame_snapshot" where
  "frame_snapshot_of frame = \<lparr>sf_session_id = af_session_id frame, sf_id = af_id frame, sf_model_id = af_model frame,
     sf_status = af_status frame, sf_allowed_tools = af_allowed_tools frame, sf_context = af_context frame,
     sf_stdio = af_stdio frame, sf_stderr = af_stderr frame\<rparr>"

datatype 'job ws_client_message =
    WsSubscribeSession ID
  | WsUnsubscribeSession ID
  | WsGetFrame ID ID
  | WsHitlAnswer ID answers
  | WsSubmitJob 'job
  | WsSendMessage ID string "string list" string
  | WsGetMode ID

datatype ('ev, 'req, 'mode) ws_server_message =
    WsSessionEvent 'ev
  | WsHitlRequest 'req
  | WsFrame ID ID "frame_snapshot option"
  | WsAck string
  | WsError string string
  | WsMessageSent ID ID
  | WsMode ID 'mode

section \<open>Execution of a message\<close>

record ('s, 'req, 'job, 'mode) ws_clients =
  wc_acquire :: "ID \<Rightarrow> ('s, std_error, unit) prog"
  wc_remove :: "ID \<Rightarrow> 's \<Rightarrow> 's"
  wc_frame :: "ID \<Rightarrow> ID \<Rightarrow> 's \<Rightarrow> agent_frame option"
  wc_answer :: "'req \<Rightarrow> answers \<Rightarrow> ('s, std_error, unit) prog"
  wc_spawn_job :: "'job \<Rightarrow> ('s, std_error, unit) prog"
  wc_put_frame :: "ID \<Rightarrow> ID \<Rightarrow> agent_frame \<Rightarrow> ('s, std_error, unit) prog"
  wc_current_mode :: "ID \<Rightarrow> 's \<Rightarrow> 'mode"
  wc_run_agent :: "ID \<Rightarrow> ID \<Rightarrow> ID \<Rightarrow> 'job"
  wc_request_id :: "'req \<Rightarrow> ID"

type_synonym 'req hitl_registry = "(ID, 'req) hash_map"

definition registry_remember :: "('req \<Rightarrow> ID) \<Rightarrow> 'req \<Rightarrow> 'req hitl_registry \<Rightarrow> 'req hitl_registry" where
  "registry_remember request_id req reg = hm_insert (request_id req) req reg"

definition registry_take :: "ID \<Rightarrow> 'req hitl_registry \<Rightarrow> 'req option \<times> 'req hitl_registry" where
  "registry_take i reg = (hm_get reg i, hm_remove i reg)"

text \<open>An acknowledgement, or the error under the name of the message; a panic ends the task.\<close>

definition acknowledge ::
  "string \<Rightarrow> ('s, std_error, unit) prog \<Rightarrow> 's \<Rightarrow> (unit, ('ev, 'req, 'mode) ws_server_message) outcome \<times> 's" where
  "acknowledge name m s = (case m s of
      (Ok _, s') \<Rightarrow> (Ok (WsAck name), s')
    | (Err e, s') \<Rightarrow> (Ok (WsError name (display e)), s')
    | (Panic p, s') \<Rightarrow> (Panic p, s'))"

text \<open>\<open>ids\<close> are the identities the branch draws: that of a frame and that of a job.\<close>

definition dispatch_message ::
  "('s, 'req, 'job, 'mode) ws_clients \<Rightarrow> ID \<times> ID \<Rightarrow> 'job ws_client_message \<Rightarrow> 'req hitl_registry \<times> 's \<Rightarrow>
     (unit, ('ev, 'req, 'mode) ws_server_message) outcome \<times> 'req hitl_registry \<times> 's" where
  "dispatch_message C ids msg = (\<lambda>(reg, s). case msg of
      WsSubscribeSession session_id \<Rightarrow>
        (case acknowledge ''subscribe_session'' (wc_acquire C session_id) s of (r, s') \<Rightarrow> (r, reg, s'))
    | WsUnsubscribeSession session_id \<Rightarrow> (Ok (WsAck ''unsubscribe_session''), reg, wc_remove C session_id s)
    | WsGetFrame session_id local_id \<Rightarrow>
        (Ok (WsFrame session_id local_id (map_option frame_snapshot_of (wc_frame C session_id local_id s))), reg, s)
    | WsHitlAnswer request_id answers \<Rightarrow>
        (case registry_take request_id reg of
           (None, reg') \<Rightarrow>
             (Ok (WsError ''hitl_answer'' ''formulaire inconnu de cette connexion (jamais recu, ou deja repondu)''), reg', s)
         | (Some req, reg') \<Rightarrow>
             (case acknowledge ''hitl_answer'' (wc_answer C req answers) s of (r, s') \<Rightarrow> (r, reg', s')))
    | WsSubmitJob job \<Rightarrow> (case acknowledge ''submit_job'' (wc_spawn_job C job) s of (r, s') \<Rightarrow> (r, reg, s'))
    | WsSendMessage session_id model_id allowed_tools txt \<Rightarrow>
        (let local_id = fst ids;
             frame = \<lparr>af_session_id = session_id, af_id = local_id, af_model = model_id, af_status = InitialDto,
               af_allowed_tools = allowed_tools, af_context = [\<lparr>ce_role = RoleUser, ce_content = txt\<rparr>],
               af_stdio = [], af_stderr = []\<rparr> in
         case wc_put_frame C session_id local_id frame s of
           (Err e, s') \<Rightarrow> (Ok (WsError ''send_message'' (display e)), reg, s')
         | (Panic p, s') \<Rightarrow> (Panic p, reg, s')
         | (Ok _, s') \<Rightarrow>
             (case wc_spawn_job C (wc_run_agent C (snd ids) session_id local_id) s' of
                (Ok _, s'') \<Rightarrow> (Ok (WsMessageSent session_id local_id), reg, s'')
              | (Err e, s'') \<Rightarrow> (Ok (WsError ''send_message'' (display e)), reg, s'')
              | (Panic p, s'') \<Rightarrow> (Panic p, reg, s'')))
    | WsGetMode session_id \<Rightarrow> (Ok (WsMode session_id (wc_current_mode C session_id s)), reg, s))"

section \<open>The loop of a connection\<close>

text \<open>
  What reaches the loop: an item of the merged events, the end of them, a frame of the socket.
  A request is remembered before it is sent. \<open>parse\<close> and \<open>render\<close> are the JSON library, and the
  Boolean of an input says whether the socket takes what is sent.
\<close>

datatype ('ev, 'req) ws_input =
    Pushed 'ev bool
  | Requested 'req bool
  | EventsEnded
  | TextFrame string "ID \<times> ID" bool
  | OtherFrame
  | SocketEnded

record ('s, 'ev, 'req, 'mode) connection =
  cn_open :: bool
  cn_registry :: "'req hitl_registry"
  cn_sent :: "('ev, 'req, 'mode) ws_server_message list"
  cn_cluster :: 's

definition connection_new :: "'s \<Rightarrow> ('s, 'ev, 'req, 'mode) connection" where
  "connection_new s = \<lparr>cn_open = True, cn_registry = [], cn_sent = [], cn_cluster = s\<rparr>"

text \<open>\<^verbatim>\<open>send\<close>: what cannot be rendered is dropped without an error.\<close>

definition ws_send ::
  "(('ev, 'req, 'mode) ws_server_message \<Rightarrow> string option) \<Rightarrow> bool \<Rightarrow> ('ev, 'req, 'mode) ws_server_message \<Rightarrow>
     ('s, 'ev, 'req, 'mode) connection \<Rightarrow> ('s, 'ev, 'req, 'mode) connection" where
  "ws_send render takes msg cn = (case render msg of
      None \<Rightarrow> cn
    | Some _ \<Rightarrow> if takes then cn\<lparr>cn_sent := cn_sent cn @ [msg]\<rparr> else cn\<lparr>cn_open := False\<rparr>)"

definition serve_input ::
  "('s, 'req, 'job, 'mode) ws_clients \<Rightarrow> (string \<Rightarrow> 'job ws_client_message option) \<Rightarrow>
     (('ev, 'req, 'mode) ws_server_message \<Rightarrow> string option) \<Rightarrow> ('ev, 'req) ws_input \<Rightarrow>
     ('s, 'ev, 'req, 'mode) connection \<Rightarrow> ('s, 'ev, 'req, 'mode) connection" where
  "serve_input C parse render i cn =
     (if \<not> cn_open cn then cn
      else case i of
        Pushed ev takes \<Rightarrow> ws_send render takes (WsSessionEvent ev) cn
      | Requested req takes \<Rightarrow>
          ws_send render takes (WsHitlRequest req)
            (cn\<lparr>cn_registry := registry_remember (wc_request_id C) req (cn_registry cn)\<rparr>)
      | EventsEnded \<Rightarrow> cn\<lparr>cn_open := False\<rparr>
      | TextFrame txt ids takes \<Rightarrow>
          (case parse txt of
             None \<Rightarrow> cn
           | Some msg \<Rightarrow>
               (case dispatch_message C ids msg (cn_registry cn, cn_cluster cn) of
                  (Ok response, reg, s) \<Rightarrow> ws_send render takes response (cn\<lparr>cn_registry := reg, cn_cluster := s\<rparr>)
                | (_, reg, s) \<Rightarrow> cn\<lparr>cn_open := False, cn_registry := reg, cn_cluster := s\<rparr>))
      | OtherFrame \<Rightarrow> cn
      | SocketEnded \<Rightarrow> cn\<lparr>cn_open := False\<rparr>)"

definition serve_connection ::
  "('s, 'req, 'job, 'mode) ws_clients \<Rightarrow> (string \<Rightarrow> 'job ws_client_message option) \<Rightarrow>
     (('ev, 'req, 'mode) ws_server_message \<Rightarrow> string option) \<Rightarrow> ('ev, 'req) ws_input list \<Rightarrow>
     ('s, 'ev, 'req, 'mode) connection \<Rightarrow> ('s, 'ev, 'req, 'mode) connection" where
  "serve_connection C parse render is = fold (serve_input C parse render) is"

section \<open>Properties\<close>

lemma ws_send_simps [simp]:
  "cn_registry (ws_send render takes msg cn) = cn_registry cn" "cn_cluster (ws_send render takes msg cn) = cn_cluster cn"
  by (simp_all add: ws_send_def split: option.splits)

text \<open>Only a pushed request adds to the registry, and an answer takes from it.\<close>

lemma dispatch_registry:
  assumes "dispatch_message C ids msg (reg, s) = (r, reg', s')"
  shows "reg' = (case msg of WsHitlAnswer i _ \<Rightarrow> hm_remove i reg | _ \<Rightarrow> reg)"
  using assms
  by (simp add: dispatch_message_def registry_take_def Let_def split: ws_client_message.splits prod.splits outcome.splits option.splits)

lemma dispatch_keeps_absent:
  "dispatch_message C ids msg (reg, s) = (r, reg', s') \<Longrightarrow> hm_get reg i = None \<Longrightarrow> hm_get reg' i = None"
  by (drule dispatch_registry) (simp split: ws_client_message.splits)

lemma serve_registry_absent:
  assumes "hm_get (cn_registry cn) i = None" and "\<forall>req takes. inp = Requested req takes \<longrightarrow> wc_request_id C req \<noteq> i"
  shows "hm_get (cn_registry (serve_input C parse render inp cn)) i = None"
proof (cases inp)
  case (TextFrame raw ids takes)
  then show ?thesis
    using assms(1) by (auto simp: serve_input_def dest: dispatch_keeps_absent split: option.splits prod.splits outcome.splits)
next
  case (Requested req ok)
  with assms show ?thesis by (simp add: serve_input_def registry_remember_def)
qed (simp_all add: serve_input_def assms(1))

lemma serve_run_absent:
  "hm_get (cn_registry cn) i = None \<Longrightarrow> \<forall>req takes. Requested req takes \<in> set is \<longrightarrow> wc_request_id C req \<noteq> i \<Longrightarrow>
   hm_get (cn_registry (serve_connection C parse render is cn)) i = None"
proof (induction "is" arbitrary: cn)
  case (Cons inp js)
  have "hm_get (cn_registry (serve_input C parse render inp cn)) i = None"
    using Cons.prems by (intro serve_registry_absent) auto
  then have "hm_get (cn_registry (serve_connection C parse render js (serve_input C parse render inp cn))) i = None"
    using Cons.prems(2) by (intro Cons.IH) auto
  then show ?case by (simp add: serve_connection_def)
qed (simp add: serve_connection_def)

text \<open>
  An answer takes its form out of the registry before it is checked. Whether it is accepted or
  refused, every later answer to that form on the connection is refused as unknown, and the cluster
  is not asked, until the form is pushed again.
\<close>

theorem form_answered_once:
  assumes "dispatch_message C ids (WsHitlAnswer i first) (cn_registry cn, cn_cluster cn) = (r, reg, s)"
    and "\<forall>req takes. Requested req takes \<in> set is \<longrightarrow> wc_request_id C req \<noteq> i"
    and "cn' = serve_connection C parse render is (cn\<lparr>cn_registry := reg, cn_cluster := s\<rparr>)"
  shows "\<exists>msg. dispatch_message C ids' (WsHitlAnswer i second) (cn_registry cn', cn_cluster cn') =
    (Ok (WsError ''hitl_answer'' msg), hm_remove i (cn_registry cn'), cn_cluster cn')"
proof -
  have "reg = hm_remove i (cn_registry cn)"
    using dispatch_registry [OF assms(1)] by simp
  then have "hm_get (cn_registry cn') i = None"
    unfolding assms(3) using assms(2) by (intro serve_run_absent) simp_all
  then show ?thesis by (simp add: dispatch_message_def registry_take_def)
qed

text \<open>Every text that is a message gets exactly one response, as long as the clients do not panic.\<close>

lemma message_gets_response:
  assumes "cn_open cn" and "parse txt = Some msg" and "\<And>m. render m \<noteq> None"
    and "fst (dispatch_message C ids msg (cn_registry cn, cn_cluster cn)) = Ok response"
  shows "cn_sent (serve_input C parse render (TextFrame txt ids True) cn) = cn_sent cn @ [response]"
  using assms by (auto simp: serve_input_def ws_send_def split: prod.splits option.splits)

text \<open>A frame whose job cannot be submitted stays stored, and is never run.\<close>

lemma message_without_job_leaves_frame:
  assumes "wc_put_frame C sid (fst ids) \<lparr>af_session_id = sid, af_id = fst ids, af_model = m, af_status = InitialDto,
      af_allowed_tools = tools, af_context = [\<lparr>ce_role = RoleUser, ce_content = txt\<rparr>], af_stdio = [], af_stderr = []\<rparr> s = (Ok (), s1)"
    and "wc_spawn_job C (wc_run_agent C (snd ids) sid (fst ids)) s1 = (Err e, s2)"
  shows "dispatch_message C ids (WsSendMessage sid m tools txt) (reg, s) = (Ok (WsError ''send_message'' (display e)), reg, s2)"
  using assms by (simp add: dispatch_message_def Let_def)

end
