(* ===== verification/Spec2Isabelle.thy ===== *)
theory Spec2Isabelle
  imports Checkpointer_Events Session_Controller Secrets Leases Messaging Jobs Script Gateway Terminal Var_Files Macros
    Network Web_Api Tool_Registry Stream_Pool Web_Socket
begin

text \<open>
  A verification development for marie, a distributed runtime for agent sessions written in Rust:
  the session engine, the services of the cluster and the virtual files (\<^verbatim>\<open>marie-core\<close> and its macro
  crate), the interactive command line (\<^verbatim>\<open>marie-cli\<close>), the gateway of external connections
  (\<^verbatim>\<open>marie-gateway\<close>), the websocket of the web gateway (\<^verbatim>\<open>marie-axum\<close>), and the web client, its
  chat page, its graph editor and its configuration panel, with the crates under it
  (\<^verbatim>\<open>marie-web-example\<close>, \<^verbatim>\<open>marie-leptos\<close>, \<^verbatim>\<open>marie-ws\<close>).

  \<^bold>\<open>The program.\<close> A session is a tree of frames. Each frame runs a node body on a worker; the
  body reads and writes channels, and asks for experts, tools, sub-graphs or human answers
  through a replay log. The checkpointer of the session receives the result of each run, commits
  the channel updates to a snapshot of the frame, creates the child frames that answer the
  requests, and resumes the parent when its children have terminated. The nodes of a cluster know
  each other through a directory, call each other through a post office, run jobs for each other,
  hold leases on sessions through a replicated authority and share master keys by epoch. A user
  drives a node from a command line, and an external connection reaches sessions and workspaces
  through a gateway that checks its access. Paths below are relative to \<^verbatim>\<open>src/marie-core/src\<close>
  unless they start with the name of another crate.

  \<^bold>\<open>The data and the services.\<close>

  \<^item> \<^verbatim>\<open>Marie_Prelude\<close>: machine integers, hash maps as association lists, outcomes (a result, an
    error or a panic), state-passing programs whose state survives a failure, invariants of
    programs, and the interface of a keyed store, which every in-memory store interprets.
  \<^item> \<^verbatim>\<open>Errors\<close> (\<^verbatim>\<open>error.rs\<close>), \<^verbatim>\<open>Ids\<close> (\<^verbatim>\<open>id.rs\<close>): the error chain; identifiers, their text and
    byte forms with the round trips between them, and the generator over an abstract random
    source.
  \<^item> \<^verbatim>\<open>Channels\<close> (\<^verbatim>\<open>session/channel.rs\<close>): JSON numbers with exact double conversion, reducers,
    channel maps and the tracker a node writes through. Reducing in batches is reducing at once,
    and the maximum is the greatest of the numeric contributions.
  \<^item> \<^verbatim>\<open>Spec\<close> (\<^verbatim>\<open>session/spec.rs\<close>, the specification macros of \<^verbatim>\<open>marie-macros\<close>): what the
    macros accept and expand to, the built-in specifications and their merge.
  \<^item> \<^verbatim>\<open>Macros\<close> (the other macros of \<^verbatim>\<open>marie-macros\<close>): an invocation of \<^verbatim>\<open>rpc!\<close>, \<^verbatim>\<open>job!\<close>, \<^verbatim>\<open>tool!\<close> or
    \<^verbatim>\<open>node!\<close> is read from its tokens and expanded. What is written in the grammar is read back, and
    under every set of features the struct of an entry has one constructor that builds it.
  \<^item> \<^verbatim>\<open>Hitl\<close> (\<^verbatim>\<open>hitl\<close>): questions, validation, the store of requests, request and reply.
  \<^item> \<^verbatim>\<open>Catalog\<close> (\<^verbatim>\<open>catalog\<close>, and the directories of graphs, experts and tools): versions,
    publication, deprecation and deletion, with what each read returns after each of them.
  \<^item> \<^verbatim>\<open>Tool_Registry\<close> (\<^verbatim>\<open>tools/mod.rs\<close>, \<^verbatim>\<open>tools/executor.rs\<close>): native tools with their executors
    over the published ones. A registered tool is found and run whatever is published under its
    name.
  \<^item> \<^verbatim>\<open>Stream_Pool\<close> (\<^verbatim>\<open>stream.rs\<close>): the pool of streams with its handles. It never reports its end,
    and a value put after a delay is repeated.
  \<^item> \<^verbatim>\<open>Protocol\<close>, \<^verbatim>\<open>Run_Log\<close>, \<^verbatim>\<open>Graph\<close>: the messages of a session, the replay log and its
    macros, graph declarations and native nodes. A body replayed with its first calls resolved
    asks exactly the next one.
  \<^item> \<^verbatim>\<open>Script\<close> (\<^verbatim>\<open>graph/script.rs\<close>): nodes written as scripts, the functions the engine gives them,
    the cache of compiled scripts and the loop that drives one against the replay log. A script
    replays as a native body does, and a script with finitely many interactions returns.

  \<^bold>\<open>The files.\<close> The files of \<^verbatim>\<open>persistency\<close> named here are written, and no module of the crate
  declares them.

  \<^item> \<^verbatim>\<open>Virtual_Files\<close> (\<^verbatim>\<open>persistency/filesystem.rs\<close>, \<^verbatim>\<open>alias.rs\<close>, \<^verbatim>\<open>inode.rs\<close>): the router of mounts,
    the aliases and the table of inodes. A path goes to the longest mount that covers it; the
    table stays a forest, removing a path removes what is below it and nothing else, and what is
    written to a file is read back. One locale states the longest prefix for both routers.
  \<^item> \<^verbatim>\<open>Var_Files\<close> (\<^verbatim>\<open>persistency/var.rs\<close>, \<^verbatim>\<open>vfs.rs\<close>): variables read and written as files, and the
    file systems of a workspace and of its sessions.

  \<^bold>\<open>The session.\<close>

  \<^item> \<^verbatim>\<open>Frames\<close>, \<^verbatim>\<open>Frame_Tree\<close> (\<^verbatim>\<open>session/frames\<close>): frame records, their store and container, and
    the linked tree. The invariant relates parent, child and sibling links and the order of the
    children; insertion keeps it and the sibling walks terminate under it.
  \<^item> \<^verbatim>\<open>Snapshots\<close> (\<^verbatim>\<open>session/snapshot\<close>), \<^verbatim>\<open>Session_Store\<close> (\<^verbatim>\<open>session/store\<close>,
    \<^verbatim>\<open>session/logs\<close>, \<^verbatim>\<open>entity.rs\<close>): the stored snapshots and the cache in front of them, the
    sessions, their journal and the unit of work.
  \<^item> \<^verbatim>\<open>Session_Worker\<close> (\<^verbatim>\<open>session/worker.rs\<close>): the job that runs a frame, with the tools, experts
    and contexts it uses.
  \<^item> \<^verbatim>\<open>Checkpointer\<close> (\<^verbatim>\<open>session/checkpointer\<close>): the record of the checkpointer and one program per
    method, from the single frame marks to \<open>handle_event\<close>, \<open>process_event\<close> and \<open>ckp_run\<close>, the
    processing of a sequence of events.
  \<^item> \<^verbatim>\<open>Session_Controller\<close> (\<^verbatim>\<open>session/controller.rs\<close>, \<^verbatim>\<open>session/client.rs\<close>, the task of the
    checkpointer): the task as a step relation over its queue and its watched status, the
    controller with its cache, and the interleaving of their steps. In every reachable state the
    cache is coherent; no event reaches a checkpointer and none closes without an error.
  \<^item> \<^verbatim>\<open>Checkpointer_Tree\<close>: from the tree of a new session on, every handler keeps the tree well
    formed, whatever it returns; in a session reloaded from the store an append breaks the chain
    of siblings that are not loaded yet.
    \<^verbatim>\<open>Checkpointer_Steps\<close>: what a commit, an appended frame, the end of a child and a fan-in
    compute. \<^verbatim>\<open>Checkpointer_Events\<close>: how an error fails the session, and the events after which
    a session makes no more progress.

  \<^bold>\<open>The cluster.\<close>

  \<^item> \<^verbatim>\<open>Ordered_Maps\<close>: ordered maps as sorted association lists, for the keys and the log.
  \<^item> \<^verbatim>\<open>Nodes\<close> (\<^verbatim>\<open>node.rs\<close>, \<^verbatim>\<open>annuary/capabilities.rs\<close>), \<^verbatim>\<open>Selection\<close> (\<^verbatim>\<open>hrw.rs\<close>,
    \<^verbatim>\<open>annuary\<close>): identities and capabilities, rendezvous hashing with double arithmetic, and the
    table of peers. Directories that know the same nodes select the same best ones when no two
    of them score alike, a selection
    survives the departure of the others, and the finalizer of the hash is a bijection.
  \<^item> \<^verbatim>\<open>Secrets\<close> (\<^verbatim>\<open>secret\<close>): key epochs, derivation, sealing, membership proofs and the vault.
    Rotation keeps what was sealed readable, a retired epoch is refused.
  \<^item> \<^verbatim>\<open>Model_Catalog\<close> (\<^verbatim>\<open>model\<close>): models declared in the catalogue with their keys in the
    vault, the request sent for one and the stream made of the answer. An inserted model is used
    with its own key, and a stream is the text written and then one event that ends it.
  \<^item> \<^verbatim>\<open>Leases\<close> (\<^verbatim>\<open>lease\<close>): the authority, the replicated state machine with its log and its
    snapshots, the start of the group and the client. The authority refines one abstract slot per
    session, from which exclusion and the growth of the epochs follow.
  \<^item> \<^verbatim>\<open>Messaging\<close> (\<^verbatim>\<open>post\<close>, \<^verbatim>\<open>events\<close>, \<^verbatim>\<open>rpc\<close>, the commands of \<^verbatim>\<open>network\<close>): envelopes,
    routers, the event bus, calls and replies. A local call comes back and a call is resolved at
    most once; events and remote replies are lost for the reasons the theorems give.
  \<^item> \<^verbatim>\<open>Network\<close> (\<^verbatim>\<open>network/swarm.rs\<close>, \<^verbatim>\<open>network/mod.rs\<close>, the routers of \<^verbatim>\<open>events\<close> and \<^verbatim>\<open>annuary\<close>):
    the task that owns the swarm as steps over the commands of its clients and the events of the
    transport, and the streams it feeds. The directory events follow the connections and what other nodes
    announce on the topic of the directory, with the exception of an expired mDNS record, whose
    peer is forgotten while connected unless it is being probed; a last handle
    drains the queue and stops the task; and answering one remote call stops it for good.
  \<^item> \<^verbatim>\<open>Jobs\<close> (\<^verbatim>\<open>worker\<close>): the worker and its client, with their tasks as explicit steps. A
    scheduled job ends and a client that sees its events follows it.

  \<^bold>\<open>The command line.\<close>

  \<^item> \<^verbatim>\<open>Repl_Text\<close> (\<^verbatim>\<open>marie-cli/src/repl/tokenizer.rs\<close>, \<^verbatim>\<open>args.rs\<close>): lines are lists of code
    points; a command written from words and quoted flags is read back.
  \<^item> \<^verbatim>\<open>Repl\<close> (\<^verbatim>\<open>marie-cli/src/repl/mod.rs\<close>, \<^verbatim>\<open>state.rs\<close>, \<^verbatim>\<open>marie-cli/src/states\<close>): the stack of
    states, every command and the loop. The stack keeps its shape whatever is typed, and a saved
    graph is the latest version in the catalogue.
  \<^item> \<^verbatim>\<open>Terminal\<close> (\<^verbatim>\<open>marie-cli/src/states/executing_session.rs\<close>, \<^verbatim>\<open>repl/input.rs\<close>,
    \<^verbatim>\<open>repl/render.rs\<close>, \<^verbatim>\<open>expert/mod.rs\<close>): the listings, the session followed in the terminal with the
    questions it asks, and the consultation of an expert. A followed session calls the
    controller once for each request with the answers typed, and a form filled by numbers is accepted.

  \<^bold>\<open>The gateway.\<close>

  \<^item> \<^verbatim>\<open>Gateway\<close> (\<^verbatim>\<open>marie-gateway/src/lib.rs\<close>, \<^verbatim>\<open>protocol.rs\<close>): the actor of one connection, its
    commands and the events it relays. Whatever a connection sends, no client is called and no
    event is relayed for a session or a workspace unless an earlier check allowed it or the
    connection created it.

  \<^bold>\<open>The web client.\<close>

  \<^item> \<^verbatim>\<open>Chat_View\<close> (\<^verbatim>\<open>marie-web-example/src/components/chat_view.rs\<close>, \<^verbatim>\<open>dto.rs\<close>,
    \<^verbatim>\<open>marie-leptos/src/types.rs\<close>, \<^verbatim>\<open>hitl_form.rs\<close>, \<^verbatim>\<open>marie-ws/src/layer.rs\<close>): the signals of the page,
    its handlers and the interleaving of the tasks they spawn, the fields of a form and the
    channels muxed on a websocket. The socket is held once, an upload stays in the directory of its
    request, a filled form is accepted by the service and channels do not mix.

  \<^item> \<^verbatim>\<open>Graph_Editor\<close> (\<^verbatim>\<open>marie-leptos/src/state_graph_editor.rs\<close>, the fields of an executable in
    \<^verbatim>\<open>config_panel.rs\<close>): the hit tests, the mouse handlers and the shapes painted. Whatever the mouse
    does the drawing is a graph without loops or double edges, the search for a fresh identifier
    ends, and the handlers panic only on a drag whose node was deleted under it.
  \<^item> \<^verbatim>\<open>Web_Api\<close> (\<^verbatim>\<open>marie-web-example/src/api.rs\<close>, \<^verbatim>\<open>config_panel.rs\<close>, \<^verbatim>\<open>dto.rs\<close>): the server functions
    and the four sections of the configuration panel, with requests answered and resumed with at
    different moments. One locale carries the conversions of the four catalogues: what is created
    is listed once as it was entered, a drawn graph included, and what is refused changes nothing.
  \<^item> \<^verbatim>\<open>Web_Socket\<close> (\<^verbatim>\<open>marie-axum/src/ws.rs\<close>, \<^verbatim>\<open>protocol.rs\<close>): the execution of a message and the loop of
    a connection. A form is answered at most once each time it is pushed, even when the answer is
    refused.

  \<^bold>\<open>Conventions.\<close> Asynchronous code is modelled by the order in which one task runs it; the
  checkpointer processes its events one at a time, so a sequence of events is a list. A future
  that the source builds and never awaits does nothing, and the model says so where it happens.
  A panic is an outcome, distinct from an error; what was written before it stays written.
  Hash maps list their entries in insertion order, where the source fixes no order. No definition
  uses fuel: the loops of the source that follow links in the tree are partial functions into
  options, and the walks are proved to return under the invariant. The task of a checkpointer and
  the controller are step relations, one step of one task at a time.

  \<^bold>\<open>Parameters.\<close> The draws of the random source, the clock, the serialisation of catalogue items,
  the client of the model service, the native tools and the answer of the worker client to a
  submission are arguments. So are the cipher, the key derivation and the message authentication
  code, of which one law is assumed (opening what was sealed under the same key and nonce), the
  natural logarithm of the scores, the identifiers of leaders and memberships of the consensus
  library, the codecs of messages, of which the round trip is assumed where it is used, the
  answers of remote calls and the operations of a connected node under the command line. A
  running script is a tree of its interactions with the engine, since the script language is
  third-party; the conversion of its values, the text of JSON, the object store behind the files,
  the lines typed at the terminal in their order among the events, the clients a gateway calls and
  the parsing library of the macros are arguments. The swarm of the network is third-party: its
  events, the outcome of the calls made on it and the bytes of a peer identity are inputs, and the
  theorems on connections assume that its connection events carry the number of connections left.
  The clients the web server calls and the constructors of a state graph, which are not in the
  repository, are arguments with the laws of a table (of the calls that succeed, a list seeing the writes before
  it) and of a pair of fields, and one test on a
  rounded quotient in the graph editor is a predicate. The theorems on the tree assume that the
  draws are distinct.

  \<^bold>\<open>Where the model is coarser than the source.\<close> Trimming and lower case know ASCII only. Times
  are unbounded, so the overflow of a lease deadline, which panics, does not occur. A superstep wraps
  at 32 bits, as a release build does; a debug build panics there. A logged value is taken to decode
  to the type it was logged at, and the services under the command line answer with a value or an
  error and never panic. The ranking of nodes sorts by the order of the doubles; the source treats a
  comparison with NaN as equality, and the theorem on rankings excludes NaN. Deleting an inode
  deletes the rows below it, which the comment of the source leaves to the database schema. Indexes
  into the lists of the graph editor come from its hit tests and are taken to be in range, but for
  the one that panics.

  \<^bold>\<open>What is left out.\<close> The PostgreSQL stores are statements run by a database; the in-memory
  stores of the same traits are modelled instead. The swarm library, the consensus library and its
  transport, and the construction of the services are transport and glue. The markup of the web
  client and the strokes on its canvas are views of a browser framework. The watchdog of the
  workers uses types that do not exist; the services of workspaces are not compiled and rest on
  stores that are not in the repository; the store of \<^verbatim>\<open>network/persistency\<close> is commented out.
\<close>

end
